(* ===== verification/Prelude.thy ===== *)
theory Prelude
  imports Complex_Main "HOL-Library.Sublist" "HOL-Library.Char_ord"
begin

text \<open>
  Shared vocabulary of the development: the parts of Go's \<^verbatim>\<open>strings\<close> package the
  repository calls, on strings as byte lists, and generic facts on lists that several
  components use. White space is trimmed as \<^verbatim>\<open>unicode.IsSpace\<close> defines it, through the
  UTF-8 encodings of the white-space code points: an encoding starts with a byte that is
  never a continuation byte, so stripping encodings from either end is what decoding runes
  from that end does.
\<close>

named_theorems go_string \<open>facts on the string operations\<close>

section \<open>Go's strings package\<close>

definition ws_seqs :: "string list" where
  "ws_seqs = [[CHR 0x09], [CHR 0x0A], [CHR 0x0B], [CHR 0x0C], [CHR 0x0D], [CHR 0x20],
     [CHR 0xC2, CHR 0x85], [CHR 0xC2, CHR 0xA0], [CHR 0xE1, CHR 0x9A, CHR 0x80],
     [CHR 0xE2, CHR 0x80, CHR 0x80], [CHR 0xE2, CHR 0x80, CHR 0x81],
     [CHR 0xE2, CHR 0x80, CHR 0x82], [CHR 0xE2, CHR 0x80, CHR 0x83],
     [CHR 0xE2, CHR 0x80, CHR 0x84], [CHR 0xE2, CHR 0x80, CHR 0x85],
     [CHR 0xE2, CHR 0x80, CHR 0x86], [CHR 0xE2, CHR 0x80, CHR 0x87],
     [CHR 0xE2, CHR 0x80, CHR 0x88], [CHR 0xE2, CHR 0x80, CHR 0x89],
     [CHR 0xE2, CHR 0x80, CHR 0x8A], [CHR 0xE2, CHR 0x80, CHR 0xA8],
     [CHR 0xE2, CHR 0x80, CHR 0xA9], [CHR 0xE2, CHR 0x80, CHR 0xAF],
     [CHR 0xE2, CHR 0x81, CHR 0x9F], [CHR 0xE3, CHR 0x80, CHR 0x80]]"

definition starts_with_any :: "string list \<Rightarrow> string \<Rightarrow> string option" where
  "starts_with_any ps s = find (\<lambda>p. p \<noteq> [] \<and> prefix p s) ps"

lemma starts_with_any_shrinks:
  "starts_with_any ps s = Some p \<Longrightarrow> length s > 0 \<and> length p > 0"
  by (auto simp: starts_with_any_def find_Some_iff prefix_def)

function strip_front :: "string list \<Rightarrow> string \<Rightarrow> string" where
  "strip_front ps s =
     (case starts_with_any ps s of None \<Rightarrow> s | Some p \<Rightarrow> strip_front ps (drop (length p) s))"
  by pat_completeness auto
termination
  by (relation "measure (\<lambda>(ps, s). length s)") (auto dest!: starts_with_any_shrinks)

declare strip_front.simps [simp del]

text \<open>\<^verbatim>\<open>strings.TrimSpace\<close>.\<close>

definition TrimSpace :: "string \<Rightarrow> string" where
  "TrimSpace s = rev (strip_front (map rev ws_seqs) (rev (strip_front ws_seqs s)))"

text \<open>\<^verbatim>\<open>strings.HasPrefix\<close>, \<^verbatim>\<open>strings.HasSuffix\<close>, \<^verbatim>\<open>strings.Contains\<close>, with Go's argument order.\<close>

abbreviation HasPrefix :: "string \<Rightarrow> string \<Rightarrow> bool" where
  "HasPrefix s p \<equiv> prefix p s"

abbreviation HasSuffix :: "string \<Rightarrow> string \<Rightarrow> bool" where
  "HasSuffix s p \<equiv> suffix p s"

abbreviation Contains :: "string \<Rightarrow> string \<Rightarrow> bool" where
  "Contains s p \<equiv> sublist p s"

text \<open>\<^verbatim>\<open>strings.Split\<close> on a one-byte separator and \<^verbatim>\<open>strings.Join\<close>.\<close>

fun Split :: "char \<Rightarrow> string \<Rightarrow> string list" where
  "Split sep [] = [[]]"
| "Split sep (c # cs) =
     (if c = sep then [] # Split sep cs
      else (case Split sep cs of [] \<Rightarrow> [[c]] | w # ws \<Rightarrow> (c # w) # ws))"

fun Join :: "string \<Rightarrow> string list \<Rightarrow> string" where
  "Join sep [] = []"
| "Join sep [w] = w"
| "Join sep (w # v # ws) = w @ sep @ Join sep (v # ws)"

text \<open>\<^verbatim>\<open>strings.ReplaceAll\<close> with a one-byte pattern.\<close>

fun ReplaceAll :: "char \<Rightarrow> string \<Rightarrow> string \<Rightarrow> string" where
  "ReplaceAll c r [] = []"
| "ReplaceAll c r (x # xs) = (if x = c then r else [x]) @ ReplaceAll c r xs"

text \<open>\<^verbatim>\<open>strings.Fields\<close>: the maximal runs between white space.\<close>

function fields_acc :: "string \<Rightarrow> string \<Rightarrow> string list" where
  "fields_acc cur s =
     (case starts_with_any ws_seqs s of
        Some p \<Rightarrow> (if cur = [] then [] else [rev cur]) @ fields_acc [] (drop (length p) s)
      | None \<Rightarrow> (case s of [] \<Rightarrow> (if cur = [] then [] else [rev cur])
                 | c # cs \<Rightarrow> fields_acc (c # cur) cs))"
  by pat_completeness auto
termination
  by (relation "measure (\<lambda>(cur, s). length s)") (auto dest!: starts_with_any_shrinks)

declare fields_acc.simps [simp del]

definition Fields :: "string \<Rightarrow> string list" where
  "Fields s = fields_acc [] s"

text \<open>\<^verbatim>\<open>strconv\<close> and \<^verbatim>\<open>fmt\<close> rendering of integers in base ten (the verb \<^verbatim>\<open>%d\<close>).\<close>

definition digit_char :: "nat \<Rightarrow> char" where
  "digit_char d = char_of (48 + d)"

fun show_nat :: "nat \<Rightarrow> string" where
  "show_nat n = (if n < 10 then [digit_char n] else show_nat (n div 10) @ [digit_char (n mod 10)])"

declare show_nat.simps [simp del]

definition show_int :: "int \<Rightarrow> string" where
  "show_int i = (if i < 0 then ''-'' @ show_nat (nat (- i)) else show_nat (nat i))"

text \<open>The verb \<^verbatim>\<open>%0wd\<close> for a non-negative number.\<close>

definition pad_nat :: "nat \<Rightarrow> nat \<Rightarrow> string" where
  "pad_nat w n = (let s = show_nat n in replicate (w - length s) CHR ''0'' @ s)"

text \<open>\<^verbatim>\<open>sort.Strings\<close> orders strings by their bytes.\<close>

fun str_le :: "string \<Rightarrow> string \<Rightarrow> bool" where
  "str_le [] t = True"
| "str_le (c # s) [] = False"
| "str_le (c # s) (d # t) = (c < d \<or> c = d \<and> str_le s t)"

fun str_insert :: "string \<Rightarrow> string list \<Rightarrow> string list" where
  "str_insert x [] = [x]"
| "str_insert x (y # ys) = (if str_le x y then x # y # ys else y # str_insert x ys)"

definition sort_Strings :: "string list \<Rightarrow> string list" where
  "sort_Strings xs = foldr str_insert xs []"

section \<open>Go's time package and numeric conversions\<close>

text \<open>A \<^verbatim>\<open>time.Duration\<close> is a number of nanoseconds; \<^verbatim>\<open>time.Time.Sub\<close> saturates at the bounds of
  an \<^verbatim>\<open>int64\<close>; \<^verbatim>\<open>Duration.String\<close> is given on a whole number of seconds; the conversion of a
  \<^verbatim>\<open>float64\<close> to an integer type truncates towards zero.\<close>

definition second :: int where
  "second = 1000000000"

definition millisecond :: int where
  "millisecond = 1000000"

definition time_sub :: "int \<Rightarrow> int \<Rightarrow> int" where
  "time_sub t u = max (- (2 ^ 63)) (min (2 ^ 63 - 1) (t - u))"

definition duration_string :: "int \<Rightarrow> string" where
  "duration_string d = (let s = nat (d div second) in
     (if s \<ge> 3600 then show_nat (s div 3600) @ ''h'' else []) @
     (if s \<ge> 60 then show_nat (s div 60 mod 60) @ ''m'' else []) @ show_nat (s mod 60) @ ''s'')"

definition trunc :: "real \<Rightarrow> int" where
  "trunc x = (if x \<ge> 0 then \<lfloor>x\<rfloor> else \<lceil>x\<rceil>)"

section \<open>Facts on the string operations\<close>

lemma Split_not_Nil [simp]: "Split sep s \<noteq> []"
  by (induction s) (auto split: list.splits)

lemma Split_Cons_other:
  "c \<noteq> sep \<Longrightarrow> Split sep (c # cs) = (c # hd (Split sep cs)) # tl (Split sep cs)"
  by (auto split: list.splits)

lemma Join_Cons: "ws \<noteq> [] \<Longrightarrow> Join sep (w # ws) = w @ sep @ Join sep ws"
  by (cases ws) auto

lemma Join_Split [go_string]: "Join [sep] (Split sep s) = s"
proof (induction s)
  case Nil
  show ?case by simp
next
  case (Cons c cs)
  show ?case
  proof (cases "c = sep")
    case True
    with Cons show ?thesis by (simp add: Join_Cons)
  next
    case False
    obtain w ws where ws: "Split sep cs = w # ws"
      by (cases "Split sep cs") auto
    with Cons False show ?thesis by (cases ws) auto
  qed
qed

lemma Split_no_sep: "w \<in> set (Split sep s) \<Longrightarrow> sep \<notin> set w"
proof (induction s arbitrary: w)
  case Nil
  then show ?case by simp
next
  case (Cons c cs)
  then show ?case
    by (cases "Split sep cs") (auto split: if_splits)
qed

lemma Split_prefix_word: "sep \<notin> set w \<Longrightarrow> Split sep (w @ sep # s) = w # Split sep s"
  by (induction w) auto

lemma Split_word: "sep \<notin> set w \<Longrightarrow> Split sep w = [w]"
  by (induction w) auto

lemma Split_Join:
  "ws \<noteq> [] \<Longrightarrow> \<forall>w \<in> set ws. sep \<notin> set w \<Longrightarrow> Split sep (Join [sep] ws) = ws"
proof (induction ws)
  case Nil
  then show ?case by simp
next
  case (Cons w ws)
  then show ?case
    by (cases ws) (auto simp: Split_prefix_word Split_word)
qed

lemma strip_front_suffix: "suffix (strip_front ps s) s"
proof (induction ps s rule: strip_front.induct)
  case (1 ps s)
  show ?case
  proof (cases "starts_with_any ps s")
    case None
    then show ?thesis by (simp add: strip_front.simps [of ps s])
  next
    case (Some p)
    then have "suffix (strip_front ps (drop (length p) s)) (drop (length p) s)"
      by (rule 1)
    then show ?thesis
      using Some by (simp add: strip_front.simps [of ps s] suffix_drop suffix_order.trans)
  qed
qed

lemma strip_front_fixed: "starts_with_any ps (strip_front ps s) = None"
proof (induction ps s rule: strip_front.induct)
  case (1 ps s)
  then show ?case
    by (cases "starts_with_any ps s") (simp_all add: strip_front.simps [of ps s])
qed

lemma set_strip_front: "set (strip_front ps s) \<subseteq> set s"
  using strip_front_suffix [of ps s] by (rule set_mono_suffix)

lemma set_TrimSpace: "set (TrimSpace s) \<subseteq> set s"
  unfolding TrimSpace_def
  using set_strip_front [of "map rev ws_seqs" "rev (strip_front ws_seqs s)"]
    set_strip_front [of ws_seqs s]
  by auto


lemma set_str_insert [simp]: "set (str_insert x ys) = insert x (set ys)"
  by (induction ys) auto

lemma set_sort_Strings [simp]: "set (sort_Strings xs) = set xs"
  unfolding sort_Strings_def by (induction xs) auto

lemma length_str_insert [simp]: "length (str_insert x ys) = Suc (length ys)"
  by (induction ys) auto

lemma length_sort_Strings [simp]: "length (sort_Strings xs) = length xs"
  unfolding sort_Strings_def by (induction xs) auto

lemma str_le_total: "str_le s t \<or> str_le t s"
  by (induction s t rule: str_le.induct) auto

lemma str_le_trans: "str_le s t \<Longrightarrow> str_le t u \<Longrightarrow> str_le s u"
proof (induction s t arbitrary: u rule: str_le.induct)
  case (3 c s d t)
  then show ?case by (cases u) auto
qed auto

lemma sorted_str_insert:
  "sorted_wrt str_le ys \<Longrightarrow> sorted_wrt str_le (str_insert x ys)"
  using str_le_total by (induction ys) (auto dest: str_le_trans)

lemma sorted_sort_Strings: "sorted_wrt str_le (sort_Strings xs)"
  unfolding sort_Strings_def by (induction xs) (auto intro: sorted_str_insert)

lemma distinct_str_insert: "distinct ys \<Longrightarrow> x \<notin> set ys \<Longrightarrow> distinct (str_insert x ys)"
  by (induction ys) auto

lemma distinct_sort_Strings: "distinct xs \<Longrightarrow> distinct (sort_Strings xs)"
  unfolding sort_Strings_def
  by (induction xs) (auto intro!: distinct_str_insert simp flip: sort_Strings_def)


section \<open>Generic facts on lists\<close>

lemma find_append:
  "find P (xs @ ys) = (case find P xs of None \<Rightarrow> find P ys | Some x \<Rightarrow> Some x)"
  by (induction xs) auto

section \<open>Decimal numbers\<close>

definition digits_val :: "string \<Rightarrow> nat" where
  "digits_val s = foldl (\<lambda>a c. 10 * a + (of_char c - 48)) 0 s"

lemma digits_val_show_nat: "digits_val (show_nat n) = n"
proof (induction n rule: show_nat.induct)
  case (1 n)
  have digit: "of_char (digit_char d) = (48 + d :: nat)" if "d < 10" for d
    using that by (simp add: digit_char_def)
  show ?case
  proof (cases "n < 10")
    case True
    then show ?thesis by (subst show_nat.simps) (simp add: digits_val_def digit)
  next
    case False
    then have "digits_val (show_nat n) = 10 * digits_val (show_nat (n div 10)) + n mod 10"
      by (subst show_nat.simps) (simp add: digits_val_def digit)
    with 1 False show ?thesis by simp
  qed
qed

lemma show_nat_nonempty [simp]: "show_nat n \<noteq> []"
  by (subst show_nat.simps) simp

lemma show_int_nonempty [simp]: "show_int i \<noteq> []"
  by (simp add: show_int_def)

lemma show_nat_inject [simp]: "show_nat m = show_nat n \<longleftrightarrow> m = n"
  by (metis digits_val_show_nat)

end
