(* ===== verification/Shell.thy ===== *)
theory Shell
  imports Prelude
begin

text \<open>
  \<^verbatim>\<open>src/pkg/shell/quote.go\<close>: quoting of command arguments for a POSIX shell, and the
  lexical contract it has to meet. \<open>sh_lex\<close> is the contract: the word splitting of the
  POSIX shell command language (XCU 2.2 and 2.3) on the fragment without expansions. Outside
  quotes a blank separates words, a backslash quotes the next byte, and a single quote opens
  a literal run; an unquoted byte the shell would interpret (an operator, an expansion, a
  double quote, a comment, a newline) makes the result \<open>None\<close>.
\<close>

section \<open>The quoting functions\<close>

definition is_alpha :: "char \<Rightarrow> bool" where
  "is_alpha r \<longleftrightarrow> CHR ''a'' \<le> r \<and> r \<le> CHR ''z'' \<or> CHR ''A'' \<le> r \<and> r \<le> CHR ''Z''"

definition is_digit :: "char \<Rightarrow> bool" where
  "is_digit r \<longleftrightarrow> CHR ''0'' \<le> r \<and> r \<le> CHR ''9''"

text \<open>
  Go ranges over runes; a byte outside ASCII belongs to a rune above \<open>127\<close>, which is
  never allowed, and no single byte above \<open>127\<close> satisfies the test below, so the test on
  bytes is the test on runes.
\<close>

definition IsSimpleArg :: "string \<Rightarrow> bool" where
  "IsSimpleArg s \<longleftrightarrow> s \<noteq> [] \<and> list_all (\<lambda>r. is_alpha r \<or> is_digit r \<or>
     r = CHR ''-'' \<or> r = CHR ''_'' \<or> r = CHR ''.'' \<or> r = CHR ''/'' \<or> r = CHR ''='' \<or> r = CHR '':'') s"

definition squote :: char where
  "squote = CHR 0x27"

definition bslash :: char where
  "bslash = CHR 0x5C"

definition Quote :: "string \<Rightarrow> string" where
  "Quote s = (if IsSimpleArg s then s
     else [squote] @ ReplaceAll squote [squote, bslash, squote, squote] s @ [squote])"

definition JoinArgs :: "string list \<Rightarrow> string" where
  "JoinArgs args = (if args = [] then [] else Join '' '' (map Quote args))"

definition IsValidPOSIXEnvName :: "string \<Rightarrow> bool" where
  "IsValidPOSIXEnvName name = (case name of [] \<Rightarrow> False
     | first # rest \<Rightarrow> (is_alpha first \<or> first = CHR ''_'') \<and>
         list_all (\<lambda>c. is_alpha c \<or> is_digit c \<or> c = CHR ''_'') rest)"

section \<open>The shell's side of the contract\<close>

text \<open>Bytes that stand for themselves outside quotes in any position of a word.\<close>

definition sh_plain :: "char \<Rightarrow> bool" where
  "sh_plain c \<longleftrightarrow> is_alpha c \<or> is_digit c \<or> c \<in> set ''-_./=:,%+@''"

text \<open>
  \<open>sh_lex inw acc s\<close>: \<open>inw\<close> says whether a word has begun (an empty quoted run begins one),
  \<open>acc\<close> is that word so far, reversed; \<open>sh_sq\<close> is the same inside single quotes.
\<close>

fun sh_lex :: "bool \<Rightarrow> string \<Rightarrow> string \<Rightarrow> string list option"
  and sh_sq :: "string \<Rightarrow> string \<Rightarrow> string list option" where
  "sh_lex inw acc [] = Some (if inw then [rev acc] else [])"
| "sh_lex inw acc (c # cs) =
     (if c = CHR '' '' then map_option (\<lambda>ws. (if inw then [rev acc] else []) @ ws) (sh_lex False [] cs)
      else if c = squote then sh_sq acc cs
      else if c = bslash then (case cs of [] \<Rightarrow> None | d # ds \<Rightarrow> sh_lex True (d # acc) ds)
      else if sh_plain c then sh_lex True (c # acc) cs
      else None)"
| "sh_sq acc [] = None"
| "sh_sq acc (c # cs) = (if c = squote then sh_lex True acc cs else sh_sq (c # acc) cs)"

definition sh_words :: "string \<Rightarrow> string list option" where
  "sh_words s = sh_lex False [] s"

section \<open>Quoting is exact\<close>

lemma simple_plain: "IsSimpleArg s \<Longrightarrow> c \<in> set s \<Longrightarrow> sh_plain c"
  by (auto simp: IsSimpleArg_def sh_plain_def list_all_iff)

lemma plain_not_special:
  "sh_plain c \<Longrightarrow> c \<noteq> CHR '' '' \<and> c \<noteq> squote \<and> c \<noteq> bslash"
  by (auto simp: sh_plain_def is_alpha_def is_digit_def squote_def bslash_def less_eq_char_def)

lemma sh_lex_plain:
  "list_all sh_plain s \<Longrightarrow> s \<noteq> [] \<Longrightarrow> sh_lex inw acc (s @ t) = sh_lex True (rev s @ acc) t"
proof (induction s arbitrary: inw acc)
  case Nil
  then show ?case by simp
next
  case (Cons c s)
  then show ?case
    using plain_not_special [of c] by (cases s) auto
qed

lemma sh_sq_escaped:
  "sh_sq acc (ReplaceAll squote [squote, bslash, squote, squote] s @ [squote] @ t)
     = sh_lex True (rev s @ acc) t"
  by (induction s arbitrary: acc) (auto simp: squote_def bslash_def)

lemma sh_lex_Quote: "sh_lex False [] (Quote s @ t) = sh_lex True (rev s) t"
proof (cases "IsSimpleArg s")
  case True
  then have "list_all sh_plain s" and "s \<noteq> []"
    using simple_plain [OF True] by (auto simp: list_all_iff IsSimpleArg_def)
  with True show ?thesis by (simp add: Quote_def sh_lex_plain)
next
  case False
  then show ?thesis
    using sh_sq_escaped [of "[]" s t] by (simp add: Quote_def squote_def)
qed

text \<open>C14: for every argument list, a POSIX shell that splits the text produced by
  \<^verbatim>\<open>JoinArgs\<close> into words gets back exactly that list: no argument is split, merged, dropped
  or interpreted, whatever bytes it holds.\<close>

theorem JoinArgs_round_trip: "sh_words (JoinArgs args) = Some args"
proof (induction args)
  case Nil
  show ?case by (simp add: JoinArgs_def sh_words_def)
next
  case (Cons a args)
  show ?case
  proof (cases args)
    case Nil
    then show ?thesis
      using sh_lex_Quote [of a "[]"] by (simp add: JoinArgs_def sh_words_def)
  next
    case (Cons b bs)
    then have "JoinArgs (a # args) = Quote a @ CHR '' '' # JoinArgs args"
      by (simp add: JoinArgs_def)
    then show ?thesis
      using Cons.IH by (simp add: sh_words_def sh_lex_Quote)
  qed
qed

end
