(* ===== verification/Recorder.thy ===== *)
theory Recorder
  imports Prelude
begin

text \<open>
  The contract between a suite runner and the code that tallies its results, shared by the
  conformance suite (\<^verbatim>\<open>scenarios.Runner\<close>) and the stress suite (\<^verbatim>\<open>scenarios.StressRunner\<close>):
  \<^verbatim>\<open>RecordResult\<close> appends one result, \<^verbatim>\<open>Results\<close> returns them in the order of recording, and
  \<^verbatim>\<open>countResults\<close> splits them by their success flag.
\<close>

locale result_recorder =
  fixes add :: "'r \<Rightarrow> 's \<Rightarrow> 's"
    and results :: "'s \<Rightarrow> 'r list"
    and success :: "'r \<Rightarrow> bool"
    and count :: "'r list \<Rightarrow> int \<times> int"
  assumes results_record: "results (add r s) = results s @ [r]"
    and count_spec: "count rs =
      (int (length (filter success rs)), int (length (filter (\<lambda>r. \<not> success r) rs)))"
begin

lemma results_fold: "results (fold add rs s) = results s @ rs"
  by (induction rs arbitrary: s) (simp_all add: results_record)

lemma count_total: "fst (count rs) + snd (count rs) = int (length rs)"
  using sum_length_filter_compl [of success rs] by (simp add: count_spec flip: of_nat_add)

lemma no_failure_iff: "snd (count rs) = 0 \<longleftrightarrow> (\<forall>r \<in> set rs. success r)"
  by (simp add: count_spec filter_empty_conv)

lemma failure_iff: "snd (count rs) > 0 \<longleftrightarrow> (\<exists>r \<in> set rs. \<not> success r)"
  using no_failure_iff [of rs] by (simp add: count_spec filter_empty_conv)

lemma count_append: "snd (count (rs @ qs)) = snd (count rs) + snd (count qs)"
  by (simp add: count_spec)

end

end
