(* ===== verification/EtcdClient.thy ===== *)
theory EtcdClient
  imports Prelude
begin

text \<open>
  The etcd client as the suites use it outside their scenarios. The client library and the
  server behind it are not part of the sources: a client is a record of functions on the
  state \<open>'w\<close> of the outside world, and what the code relies on is the predicate
  \<open>deletes_prefix\<close>, the documented meaning of a range delete with \<^verbatim>\<open>WithPrefix\<close>.
  \<open>cleanup_keys\<close> is the body that the two runners' \<^verbatim>\<open>Cleanup\<close> methods share.
\<close>

datatype rpc_error = ErrCompacted | RPCError string

fun rpc_error_string :: "rpc_error \<Rightarrow> string" where
  "rpc_error_string ErrCompacted = ''etcdserver: mvcc: required revision has been compacted''"
| "rpc_error_string (RPCError e) = e"

record 'w etcd_client =
  cliNew :: "string list \<Rightarrow> 'w \<Rightarrow> string option \<times> 'w"
  cliDeletePrefix :: "string \<Rightarrow> 'w \<Rightarrow> (rpc_error + int) \<times> 'w"
  cliCompact :: "int \<Rightarrow> 'w \<Rightarrow> rpc_error option \<times> 'w"

text \<open>The revision of the delete is compacted; a failed compaction is only logged.\<close>

definition cleanup_keys ::
  "'w etcd_client \<Rightarrow> string \<Rightarrow> string list \<Rightarrow> string \<Rightarrow> 'w \<Rightarrow> string option \<times> 'w" where
  "cleanup_keys cl what endpoints testKeyPrefix w =
     (case cliNew cl endpoints w of
        (Some e, w1) \<Rightarrow> (Some (what @ '': '' @ e), w1)
      | (None, w1) \<Rightarrow>
        (case cliDeletePrefix cl testKeyPrefix w1 of
           (Inl e, w2) \<Rightarrow> (Some (''delete keys: '' @ rpc_error_string e), w2)
         | (Inr latestRev, w2) \<Rightarrow> (case cliCompact cl latestRev w2 of (_, w3) \<Rightarrow> (None, w3))))"

text \<open>What the code relies on, with \<open>keys w\<close> the live keys of the store: creating a client and
  compacting leave the live keys alone; a delete that is acknowledged removes exactly the keys
  that begin with the given string; a delete that fails may have been applied or not, but
  touches nothing else.\<close>

definition deletes_prefix :: "('w \<Rightarrow> string set) \<Rightarrow> 'w etcd_client \<Rightarrow> bool" where
  "deletes_prefix keys cl \<longleftrightarrow>
     (\<forall>eps w. keys (snd (cliNew cl eps w)) = keys w) \<and>
     (\<forall>p w rev w'. cliDeletePrefix cl p w = (Inr rev, w') \<longrightarrow> keys w' = {k \<in> keys w. \<not> HasPrefix k p}) \<and>
     (\<forall>p w e w'. cliDeletePrefix cl p w = (Inl e, w') \<longrightarrow>
        {k \<in> keys w. \<not> HasPrefix k p} \<subseteq> keys w' \<and> keys w' \<subseteq> keys w) \<and>
     (\<forall>rev w. keys (snd (cliCompact cl rev w)) = keys w)"

lemma deletes_prefixD:
  assumes "deletes_prefix keys cl"
  shows "cliNew cl eps w = (r, w') \<Longrightarrow> keys w' = keys w"
    and "cliDeletePrefix cl p w = (Inr n, w') \<Longrightarrow> keys w' = {k \<in> keys w. \<not> HasPrefix k p}"
    and "cliDeletePrefix cl p w = (Inl e, w') \<Longrightarrow>
      {k \<in> keys w. \<not> HasPrefix k p} \<subseteq> keys w' \<and> keys w' \<subseteq> keys w"
    and "keys (snd (cliCompact cl n w)) = keys w"
proof -
  show "cliNew cl eps w = (r, w') \<Longrightarrow> keys w' = keys w"
    using assms unfolding deletes_prefix_def by (metis snd_conv)
qed (use assms in \<open>simp_all add: deletes_prefix_def\<close>)

lemma cleanup_keys_confined:
  assumes "deletes_prefix keys cl"
  shows "{k \<in> keys w. \<not> HasPrefix k p} \<subseteq> keys (snd (cleanup_keys cl what eps p w))"
    and "keys (snd (cleanup_keys cl what eps p w)) \<subseteq> keys w"
    and "fst (cleanup_keys cl what eps p w) = None \<Longrightarrow>
      keys (snd (cleanup_keys cl what eps p w)) = {k \<in> keys w. \<not> HasPrefix k p}"
proof -
  obtain e1 w1 where new: "cliNew cl eps w = (e1, w1)" by fastforce
  obtain r w2 where del: "cliDeletePrefix cl p w1 = (r, w2)" by fastforce
  note law = deletes_prefixD [OF assms]
  have k1: "keys w1 = keys w" by (rule law(1) [OF new])
  have err: "{k \<in> keys w. \<not> HasPrefix k p} \<subseteq> keys w2 \<and> keys w2 \<subseteq> keys w" if "r = Inl e" for e
    using law(3) [OF del [unfolded that]] k1 by simp
  have ok: "keys w2 = {k \<in> keys w. \<not> HasPrefix k p}" if "r = Inr n" for n
    using law(2) [OF del [unfolded that]] k1 by simp
  have eq: "cleanup_keys cl what eps p w = (case e1 of Some e \<Rightarrow> (Some (what @ '': '' @ e), w1)
      | None \<Rightarrow> (case r of Inl e \<Rightarrow> (Some (''delete keys: '' @ rpc_error_string e), w2)
         | Inr n \<Rightarrow> (None, snd (cliCompact cl n w2))))"
    using new del by (simp add: cleanup_keys_def case_prod_beta split: option.split sum.split)
  show "{k \<in> keys w. \<not> HasPrefix k p} \<subseteq> keys (snd (cleanup_keys cl what eps p w))"
    and "keys (snd (cleanup_keys cl what eps p w)) \<subseteq> keys w"
    and "fst (cleanup_keys cl what eps p w) = None \<Longrightarrow>
      keys (snd (cleanup_keys cl what eps p w)) = {k \<in> keys w. \<not> HasPrefix k p}"
    unfolding eq using k1 err ok law(4) by (auto split: option.split sum.split)
qed

text \<open>A client that always succeeds and does nothing, for suites whose world has no keys.\<close>

definition idle_client :: "'w etcd_client" where
  "idle_client = \<lparr>cliNew = \<lambda>_ w. (None, w), cliDeletePrefix = \<lambda>_ w. (Inr 1, w),
     cliCompact = \<lambda>_ w. (None, w)\<rparr>"

lemma cleanup_idle_client [simp]: "cleanup_keys idle_client what eps p w = (None, w)"
  by (simp add: cleanup_keys_def idle_client_def)

text \<open>A client over a plain set of keys, on which the contract holds.\<close>

definition set_client :: "string set etcd_client" where
  "set_client = \<lparr>cliNew = \<lambda>_ w. (None, w),
     cliDeletePrefix = \<lambda>p w. (Inr 1, {k \<in> w. \<not> HasPrefix k p}),
     cliCompact = \<lambda>_ w. (None, w)\<rparr>"

lemma deletes_prefix_set_client: "deletes_prefix id set_client"
  by (auto simp: deletes_prefix_def set_client_def)

end
