(* ===== verification/Conformance.thy ===== *)
theory Conformance
  imports Recorder EtcdClient
begin

text \<open>
  \<^verbatim>\<open>src/internal/etcd/conformance/suite_workflow.go\<close> and
  \<^verbatim>\<open>scenarios/scenario_result.go\<close>: the conformance suite's configuration, its scenario loop
  with timeouts and retries, the tally and the exit status. A scenario run is an argument of
  the loop: \<open>attempt scenario timeout w\<close> tells how the goroutine of
  \<^verbatim>\<open>runScenarioWithTimeout\<close> ended, which results had been recorded by then (by it or by a
  scenario goroutine abandoned earlier), and the next state \<open>w\<close> of the world;
  \<open>pause w\<close> gives the results abandoned goroutines record during the two-second sleep
  between attempts. Durations are nanoseconds, as \<^verbatim>\<open>time.Duration\<close> has them; the parser
  \<^verbatim>\<open>time.ParseDuration\<close> is an argument. Log output is not modelled.
\<close>

section \<open>Configuration\<close>

definition DefaultEndpoints :: string where
  "DefaultEndpoints = ''https://127.0.0.1:2379''"

definition DefaultTestKeyPrefix :: string where
  "DefaultTestKeyPrefix = ''/etcd-infra-conformance/''"

record Options =
  opt_Endpoints :: "string list"
  opt_CACertFile :: string
  opt_ClientCertFile :: string
  opt_ClientKeyFile :: string
  opt_TestKeyPrefix :: string
  opt_ScenarioID :: string
  opt_StepTimeout :: string

record Config =
  Endpoints :: "string list"
  CACertFile :: string
  PrivateKeyFile :: string
  CertFile :: string
  TestKeyPrefix :: string
  ScenarioIDs :: "string list"
  stepTimeout :: string

datatype suite_error = ErrNoEndpoints | ErrNoTestKeyPrefix | ErrNoScenarios
  | ErrUnknownScenario string | ErrInvalidConfig suite_error | ErrTestsFailed suite_error
  | ErrScenariosFailed int

definition normalizeEndpoints :: "string list \<Rightarrow> string list" where
  "normalizeEndpoints endpoints =
     (let endpoints = (if length endpoints = 0 then [DefaultEndpoints] else endpoints);
          trimmed = filter (\<lambda>e. e \<noteq> []) (map TrimSpace endpoints)
      in if length trimmed = 0 then [DefaultEndpoints] else trimmed)"

text \<open>The registry \<^verbatim>\<open>IDStringToRunnerFunc\<close> is given by its key list.\<close>

definition resolveScenarioIDs :: "string list \<Rightarrow> string \<Rightarrow> string list" where
  "resolveScenarioIDs registry scenarioID =
     (let scenarioID = TrimSpace scenarioID in
      if scenarioID \<noteq> [] then [scenarioID] else sort_Strings registry)"

definition normalizeTestKeyPrefix :: "string \<Rightarrow> string" where
  "normalizeTestKeyPrefix pfx =
     (let pfx = TrimSpace pfx in if pfx = [] then DefaultTestKeyPrefix else pfx)"

definition ValidateAndSetDefaults :: "string list \<Rightarrow> Config \<Rightarrow> suite_error option" where
  "ValidateAndSetDefaults ids cfg =
     (if length (Endpoints cfg) = 0 then Some ErrNoEndpoints
      else if TestKeyPrefix cfg = [] then Some ErrNoTestKeyPrefix
      else if length (ScenarioIDs cfg) = 0 then Some ErrNoScenarios
      else case find (\<lambda>i. i \<notin> set ids) (ScenarioIDs cfg) of
             Some i \<Rightarrow> Some (ErrUnknownScenario i) | None \<Rightarrow> None)"

section \<open>Timeouts and retries\<close>

definition runnerTimeoutDefault :: int where
  "runnerTimeoutDefault = 180 * second"

definition scenarioTimeoutDefault :: int where
  "scenarioTimeoutDefault = 5 * 60 * second"

definition scenarioTimeoutExtended :: int where
  "scenarioTimeoutExtended = 10 * 60 * second"

definition determineRunnerTimeout :: "(string \<Rightarrow> int option) \<Rightarrow> string \<Rightarrow> int" where
  "determineRunnerTimeout parseDuration s =
     (let s = TrimSpace s in
      if s \<noteq> [] then (case parseDuration s of
           None \<Rightarrow> runnerTimeoutDefault
         | Some d \<Rightarrow> if d > 0 then d else runnerTimeoutDefault)
      else runnerTimeoutDefault)"

definition getScenarioTimeout :: "string \<Rightarrow> int" where
  "getScenarioTimeout scenario =
     (if HasPrefix scenario ''MIRROR_SYNC'' then scenarioTimeoutExtended
      else if Contains scenario ''CONTENDING'' then scenarioTimeoutExtended
      else if HasPrefix scenario ''WATCH_WITH'' then scenarioTimeoutExtended
      else if HasPrefix scenario ''MAINTENANCE'' then scenarioTimeoutExtended
      else if scenario = ''LEASING_PUT_AND_GET_AND_DELETE_CONCURRENT'' then scenarioTimeoutExtended
      else if Contains scenario ''WITH_PREFIX'' then scenarioTimeoutExtended
      else if Contains scenario ''FROM_KEY'' then scenarioTimeoutExtended
      else if scenario = ''TLS_CLIENT_AUTH'' then scenarioTimeoutExtended
      else if scenario = ''RESOURCE_SIZE_ESTIMATION'' then scenarioTimeoutExtended
      else scenarioTimeoutDefault)"

definition scenarioRetryCount :: nat where
  "scenarioRetryCount = 2"

definition shouldRetryScenario :: "string \<Rightarrow> bool" where
  "shouldRetryScenario scenario \<longleftrightarrow>
     HasPrefix scenario ''WATCH_WITH'' \<or> Contains scenario ''WITH_PREFIX'' \<or>
     Contains scenario ''FROM_KEY'' \<or> scenario = ''TLS_CLIENT_AUTH'' \<or>
     scenario = ''RESOURCE_SIZE_ESTIMATION'' \<or> scenario = ''LEASE_LIST'' \<or>
     scenario = ''LEASING_PUT_AND_GET_AND_DELETE_CONCURRENT''"

section \<open>Results and the runner\<close>

record Result =
  Scenario :: string
  TimeStart :: int
  TimeEnd :: int
  Took :: int
  Success :: bool
  Output :: string

definition RecordTimeEnd :: "int \<Rightarrow> Result \<Rightarrow> Result" where
  "RecordTimeEnd t rs = rs\<lparr>TimeEnd := t, Took := time_sub t (TimeStart rs)\<rparr>"

fun Failed :: "Result list \<Rightarrow> bool" where
  "Failed [] = False"
| "Failed (r # rs) = (if \<not> Success r then True else Failed rs)"

fun count_loop :: "Result list \<Rightarrow> int \<Rightarrow> int \<Rightarrow> int \<times> int" where
  "count_loop [] passed failed = (passed, failed)"
| "count_loop (r # rs) passed failed =
     (if Success r then count_loop rs (passed + 1) failed else count_loop rs passed (failed + 1))"

definition countResults :: "Result list \<Rightarrow> int \<times> int" where
  "countResults results = count_loop results 0 0"

record runner =
  cfg :: Config
  defaultTimeout :: int
  results :: "Result list"

definition RecordResult :: "Result \<Rightarrow> runner \<Rightarrow> runner" where
  "RecordResult rs r = r\<lparr>results := results r @ [rs]\<rparr>"

definition DropResultsFrom :: "nat \<Rightarrow> runner \<Rightarrow> runner" where
  "DropResultsFrom n r = (if n < length (results r) then r\<lparr>results := take n (results r)\<rparr> else r)"

definition NewCtxTimeout :: "int \<Rightarrow> runner \<Rightarrow> int" where
  "NewCtxTimeout timeout r = (if timeout \<le> 0 then defaultTimeout r else timeout)"

definition CreateRunner :: "(string \<Rightarrow> int option) \<Rightarrow> Config \<Rightarrow> runner" where
  "CreateRunner parseDuration c =
     \<lparr>cfg = c, defaultTimeout = determineRunnerTimeout parseDuration (stepTimeout c), results = []\<rparr>"

section \<open>The scenario loop\<close>

datatype outcome = Done | Panicked string | TimedOut

definition runScenarioWithTimeout :: "outcome \<Rightarrow> string \<Rightarrow> int \<Rightarrow> string option" where
  "runScenarioWithTimeout oc scenario timeout = (case oc of
       Done \<Rightarrow> None
     | Panicked v \<Rightarrow> Some (''scenario '' @ scenario @ '' panicked: '' @ v)
     | TimedOut \<Rightarrow> Some (''scenario '' @ scenario @ '' timed out after '' @ duration_string timeout
         @ '' (stuck on network operation or leader election)''))"

text \<open>The scan from the end down to index \<open>before\<close>; \<open>i\<close> counts the elements still to see.\<close>

fun lastFailureScan :: "nat \<Rightarrow> Result list \<Rightarrow> nat \<Rightarrow> string \<Rightarrow> Result option" where
  "lastFailureScan 0 rs before scenario = None"
| "lastFailureScan (Suc i) rs before scenario =
     (if i \<ge> before
      then if Scenario (rs ! i) = scenario
           then (if \<not> Success (rs ! i) then Some (rs ! i) else None)
           else lastFailureScan i rs before scenario
      else None)"

definition lastRecordedFailure :: "Result list \<Rightarrow> nat \<Rightarrow> string \<Rightarrow> Result option" where
  "lastRecordedFailure rs before scenario = lastFailureScan (length rs) rs before scenario"

text \<open>One attempt: the error it ends with, if any, and whether the scenario recorded it itself.\<close>

definition attempt_verdict ::
  "string \<Rightarrow> int \<Rightarrow> outcome \<Rightarrow> nat \<Rightarrow> runner \<Rightarrow> string option \<times> bool" where
  "attempt_verdict scenario timeout oc before r =
     (case runScenarioWithTimeout oc scenario timeout of
        Some e \<Rightarrow> (Some e, False)
      | None \<Rightarrow> (case lastRecordedFailure (results r) before scenario of
            Some f \<Rightarrow> (Some (''scenario '' @ scenario @ '' failed: '' @ Output f), True)
          | None \<Rightarrow> (None, False)))"

function attempt_loop ::
  "(string \<Rightarrow> int \<Rightarrow> 'w \<Rightarrow> outcome \<times> Result list \<times> 'w) \<Rightarrow> ('w \<Rightarrow> Result list \<times> 'w) \<Rightarrow>
   string \<Rightarrow> nat \<Rightarrow> nat \<Rightarrow> runner \<Rightarrow> 'w \<Rightarrow> string option \<times> bool \<times> nat \<times> runner \<times> 'w" where
  "attempt_loop run pause scenario maxAttempts attempt r w =
     (let timeout = getScenarioTimeout scenario;
          before = length (results r);
          (oc, recs, w1) = run scenario timeout w;
          r1 = fold RecordResult recs r;
          (err, recorded) = attempt_verdict scenario timeout oc before r1
      in case err of
           None \<Rightarrow> (None, False, attempt, r1, w1)
         | Some e \<Rightarrow>
             if attempt < maxAttempts
             then let r2 = DropResultsFrom before r1; (late, w2) = pause w1
                  in attempt_loop run pause scenario maxAttempts (Suc attempt)
                       (fold RecordResult late r2) w2
             else (Some e, recorded, attempt, r1, w1))"
  by pat_completeness auto
termination
  by (relation "measure (\<lambda>(run, pause, scenario, maxAttempts, attempt, r, w). maxAttempts - attempt)")
    auto

declare attempt_loop.simps [simp del]

definition maxAttemptsOf :: "string \<Rightarrow> nat" where
  "maxAttemptsOf scenario = (if shouldRetryScenario scenario then 1 + scenarioRetryCount else 1)"

text \<open>The body of the loop over \<^verbatim>\<open>cfg.ScenarioIDs\<close>.\<close>

definition run_scenario ::
  "(string \<Rightarrow> int \<Rightarrow> 'w \<Rightarrow> outcome \<times> Result list \<times> 'w) \<Rightarrow> ('w \<Rightarrow> Result list \<times> 'w) \<Rightarrow>
   string \<Rightarrow> runner \<Rightarrow> 'w \<Rightarrow> runner \<times> 'w" where
  "run_scenario run pause scenario r w =
     (let (finalErr, finalRecorded, n, r1, w1) =
            attempt_loop run pause scenario (maxAttemptsOf scenario) 1 r w
      in case finalErr of
           None \<Rightarrow> (r1, w1)
         | Some e \<Rightarrow>
             if finalRecorded then (r1, w1)
             else (RecordResult \<lparr>Scenario = scenario, TimeStart = 0, TimeEnd = 0, Took = 0,
                     Success = False, Output = e\<rparr> r1, w1))"

fun run_scenarios ::
  "(string \<Rightarrow> int \<Rightarrow> 'w \<Rightarrow> outcome \<times> Result list \<times> 'w) \<Rightarrow> ('w \<Rightarrow> Result list \<times> 'w) \<Rightarrow>
   string list \<Rightarrow> runner \<Rightarrow> 'w \<Rightarrow> runner \<times> 'w" where
  "run_scenarios run pause [] r w = (r, w)"
| "run_scenarios run pause (s # ss) r w =
     (let (r1, w1) = run_scenario run pause s r w in run_scenarios run pause ss r1 w1)"

definition Cleanup :: "'w etcd_client \<Rightarrow> runner \<Rightarrow> 'w \<Rightarrow> string option \<times> 'w" where
  "Cleanup cl r w = cleanup_keys cl ''create client'' (Endpoints (cfg r)) (TestKeyPrefix (cfg r)) w"

text \<open>The deferred \<^verbatim>\<open>Cleanup\<close> runs after the return value is taken; its error is only logged.\<close>

definition RunScenarios ::
  "(string \<Rightarrow> int option) \<Rightarrow> string list \<Rightarrow>
   (string \<Rightarrow> int \<Rightarrow> 'w \<Rightarrow> outcome \<times> Result list \<times> 'w) \<Rightarrow> ('w \<Rightarrow> Result list \<times> 'w) \<Rightarrow> 'w etcd_client \<Rightarrow>
   Config \<Rightarrow> 'w \<Rightarrow> (suite_error + Result list) \<times> 'w" where
  "RunScenarios parseDuration registry run pause cl c w =
     (case find (\<lambda>i. i \<notin> set registry) (ScenarioIDs c) of
        Some i \<Rightarrow> (Inl (ErrUnknownScenario i), w)
      | None \<Rightarrow> (let (r, w1) = run_scenarios run pause (ScenarioIDs c) (CreateRunner parseDuration c) w
                 in (Inr (results r), snd (Cleanup cl r w1))))"

definition Run ::
  "(string \<Rightarrow> int option) \<Rightarrow> string list \<Rightarrow> string list \<Rightarrow>
   (string \<Rightarrow> int \<Rightarrow> 'w \<Rightarrow> outcome \<times> Result list \<times> 'w) \<Rightarrow> ('w \<Rightarrow> Result list \<times> 'w) \<Rightarrow> 'w etcd_client \<Rightarrow>
   Options \<Rightarrow> 'w \<Rightarrow> suite_error option \<times> 'w" where
  "Run parseDuration ids registry run pause cl opts w =
     (let c = \<lparr>Endpoints = normalizeEndpoints (opt_Endpoints opts),
               CACertFile = TrimSpace (opt_CACertFile opts),
               PrivateKeyFile = TrimSpace (opt_ClientKeyFile opts),
               CertFile = TrimSpace (opt_ClientCertFile opts),
               TestKeyPrefix = normalizeTestKeyPrefix (opt_TestKeyPrefix opts),
               ScenarioIDs = resolveScenarioIDs registry (opt_ScenarioID opts),
               stepTimeout = TrimSpace (opt_StepTimeout opts)\<rparr>
      in case ValidateAndSetDefaults ids c of
           Some e \<Rightarrow> (Some (ErrInvalidConfig e), w)
         | None \<Rightarrow> (case RunScenarios parseDuration registry run pause cl c w of
               (Inl e, w1) \<Rightarrow> (Some (ErrTestsFailed e), w1)
             | (Inr rs, w1) \<Rightarrow> (let (passed, failed) = countResults rs in
                 if failed > 0 then (Some (ErrScenariosFailed failed), w1) else (None, w1))))"


section \<open>The tally\<close>

lemma count_loop_eq: "count_loop rs p f =
   (p + int (length (filter Success rs)), f + int (length (filter (\<lambda>r. \<not> Success r) rs)))"
  by (induction rs arbitrary: p f) auto

interpretation conf: result_recorder RecordResult results Success countResults
  by unfold_locales (simp_all add: RecordResult_def countResults_def count_loop_eq)

lemma Failed_iff: "Failed rs \<longleftrightarrow> (\<exists>r \<in> set rs. \<not> Success r)"
  by (induction rs) auto

section \<open>What a scenario attempt leaves behind\<close>

lemma lastFailureScan_append:
  "i \<le> length xs \<Longrightarrow> lastFailureScan i (xs @ ys) before s = lastFailureScan i xs before s"
  by (induction i) (auto simp: nth_append)

text \<open>The scan sees exactly the results recorded since \<open>before\<close>, newest first, and its verdict is
  that of the newest one with the scenario's name.\<close>

lemma lastRecordedFailure_find:
  "lastRecordedFailure (rs @ recs) (length rs) s =
     (case find (\<lambda>q. Scenario q = s) (rev recs) of
        Some q \<Rightarrow> (if Success q then None else Some q) | None \<Rightarrow> None)"
proof (induction recs rule: rev_induct)
  case Nil
  show ?case by (cases "length rs") (simp_all add: lastRecordedFailure_def)
next
  case (snoc q recs)
  have "lastFailureScan (length (rs @ recs)) (rs @ recs @ [q]) (length rs) s
      = lastRecordedFailure (rs @ recs) (length rs) s"
    using lastFailureScan_append [of "length (rs @ recs)" "rs @ recs" "[q]"]
    by (simp add: lastRecordedFailure_def)
  then show ?case
    using snoc by (auto simp: lastRecordedFailure_def nth_append)
qed

text \<open>After an attempt, \<^verbatim>\<open>lastRecordedFailure\<close> reports a failure exactly when the newest result
  recorded for that scenario since the attempt began is a failure; results of other
  scenarios and of earlier attempts never decide.\<close>

theorem lastRecordedFailure_newest:
  "lastRecordedFailure (rs @ recs) (length rs) s = Some q \<longleftrightarrow>
     (\<exists>older newer. recs = older @ q # newer \<and> Scenario q = s \<and> \<not> Success q \<and>
        s \<notin> Scenario ` set newer)"
proof -
  have split: "find (\<lambda>q. Scenario q = s) (rev recs) = Some q \<longleftrightarrow>
      (\<exists>older newer. recs = older @ q # newer \<and> Scenario q = s \<and> (\<forall>p \<in> set newer. Scenario p \<noteq> s))"
    (is "?l \<longleftrightarrow> ?r")
  proof
    assume ?l
    then show ?r
    proof (induction recs rule: rev_induct)
      case Nil
      then show ?case by simp
    next
      case (snoc a recs)
      show ?case
      proof (cases "Scenario a = s")
        case True
        with snoc.prems show ?thesis by (intro exI [of _ recs] exI [of _ "[]"]) auto
      next
        case False
        with snoc obtain older newer where "recs = older @ q # newer" "Scenario q = s"
          "\<forall>p \<in> set newer. Scenario p \<noteq> s" by auto
        with False show ?thesis by (intro exI [of _ older] exI [of _ "newer @ [a]"]) auto
      qed
    qed
  next
    assume ?r
    then obtain older newer where "recs = older @ q # newer" "Scenario q = s"
      "\<forall>p \<in> set newer. Scenario p \<noteq> s" by blast
    moreover from this have "find (\<lambda>q. Scenario q = s) (rev newer) = None"
      by (simp add: find_None_iff)
    ultimately show ?l by (simp add: find_append)
  qed
  have notin: "s \<notin> Scenario ` set newer \<longleftrightarrow> (\<forall>p \<in> set newer. Scenario p \<noteq> s)" for newer
    by (auto simp: image_iff)
  show ?thesis
    unfolding notin using split by (auto simp: lastRecordedFailure_find split: option.splits)
qed

section \<open>The retry loop refines its specification\<close>

text \<open>What the scenarios promise: a run that ends records exactly one result, under its own
  name; one that panics or is abandoned has recorded none, and records none later.\<close>

definition well_behaved ::
  "(string \<Rightarrow> int \<Rightarrow> 'w \<Rightarrow> outcome \<times> Result list \<times> 'w) \<Rightarrow> ('w \<Rightarrow> Result list \<times> 'w) \<Rightarrow> bool" where
  "well_behaved run pause \<longleftrightarrow> (\<forall>s t w oc recs w'. run s t w = (oc, recs, w') \<longrightarrow>
       (if oc = Done then \<exists>q. recs = [q] \<and> Scenario q = s else recs = [])) \<and>
     (\<forall>w. fst (pause w) = [])"

text \<open>The specification of one scenario: try until an attempt ends with a recorded success, at
  most \<open>n\<close> times more after the first.\<close>

fun spec_scenario ::
  "(string \<Rightarrow> int \<Rightarrow> 'w \<Rightarrow> outcome \<times> Result list \<times> 'w) \<Rightarrow> ('w \<Rightarrow> Result list \<times> 'w) \<Rightarrow>
   string \<Rightarrow> nat \<Rightarrow> 'w \<Rightarrow> bool \<times> 'w" where
  "spec_scenario run pause s n w =
     (case run s (getScenarioTimeout s) w of (oc, recs, w1) \<Rightarrow>
        if oc = Done \<and> list_all Success recs then (True, w1)
        else case n of 0 \<Rightarrow> (False, w1)
             | Suc k \<Rightarrow> spec_scenario run pause s k (snd (pause w1)))"

fun spec_suite ::
  "(string \<Rightarrow> int \<Rightarrow> 'w \<Rightarrow> outcome \<times> Result list \<times> 'w) \<Rightarrow> ('w \<Rightarrow> Result list \<times> 'w) \<Rightarrow>
   string list \<Rightarrow> 'w \<Rightarrow> (string \<times> bool) list \<times> 'w" where
  "spec_suite run pause [] w = ([], w)"
| "spec_suite run pause (s # ss) w =
     (let (ok, w1) = spec_scenario run pause s (maxAttemptsOf s - 1) w;
          (rest, w2) = spec_suite run pause ss w1
      in ((s, ok) # rest, w2))"

declare spec_scenario.simps [simp del]

lemma DropResultsFrom_record: "DropResultsFrom (length (results r)) (RecordResult q r) = r"
  "DropResultsFrom (length (results r)) r = r"
  by (simp_all add: DropResultsFrom_def RecordResult_def)

lemma well_behavedD:
  assumes "well_behaved run pause" and "run s t w = (oc, recs, w1)"
  shows "if oc = Done then \<exists>q. recs = [q] \<and> Scenario q = s else recs = []"
  using assms unfolding well_behaved_def by blast

lemma well_behaved_pause: "well_behaved run pause \<Longrightarrow> pause w = ([], snd (pause w))"
  by (simp add: well_behaved_def prod_eq_iff)

lemma attempt_verdict_cases:
  assumes "well_behaved run pause" and "run s t w = (oc, recs, w1)"
  obtains (pass) q where "oc = Done" "recs = [q]" "Success q" "Scenario q = s"
      "attempt_verdict s t oc (length (results r)) (fold RecordResult recs r) = (None, False)"
  | (fail) q e where "oc = Done" "recs = [q]" "\<not> Success q" "Scenario q = s"
      "attempt_verdict s t oc (length (results r)) (fold RecordResult recs r) = (Some e, True)"
  | (broken) e where "oc \<noteq> Done" "recs = []"
      "attempt_verdict s t oc (length (results r)) (fold RecordResult recs r) = (Some e, False)"
proof (cases "oc = Done")
  case True
  with assms obtain q where q: "recs = [q]" "Scenario q = s"
    using well_behavedD by fastforce
  have "lastRecordedFailure (results r @ [q]) (length (results r)) s
      = (if Success q then None else Some q)"
    using q lastRecordedFailure_find [of "results r" "[q]" s] by simp
  then show thesis
    using True q pass [of q] fail [of q]
    by (cases "Success q") (simp_all add: attempt_verdict_def runScenarioWithTimeout_def RecordResult_def)
next
  case False
  with well_behavedD [OF assms] have "recs = []" by simp
  with False show thesis
    using broken by (cases oc) (auto simp: attempt_verdict_def runScenarioWithTimeout_def)
qed


text \<open>One scenario: the runner gains exactly one result, named after the scenario, whose success
  flag and world are those of the specification.\<close>

lemma attempt_loop_refines:
  assumes "well_behaved run pause" and "attempt \<le> maxAttempts"
  shows "\<exists>err recorded n r' ok w'.
     attempt_loop run pause s maxAttempts attempt r w = (err, recorded, n, r', w') \<and>
     spec_scenario run pause s (maxAttempts - attempt) w = (ok, w') \<and>
     attempt \<le> n \<and> n \<le> maxAttempts \<and> (ok \<longleftrightarrow> err = None) \<and>
     (if ok \<or> recorded then \<exists>q. r' = RecordResult q r \<and> Scenario q = s \<and> (Success q \<longleftrightarrow> ok) else r' = r)"
  using assms
proof (induction "maxAttempts - attempt" arbitrary: attempt r w)
  case 0
  obtain oc recs w1 where run: "run s (getScenarioTimeout s) w = (oc, recs, w1)"
    by (cases "run s (getScenarioTimeout s) w") auto
  have last: "\<not> attempt < maxAttempts" "attempt = maxAttempts" using 0 by auto
  show ?case
    by (rule attempt_verdict_cases [OF 0(2) run, of r])
      (use last run in \<open>auto simp: attempt_loop.simps [of run] spec_scenario.simps\<close>)
next
  case (Suc k)
  obtain oc recs w1 where run: "run s (getScenarioTimeout s) w = (oc, recs, w1)"
    by (cases "run s (getScenarioTimeout s) w") auto
  have more: "attempt < maxAttempts" using Suc(2) by simp
  have spec: "spec_scenario run pause s (maxAttempts - attempt) w =
     (if oc = Done \<and> list_all Success recs then (True, w1)
      else spec_scenario run pause s k (snd (pause w1)))"
    using run Suc(2) by (simp add: spec_scenario.simps [of run pause s "Suc k"] flip: Suc(2))
  have k: "k = maxAttempts - Suc attempt" using Suc(2) by simp
  obtain err recorded n r' ok w' where IH:
    "attempt_loop run pause s maxAttempts (Suc attempt) r (snd (pause w1)) = (err, recorded, n, r', w')"
    "spec_scenario run pause s k (snd (pause w1)) = (ok, w')"
    "Suc attempt \<le> n" "n \<le> maxAttempts" "ok \<longleftrightarrow> err = None"
    "if ok \<or> recorded then \<exists>q. r' = RecordResult q r \<and> Scenario q = s \<and> (Success q \<longleftrightarrow> ok) else r' = r"
    using Suc(1) [OF k Suc(3), of r "snd (pause w1)"] more k by auto
  have retry: "attempt_loop run pause s maxAttempts attempt r w =
      attempt_loop run pause s maxAttempts (Suc attempt) r (snd (pause w1))"
    if "attempt_verdict s (getScenarioTimeout s) oc (length (results r)) (fold RecordResult recs r)
        = (Some e, b)" and "recs = [] \<or> (\<exists>q. recs = [q])" for e b
    using that more run well_behaved_pause [OF Suc(3), of w1]
    by (auto simp: attempt_loop.simps [of run pause s maxAttempts attempt] DropResultsFrom_record
        split: prod.splits)
  show ?case
  proof (rule attempt_verdict_cases [OF Suc(3) run, of r])
    fix q
    assume "oc = Done" "recs = [q]" "Success q" "Scenario q = s"
      "attempt_verdict s (getScenarioTimeout s) oc (length (results r)) (fold RecordResult recs r)
        = (None, False)"
    then show ?case
      using run spec Suc(4) by (auto simp: attempt_loop.simps [of run pause s maxAttempts attempt])
  next
    fix q e
    assume q: "oc = Done" "recs = [q]" "\<not> Success q"
      "attempt_verdict s (getScenarioTimeout s) oc (length (results r)) (fold RecordResult recs r)
        = (Some e, True)"
    then show ?case using IH spec retry [OF q(4)] by (auto split: if_split_asm)
  next
    fix e
    assume q: "oc \<noteq> Done" "recs = []"
      "attempt_verdict s (getScenarioTimeout s) oc (length (results r)) (fold RecordResult recs r)
        = (Some e, False)"
    then show ?case using IH spec retry [OF q(3)] by (auto split: if_split_asm)
  qed
qed


lemma maxAttemptsOf_bounds: "1 \<le> maxAttemptsOf s" "maxAttemptsOf s \<le> 3"
  by (simp_all add: maxAttemptsOf_def scenarioRetryCount_def)

lemma run_scenario_refines:
  assumes "well_behaved run pause"
  shows "\<exists>q ok w'. run_scenario run pause s r w = (RecordResult q r, w') \<and> Scenario q = s \<and>
     Success q = ok \<and> spec_scenario run pause s (maxAttemptsOf s - 1) w = (ok, w')"
proof -
  obtain err recorded n r' ok w' where loop:
    "attempt_loop run pause s (maxAttemptsOf s) 1 r w = (err, recorded, n, r', w')"
    "spec_scenario run pause s (maxAttemptsOf s - 1) w = (ok, w')" "ok \<longleftrightarrow> err = None"
    "if ok \<or> recorded then \<exists>q. r' = RecordResult q r \<and> Scenario q = s \<and> (Success q \<longleftrightarrow> ok) else r' = r"
    using attempt_loop_refines [OF assms maxAttemptsOf_bounds(1) [of s], of s r w] by blast
  show ?thesis
  proof (cases "ok \<or> recorded")
    case True
    with loop show ?thesis by (auto simp: run_scenario_def split: option.splits)
  next
    case False
    with loop show ?thesis by (auto simp: run_scenario_def)
  qed
qed

lemma run_scenarios_refines:
  assumes "well_behaved run pause"
  shows "\<exists>rs w'. run_scenarios run pause ss r w = (fold RecordResult rs r, w') \<and>
     spec_suite run pause ss w = (map (\<lambda>q. (Scenario q, Success q)) rs, w')"
proof (induction ss arbitrary: r w)
  case Nil
  show ?case by (intro exI [of _ "[]"]) simp
next
  case (Cons s ss)
  obtain q w1 where q: "run_scenario run pause s r w = (RecordResult q r, w1)" "Scenario q = s"
    "spec_scenario run pause s (maxAttemptsOf s - 1) w = (Success q, w1)"
    using run_scenario_refines [OF assms] by blast
  obtain rs w' where "run_scenarios run pause ss (RecordResult q r) w1
      = (fold RecordResult rs (RecordResult q r), w')"
    "spec_suite run pause ss w1 = (map (\<lambda>q. (Scenario q, Success q)) rs, w')"
    using Cons by blast
  with q show ?case by (intro exI [of _ "q # rs"]) simp
qed

lemma Cleanup_fold: "Cleanup cl (fold RecordResult rs r) = Cleanup cl r"
  by (induction rs arbitrary: r) (simp_all add: Cleanup_def RecordResult_def fun_eq_iff)

lemma RunScenarios_refines:
  assumes "well_behaved run pause" and "set (ScenarioIDs c) \<subseteq> set registry"
  shows "\<exists>rs w'. RunScenarios parseDuration registry run pause cl c w
       = (Inr rs, snd (Cleanup cl (CreateRunner parseDuration c) w')) \<and>
     spec_suite run pause (ScenarioIDs c) w = (map (\<lambda>q. (Scenario q, Success q)) rs, w')"
proof -
  obtain rs w' where rs: "run_scenarios run pause (ScenarioIDs c) (CreateRunner parseDuration c) w
      = (fold RecordResult rs (CreateRunner parseDuration c), w')"
    "spec_suite run pause (ScenarioIDs c) w = (map (\<lambda>q. (Scenario q, Success q)) rs, w')"
    using run_scenarios_refines [OF assms(1)] by blast
  have "find (\<lambda>i. i \<notin> set registry) (ScenarioIDs c) = None"
    using assms(2) by (auto simp: find_None_iff)
  moreover have "results (CreateRunner parseDuration c) = []" by (simp add: CreateRunner_def)
  ultimately show ?thesis using rs by (simp add: RunScenarios_def conf.results_fold Cleanup_fold)
qed


text \<open>A cluster on which \<^verbatim>\<open>LEASE_LIST\<close> fails once and then passes: the world counts attempts.\<close>

definition flaky_run :: "string \<Rightarrow> int \<Rightarrow> nat \<Rightarrow> outcome \<times> Result list \<times> nat" where
  "flaky_run s t w = (Done, [\<lparr>Scenario = s, TimeStart = 0, TimeEnd = 0, Took = 0,
      Success = (w > 0), Output = ''done''\<rparr>], Suc w)"



section \<open>Failures are never lost\<close>

lemma lastFailureScan_mem:
  "lastFailureScan i rs before s = Some q \<Longrightarrow> i \<le> length rs \<Longrightarrow>
     q \<in> set rs \<and> Scenario q = s \<and> \<not> Success q"
  by (induction i) (auto split: if_splits)

lemma lastRecordedFailure_mem:
  "lastRecordedFailure rs before s = Some q \<Longrightarrow> q \<in> set rs \<and> Scenario q = s \<and> \<not> Success q"
  unfolding lastRecordedFailure_def by (rule lastFailureScan_mem [OF _ order_refl])

lemma attempt_verdict_recorded:
  "attempt_verdict s t oc before r = (Some e, True) \<Longrightarrow>
     \<exists>q \<in> set (results r). Scenario q = s \<and> \<not> Success q"
  by (auto simp: attempt_verdict_def dest: lastRecordedFailure_mem split: option.splits)

lemma attempt_loop_recorded:
  "attempt_loop run pause s m a r w = (Some e, True, n, r', w') \<Longrightarrow>
     \<exists>q \<in> set (results r'). Scenario q = s \<and> \<not> Success q"
proof (induction run pause s m a r w rule: attempt_loop.induct)
  case (1 run pause s m a r w)
  obtain oc recs w1 where run: "run s (getScenarioTimeout s) w = (oc, recs, w1)"
    by (cases "run s (getScenarioTimeout s) w") auto
  obtain err rec where v: "attempt_verdict s (getScenarioTimeout s) oc (length (results r))
      (fold RecordResult recs r) = (err, rec)" by fastforce
  obtain late w2 where p: "pause w1 = (late, w2)" by fastforce
  from "1.prems" show ?case
  proof (cases err)
    case None
    with "1.prems" run v show ?thesis by (simp add: attempt_loop.simps [of run])
  next
    case (Some e')
    show ?thesis
    proof (cases "a < m")
      case True
      with "1.prems" run v p Some show ?thesis
        using "1.IH" [OF refl refl run [symmetric] refl refl refl v [symmetric] refl Some True refl p [symmetric] refl]
        by (simp add: attempt_loop.simps [of run pause s m a])
    next
      case False
      with "1.prems" run v p Some show ?thesis
        using attempt_verdict_recorded [of s _ oc] by (auto simp: attempt_loop.simps [of run])
    qed
  qed
qed


text \<open>Whatever a scenario does (panic, hang, record nothing, record under other names), if its
  last attempt ended in an error then the results hold a failure under its name, so the tally
  cannot come out clean.\<close>

theorem run_scenario_failure_recorded:
  assumes "attempt_loop run pause s (maxAttemptsOf s) 1 r w = (Some e, recorded, n, r', w')"
  shows "(\<exists>q \<in> set (results (fst (run_scenario run pause s r w))). Scenario q = s \<and> \<not> Success q) \<and>
     snd (countResults (results (fst (run_scenario run pause s r w)))) > 0"
proof -
  have "\<exists>q \<in> set (results (fst (run_scenario run pause s r w))). Scenario q = s \<and> \<not> Success q"
  proof (cases recorded)
    case True
    with assms show ?thesis
      using attempt_loop_recorded [of run pause s "maxAttemptsOf s" 1 r w e n r' w']
      by (simp add: run_scenario_def)
  next
    case False
    with assms show ?thesis by (simp add: run_scenario_def RecordResult_def)
  qed
  then show ?thesis using conf.failure_iff by blast
qed

text \<open>A scenario that panics: its deferred call has already recorded the initial, successful result.\<close>

definition panicking_run :: "string \<Rightarrow> int \<Rightarrow> unit \<Rightarrow> outcome \<times> Result list \<times> unit" where
  "panicking_run s t w = (Panicked ''index out of range'',
     [\<lparr>Scenario = s, TimeStart = 0, TimeEnd = 0, Took = 0, Success = True, Output = ''ok''\<rparr>], ())"

definition empty_runner :: runner where
  "empty_runner = CreateRunner (\<lambda>_. None) \<lparr>Endpoints = [], CACertFile = [], PrivateKeyFile = [],
     CertFile = [], TestKeyPrefix = [], ScenarioIDs = [], stepTimeout = []\<rparr>"

lemma compact_single_attempt: "shouldRetryScenario ''COMPACT'' = False"
  by code_simp

theorem run_scenario_failure_recorded_witness:
  "snd (countResults (results (fst (run_scenario panicking_run (\<lambda>w. ([], w)) ''COMPACT'' empty_runner ())))) > 0"
proof -
  have "\<exists>e b n r' w'. attempt_loop panicking_run (\<lambda>w. ([], w)) ''COMPACT'' (maxAttemptsOf ''COMPACT'') 1
      empty_runner () = (Some e, b, n, r', w')"
    by (simp add: attempt_loop.simps panicking_run_def maxAttemptsOf_def compact_single_attempt
        attempt_verdict_def runScenarioWithTimeout_def) blast
  then obtain e b n r' w' where "attempt_loop panicking_run (\<lambda>w. ([], w)) ''COMPACT''
      (maxAttemptsOf ''COMPACT'') 1 empty_runner () = (Some e, b, n, r', w')" by blast
  from run_scenario_failure_recorded [OF this] show ?thesis by (rule conjunct2)
qed

text \<open>A scenario that panics leaves two results behind when its deferred call records the
  result it was building: the one it was building, whatever its flag, and the failure the
  suite adds, so the tally counts it twice.\<close>

theorem panicking_scenario_counted_twice:
  assumes "\<not> shouldRetryScenario s"
    and "run s (getScenarioTimeout s) w = (Panicked v, [q], w1)"
  shows "map Success (results (fst (run_scenario run pause s r w))) =
     map Success (results r) @ [Success q, False]"
  using assms by (simp add: run_scenario_def attempt_loop.simps maxAttemptsOf_def
      attempt_verdict_def runScenarioWithTimeout_def RecordResult_def)

theorem panicking_scenario_counted_twice_witness:
  "map Success (results (fst (run_scenario panicking_run (\<lambda>w. ([], w)) ''COMPACT'' empty_runner ())))
     = [True, False]"
proof -
  let ?q = "\<lparr>Scenario = ''COMPACT'', TimeStart = 0, TimeEnd = 0, Took = 0, Success = True, Output = ''ok''\<rparr>"
  have "panicking_run ''COMPACT'' (getScenarioTimeout ''COMPACT'') () =
      (Panicked ''index out of range'', [?q], ())"
    by (simp add: panicking_run_def)
  from panicking_scenario_counted_twice [where run = panicking_run and s = "''COMPACT''" and w = "()", OF _ this]
  show ?thesis by (simp add: compact_single_attempt empty_runner_def CreateRunner_def)
qed

section \<open>The exit status\<close>

lemma normalizeEndpoints_nonempty: "normalizeEndpoints es \<noteq> []" "[] \<notin> set (normalizeEndpoints es)"
  by (auto simp: normalizeEndpoints_def Let_def DefaultEndpoints_def)

lemma normalizeTestKeyPrefix_nonempty: "normalizeTestKeyPrefix p \<noteq> []"
  by (simp add: normalizeTestKeyPrefix_def Let_def DefaultTestKeyPrefix_def)

lemma resolveScenarioIDs_registered:
  assumes "TrimSpace i = [] \<or> TrimSpace i \<in> set registry" "registry \<noteq> []"
  shows "set (resolveScenarioIDs registry i) \<subseteq> set registry" "resolveScenarioIDs registry i \<noteq> []"
proof -
  have "sort_Strings registry \<noteq> []" using assms(2) by (metis length_0_conv length_sort_Strings)
  with assms show "set (resolveScenarioIDs registry i) \<subseteq> set registry"
    "resolveScenarioIDs registry i \<noteq> []"
    by (auto simp: resolveScenarioIDs_def Let_def)
qed

text \<open>The suite exits with success exactly when every selected scenario passes its
  specification, for a selection that is empty (all scenarios) or registered.\<close>

theorem Run_success_iff:
  assumes "well_behaved run pause" and "set ids = set registry" and "registry \<noteq> []"
    and "TrimSpace (opt_ScenarioID opts) = [] \<or> TrimSpace (opt_ScenarioID opts) \<in> set registry"
  shows "fst (Run parseDuration ids registry run pause cl opts w) = None \<longleftrightarrow>
     list_all snd (fst (spec_suite run pause (resolveScenarioIDs registry (opt_ScenarioID opts)) w))"
proof -
  let ?c = "\<lparr>Endpoints = normalizeEndpoints (opt_Endpoints opts),
       CACertFile = TrimSpace (opt_CACertFile opts),
       PrivateKeyFile = TrimSpace (opt_ClientKeyFile opts), CertFile = TrimSpace (opt_ClientCertFile opts),
       TestKeyPrefix = normalizeTestKeyPrefix (opt_TestKeyPrefix opts),
       ScenarioIDs = resolveScenarioIDs registry (opt_ScenarioID opts),
       stepTimeout = TrimSpace (opt_StepTimeout opts)\<rparr>"
  note reg = resolveScenarioIDs_registered [OF assms(4,3)]
  have "find (\<lambda>i. i \<notin> set ids) (resolveScenarioIDs registry (opt_ScenarioID opts)) = None"
    using reg assms(2) by (auto simp: find_None_iff)
  then have valid: "ValidateAndSetDefaults ids ?c = None"
    using reg by (simp add: ValidateAndSetDefaults_def normalizeEndpoints_nonempty
        normalizeTestKeyPrefix_nonempty)
  obtain rs w1 w' where rs: "RunScenarios parseDuration registry run pause cl ?c w = (Inr rs, w1)"
    "spec_suite run pause (resolveScenarioIDs registry (opt_ScenarioID opts)) w
      = (map (\<lambda>q. (Scenario q, Success q)) rs, w')"
    using RunScenarios_refines [OF assms(1), of ?c registry parseDuration cl w] reg by auto
  have "fst (Run parseDuration ids registry run pause cl opts w) = None \<longleftrightarrow> \<not> snd (countResults rs) > 0"
    by (simp add: Run_def Let_def valid rs(1) split: prod.splits)
  also have "\<dots> \<longleftrightarrow> (\<forall>q \<in> set rs. Success q)" by (simp add: conf.failure_iff)
  also have "\<dots> \<longleftrightarrow> list_all snd (map (\<lambda>q. (Scenario q, Success q)) rs)"
    by (simp add: list_all_iff)
  finally show ?thesis using rs(2) by simp
qed


theorem Run_success_iff_witness:
  "fst (Run (\<lambda>_. None) [''LEASE_LIST''] [''LEASE_LIST''] flaky_run (\<lambda>w. ([], w)) idle_client
     \<lparr>opt_Endpoints = [], opt_CACertFile = [], opt_ClientCertFile = [], opt_ClientKeyFile = [],
      opt_TestKeyPrefix = [], opt_ScenarioID = [], opt_StepTimeout = []\<rparr> 0) = None"
proof -
  have wb: "well_behaved flaky_run (\<lambda>w. ([], w))"
    by (simp add: well_behaved_def flaky_run_def)
  have trim: "TrimSpace [] = []" using set_TrimSpace [of "[]"] by simp
  have spec: "spec_suite flaky_run (\<lambda>w. ([], w)) [''LEASE_LIST''] 0 = ([(''LEASE_LIST'', True)], 2)"
    by (simp add: spec_scenario.simps flaky_run_def maxAttemptsOf_def shouldRetryScenario_def
        scenarioRetryCount_def)
  show ?thesis
    by (subst Run_success_iff [OF wb])
      (simp_all add: trim resolveScenarioIDs_def sort_Strings_def spec del: spec_suite.simps)
qed

end
