(* ===== verification/Registry.thy ===== *)
theory Registry
  imports Prelude
begin

text \<open>
  The scenario registries of the two suites: \<^verbatim>\<open>scenario_ids.go\<close> (the identifier constants,
  numbered by \<^verbatim>\<open>iota\<close>), \<^verbatim>\<open>scenario_registry.go\<close> (the maps from identifier strings to identifiers and
  from strings and identifiers to runner functions), \<^verbatim>\<open>id_string.go\<close> (the generated \<^verbatim>\<open>String\<close> method with
  its packed name table) and \<^verbatim>\<open>scenario_id_codec.go\<close>. An identifier constant is represented by the number \<^verbatim>\<open>iota\<close> gives it in its constant block, a
  runner function by its Go name, and a Go map literal by the association list of its entries. The locale states what the parts of one
  registry owe each other; both registries interpret it.
\<close>

text \<open>Go's \<^verbatim>\<open>s[a:b]\<close> for \<open>a \<le> b \<le> len(s)\<close>.\<close>

definition slice :: "'a list \<Rightarrow> nat \<Rightarrow> nat \<Rightarrow> 'a list" where
  "slice s a b = take (b - a) (drop a s)"

definition id_String :: "string \<Rightarrow> string \<Rightarrow> nat list \<Rightarrow> int \<Rightarrow> string" where
  "id_String tyname name index i =
     (if i < 0 \<or> i \<ge> int (length index) - 1
      then tyname @ ''('' @ show_int i @ '')''
      else slice name (index ! nat i) (index ! nat (i + 1)))"

fun offsets :: "nat \<Rightarrow> string list \<Rightarrow> nat list" where
  "offsets n [] = [n]"
| "offsets n (s # ss) = n # offsets (n + length s) ss"

lemma length_offsets [simp]: "length (offsets n ss) = Suc (length ss)"
  by (induction ss arbitrary: n) simp_all

lemma offsets_nth:
  "i \<le> length ss \<Longrightarrow> offsets n ss ! i = n + length (concat (take i ss))"
proof (induction ss arbitrary: n i)
  case Nil
  then show ?case by simp
next
  case (Cons s ss)
  then show ?case by (cases i) auto
qed

lemma slice_concat:
  assumes "i < length ss"
  shows "slice (concat ss) (offsets 0 ss ! i) (offsets 0 ss ! Suc i) = ss ! i"
proof -
  have "concat ss = concat (take i ss) @ ss ! i @ concat (drop (Suc i) ss)"
    by (metis assms concat.simps(2) concat_append id_take_nth_drop)
  moreover have "offsets 0 ss ! Suc i - offsets 0 ss ! i = length (ss ! i)"
    using assms by (simp add: offsets_nth take_Suc_conv_app_nth)
  ultimately show ?thesis using assms by (simp add: slice_def offsets_nth)
qed

lemma map_of_nth:
  "distinct (map fst kvs) \<Longrightarrow> i < length kvs \<Longrightarrow> map_of kvs (fst (kvs ! i)) = Some (snd (kvs ! i))"
  by (simp add: map_of_eq_Some_iff)

locale id_table =
  fixes tyname :: string
    and toID :: "(string \<times> nat) list"
    and toRunner :: "(string \<times> string) list"
    and name :: string
    and index :: "nat list"
  assumes order: "map snd toID = [0..<length toID]"
    and distinct_names: "distinct (map fst toID)"
    and packed: "name = concat (map fst toID)"
    and packed_index: "index = offsets 0 (map fst toID)"
    and runner_names: "map fst toRunner = map fst toID"
begin

lemma String_nth: "i < length toID \<Longrightarrow> id_String tyname name index (int i) = fst (toID ! i)"
  using slice_concat [of i "map fst toID"]
  by (simp add: id_String_def packed packed_index nat_add_distrib)

lemma snd_nth: "i < length toID \<Longrightarrow> snd (toID ! i) = i"
  using arg_cong [OF order, of "\<lambda>xs. xs ! i"] by simp

lemma round_trip:
  "map_of toID s = Some i \<longleftrightarrow> i < length toID \<and> id_String tyname name index (int i) = s"
proof
  assume "map_of toID s = Some i"
  then obtain j where "j < length toID" "toID ! j = (s, i)"
    using map_of_SomeD by (fastforce simp: in_set_conv_nth)
  with snd_nth [of j] String_nth [of j] show "i < length toID \<and> id_String tyname name index (int i) = s"
    by simp
next
  assume "i < length toID \<and> id_String tyname name index (int i) = s"
  then show "map_of toID s = Some i"
    using map_of_nth [OF distinct_names, of i] snd_nth [of i] String_nth [of i] by simp
qed

lemma registered: "map_of toRunner s \<noteq> None \<longleftrightarrow> map_of toID s \<noteq> None"
  using arg_cong [OF runner_names, of set] by (simp add: map_of_eq_None_iff)

lemma out_of_range: "i < 0 \<or> int (length toID) \<le> i \<Longrightarrow>
  id_String tyname name index i = tyname @ ''('' @ show_int i @ '')''"
  by (auto simp: id_String_def packed_index)

end

text \<open>A registry whose map from identifiers to runners is complete as well.\<close>

locale full_id_table = id_table +
  fixes byID :: "(nat \<times> string) list"
  assumes byID_keys: "map fst byID = [0..<length toID]"
    and byID_runners: "map snd byID = map snd toRunner"
begin

lemma runner_agrees:
  assumes "map_of toID s = Some i"
  shows "map_of toRunner s = map_of byID i \<and> map_of byID i \<noteq> None"
proof -
  have i: "i < length toID" "s = fst (toID ! i)" using assms round_trip String_nth by auto
  have len: "length toRunner = length toID" "length byID = length toID"
    using arg_cong [OF runner_names, of length] arg_cong [OF byID_keys, of length] by simp_all
  have "fst (toRunner ! i) = s"
    using i len arg_cong [OF runner_names, of "\<lambda>xs. xs ! i"] by simp
  then have "map_of toRunner s = Some (snd (toRunner ! i))"
    using map_of_nth [of toRunner i] distinct_names i len by (simp add: runner_names)
  moreover have "fst (byID ! i) = i" using i len arg_cong [OF byID_keys, of "\<lambda>xs. xs ! i"] by simp
  then have "map_of byID i = Some (snd (byID ! i))"
    using map_of_nth [of byID i] i len by (simp add: byID_keys)
  moreover have "snd (toRunner ! i) = snd (byID ! i)"
    using i len arg_cong [OF byID_runners, of "\<lambda>xs. xs ! i"] by simp
  ultimately show ?thesis by simp
qed

end

section \<open>The conformance registry\<close>

definition IDStringToID :: "(string \<times> nat) list" where
  "IDStringToID = [
    (''PUT_EMPTY_KEY_SHOULD_ERROR'', 0), (''PUT_LARGE_SHOULD_ERROR'', 1),
    (''PUT_AND_GET_WITH_LATEST_REVISION'', 2), (''PUT_AND_GET_WITH_OLD_REVISION'', 3),
    (''PUT_AND_GET_WITH_PREFIX'', 4), (''PUT_AND_GET_WITH_FROM_KEY'', 5),
    (''PUT_AND_GET_WITH_NAMESPACE'', 6), (''PUT_AND_GET_WITH_SORT'', 7), (''PUT_AND_GET_WITH_OP'', 8),
    (''PUT_AND_DELETE'', 9), (''PUT_AND_DELETE_WITH_PREFIX'', 10),
    (''PUT_AND_DELETE_AND_GET_WITH_OLD_REVISION'', 11), (''PUT_LINEARIZABILITY'', 12),
    (''PUT_WITH_LEASE_TIME_TO_LIVE'', 13), (''PUT_WITH_LEASE_NOT_FOUND'', 14),
    (''PUT_WITH_LEASE_AND_REVOKE'', 15), (''PUT_WITH_LEASE_KEEPALIVE'', 16),
    (''PUT_WITH_LEASE_KEEPALIVE_ONE_SECOND'', 17), (''PUT_WITH_LEASE_KEEPALIVE_ONCE'', 18),
    (''PUT_WITH_LEASE_KEEPALIVE_FULL_RESPONSE_QUEUE'', 19), (''PUT_WITH_IGNORE_VALUE'', 20),
    (''PUT_WITH_IGNORE_LEASE'', 21), (''LEASE_TOO_LARGE'', 22), (''LEASE_KEEPALIVE_REVOKE'', 23),
    (''GET_EMPTY_KEY'', 24), (''GET_WITH_PREFIX'', 25), (''GET_WITH_FROM_KEY'', 26),
    (''GET_WITH_RANGE'', 27), (''GET_WITH_LIMIT_AND_COUNT'', 28), (''GET_WITH_REVISION_FILTERS'', 29),
    (''GET_WITH_REQUIRE_LEADER'', 30), (''DELETE_EMPTY_KEY'', 31), (''DELETE_ALL_WITH_PREFIX'', 32),
    (''DELETE_ALL_WITH_FROM_KEY'', 33), (''DELETE_WITH_RANGE'', 34), (''DELETE_WITH_PRECONDITION'', 35),
    (''COMPACT'', 36), (''TXN_PUT_ONE'', 37), (''TXN_PUT_MULTIPLE'', 38), (''TXN_KEY_EXISTS'', 39),
    (''TXN_KEY_MISSING'', 40), (''TXN_COMPARE_RANGE'', 41), (''TXN_COMPARE_MODREVISION'', 42),
    (''TXN_NESTED'', 43), (''TXN_ERROR_DUPLICATE_KEY'', 44), (''TXN_ERROR_TOO_MANY_OPS'', 45),
    (''WATCH_EMPTY_KEY'', 46), (''WATCH_AND_PUT'', 47), (''WATCH_WITH_PREV_KV'', 48),
    (''WATCH_AND_PUT_WITH_OLD_REVISION'', 49), (''WATCH_AND_PUT_WITH_IGNORE_VALUE'', 50),
    (''WATCH_AND_PUT_WITH_NAMESPACE'', 51), (''WATCH_WITH_COMPACTED_REVISION'', 52),
    (''WATCH_EVENT_TYPE'', 53), (''WATCH_WITH_PREFIX'', 54), (''WATCH_WITH_RANGE'', 55),
    (''WATCH_WITH_MULTIPLE_WATCHERS'', 56), (''WATCH_CANCEL_INFLIGHT'', 57),
    (''WATCH_CANCEL_IMMEDIATE'', 58), (''WATCH_CANCEL_INIT'', 59),
    (''WATCH_CANCEL_OVERLAPPING_CONTEXT'', 60), (''WATCH_CANCEL_CLOSE'', 61), (''WATCH_WITH_FILTER'', 62),
    (''WATCH_WITH_CREATED_NOTIFICATION'', 63), (''WATCH_WITH_PROGRESS_NOTIFY'', 64),
    (''WATCH_WITH_REQUEST_PROGRESS'', 65), (''WATCH_WITH_TOO_LARGE_RESPONSE'', 66),
    (''WATCH_WITH_FRAGMENTED_LARGE_RESPONSE'', 67), (''MIRROR_SYNC_BASE'', 68),
    (''MIRROR_SYNC_UPDATES'', 69), (''CONCURRENCY_MUTEX_LOCK'', 70), (''CONCURRENCY_MUTEX_TRYLOCK'', 71),
    (''CONCURRENCY_MUTEX_LOCK_WITH_REVOKED_SESSION'', 72),
    (''CONCURRENCY_MUTEX_LOCK_WITH_SESSION_REVOKE'', 73), (''CONCURRENCY_ELECTION_CAMPAIGN'', 74),
    (''CONCURRENCY_ELECTION_RESUME'', 75), (''CONCURRENCY_STM_APPLY'', 76), (''LEASING_PUT_AND_GET'', 77),
    (''LEASING_PUT_AND_GET_WITH_PREFIX'', 78), (''LEASING_PUT_AND_GET_INVALIDATE_NEW'', 79),
    (''LEASING_PUT_AND_GET_INVALIDATE_EXISTING'', 80), (''LEASING_PUT_AND_GET_WITH_PREV_KV'', 81),
    (''LEASING_PUT_AND_GET_WITH_REV'', 82), (''LEASING_PUT_AND_GET_WITH_OPTS'', 83),
    (''LEASING_PUT_CONCURRENT'', 84), (''LEASING_PUT_AND_GET_OVERWRITE_RESPONSE'', 85),
    (''LEASING_PUT_AND_DELETE_WITH_PREFIX'', 86), (''LEASING_PUT_AND_DELETE_WITH_FROM_KEY'', 87),
    (''LEASING_PUT_AND_DELETE_RANGE_WITH_CONTENDING_TXN'', 88),
    (''LEASING_PUT_AND_DELETE_RANGE_WITH_CONTENDING_DELETE'', 89),
    (''LEASING_PUT_AND_GET_AND_DELETE_CONCURRENT'', 90), (''LEASING_DELETE_OWNER'', 91),
    (''LEASING_DELETE_NON_OWNER'', 92), (''LEASING_TXN_OWNER_GET'', 93),
    (''LEASING_TXN_OWNER_GET_WITH_PREFIX'', 94), (''LEASING_TXN_OWNER_DELETE'', 95),
    (''LEASING_TXN_OWNER_DELETE_WITH_PREFIX'', 96), (''LEASING_TXN_NON_OWNER_PUT'', 97),
    (''LEASING_TXN_RAND_IF_THEN_OR_ELSE'', 98), (''LEASING_TXN_ATOMIC_CACHE'', 99),
    (''LEASING_TXN_RANGE_CMP'', 100), (''LEASING_DO'', 101), (''LEASING_LEASE_REUSE_WINDOW'', 102),
    (''MAINTENANCE_STATUS'', 103), (''MAINTENANCE_SNAPSHOT'', 104), (''CLUSTER_MEMBER_LIST'', 105),
    (''LEASE_EXPIRATION_AUTO_DELETE'', 106), (''WATCH_RESUME_AFTER_DISCONNECT'', 107),
    (''GET_WITH_CONTINUE_TOKEN'', 108), (''TLS_CLIENT_AUTH'', 109), (''RESOURCE_SIZE_ESTIMATION'', 110),
    (''ERROR_COMPACTED'', 111), (''ERROR_FUTURE_REV'', 112), (''TXN_COMPARE_CREATEREVISION'', 113),
    (''TXN_COMPARE_VERSION'', 114), (''TXN_COMPARE_VALUE'', 115), (''DELETE_WITH_PREV_KV'', 116),
    (''WATCH_BOOKMARK_DELIVERY'', 117), (''HEADER_REVISION_MONOTONIC'', 118),
    (''MOD_REVISION_CONSISTENCY'', 119), (''PUT_WITH_PREV_KV'', 120), (''LEASE_LIST'', 121),
    (''TXN_COMPARE_LEASE'', 122), (''GET_WITH_KEYS_ONLY'', 123), (''PUT_WITH_LEASE_ATTACH'', 124),
    (''WATCH_INITIAL_EVENTS'', 125), (''TXN_MULTI_OP_ATOMICITY'', 126),
    (''COMPACT_REVISION_RETENTION'', 127), (''WATCH_ORDERING_GUARANTEE'', 128),
    (''LEASE_GRANT_TTL_BOUNDS'', 129), (''MAINTENANCE_DEFRAGMENT'', 130), (''MAINTENANCE_HASH_KV'', 131)]"

definition IDStringToRunnerFunc :: "(string \<times> string) list" where
  "IDStringToRunnerFunc = [
    (''PUT_EMPTY_KEY_SHOULD_ERROR'', ''RunPutEmptyKeyShouldError''),
    (''PUT_LARGE_SHOULD_ERROR'', ''RunPutLargeShouldError''),
    (''PUT_AND_GET_WITH_LATEST_REVISION'', ''RunPutAndGetWithLatestRevision''),
    (''PUT_AND_GET_WITH_OLD_REVISION'', ''RunPutAndGetWithOldRevision''),
    (''PUT_AND_GET_WITH_PREFIX'', ''RunPutAndGetWithPrefix''),
    (''PUT_AND_GET_WITH_FROM_KEY'', ''RunPutAndGetWithFromKey''),
    (''PUT_AND_GET_WITH_NAMESPACE'', ''RunPutAndGetWithNamespace''),
    (''PUT_AND_GET_WITH_SORT'', ''RunPutAndGetWithSort''), (''PUT_AND_GET_WITH_OP'', ''RunPutAndGetWithOp''),
    (''PUT_AND_DELETE'', ''RunPutAndDelete''),
    (''PUT_AND_DELETE_WITH_PREFIX'', ''RunPutAndDeleteWithPrefix''),
    (''PUT_AND_DELETE_AND_GET_WITH_OLD_REVISION'', ''RunPutAndDeleteAndGetWithOldRevision''),
    (''PUT_LINEARIZABILITY'', ''RunPutLinearizability''),
    (''PUT_WITH_LEASE_TIME_TO_LIVE'', ''RunPutWithLeaseTimeToLive''),
    (''PUT_WITH_LEASE_NOT_FOUND'', ''RunPutWithLeaseNotFound''),
    (''PUT_WITH_LEASE_AND_REVOKE'', ''RunPutWithLeaseAndRevoke''),
    (''PUT_WITH_LEASE_KEEPALIVE'', ''RunPutWithLeaseKeepalive''),
    (''PUT_WITH_LEASE_KEEPALIVE_ONE_SECOND'', ''RunPutWithLeaseKeepaliveOneSecond''),
    (''PUT_WITH_LEASE_KEEPALIVE_ONCE'', ''RunPutWithLeaseKeepaliveOnce''),
    (''PUT_WITH_LEASE_KEEPALIVE_FULL_RESPONSE_QUEUE'', ''RunPutWithLeaseKeepaliveFullResponseQueue''),
    (''PUT_WITH_IGNORE_VALUE'', ''RunPutWithIgnoreValue''),
    (''PUT_WITH_IGNORE_LEASE'', ''RunPutWithIgnoreLease''), (''LEASE_TOO_LARGE'', ''RunLeaseTooLarge''),
    (''LEASE_KEEPALIVE_REVOKE'', ''RunLeaseKeepaliveRevoke''), (''GET_EMPTY_KEY'', ''RunGetEmptyKey''),
    (''GET_WITH_PREFIX'', ''RunGetWithPrefix''), (''GET_WITH_FROM_KEY'', ''RunGetWithFromKey''),
    (''GET_WITH_RANGE'', ''RunGetWithRange''), (''GET_WITH_LIMIT_AND_COUNT'', ''RunGetWithLimitAndCount''),
    (''GET_WITH_REVISION_FILTERS'', ''RunGetWithRevisionFilters''),
    (''GET_WITH_REQUIRE_LEADER'', ''RunGetWithRequireLeader''),
    (''DELETE_EMPTY_KEY'', ''RunDeleteEmptyKey''), (''DELETE_ALL_WITH_PREFIX'', ''RunDeleteAllWithPrefix''),
    (''DELETE_ALL_WITH_FROM_KEY'', ''RunDeleteAllWithFromKey''),
    (''DELETE_WITH_RANGE'', ''RunDeleteWithRange''),
    (''DELETE_WITH_PRECONDITION'', ''RunDeleteWithPrecondition''), (''COMPACT'', ''RunCompact''),
    (''TXN_PUT_ONE'', ''RunTxnPutOne''), (''TXN_PUT_MULTIPLE'', ''RunTxnPutMultiple''),
    (''TXN_KEY_EXISTS'', ''RunTxnKeyExists''), (''TXN_KEY_MISSING'', ''RunTxnKeyMissing''),
    (''TXN_COMPARE_RANGE'', ''RunTxnCompareRange''),
    (''TXN_COMPARE_MODREVISION'', ''RunTxnCompareModrevision''), (''TXN_NESTED'', ''RunTxnNested''),
    (''TXN_ERROR_DUPLICATE_KEY'', ''RunTxnErrorDuplicateKey''),
    (''TXN_ERROR_TOO_MANY_OPS'', ''RunTxnErrorTooManyOps''), (''WATCH_EMPTY_KEY'', ''RunWatchEmptyKey''),
    (''WATCH_AND_PUT'', ''RunWatchAndPut''), (''WATCH_WITH_PREV_KV'', ''RunWatchWithPrevKv''),
    (''WATCH_AND_PUT_WITH_OLD_REVISION'', ''RunWatchAndPutWithOldRevision''),
    (''WATCH_AND_PUT_WITH_IGNORE_VALUE'', ''RunWatchAndPutWithIgnoreValue''),
    (''WATCH_AND_PUT_WITH_NAMESPACE'', ''RunWatchAndPutWithNamespace''),
    (''WATCH_WITH_COMPACTED_REVISION'', ''RunWatchWithCompactedRevision''),
    (''WATCH_EVENT_TYPE'', ''RunWatchEventType''), (''WATCH_WITH_PREFIX'', ''RunWatchWithPrefix''),
    (''WATCH_WITH_RANGE'', ''RunWatchWithRange''),
    (''WATCH_WITH_MULTIPLE_WATCHERS'', ''RunWatchWithMultipleWatchers''),
    (''WATCH_CANCEL_INFLIGHT'', ''RunWatchCancelInflight''),
    (''WATCH_CANCEL_IMMEDIATE'', ''RunWatchCancelImmediate''),
    (''WATCH_CANCEL_INIT'', ''RunWatchCancelInit''),
    (''WATCH_CANCEL_OVERLAPPING_CONTEXT'', ''RunWatchCancelOverlappingContext''),
    (''WATCH_CANCEL_CLOSE'', ''RunWatchCancelClose''), (''WATCH_WITH_FILTER'', ''RunWatchWithFilter''),
    (''WATCH_WITH_CREATED_NOTIFICATION'', ''RunWatchWithCreatedNotification''),
    (''WATCH_WITH_PROGRESS_NOTIFY'', ''RunWatchWithProgressNotify''),
    (''WATCH_WITH_REQUEST_PROGRESS'', ''RunWatchWithRequestProgress''),
    (''WATCH_WITH_TOO_LARGE_RESPONSE'', ''RunWatchWithTooLargeResponse''),
    (''WATCH_WITH_FRAGMENTED_LARGE_RESPONSE'', ''RunWatchWithFragmentedLargeResponse''),
    (''MIRROR_SYNC_BASE'', ''RunMirrorSyncBase''), (''MIRROR_SYNC_UPDATES'', ''RunMirrorSyncUpdates''),
    (''CONCURRENCY_MUTEX_LOCK'', ''RunConcurrencyMutexLock''),
    (''CONCURRENCY_MUTEX_TRYLOCK'', ''RunConcurrencyMutexTrylock''),
    (''CONCURRENCY_MUTEX_LOCK_WITH_REVOKED_SESSION'', ''RunConcurrencyMutexLockWithRevokedSession''),
    (''CONCURRENCY_MUTEX_LOCK_WITH_SESSION_REVOKE'', ''RunConcurrencyMutexLockWithSessionRevoke''),
    (''CONCURRENCY_ELECTION_CAMPAIGN'', ''RunConcurrencyElectionCampaign''),
    (''CONCURRENCY_ELECTION_RESUME'', ''RunConcurrencyElectionResume''),
    (''CONCURRENCY_STM_APPLY'', ''RunConcurrencyStmApply''),
    (''LEASING_PUT_AND_GET'', ''RunLeasingPutAndGet''),
    (''LEASING_PUT_AND_GET_WITH_PREFIX'', ''RunLeasingPutAndGetWithPrefix''),
    (''LEASING_PUT_AND_GET_INVALIDATE_NEW'', ''RunLeasingPutAndGetInvalidateNew''),
    (''LEASING_PUT_AND_GET_INVALIDATE_EXISTING'', ''RunLeasingPutAndGetInvalidateExisting''),
    (''LEASING_PUT_AND_GET_WITH_PREV_KV'', ''RunLeasingPutAndGetWithPrevKv''),
    (''LEASING_PUT_AND_GET_WITH_REV'', ''RunLeasingPutAndGetWithRev''),
    (''LEASING_PUT_AND_GET_WITH_OPTS'', ''RunLeasingPutAndGetWithOpts''),
    (''LEASING_PUT_CONCURRENT'', ''RunLeasingPutConcurrent''),
    (''LEASING_PUT_AND_GET_OVERWRITE_RESPONSE'', ''RunLeasingPutAndGetOverwriteResponse''),
    (''LEASING_PUT_AND_DELETE_WITH_PREFIX'', ''RunLeasingPutAndDeleteWithPrefix''),
    (''LEASING_PUT_AND_DELETE_WITH_FROM_KEY'', ''RunLeasingPutAndDeleteWithFromKey''),
    (''LEASING_PUT_AND_DELETE_RANGE_WITH_CONTENDING_TXN'', ''RunLeasingPutAndDeleteRangeWithContendingTxn''),
    (''LEASING_PUT_AND_DELETE_RANGE_WITH_CONTENDING_DELETE'', ''RunLeasingPutAndDeleteRangeWithContendingDelete''),
    (''LEASING_PUT_AND_GET_AND_DELETE_CONCURRENT'', ''RunLeasingPutAndGetAndDeleteConcurrent''),
    (''LEASING_DELETE_OWNER'', ''RunLeasingDeleteOwner''),
    (''LEASING_DELETE_NON_OWNER'', ''RunLeasingDeleteNonOwner''),
    (''LEASING_TXN_OWNER_GET'', ''RunLeasingTxnOwnerGet''),
    (''LEASING_TXN_OWNER_GET_WITH_PREFIX'', ''RunLeasingTxnOwnerGetWithPrefix''),
    (''LEASING_TXN_OWNER_DELETE'', ''RunLeasingTxnOwnerDelete''),
    (''LEASING_TXN_OWNER_DELETE_WITH_PREFIX'', ''RunLeasingTxnOwnerDeleteWithPrefix''),
    (''LEASING_TXN_NON_OWNER_PUT'', ''RunLeasingTxnNonOwnerPut''),
    (''LEASING_TXN_RAND_IF_THEN_OR_ELSE'', ''RunLeasingTxnRandIfThenOrElse''),
    (''LEASING_TXN_ATOMIC_CACHE'', ''RunLeasingTxnAtomicCache''),
    (''LEASING_TXN_RANGE_CMP'', ''RunLeasingTxnRangeCmp''), (''LEASING_DO'', ''RunLeasingDo''),
    (''LEASING_LEASE_REUSE_WINDOW'', ''RunLeasingLeaseReuseWindow''),
    (''MAINTENANCE_STATUS'', ''RunMaintenanceStatus''),
    (''MAINTENANCE_SNAPSHOT'', ''RunMaintenanceSnapshot''),
    (''CLUSTER_MEMBER_LIST'', ''RunClusterMemberList''),
    (''LEASE_EXPIRATION_AUTO_DELETE'', ''RunLeaseExpirationAutoDelete''),
    (''WATCH_RESUME_AFTER_DISCONNECT'', ''RunWatchResumeAfterDisconnect''),
    (''GET_WITH_CONTINUE_TOKEN'', ''RunGetWithContinueToken''), (''TLS_CLIENT_AUTH'', ''RunTLSClientAuth''),
    (''RESOURCE_SIZE_ESTIMATION'', ''RunResourceSizeEstimation''),
    (''ERROR_COMPACTED'', ''RunErrorCompacted''), (''ERROR_FUTURE_REV'', ''RunErrorFutureRev''),
    (''TXN_COMPARE_CREATEREVISION'', ''RunTxnCompareCreaterevision''),
    (''TXN_COMPARE_VERSION'', ''RunTxnCompareVersion''), (''TXN_COMPARE_VALUE'', ''RunTxnCompareValue''),
    (''DELETE_WITH_PREV_KV'', ''RunDeleteWithPrevKv''),
    (''WATCH_BOOKMARK_DELIVERY'', ''RunWatchBookmarkDelivery''),
    (''HEADER_REVISION_MONOTONIC'', ''RunHeaderRevisionMonotonic''),
    (''MOD_REVISION_CONSISTENCY'', ''RunModRevisionConsistency''),
    (''PUT_WITH_PREV_KV'', ''RunPutWithPrevKv''), (''LEASE_LIST'', ''RunLeaseList''),
    (''TXN_COMPARE_LEASE'', ''RunTxnCompareLease''), (''GET_WITH_KEYS_ONLY'', ''RunGetWithKeysOnly''),
    (''PUT_WITH_LEASE_ATTACH'', ''RunPutWithLeaseAttach''),
    (''WATCH_INITIAL_EVENTS'', ''RunWatchInitialEvents''),
    (''TXN_MULTI_OP_ATOMICITY'', ''RunTxnMultiOpAtomicity''),
    (''COMPACT_REVISION_RETENTION'', ''RunCompactRevisionRetention''),
    (''WATCH_ORDERING_GUARANTEE'', ''RunWatchOrderingGuarantee''),
    (''LEASE_GRANT_TTL_BOUNDS'', ''RunLeaseGrantTTLBounds''),
    (''MAINTENANCE_DEFRAGMENT'', ''RunMaintenanceDefragment''),
    (''MAINTENANCE_HASH_KV'', ''RunMaintenanceHashKv'')]"

definition IDToRunner :: "(nat \<times> string) list" where
  "IDToRunner = [
    (0, ''RunPutEmptyKeyShouldError''), (1, ''RunPutLargeShouldError''),
    (2, ''RunPutAndGetWithLatestRevision''), (3, ''RunPutAndGetWithOldRevision''),
    (4, ''RunPutAndGetWithPrefix''), (5, ''RunPutAndGetWithFromKey''), (6, ''RunPutAndGetWithNamespace''),
    (7, ''RunPutAndGetWithSort''), (8, ''RunPutAndGetWithOp''), (9, ''RunPutAndDelete''),
    (10, ''RunPutAndDeleteWithPrefix''), (11, ''RunPutAndDeleteAndGetWithOldRevision''),
    (12, ''RunPutLinearizability''), (13, ''RunPutWithLeaseTimeToLive''), (14, ''RunPutWithLeaseNotFound''),
    (15, ''RunPutWithLeaseAndRevoke''), (16, ''RunPutWithLeaseKeepalive''),
    (17, ''RunPutWithLeaseKeepaliveOneSecond''), (18, ''RunPutWithLeaseKeepaliveOnce''),
    (19, ''RunPutWithLeaseKeepaliveFullResponseQueue''), (20, ''RunPutWithIgnoreValue''),
    (21, ''RunPutWithIgnoreLease''), (22, ''RunLeaseTooLarge''), (23, ''RunLeaseKeepaliveRevoke''),
    (24, ''RunGetEmptyKey''), (25, ''RunGetWithPrefix''), (26, ''RunGetWithFromKey''),
    (27, ''RunGetWithRange''), (28, ''RunGetWithLimitAndCount''), (29, ''RunGetWithRevisionFilters''),
    (30, ''RunGetWithRequireLeader''), (31, ''RunDeleteEmptyKey''), (32, ''RunDeleteAllWithPrefix''),
    (33, ''RunDeleteAllWithFromKey''), (34, ''RunDeleteWithRange''), (35, ''RunDeleteWithPrecondition''),
    (36, ''RunCompact''), (37, ''RunTxnPutOne''), (38, ''RunTxnPutMultiple''), (39, ''RunTxnKeyExists''),
    (40, ''RunTxnKeyMissing''), (41, ''RunTxnCompareRange''), (42, ''RunTxnCompareModrevision''),
    (43, ''RunTxnNested''), (44, ''RunTxnErrorDuplicateKey''), (45, ''RunTxnErrorTooManyOps''),
    (46, ''RunWatchEmptyKey''), (47, ''RunWatchAndPut''), (48, ''RunWatchWithPrevKv''),
    (49, ''RunWatchAndPutWithOldRevision''), (50, ''RunWatchAndPutWithIgnoreValue''),
    (51, ''RunWatchAndPutWithNamespace''), (52, ''RunWatchWithCompactedRevision''),
    (53, ''RunWatchEventType''), (54, ''RunWatchWithPrefix''), (55, ''RunWatchWithRange''),
    (56, ''RunWatchWithMultipleWatchers''), (57, ''RunWatchCancelInflight''),
    (58, ''RunWatchCancelImmediate''), (59, ''RunWatchCancelInit''),
    (60, ''RunWatchCancelOverlappingContext''), (61, ''RunWatchCancelClose''), (62, ''RunWatchWithFilter''),
    (63, ''RunWatchWithCreatedNotification''), (64, ''RunWatchWithProgressNotify''),
    (65, ''RunWatchWithRequestProgress''), (66, ''RunWatchWithTooLargeResponse''),
    (67, ''RunWatchWithFragmentedLargeResponse''), (68, ''RunMirrorSyncBase''),
    (69, ''RunMirrorSyncUpdates''), (70, ''RunConcurrencyMutexLock''), (71, ''RunConcurrencyMutexTrylock''),
    (72, ''RunConcurrencyMutexLockWithRevokedSession''), (73, ''RunConcurrencyMutexLockWithSessionRevoke''),
    (74, ''RunConcurrencyElectionCampaign''), (75, ''RunConcurrencyElectionResume''),
    (76, ''RunConcurrencyStmApply''), (77, ''RunLeasingPutAndGet''), (78, ''RunLeasingPutAndGetWithPrefix''),
    (79, ''RunLeasingPutAndGetInvalidateNew''), (80, ''RunLeasingPutAndGetInvalidateExisting''),
    (81, ''RunLeasingPutAndGetWithPrevKv''), (82, ''RunLeasingPutAndGetWithRev''),
    (83, ''RunLeasingPutAndGetWithOpts''), (84, ''RunLeasingPutConcurrent''),
    (85, ''RunLeasingPutAndGetOverwriteResponse''), (86, ''RunLeasingPutAndDeleteWithPrefix''),
    (87, ''RunLeasingPutAndDeleteWithFromKey''), (88, ''RunLeasingPutAndDeleteRangeWithContendingTxn''),
    (89, ''RunLeasingPutAndDeleteRangeWithContendingDelete''),
    (90, ''RunLeasingPutAndGetAndDeleteConcurrent''), (91, ''RunLeasingDeleteOwner''),
    (92, ''RunLeasingDeleteNonOwner''), (93, ''RunLeasingTxnOwnerGet''),
    (94, ''RunLeasingTxnOwnerGetWithPrefix''), (95, ''RunLeasingTxnOwnerDelete''),
    (96, ''RunLeasingTxnOwnerDeleteWithPrefix''), (97, ''RunLeasingTxnNonOwnerPut''),
    (98, ''RunLeasingTxnRandIfThenOrElse''), (99, ''RunLeasingTxnAtomicCache''),
    (100, ''RunLeasingTxnRangeCmp''), (101, ''RunLeasingDo''), (102, ''RunLeasingLeaseReuseWindow''),
    (103, ''RunMaintenanceStatus''), (104, ''RunMaintenanceSnapshot''), (105, ''RunClusterMemberList''),
    (106, ''RunLeaseExpirationAutoDelete''), (107, ''RunWatchResumeAfterDisconnect''),
    (108, ''RunGetWithContinueToken''), (109, ''RunTLSClientAuth''), (110, ''RunResourceSizeEstimation''),
    (111, ''RunErrorCompacted''), (112, ''RunErrorFutureRev''), (113, ''RunTxnCompareCreaterevision''),
    (114, ''RunTxnCompareVersion''), (115, ''RunTxnCompareValue''), (116, ''RunDeleteWithPrevKv''),
    (117, ''RunWatchBookmarkDelivery''), (118, ''RunHeaderRevisionMonotonic''),
    (119, ''RunModRevisionConsistency''), (120, ''RunPutWithPrevKv''), (121, ''RunLeaseList''),
    (122, ''RunTxnCompareLease''), (123, ''RunGetWithKeysOnly''), (124, ''RunPutWithLeaseAttach''),
    (125, ''RunWatchInitialEvents''), (126, ''RunTxnMultiOpAtomicity''),
    (127, ''RunCompactRevisionRetention''), (128, ''RunWatchOrderingGuarantee''),
    (129, ''RunLeaseGrantTTLBounds''), (130, ''RunMaintenanceDefragment''), (131, ''RunMaintenanceHashKv'')]"

definition ID_Name :: string where
  "ID_Name =
    ''PUT_EMPTY_KEY_SHOULD_ERRORPUT_LARGE_SHOULD_ERRORPUT_AND_GET_WITH_LATEST_REVISIONPUT_AND_GE'' @
    ''T_WITH_OLD_REVISIONPUT_AND_GET_WITH_PREFIXPUT_AND_GET_WITH_FROM_KEYPUT_AND_GET_WITH_NAMESP'' @
    ''ACEPUT_AND_GET_WITH_SORTPUT_AND_GET_WITH_OPPUT_AND_DELETEPUT_AND_DELETE_WITH_PREFIXPUT_AND'' @
    ''_DELETE_AND_GET_WITH_OLD_REVISIONPUT_LINEARIZABILITYPUT_WITH_LEASE_TIME_TO_LIVEPUT_WITH_LE'' @
    ''ASE_NOT_FOUNDPUT_WITH_LEASE_AND_REVOKEPUT_WITH_LEASE_KEEPALIVEPUT_WITH_LEASE_KEEPALIVE_ONE'' @
    ''_SECONDPUT_WITH_LEASE_KEEPALIVE_ONCEPUT_WITH_LEASE_KEEPALIVE_FULL_RESPONSE_QUEUEPUT_WITH_I'' @
    ''GNORE_VALUEPUT_WITH_IGNORE_LEASELEASE_TOO_LARGELEASE_KEEPALIVE_REVOKEGET_EMPTY_KEYGET_WITH'' @
    ''_PREFIXGET_WITH_FROM_KEYGET_WITH_RANGEGET_WITH_LIMIT_AND_COUNTGET_WITH_REVISION_FILTERSGET'' @
    ''_WITH_REQUIRE_LEADERDELETE_EMPTY_KEYDELETE_ALL_WITH_PREFIXDELETE_ALL_WITH_FROM_KEYDELETE_W'' @
    ''ITH_RANGEDELETE_WITH_PRECONDITIONCOMPACTTXN_PUT_ONETXN_PUT_MULTIPLETXN_KEY_EXISTSTXN_KEY_M'' @
    ''ISSINGTXN_COMPARE_RANGETXN_COMPARE_MODREVISIONTXN_NESTEDTXN_ERROR_DUPLICATE_KEYTXN_ERROR_T'' @
    ''OO_MANY_OPSWATCH_EMPTY_KEYWATCH_AND_PUTWATCH_WITH_PREV_KVWATCH_AND_PUT_WITH_OLD_REVISIONWA'' @
    ''TCH_AND_PUT_WITH_IGNORE_VALUEWATCH_AND_PUT_WITH_NAMESPACEWATCH_WITH_COMPACTED_REVISIONWATC'' @
    ''H_EVENT_TYPEWATCH_WITH_PREFIXWATCH_WITH_RANGEWATCH_WITH_MULTIPLE_WATCHERSWATCH_CANCEL_INFL'' @
    ''IGHTWATCH_CANCEL_IMMEDIATEWATCH_CANCEL_INITWATCH_CANCEL_OVERLAPPING_CONTEXTWATCH_CANCEL_CL'' @
    ''OSEWATCH_WITH_FILTERWATCH_WITH_CREATED_NOTIFICATIONWATCH_WITH_PROGRESS_NOTIFYWATCH_WITH_RE'' @
    ''QUEST_PROGRESSWATCH_WITH_TOO_LARGE_RESPONSEWATCH_WITH_FRAGMENTED_LARGE_RESPONSEMIRROR_SYNC'' @
    ''_BASEMIRROR_SYNC_UPDATESCONCURRENCY_MUTEX_LOCKCONCURRENCY_MUTEX_TRYLOCKCONCURRENCY_MUTEX_L'' @
    ''OCK_WITH_REVOKED_SESSIONCONCURRENCY_MUTEX_LOCK_WITH_SESSION_REVOKECONCURRENCY_ELECTION_CAM'' @
    ''PAIGNCONCURRENCY_ELECTION_RESUMECONCURRENCY_STM_APPLYLEASING_PUT_AND_GETLEASING_PUT_AND_GE'' @
    ''T_WITH_PREFIXLEASING_PUT_AND_GET_INVALIDATE_NEWLEASING_PUT_AND_GET_INVALIDATE_EXISTINGLEAS'' @
    ''ING_PUT_AND_GET_WITH_PREV_KVLEASING_PUT_AND_GET_WITH_REVLEASING_PUT_AND_GET_WITH_OPTSLEASI'' @
    ''NG_PUT_CONCURRENTLEASING_PUT_AND_GET_OVERWRITE_RESPONSELEASING_PUT_AND_DELETE_WITH_PREFIXL'' @
    ''EASING_PUT_AND_DELETE_WITH_FROM_KEYLEASING_PUT_AND_DELETE_RANGE_WITH_CONTENDING_TXNLEASING'' @
    ''_PUT_AND_DELETE_RANGE_WITH_CONTENDING_DELETELEASING_PUT_AND_GET_AND_DELETE_CONCURRENTLEASI'' @
    ''NG_DELETE_OWNERLEASING_DELETE_NON_OWNERLEASING_TXN_OWNER_GETLEASING_TXN_OWNER_GET_WITH_PRE'' @
    ''FIXLEASING_TXN_OWNER_DELETELEASING_TXN_OWNER_DELETE_WITH_PREFIXLEASING_TXN_NON_OWNER_PUTLE'' @
    ''ASING_TXN_RAND_IF_THEN_OR_ELSELEASING_TXN_ATOMIC_CACHELEASING_TXN_RANGE_CMPLEASING_DOLEASI'' @
    ''NG_LEASE_REUSE_WINDOWMAINTENANCE_STATUSMAINTENANCE_SNAPSHOTCLUSTER_MEMBER_LISTLEASE_EXPIRA'' @
    ''TION_AUTO_DELETEWATCH_RESUME_AFTER_DISCONNECTGET_WITH_CONTINUE_TOKENTLS_CLIENT_AUTHRESOURC'' @
    ''E_SIZE_ESTIMATIONERROR_COMPACTEDERROR_FUTURE_REVTXN_COMPARE_CREATEREVISIONTXN_COMPARE_VERS'' @
    ''IONTXN_COMPARE_VALUEDELETE_WITH_PREV_KVWATCH_BOOKMARK_DELIVERYHEADER_REVISION_MONOTONICMOD'' @
    ''_REVISION_CONSISTENCYPUT_WITH_PREV_KVLEASE_LISTTXN_COMPARE_LEASEGET_WITH_KEYS_ONLYPUT_WITH'' @
    ''_LEASE_ATTACHWATCH_INITIAL_EVENTSTXN_MULTI_OP_ATOMICITYCOMPACT_REVISION_RETENTIONWATCH_ORD'' @
    ''ERING_GUARANTEELEASE_GRANT_TTL_BOUNDSMAINTENANCE_DEFRAGMENTMAINTENANCE_HASH_KV''"

definition ID_Index :: "nat list" where
  "ID_Index = [
    0, 26, 48, 80, 109, 132, 157, 183, 204, 223, 237, 263, 303, 322, 349, 373, 398, 422, 457, 486,
    530, 551, 572, 587, 609, 622, 637, 654, 668, 692, 717, 740, 756, 778, 802, 819, 843, 850, 861,
    877, 891, 906, 923, 946, 956, 979, 1001, 1016, 1029, 1047, 1078, 1109, 1137, 1166, 1182, 1199,
    1215, 1243, 1264, 1286, 1303, 1335, 1353, 1370, 1401, 1427, 1454, 1483, 1519, 1535, 1554, 1576,
    1601, 1644, 1686, 1715, 1742, 1763, 1782, 1813, 1847, 1886, 1918, 1946, 1975, 1997, 2035, 2069,
    2105, 2153, 2204, 2245, 2265, 2289, 2310, 2343, 2367, 2403, 2428, 2460, 2484, 2505, 2515, 2541,
    2559, 2579, 2598, 2626, 2655, 2678, 2693, 2717, 2732, 2748, 2774, 2793, 2810, 2829, 2852, 2877,
    2901, 2917, 2927, 2944, 2962, 2983, 3003, 3025, 3051, 3075, 3097, 3119, 3138]"

section \<open>The stress registry\<close>

definition StressIDStringToID :: "(string \<times> nat) list" where
  "StressIDStringToID = [
    (''CONCURRENT_PUTS'', 0), (''BURST_WRITES'', 1), (''SUSTAINED_LOAD'', 2), (''RAMP_UP_LOAD'', 3),
    (''MIXED_WORKLOAD'', 4), (''LARGE_VALUES'', 5), (''MANY_KEYS'', 6), (''HIGH_CONTENTION'', 7),
    (''SEQUENTIAL_WRITES'', 8), (''RANDOM_READS'', 9), (''WATCH_PROGRESS_NOTIFY'', 10),
    (''LEASE_INTENSIVE_WORKLOAD'', 11), (''LIST_PAGINATION_HEAVY'', 12),
    (''OPTIMISTIC_CONCURRENCY_TXN'', 13), (''WATCH_MANY_PREFIXES'', 14), (''COMPACT_DURING_LOAD'', 15),
    (''WATCH_WITH_CHURN'', 16), (''NAMESPACE_ISOLATION_HEAVY'', 17), (''TXN_MULTI_KEY_UPDATE'', 18),
    (''LEADER_ELECTION_CONTENTION'', 19), (''WATCH_BOOKMARK_HEAVY'', 20), (''K8S_POD_LIFECYCLE_CHURN'', 21),
    (''K8S_NODE_HEARTBEAT_LEASES'', 22), (''K8S_MIXED_APISERVER'', 23), (''K8S_CRD_HEAVY_CHURN'', 24),
    (''K8S_JOB_STORM'', 25), (''K8S_MIXED_SIZE_MAINTENANCE'', 26)]"

definition StressIDStringToRunnerFunc :: "(string \<times> string) list" where
  "StressIDStringToRunnerFunc = [
    (''CONCURRENT_PUTS'', ''RunConcurrentPuts''), (''BURST_WRITES'', ''RunBurstWrites''),
    (''SUSTAINED_LOAD'', ''RunSustainedLoad''), (''RAMP_UP_LOAD'', ''RunRampUpLoad''),
    (''MIXED_WORKLOAD'', ''RunMixedWorkload''), (''LARGE_VALUES'', ''RunLargeValues''),
    (''MANY_KEYS'', ''RunManyKeys''), (''HIGH_CONTENTION'', ''RunHighContention''),
    (''SEQUENTIAL_WRITES'', ''RunSequentialWrites''), (''RANDOM_READS'', ''RunRandomReads''),
    (''WATCH_PROGRESS_NOTIFY'', ''RunWatchProgressNotify''),
    (''LEASE_INTENSIVE_WORKLOAD'', ''RunLeaseIntensiveWorkload''),
    (''LIST_PAGINATION_HEAVY'', ''RunListPaginationHeavy''),
    (''OPTIMISTIC_CONCURRENCY_TXN'', ''RunOptimisticConcurrencyTxn''),
    (''WATCH_MANY_PREFIXES'', ''RunWatchManyPrefixes''), (''COMPACT_DURING_LOAD'', ''RunCompactDuringLoad''),
    (''WATCH_WITH_CHURN'', ''RunWatchWithChurn''),
    (''NAMESPACE_ISOLATION_HEAVY'', ''RunNamespaceIsolationHeavy''),
    (''TXN_MULTI_KEY_UPDATE'', ''RunTxnMultiKeyUpdate''),
    (''LEADER_ELECTION_CONTENTION'', ''RunLeaderElectionContention''),
    (''WATCH_BOOKMARK_HEAVY'', ''RunWatchBookmarkHeavy''),
    (''K8S_POD_LIFECYCLE_CHURN'', ''RunK8sPodLifecycleChurn''),
    (''K8S_NODE_HEARTBEAT_LEASES'', ''RunK8sNodeHeartbeatLeases''),
    (''K8S_MIXED_APISERVER'', ''RunK8sMixedApiserver''), (''K8S_CRD_HEAVY_CHURN'', ''RunK8sCRDHeavyChurn''),
    (''K8S_JOB_STORM'', ''RunK8sJobStorm''), (''K8S_MIXED_SIZE_MAINTENANCE'', ''RunK8sMixedSizeMaintenance'')]"

definition StressIDToRunner :: "(nat \<times> string) list" where
  "StressIDToRunner = [
    (0, ''RunConcurrentPuts''), (1, ''RunBurstWrites''), (2, ''RunSustainedLoad''), (3, ''RunRampUpLoad''),
    (4, ''RunMixedWorkload''), (5, ''RunLargeValues''), (6, ''RunManyKeys''), (7, ''RunHighContention''),
    (8, ''RunSequentialWrites''), (9, ''RunRandomReads''), (10, ''RunWatchProgressNotify''),
    (11, ''RunLeaseIntensiveWorkload''), (12, ''RunListPaginationHeavy''),
    (13, ''RunOptimisticConcurrencyTxn''), (14, ''RunWatchManyPrefixes''), (15, ''RunCompactDuringLoad''),
    (16, ''RunWatchWithChurn''), (17, ''RunNamespaceIsolationHeavy''), (18, ''RunTxnMultiKeyUpdate''),
    (19, ''RunLeaderElectionContention''), (20, ''RunWatchBookmarkHeavy'')]"

definition StressID_Name :: string where
  "StressID_Name =
    ''CONCURRENT_PUTSBURST_WRITESSUSTAINED_LOADRAMP_UP_LOADMIXED_WORKLOADLARGE_VALUESMANY_KEYSHI'' @
    ''GH_CONTENTIONSEQUENTIAL_WRITESRANDOM_READSWATCH_PROGRESS_NOTIFYLEASE_INTENSIVE_WORKLOADLIS'' @
    ''T_PAGINATION_HEAVYOPTIMISTIC_CONCURRENCY_TXNWATCH_MANY_PREFIXESCOMPACT_DURING_LOADWATCH_WI'' @
    ''TH_CHURNNAMESPACE_ISOLATION_HEAVYTXN_MULTI_KEY_UPDATELEADER_ELECTION_CONTENTIONWATCH_BOOKM'' @
    ''ARK_HEAVYK8S_POD_LIFECYCLE_CHURNK8S_NODE_HEARTBEAT_LEASESK8S_MIXED_APISERVERK8S_CRD_HEAVY_'' @
    ''CHURNK8S_JOB_STORMK8S_MIXED_SIZE_MAINTENANCE''"

definition StressID_Index :: "nat list" where
  "StressID_Index = [
    0, 15, 27, 41, 53, 67, 79, 88, 103, 120, 132, 153, 177, 198, 224, 243, 262, 278, 303, 323, 349,
    369, 392, 417, 436, 455, 468, 494]"

section \<open>The codecs\<close>

definition String_ID :: "int \<Rightarrow> string" where
  "String_ID = id_String ''ID'' ID_Name ID_Index"

definition String_StressID :: "int \<Rightarrow> string" where
  "String_StressID = id_String ''StressID'' StressID_Name StressID_Index"

definition ListAllIDs :: "int list \<times> string list" where
  "ListAllIDs = (let n = length ID_Index - 1 in
     (map int [0..<n], map (\<lambda>i. slice ID_Name (ID_Index ! i) (ID_Index ! (i + 1))) [0..<n]))"

definition ValidID :: "string \<Rightarrow> bool" where
  "ValidID s \<longleftrightarrow> map_of IDStringToID s \<noteq> None"

definition StressListAllIDs :: "int list \<times> string list" where
  "StressListAllIDs = (let count = length StressIDStringToID in
     (map int [0..<count], map (\<lambda>i. String_StressID (int i)) [0..<count]))"

definition ValidStressID :: "string \<Rightarrow> bool" where
  "ValidStressID s \<longleftrightarrow> map_of StressIDStringToID s \<noteq> None"

interpretation conf_ids: full_id_table "''ID''" IDStringToID IDStringToRunnerFunc ID_Name ID_Index IDToRunner
proof unfold_locales
  show "map snd IDStringToID = [0..<length IDStringToID]" by code_simp
  show "distinct (map fst IDStringToID)" by (simp add: IDStringToID_def)
  show "ID_Name = concat (map fst IDStringToID)" by code_simp
  show "ID_Index = offsets 0 (map fst IDStringToID)" by (simp add: ID_Index_def IDStringToID_def)
  show "map fst IDStringToRunnerFunc = map fst IDStringToID" by code_simp
  show "map fst IDToRunner = [0..<length IDStringToID]" by code_simp
  show "map snd IDToRunner = map snd IDStringToRunnerFunc" by code_simp
qed

interpretation stress_ids: id_table "''StressID''" StressIDStringToID StressIDStringToRunnerFunc
  StressID_Name StressID_Index
proof unfold_locales
  show "map snd StressIDStringToID = [0..<length StressIDStringToID]" by code_simp
  show "distinct (map fst StressIDStringToID)" by (simp add: StressIDStringToID_def)
  show "StressID_Name = concat (map fst StressIDStringToID)" by code_simp
  show "StressID_Index = offsets 0 (map fst StressIDStringToID)" by code_simp
  show "map fst StressIDStringToRunnerFunc = map fst StressIDStringToID" by code_simp
qed

text \<open>In both registries \<^verbatim>\<open>String\<close> and the map from strings to identifiers are inverse to each
  other, an identifier outside the table is printed as its number, and a string has a runner
  exactly when it is a valid identifier; in the conformance registry the runner found by the
  string is the one found by the identifier.\<close>

theorem registries_coherent:
  "(map_of IDStringToID s = Some i \<longleftrightarrow> i < 132 \<and> String_ID (int i) = s) \<and>
   (map_of StressIDStringToID s = Some i \<longleftrightarrow> i < 27 \<and> String_StressID (int i) = s) \<and>
   (ValidID s \<longleftrightarrow> map_of IDStringToRunnerFunc s \<noteq> None) \<and>
   (ValidStressID s \<longleftrightarrow> map_of StressIDStringToRunnerFunc s \<noteq> None) \<and>
   map_of IDStringToRunnerFunc s = Option.bind (map_of IDStringToID s) (map_of IDToRunner)"
proof -
  have len: "length IDStringToID = 132" "length StressIDStringToID = 27"
    by (simp_all add: IDStringToID_def StressIDStringToID_def)
  have "map_of IDStringToRunnerFunc s = Option.bind (map_of IDStringToID s) (map_of IDToRunner)"
    using conf_ids.registered [of s] conf_ids.runner_agrees [of s] by (cases "map_of IDStringToID s") auto
  then show ?thesis
    using conf_ids.round_trip [of s i] stress_ids.round_trip [of s i] conf_ids.registered [of s]
      stress_ids.registered [of s]
    unfolding len String_ID_def String_StressID_def ValidID_def ValidStressID_def by metis
qed

text \<open>\<^verbatim>\<open>ListAllIDs\<close> of both suites lists every identifier once, in order, with the string that
  \<^verbatim>\<open>String\<close> gives for it, and that string is valid.\<close>

theorem ListAllIDs_complete:
  "(let (ids, names) = ListAllIDs in
      ids = map int [0..<132] \<and> names = map String_ID ids \<and> names = map fst IDStringToID \<and> list_all ValidID names) \<and>
   (let (ids, names) = StressListAllIDs in
      ids = map int [0..<27] \<and> names = map String_StressID ids \<and> names = map fst StressIDStringToID \<and>
      list_all ValidStressID names)"
proof -
  have len: "length IDStringToID = 132" "length StressIDStringToID = 27"
    by (simp_all add: IDStringToID_def StressIDStringToID_def)
  have idx: "length ID_Index = 133" by (simp add: ID_Index_def)
  have conf: "map fst IDStringToID = map (\<lambda>i. String_ID (int i)) [0..<132]"
    using conf_ids.String_nth by (intro nth_equalityI) (simp_all add: len String_ID_def)
  have stress: "map fst StressIDStringToID = map (\<lambda>i. String_StressID (int i)) [0..<27]"
    using stress_ids.String_nth by (intro nth_equalityI) (simp_all add: len String_StressID_def)
  have slices: "map (\<lambda>i. slice ID_Name (ID_Index ! i) (ID_Index ! (i + 1))) [0..<132]
      = map (\<lambda>i. String_ID (int i)) [0..<132]"
    by (simp add: String_ID_def id_String_def idx nat_add_distrib)
  have valid: "list_all ValidID (map fst IDStringToID)" "list_all ValidStressID (map fst StressIDStringToID)"
    by (simp_all add: list_all_iff ValidID_def ValidStressID_def map_of_eq_None_iff)
  have all: "ListAllIDs = (map int [0..<132], map (\<lambda>i. String_ID (int i)) [0..<132])"
    using slices by (simp only: ListAllIDs_def Let_def idx) simp
  have stress_all: "StressListAllIDs = (map int [0..<27], map (\<lambda>i. String_StressID (int i)) [0..<27])"
    by (simp only: StressListAllIDs_def Let_def len)
  show ?thesis
    using valid unfolding all stress_all conf stress Let_def split_conv by (simp add: comp_def)
qed

text \<open>The map from stress identifiers to runners agrees with the map from strings where it is
  defined, but it lacks the six Kubernetes scenarios, which the map from strings does run.\<close>

theorem StressIDToRunner_lacks_k8s:
  "filter (\<lambda>(s, i). map_of StressIDToRunner i \<noteq> map_of StressIDStringToRunnerFunc s) StressIDStringToID
     = [(''K8S_POD_LIFECYCLE_CHURN'', 21), (''K8S_NODE_HEARTBEAT_LEASES'', 22), (''K8S_MIXED_APISERVER'', 23),
        (''K8S_CRD_HEAVY_CHURN'', 24), (''K8S_JOB_STORM'', 25), (''K8S_MIXED_SIZE_MAINTENANCE'', 26)] \<and>
   map_of StressIDToRunner 21 = None"
  by (simp add: StressIDToRunner_def StressIDStringToID_def StressIDStringToRunnerFunc_def)

end
