(* ===== verification/Metrics.thy ===== *)
theory Metrics
  imports Prelude "HOL-Library.Multiset"
begin

text \<open>
  \<^verbatim>\<open>src/internal/etcd/stress/scenarios/metrics.go\<close>: the metrics collector of the stress
  suite. The atomic counters and the mutex-protected slices are fields of one record; each
  critical section is one function. \<^verbatim>\<open>float64\<close> values are reals (rounding is not modelled),
  \<^verbatim>\<open>int64\<close> counters are integers (they count requests and bytes of one run), and the draw of
  \<^verbatim>\<open>randutil.Intn\<close> in the reservoir is an argument.
\<close>

section \<open>State and operations\<close>

definition maxLatencySamples :: nat where
  "maxLatencySamples = 100000"

definition latencyBucketMinMs :: real where
  "latencyBucketMinMs = 0.0625"

definition latencyBucketStepsPerOctave :: real where
  "latencyBucketStepsPerOctave = 8"

definition latencyBucketCount :: nat where
  "latencyBucketCount = 145"

record MetricsCollector =
  successCount :: int
  failureCount :: int
  bytesWritten :: int
  bytesRead :: int
  latencies :: "real list"
  totalSamples :: int
  latencyBuckets :: "int list"
  errors :: "string \<rightharpoonup> int"

definition latencyBucketIndex :: "real \<Rightarrow> nat" where
  "latencyBucketIndex latencyMs =
     (if latencyMs \<le> latencyBucketMinMs then 0
      else let idx = \<lfloor>latencyBucketStepsPerOctave * log 2 (latencyMs / latencyBucketMinMs)\<rfloor>
           in nat (min (max idx 0) (int latencyBucketCount - 1)))"

definition LatencyBucketUpperBoundMs :: "nat \<Rightarrow> real" where
  "LatencyBucketUpperBoundMs i =
     latencyBucketMinMs * 2 powr (real (i + 1) / latencyBucketStepsPerOctave)"

definition NewMetricsCollector :: MetricsCollector where
  "NewMetricsCollector = \<lparr>successCount = 0, failureCount = 0, bytesWritten = 0, bytesRead = 0,
     latencies = [], totalSamples = 0, latencyBuckets = replicate latencyBucketCount 0,
     errors = Map.empty\<rparr>"

text \<open>The histogram update happens before the lock is taken, the rest under it.\<close>

definition bumpBucket :: "real \<Rightarrow> MetricsCollector \<Rightarrow> MetricsCollector" where
  "bumpBucket latencyMs m = (let i = latencyBucketIndex latencyMs in
     m\<lparr>latencyBuckets := (latencyBuckets m)[i := latencyBuckets m ! i + 1]\<rparr>)"

definition sampleLatency :: "nat \<Rightarrow> real \<Rightarrow> MetricsCollector \<Rightarrow> MetricsCollector" where
  "sampleLatency j latencyMs m = (let m' = m\<lparr>totalSamples := totalSamples m + 1\<rparr> in
     if length (latencies m') < maxLatencySamples
     then m'\<lparr>latencies := latencies m' @ [latencyMs]\<rparr>
     else if j < maxLatencySamples then m'\<lparr>latencies := (latencies m')[j := latencyMs]\<rparr>
     else m')"

definition recordLatency :: "nat \<Rightarrow> real \<Rightarrow> MetricsCollector \<Rightarrow> MetricsCollector" where
  "recordLatency j latencyMs m = sampleLatency j latencyMs (bumpBucket latencyMs m)"

definition RecordSuccess :: "nat \<Rightarrow> real \<Rightarrow> MetricsCollector \<Rightarrow> MetricsCollector" where
  "RecordSuccess j latencyMs m = recordLatency j latencyMs (m\<lparr>successCount := successCount m + 1\<rparr>)"

definition bumpError :: "string \<Rightarrow> MetricsCollector \<Rightarrow> MetricsCollector" where
  "bumpError errType m = m\<lparr>errors := (errors m)(errType \<mapsto>
     (case errors m errType of None \<Rightarrow> 0 | Some c \<Rightarrow> c) + 1)\<rparr>"

definition RecordFailure :: "nat \<Rightarrow> real \<Rightarrow> string \<Rightarrow> MetricsCollector \<Rightarrow> MetricsCollector" where
  "RecordFailure j latencyMs errType m =
     bumpError errType (recordLatency j latencyMs (m\<lparr>failureCount := failureCount m + 1\<rparr>))"

definition RecordBytesWritten :: "int \<Rightarrow> MetricsCollector \<Rightarrow> MetricsCollector" where
  "RecordBytesWritten n m = m\<lparr>bytesWritten := bytesWritten m + n\<rparr>"

definition RecordBytesRead :: "int \<Rightarrow> MetricsCollector \<Rightarrow> MetricsCollector" where
  "RecordBytesRead n m = m\<lparr>bytesRead := bytesRead m + n\<rparr>"

definition Reset :: "MetricsCollector \<Rightarrow> MetricsCollector" where
  "Reset m = m\<lparr>successCount := 0, failureCount := 0, bytesWritten := 0, bytesRead := 0,
     latencyBuckets := map (\<lambda>_. 0) (latencyBuckets m), totalSamples := 0, latencies := [],
     errors := Map.empty\<rparr>"

text \<open>\<^verbatim>\<open>LatencyBuckets\<close> returns a copy of all \<^verbatim>\<open>latencyBucketCount\<close> counters.\<close>

definition LatencyBuckets :: "MetricsCollector \<Rightarrow> int list" where
  "LatencyBuckets m = map (\<lambda>i. latencyBuckets m ! i) [0..<latencyBucketCount]"

record Statistics =
  TotalRequests :: int
  SuccessCount :: int
  FailureCount :: int
  BytesWritten :: int
  BytesRead :: int
  AverageLatencyMs :: real
  P50LatencyMs :: real
  P95LatencyMs :: real
  P99LatencyMs :: real
  MaxLatencyMs :: real
  RequestsPerSecond :: real

text \<open>The slice is sorted by the caller; an index is clamped before use, so no access panics.\<close>

definition percentile :: "real list \<Rightarrow> real \<Rightarrow> real" where
  "percentile xs p =
     (if xs = [] then 0
      else if p \<le> 0 then xs ! 0
      else if p \<ge> 1 then xs ! (length xs - 1)
      else let rank = \<lceil>p * real (length xs)\<rceil>; index = max (rank - 1) 0;
               index' = (if index \<ge> int (length xs) then int (length xs) - 1 else index)
           in xs ! nat index')"

definition GetStatistics :: "MetricsCollector \<Rightarrow> Statistics" where
  "GetStatistics m =
     (let stats = \<lparr>TotalRequests = successCount m + failureCount m,
             SuccessCount = successCount m, FailureCount = failureCount m,
             BytesWritten = bytesWritten m, BytesRead = bytesRead m,
             AverageLatencyMs = 0, P50LatencyMs = 0, P95LatencyMs = 0, P99LatencyMs = 0,
             MaxLatencyMs = 0, RequestsPerSecond = 0\<rparr>;
          latenciesCopy = sort (latencies m)
      in if length latenciesCopy > 0
         then stats\<lparr>AverageLatencyMs := sum_list latenciesCopy / real (length latenciesCopy),
                P50LatencyMs := percentile latenciesCopy 0.50,
                P95LatencyMs := percentile latenciesCopy 0.95,
                P99LatencyMs := percentile latenciesCopy 0.99,
                MaxLatencyMs := latenciesCopy ! (length latenciesCopy - 1)\<rparr>
         else stats)"

definition SuccessRate :: "Statistics \<Rightarrow> real" where
  "SuccessRate s = (if TotalRequests s = 0 then 0
     else real_of_int (SuccessCount s) / real_of_int (TotalRequests s))"

section \<open>Runs of the collector\<close>

text \<open>The exported operations, and the critical sections they are made of. Workers call the
  operations concurrently; what interleaves is the critical sections.\<close>

datatype metric_op = OpSuccess nat real | OpFailure nat real string | OpBytesWritten int
  | OpBytesRead int | OpReset

fun metric_apply :: "metric_op \<Rightarrow> MetricsCollector \<Rightarrow> MetricsCollector" where
  "metric_apply (OpSuccess j x) m = RecordSuccess j x m"
| "metric_apply (OpFailure j x e) m = RecordFailure j x e m"
| "metric_apply (OpBytesWritten n) m = RecordBytesWritten n m"
| "metric_apply (OpBytesRead n) m = RecordBytesRead n m"
| "metric_apply OpReset m = Reset m"

inductive collected :: "MetricsCollector \<Rightarrow> bool" where
  collected_new: "collected NewMetricsCollector"
| collected_op: "collected m \<Longrightarrow> collected (metric_apply op m)"

datatype metric_step = IncSuccess | IncFailure | IncBucket real | Sample nat real
  | IncError string | AddWritten int | AddRead int

fun step_apply :: "metric_step \<Rightarrow> MetricsCollector \<Rightarrow> MetricsCollector" where
  "step_apply IncSuccess m = m\<lparr>successCount := successCount m + 1\<rparr>"
| "step_apply IncFailure m = m\<lparr>failureCount := failureCount m + 1\<rparr>"
| "step_apply (IncBucket x) m = bumpBucket x m"
| "step_apply (Sample j x) m = sampleLatency j x m"
| "step_apply (IncError e) m = bumpError e m"
| "step_apply (AddWritten n) m = RecordBytesWritten n m"
| "step_apply (AddRead n) m = RecordBytesRead n m"

fun op_steps :: "metric_op \<Rightarrow> metric_step list" where
  "op_steps (OpSuccess j x) = [IncSuccess, IncBucket x, Sample j x]"
| "op_steps (OpFailure j x e) = [IncFailure, IncBucket x, Sample j x, IncError e]"
| "op_steps (OpBytesWritten n) = [AddWritten n]"
| "op_steps (OpBytesRead n) = [AddRead n]"
| "op_steps OpReset = []"

section \<open>The histogram\<close>

lemma latencyBucketIndex_bound: "latencyBucketIndex x < latencyBucketCount"
  by (auto simp: latencyBucketIndex_def latencyBucketCount_def Let_def)

lemma log_bucket: 
  assumes "latencyBucketMinMs < x"
  shows "latencyBucketMinMs * 2 powr (real_of_int k / latencyBucketStepsPerOctave) \<le> x
     \<longleftrightarrow> k \<le> \<lfloor>latencyBucketStepsPerOctave * log 2 (x / latencyBucketMinMs)\<rfloor>"
proof -
  have x: "0 < x / latencyBucketMinMs" using assms by (simp add: latencyBucketMinMs_def)
  have "latencyBucketMinMs * 2 powr (real_of_int k / latencyBucketStepsPerOctave) \<le> x
     \<longleftrightarrow> 2 powr (real_of_int k / latencyBucketStepsPerOctave) \<le> x / latencyBucketMinMs"
    by (simp add: latencyBucketMinMs_def field_simps)
  also have "\<dots> \<longleftrightarrow> real_of_int k / latencyBucketStepsPerOctave \<le> log 2 (x / latencyBucketMinMs)"
    using x by (simp add: le_log_iff)
  also have "\<dots> \<longleftrightarrow> real_of_int k \<le> latencyBucketStepsPerOctave * log 2 (x / latencyBucketMinMs)"
    by (simp add: latencyBucketStepsPerOctave_def field_simps)
  finally show ?thesis by (simp add: le_floor_iff)
qed

lemma log_bucket_nonneg:
  assumes "latencyBucketMinMs < x"
  shows "0 \<le> \<lfloor>latencyBucketStepsPerOctave * log 2 (x / latencyBucketMinMs)\<rfloor>"
  using log_bucket [OF assms, of 0] assms by simp

lemma latencyBucketIndex_pos:
  assumes "latencyBucketMinMs < x"
  shows "int (latencyBucketIndex x) = min
     \<lfloor>latencyBucketStepsPerOctave * log 2 (x / latencyBucketMinMs)\<rfloor> (int latencyBucketCount - 1)"
  using assms log_bucket_nonneg [OF assms]
  by (simp add: latencyBucketIndex_def Let_def latencyBucketCount_def)




section \<open>The collector's invariant\<close>

definition error_total :: "MetricsCollector \<Rightarrow> int" where
  "error_total m = (\<Sum>k \<in> dom (errors m). the (errors m k))"

text \<open>What holds between two complete operations: every sample is in exactly one bucket, every
  request left one sample, the reservoir holds all samples until it is full, and every
  failure is classified.\<close>

definition metrics_inv :: "MetricsCollector \<Rightarrow> bool" where
  "metrics_inv m \<longleftrightarrow> length (latencyBuckets m) = latencyBucketCount \<and>
     sum_list (latencyBuckets m) = totalSamples m \<and>
     (\<forall>c \<in> set (latencyBuckets m). 0 \<le> c) \<and>
     totalSamples m = successCount m + failureCount m \<and>
     0 \<le> successCount m \<and> 0 \<le> failureCount m \<and>
     int (length (latencies m)) = min (totalSamples m) (int maxLatencySamples) \<and>
     finite (dom (errors m)) \<and> error_total m = failureCount m"

lemma sum_list_bump:
  "i < length xs \<Longrightarrow> sum_list (xs[i := xs ! i + 1]) = sum_list xs + (1::int)"
  by (induction xs arbitrary: i) (auto split: nat.splits)

lemma error_total_bump:
  assumes "finite (dom (errors m))"
  shows "error_total (bumpError e m) = error_total m + 1"
proof (cases "errors m e")
  case None
  then have "(\<Sum>k \<in> dom (errors m). the (errors (bumpError e m) k)) = error_total m"
    by (auto simp: error_total_def bumpError_def intro!: sum.cong)
  with None assms show ?thesis
    by (simp add: error_total_def [of "bumpError e m"]) (simp add: bumpError_def domIff)
next
  case (Some c)
  then have e: "e \<in> dom (errors m)" by blast
  then have "(\<Sum>k \<in> dom (errors m) - {e}. the (errors (bumpError e m) k))
      = (\<Sum>k \<in> dom (errors m) - {e}. the (errors m k))"
    by (auto simp: bumpError_def intro!: sum.cong)
  moreover have "dom (errors (bumpError e m)) = dom (errors m)"
    using e by (auto simp: bumpError_def)
  moreover have "the (errors (bumpError e m) e) = the (errors m e) + 1"
    using Some by (simp add: bumpError_def)
  ultimately show ?thesis
    using assms e by (simp add: error_total_def sum.remove)
qed

lemma recordLatency_simps [simp]:
  "successCount (recordLatency j x m) = successCount m"
  "failureCount (recordLatency j x m) = failureCount m"
  "bytesWritten (recordLatency j x m) = bytesWritten m"
  "bytesRead (recordLatency j x m) = bytesRead m"
  "errors (recordLatency j x m) = errors m"
  "totalSamples (recordLatency j x m) = totalSamples m + 1"
  "latencyBuckets (recordLatency j x m) =
     (latencyBuckets m)[latencyBucketIndex x := latencyBuckets m ! latencyBucketIndex x + 1]"
  by (simp_all add: recordLatency_def sampleLatency_def bumpBucket_def Let_def)

lemma length_latencies_recordLatency:
  "int (length (latencies m)) = min (totalSamples m) (int maxLatencySamples) \<Longrightarrow>
   int (length (latencies (recordLatency j x m))) = min (totalSamples m + 1) (int maxLatencySamples)"
  by (auto simp: recordLatency_def sampleLatency_def bumpBucket_def Let_def)

lemma recordLatency_sum:
  assumes "length (latencyBuckets m) = latencyBucketCount"
  shows "sum_list (latencyBuckets (recordLatency j x m)) = sum_list (latencyBuckets m) + 1"
  using assms latencyBucketIndex_bound [of x] by (simp add: sum_list_bump)

lemma recordLatency_nonneg:
  assumes "length (latencyBuckets m) = latencyBucketCount" "\<forall>c \<in> set (latencyBuckets m). 0 \<le> c"
  shows "\<forall>c \<in> set (latencyBuckets (recordLatency j x m)). 0 \<le> c"
proof
  fix c
  assume "c \<in> set (latencyBuckets (recordLatency j x m))"
  then consider "c = latencyBuckets m ! latencyBucketIndex x + 1" | "c \<in> set (latencyBuckets m)"
    using set_update_subset_insert by fastforce
  then show "0 \<le> c"
    using assms latencyBucketIndex_bound [of x] nth_mem [of "latencyBucketIndex x" "latencyBuckets m"]
    by cases auto
qed

lemmas recordLatency_inv_facts =
  recordLatency_sum recordLatency_nonneg length_latencies_recordLatency

lemma error_total_frame [simp]: "error_total (recordLatency j x m) = error_total m"
  by (simp add: error_total_def)

lemma error_total_counts [simp]:
  "error_total (m\<lparr>successCount := a\<rparr>) = error_total m"
  "error_total (m\<lparr>failureCount := a\<rparr>) = error_total m"
  by (simp_all add: error_total_def)

lemma RecordSuccess_inv: "metrics_inv m \<Longrightarrow> metrics_inv (RecordSuccess j x m)"
  unfolding metrics_inv_def RecordSuccess_def
  using recordLatency_inv_facts [of "m\<lparr>successCount := successCount m + 1\<rparr>"]
  by (simp del: recordLatency_simps(7)) simp

lemma RecordFailure_inv: "metrics_inv m \<Longrightarrow> metrics_inv (RecordFailure j x e m)"
proof -
  assume m: "metrics_inv m"
  let ?m = "recordLatency j x (m\<lparr>failureCount := failureCount m + 1\<rparr>)"
  have e: "error_total (bumpError e ?m) = failureCount m + 1"
    using m by (subst error_total_bump) (simp_all add: metrics_inv_def)
  have "finite (dom (errors (bumpError e ?m)))"
    using m by (simp add: metrics_inv_def bumpError_def)
  with e m recordLatency_inv_facts [of "m\<lparr>failureCount := failureCount m + 1\<rparr>" j x]
  show ?thesis
    unfolding metrics_inv_def RecordFailure_def
    by (simp add: bumpError_def del: recordLatency_simps(7)) (simp add: metrics_inv_def)
qed


lemma Reset_inv: "metrics_inv m \<Longrightarrow> metrics_inv (Reset m)"
  by (auto simp: metrics_inv_def Reset_def error_total_def sum_list_0 map_replicate_const
      sum_list_replicate)

lemma RecordBytes_inv:
  "metrics_inv m \<Longrightarrow> metrics_inv (RecordBytesWritten n m)"
  "metrics_inv m \<Longrightarrow> metrics_inv (RecordBytesRead n m)"
  by (simp_all add: metrics_inv_def RecordBytesWritten_def RecordBytesRead_def error_total_def)

lemma NewMetricsCollector_inv: "metrics_inv NewMetricsCollector"
  by (simp add: metrics_inv_def NewMetricsCollector_def error_total_def sum_list_replicate)

lemma metric_apply_inv: "metrics_inv m \<Longrightarrow> metrics_inv (metric_apply op m)"
  by (cases op) (simp_all add: RecordSuccess_inv RecordFailure_inv RecordBytes_inv Reset_inv)

text \<open>C15: in every state a collector reaches from \<^verbatim>\<open>NewMetricsCollector\<close> by any sequence of its
  operations, the histogram counts sum to the number of requests, no count is negative, the
  reservoir never exceeds its bound and holds every sample until then, and the error map
  accounts for every failure.\<close>

theorem collected_inv: "collected m \<Longrightarrow> metrics_inv m"
  by (induction rule: collected.induct) (rule NewMetricsCollector_inv, rule metric_apply_inv)

theorem collected_inv_witness:
  "collected (RecordFailure 0 3 ''timeout'' NewMetricsCollector) \<and>
   metrics_inv (RecordFailure 0 3 ''timeout'' NewMetricsCollector)"
proof -
  have c: "collected (RecordFailure 0 3 ''timeout'' NewMetricsCollector)"
    using collected_op [OF collected_new, of "OpFailure 0 3 ''timeout''"] by simp
  with collected_inv [OF c] show ?thesis by blast
qed

section \<open>Interleaving of concurrent workers\<close>

text \<open>Steps that commute on an abstraction of the state can run in any order.\<close>

locale commuting_steps =
  fixes step :: "'e \<Rightarrow> 's \<Rightarrow> 's"
    and view :: "'s \<Rightarrow> 'v"
    and astep :: "'e \<Rightarrow> 'v \<Rightarrow> 'v"
  assumes view_step: "view (step e s) = astep e (view s)"
    and astep_commute: "astep e (astep f v) = astep f (astep e v)"
begin

lemma view_fold: "view (fold step es s) = fold astep es (view s)"
  by (induction es arbitrary: s) (simp_all add: view_step)

lemma fold_astep_mset:
  assumes "mset es = mset fs"
  shows "fold astep es v = fold astep fs v"
  by (rule fold_permuted_eq [where P = "\<lambda>_. True", OF assms]) (auto intro: astep_commute)

lemma interleaving: "mset es = mset fs \<Longrightarrow> view (fold step es s) = view (fold step fs s)"
  unfolding view_fold by (rule fold_astep_mset)

end

text \<open>Everything but the reservoir: the reservoir depends on the order of arrival by design.\<close>

definition counters :: "MetricsCollector \<Rightarrow> MetricsCollector" where
  "counters m = m\<lparr>latencies := []\<rparr>"

fun counters_step :: "metric_step \<Rightarrow> MetricsCollector \<Rightarrow> MetricsCollector" where
  "counters_step (Sample j x) m = m\<lparr>totalSamples := totalSamples m + 1\<rparr>"
| "counters_step e m = step_apply e m"

lemma counters_step_commute: "counters_step e (counters_step f m) = counters_step f (counters_step e m)"
proof (cases "\<exists>x y. e = IncBucket x \<and> f = IncBucket y")
  case True
  then obtain x y where ef: "e = IncBucket x" "f = IncBucket y" by blast
  show ?thesis
    unfolding ef by (cases "latencyBucketIndex x = latencyBucketIndex y")
      (simp_all add: bumpBucket_def Let_def list_update_swap)
next
  case False
  then show ?thesis
    by (cases e; cases f) (auto simp: bumpBucket_def bumpError_def RecordBytesWritten_def
        RecordBytesRead_def Let_def fun_upd_twist)
qed

interpretation collector: commuting_steps step_apply counters counters_step
proof
  fix e s
  show "counters (step_apply e s) = counters_step e (counters s)"
    by (cases e) (simp_all add: counters_def bumpBucket_def bumpError_def sampleLatency_def
        RecordBytesWritten_def RecordBytesRead_def Let_def)
next
  fix e f v
  show "counters_step e (counters_step f v) = counters_step f (counters_step e v)"
    by (rule counters_step_commute)
qed

lemma op_steps_apply: "op \<noteq> OpReset \<Longrightarrow> fold step_apply (op_steps op) m = metric_apply op m"
  by (cases op) (simp_all add: RecordSuccess_def RecordFailure_def recordLatency_def)

lemma ops_steps_apply:
  "OpReset \<notin> set ops \<Longrightarrow> fold step_apply (concat (map op_steps ops)) m = fold metric_apply ops m"
  by (induction ops arbitrary: m) (auto simp: op_steps_apply)

text \<open>C17: however the critical sections of concurrent record operations interleave, every
  counter, the error map and the whole latency histogram end up as if the operations had run
  one after the other.\<close>

theorem concurrent_records_linearize:
  assumes "OpReset \<notin> set ops" and "mset steps = mset (concat (map op_steps ops))"
  shows "counters (fold step_apply steps m) = counters (fold metric_apply ops m)"
  using collector.interleaving [OF assms(2), of m] by (simp add: ops_steps_apply [OF assms(1)])

theorem concurrent_records_linearize_witness:
  "counters (fold step_apply [IncFailure, IncSuccess, IncBucket 2, IncError ''e'', IncBucket 1,
       Sample 0 1, Sample 0 2] NewMetricsCollector)
   = counters (fold metric_apply [OpSuccess 0 1, OpFailure 0 2 ''e''] NewMetricsCollector)"
  by (rule concurrent_records_linearize) (simp_all add: add_mset_commute)


section \<open>Percentiles and statistics\<close>

lemma percentile_rank:
  assumes "xs \<noteq> []" "0 < p" "p < 1"
  obtains r where "0 < r" "r \<le> length xs" "p * real (length xs) \<le> real r"
    "real r < p * real (length xs) + 1" "percentile xs p = xs ! (r - 1)"
proof -
  let ?c = "\<lceil>p * real (length xs)\<rceil>"
  have pos: "0 < ?c" using assms by simp
  have "p * real (length xs) \<le> real (length xs)"
    using assms by (simp add: mult_le_cancel_right1)
  then have le: "?c \<le> int (length xs)" by (simp add: ceiling_le_iff)
  obtain r where r: "?c = int r" using pos zero_less_imp_eq_int by blast
  have "percentile xs p = xs ! nat (int r - 1)"
    using assms pos le by (simp add: percentile_def Let_def r)
  also have "nat (int r - 1) = r - 1" using pos r by (simp add: nat_diff_distrib)
  finally show thesis
    using that [of r] pos le r ceiling_correct [of "p * real (length xs)"] by simp
qed

lemma sorted_count_le:
  assumes "sorted xs" "k < length xs"
  shows "Suc k \<le> length (filter (\<lambda>x. x \<le> xs ! k) xs)"
proof -
  have "filter (\<lambda>x. x \<le> xs ! k) (take (Suc k) xs) = take (Suc k) xs"
    using assms by (auto simp: filter_id_conv in_set_conv_nth intro!: sorted_nth_mono)
  then have "length (filter (\<lambda>x. x \<le> xs ! k) (take (Suc k) xs)) = Suc k"
    using assms by simp
  moreover have "filter (\<lambda>x. x \<le> xs ! k) xs =
      filter (\<lambda>x. x \<le> xs ! k) (take (Suc k) xs) @ filter (\<lambda>x. x \<le> xs ! k) (drop (Suc k) xs)"
    by (simp flip: filter_append)
  ultimately show ?thesis by simp
qed

lemma sorted_count_less:
  assumes "sorted xs" "k < length xs"
  shows "length (filter (\<lambda>x. x < xs ! k) xs) \<le> k"
proof -
  have "filter (\<lambda>x. x < xs ! k) (drop k xs) = []"
    using assms by (auto simp: filter_empty_conv in_set_conv_nth not_less intro!: sorted_nth_mono)
  moreover have "filter (\<lambda>x. x < xs ! k) xs =
      filter (\<lambda>x. x < xs ! k) (take k xs) @ filter (\<lambda>x. x < xs ! k) (drop k xs)"
    by (simp flip: filter_append)
  ultimately have "length (filter (\<lambda>x. x < xs ! k) xs) \<le> length (take k xs)"
    using length_filter_le [of _ "take k xs"] by simp
  then show ?thesis by simp
qed

text \<open>On a sorted non-empty slice, \<^verbatim>\<open>percentile\<close> returns the nearest-rank percentile: an
  element of the slice such that at least a fraction \<open>p\<close> of the samples are at most it, and
  fewer than a fraction \<open>p\<close> are strictly below it.\<close>

theorem percentile_nearest_rank:
  assumes "sorted xs" "xs \<noteq> []" "0 < p" "p < 1"
  shows "percentile xs p \<in> set xs \<and>
     p * real (length xs) \<le> real (length (filter (\<lambda>x. x \<le> percentile xs p) xs)) \<and>
     real (length (filter (\<lambda>x. x < percentile xs p) xs)) < p * real (length xs)"
proof -
  obtain r where r: "0 < r" "r \<le> length xs" "p * real (length xs) \<le> real r"
    "real r < p * real (length xs) + 1" "percentile xs p = xs ! (r - 1)"
    by (rule percentile_rank [OF assms(2-4)])
  then have k: "r - 1 < length xs" by linarith
  have "real r \<le> real (length (filter (\<lambda>x. x \<le> percentile xs p) xs))"
    using sorted_count_le [OF assms(1) k] r(1,5) by simp
  moreover have "real (length (filter (\<lambda>x. x < percentile xs p) xs)) \<le> real (r - 1)"
    using sorted_count_less [OF assms(1) k] r(5) by simp
  moreover have "real (r - 1) = real r - 1" using r(1) by (simp add: of_nat_diff)
  ultimately show ?thesis using r k by simp
qed

theorem percentile_nearest_rank_witness:
  "percentile [1, 2, 5, 9] 0.5 = 2 \<and>
   0.5 * real (length [1, 2, 5, 9]) \<le> real (length (filter (\<lambda>x. x \<le> percentile [1, 2, 5, 9] 0.5) [1, 2, 5, 9]))"
proof -
  have "percentile [1, 2, 5, 9] 0.5 = 2" by (simp add: percentile_def Let_def)
  moreover have "sorted [1, 2, 5, 9::real]" by simp
  ultimately show ?thesis
    using percentile_nearest_rank [of "[1, 2, 5, 9]" "0.5"] by simp
qed

lemma percentile_mono:
  assumes "sorted xs" "xs \<noteq> []" "0 < p" "p \<le> q" "q < 1"
  shows "percentile xs p \<le> percentile xs q"
proof -
  from assms have p: "0 < p" "p < 1" and q: "0 < q" "q < 1" by auto
  obtain r where r: "real r < p * real (length xs) + 1" "percentile xs p = xs ! (r - 1)"
    by (rule percentile_rank [OF assms(2) p])
  obtain t where t: "0 < t" "t \<le> length xs" "q * real (length xs) \<le> real t"
      "percentile xs q = xs ! (t - 1)"
    by (rule percentile_rank [OF assms(2) q])
  have "p * real (length xs) \<le> q * real (length xs)"
    using assms by (simp add: mult_right_mono)
  then have "r \<le> t" using r t by linarith
  then show ?thesis using r(2) t assms(1) by (auto intro!: sorted_nth_mono)
qed

lemma percentile_le_last:
  assumes "sorted xs" "xs \<noteq> []" "0 < p" "p < 1"
  shows "percentile xs p \<le> xs ! (length xs - 1)"
  using percentile_rank [OF assms(2-4)] assms(1,2) sorted_nth_mono diff_le_mono
  by (metis diff_less length_greater_0_conv less_numeral_extra(1))

lemma sum_list_le_length_mult:
  "\<forall>x \<in> set xs. x \<le> b \<Longrightarrow> sum_list xs \<le> real (length xs) * b"
  by (induction xs) (auto simp: algebra_simps)

lemma GetStatistics_latencies:
  assumes "latencies m \<noteq> []"
  shows "P50LatencyMs (GetStatistics m) = percentile (sort (latencies m)) 0.50"
    and "P95LatencyMs (GetStatistics m) = percentile (sort (latencies m)) 0.95"
    and "P99LatencyMs (GetStatistics m) = percentile (sort (latencies m)) 0.99"
    and "MaxLatencyMs (GetStatistics m) = sort (latencies m) ! (length (latencies m) - 1)"
    and "AverageLatencyMs (GetStatistics m) = sum_list (latencies m) / real (length (latencies m))"
proof -
  have "sum_list (sort (latencies m)) = sum_list (latencies m)"
    by (simp flip: sum_mset_sum_list)
  moreover have "sort (latencies m) \<noteq> []"
    using assms by (metis length_0_conv length_sort)
  ultimately show
    "P50LatencyMs (GetStatistics m) = percentile (sort (latencies m)) 0.50"
    "P95LatencyMs (GetStatistics m) = percentile (sort (latencies m)) 0.95"
    "P99LatencyMs (GetStatistics m) = percentile (sort (latencies m)) 0.99"
    "MaxLatencyMs (GetStatistics m) = sort (latencies m) ! (length (latencies m) - 1)"
    "AverageLatencyMs (GetStatistics m) = sum_list (latencies m) / real (length (latencies m))"
    by (simp_all add: GetStatistics_def Let_def)
qed

lemma MaxLatency_max: "latencies m \<noteq> [] \<Longrightarrow> x \<in> set (latencies m) \<Longrightarrow> x \<le> MaxLatencyMs (GetStatistics m)"
proof -
  assume m: "latencies m \<noteq> []" "x \<in> set (latencies m)"
  then have "x \<in> set (sort (latencies m))" by simp
  then obtain i where "i < length (latencies m)" "x = sort (latencies m) ! i"
    by (metis in_set_conv_nth length_sort)
  then show ?thesis
    using m by (auto simp: GetStatistics_latencies intro!: sorted_nth_mono)
qed

text \<open>The statistics a scenario is judged on are coherent: the percentiles increase up to the
  maximum, the maximum bounds every kept sample and the average, and the request counts add up.\<close>

theorem GetStatistics_coherent:
  assumes "latencies m \<noteq> []"
  shows "P50LatencyMs (GetStatistics m) \<le> P95LatencyMs (GetStatistics m) \<and>
     P95LatencyMs (GetStatistics m) \<le> P99LatencyMs (GetStatistics m) \<and>
     P99LatencyMs (GetStatistics m) \<le> MaxLatencyMs (GetStatistics m) \<and>
     AverageLatencyMs (GetStatistics m) \<le> MaxLatencyMs (GetStatistics m) \<and>
     (\<forall>x \<in> set (latencies m). x \<le> MaxLatencyMs (GetStatistics m)) \<and>
     TotalRequests (GetStatistics m) = SuccessCount (GetStatistics m) + FailureCount (GetStatistics m)"
proof -
  let ?xs = "sort (latencies m)"
  have ne: "?xs \<noteq> []" using assms by (metis length_0_conv length_sort)
  note mono = percentile_mono [OF sorted_sort ne]
  note last = percentile_le_last [OF sorted_sort ne, of "0.99"]
  have avg: "AverageLatencyMs (GetStatistics m) \<le> MaxLatencyMs (GetStatistics m)"
    using sum_list_le_length_mult [of "latencies m" "MaxLatencyMs (GetStatistics m)"] assms
    by (simp add: GetStatistics_latencies(5) MaxLatency_max divide_le_eq mult.commute)
  have total: "TotalRequests (GetStatistics m) = SuccessCount (GetStatistics m) + FailureCount (GetStatistics m)"
    by (simp add: GetStatistics_def Let_def)
  show ?thesis
    using avg total assms mono [of "0.50" "0.95"] mono [of "0.95" "0.99"] last MaxLatency_max [OF assms]
    by (simp add: GetStatistics_latencies(1-4))
qed

theorem GetStatistics_coherent_witness:
  "P99LatencyMs (GetStatistics (NewMetricsCollector\<lparr>latencies := [7, 3]\<rparr>)) = 7 \<and>
   P50LatencyMs (GetStatistics (NewMetricsCollector\<lparr>latencies := [7, 3]\<rparr>)) \<le>
     P95LatencyMs (GetStatistics (NewMetricsCollector\<lparr>latencies := [7, 3]\<rparr>))"
  using GetStatistics_coherent [of "NewMetricsCollector\<lparr>latencies := [7, 3]\<rparr>"]
  by (simp add: GetStatistics_latencies percentile_def Let_def)

end
