(* ===== verification/StressSuite.thy ===== *)
theory StressSuite
  imports EtcdClient Recorder Metrics "HOL-Library.Word"
begin

text \<open>
  \<^verbatim>\<open>src/internal/etcd/stress\<close>: the stress suite's configuration
  (\<^verbatim>\<open>configuration.go\<close>), its runner (\<^verbatim>\<open>runner_workflow.go\<close>), the scenario parameters, the
  results and the workload execution helpers. Calls to the etcd client are arguments that
  thread a world \<open>'w\<close> and report how long the call took; a formatted message is a value of
  \<open>message\<close>, its constructor naming the format and holding the arguments. Durations are
  nanoseconds; where the code multiplies a configured integer into a duration the product is
  taken at 64 bits.
\<close>

section \<open>Configuration\<close>

definition DefaultEndpoints :: string where
  "DefaultEndpoints = ''https://127.0.0.1:2379''"

definition DefaultTestKeyPrefix :: string where
  "DefaultTestKeyPrefix = ''/etcd-infra-stress/''"

record Config =
  Endpoints :: "string list"
  CACertFile :: string
  PrivateKeyFile :: string
  CertFile :: string
  TestKeyPrefix :: string
  ScenarioIDs :: "string list"
  DurationSeconds :: int
  ConcurrentWorkers :: int
  cRequestsPerSecond :: int
  KeySizeBytes :: int
  ValueSizeBytes :: int
  CompactIntervalSeconds :: int
  DefragAfterCompact :: bool
  KeyspaceScale :: real
  MaxErrorRate :: real
  cMaxLatencyMs :: int
  WarmupDurationSeconds :: int
  CooldownDurationSeconds :: int
  stepTimeout :: string

datatype stress_error = ErrNoEndpoints | ErrNoTestKeyPrefix | ErrNoScenarios
  | ErrUnknownScenario string | ErrNegativeSize | ErrNegativeMaintenance | ErrDefragWithoutCompact
  | ErrInvalidConfig stress_error | ErrTestsFailed stress_error | ErrWriteResults string
  | ErrScenariosFailed int

text \<open>The method mutates the configuration it is called on: the result is the error, if any, and
  the configuration afterwards, which keeps the defaults set before a later check fails.\<close>

definition ValidateAndSetDefaults :: "string list \<Rightarrow> Config \<Rightarrow> stress_error option \<times> Config" where
  "ValidateAndSetDefaults ids c =
     (if length (Endpoints c) = 0 then (Some ErrNoEndpoints, c)
      else if TestKeyPrefix c = [] then (Some ErrNoTestKeyPrefix, c)
      else if length (ScenarioIDs c) = 0 then (Some ErrNoScenarios, c)
      else case find (\<lambda>i. i \<notin> set ids) (ScenarioIDs c) of
        Some i \<Rightarrow> (Some (ErrUnknownScenario i), c)
      | None \<Rightarrow>
        let c = (if DurationSeconds c \<le> 0 then c\<lparr>DurationSeconds := 60\<rparr> else c);
            c = (if ConcurrentWorkers c \<le> 0 then c\<lparr>ConcurrentWorkers := 10\<rparr> else c)
        in if KeySizeBytes c < 0 \<or> ValueSizeBytes c < 0 then (Some ErrNegativeSize, c)
           else if CompactIntervalSeconds c < 0 \<or> KeyspaceScale c < 0 then (Some ErrNegativeMaintenance, c)
           else if DefragAfterCompact c \<and> CompactIntervalSeconds c = 0 then (Some ErrDefragWithoutCompact, c)
           else let c = (if MaxErrorRate c \<le> 0 then c\<lparr>MaxErrorRate := 0.5\<rparr> else c);
                    c = (if cMaxLatencyMs c \<le> 0 then c\<lparr>cMaxLatencyMs := 30000\<rparr> else c)
                in (None, c))"

definition runnerTimeoutDefault :: int where
  "runnerTimeoutDefault = 10 * second"

definition determineRunnerTimeout :: "(string \<Rightarrow> int option) \<Rightarrow> string \<Rightarrow> int" where
  "determineRunnerTimeout parseDuration s =
     (let s = TrimSpace s in
      if s \<noteq> [] then (case parseDuration s of
           None \<Rightarrow> runnerTimeoutDefault
         | Some d \<Rightarrow> if d > 0 then d else runnerTimeoutDefault)
      else runnerTimeoutDefault)"

section \<open>Scenario parameters\<close>

record StressConfig =
  sDurationSeconds :: int
  sConcurrentWorkers :: int
  sRequestsPerSecond :: int
  sKeySizeBytes :: int
  sValueSizeBytes :: int
  sCompactIntervalSeconds :: int
  sDefragAfterCompact :: bool
  sKeyspaceScale :: real

text \<open>\<^verbatim>\<open>time.Duration(n) * time.Second\<close> on \<^verbatim>\<open>int64\<close>.\<close>

definition seconds64 :: "int \<Rightarrow> int" where
  "seconds64 n = sint (word_of_int n * word_of_int second :: 64 word)"

definition scenarioDuration :: "StressConfig \<Rightarrow> int" where
  "scenarioDuration c = (if sDurationSeconds c \<le> 0 then 60 * second else seconds64 (sDurationSeconds c))"

definition workerCount :: "StressConfig \<Rightarrow> int" where
  "workerCount c = (if sConcurrentWorkers c \<le> 0 then 1 else sConcurrentWorkers c)"

definition valueSize :: "StressConfig \<Rightarrow> int \<Rightarrow> int" where
  "valueSize c fallback = (if sValueSizeBytes c \<le> 0 then fallback else sValueSizeBytes c)"

definition keySize :: "StressConfig \<Rightarrow> int \<Rightarrow> int" where
  "keySize c fallback = (if sKeySizeBytes c \<le> 0 then fallback else sKeySizeBytes c)"

definition intMax :: "int \<Rightarrow> int \<Rightarrow> int" where
  "intMax a b = (if a > b then a else b)"

definition computePerWorkerInterval :: "int \<Rightarrow> int \<Rightarrow> int" where
  "computePerWorkerInterval rps workers =
     (if rps \<le> 0 \<or> workers \<le> 0 then 0
      else let perWorker = real_of_int rps / real_of_int workers;
               perWorker = (if perWorker \<le> 0 then 1 else perWorker);
               interval = trunc (real_of_int second / perWorker)
           in if interval < 0 then 0 else interval)"

text \<open>How long \<^verbatim>\<open>sleepUntil\<close> sleeps when \<open>remaining\<close> is left until the deadline.\<close>

definition sleepUntil :: "int \<Rightarrow> int \<Rightarrow> int" where
  "sleepUntil remaining interval =
     (if interval \<le> 0 then 0
      else if remaining \<le> 0 then 0
      else if interval > remaining then remaining else interval)"

section \<open>Results\<close>

text \<open>Messages built with float verbs are kept as the values they print. \<open>Judged bad classes ops\<close> is
  the output of the mixed-size scenario: its complaints, the class summaries and the number of
  maintenance operations.\<close>

datatype complaint = FailedRequestsC int | MissedArrivalsC int | MaintenanceFailed string string string
  | WatchErrors int | NoEventsReceived | ClassP99 string real real

datatype message = Msg string | NoRequests | RateTooLow real real | P99TooHigh real real
  | RateAndP99 real real | Judged "complaint list" "(string \<times> int \<times> real) list" nat

record ClassResult =
  crClass :: string
  crValueBytes :: int
  crOffered :: int
  crSuccessful :: int
  crFailed :: int
  crMissedArrivals :: int
  crP50LatencyMs :: real
  crP99LatencyMs :: real
  crMaxLatencyMs :: real

record MaintenanceEvent =
  meKind :: string
  meMember :: string
  meRevision :: int
  meStartS :: real
  meDurationS :: real
  meError :: string

record Result =
  rScenario :: string
  rTimeStart :: int
  rTimeEnd :: int
  rTook :: int
  rSuccess :: bool
  rOutput :: message
  rTotalRequests :: int
  rSuccessfulRequests :: int
  rFailedRequests :: int
  rAverageLatency :: int
  rP50Latency :: int
  rP95Latency :: int
  rP99Latency :: int
  rMaxLatency :: int
  rLatencyBuckets :: "int list"
  rRequestsPerSecond :: real
  rBytesWritten :: int
  rBytesRead :: int
  rMissedArrivals :: int
  rClasses :: "ClassResult list"
  rMaintenance :: "MaintenanceEvent list"

definition new_result :: "string \<Rightarrow> int \<Rightarrow> Result" where
  "new_result scenario start = \<lparr>rScenario = scenario, rTimeStart = start, rTimeEnd = 0, rTook = 0,
     rSuccess = True, rOutput = Msg ''ok'', rTotalRequests = 0, rSuccessfulRequests = 0,
     rFailedRequests = 0, rAverageLatency = 0, rP50Latency = 0, rP95Latency = 0, rP99Latency = 0,
     rMaxLatency = 0, rLatencyBuckets = [], rRequestsPerSecond = 0, rBytesWritten = 0, rBytesRead = 0,
     rMissedArrivals = 0, rClasses = [], rMaintenance = []\<rparr>"

definition RecordTimeEnd :: "int \<Rightarrow> Result \<Rightarrow> Result" where
  "RecordTimeEnd t rs =
     (let rs = rs\<lparr>rTimeEnd := t, rTook := time_sub t (rTimeStart rs)\<rparr> in
      if rTook rs > 0 \<and> rTotalRequests rs > 0
      then rs\<lparr>rRequestsPerSecond :=
             real_of_int (rTotalRequests rs) / (real_of_int (rTook rs) / real_of_int second)\<rparr>
      else rs)"

fun Failed :: "Result list \<Rightarrow> bool" where
  "Failed [] = False"
| "Failed (r # rs) = (if \<not> rSuccess r then True else Failed rs)"

definition TotalRequestsOf :: "Result list \<Rightarrow> int" where
  "TotalRequestsOf rs = foldl (\<lambda>total r. total + rTotalRequests r) 0 rs"

definition SuccessRateOf :: "Result list \<Rightarrow> real" where
  "SuccessRateOf rs = (let totalReqs = TotalRequestsOf rs in
     if totalReqs = 0 then 0
     else real_of_int (foldl (\<lambda>n r. n + rSuccessfulRequests r) 0 rs) / real_of_int totalReqs)"

text \<open>\<^verbatim>\<open>Duration.Milliseconds\<close> truncates towards zero.\<close>

definition milliseconds :: "int \<Rightarrow> int" where
  "milliseconds d = (if d \<ge> 0 then d div millisecond else - ((- d) div millisecond))"

definition AverageLatencyOf :: "Result list \<Rightarrow> real" where
  "AverageLatencyOf rs =
     (if length rs = 0 then 0
      else let (total, count) = foldl (\<lambda>(total, count) r.
                 if rAverageLatency r > 0
                 then (total + real_of_int (milliseconds (rAverageLatency r)), count + 1)
                 else (total, count)) (0, 0::int) rs
           in if count = 0 then 0 else total / real_of_int count)"

fun count_loop :: "Result list \<Rightarrow> int \<Rightarrow> int \<Rightarrow> int \<times> int" where
  "count_loop [] passed failed = (passed, failed)"
| "count_loop (r # rs) passed failed =
     (if rSuccess r then count_loop rs (passed + 1) failed else count_loop rs passed (failed + 1))"

definition countResults :: "Result list \<Rightarrow> int \<times> int" where
  "countResults results = count_loop results 0 0"

section \<open>Judging a scenario\<close>

fun firstErrorMessage :: "string list \<Rightarrow> string" where
  "firstErrorMessage [] = []"
| "firstErrorMessage (e # es) = e"

definition ms_duration :: "real \<Rightarrow> int" where
  "ms_duration x = trunc (x * real_of_int millisecond)"

definition copyStatistics :: "Statistics \<Rightarrow> int list \<Rightarrow> Result \<Rightarrow> Result" where
  "copyStatistics stats buckets result = result\<lparr>
     rTotalRequests := TotalRequests stats, rSuccessfulRequests := SuccessCount stats,
     rFailedRequests := FailureCount stats,
     rAverageLatency := ms_duration (AverageLatencyMs stats),
     rP50Latency := ms_duration (P50LatencyMs stats), rP95Latency := ms_duration (P95LatencyMs stats),
     rP99Latency := ms_duration (P99LatencyMs stats), rMaxLatency := ms_duration (MaxLatencyMs stats),
     rBytesWritten := BytesWritten stats, rBytesRead := BytesRead stats,
     rLatencyBuckets := buckets\<rparr>"

text \<open>\<open>multiplier\<close> is \<^verbatim>\<open>p99LatencyMultiplier()\<close>.\<close>

definition finalizeScenario ::
  "real \<Rightarrow> Result \<Rightarrow> MetricsCollector \<Rightarrow> string list \<Rightarrow> real \<Rightarrow> real \<Rightarrow> Result \<times> Statistics" where
  "finalizeScenario multiplier result metrics errs minSuccessRate maxP99 =
     (let stats = GetStatistics metrics;
          result = copyStatistics stats (LatencyBuckets metrics) result
      in if length errs > 0
         then (result\<lparr>rSuccess := False, rOutput := Msg (firstErrorMessage errs)\<rparr>, stats)
         else if TotalRequests stats = 0
         then (result\<lparr>rSuccess := False, rOutput := NoRequests\<rparr>, stats)
         else if SuccessRate stats < minSuccessRate
         then (result\<lparr>rSuccess := False,
                 rOutput := RateTooLow (SuccessRate stats * 100) (minSuccessRate * 100)\<rparr>, stats)
         else let maxP99 = (if maxP99 > 0 then maxP99 * multiplier else maxP99)
              in if maxP99 > 0 \<and> P99LatencyMs stats > maxP99
                 then (result\<lparr>rSuccess := False, rOutput := P99TooHigh (P99LatencyMs stats) maxP99\<rparr>, stats)
                 else (result\<lparr>rOutput := RateAndP99 (SuccessRate stats * 100) (P99LatencyMs stats)\<rparr>, stats))"

text \<open>\<^verbatim>\<open>testtime.parseSlowPathMultiplier\<close>, with \<^verbatim>\<open>strconv.ParseFloat\<close> as an argument.\<close>

definition parseSlowPathMultiplier :: "(string \<Rightarrow> real option) \<Rightarrow> string \<Rightarrow> real" where
  "parseSlowPathMultiplier parseFloat v =
     (if v = [] then 1 else case parseFloat v of None \<Rightarrow> 1 | Some f \<Rightarrow> if f < 1 then 1 else f)"

definition ScaleDuration :: "real \<Rightarrow> int \<Rightarrow> int" where
  "ScaleDuration multiplier d = trunc (real_of_int d * multiplier)"


section \<open>Workload execution\<close>

text \<open>What one worker goroutine does before it ends: the errors its function sends on the
  channel, and the value it panics with, if it does.\<close>

record worker_run =
  workerID :: nat
  sent :: "string list"
  panicked :: "string option"

definition recoverWorker :: "worker_run \<Rightarrow> string list" where
  "recoverWorker w = (case panicked w of None \<Rightarrow> []
     | Some v \<Rightarrow> [''worker '' @ show_nat (workerID w) @ '' panic: '' @ v])"

text \<open>A send on the buffered channel blocks when it is full; nothing is received before all workers
  are done, so a blocked worker is a deadlock: \<open>None\<close>.\<close>

definition chan_send :: "nat \<Rightarrow> 'e list \<Rightarrow> 'e \<Rightarrow> 'e list option" where
  "chan_send capacity ch e = (if length ch < capacity then Some (ch @ [e]) else None)"

fun send_all :: "nat \<Rightarrow> 'e list \<Rightarrow> 'e list \<Rightarrow> 'e list option" where
  "send_all capacity ch [] = Some ch"
| "send_all capacity ch (e # es) =
     (case chan_send capacity ch e of None \<Rightarrow> None | Some ch' \<Rightarrow> send_all capacity ch' es)"

text \<open>\<open>fn\<close> runs one worker; \<open>order\<close> is the order in which the sends of the workers reach the
  channel, given as the workers in the order of their completion.\<close>

definition runWorkers :: "(nat \<Rightarrow> worker_run) \<Rightarrow> (nat list \<Rightarrow> nat list) \<Rightarrow> int \<Rightarrow> string list option" where
  "runWorkers fn order concurrency =
     (let concurrency = nat (if concurrency \<le> 0 then 1 else concurrency);
          runs = map fn (order [0..<concurrency])
      in send_all concurrency [] (concat (map (\<lambda>w. sent w @ recoverWorker w) runs)))"

text \<open>One put: \<open>put key value w\<close> is the client call, with its latency in whole milliseconds;
  \<open>j\<close> is the reservoir draw.\<close>

definition performPutWithMetrics ::
  "(string \<Rightarrow> string \<Rightarrow> 'w \<Rightarrow> (string + unit) \<times> int \<times> 'w) \<Rightarrow> nat \<Rightarrow> string \<Rightarrow> string \<Rightarrow>
   MetricsCollector \<times> 'w \<Rightarrow> string option \<times> MetricsCollector \<times> 'w" where
  "performPutWithMetrics put j key val s = (case s of (metrics, w) \<Rightarrow>
     (case put key val w of
        (Inl err, ms, w') \<Rightarrow>
          (Some (''put key: '' @ err), RecordFailure j (real_of_int ms) err metrics, w')
      | (Inr _, ms, w') \<Rightarrow>
          (None, RecordBytesWritten (int (length key + length val))
             (RecordSuccess j (real_of_int ms) metrics), w')))"

definition performGetWithMetrics ::
  "(string \<Rightarrow> 'w \<Rightarrow> (string + (string \<times> string) list) \<times> int \<times> 'w) \<Rightarrow> nat \<Rightarrow> string \<Rightarrow>
   MetricsCollector \<times> 'w \<Rightarrow> string option \<times> MetricsCollector \<times> 'w" where
  "performGetWithMetrics get j key s = (case s of (metrics, w) \<Rightarrow>
     (case get key w of
        (Inl err, ms, w') \<Rightarrow>
          (Some (''failed to get key: '' @ err), RecordFailure j (real_of_int ms) err metrics, w')
      | (Inr kvs, ms, w') \<Rightarrow>
          (let metrics = RecordSuccess j (real_of_int ms) metrics;
               bytesRead = sum_list (map (\<lambda>(k, v). int (length k + length v)) kvs)
           in (None, if bytesRead > 0 then RecordBytesRead bytesRead metrics else metrics, w'))))"

section \<open>The runner\<close>

record runner =
  cfg :: Config
  defaultTimeout :: int
  results :: "Result list"
  metrics :: MetricsCollector

definition CreateRunner :: "(string \<Rightarrow> int option) \<Rightarrow> Config \<Rightarrow> runner" where
  "CreateRunner parseDuration c =
     \<lparr>cfg = c, defaultTimeout = determineRunnerTimeout parseDuration (stepTimeout c),
      results = [], metrics = NewMetricsCollector\<rparr>"

definition RecordResult :: "Result \<Rightarrow> runner \<Rightarrow> runner" where
  "RecordResult rs r = r\<lparr>results := results r @ [rs]\<rparr>"

definition NewCtxTimeout :: "int \<Rightarrow> runner \<Rightarrow> int" where
  "NewCtxTimeout timeout r = (if timeout \<le> 0 then defaultTimeout r else timeout)"

definition GetConfig :: "runner \<Rightarrow> StressConfig" where
  "GetConfig r = \<lparr>sDurationSeconds = DurationSeconds (cfg r),
     sConcurrentWorkers = ConcurrentWorkers (cfg r), sRequestsPerSecond = cRequestsPerSecond (cfg r),
     sKeySizeBytes = KeySizeBytes (cfg r), sValueSizeBytes = ValueSizeBytes (cfg r),
     sCompactIntervalSeconds = CompactIntervalSeconds (cfg r),
     sDefragAfterCompact = DefragAfterCompact (cfg r), sKeyspaceScale = KeyspaceScale (cfg r)\<rparr>"

text \<open>The health probe: \<open>probe w\<close> is one round of \<^verbatim>\<open>NewClient\<close> and \<^verbatim>\<open>Get\<close> with the time it took;
  each failed round sleeps two seconds. \<open>now\<close> counts the nanoseconds since the call.\<close>

function waitForClusterHealth ::
  "('w \<Rightarrow> string option \<times> nat \<times> 'w) \<Rightarrow> int \<Rightarrow> int \<Rightarrow> string \<Rightarrow> 'w \<Rightarrow> string option \<times> 'w" where
  "waitForClusterHealth probe timeout now lastErr w =
     (if now < timeout
      then case probe w of
             (None, took, w') \<Rightarrow> (None, w')
           | (Some e, took, w') \<Rightarrow>
               waitForClusterHealth probe timeout (now + int took + 2 * second) e w'
      else (Some (''cluster not healthy after '' @ duration_string timeout @ '': '' @ lastErr), w))"
  by pat_completeness auto
termination
  by (relation "measure (\<lambda>(probe, timeout, now, lastErr, w). nat (timeout - now))")
    (auto simp: second_def)

declare waitForClusterHealth.simps [simp del]

text \<open>\<open>run scenario r w\<close> is the registered scenario function applied to the runner; the outcome of
  the health check is only logged.\<close>

fun run_scenarios ::
  "(string \<Rightarrow> runner \<Rightarrow> 'w \<Rightarrow> runner \<times> 'w) \<Rightarrow> ('w \<Rightarrow> string option \<times> nat \<times> 'w) \<Rightarrow> (int \<Rightarrow> 'w \<Rightarrow> 'w) \<Rightarrow>
   int \<Rightarrow> string list \<Rightarrow> runner \<Rightarrow> 'w \<Rightarrow> runner \<times> 'w" where
  "run_scenarios run probe sleep cooldown [] r w = (r, w)"
| "run_scenarios run probe sleep cooldown (s # ss) r w =
     (let (_, w1) = waitForClusterHealth probe (30 * second) 0 [] w;
          (r2, w2) = run s r w1;
          w3 = (if ss \<noteq> [] then sleep cooldown w2 else w2)
      in run_scenarios run probe sleep cooldown ss r2 w3)"

definition Cleanup :: "'w etcd_client \<Rightarrow> runner \<Rightarrow> 'w \<Rightarrow> string option \<times> 'w" where
  "Cleanup cl r w = cleanup_keys cl ''create client for cleanup'' (Endpoints (cfg r)) (TestKeyPrefix (cfg r)) w"

text \<open>The deferred \<^verbatim>\<open>Cleanup\<close> runs after the return value is taken; its error is only logged.\<close>

definition RunScenarios ::
  "(string \<Rightarrow> int option) \<Rightarrow> string list \<Rightarrow> (string \<Rightarrow> runner \<Rightarrow> 'w \<Rightarrow> runner \<times> 'w) \<Rightarrow>
   ('w \<Rightarrow> string option \<times> nat \<times> 'w) \<Rightarrow> (int \<Rightarrow> 'w \<Rightarrow> 'w) \<Rightarrow> 'w etcd_client \<Rightarrow> Config \<Rightarrow> 'w \<Rightarrow>
   (stress_error + Result list) \<times> 'w" where
  "RunScenarios parseDuration registry run probe sleep cl c w =
     (case find (\<lambda>i. i \<notin> set registry) (ScenarioIDs c) of
        Some i \<Rightarrow> (Inl (ErrUnknownScenario i), w)
      | None \<Rightarrow>
        let cooldown = seconds64 (CooldownDurationSeconds c);
            cooldown = (if cooldown \<le> 0 then 10 * second else cooldown);
            (r, w') = run_scenarios run probe sleep cooldown (ScenarioIDs c) (CreateRunner parseDuration c) w
        in (Inr (results r), snd (Cleanup cl r w')))"

definition normalizeEndpoints :: "string list \<Rightarrow> string list" where
  "normalizeEndpoints endpoints =
     (let endpoints = (if length endpoints = 0 then [DefaultEndpoints] else endpoints);
          trimmed = filter (\<lambda>e. e \<noteq> []) (map TrimSpace endpoints)
      in if length trimmed = 0 then [DefaultEndpoints] else trimmed)"

definition resolveScenarioIDs :: "string list \<Rightarrow> string \<Rightarrow> string list" where
  "resolveScenarioIDs registry scenarioID =
     (let scenarioID = TrimSpace scenarioID in
      if scenarioID \<noteq> [] then filter (\<lambda>i. i \<noteq> []) (map TrimSpace (Split (CHR '','') scenarioID))
      else sort_Strings registry)"

definition normalizeTestKeyPrefix :: "string \<Rightarrow> string" where
  "normalizeTestKeyPrefix pfx =
     (let pfx = TrimSpace pfx in if pfx = [] then DefaultTestKeyPrefix else pfx)"

record Options =
  oEndpoints :: "string list"
  oCACertFile :: string
  oClientCertFile :: string
  oClientKeyFile :: string
  oTestKeyPrefix :: string
  oScenarioID :: string
  oStepTimeout :: string
  oDuration :: int
  oWorkers :: int
  oRequestsPerSec :: int
  oKeyBytes :: int
  oValueBytes :: int
  oCompactInterval :: int
  oDefragAfterCompact :: bool
  oKeyspaceScale :: real
  oResultsFile :: string

definition config_of :: "string list \<Rightarrow> Options \<Rightarrow> Config" where
  "config_of registry opts =
     \<lparr>Endpoints = normalizeEndpoints (oEndpoints opts), CACertFile = TrimSpace (oCACertFile opts),
      PrivateKeyFile = TrimSpace (oClientKeyFile opts), CertFile = TrimSpace (oClientCertFile opts),
      TestKeyPrefix = normalizeTestKeyPrefix (oTestKeyPrefix opts),
      ScenarioIDs = resolveScenarioIDs registry (oScenarioID opts),
      DurationSeconds = oDuration opts, ConcurrentWorkers = oWorkers opts,
      cRequestsPerSecond = oRequestsPerSec opts, KeySizeBytes = oKeyBytes opts,
      ValueSizeBytes = oValueBytes opts, CompactIntervalSeconds = oCompactInterval opts,
      DefragAfterCompact = oDefragAfterCompact opts, KeyspaceScale = oKeyspaceScale opts,
      MaxErrorRate = 0, cMaxLatencyMs = 0, WarmupDurationSeconds = 0, CooldownDurationSeconds = 0,
      stepTimeout = TrimSpace (oStepTimeout opts)\<rparr>"

text \<open>\<open>write file rs w\<close> is \<^verbatim>\<open>writeResultsFile\<close>.\<close>

definition Run ::
  "(string \<Rightarrow> int option) \<Rightarrow> string list \<Rightarrow> string list \<Rightarrow> (string \<Rightarrow> runner \<Rightarrow> 'w \<Rightarrow> runner \<times> 'w) \<Rightarrow>
   ('w \<Rightarrow> string option \<times> nat \<times> 'w) \<Rightarrow> (int \<Rightarrow> 'w \<Rightarrow> 'w) \<Rightarrow> 'w etcd_client \<Rightarrow>
   (string \<Rightarrow> Result list \<Rightarrow> 'w \<Rightarrow> string option \<times> 'w) \<Rightarrow> Options \<Rightarrow> 'w \<Rightarrow> stress_error option \<times> 'w" where
  "Run parseDuration ids registry run probe sleep cl write opts w =
     (case ValidateAndSetDefaults ids (config_of registry opts) of
        (Some e, _) \<Rightarrow> (Some (ErrInvalidConfig e), w)
      | (None, c) \<Rightarrow>
        (case RunScenarios parseDuration registry run probe sleep cl c w of
           (Inl e, w1) \<Rightarrow> (Some (ErrTestsFailed e), w1)
         | (Inr rs, w1) \<Rightarrow>
           (let (passed, failed) = countResults rs;
                (werr, w2) = (if oResultsFile opts \<noteq> [] then write (oResultsFile opts) rs w1 else (None, w1))
            in case werr of
                 Some e \<Rightarrow> (Some (ErrWriteResults e), w2)
               | None \<Rightarrow> if failed > 0 then (Some (ErrScenariosFailed failed), w2) else (None, w2))))"


section \<open>Configuration\<close>

text \<open>What the scenarios rely on after validation.\<close>

definition valid_config :: "string list \<Rightarrow> Config \<Rightarrow> bool" where
  "valid_config ids c \<longleftrightarrow> Endpoints c \<noteq> [] \<and> TestKeyPrefix c \<noteq> [] \<and> ScenarioIDs c \<noteq> [] \<and>
     set (ScenarioIDs c) \<subseteq> set ids \<and> 0 < DurationSeconds c \<and> 0 < ConcurrentWorkers c \<and>
     0 \<le> KeySizeBytes c \<and> 0 \<le> ValueSizeBytes c \<and> 0 \<le> CompactIntervalSeconds c \<and>
     0 \<le> KeyspaceScale c \<and> (DefragAfterCompact c \<longrightarrow> 0 < CompactIntervalSeconds c) \<and>
     0 < MaxErrorRate c \<and> 0 < cMaxLatencyMs c"

lemma find_None_subset: "find (\<lambda>i. i \<notin> set ids) xs = None \<longleftrightarrow> set xs \<subseteq> set ids"
  by (auto simp: find_None_iff)

lemma ValidateAndSetDefaults_valid:
  "ValidateAndSetDefaults ids c = (None, c') \<Longrightarrow> valid_config ids c'"
  by (auto simp: ValidateAndSetDefaults_def valid_config_def Let_def find_None_subset
      split: if_splits option.splits)

lemma ValidateAndSetDefaults_fixed:
  "valid_config ids c \<Longrightarrow> ValidateAndSetDefaults ids c = (None, c)"
  by (auto simp: ValidateAndSetDefaults_def valid_config_def Let_def find_None_subset
      split: option.splits)

text \<open>C18: validation accepts a configuration only after making it valid, and accepts a valid one
  unchanged; so validating twice is validating once. A key or value size is never defaulted.\<close>

theorem ValidateAndSetDefaults_establishes:
  assumes "ValidateAndSetDefaults ids c = (None, c')"
  shows "valid_config ids c' \<and> ValidateAndSetDefaults ids c' = (None, c') \<and>
     KeySizeBytes c' = KeySizeBytes c \<and> ValueSizeBytes c' = ValueSizeBytes c \<and>
     ScenarioIDs c' = ScenarioIDs c \<and> cRequestsPerSecond c' = cRequestsPerSecond c"
proof -
  have "valid_config ids c'" by (rule ValidateAndSetDefaults_valid [OF assms])
  moreover from this have "ValidateAndSetDefaults ids c' = (None, c')"
    by (rule ValidateAndSetDefaults_fixed)
  moreover have "KeySizeBytes c' = KeySizeBytes c \<and> ValueSizeBytes c' = ValueSizeBytes c \<and>
     ScenarioIDs c' = ScenarioIDs c \<and> cRequestsPerSecond c' = cRequestsPerSecond c"
    using assms by (auto simp: ValidateAndSetDefaults_def Let_def split: if_splits option.splits)
  ultimately show ?thesis by blast
qed

definition sample_options :: Options where
  "sample_options = \<lparr>oEndpoints = [], oCACertFile = [], oClientCertFile = [], oClientKeyFile = [],
     oTestKeyPrefix = [], oScenarioID = ''BURST_WRITES'', oStepTimeout = [], oDuration = 0, oWorkers = 0,
     oRequestsPerSec = 100, oKeyBytes = 0, oValueBytes = 0, oCompactInterval = 0,
     oDefragAfterCompact = False, oKeyspaceScale = 0, oResultsFile = []\<rparr>"

lemma sample_config:
  "Endpoints (config_of reg sample_options) = [DefaultEndpoints]"
  "TestKeyPrefix (config_of reg sample_options) = DefaultTestKeyPrefix"
  "ScenarioIDs (config_of reg sample_options) = [''BURST_WRITES'']"
proof -
  have "TrimSpace [] = []" using set_TrimSpace [of "[]"] by simp
  moreover have "TrimSpace DefaultEndpoints = DefaultEndpoints" by code_simp
  moreover have "filter (\<lambda>i. i \<noteq> []) (map TrimSpace (Split (CHR '','') (TrimSpace ''BURST_WRITES'')))
      = [''BURST_WRITES''] \<and> TrimSpace ''BURST_WRITES'' \<noteq> []" by code_simp
  ultimately show "Endpoints (config_of reg sample_options) = [DefaultEndpoints]"
    "TestKeyPrefix (config_of reg sample_options) = DefaultTestKeyPrefix"
    "ScenarioIDs (config_of reg sample_options) = [''BURST_WRITES'']"
    by (simp_all add: config_of_def sample_options_def normalizeEndpoints_def
        normalizeTestKeyPrefix_def resolveScenarioIDs_def Let_def DefaultEndpoints_def)
qed

theorem ValidateAndSetDefaults_establishes_witness:
  "\<exists>c'. ValidateAndSetDefaults [''BURST_WRITES''] (config_of [''BURST_WRITES''] sample_options) = (None, c') \<and>
     valid_config [''BURST_WRITES''] c' \<and> DurationSeconds c' = 60"
proof -
  let ?c = "config_of [''BURST_WRITES''] sample_options"
  obtain c' where c': "ValidateAndSetDefaults [''BURST_WRITES''] ?c = (None, c')" "DurationSeconds c' = 60"
    using sample_config [of "[''BURST_WRITES'']"]
    by (simp add: ValidateAndSetDefaults_def DefaultTestKeyPrefix_def)
      (simp add: config_of_def sample_options_def Let_def)
  with ValidateAndSetDefaults_establishes [OF c'(1)] show ?thesis by blast
qed

section \<open>Rates and durations\<close>

lemma seconds64_exact:
  assumes "0 \<le> n" "n \<le> 9223372036"
  shows "seconds64 n = n * second"
proof -
  have "signed_take_bit 63 (n * second) = n * second"
    using assms by (intro signed_take_bit_int_eq_self) (auto simp: second_def)
  moreover have "word_of_int n * word_of_int second = (word_of_int (n * second) :: 64 word)"
    by (simp only: wi_hom_mult)
  ultimately show ?thesis by (simp only: seconds64_def signed_of_int) simp
qed

lemma floor_divide_rate:
  "0 < a \<Longrightarrow> 0 < b \<Longrightarrow> \<lfloor>real_of_int n / (real_of_int a / real_of_int b)\<rfloor> = (n * b) div a"
  using floor_divide_of_int_eq [of "n * b" a, where ?'a = real] by simp

text \<open>The pause each worker makes is the integer quotient of a second times the number of
  workers by the requested rate, so that \<open>workers\<close> workers pacing at that interval offer at
  least the rate and, with an interval one nanosecond longer, less than it.\<close>

theorem computePerWorkerInterval_exact:
  assumes "0 < rps" "0 < workers"
  shows "computePerWorkerInterval rps workers = (second * workers) div rps \<and>
     computePerWorkerInterval rps workers * rps \<le> second * workers \<and>
     second * workers < (computePerWorkerInterval rps workers + 1) * rps"
proof -
  have pos: "real_of_int second / (real_of_int rps / real_of_int workers) \<ge> 0"
    using assms by (simp add: second_def)
  have "\<not> real_of_int rps / real_of_int workers \<le> 0"
    using assms by (simp add: not_le)
  then have eq: "computePerWorkerInterval rps workers = (second * workers) div rps"
    using assms pos floor_divide_rate [of rps workers second]
    by (simp add: computePerWorkerInterval_def Let_def trunc_def not_less pos_imp_zdiv_nonneg_iff second_def)
  have "(second * workers) div rps * rps \<le> second * workers"
    using assms mod_div_mult_eq [of "second * workers" rps] pos_mod_sign [of rps "second * workers"]
    by linarith
  moreover have "second * workers < ((second * workers) div rps + 1) * rps"
    using mod_div_mult_eq [of "second * workers" rps] pos_mod_bound [OF assms(1), of "second * workers"]
    by (simp only: distrib_right)
  ultimately show ?thesis by (simp add: eq)
qed

theorem computePerWorkerInterval_exact_witness: "computePerWorkerInterval 300 7 = 23333333"
  using computePerWorkerInterval_exact [of 300 7] by (simp add: second_def)


section \<open>The verdict\<close>

lemma parseSlowPathMultiplier_ge_1: "1 \<le> parseSlowPathMultiplier parseFloat v"
  by (auto simp: parseSlowPathMultiplier_def split: option.splits)

text \<open>A scenario that was successful so far stays so exactly when no worker reported an error, at
  least one request was made, the success rate reaches the minimum, and the 99th percentile is
  within the budget (scaled by the slow-path multiplier, which never tightens it); the
  verdict never turns a failed result into a success, and the published counts are those of
  the collector.\<close>

theorem finalizeScenario_verdict:
  "(rSuccess (fst (finalizeScenario (parseSlowPathMultiplier parseFloat env) result m errs minRate maxP99)) \<longleftrightarrow>
       rSuccess result \<and> errs = [] \<and> TotalRequests (GetStatistics m) \<noteq> 0 \<and>
       minRate \<le> SuccessRate (GetStatistics m) \<and>
       (0 < maxP99 \<longrightarrow> P99LatencyMs (GetStatistics m) \<le> maxP99 * parseSlowPathMultiplier parseFloat env)) \<and>
     rTotalRequests (fst (finalizeScenario (parseSlowPathMultiplier parseFloat env) result m errs minRate maxP99))
       = successCount m + failureCount m \<and>
     rFailedRequests (fst (finalizeScenario (parseSlowPathMultiplier parseFloat env) result m errs minRate maxP99))
       = failureCount m"
proof -
  let ?mult = "parseSlowPathMultiplier parseFloat env"
  have "0 < ?mult" using parseSlowPathMultiplier_ge_1 [of parseFloat env] by simp
  then have pos: "0 < maxP99 * ?mult \<longleftrightarrow> 0 < maxP99" "maxP99 * ?mult \<le> 0 \<longleftrightarrow> maxP99 \<le> 0"
    by (simp_all add: zero_less_mult_iff mult_le_0_iff)
  have counts: "TotalRequests (GetStatistics m) = successCount m + failureCount m"
    "FailureCount (GetStatistics m) = failureCount m"
    by (simp_all add: GetStatistics_def Let_def)
  show ?thesis
    unfolding finalizeScenario_def
    by (auto simp: Let_def copyStatistics_def not_less pos counts)
qed

theorem finalizeScenario_verdict_witness:
  "\<forall>result. \<not> rSuccess (fst (finalizeScenario (parseSlowPathMultiplier (\<lambda>_. None) ''x'') result
       (RecordSuccess 0 3000 NewMetricsCollector) [] 0.8 2500))"
proof -
  have "latencies (RecordSuccess 0 3000 NewMetricsCollector) = [3000]"
    by (simp add: RecordSuccess_def recordLatency_def sampleLatency_def bumpBucket_def
        NewMetricsCollector_def Let_def maxLatencySamples_def)
  then have "P99LatencyMs (GetStatistics (RecordSuccess 0 3000 NewMetricsCollector)) = 3000"
    by (simp add: GetStatistics_latencies percentile_def Let_def)
  then show ?thesis
    using finalizeScenario_verdict [of "\<lambda>_. None" "''x''" _ "RecordSuccess 0 3000 NewMetricsCollector" "[]" "0.8" 2500]
    by (simp add: parseSlowPathMultiplier_def)
qed

section \<open>Workers\<close>

lemma send_all_eq:
  "send_all capacity ch es = (if length ch + length es \<le> capacity \<or> es = [] then Some (ch @ es) else None)"
  by (induction es arbitrary: ch) (auto simp: chan_send_def)

lemma length_recoverWorker: "length (recoverWorker w) \<le> 1"
  by (simp add: recoverWorker_def split: option.splits)

lemma length_concat_recover: "length (concat (map recoverWorker ws)) \<le> length ws"
proof (induction ws)
  case Nil
  show ?case by simp
next
  case (Cons w ws)
  then show ?case using length_recoverWorker [of w] by simp
qed



section \<open>Request accounting\<close>

text \<open>A workload is a list of client calls made one after the other by a worker.\<close>

datatype client_call = CallPut nat string string | CallGet nat string

fun perform ::
  "(string \<Rightarrow> string \<Rightarrow> 'w \<Rightarrow> (string + unit) \<times> int \<times> 'w) \<Rightarrow>
   (string \<Rightarrow> 'w \<Rightarrow> (string + (string \<times> string) list) \<times> int \<times> 'w) \<Rightarrow>
   client_call \<Rightarrow> MetricsCollector \<times> 'w \<Rightarrow> string option \<times> MetricsCollector \<times> 'w" where
  "perform put get (CallPut j k v) s = performPutWithMetrics put j k v s"
| "perform put get (CallGet j k) s = performGetWithMetrics get j k s"

lemma RecordSuccess_counts [simp]:
  "successCount (RecordSuccess j x m) = successCount m + 1"
  "failureCount (RecordSuccess j x m) = failureCount m"
  "successCount (RecordFailure j x e m) = successCount m"
  "failureCount (RecordFailure j x e m) = failureCount m + 1"
  by (simp_all add: RecordSuccess_def RecordFailure_def bumpError_def)

lemma RecordBytes_counts [simp]:
  "successCount (RecordBytesWritten n m) = successCount m"
  "failureCount (RecordBytesWritten n m) = failureCount m"
  "successCount (RecordBytesRead n m) = successCount m"
  "failureCount (RecordBytesRead n m) = failureCount m"
  by (simp_all add: RecordBytesWritten_def RecordBytesRead_def)

lemma perform_counts:
  assumes "perform put get c (m, w) = (err, m', w')"
  shows "successCount m' = successCount m + (if err = None then 1 else 0) \<and>
     failureCount m' = failureCount m + (if err = None then 0 else 1) \<and>
     (metrics_inv m \<longrightarrow> metrics_inv m')"
  using assms
  by (cases c) (auto simp: performPutWithMetrics_def performGetWithMetrics_def Let_def
      RecordSuccess_inv RecordFailure_inv RecordBytes_inv split: sum.splits prod.splits if_splits)


fun perform_all ::
  "(string \<Rightarrow> string \<Rightarrow> 'w \<Rightarrow> (string + unit) \<times> int \<times> 'w) \<Rightarrow>
   (string \<Rightarrow> 'w \<Rightarrow> (string + (string \<times> string) list) \<times> int \<times> 'w) \<Rightarrow>
   client_call list \<Rightarrow> MetricsCollector \<times> 'w \<Rightarrow> string option list \<times> MetricsCollector \<times> 'w" where
  "perform_all put get [] s = ([], s)"
| "perform_all put get (c # cs) s =
     (case perform put get c s of (err, s') \<Rightarrow>
        (case perform_all put get cs s' of (errs, s'') \<Rightarrow> (err # errs, s'')))"

text \<open>After a worker has made any sequence of puts and gets against any server, the collector
  has counted each call exactly once, as a success or a failure according to its outcome, and
  the accounting invariant still holds.\<close>

theorem perform_all_counts:
  assumes "perform_all put get cs (m, w) = (errs, m', w')" and "metrics_inv m"
  shows "length errs = length cs \<and> metrics_inv m' \<and>
     successCount m' = successCount m + int (length (filter (\<lambda>e. e = None) errs)) \<and>
     failureCount m' = failureCount m + int (length (filter (\<lambda>e. e \<noteq> None) errs))"
  using assms
proof (induction cs arbitrary: m w errs)
  case Nil
  then show ?case by simp
next
  case (Cons c cs)
  obtain err m1 w1 where c: "perform put get c (m, w) = (err, m1, w1)"
    by (cases "perform put get c (m, w)") auto
  obtain errs1 where cs: "perform_all put get cs (m1, w1) = (errs1, m', w')" "errs = err # errs1"
    using Cons.prems(1) c by (auto split: prod.splits)
  note step = perform_counts [OF c]
  show ?case
    using Cons.IH [OF cs(1)] step Cons.prems(2) cs(2) by auto
qed

theorem perform_all_counts_witness:
  "\<exists>errs m'. perform_all (\<lambda>k v n. if n = (0::nat) then (Inl ''down'', 5, 1) else (Inr (), 2, Suc n))
      (\<lambda>k n. (Inr [(k, ''v'')], 1, n)) [CallPut 0 ''a'' ''x'', CallPut 0 ''a'' ''x'', CallGet 0 ''a'']
      (NewMetricsCollector, 0) = (errs, m', 2) \<and> successCount m' = 2 \<and> failureCount m' = 1"
proof -
  let ?put = "\<lambda>k v n. if n = (0::nat) then (Inl ''down'', 5, 1) else (Inr (), 2, Suc n)"
  let ?get = "\<lambda>k n. (Inr [(k, ''v'')], 1, n)"
  let ?cs = "[CallPut 0 ''a'' ''x'', CallPut 0 ''a'' ''x'', CallGet 0 ''a'']"
  obtain m' where run: "perform_all ?put ?get ?cs (NewMetricsCollector, 0)
      = ([Some ''put key: down'', None, None], m', 2)"
    by (simp add: performPutWithMetrics_def performGetWithMetrics_def Let_def)
  with perform_all_counts [OF run NewMetricsCollector_inv] show ?thesis
    by (auto simp: NewMetricsCollector_def)
qed

section \<open>The suite\<close>

lemma stress_count_loop_eq: "count_loop rs p f =
   (p + int (length (filter rSuccess rs)), f + int (length (filter (\<lambda>r. \<not> rSuccess r) rs)))"
  by (induction rs arbitrary: p f) auto

interpretation stress: result_recorder RecordResult results rSuccess countResults
  by unfold_locales (simp_all add: RecordResult_def countResults_def stress_count_loop_eq)

lemma stress_endpoints_nonempty: "normalizeEndpoints es \<noteq> []"
  by (simp add: normalizeEndpoints_def Let_def)

lemma stress_prefix_nonempty: "normalizeTestKeyPrefix p \<noteq> []"
  by (simp add: normalizeTestKeyPrefix_def Let_def DefaultTestKeyPrefix_def)

text \<open>Whether one of the first \<open>n\<close> probes succeeds.\<close>

fun probe_rounds :: "('w \<Rightarrow> string option \<times> nat \<times> 'w) \<Rightarrow> nat \<Rightarrow> 'w \<Rightarrow> bool" where
  "probe_rounds probe 0 w = False"
| "probe_rounds probe (Suc n) w = (case probe w of
     (None, _, _) \<Rightarrow> True | (Some e, _, w') \<Rightarrow> probe_rounds probe n w')"


lemma waitForClusterHealth_rounds:
  "timeout - 2 * second * int n \<le> now \<Longrightarrow>
   fst (waitForClusterHealth probe timeout now e w) = None \<Longrightarrow> probe_rounds probe n w"
proof (induction n arbitrary: now e w)
  case 0
  then show ?case by (simp add: waitForClusterHealth.simps [of probe timeout now])
next
  case (Suc n)
  obtain r took w' where p: "probe w = (r, took, w')" by (cases "probe w") auto
  show ?case
  proof (cases r)
    case None
    with p show ?thesis by simp
  next
    case (Some e')
    have run: "fst (waitForClusterHealth probe timeout (now + int took + 2 * second) e' w') = None"
      using Suc.prems(2) p Some
      by (cases "now < timeout") (simp_all add: waitForClusterHealth.simps [of probe timeout now])
    have "timeout - 2 * second * int n \<le> now + int took + 2 * second"
      using Suc.prems(1) by (simp add: algebra_simps)
    from Suc.IH [OF this run] p Some show ?thesis by simp
  qed
qed

text \<open>The health check before a scenario makes at most fifteen probes within its thirty-second
  budget, and reports the cluster healthy only if one of them succeeded; a cluster whose
  first probe succeeds is reported healthy at once.\<close>

theorem waitForClusterHealth_sound:
  "(fst (waitForClusterHealth probe (30 * second) 0 [] w) = None \<longrightarrow> probe_rounds probe 15 w) \<and>
   (probe_rounds probe 1 w \<longrightarrow> fst (waitForClusterHealth probe (30 * second) 0 [] w) = None)"
proof (intro conjI impI)
  assume "fst (waitForClusterHealth probe (30 * second) 0 [] w) = None"
  then show "probe_rounds probe 15 w"
    by (rule waitForClusterHealth_rounds [rotated]) simp
next
  assume "probe_rounds probe 1 w"
  then show "fst (waitForClusterHealth probe (30 * second) 0 [] w) = None"
    by (subst waitForClusterHealth.simps) (auto simp: second_def split: prod.splits option.splits)
qed

theorem waitForClusterHealth_sound_witness:
  "fst (waitForClusterHealth (\<lambda>n. (if n = (3::nat) then None else Some ''refused'', 5, Suc n)) (30 * second) 0 [] 3)
     = None"
  using waitForClusterHealth_sound [of "\<lambda>n. (if n = (3::nat) then None else Some ''refused'', 5, Suc n)" 3]
  by simp

text \<open>What a scenario function promises the suite: it only appends results, and leaves the
  configuration alone.\<close>

definition appends :: "(string \<Rightarrow> runner \<Rightarrow> 'w \<Rightarrow> runner \<times> 'w) \<Rightarrow> bool" where
  "appends run \<longleftrightarrow> (\<forall>s r w. \<exists>rs. results (fst (run s r w)) = results r @ rs \<and>
     (\<forall>q \<in> set rs. rScenario q = s) \<and> rs \<noteq> [])"

lemma run_scenarios_grouped:
  assumes "appends run"
  shows "\<exists>groups. results (fst (run_scenarios run probe sleep cooldown ss r w)) = results r @ concat groups \<and>
     list_all2 (\<lambda>s g. g \<noteq> [] \<and> (\<forall>q \<in> set g. rScenario q = s)) ss groups"
proof (induction ss arbitrary: r w)
  case Nil
  show ?case by (intro exI [of _ "[]"]) simp
next
  case (Cons s ss)
  let ?w1 = "snd (waitForClusterHealth probe (30 * second) 0 [] w)"
  obtain r2 w2 where run: "run s r ?w1 = (r2, w2)" by fastforce
  then obtain g where g: "results r2 = results r @ g" "\<forall>q \<in> set g. rScenario q = s" "g \<noteq> []"
    using assms unfolding appends_def by (metis fst_conv)
  define w3 where "w3 = (if ss \<noteq> [] then sleep cooldown w2 else w2)"
  obtain groups where groups: "results (fst (run_scenarios run probe sleep cooldown ss r2 w3)) = results r2 @ concat groups"
    "list_all2 (\<lambda>s g. g \<noteq> [] \<and> (\<forall>q \<in> set g. rScenario q = s)) ss groups"
    using Cons by blast
  have "run_scenarios run probe sleep cooldown (s # ss) r w = run_scenarios run probe sleep cooldown ss r2 w3"
    using run by (simp add: w3_def Let_def case_prod_beta)
  with g groups show ?case
    by (intro exI [of _ "g # groups"]) simp
qed

text \<open>The stress suite runs the selected scenarios one after the other in the configured order,
  every one of them contributes its results, and the results come grouped in that order.\<close>

theorem RunScenarios_in_order:
  assumes "appends run" and "set (ScenarioIDs c) \<subseteq> set registry"
  shows "\<exists>groups w'. RunScenarios parseDuration registry run probe sleep cl c w = (Inr (concat groups), w') \<and>
     list_all2 (\<lambda>s g. g \<noteq> [] \<and> (\<forall>q \<in> set g. rScenario q = s)) (ScenarioIDs c) groups"
proof -
  have "find (\<lambda>i. i \<notin> set registry) (ScenarioIDs c) = None" using assms(2) by (simp add: find_None_subset)
  then show ?thesis
    using run_scenarios_grouped [OF assms(1), where r = "CreateRunner parseDuration c" and w = w]
    by (simp add: RunScenarios_def Let_def case_prod_beta CreateRunner_def)
qed

definition passing_run :: "string \<Rightarrow> runner \<Rightarrow> unit \<Rightarrow> runner \<times> unit" where
  "passing_run s r w = (RecordResult (new_result s 0) r, w)"

lemma passing_run_appends: "appends passing_run"
  by (simp add: appends_def passing_run_def RecordResult_def new_result_def)

theorem RunScenarios_in_order_witness:
  "\<exists>groups w'. RunScenarios (\<lambda>_. None) [''A'', ''B''] passing_run (\<lambda>w. (None, 0, w)) (\<lambda>_ w. w) idle_client
     ((config_of [] sample_options)\<lparr>ScenarioIDs := [''B'', ''A'']\<rparr>) () = (Inr (concat groups), w') \<and>
   list_all2 (\<lambda>s g. g \<noteq> [] \<and> (\<forall>q \<in> set g. rScenario q = s)) [''B'', ''A''] groups"
  using RunScenarios_in_order [OF passing_run_appends, of "(config_of [] sample_options)\<lparr>ScenarioIDs := [''B'', ''A'']\<rparr>"
      "[''A'', ''B'']" "\<lambda>_. None" "\<lambda>w. (None, 0, w)" "\<lambda>_ w. w" idle_client "()"]
  by simp

text \<open>C20: a stress run that exits with success selected at least one scenario, validated its
  configuration, wrote its results file if one was asked for, and no recorded result is a
  failure.\<close>

theorem Run_success_sound:
  assumes "Run parseDuration ids registry run probe sleep cl write opts w = (None, w')"
  shows "\<exists>c rs w1. ValidateAndSetDefaults ids (config_of registry opts) = (None, c) \<and>
     valid_config ids c \<and> RunScenarios parseDuration registry run probe sleep cl c w = (Inr rs, w1) \<and>
     \<not> Failed rs \<and> (oResultsFile opts \<noteq> [] \<longrightarrow> write (oResultsFile opts) rs w1 = (None, w'))"
proof -
  obtain c where v: "ValidateAndSetDefaults ids (config_of registry opts) = (None, c)"
    using assms by (auto simp: Run_def split: prod.splits option.splits)
  obtain rs w1 where r: "RunScenarios parseDuration registry run probe sleep cl c w = (Inr rs, w1)"
    using assms v by (auto simp: Run_def split: prod.splits sum.splits)
  have ok: "\<not> snd (countResults rs) > 0"
    using assms v r by (auto simp: Run_def split: prod.splits option.splits if_splits)
  have written: "oResultsFile opts \<noteq> [] \<longrightarrow> write (oResultsFile opts) rs w1 = (None, w')"
    using assms v r by (auto simp: Run_def split: prod.splits option.splits if_splits)
  have "\<not> Failed rs"
    using ok stress.failure_iff [of rs] by (induction rs) (auto simp: stress.failure_iff)
  with v r written ValidateAndSetDefaults_valid [OF v] show ?thesis by blast
qed



theorem Run_success_sound_witness:
  "\<exists>c rs. ValidateAndSetDefaults [''BURST_WRITES''] (config_of [''BURST_WRITES''] sample_options) = (None, c) \<and>
     valid_config [''BURST_WRITES''] c \<and>
     RunScenarios (\<lambda>_. None) [''BURST_WRITES''] passing_run (\<lambda>w. (None, 0, w)) (\<lambda>_ w. w) idle_client c () = (Inr rs, ()) \<and>
     \<not> Failed rs"
proof -
  let ?ids = "[''BURST_WRITES'']"
  let ?run = "RunScenarios (\<lambda>_. None) ?ids passing_run (\<lambda>w. (None, 0, w)) (\<lambda>_ w. w) idle_client"
  obtain c where c: "ValidateAndSetDefaults ?ids (config_of ?ids sample_options) = (None, c)"
      "ScenarioIDs c = ?ids"
    using sample_config [of ?ids]
    by (simp add: ValidateAndSetDefaults_def DefaultTestKeyPrefix_def)
      (simp add: config_of_def sample_options_def Let_def)
  obtain rs where rs: "?run c () = (Inr rs, ())" "\<forall>q \<in> set rs. rSuccess q"
    using c(2) by (simp add: RunScenarios_def Let_def case_prod_beta CreateRunner_def
        passing_run_def RecordResult_def new_result_def)
  have "snd (countResults rs) = 0"
    using rs(2) stress.no_failure_iff [of rs] by auto
  then have "Run (\<lambda>_. None) ?ids ?ids passing_run (\<lambda>w. (None, 0, w)) (\<lambda>_ w. w) idle_client
      (\<lambda>_ _ w. (None, w)) sample_options () = (None, ())"
    using c rs by (simp add: Run_def case_prod_beta Let_def sample_options_def)
  from Run_success_sound [OF this] show ?thesis by simp
qed

end
