(* ===== verification/K8sMixed.thy ===== *)
theory K8sMixed
  imports StressSuite "HOL-Library.Multiset"
begin

text \<open>
  \<^verbatim>\<open>src/internal/etcd/stress/scenarios/scenario_k8s_mixed_size_maintenance.go\<close>: the open-loop
  Kubernetes-shaped scenario with compactions and defragmentations. The random payload, the
  etcd client, the clock and the interleaving of the goroutines are arguments: the client and
  the clock as functions of the world \<open>'w\<close>, the maintenance ticker as the list of what happens
  between two ticks, the arrivals and completions of requests as a list of events.
\<close>

section \<open>Object classes\<close>

record k8sObjectClass =
  ocName :: string
  ocResource :: string
  ocObjects :: int
  ocBytes :: int
  ocShare :: real
  ocTtl :: bool

definition k8sMixedClasses :: "k8sObjectClass list" where
  "k8sMixedClasses =
    [\<lparr>ocName = ''lease'', ocResource = ''leases/kube-node-lease'', ocObjects = 500, ocBytes = 400, ocShare = 0.40, ocTtl = False\<rparr>,
     \<lparr>ocName = ''event'', ocResource = ''events'', ocObjects = 0, ocBytes = 1024, ocShare = 0.25, ocTtl = True\<rparr>,
     \<lparr>ocName = ''pod'', ocResource = ''pods'', ocObjects = 5000, ocBytes = 16 * 1024, ocShare = 0.25, ocTtl = False\<rparr>,
     \<lparr>ocName = ''configmap'', ocResource = ''configmaps'', ocObjects = 1000, ocBytes = 4 * 1024, ocShare = 0.08, ocTtl = False\<rparr>,
     \<lparr>ocName = ''crd'', ocResource = ''apiextensions.k8s.io/customresourcedefinitions'', ocObjects = 200,
       ocBytes = 100 * 1024, ocShare = 0.02, ocTtl = False\<rparr>]"

definition k8sMixedDefaultRate :: int where
  "k8sMixedDefaultRate = 500"

definition k8sMixedMaxInflight :: nat where
  "k8sMixedMaxInflight = 1024"

definition k8sMixedEventTTLSeconds :: int where
  "k8sMixedEventTTLSeconds = 60"

definition k8sMixedMaxP99Ms :: real where
  "k8sMixedMaxP99Ms = 1000"

record k8sClassState = k8sObjectClass +
  csKeys :: nat
  csPayload :: string
  csMetrics :: MetricsCollector
  csOffered :: int
  csMissed :: int

definition k8s_class_state :: "(int \<Rightarrow> string) \<Rightarrow> StressConfig \<Rightarrow> real \<Rightarrow> k8sObjectClass \<Rightarrow> k8sClassState" where
  "k8s_class_state rnd c scale oc =
     (let bytes = (if ocName oc = ''pod'' then valueSize c (ocBytes oc) else ocBytes oc)
      in \<lparr>ocName = ocName oc, ocResource = ocResource oc, ocObjects = ocObjects oc, ocBytes = bytes,
          ocShare = ocShare oc, ocTtl = ocTtl oc,
          csKeys = nat (max 1 (trunc (real_of_int (ocObjects oc) * scale))),
          csPayload = rnd (bytes + 4096), csMetrics = NewMetricsCollector, csOffered = 0, csMissed = 0\<rparr>)"

text \<open>\<open>rnd n\<close> is \<^verbatim>\<open>randutil.StringAlphabetsLowerCase(n)\<close>.\<close>

definition newK8sClassStates :: "(int \<Rightarrow> string) \<Rightarrow> StressConfig \<Rightarrow> k8sClassState list" where
  "newK8sClassStates rnd c =
     (let scale = (if sKeyspaceScale c \<le> 0 then 1 else sKeyspaceScale c)
      in map (k8s_class_state rnd c scale) k8sMixedClasses)"

definition k8s_key :: "string \<Rightarrow> k8sClassState \<Rightarrow> nat \<Rightarrow> string" where
  "k8s_key rootKey c i = rootKey @ ''/'' @ ocResource c @ ''/ns-'' @ pad_nat 2 (i mod 16) @ ''/'' @ ocName c @ ''-'' @
     pad_nat 7 (i mod csKeys c)"

text \<open>\<^verbatim>\<open>c.payload[o : o+c.bytes]\<close>; \<open>None\<close> is the panic of a slice out of range.\<close>

definition k8s_value :: "k8sClassState \<Rightarrow> nat \<Rightarrow> string option" where
  "k8s_value c i = (let o' = i * 61 mod 4096; hi = int o' + ocBytes c in
     if int o' \<le> hi \<and> hi \<le> int (length (csPayload c))
     then Some (take (nat (ocBytes c)) (drop o' (csPayload c))) else None)"

section \<open>The event lease pool\<close>

record ttlLeasePool =
  lpTtl :: int
  lpId :: int
  lpSince :: int
  lpIssued :: "int list"

definition newTTLLeasePool :: "int \<Rightarrow> ttlLeasePool" where
  "newTTLLeasePool ttlSeconds = \<lparr>lpTtl = ttlSeconds, lpId = 0, lpSince = 0, lpIssued = []\<rparr>"

text \<open>\<open>grant ttl w\<close> is the client call, \<open>now w\<close> the clock.\<close>

definition current :: "('w \<Rightarrow> int) \<Rightarrow> (int \<Rightarrow> 'w \<Rightarrow> (string + int) \<times> 'w) \<Rightarrow> ttlLeasePool \<Rightarrow> 'w \<Rightarrow>
  (string + int) \<times> ttlLeasePool \<times> 'w" where
  "current now grant p w =
     (if lpId p \<noteq> 0 \<and> now w - lpSince p < 10 * second then (Inr (lpId p), p, w)
      else case grant (lpTtl p) w of
             (Inl e, w') \<Rightarrow> (Inl e, p, w')
           | (Inr i, w') \<Rightarrow> (Inr i, p\<lparr>lpId := i, lpSince := now w', lpIssued := lpIssued p @ [i]\<rparr>, w'))"

fun revoke_ids :: "(int \<Rightarrow> 'w \<Rightarrow> string option \<times> 'w) \<Rightarrow> int list \<Rightarrow> 'w \<Rightarrow> 'w" where
  "revoke_ids revoke [] w = w"
| "revoke_ids revoke (i # is) w = revoke_ids revoke is (snd (revoke i w))"

definition revokeAll :: "(int \<Rightarrow> 'w \<Rightarrow> string option \<times> 'w) \<Rightarrow> ttlLeasePool \<Rightarrow> 'w \<Rightarrow> 'w" where
  "revokeAll revoke p w = revoke_ids revoke (lpIssued p) w"

section \<open>Maintenance\<close>

record revisionSample =
  rsAt :: int
  rsRev :: int

fun compact_scan :: "revisionSample list \<Rightarrow> int \<Rightarrow> int \<Rightarrow> int" where
  "compact_scan [] cutoff target = target"
| "compact_scan (s # ss) cutoff target =
     compact_scan ss cutoff (if \<not> rsAt s > cutoff \<and> rsRev s > target then rsRev s else target)"

definition compactTarget :: "revisionSample list \<Rightarrow> int \<Rightarrow> int" where
  "compactTarget samples cutoff = compact_scan samples cutoff 0"

text \<open>The client of the maintenance goroutine. \<open>mcStatus ep w\<close> returns the member's identifier and the
  leader it follows.\<close>

record 'w maint_client =
  mcNow :: "'w \<Rightarrow> int"
  mcEndpoints :: "string list"
  mcStatus :: "string \<Rightarrow> 'w \<Rightarrow> (string + nat \<times> nat) \<times> 'w"
  mcCompact :: "int \<Rightarrow> 'w \<Rightarrow> string option \<times> 'w"
  mcDefragment :: "string \<Rightarrow> 'w \<Rightarrow> string option \<times> 'w"

definition maintenanceEvent :: "string \<Rightarrow> string \<Rightarrow> int \<Rightarrow> int \<Rightarrow> int \<Rightarrow> int \<Rightarrow> string option \<Rightarrow> MaintenanceEvent" where
  "maintenanceEvent kind member' n start t0 t1 err =
     \<lparr>meKind = kind, meMember = member', meRevision = n,
      meStartS = real_of_int (t0 - start) / real_of_int second,
      meDurationS = real_of_int (t1 - t0) / real_of_int second,
      meError = (case err of None \<Rightarrow> [] | Some e \<Rightarrow> e)\<rparr>"

fun find_leader :: "'w maint_client \<Rightarrow> string list \<Rightarrow> 'w \<Rightarrow> string \<times> 'w" where
  "find_leader cli [] w = ([], w)"
| "find_leader cli (ep # eps) w =
     (case mcStatus cli ep w of
        (Inr (memberId, leader), w') \<Rightarrow> if memberId = leader then (ep, w') else find_leader cli eps w'
      | (Inl e, w') \<Rightarrow> find_leader cli eps w')"

definition defragOrder :: "'w maint_client \<Rightarrow> 'w \<Rightarrow> string list \<times> 'w" where
  "defragOrder cli w =
     (let eps = mcEndpoints cli; (leader, w') = find_leader cli eps w
      in if leader = [] then (eps, w') else (filter (\<lambda>e. e \<noteq> leader) eps @ [leader], w'))"

fun defrag_members :: "'w maint_client \<Rightarrow> int \<Rightarrow> string list \<Rightarrow> 'w \<Rightarrow> MaintenanceEvent list \<times> 'w" where
  "defrag_members cli start [] w = ([], w)"
| "defrag_members cli start (ep # eps) w =
     (let t1 = mcNow cli w;
          (err, w1) = mcDefragment cli ep w;
          (evs, w2) = defrag_members cli start eps w1
      in (maintenanceEvent ''defrag'' ep 0 start t1 (mcNow cli w1) err # evs, w2))"

text \<open>The body of the loop after a tick: the last successfully compacted revision, and the
  events of this cycle.\<close>

definition maintenance_cycle ::
  "'w maint_client \<Rightarrow> (int \<Rightarrow> 'w \<Rightarrow> int) \<Rightarrow> bool \<Rightarrow> int \<Rightarrow> int \<Rightarrow> int \<Rightarrow> 'w \<Rightarrow> int \<times> MaintenanceEvent list \<times> 'w" where
  "maintenance_cycle cli target defrag interval start compacted w =
     (let n = target (mcNow cli w - interval) w in
      if n \<le> compacted then (compacted, [], w)
      else let t0 = mcNow cli w;
               (err, w1) = mcCompact cli n w;
               compacted' = (if err = None then n else compacted);
               e = maintenanceEvent ''compaction'' [] n start t0 (mcNow cli w1) err
           in if \<not> defrag then (compacted', [e], w1)
              else let (order, w2) = defragOrder cli w1;
                       (evs, w3) = defrag_members cli start order w2
                   in (compacted', e # evs, w3))"

text \<open>\<open>ticks\<close> lists what the rest of the system does before each tick of the ticker; its end is
  the cancellation of the context.\<close>

fun maintenance_loop ::
  "'w maint_client \<Rightarrow> (int \<Rightarrow> 'w \<Rightarrow> int) \<Rightarrow> bool \<Rightarrow> int \<Rightarrow> int \<Rightarrow> ('w \<Rightarrow> 'w) list \<Rightarrow> int \<Rightarrow> 'w \<Rightarrow>
   MaintenanceEvent list \<times> 'w" where
  "maintenance_loop cli target defrag interval start [] compacted w = ([], w)"
| "maintenance_loop cli target defrag interval start (tick # ticks) compacted w =
     (let (compacted', evs, w1) = maintenance_cycle cli target defrag interval start compacted (tick w);
          (evs', w2) = maintenance_loop cli target defrag interval start ticks compacted' w1
      in (evs @ evs', w2))"

definition runK8sMaintenance ::
  "'w maint_client \<Rightarrow> StressConfig \<Rightarrow> int \<Rightarrow> (int \<Rightarrow> 'w \<Rightarrow> int) \<Rightarrow> ('w \<Rightarrow> 'w) list \<Rightarrow> 'w \<Rightarrow>
   MaintenanceEvent list \<times> 'w" where
  "runK8sMaintenance cli c start target ticks w =
     (if sCompactIntervalSeconds c \<le> 0 then ([], w)
      else maintenance_loop cli target (sDefragAfterCompact c) (seconds64 (sCompactIntervalSeconds c))
             start ticks 0 w)"

section \<open>Preload and writes\<close>

text \<open>One item of the preload: up to five puts, a second of sleep after each failure. The value
  is computed for every attempt; a value out of range would panic (\<open>None\<close>).\<close>

fun preload_put ::
  "(string \<Rightarrow> string \<Rightarrow> 'w \<Rightarrow> string option \<times> 'w) \<Rightarrow> (int \<Rightarrow> 'w \<Rightarrow> 'w) \<Rightarrow> string \<Rightarrow> k8sClassState \<Rightarrow> nat \<Rightarrow>
   nat \<Rightarrow> string option \<Rightarrow> 'w \<Rightarrow> (string option \<times> 'w) option" where
  "preload_put put sleep rootKey c i 0 err w = Some (err, w)"
| "preload_put put sleep rootKey c i (Suc n) err w =
     (case k8s_value c i of None \<Rightarrow> None
      | Some v \<Rightarrow> (case put (k8s_key rootKey c i) v w of
           (None, w1) \<Rightarrow> Some (None, w1)
         | (Some e, w1) \<Rightarrow> preload_put put sleep rootKey c i n (Some e) (sleep second w1)))"

definition preload_items :: "k8sClassState list \<Rightarrow> (k8sClassState \<times> nat) list" where
  "preload_items classes = concat (map (\<lambda>c. if ocTtl c then [] else map (Pair c) [0..<csKeys c]) classes)"

fun preload_run ::
  "(string \<Rightarrow> string \<Rightarrow> 'w \<Rightarrow> string option \<times> 'w) \<Rightarrow> (int \<Rightarrow> 'w \<Rightarrow> 'w) \<Rightarrow> string \<Rightarrow> (k8sClassState \<times> nat) list \<Rightarrow>
   string option \<Rightarrow> 'w \<Rightarrow> (string option \<times> 'w) option" where
  "preload_run put sleep rootKey [] firstErr w = Some (firstErr, w)"
| "preload_run put sleep rootKey ((c, i) # items) firstErr w =
     (case preload_put put sleep rootKey c i 5 None w of None \<Rightarrow> None
      | Some (err, w1) \<Rightarrow>
          preload_run put sleep rootKey items (if firstErr = None then err else firstErr) w1)"

text \<open>\<open>order\<close> is the order in which the 32 workers, which drain one queue, finish the items.\<close>

definition preloadK8sClasses ::
  "(string \<Rightarrow> string \<Rightarrow> 'w \<Rightarrow> string option \<times> 'w) \<Rightarrow> (int \<Rightarrow> 'w \<Rightarrow> 'w) \<Rightarrow>
   ((k8sClassState \<times> nat) list \<Rightarrow> (k8sClassState \<times> nat) list) \<Rightarrow> string \<Rightarrow> k8sClassState list \<Rightarrow> 'w \<Rightarrow>
   (string option \<times> 'w) option" where
  "preloadK8sClasses put sleep order rootKey classes w =
     preload_run put sleep rootKey (order (preload_items classes)) None w"

text \<open>\<open>j\<close> is \<^verbatim>\<open>randutil.Intn(c.keys)\<close>; \<open>put key value lease w\<close> returns the revision of the write.\<close>

definition writeK8sObject ::
  "('w \<Rightarrow> int) \<Rightarrow> (int \<Rightarrow> 'w \<Rightarrow> (string + int) \<times> 'w) \<Rightarrow>
   (string \<Rightarrow> string \<Rightarrow> int option \<Rightarrow> 'w \<Rightarrow> (string + int) \<times> 'w) \<Rightarrow> ttlLeasePool \<Rightarrow> string \<Rightarrow> k8sClassState \<Rightarrow>
   nat \<Rightarrow> nat \<Rightarrow> 'w \<Rightarrow> ((string + int) \<times> ttlLeasePool \<times> 'w) option" where
  "writeK8sObject now grant put leases rootKey c i j w =
     (if ocTtl c
      then case current now grant leases w of
             (Inl e, leases', w1) \<Rightarrow> Some (Inl e, leases', w1)
           | (Inr lease, leases', w1) \<Rightarrow>
             (case k8s_value c i of None \<Rightarrow> None
              | Some v \<Rightarrow>
                (case put (rootKey @ ''/'' @ ocResource c @ ''/ns-'' @ pad_nat 2 (i mod 16) @ ''/event-'' @ pad_nat 9 i)
                        v (Some lease) w1 of (r, w2) \<Rightarrow> Some (r, leases', w2)))
      else case k8s_value c i of None \<Rightarrow> None
           | Some v \<Rightarrow> (case put (k8s_key rootKey c j) v None w of (r, w2) \<Rightarrow> Some (r, leases, w2)))"

section \<open>Open-loop scheduling\<close>

text \<open>The due time of arrival \<open>i\<close> of a class, and the arrivals before the end of the run.\<close>

definition class_interval :: "int \<Rightarrow> real \<Rightarrow> int" where
  "class_interval rate share = trunc (real_of_int second / (real_of_int rate * share))"

text \<open>The arrivals a scheduler makes from the \<open>i\<close>-th on; \<open>None\<close> is the loop that never ends.\<close>

partial_function (option) schedule_from :: "int \<Rightarrow> int \<Rightarrow> nat \<Rightarrow> nat list option" where
  "schedule_from interval duration i =
     (if \<not> int i * interval < duration then Some []
      else Option.bind (schedule_from interval duration (Suc i)) (\<lambda>is. Some (i # is)))"

text \<open>What the goroutines do, in the order in which it happens: a scheduler reaches an arrival of
  class \<open>k\<close> (and takes a slot or misses), or the request at position \<open>p\<close> among those in flight
  ends after \<open>ms\<close> milliseconds with an error or a revision at time \<open>at\<close>; \<open>ja\<close> and \<open>jb\<close> are the
  reservoir draws of the two collectors.\<close>

datatype k8s_event = Arrival nat | Finished nat real "string + int" int nat nat

record open_loop =
  olClasses :: "k8sClassState list"
  olInflight :: "nat list"
  olMetrics :: MetricsCollector
  olRevs :: "revisionSample list"

definition update_class :: "nat \<Rightarrow> (k8sClassState \<Rightarrow> k8sClassState) \<Rightarrow> open_loop \<Rightarrow> open_loop" where
  "update_class k f s = s\<lparr>olClasses := (olClasses s)[k := f (olClasses s ! k)]\<rparr>"

fun k8s_step :: "k8s_event \<Rightarrow> open_loop \<Rightarrow> open_loop" where
  "k8s_step (Arrival k) s =
     (let s = update_class k (\<lambda>c. c\<lparr>csOffered := csOffered c + 1\<rparr>) s in
      if length (olInflight s) < k8sMixedMaxInflight
      then s\<lparr>olInflight := olInflight s @ [k]\<rparr>
      else update_class k (\<lambda>c. c\<lparr>csMissed := csMissed c + 1\<rparr>) s)"
| "k8s_step (Finished p ms r at' ja jb) s =
     (let k = olInflight s ! p;
          s = s\<lparr>olInflight := take p (olInflight s) @ drop (Suc p) (olInflight s)\<rparr>
      in case r of
           Inl e \<Rightarrow>
             (update_class k (\<lambda>c. c\<lparr>csMetrics := RecordFailure ja ms e (csMetrics c)\<rparr>) s)
               \<lparr>olMetrics := RecordFailure jb ms e (olMetrics s)\<rparr>
         | Inr n \<Rightarrow>
             (update_class k (\<lambda>c. c\<lparr>csMetrics := RecordSuccess ja ms (csMetrics c)\<rparr>) s)
               \<lparr>olMetrics := RecordBytesWritten (ocBytes (olClasses s ! k)) (RecordSuccess jb ms (olMetrics s)),
                olRevs := olRevs s @ [\<lparr>rsAt = at', rsRev = n\<rparr>]\<rparr>)"

fun k8s_event_ok :: "k8s_event \<Rightarrow> open_loop \<Rightarrow> bool" where
  "k8s_event_ok (Arrival k) s \<longleftrightarrow> k < length (olClasses s)"
| "k8s_event_ok (Finished p ms r at' ja jb) s \<longleftrightarrow> p < length (olInflight s)"

inductive k8s_run :: "open_loop \<Rightarrow> open_loop \<Rightarrow> bool" for s0 where
  start: "k8s_run s0 s0"
| step: "k8s_run s0 s \<Longrightarrow> k8s_event_ok e s \<Longrightarrow> k8s_run s0 (k8s_step e s)"

definition open_loop_start :: "k8sClassState list \<Rightarrow> MetricsCollector \<Rightarrow> open_loop" where
  "open_loop_start classes m = \<lparr>olClasses = classes, olInflight = [], olMetrics = Reset m, olRevs = []\<rparr>"

section \<open>Verdict\<close>

definition judgeK8sMixed :: "real \<Rightarrow> Result \<Rightarrow> Statistics \<Rightarrow> int \<Rightarrow> int \<Rightarrow> bool \<times> message" where
  "judgeK8sMixed multiplier result stats watchErrs events =
     (let budget = k8sMixedMaxP99Ms * multiplier;
          bad = (if FailureCount stats > 0 then [FailedRequestsC (FailureCount stats)] else []) @
                (if rMissedArrivals result > 0 then [MissedArrivalsC (rMissedArrivals result)] else []) @
                map (\<lambda>m. MaintenanceFailed (meKind m) (meMember m) (meError m))
                  (filter (\<lambda>m. meError m \<noteq> []) (rMaintenance result)) @
                (if watchErrs > 0 then [WatchErrors watchErrs] else []) @
                (if events = 0 then [NoEventsReceived] else []) @
                map (\<lambda>c. ClassP99 (crClass c) (crP99LatencyMs c) budget)
                  (filter (\<lambda>c. crP99LatencyMs c > budget) (rClasses result));
          parts = map (\<lambda>c. (crClass c, crValueBytes c, crP99LatencyMs c)) (rClasses result)
      in (bad = [], Judged bad parts (length (rMaintenance result))))"

definition class_result :: "k8sClassState \<Rightarrow> ClassResult" where
  "class_result c = (let s = GetStatistics (csMetrics c) in
     \<lparr>crClass = ocName c, crValueBytes = ocBytes c, crOffered = csOffered c,
      crSuccessful = SuccessCount s, crFailed = FailureCount s, crMissedArrivals = csMissed c,
      crP50LatencyMs = P50LatencyMs s, crP99LatencyMs = P99LatencyMs s, crMaxLatencyMs = MaxLatencyMs s\<rparr>)"

text \<open>The result from the final state of the run, when every goroutine is done.\<close>

definition k8s_result ::
  "real \<Rightarrow> open_loop \<Rightarrow> MaintenanceEvent list \<Rightarrow> int \<Rightarrow> int \<Rightarrow> Result \<Rightarrow> Result" where
  "k8s_result multiplier s maint watchErrs events result =
     (let result = result\<lparr>rClasses := map class_result (olClasses s),
            rMissedArrivals := sum_list (map csMissed (olClasses s)), rMaintenance := maint\<rparr>;
          (result, stats) = finalizeScenario multiplier result (olMetrics s) [] 1 0;
          (ok, out) = judgeK8sMixed multiplier result stats watchErrs events
      in result\<lparr>rSuccess := ok, rOutput := out\<rparr>)"

section \<open>The scenario\<close>

text \<open>\<open>drive s w\<close> is what the schedulers, requests, watchers and the maintenance goroutine do from
  the state \<open>s\<close> until all of them are done: the final state, the maintenance log, the lease pool,
  the numbers of watch errors and of watch events. \<open>preload\<close> is \<open>preloadK8sClasses\<close> on the fresh
  classes, \<open>revoke\<close> the client call; a panic of the preload is \<open>None\<close>.\<close>

definition RunK8sMixedSizeMaintenance ::
  "real \<Rightarrow> (int \<Rightarrow> string) \<Rightarrow> ('w \<Rightarrow> int) \<Rightarrow> ('w \<Rightarrow> string option \<times> 'w) \<Rightarrow>
   (k8sClassState list \<Rightarrow> 'w \<Rightarrow> (string option \<times> 'w) option) \<Rightarrow>
   (open_loop \<Rightarrow> 'w \<Rightarrow> open_loop \<times> MaintenanceEvent list \<times> ttlLeasePool \<times> int \<times> int \<times> 'w) \<Rightarrow>
   (int \<Rightarrow> 'w \<Rightarrow> string option \<times> 'w) \<Rightarrow> runner \<Rightarrow> 'w \<Rightarrow> (runner \<times> 'w) option" where
  "RunK8sMixedSizeMaintenance multiplier rnd now newClient preload drive revoke r w =
     (let result = new_result ''K8S_MIXED_SIZE_MAINTENANCE'' (now w);
          finish = (\<lambda>result r w. Some (RecordResult (RecordTimeEnd (now w) result) r, w))
      in case newClient w of
           (Some e, w1) \<Rightarrow>
             finish (result\<lparr>rSuccess := False, rOutput := Msg (''failed to create client: '' @ e)\<rparr>) r w1
         | (None, w1) \<Rightarrow>
             (let r = r\<lparr>metrics := Reset (metrics r)\<rparr>;
                  classes = newK8sClassStates rnd (GetConfig r)
              in case preload classes w1 of
                   None \<Rightarrow> None
                 | Some (Some e, w2) \<Rightarrow>
                     finish (result\<lparr>rSuccess := False, rOutput := Msg (''preload failed: '' @ e)\<rparr>) r w2
                 | Some (None, w2) \<Rightarrow>
                     (let (s, maint, leases, watchErrs, events, w3) =
                            drive (open_loop_start classes (metrics r)) w2;
                          w4 = revokeAll revoke leases w3
                      in finish (k8s_result multiplier s maint watchErrs events result)
                           (r\<lparr>metrics := olMetrics s\<rparr>) w4)))"

section \<open>The compaction target\<close>

lemma Max_insert_max:
  "finite A \<Longrightarrow> Max (insert (max a b) A) = Max (insert b (insert a A))" for a :: int
  by (cases "A = {}") (simp_all add: ac_simps)

lemma compact_scan_Max:
  "compact_scan ss cutoff t = Max (insert t (rsRev ` {s \<in> set ss. rsAt s \<le> cutoff}))"
proof (induction ss arbitrary: t)
  case Nil
  show ?case by simp
next
  case (Cons s ss)
  let ?A = "rsRev ` {s \<in> set ss. rsAt s \<le> cutoff}"
  show ?case
  proof (cases "rsAt s \<le> cutoff")
    case True
    have "{q \<in> set (s # ss). rsAt q \<le> cutoff} = insert s {q \<in> set ss. rsAt q \<le> cutoff}" using True by auto
    moreover have "Max (insert (max (rsRev s) t) ?A) = Max (insert t (insert (rsRev s) ?A))"
      by (rule Max_insert_max) simp
    moreover have "(if \<not> cutoff < rsAt s \<and> t < rsRev s then rsRev s else t) = max (rsRev s) t"
      using True by auto
    ultimately show ?thesis using Cons [of "max (rsRev s) t"] by simp
  next
    case False
    then have "{q \<in> set (s # ss). rsAt q \<le> cutoff} = {q \<in> set ss. rsAt q \<le> cutoff}" by auto
    with False show ?thesis using Cons [of t] by simp
  qed
qed

text \<open>The compaction target is the highest revision acknowledged at or before the cutoff, and
  zero when there is none: never a revision newer than the cutoff.\<close>

theorem compactTarget_highest:
  "compactTarget samples cutoff = Max (insert 0 (rsRev ` {s \<in> set samples. rsAt s \<le> cutoff}))"
  by (simp add: compactTarget_def compact_scan_Max)

lemma compactTarget_sample:
  assumes "0 < compactTarget samples cutoff"
  shows "\<exists>s \<in> set samples. rsAt s \<le> cutoff \<and> rsRev s = compactTarget samples cutoff"
proof -
  have "compactTarget samples cutoff \<in> insert 0 (rsRev ` {s \<in> set samples. rsAt s \<le> cutoff})"
    unfolding compactTarget_def compact_scan_Max by (rule Max_in) simp_all
  with assms show ?thesis by auto
qed

section \<open>Defragmentation order\<close>

lemma find_leader_cases:
  "fst (find_leader cli eps w) = [] \<or>
   (fst (find_leader cli eps w) \<in> set eps \<and>
    (\<exists>w' m. fst (mcStatus cli (fst (find_leader cli eps w)) w') = Inr (m, m)))"
proof (induction eps arbitrary: w)
  case Nil
  then show ?case by simp
next
  case (Cons ep eps)
  obtain r w1 where st: "mcStatus cli ep w = (r, w1)" by fastforce
  show ?case
  proof (cases r)
    case (Inl e)
    with st Cons [of w1] show ?thesis by auto
  next
    case (Inr b)
    then obtain m l where b: "r = Inr (m, l)" by (cases b) auto
    show ?thesis
    proof (cases "m = l")
      case True
      with st b have "find_leader cli (ep # eps) w = (ep, w1)" by simp
      moreover have "fst (mcStatus cli ep w) = Inr (m, m)" using st b True by simp
      ultimately show ?thesis by auto
    next
      case False
      with st b Cons [of w1] show ?thesis by auto
    qed
  qed
qed

text \<open>A round of defragmentations visits every member exactly once; when some member reports
  itself as the leader, the first such member comes last and the others keep their order.\<close>

theorem defragOrder_leader_last:
  assumes "distinct (mcEndpoints cli)"
  shows "mset (fst (defragOrder cli w)) = mset (mcEndpoints cli) \<and>
     (fst (find_leader cli (mcEndpoints cli) w) \<noteq> [] \<longrightarrow>
        last (fst (defragOrder cli w)) = fst (find_leader cli (mcEndpoints cli) w) \<and>
        (\<exists>w' m. fst (mcStatus cli (last (fst (defragOrder cli w))) w') = Inr (m, m)) \<and>
        butlast (fst (defragOrder cli w)) = remove1 (last (fst (defragOrder cli w))) (mcEndpoints cli))"
proof -
  let ?eps = "mcEndpoints cli" and ?l = "fst (find_leader cli (mcEndpoints cli) w)"
  have order: "fst (defragOrder cli w) = (if ?l = [] then ?eps else filter (\<lambda>e. e \<noteq> ?l) ?eps @ [?l])"
    by (simp add: defragOrder_def Let_def case_prod_beta)
  have remove: "filter (\<lambda>e. e \<noteq> ?l) ?eps = remove1 ?l ?eps"
    using assms by (simp add: distinct_remove1_removeAll removeAll_filter_not_eq eq_commute)
  show ?thesis
  proof (cases "?l = []")
    case True
    with order show ?thesis by simp
  next
    case False
    with find_leader_cases [of cli ?eps w] have "?l \<in> set ?eps" "\<exists>w' m. fst (mcStatus cli ?l w') = Inr (m, m)"
      by auto
    moreover from this have "mset (remove1 ?l ?eps @ [?l]) = mset ?eps" by simp
    ultimately show ?thesis using False order remove by simp
  qed
qed

definition three_members :: "unit maint_client" where
  "three_members = \<lparr>mcNow = \<lambda>_. 0, mcEndpoints = [''a'', ''b'', ''c''],
     mcStatus = \<lambda>ep w. (Inr (if ep = ''b'' then 7 else 1, 7), w),
     mcCompact = \<lambda>_ w. (None, w), mcDefragment = \<lambda>_ w. (None, w)\<rparr>"

theorem defragOrder_leader_last_witness:
  "mset (fst (defragOrder three_members ())) = {#''a'', ''b'', ''c''#} \<and>
   last (fst (defragOrder three_members ())) = ''b'' \<and> butlast (fst (defragOrder three_members ())) = [''a'', ''c'']"
  using defragOrder_leader_last [of three_members "()"] by (simp add: three_members_def)

section \<open>The maintenance log\<close>

abbreviation compacted_ok :: "MaintenanceEvent \<Rightarrow> bool" where
  "compacted_ok e \<equiv> meKind e = ''compaction'' \<and> meError e = []"

lemma defrag_members_log:
  "map meMember (fst (defrag_members cli start eps w)) = eps \<and>
   (\<forall>e \<in> set (fst (defrag_members cli start eps w)). meKind e = ''defrag'')"
  by (induction eps arbitrary: w) (auto simp: Let_def case_prod_beta maintenanceEvent_def)

text \<open>A compaction event of a cycle that ran in world \<open>w\<close>.\<close>

definition logged_compaction ::
  "'w maint_client \<Rightarrow> (int \<Rightarrow> 'w \<Rightarrow> int) \<Rightarrow> int \<Rightarrow> int \<Rightarrow> 'w \<Rightarrow> MaintenanceEvent \<Rightarrow> bool" where
  "logged_compaction cli target interval start w e \<longleftrightarrow>
     meKind e = ''compaction'' \<and> meRevision e = target (mcNow cli w - interval) w \<and>
     meStartS e = real_of_int (mcNow cli w - start) / real_of_int second"

lemma maintenance_cycle_log:
  assumes "maintenance_cycle cli target defrag interval start compacted w = (compacted', evs, w')"
    and "\<And>n w. fst (mcCompact cli n w) \<noteq> Some []"
  shows "evs = [] \<and> compacted' = compacted \<or>
     (\<exists>e ds. evs = e # ds \<and> logged_compaction cli target interval start w e \<and> compacted < meRevision e \<and>
        compacted' = (if meError e = [] then meRevision e else compacted) \<and>
        (\<forall>d \<in> set ds. meKind d = ''defrag'') \<and> (\<not> defrag \<longrightarrow> ds = []))"
proof (cases "target (mcNow cli w - interval) w \<le> compacted")
  case True
  with assms(1) show ?thesis by (simp add: maintenance_cycle_def)
next
  case False
  let ?n = "target (mcNow cli w - interval) w"
  obtain err w1 where c: "mcCompact cli ?n w = (err, w1)" by fastforce
  let ?e = "maintenanceEvent ''compaction'' [] ?n start (mcNow cli w) (mcNow cli w1) err"
  have err: "meError ?e = [] \<longleftrightarrow> err = None"
    using assms(2) [of ?n w] c by (cases err) (auto simp: maintenanceEvent_def)
  have e: "logged_compaction cli target interval start w ?e" "compacted < meRevision ?e" "meRevision ?e = ?n"
    using False by (simp_all add: logged_compaction_def maintenanceEvent_def)
  have "evs = ?e # (if defrag then fst (defrag_members cli start (fst (defragOrder cli w1)) (snd (defragOrder cli w1))) else [])
      \<and> compacted' = (if err = None then ?n else compacted)"
    using assms(1) False c
    by (auto simp: maintenance_cycle_def Let_def case_prod_beta split: if_splits)
  then obtain ds where ds: "evs = ?e # ds" "compacted' = (if err = None then ?n else compacted)"
    "\<forall>d \<in> set ds. meKind d = ''defrag''" "\<not> defrag \<longrightarrow> ds = []"
    using defrag_members_log [of cli start "fst (defragOrder cli w1)" "snd (defragOrder cli w1)"]
    by (cases defrag) auto
  with e err show ?thesis by (intro disjI2 exI [of _ ?e] exI [of _ ds]) auto
qed

lemma maintenance_loop_log:
  fixes cli :: "'w maint_client" and target :: "int \<Rightarrow> 'w \<Rightarrow> int" and defrag :: bool
    and interval start :: int
  assumes "\<And>n w. fst (mcCompact cli n w) \<noteq> Some []"
  defines "evlog \<equiv> \<lambda>ticks compacted w. fst (maintenance_loop cli target defrag interval start ticks compacted w)"
  shows "sorted_wrt (<) (compacted # map meRevision (filter compacted_ok (evlog ticks compacted w))) \<and>
     (\<forall>e \<in> set (evlog ticks compacted w).
        (\<exists>w'. logged_compaction cli target interval start w' e \<and> compacted < meRevision e) \<or>
        meKind e = ''defrag'' \<and> defrag)"
proof (induction ticks arbitrary: compacted w)
  case Nil
  show ?case by (simp add: evlog_def)
next
  case (Cons tick ticks)
  obtain c' evs w1 where cy: "maintenance_cycle cli target defrag interval start compacted (tick w) = (c', evs, w1)"
    by (metis prod_cases3)
  have l: "evlog (tick # ticks) compacted w = evs @ evlog ticks c' w1"
    by (simp add: evlog_def cy case_prod_beta)
  note IH = Cons [of c' w1]
  from maintenance_cycle_log [OF cy assms(1)] show ?case
  proof
    assume "evs = [] \<and> c' = compacted"
    with IH l show ?thesis by simp
  next
    assume "\<exists>e ds. evs = e # ds \<and> logged_compaction cli target interval start (tick w) e \<and> compacted < meRevision e \<and>
        c' = (if meError e = [] then meRevision e else compacted) \<and>
        (\<forall>d \<in> set ds. meKind d = ''defrag'') \<and> (\<not> defrag \<longrightarrow> ds = [])"
    then obtain e ds where e: "evs = e # ds" "logged_compaction cli target interval start (tick w) e"
        "compacted < meRevision e" "c' = (if meError e = [] then meRevision e else compacted)"
        "\<forall>d \<in> set ds. meKind d = ''defrag''" "\<not> defrag \<longrightarrow> ds = []" by blast
    have kind: "meKind e = ''compaction''" using e(2) by (simp add: logged_compaction_def)
    have ds: "filter compacted_ok ds = []" using e(5) by (auto simp: filter_empty_conv)
    have le: "compacted \<le> c'" using e(3,4) by simp
    show ?thesis
      unfolding l e(1) using IH e kind ds le by (fastforce split: if_splits)
  qed
qed

text \<open>C21: a run's maintenance log holds compactions and, only when asked for, defragmentations;
  every compaction goes to the revision of a write that had been acknowledged at least one
  interval before the compaction began, and the successful compactions only move forward.\<close>

theorem runK8sMaintenance_log:
  fixes samples :: "'w \<Rightarrow> revisionSample list"
  assumes "\<And>n w. fst (mcCompact cli n w) \<noteq> Some []"
    and "evs = fst (runK8sMaintenance cli c start (\<lambda>cutoff w. compactTarget (samples w) cutoff) ticks w)"
  shows "sorted_wrt (<) (map meRevision (filter compacted_ok evs)) \<and>
     (\<forall>e \<in> set evs. (meKind e = ''defrag'' \<and> sDefragAfterCompact c) \<or>
       (meKind e = ''compaction'' \<and> (\<exists>w' s. s \<in> set (samples w') \<and> meRevision e = rsRev s \<and>
          rsAt s \<le> mcNow cli w' - seconds64 (sCompactIntervalSeconds c) \<and>
          meStartS e = real_of_int (mcNow cli w' - start) / real_of_int second)))"
proof (cases "sCompactIntervalSeconds c \<le> 0")
  case True
  with assms(2) show ?thesis by (simp add: runK8sMaintenance_def)
next
  case False
  let ?target = "\<lambda>cutoff w. compactTarget (samples w) cutoff" and ?i = "seconds64 (sCompactIntervalSeconds c)"
  have evs: "evs = fst (maintenance_loop cli ?target (sDefragAfterCompact c) ?i start ticks 0 w)"
    using assms(2) False by (simp add: runK8sMaintenance_def)
  note log = maintenance_loop_log [OF assms(1), of 0 ?target "sDefragAfterCompact c" ?i start ticks w, folded evs]
  have "\<exists>w' s. s \<in> set (samples w') \<and> meRevision e = rsRev s \<and> rsAt s \<le> mcNow cli w' - ?i \<and>
          meStartS e = real_of_int (mcNow cli w' - start) / real_of_int second"
    if "logged_compaction cli ?target ?i start w' e" "0 < meRevision e" for w' e
    using that compactTarget_sample [of "samples w'" "mcNow cli w' - ?i"]
    unfolding logged_compaction_def by metis
  moreover have "meKind e = ''compaction''" if "logged_compaction cli ?target ?i start w' e" for w' e
    using that by (simp add: logged_compaction_def)
  ultimately show ?thesis using log by simp blast
qed

text \<open>A single member whose world is the clock; writes were acknowledged at 0 s and at 8 s.\<close>

definition clock_client :: "int maint_client" where
  "clock_client = \<lparr>mcNow = \<lambda>w. w, mcEndpoints = [''a''], mcStatus = \<lambda>_ w. (Inr (1, 1), w),
     mcCompact = \<lambda>_ w. (None, w + second), mcDefragment = \<lambda>_ w. (None, w + second)\<rparr>"

definition sample_stress_config :: StressConfig where
  "sample_stress_config = \<lparr>sDurationSeconds = 30, sConcurrentWorkers = 1, sRequestsPerSecond = 10,
     sKeySizeBytes = 0, sValueSizeBytes = 0, sCompactIntervalSeconds = 5,
     sDefragAfterCompact = False, sKeyspaceScale = 0\<rparr>"

definition two_samples :: "int \<Rightarrow> revisionSample list" where
  "two_samples _ = [\<lparr>rsAt = 0, rsRev = 5\<rparr>, \<lparr>rsAt = 8 * second, rsRev = 9\<rparr>]"

theorem runK8sMaintenance_log_witness:
  "\<exists>evs. evs = fst (runK8sMaintenance clock_client sample_stress_config 0
        (\<lambda>cutoff w. compactTarget (two_samples w) cutoff) [\<lambda>w. w + 10 * second, \<lambda>w. w + 10 * second] 0) \<and>
     map meRevision evs = [5, 9] \<and> sorted_wrt (<) (map meRevision (filter compacted_ok evs)) \<and>
     (\<forall>e \<in> set evs. meKind e = ''compaction'')"
proof -
  let ?evs = "fst (runK8sMaintenance clock_client sample_stress_config 0
        (\<lambda>cutoff w. compactTarget (two_samples w) cutoff) [\<lambda>w. w + 10 * second, \<lambda>w. w + 10 * second] 0)"
  have "seconds64 5 = 5 * second" by (rule seconds64_exact) simp_all
  then have revs: "map meRevision ?evs = [5, 9]"
    by (simp add: runK8sMaintenance_def sample_stress_config_def maintenance_cycle_def clock_client_def
        two_samples_def compactTarget_def maintenanceEvent_def second_def)
  have "\<And>n w. fst (mcCompact clock_client n w) \<noteq> Some []" by (simp add: clock_client_def)
  from runK8sMaintenance_log [OF this refl] have
    "sorted_wrt (<) (map meRevision (filter compacted_ok ?evs)) \<and>
     (\<forall>e \<in> set ?evs. meKind e = ''compaction'' \<or> sDefragAfterCompact sample_stress_config)" by blast
  with revs show ?thesis by (auto simp: sample_stress_config_def)
qed

section \<open>Leases are not leaked\<close>

text \<open>Calls of \<open>current\<close>, each after something else has happened in the world.\<close>

fun lease_calls ::
  "('w \<Rightarrow> int) \<Rightarrow> (int \<Rightarrow> 'w \<Rightarrow> (string + int) \<times> 'w) \<Rightarrow> ('w \<Rightarrow> 'w) list \<Rightarrow> ttlLeasePool \<Rightarrow> 'w \<Rightarrow>
   (string + int) list \<times> ttlLeasePool \<times> 'w" where
  "lease_calls now grant [] p w = ([], p, w)"
| "lease_calls now grant (env # envs) p w =
     (let (r, p1, w1) = current now grant p (env w); (rs, p2, w2) = lease_calls now grant envs p1 w1
      in (r # rs, p2, w2))"

definition lease_server :: "('w \<Rightarrow> int set) \<Rightarrow> (int \<Rightarrow> 'w \<Rightarrow> (string + int) \<times> 'w) \<Rightarrow>
  (int \<Rightarrow> 'w \<Rightarrow> string option \<times> 'w) \<Rightarrow> bool" where
  "lease_server live grant revoke \<longleftrightarrow>
     (\<forall>t w i w'. grant t w = (Inr i, w') \<longrightarrow> i \<noteq> 0 \<and> live w' = insert i (live w)) \<and>
     (\<forall>t w e w'. grant t w = (Inl e, w') \<longrightarrow> live w' = live w) \<and>
     (\<forall>i w. live (snd (revoke i w)) = live w - {i})"

lemma current_pool:
  assumes "lease_server live grant revoke" "current now grant p w = (r, p', w')"
    and "lpId p = 0 \<or> lpId p \<in> set (lpIssued p)"
  shows "live w' \<subseteq> live w \<union> set (lpIssued p')" "set (lpIssued p) \<subseteq> set (lpIssued p')"
    and "lpId p' = 0 \<or> lpId p' \<in> set (lpIssued p')" "r = Inr i \<Longrightarrow> i \<in> set (lpIssued p')"
proof -
  have g: "grant t w = (Inr i, w') \<Longrightarrow> live w' = insert i (live w)"
    "grant t w = (Inl e, w') \<Longrightarrow> live w' = live w" for t i w' e w
    using assms(1) unfolding lease_server_def by blast+
  show "live w' \<subseteq> live w \<union> set (lpIssued p')" "set (lpIssued p) \<subseteq> set (lpIssued p')"
    and "lpId p' = 0 \<or> lpId p' \<in> set (lpIssued p')" "r = Inr i \<Longrightarrow> i \<in> set (lpIssued p')"
    using assms(2,3) g by (auto simp: current_def split: if_splits prod.splits sum.splits)
qed

lemma lease_calls_pool:
  assumes "lease_server live grant revoke" "\<forall>env \<in> set envs. \<forall>w. live (env w) \<subseteq> live w"
    and "lease_calls now grant envs p w = (rs, p', w')"
    and "lpId p = 0 \<or> lpId p \<in> set (lpIssued p)"
  shows "live w' \<subseteq> live w \<union> set (lpIssued p') \<and> set (lpIssued p) \<subseteq> set (lpIssued p') \<and>
    (\<forall>i. Inr i \<in> set rs \<longrightarrow> i \<in> set (lpIssued p'))"
  using assms(2-4)
proof (induction envs arbitrary: p w rs)
  case Nil
  then show ?case by auto
next
  case (Cons env envs)
  obtain r p1 w1 where c: "current now grant p (env w) = (r, p1, w1)" by (metis prod_cases3)
  obtain rs' p2 w2 where l: "lease_calls now grant envs p1 w1 = (rs', p2, w2)" by (metis prod_cases3)
  have eq: "rs = r # rs'" "p' = p2" "w' = w2" using Cons.prems(2) c l by simp_all
  note one = current_pool [OF assms(1) c Cons.prems(3)]
  have "live w2 \<subseteq> live w1 \<union> set (lpIssued p2) \<and> set (lpIssued p1) \<subseteq> set (lpIssued p2) \<and>
    (\<forall>i. Inr i \<in> set rs' \<longrightarrow> i \<in> set (lpIssued p2))"
    using Cons.IH [of p1 w1 rs'] Cons.prems(1) l one(3) eq by simp
  moreover have "live (env w) \<subseteq> live w" using Cons.prems(1) by simp
  ultimately show ?case using one(1,2,4) unfolding eq by auto
qed

lemma revoke_ids_live:
  "lease_server live grant revoke \<Longrightarrow> live (revoke_ids revoke is w) = live w - set is"
  by (induction "is" arbitrary: w) (auto simp: lease_server_def)


text \<open>The world is the clock, the number of grants and the set of live leases.\<close>

definition toy_grant :: "int \<Rightarrow> int \<times> int \<times> int set \<Rightarrow> (string + int) \<times> (int \<times> int \<times> int set)" where
  "toy_grant _ w = (case w of (t, n, l) \<Rightarrow> if 0 \<le> n then (Inr (n + 1), t, n + 1, insert (n + 1) l) else (Inl ''down'', w))"

definition toy_revoke :: "int \<Rightarrow> int \<times> int \<times> int set \<Rightarrow> string option \<times> (int \<times> int \<times> int set)" where
  "toy_revoke i w = (case w of (t, n, l) \<Rightarrow> (None, t, n, l - {i}))"


section \<open>Open-loop accounting\<close>

abbreviation class_done :: "k8sClassState \<Rightarrow> int" where
  "class_done c \<equiv> successCount (csMetrics c) + failureCount (csMetrics c)"

definition k8s_account :: "open_loop \<Rightarrow> bool" where
  "k8s_account s \<longleftrightarrow>
     set (olInflight s) \<subseteq> {..<length (olClasses s)} \<and> length (olInflight s) \<le> k8sMixedMaxInflight \<and>
     (\<forall>k < length (olClasses s). let c = olClasses s ! k in
        csOffered c = csMissed c + class_done c + int (count_list (olInflight s) k) \<and>
        0 \<le> csMissed c \<and> metrics_inv (csMetrics c)) \<and>
     successCount (olMetrics s) = sum_list (map (\<lambda>c. successCount (csMetrics c)) (olClasses s)) \<and>
     failureCount (olMetrics s) = sum_list (map (\<lambda>c. failureCount (csMetrics c)) (olClasses s))"

lemma sum_list_map_update:
  "k < length xs \<Longrightarrow> sum_list (map f (xs[k := y])) = sum_list (map f xs) - f (xs ! k) + (f y :: int)"
  by (induction xs arbitrary: k) (auto split: nat.splits)

lemma count_list_remove:
  assumes "p < length xs"
  shows "count_list (take p xs @ drop (Suc p) xs) k = count_list xs k - (if xs ! p = k then 1 else 0)"
    and "xs ! p = k \<Longrightarrow> 0 < count_list xs k"
    and "set (take p xs @ drop (Suc p) xs) \<subseteq> set xs"
proof -
  have xs: "xs = take p xs @ xs ! p # drop (Suc p) xs" using assms by (rule id_take_nth_drop)
  have count: "count_list xs k = count_list (take p xs) k + (if xs ! p = k then 1 else 0) + count_list (drop (Suc p) xs) k"
    by (subst xs) simp
  then show "count_list (take p xs @ drop (Suc p) xs) k = count_list xs k - (if xs ! p = k then 1 else 0)"
    and "xs ! p = k \<Longrightarrow> 0 < count_list xs k" by simp_all
  show "set (take p xs @ drop (Suc p) xs) \<subseteq> set xs" by (auto dest: in_set_takeD in_set_dropD)
qed

lemma k8s_account_arrival:
  assumes "k8s_account s" "k < length (olClasses s)"
  shows "k8s_account (k8s_step (Arrival k) s)"
  using assms unfolding k8s_account_def
  by (auto simp: Let_def update_class_def nth_list_update sum_list_map_update)

text \<open>The two endings of a request change only one class and the totals.\<close>

lemma k8s_account_finished:
  assumes "k8s_account s" "p < length (olInflight s)"
  shows "k8s_account (k8s_step (Finished p ms r at' ja jb) s)"
proof -
  let ?k = "olInflight s ! p" and ?rest = "take p (olInflight s) @ drop (Suc p) (olInflight s)"
  have k: "?k < length (olClasses s)"
    using nth_mem [OF assms(2)] assms(1) unfolding k8s_account_def by blast
  note count = count_list_remove [OF assms(2)]
  have rest: "set ?rest \<subseteq> {..<length (olClasses s)}" "length ?rest \<le> k8sMixedMaxInflight"
    using count(3) assms by (auto simp: k8s_account_def)
  have per_class: "int (count_list (olInflight s) j) = int (count_list ?rest j) + (if ?k = j then 1 else 0)" for j
    using count(1,2) [of j] by auto
  show ?thesis
  proof (cases r)
    case (Inl e)
    then show ?thesis
      using assms(1) k rest per_class unfolding k8s_account_def
      by (simp add: update_class_def nth_list_update sum_list_map_update RecordFailure_inv Let_def del: append_take_drop_id count_list_append)
  next
    case (Inr n)
    then show ?thesis
      using assms(1) k rest per_class unfolding k8s_account_def
      by (simp add: update_class_def nth_list_update sum_list_map_update RecordSuccess_inv Let_def del: append_take_drop_id count_list_append)
  qed
qed

lemma k8s_account_run: "k8s_run s0 s \<Longrightarrow> k8s_account s0 \<Longrightarrow> k8s_account s"
proof (induction rule: k8s_run.induct)
  case (step s e)
  then show ?case by (cases e) (simp_all del: k8s_step.simps add: k8s_account_arrival k8s_account_finished)
qed

lemma k8s_account_start: "k8s_account (open_loop_start (newK8sClassStates rnd c) m)"
  by (simp add: k8s_account_def open_loop_start_def newK8sClassStates_def k8sMixedClasses_def
      k8s_class_state_def Let_def nth_Cons' NewMetricsCollector_inv)
    (simp add: NewMetricsCollector_def Reset_def)

lemma finalizeScenario_keeps:
  "rClasses (fst (finalizeScenario multiplier r m errs x y)) = rClasses r"
  "rMissedArrivals (fst (finalizeScenario multiplier r m errs x y)) = rMissedArrivals r"
  "rMaintenance (fst (finalizeScenario multiplier r m errs x y)) = rMaintenance r"
  "snd (finalizeScenario multiplier r m errs x y) = GetStatistics m"
  by (simp_all add: finalizeScenario_def copyStatistics_def Let_def)

lemma GetStatistics_failures [simp]: "FailureCount (GetStatistics m) = failureCount m"
  by (simp add: GetStatistics_def Let_def)

lemma judgeK8sMixed_ok:
  "fst (judgeK8sMixed multiplier r stats watchErrs events) \<longleftrightarrow>
     \<not> FailureCount stats > 0 \<and> \<not> rMissedArrivals r > 0 \<and> (\<forall>e \<in> set (rMaintenance r). meError e = []) \<and>
     \<not> watchErrs > 0 \<and> events \<noteq> 0 \<and> (\<forall>q \<in> set (rClasses r). \<not> crP99LatencyMs q > k8sMixedMaxP99Ms * multiplier)"
  by (auto simp: judgeK8sMixed_def Let_def filter_empty_conv)

lemma k8s_result_classes:
  "rClasses (k8s_result multiplier s maint watchErrs events r) = map class_result (olClasses s)"
  "rMissedArrivals (k8s_result multiplier s maint watchErrs events r) = sum_list (map csMissed (olClasses s))"
  "rTotalRequests (k8s_result multiplier s maint watchErrs events r) =
     successCount (olMetrics s) + failureCount (olMetrics s)"
  by (simp_all add: k8s_result_def finalizeScenario_def copyStatistics_def GetStatistics_def Let_def
      case_prod_beta)

lemma class_result_simps [simp]:
  "crOffered (class_result c) = csOffered c" "crMissedArrivals (class_result c) = csMissed c"
  "crSuccessful (class_result c) = successCount (csMetrics c)"
  "crFailed (class_result c) = failureCount (csMetrics c)" "crClass (class_result c) = ocName c"
  by (simp_all add: class_result_def Let_def GetStatistics_def)

lemma k8s_account_done:
  assumes "k8s_account s" "olInflight s = []" "c \<in> set (olClasses s)"
  shows "csOffered c = csMissed c + class_done c" "0 \<le> csMissed c" "0 \<le> failureCount (csMetrics c)"
  using assms by (auto simp: k8s_account_def in_set_conv_nth Let_def metrics_inv_def)

text \<open>When a run of the mixed-size scenario is over, every arrival of every class has been
  counted exactly once, as a success, a failure or a missed arrival, and the totals of the
  result are the sums over the classes.\<close>

theorem k8s_arrivals_accounted:
  assumes "k8s_run (open_loop_start (newK8sClassStates rnd c) m) s" and "olInflight s = []"
    and "r = k8s_result multiplier s maint watchErrs events r0"
  shows "(\<forall>q \<in> set (rClasses r). crOffered q = crSuccessful q + crFailed q + crMissedArrivals q) \<and>
     rTotalRequests r = sum_list (map (\<lambda>q. crSuccessful q + crFailed q) (rClasses r)) \<and>
     rMissedArrivals r = sum_list (map crMissedArrivals (rClasses r))"
proof -
  have acc: "k8s_account s" using k8s_account_run [OF assms(1) k8s_account_start] .
  show ?thesis
    unfolding assms(3) k8s_result_classes
    using acc k8s_account_done [OF acc assms(2)]
    by (simp add: k8s_account_def sum_list_addf comp_def)
qed

definition sample_state :: open_loop where
  "sample_state = open_loop_start (newK8sClassStates (\<lambda>n. replicate (nat n) CHR ''a'') sample_stress_config) NewMetricsCollector"

lemma length_sample_state [simp]: "length (olClasses sample_state) = 5" "olInflight sample_state = []"
  by (simp_all add: sample_state_def open_loop_start_def newK8sClassStates_def Let_def k8sMixedClasses_def)

lemma sample_run:
  "k8s_run sample_state (k8s_step (Finished 0 3 (Inr 7) 5 0 0) (k8s_step (Arrival 2) sample_state))"
  "olInflight (k8s_step (Finished 0 3 (Inr 7) 5 0 0) (k8s_step (Arrival 2) sample_state)) = []"
proof -
  have "k8s_run sample_state (k8s_step (Arrival 2) sample_state)"
    by (rule k8s_run.step [OF k8s_run.start]) simp
  then show "k8s_run sample_state (k8s_step (Finished 0 3 (Inr 7) 5 0 0) (k8s_step (Arrival 2) sample_state))"
    by (rule k8s_run.step) (simp add: Let_def update_class_def k8sMixedMaxInflight_def)
  show "olInflight (k8s_step (Finished 0 3 (Inr 7) 5 0 0) (k8s_step (Arrival 2) sample_state)) = []"
    by (simp add: Let_def update_class_def k8sMixedMaxInflight_def)
qed

theorem k8s_arrivals_accounted_witness:
  "\<exists>r. r = k8s_result 1 (k8s_step (Finished 0 3 (Inr 7) 5 0 0) (k8s_step (Arrival 2) sample_state)) [] 0 1
        (new_result ''K8S_MIXED_SIZE_MAINTENANCE'' 0) \<and>
     (\<forall>q \<in> set (rClasses r). crOffered q = crSuccessful q + crFailed q + crMissedArrivals q)"
  using k8s_arrivals_accounted [OF sample_run(1) [unfolded sample_state_def] sample_run(2) [unfolded sample_state_def] refl]
  unfolding sample_state_def by blast

lemma sum_list_pos_iff:
  "(\<And>x. x \<in> set xs \<Longrightarrow> 0 \<le> f x) \<Longrightarrow> sum_list (map f xs) > 0 \<longleftrightarrow> (\<exists>x \<in> set xs. f x \<noteq> (0::int))"
proof (induction xs)
  case (Cons x xs)
  have "0 \<le> f x" "0 \<le> sum_list (map f xs)" using Cons.prems by (auto intro!: sum_list_nonneg)
  moreover have "sum_list (map f xs) > 0 \<longleftrightarrow> (\<exists>x \<in> set xs. f x \<noteq> 0)" using Cons by simp
  ultimately have "f x + sum_list (map f xs) > 0 \<longleftrightarrow> f x \<noteq> 0 \<or> sum_list (map f xs) > 0" by arith
  with \<open>sum_list (map f xs) > 0 \<longleftrightarrow> (\<exists>x \<in> set xs. f x \<noteq> 0)\<close> show ?case by simp
qed simp

lemma k8s_success_iff:
  assumes "k8s_run (open_loop_start (newK8sClassStates rnd c) m) s" and "olInflight s = []"
    and "r = k8s_result multiplier s maint watchErrs events r0"
  shows "rSuccess r \<longleftrightarrow>
     (\<forall>q \<in> set (rClasses r). crOffered q = crSuccessful q \<and> crP99LatencyMs q \<le> k8sMixedMaxP99Ms * multiplier) \<and>
     (\<forall>e \<in> set maint. meError e = []) \<and> watchErrs \<le> 0 \<and> events \<noteq> 0"
proof -
  have acc: "k8s_account s" using k8s_account_run [OF assms(1) k8s_account_start] .
  note done' = k8s_account_done [OF acc assms(2)]
  have fails: "failureCount (olMetrics s) > 0 \<longleftrightarrow> (\<exists>q \<in> set (olClasses s). failureCount (csMetrics q) \<noteq> 0)"
    using acc sum_list_pos_iff [OF done'(3)] by (simp add: k8s_account_def)
  have missed: "sum_list (map csMissed (olClasses s)) > 0 \<longleftrightarrow> (\<exists>q \<in> set (olClasses s). csMissed q \<noteq> 0)"
    by (rule sum_list_pos_iff [OF done'(2)])
  have served: "crOffered (class_result q) = crSuccessful (class_result q) \<longleftrightarrow>
      failureCount (csMetrics q) = 0 \<and> csMissed q = 0" if "q \<in> set (olClasses s)" for q
    using done' [OF that] by auto
  have "rSuccess r \<longleftrightarrow> \<not> failureCount (olMetrics s) > 0 \<and> \<not> sum_list (map csMissed (olClasses s)) > 0 \<and>
      (\<forall>e \<in> set maint. meError e = []) \<and> \<not> watchErrs > 0 \<and> events \<noteq> 0 \<and>
      (\<forall>q \<in> set (olClasses s). \<not> crP99LatencyMs (class_result q) > k8sMixedMaxP99Ms * multiplier)"
    unfolding assms(3)
    by (simp add: k8s_result_def Let_def case_prod_beta judgeK8sMixed_ok finalizeScenario_keeps)
  then show ?thesis
    unfolding assms(3) k8s_result_classes using served fails missed by (auto simp: not_less)
qed

lemma RecordTimeEnd_keeps [simp]:
  "rSuccess (RecordTimeEnd t q) = rSuccess q" "rClasses (RecordTimeEnd t q) = rClasses q"
  "rMaintenance (RecordTimeEnd t q) = rMaintenance q" "rScenario (RecordTimeEnd t q) = rScenario q"
  by (simp_all add: RecordTimeEnd_def Let_def)

lemma k8s_result_maintenance:
  "rMaintenance (k8s_result multiplier s maint watchErrs events r) = maint"
  "rScenario (k8s_result multiplier s maint watchErrs events r) = rScenario r"
  by (simp_all add: k8s_result_def finalizeScenario_def copyStatistics_def Let_def case_prod_beta)

text \<open>A run of the mixed-size scenario that does not panic records exactly one result, under its
  own name; a recorded success means that the client was created, the preload reported no
  error, every offered request of every class succeeded within the p99 budget and no
  maintenance operation reported an error.\<close>

theorem RunK8sMixedSizeMaintenance_verdict:
  assumes "\<And>s w s' maint l we ev w'. drive s w = (s', maint, l, we, ev, w') \<Longrightarrow>
      olInflight s = [] \<Longrightarrow> k8s_run s s' \<and> olInflight s' = []"
    and "RunK8sMixedSizeMaintenance multiplier rnd now newClient preload drive revoke r w = Some (r', w')"
  shows "\<exists>q. results r' = results r @ [q] \<and> rScenario q = ''K8S_MIXED_SIZE_MAINTENANCE'' \<and>
     (rSuccess q \<longrightarrow> fst (newClient w) = None \<and>
        (\<exists>w2. preload (newK8sClassStates rnd (GetConfig r)) (snd (newClient w)) = Some (None, w2)) \<and>
        (\<forall>c \<in> set (rClasses q). crOffered c = crSuccessful c \<and> crP99LatencyMs c \<le> k8sMixedMaxP99Ms * multiplier) \<and>
        (\<forall>e \<in> set (rMaintenance q). meError e = []))"
proof -
  obtain e w1 where new: "newClient w = (e, w1)" by fastforce
  let ?r = "r\<lparr>metrics := Reset (metrics r)\<rparr>"
  have cfg: "GetConfig ?r = GetConfig r" by (simp add: GetConfig_def)
  show ?thesis
  proof (cases e)
    case (Some er)
    with assms(2) new show ?thesis
      by (auto simp: RunK8sMixedSizeMaintenance_def Let_def RecordResult_def new_result_def)
  next
    case None
    note new = new [unfolded None]
    obtain pe w2 where pre: "preload (newK8sClassStates rnd (GetConfig r)) w1 = Some (pe, w2)"
      using assms(2) new cfg by (auto simp: RunK8sMixedSizeMaintenance_def Let_def split: option.splits)
    show ?thesis
    proof (cases pe)
      case (Some er)
      with assms(2) new pre cfg show ?thesis
        by (auto simp: RunK8sMixedSizeMaintenance_def Let_def RecordResult_def new_result_def)
    next
      case None
      let ?s0 = "open_loop_start (newK8sClassStates rnd (GetConfig r)) (metrics ?r)"
      obtain s maint l we ev w3 where m: "drive ?s0 w2 = (s, maint, l, we, ev, w3)" by (metis prod_cases6)
      let ?q = "k8s_result multiplier s maint we ev (new_result ''K8S_MIXED_SIZE_MAINTENANCE'' (now w))"
      have "results r' = results r @ [RecordTimeEnd (now (revokeAll revoke l w3)) ?q]"
        using assms(2) new pre cfg m None
        by (auto simp: RunK8sMixedSizeMaintenance_def Let_def RecordResult_def)
      moreover have "k8s_run ?s0 s" "olInflight s = []" using assms(1) [OF m] by (simp_all add: open_loop_start_def)
      note k8s_success_iff [OF this refl,
          of multiplier maint we ev "new_result ''K8S_MIXED_SIZE_MAINTENANCE'' (now w)"]
      ultimately show ?thesis
        using new pre None by (auto simp: k8s_result_maintenance new_result_def)
    qed
  qed
qed

theorem RunK8sMixedSizeMaintenance_verdict_witness:
  "\<exists>r'. RunK8sMixedSizeMaintenance 1 (\<lambda>n. replicate (nat n) CHR ''a'') (\<lambda>_. 0) (\<lambda>w. (None, w)) (\<lambda>_ w. Some (None, w))
       (\<lambda>s w. (s, [], newTTLLeasePool 60, 0, 1, w)) (\<lambda>_ w. (None, w))
       (CreateRunner (\<lambda>_. None) (config_of [] sample_options)) () = Some (r', ()) \<and>
     (\<exists>q. results r' = [q] \<and> rScenario q = ''K8S_MIXED_SIZE_MAINTENANCE'')"
proof -
  let ?run = "RunK8sMixedSizeMaintenance 1 (\<lambda>n. replicate (nat n) CHR ''a'') (\<lambda>_. 0) (\<lambda>w. (None, w)) (\<lambda>_ w. Some (None, w))
       (\<lambda>s w. (s, [], newTTLLeasePool 60, 0, 1, w)) (\<lambda>_ w. (None, w))
       (CreateRunner (\<lambda>_. None) (config_of [] sample_options)) ()"
  obtain r' where run: "?run = Some (r', ())"
    by (simp add: RunK8sMixedSizeMaintenance_def Let_def revokeAll_def newTTLLeasePool_def)
  have "results (CreateRunner (\<lambda>_. None) (config_of [] sample_options)) = []" by (simp add: CreateRunner_def)
  with RunK8sMixedSizeMaintenance_verdict [OF _ run] run show ?thesis
    by (auto simp: k8s_run.start open_loop_start_def)
qed

section \<open>Arrival schedule\<close>

lemma before_end_iff:
  fixes i interval duration :: int
  assumes "0 < interval"
  shows "i * interval < duration \<longleftrightarrow> i < (duration + interval - 1) div interval"
proof -
  let ?x = "duration + interval - 1" and ?q = "(duration + interval - 1) div interval"
  have x: "?x = ?q * interval + ?x mod interval" "0 \<le> ?x mod interval" "?x mod interval < interval"
    using assms by simp_all
  show ?thesis
  proof
    assume "i < ?q"
    then have "(i + 1) * interval \<le> ?q * interval" using assms by (intro mult_right_mono) auto
    then have "i * interval + interval \<le> ?q * interval" by (simp add: algebra_simps)
    with x show "i * interval < duration" by linarith
  next
    assume lt: "i * interval < duration"
    show "i < ?q"
    proof (rule ccontr)
      assume "\<not> i < ?q"
      then have "?q * interval \<le> i * interval" using assms by (intro mult_right_mono) auto
      with x lt show False by linarith
    qed
  qed
qed

lemma schedule_from_upt:
  assumes "0 < interval" and "n = nat ((duration + interval - 1) div interval)" and "i \<le> n"
  shows "schedule_from interval duration i = Some [i..<n]"
  using assms(3)
proof (induction "n - i" arbitrary: i)
  case 0
  then have "\<not> int i * interval < duration" using assms(2) by (simp add: before_end_iff [OF assms(1)])
  with 0 show ?case by (subst schedule_from.simps) simp
next
  case (Suc x)
  then have lt: "i < n" by simp
  then have "int i * interval < duration" using assms(2) by (simp add: before_end_iff [OF assms(1)])
  moreover have "schedule_from interval duration (Suc i) = Some [Suc i..<n]" using Suc lt by simp
  ultimately show ?case using lt by (subst schedule_from.simps) (simp add: upt_conv_Cons)
qed

text \<open>For every rate up to a billion requests per second each class's scheduler ends, after
  making exactly the arrivals whose due time lies before the end of the run.\<close>

theorem class_schedule_terminates:
  assumes "0 < rate" and "rate \<le> 10 ^ 9" and "oc \<in> set k8sMixedClasses"
  shows "\<exists>n. schedule_from (class_interval rate (ocShare oc)) duration 0 = Some [0..<n] \<and>
     {i. int i * class_interval rate (ocShare oc) < duration} = {..<n}"
proof -
  let ?i = "class_interval rate (ocShare oc)"
  have share: "0 < ocShare oc" "ocShare oc \<le> 1" using assms(3) by (auto simp: k8sMixedClasses_def)
  have "real_of_int rate * ocShare oc \<le> real_of_int rate * 1"
    using share assms(1) by (intro mult_left_mono) auto
  also have "\<dots> \<le> real_of_int second"
    using of_int_le_iff [of rate "10 ^ 9", where ?'a = real] assms(2) by (simp add: second_def)
  finally have "1 \<le> real_of_int second / (real_of_int rate * ocShare oc)"
    using share assms(1) by (simp add: le_divide_eq)
  then have pos: "0 < ?i" by (simp add: class_interval_def trunc_def)
  let ?n = "nat ((duration + ?i - 1) div ?i)"
  have "schedule_from ?i duration 0 = Some [0..<?n]"
    by (rule schedule_from_upt [OF pos refl]) simp
  moreover have "{i. int i * ?i < duration} = {..<?n}"
    by (auto simp: before_end_iff [OF pos] zless_nat_eq_int_zless)
  ultimately show ?thesis by blast
qed

theorem class_schedule_terminates_witness:
  "\<exists>n. schedule_from (class_interval 500 (ocShare (k8sMixedClasses ! 2))) (60 * second) 0 = Some [0..<n] \<and>
     {i. int i * class_interval 500 (ocShare (k8sMixedClasses ! 2)) < 60 * second} = {..<n}"
  by (rule class_schedule_terminates) (simp_all add: k8sMixedClasses_def)

section \<open>Keys and values\<close>

lemma digits_val_pad: "digits_val (pad_nat w n) = n"
proof -
  have "foldl (\<lambda>a c. 10 * a + (of_char c - 48)) 0 (replicate k CHR ''0'') = (0::nat)" for k
    by (induction k) simp_all
  then show ?thesis
    using digits_val_show_nat [of n] by (simp add: pad_nat_def Let_def digits_val_def)
qed

lemma length_pad_16: "a < 16 \<Longrightarrow> length (pad_nat 2 a) = 2"
proof -
  have "list_all (\<lambda>a. length (pad_nat 2 a) = 2) [0..<16]" by code_simp
  then show "a < 16 \<Longrightarrow> length (pad_nat 2 a) = 2" by (simp add: list_all_iff)
qed

lemma k8s_key_inj: "inj_on (k8s_key rootKey c) {..<csKeys c}"
proof (rule inj_onI)
  fix i j
  assume ij: "i \<in> {..<csKeys c}" "j \<in> {..<csKeys c}" and eq: "k8s_key rootKey c i = k8s_key rootKey c j"
  have "length (pad_nat 2 (i mod 16)) = length (pad_nat 2 (j mod 16))" by (simp add: length_pad_16)
  with eq have "pad_nat 7 i = pad_nat 7 j" using ij by (simp add: k8s_key_def)
  then show "i = j" by (metis digits_val_pad)
qed

lemma k8s_class_value:
  assumes "\<And>n. 0 \<le> n \<Longrightarrow> length (rnd n) = nat n" and "c \<in> set (newK8sClassStates rnd scfg)"
  shows "0 < csKeys c" and "\<exists>v. k8s_value c i = Some v \<and> int (length v) = ocBytes c"
proof -
  obtain oc scale where c: "c = k8s_class_state rnd scfg scale oc" "oc \<in> set k8sMixedClasses"
    using assms(2) by (auto simp: newK8sClassStates_def Let_def)
  have "0 \<le> ocBytes oc" using c(2) by (auto simp: k8sMixedClasses_def)
  then have bytes: "0 \<le> ocBytes c" by (simp add: c(1) k8s_class_state_def Let_def valueSize_def)
  have payload: "length (csPayload c) = nat (ocBytes c + 4096)"
    using assms(1) [of "ocBytes c + 4096"] bytes by (simp add: c(1) k8s_class_state_def Let_def)
  show "0 < csKeys c" by (simp add: c(1) k8s_class_state_def Let_def)
  have "i * 61 mod 4096 < 4096" by simp
  then show "\<exists>v. k8s_value c i = Some v \<and> int (length v) = ocBytes c"
    using bytes payload by (simp add: k8s_value_def Let_def)
qed

text \<open>The objects of a class have pairwise different keys, so the preload writes the retained
  number of objects, and no write ever slices its payload out of range: every value has the
  size of its class, whatever the request number.\<close>

theorem k8s_keys_and_values:
  assumes "\<And>n. 0 \<le> n \<Longrightarrow> length (rnd n) = nat n" and "c \<in> set (newK8sClassStates rnd scfg)"
  shows "card (k8s_key rootKey c ` {..<csKeys c}) = csKeys c \<and> 0 < csKeys c \<and>
     (\<exists>v. k8s_value c i = Some v \<and> int (length v) = ocBytes c)"
  using k8s_class_value [OF assms] by (simp add: card_image k8s_key_inj)

theorem k8s_keys_and_values_witness:
  "\<exists>c v. c \<in> set (newK8sClassStates (\<lambda>n. replicate (nat n) CHR ''a'') sample_stress_config) \<and>
     k8s_value c 1000000 = Some v \<and> int (length v) = ocBytes c \<and>
     card (k8s_key ''/r'' c ` {..<csKeys c}) = csKeys c"
proof -
  let ?rnd = "\<lambda>n :: int. replicate (nat n) CHR ''a''"
  have c: "hd (newK8sClassStates ?rnd sample_stress_config) \<in> set (newK8sClassStates ?rnd sample_stress_config)"
    by (rule hd_in_set) (simp add: newK8sClassStates_def Let_def k8sMixedClasses_def)
  from k8s_keys_and_values [of ?rnd, OF _ c, of "''/r''" 1000000] c show ?thesis by auto
qed

section \<open>Preload\<close>

text \<open>What an acknowledged put promises, with \<open>stored w\<close> the keys that have been written.\<close>

definition put_stores :: "('w \<Rightarrow> string set) \<Rightarrow> (string \<Rightarrow> string \<Rightarrow> 'w \<Rightarrow> string option \<times> 'w) \<Rightarrow> (int \<Rightarrow> 'w \<Rightarrow> 'w) \<Rightarrow> bool" where
  "put_stores stored put sleep \<longleftrightarrow>
     (\<forall>k v w w'. put k v w = (None, w') \<longrightarrow> k \<in> stored w') \<and>
     (\<forall>k v w. stored w \<subseteq> stored (snd (put k v w))) \<and> (\<forall>d w. stored w \<subseteq> stored (sleep d w))"

lemma preload_put_stores:
  assumes "put_stores stored put sleep" "k8s_value c i = Some v"
  shows "\<exists>e' w'. preload_put put sleep rootKey c i n e w = Some (e', w') \<and> stored w \<subseteq> stored w' \<and>
     (e' = None \<and> (0 < n \<or> e \<noteq> None) \<longrightarrow> k8s_key rootKey c i \<in> stored w')"
proof (induction n arbitrary: e w)
  case 0
  show ?case by auto
next
  case (Suc n)
  obtain r w1 where put: "put (k8s_key rootKey c i) v w = (r, w1)" by fastforce
  have mono: "stored w \<subseteq> stored w1" "\<And>d. stored w1 \<subseteq> stored (sleep d w1)"
    and ok: "r = None \<Longrightarrow> k8s_key rootKey c i \<in> stored w1"
    using assms(1) put unfolding put_stores_def by (metis snd_conv, blast, blast)
  show ?case
  proof (cases r)
    case None
    with put assms(2) mono ok show ?thesis by simp
  next
    case (Some er)
    obtain e' w' where "preload_put put sleep rootKey c i n (Some er) (sleep second w1) = Some (e', w')"
      "stored (sleep second w1) \<subseteq> stored w'" "e' = None \<longrightarrow> k8s_key rootKey c i \<in> stored w'"
      using Suc [of "Some er" "sleep second w1"] by auto
    with put assms(2) Some mono show ?thesis by fastforce
  qed
qed

lemma preload_run_stores:
  assumes "put_stores stored put sleep" "\<forall>(c, i) \<in> set items. k8s_value c i \<noteq> None"
  shows "\<exists>e' w'. preload_run put sleep rootKey items e w = Some (e', w') \<and> stored w \<subseteq> stored w' \<and>
     (e' = None \<longrightarrow> e = None \<and> (\<forall>(c, i) \<in> set items. k8s_key rootKey c i \<in> stored w'))"
  using assms(2)
proof (induction items arbitrary: e w)
  case Nil
  show ?case by simp
next
  case (Cons it items)
  obtain c i where it: "it = (c, i)" by (cases it)
  then obtain v where "k8s_value c i = Some v" using Cons.prems by auto
  then obtain e1 w1 where one: "preload_put put sleep rootKey c i 5 None w = Some (e1, w1)" "stored w \<subseteq> stored w1"
      "e1 = None \<longrightarrow> k8s_key rootKey c i \<in> stored w1"
    using preload_put_stores [OF assms(1), of c i v rootKey 5 None w] by auto
  obtain e' w' where rest: "preload_run put sleep rootKey items (if e = None then e1 else e) w1 = Some (e', w')"
      "stored w1 \<subseteq> stored w'"
      "e' = None \<longrightarrow> (if e = None then e1 else e) = None \<and> (\<forall>(c, i) \<in> set items. k8s_key rootKey c i \<in> stored w')"
    using Cons.IH [of "if e = None then e1 else e" w1] Cons.prems by auto
  from one rest show ?case by (auto simp: it split: if_splits)
qed

text \<open>The preload never panics, and when it reports no error every retained object of every
  class without a TTL has been written, in whatever order the workers take the items.\<close>

theorem preload_complete:
  assumes "put_stores stored put sleep" and "\<And>n. 0 \<le> n \<Longrightarrow> length (rnd n) = nat n"
    and "\<And>items. set (order items) = set items"
  shows "\<exists>err w'. preloadK8sClasses put sleep order rootKey (newK8sClassStates rnd scfg) w = Some (err, w') \<and>
     (err = None \<longrightarrow> (\<forall>c \<in> set (newK8sClassStates rnd scfg). \<not> ocTtl c \<longrightarrow>
        k8s_key rootKey c ` {..<csKeys c} \<subseteq> stored w'))"
proof -
  let ?cs = "newK8sClassStates rnd scfg"
  have val: "k8s_value c i \<noteq> None" if "c \<in> set ?cs" for c i
    using k8s_class_value(2) [of rnd c scfg i, OF assms(2) that] by auto
  have items: "set (order (preload_items ?cs)) = {(c, i). c \<in> set ?cs \<and> \<not> ocTtl c \<and> i < csKeys c}"
    by (auto simp: assms(3) preload_items_def split: if_splits)
  obtain e' w' where "preload_run put sleep rootKey (order (preload_items ?cs)) None w = Some (e', w')"
      "e' = None \<longrightarrow> (\<forall>(c, i) \<in> set (order (preload_items ?cs)). k8s_key rootKey c i \<in> stored w')"
    using preload_run_stores [OF assms(1), of "order (preload_items ?cs)" rootKey None w] val items by auto
  then show ?thesis unfolding preloadK8sClasses_def items by auto
qed

theorem preload_complete_witness:
  "\<exists>err w'. preloadK8sClasses (\<lambda>k v w. (None, insert k w)) (\<lambda>_ w. w) rev ''/r''
       (newK8sClassStates (\<lambda>n. replicate (nat n) CHR ''a'') sample_stress_config) {} = Some (err, w') \<and>
     (err = None \<longrightarrow> (\<forall>c \<in> set (newK8sClassStates (\<lambda>n. replicate (nat n) CHR ''a'') sample_stress_config).
        \<not> ocTtl c \<longrightarrow> k8s_key ''/r'' c ` {..<csKeys c} \<subseteq> w'))"
  using preload_complete [where stored = id and put = "\<lambda>k v w. (None, insert k w)" and sleep = "\<lambda>_ w. w"
      and rnd = "\<lambda>n. replicate (nat n) CHR ''a''" and order = rev and rootKey = "''/r''"
      and scfg = sample_stress_config and w = "{}"]
  by (auto simp: put_stores_def)

end
