(* ===== verification/Paths.thy ===== *)
theory Paths
  imports Prelude
begin

text \<open>
  The parts of Go's \<^verbatim>\<open>path/filepath\<close> the repository calls, for Unix: \<^verbatim>\<open>Clean\<close>, \<^verbatim>\<open>Join\<close>, \<^verbatim>\<open>IsAbs\<close>,
  \<^verbatim>\<open>Dir\<close>, \<^verbatim>\<open>Base\<close> and \<^verbatim>\<open>Rel\<close>. A path is a string; \<^verbatim>\<open>Clean\<close> is computed on its components, and a
  clean path is determined by whether it is rooted and by its components
  (\<open>comps_unparse\<close>).
\<close>

abbreviation slash :: char where
  "slash \<equiv> CHR ''/''"

definition IsAbs :: "string \<Rightarrow> bool" where
  "IsAbs p \<longleftrightarrow> HasPrefix p [slash]"

text \<open>One component of the input against the reversed components of the output.\<close>

definition clean_step :: "bool \<Rightarrow> string \<Rightarrow> string list \<Rightarrow> string list" where
  "clean_step rooted c st =
     (if c = [] \<or> c = ''.'' then st
      else if c = ''..'' then
        (case st of [] \<Rightarrow> if rooted then [] else [''..'']
         | t # ts \<Rightarrow> if t = ''..'' then ''..'' # st else ts)
      else c # st)"

definition clean_comps :: "bool \<Rightarrow> string list \<Rightarrow> string list" where
  "clean_comps rooted cs = rev (fold (clean_step rooted) cs [])"

definition comps :: "string \<Rightarrow> string list" where
  "comps p = clean_comps (IsAbs p) (Split slash p)"

definition unparse :: "bool \<Rightarrow> string list \<Rightarrow> string" where
  "unparse rooted cs = (if rooted then slash # Join [slash] cs
     else if cs = [] then ''.'' else Join [slash] cs)"

definition Clean :: "string \<Rightarrow> string" where
  "Clean p = unparse (IsAbs p) (comps p)"

definition PathJoin :: "string list \<Rightarrow> string" where
  "PathJoin elems = (case dropWhile (\<lambda>e. e = []) elems of [] \<Rightarrow> [] | es \<Rightarrow> Clean (Join [slash] es))"

definition Dir :: "string \<Rightarrow> string" where
  "Dir p = Clean (rev (dropWhile (\<lambda>c. c \<noteq> slash) (rev p)))"

definition Base :: "string \<Rightarrow> string" where
  "Base p = (if p = [] then ''.'' else
     let q = rev (dropWhile (\<lambda>c. c = slash) (rev p));
         b = rev (takeWhile (\<lambda>c. c \<noteq> slash) (rev q))
     in if b = [] then [slash] else b)"

fun strip_common :: "string list \<Rightarrow> string list \<Rightarrow> string list \<times> string list" where
  "strip_common (b # bs) (t # ts) = (if b = t then strip_common bs ts else (b # bs, t # ts))"
| "strip_common bs ts = (bs, ts)"

text \<open>\<^verbatim>\<open>Rel\<close>; \<open>None\<close> is its error.\<close>

definition Rel :: "string \<Rightarrow> string \<Rightarrow> string option" where
  "Rel base targ =
     (if Clean base = Clean targ then Some ''.''
      else if IsAbs (Clean base) \<noteq> IsAbs (Clean targ) then None
      else case strip_common (comps base) (comps targ) of (bs, ts) \<Rightarrow>
        if bs \<noteq> [] \<and> hd bs = ''..'' then None
        else Some (Join [slash] (replicate (length bs) ''..'' @ ts)))"

section \<open>Clean paths\<close>

definition plain :: "string \<Rightarrow> bool" where
  "plain c \<longleftrightarrow> c \<noteq> [] \<and> c \<noteq> ''.'' \<and> c \<noteq> ''..'' \<and> slash \<notin> set c"

definition good_comps :: "bool \<Rightarrow> string list \<Rightarrow> bool" where
  "good_comps rooted cs \<longleftrightarrow>
     (\<exists>n cs'. cs = replicate n ''..'' @ cs' \<and> list_all plain cs' \<and> (rooted \<longrightarrow> n = 0))"

lemma clean_step_plain: "plain c \<Longrightarrow> clean_step r c st = c # st"
  by (simp add: clean_step_def plain_def)

lemma fold_clean_plain: "list_all plain cs \<Longrightarrow> fold (clean_step r) cs st = rev cs @ st"
  by (induction cs arbitrary: st) (simp_all add: clean_step_plain)

lemma fold_clean_dots: "fold (clean_step False) (replicate n ''..'') (replicate m ''..'') = replicate (n + m) ''..''"
proof (induction n arbitrary: m)
  case (Suc n)
  have "clean_step False ''..'' (replicate m ''..'') = replicate (Suc m) ''..''"
    by (cases m) (simp_all add: clean_step_def)
  with Suc [of "Suc m"] show ?case by simp
qed simp

lemma clean_comps_good: "good_comps r cs \<Longrightarrow> clean_comps r cs = cs"
proof -
  assume "good_comps r cs"
  then obtain n cs' where cs: "cs = replicate n ''..'' @ cs'" "list_all plain cs'" "r \<longrightarrow> n = 0"
    by (auto simp: good_comps_def)
  have "fold (clean_step r) (replicate n ''..'') [] = replicate n ''..''"
    using fold_clean_dots [of n 0] cs(3) by (cases r) auto
  with cs show ?thesis by (simp add: clean_comps_def fold_clean_plain)
qed

lemma good_comps_step:
  assumes "good_comps r (rev st)" "slash \<notin> set c"
  shows "good_comps r (rev (clean_step r c st))"
proof -
  obtain n cs' where st: "rev st = replicate n ''..'' @ cs'" "list_all plain cs'" "r \<longrightarrow> n = 0"
    using assms(1) by (auto simp: good_comps_def)
  have plain: "good_comps r (rev (c # st))" if "plain c"
    using st that by (auto simp: good_comps_def intro!: exI [of _ n] exI [of _ "cs' @ [c]"])
  have dots: "good_comps r (rev (clean_step r ''..'' st))"
  proof (cases cs' rule: rev_cases)
    case Nil
    then have "st = replicate n ''..''" using st(1) by (metis append_Nil2 rev_replicate rev_swap)
    then have "clean_step r ''..'' st = replicate (if r then 0 else Suc n) ''..''"
      using st(3) by (cases n) (auto simp: clean_step_def)
    then show ?thesis
      by (auto simp: good_comps_def simp flip: replicate_Suc intro!: exI [of _ "if r then 0 else Suc n"] exI [of _ "[]"])
  next
    case (snoc xs x)
    then have "st = x # rev (replicate n ''..'' @ xs)" using st(1) by (metis append_assoc rev_rev_ident rev_append rev.simps append_Cons append_Nil)
    moreover have "x \<noteq> ''..''" using snoc st(2) by (auto simp: plain_def)
    ultimately show ?thesis using snoc st by (auto simp: clean_step_def good_comps_def)
  qed
  show ?thesis
    using assms plain dots by (cases "c = ''..''") (auto simp: clean_step_def plain_def)
qed

lemma good_comps_fold:
  "\<forall>c \<in> set cs. slash \<notin> set c \<Longrightarrow> good_comps r (rev st) \<Longrightarrow> good_comps r (rev (fold (clean_step r) cs st))"
  by (induction cs arbitrary: st) (simp_all add: good_comps_step)

lemma good_comps_comps: "good_comps (IsAbs p) (comps p)"
proof -
  have "good_comps (IsAbs p) (rev [])" by (auto simp: good_comps_def)
  moreover have "\<forall>c \<in> set (Split slash p). slash \<notin> set c" using Split_no_sep by blast
  ultimately show ?thesis
    using good_comps_fold [of "Split slash p" "IsAbs p" "[]"] by (simp only: comps_def clean_comps_def)
qed

lemma good_comps_no_slash: "good_comps r cs \<Longrightarrow> c \<in> set cs \<Longrightarrow> slash \<notin> set c \<and> c \<noteq> []"
proof -
  assume good: "good_comps r cs" and c: "c \<in> set cs"
  obtain n cs' where "cs = replicate n ''..'' @ cs'" "list_all plain cs'"
    using good unfolding good_comps_def by blast
  with c have "c \<in> set (replicate n ''..'') \<or> c \<in> set cs'" "list_all plain cs'" by auto
  then have "c = ''..'' \<or> plain c" by (auto simp: list_all_iff)
  then show "slash \<notin> set c \<and> c \<noteq> []" by (auto simp: plain_def)
qed

lemma IsAbs_Join: "good_comps r cs \<Longrightarrow> cs \<noteq> [] \<Longrightarrow> \<not> IsAbs (Join [slash] cs)"
proof (cases cs)
  case (Cons c cs')
  moreover assume "good_comps r cs"
  ultimately have "c \<noteq> [] \<and> slash \<notin> set c" using good_comps_no_slash by auto
  with Cons show ?thesis by (cases cs'; cases c) (auto simp: IsAbs_def)
qed simp

lemma clean_comps_blank: "clean_comps r ([] # cs) = clean_comps r cs"
  by (simp add: clean_comps_def clean_step_def)

lemma comps_unparse:
  assumes "good_comps r cs"
  shows "IsAbs (unparse r cs) = r" and "comps (unparse r cs) = cs"
proof -
  show abs: "IsAbs (unparse r cs) = r"
    using IsAbs_Join [OF assms] by (auto simp: unparse_def IsAbs_def)
  have split: "Split slash (Join [slash] cs) = (if cs = [] then [[]] else cs)"
    using Split_Join [of cs slash] good_comps_no_slash [OF assms] by auto
  show "comps (unparse r cs) = cs"
  proof (cases r)
    case True
    then have "Split slash (unparse r cs) = [] # (if cs = [] then [[]] else cs)"
      using split by (simp add: unparse_def)
    with True abs clean_comps_good [OF assms] show ?thesis
      by (cases "cs = []") (simp_all add: comps_def clean_comps_blank)
  next
    case False
    show ?thesis
    proof (cases "cs = []")
      case True
      with False show ?thesis by (simp add: unparse_def comps_def IsAbs_def clean_comps_def clean_step_def)
    next
      case ne: False
      with False split abs clean_comps_good [OF assms] show ?thesis by (simp add: unparse_def comps_def)
    qed
  qed
qed

lemma Clean_unparse: "good_comps r cs \<Longrightarrow> Clean (unparse r cs) = unparse r cs"
  by (simp add: Clean_def comps_unparse)

lemma Clean_idem [simp]: "Clean (Clean p) = Clean p"
  unfolding Clean_def [of p] by (rule Clean_unparse [OF good_comps_comps])

lemma comps_Clean [simp]: "comps (Clean p) = comps p" "IsAbs (Clean p) = IsAbs p"
  by (simp_all add: Clean_def comps_unparse good_comps_comps)

section \<open>Paths below a directory\<close>

lemma Split_append: "Split sep (a @ sep # b) = Split sep a @ Split sep b"
proof (induction a)
  case (Cons x a)
  obtain w ws where "Split sep a = w # ws" by (cases "Split sep a") auto
  with Cons show ?case by simp
qed simp

text \<open>\<open>under D cs tr\<close> is \<open>D\<close> followed by the components \<open>cs\<close>, with a trailing slash if \<open>tr\<close>.\<close>

definition under :: "string \<Rightarrow> string list \<Rightarrow> bool \<Rightarrow> string" where
  "under D cs tr = D @ concat (map (Cons slash) cs) @ (if tr then [slash] else [])"

lemma under_Cons: "under D (c # cs) tr = under (D @ slash # c) cs tr"
  by (simp add: under_def)

lemma Split_under:
  "list_all plain cs \<Longrightarrow> Split slash (under D cs tr) = Split slash D @ cs @ (if tr then [[]] else [])"
proof (induction cs arbitrary: D)
  case Nil
  show ?case using Split_append [of slash D "[]"] by (simp add: under_def)
next
  case (Cons c cs)
  then have "slash \<notin> set c" by (simp add: plain_def)
  then have "Split slash (D @ slash # c) = Split slash D @ [c]" by (simp add: Split_append Split_word)
  with Cons show ?case by (simp add: under_Cons)
qed

lemma Join_slash: "cs \<noteq> [] \<Longrightarrow> slash # Join [slash] cs = concat (map (Cons slash) cs)"
  by (induction cs rule: induct_list012) simp_all

lemma Join_append: "a \<noteq> [] \<Longrightarrow> b \<noteq> [] \<Longrightarrow> Join sep (a @ b) = Join sep a @ sep @ Join sep b"
  by (induction a rule: induct_list012) (simp_all add: Join_Cons)

lemma unparse_append: "ds \<noteq> [] \<Longrightarrow> unparse r (ds @ ns) = under (unparse r ds) ns False"
  by (cases "ns = []") (simp_all add: unparse_def under_def Join_append flip: Join_slash)

lemma Join_nonempty: "good_comps r cs \<Longrightarrow> cs \<noteq> [] \<Longrightarrow> Join sep cs \<noteq> []"
  using good_comps_no_slash [of r cs "hd cs"] by (cases cs; cases "tl cs") auto

lemma unparse_nonempty [simp]: "good_comps r cs \<Longrightarrow> unparse r cs \<noteq> []"
  using Join_nonempty [of r cs] by (auto simp: unparse_def)

lemma good_comps_plain: "list_all plain cs \<Longrightarrow> good_comps r cs"
  by (auto simp: good_comps_def intro!: exI [of _ 0])

lemma good_comps_append: "good_comps r ds \<Longrightarrow> list_all plain ns \<Longrightarrow> good_comps r (ds @ ns)"
proof -
  assume "good_comps r ds" and ns: "list_all plain ns"
  then obtain n cs where "ds = replicate n ''..'' @ cs" "list_all plain cs" "r \<longrightarrow> n = 0"
    unfolding good_comps_def by blast
  with ns show ?thesis unfolding good_comps_def by (intro exI [of _ n] exI [of _ "cs @ ns"]) simp
qed

lemma PathJoin_plain:
  assumes "good_comps r ds" "list_all plain ns"
  shows "PathJoin [unparse r ds, unparse False ns] = unparse r (ds @ ns)"
proof -
  let ?D = "unparse r ds" and ?N = "unparse False ns"
  note cu = comps_unparse [OF assms(1)]
  have "fold (clean_step r) (Split slash ?D) [] = rev ds"
    using cu by (metis comps_def clean_comps_def rev_rev_ident)
  moreover have "fold (clean_step r) (Split slash ?N) st = rev ns @ st" for st
  proof (cases "ns = []")
    case True
    then show ?thesis by (simp add: unparse_def clean_step_def)
  next
    case False
    then have "Split slash ?N = ns"
      using assms(2) by (simp add: unparse_def Split_Join list_all_iff plain_def)
    then show ?thesis using fold_clean_plain [OF assms(2)] by simp
  qed
  ultimately have "clean_comps r (Split slash (?D @ slash # ?N)) = ds @ ns"
    by (simp only: Split_append clean_comps_def fold_append comp_apply rev_append rev_rev_ident)
  moreover have "IsAbs (?D @ slash # ?N) = r"
    using cu(1) unparse_nonempty [OF assms(1)] by (cases ?D) (auto simp: IsAbs_def)
  ultimately show ?thesis
    using unparse_nonempty [OF assms(1)] by (simp add: PathJoin_def Clean_def comps_def)
qed

lemma strip_common_append: "strip_common ds (ds @ ns) = ([], ns)"
  by (induction ds) simp_all

lemma Rel_plain:
  assumes "good_comps r ds" "list_all plain ns"
  shows "Rel (unparse r ds) (unparse r (ds @ ns)) = Some (if ns = [] then ''.'' else Join [slash] ns)"
proof -
  have good: "good_comps r (ds @ ns)" using assms by (rule good_comps_append)
  have "Clean (unparse r ds) = Clean (unparse r (ds @ ns)) \<longleftrightarrow> ns = []"
    using comps_unparse(2) [OF assms(1)] comps_unparse(2) [OF good]
    by (metis Clean_unparse append_Nil2 append_self_conv assms(1) good)
  then show ?thesis
    using comps_unparse [OF assms(1)] comps_unparse [OF good] by (simp add: Rel_def strip_common_append)
qed

lemma good_comps_butlast:
  assumes "good_comps r (cs @ [c])"
  shows "good_comps r cs"
proof -
  obtain n cs' where n: "cs @ [c] = replicate n ''..'' @ cs'" "list_all plain cs'" "r \<longrightarrow> n = 0"
    using assms by (auto simp: good_comps_def)
  show ?thesis
  proof (cases cs' rule: rev_cases)
    case Nil
    then have "cs = replicate (n - 1) ''..''"
      using n(1) replicate_append_same [of "n - 1" "''..''"] by (cases n) (simp_all, metis butlast_snoc)
    then show ?thesis using n(3) by (auto simp: good_comps_def intro!: exI [of _ "n - 1"] exI [of _ "[]"])
  next
    case (snoc xs x)
    then have "cs = replicate n ''..'' @ xs" using n(1) by (metis append_assoc butlast_snoc)
    then show ?thesis using n snoc by (auto simp: good_comps_def)
  qed
qed

lemma Dir_unparse:
  assumes "good_comps r (cs @ [c])"
  shows "Dir (unparse r (cs @ [c])) = unparse r cs"
proof -
  have c: "slash \<notin> set c" using good_comps_no_slash [OF assms, of c] by simp
  let ?P = "(if r then [slash] else []) @ (if cs = [] then [] else Join [slash] cs @ [slash])"
  have "unparse r (cs @ [c]) = ?P @ c" by (auto simp: unparse_def Join_append)
  moreover have "dropWhile (\<lambda>x. x \<noteq> slash) (rev (?P @ c)) = rev ?P"
    using c by (auto simp: dropWhile_append)
  ultimately have dir: "Dir (unparse r (cs @ [c])) = Clean ?P" unfolding Dir_def by (simp only: rev_rev_ident)
  have good: "good_comps r cs" by (rule good_comps_butlast [OF assms])
  have split: "Split slash (Join [slash] cs @ [slash]) = cs @ [[]]" if "cs \<noteq> []"
    using that Split_append [of slash "Join [slash] cs" "[]"] Split_Join [of cs slash] good_comps_no_slash [OF good]
    by auto
  have blank: "clean_comps r (cs @ [[]]) = cs"
    using clean_comps_good [OF good] by (simp add: clean_comps_def clean_step_def)
  have "IsAbs ?P = r \<and> comps ?P = cs"
  proof (cases "cs = []")
    case True
    then show ?thesis by (auto simp: IsAbs_def comps_def clean_comps_def clean_step_def)
  next
    case False
    have "\<not> IsAbs (Join [slash] cs @ [slash])"
      using IsAbs_Join [OF good False] Join_nonempty [OF good False, of "[slash]"]
      by (cases "Join [slash] cs") (auto simp: IsAbs_def)
    then show ?thesis
      using False split blank by (cases r) (auto simp: IsAbs_def comps_def clean_comps_blank)
  qed
  with dir show ?thesis by (simp add: Clean_def)
qed

end
