(* ===== verification/FileSystem.thy ===== *)
theory FileSystem
  imports Paths
begin

text \<open>
  The file system as the extraction and file operations see it: a map from resolved absolute
  paths (lists of names) to nodes, POSIX path resolution with symbolic links (at most 40 of
  them, as Linux has it), and the calls of Go's \<^verbatim>\<open>os\<close> package the code makes. An operation
  returns an error or the new file system. Permissions are stored but not enforced, and the
  file system changes only through these calls.
\<close>

type_synonym path = "string list"

datatype node = NDir nat | NFile nat string | NLink string | NOther

type_synonym fsys = "path \<rightharpoonup> node"

datatype errno = ENOENT | ENOTDIR | ELOOP | EISDIR | EEXIST | ENOTEMPTY | EINVAL | EXDEV | EIO

definition is_dir :: "node option \<Rightarrow> bool" where
  "is_dir n = (case n of Some (NDir _) \<Rightarrow> True | _ \<Rightarrow> False)"

definition is_link :: "node option \<Rightarrow> bool" where
  "is_link n = (case n of Some (NLink _) \<Rightarrow> True | _ \<Rightarrow> False)"

lemma is_dir_iff: "is_dir n \<longleftrightarrow> (\<exists>m. n = Some (NDir m))"
  by (auto simp: is_dir_def split: option.splits node.splits)

lemma is_link_iff: "is_link n \<longleftrightarrow> (\<exists>t. n = Some (NLink t))"
  by (auto simp: is_link_def split: option.splits node.splits)

lemma is_dir_simps [simp]:
  "is_dir (Some (NDir m))" "\<not> is_dir None" "\<not> is_dir (Some (NFile m c))" "\<not> is_dir (Some (NLink t))"
  "\<not> is_dir (Some NOther)"
  by (simp_all add: is_dir_iff)

lemma is_dir_exists: "is_dir n \<Longrightarrow> n \<noteq> None"
  by (auto simp: is_dir_iff)

lemma is_link_simps [simp]:
  "is_link (Some (NLink t))" "\<not> is_link None" "\<not> is_link (Some (NFile m c))" "\<not> is_link (Some (NDir m))"
  "\<not> is_link (Some NOther)"
  by (simp_all add: is_link_iff)

text \<open>Resolution of the components \<open>cs\<close> from the directory \<open>cur\<close>; \<open>n\<close> symbolic links may still be
  followed. The last component need not exist, and is followed only if \<open>follow\<close>. The result
  is the resolved path with the number of links left.\<close>

function walk :: "nat \<Rightarrow> fsys \<Rightarrow> path \<Rightarrow> string list \<Rightarrow> bool \<Rightarrow> errno + nat \<times> path" where
  "walk n fs cur [] follow = Inr (n, cur)"
| "walk n fs cur (c # cs) follow =
     (if \<not> is_dir (fs cur) then Inl (if fs cur = None then ENOENT else ENOTDIR)
      else if c = [] \<or> c = ''.'' then walk n fs cur cs follow
      else if c = ''..'' then walk n fs (butlast cur) cs follow
      else case fs (cur @ [c]) of
             None \<Rightarrow> if list_all (\<lambda>d. d = []) cs then Inr (n, cur @ [c]) else Inl ENOENT
           | Some (NLink t) \<Rightarrow>
               if cs = [] \<and> \<not> follow then Inr (n, cur @ [c])
               else (case n of 0 \<Rightarrow> Inl ELOOP
                     | Suc m \<Rightarrow> walk m fs (if IsAbs t then [] else cur) (Split slash t @ cs) follow)
           | Some _ \<Rightarrow> walk n fs (cur @ [c]) cs follow)"
  by pat_completeness auto
termination
  by (relation "measures [\<lambda>(n, fs, cur, cs, follow). n, \<lambda>(n, fs, cur, cs, follow). length cs]") auto

definition resolve :: "path \<Rightarrow> fsys \<Rightarrow> bool \<Rightarrow> string \<Rightarrow> errno + path" where
  "resolve cwd fs follow p =
     (if p = [] then Inl ENOENT
      else case walk 40 fs (if IsAbs p then [] else cwd) (Split slash p) follow of
             Inl e \<Rightarrow> Inl e | Inr (_, q) \<Rightarrow> Inr q)"

definition lookup_node :: "fsys \<Rightarrow> errno + path \<Rightarrow> errno + node" where
  "lookup_node fs r = (case r of Inl e \<Rightarrow> Inl e
     | Inr q \<Rightarrow> (case fs q of None \<Rightarrow> Inl ENOENT | Some n \<Rightarrow> Inr n))"

definition Lstat :: "path \<Rightarrow> fsys \<Rightarrow> string \<Rightarrow> errno + node" where
  "Lstat cwd fs p = lookup_node fs (resolve cwd fs False p)"

definition Stat :: "path \<Rightarrow> fsys \<Rightarrow> string \<Rightarrow> errno + node" where
  "Stat cwd fs p = lookup_node fs (resolve cwd fs True p)"

definition Mkdir :: "path \<Rightarrow> nat \<Rightarrow> string \<Rightarrow> fsys \<Rightarrow> errno option \<times> fsys" where
  "Mkdir cwd perm p fs = (case resolve cwd fs False p of
     Inl e \<Rightarrow> (Some e, fs)
   | Inr q \<Rightarrow> if fs q = None then (None, fs(q \<mapsto> NDir perm)) else (Some EEXIST, fs))"

text \<open>The parent prefix \<^verbatim>\<open>os.MkdirAll\<close> computes: trailing separators are dropped, then the last
  component; the separator before it stays.\<close>

definition parent_prefix :: "string \<Rightarrow> string" where
  "parent_prefix p = rev (dropWhile (\<lambda>c. c \<noteq> slash) (dropWhile (\<lambda>c. c = slash) (rev p)))"

lemma length_parent_prefix: "parent_prefix p \<noteq> [] \<Longrightarrow> p \<noteq> [] \<Longrightarrow> length (parent_prefix p) < length p"
proof -
  assume ne: "parent_prefix p \<noteq> []" and p: "p \<noteq> []"
  have "length (dropWhile (\<lambda>c. c \<noteq> slash) (dropWhile (\<lambda>c. c = slash) (rev p))) < length (rev p)"
  proof (cases "hd (rev p) = slash")
    case True
    with p have "length (dropWhile (\<lambda>c. c = slash) (rev p)) < length (rev p)"
      by (cases "rev p") (auto simp: le_imp_less_Suc length_dropWhile_le)
    then show ?thesis using length_dropWhile_le le_less_trans by blast
  next
    case False
    with p have "dropWhile (\<lambda>c. c = slash) (rev p) = rev p" by (cases "rev p") auto
    with False p show ?thesis by (cases "rev p") (auto simp: le_imp_less_Suc length_dropWhile_le)
  qed
  then show ?thesis by (simp add: parent_prefix_def)
qed

function MkdirAll :: "path \<Rightarrow> nat \<Rightarrow> string \<Rightarrow> fsys \<Rightarrow> errno option \<times> fsys" where
  "MkdirAll cwd perm p fs =
     (case Stat cwd fs p of
        Inr (NDir _) \<Rightarrow> (None, fs)
      | Inr _ \<Rightarrow> (Some ENOTDIR, fs)
      | Inl _ \<Rightarrow>
          (let (err, fs1) = (if parent_prefix p \<noteq> [] \<and> p \<noteq> [] then MkdirAll cwd perm (parent_prefix p) fs else (None, fs))
           in case err of Some e \<Rightarrow> (Some e, fs1)
              | None \<Rightarrow> (case Mkdir cwd perm p fs1 of
                  (None, fs2) \<Rightarrow> (None, fs2)
                | (Some e, fs2) \<Rightarrow> (case Lstat cwd fs2 p of Inr (NDir _) \<Rightarrow> (None, fs2) | _ \<Rightarrow> (Some e, fs2)))))"
  by pat_completeness auto
termination
  by (relation "measure (\<lambda>(cwd, perm, p, fs). length p)") (auto dest: length_parent_prefix)

declare MkdirAll.simps [simp del]

text \<open>\<^verbatim>\<open>os.OpenFile\<close> with \<^verbatim>\<open>O_WRONLY|O_CREATE|O_TRUNC\<close> followed by writing \<open>content\<close>: an existing file
  keeps its mode.\<close>

definition WriteFile :: "path \<Rightarrow> nat \<Rightarrow> string \<Rightarrow> string \<Rightarrow> fsys \<Rightarrow> errno option \<times> fsys" where
  "WriteFile cwd perm content p fs = (case resolve cwd fs True p of
     Inl e \<Rightarrow> (Some e, fs)
   | Inr q \<Rightarrow> (case fs q of
        None \<Rightarrow> (None, fs(q \<mapsto> NFile perm content))
      | Some (NFile m _) \<Rightarrow> (None, fs(q \<mapsto> NFile m content))
      | Some (NDir _) \<Rightarrow> (Some EISDIR, fs)
      | Some _ \<Rightarrow> (None, fs)))"

definition has_children :: "fsys \<Rightarrow> path \<Rightarrow> bool" where
  "has_children fs q \<longleftrightarrow> (\<exists>c. fs (q @ [c]) \<noteq> None)"

text \<open>Runs that never ask for the children of a directory can be evaluated.\<close>

lemma has_children_code [code]: "has_children fs q = Code.abort (STR ''children'') (\<lambda>_. has_children fs q)"
  by simp

text \<open>\<^verbatim>\<open>os.Remove\<close> unlinks a name, or removes an empty directory.\<close>

definition Remove :: "path \<Rightarrow> string \<Rightarrow> fsys \<Rightarrow> errno option \<times> fsys" where
  "Remove cwd p fs = (case resolve cwd fs False p of
     Inl e \<Rightarrow> (Some e, fs)
   | Inr q \<Rightarrow> (case fs q of
        None \<Rightarrow> (Some ENOENT, fs)
      | Some (NDir _) \<Rightarrow> if has_children fs q then (Some ENOTEMPTY, fs) else (None, fs(q := None))
      | Some _ \<Rightarrow> (None, fs(q := None))))"

definition Chmod :: "path \<Rightarrow> nat \<Rightarrow> string \<Rightarrow> fsys \<Rightarrow> errno option \<times> fsys" where
  "Chmod cwd perm p fs = (case resolve cwd fs True p of
     Inl e \<Rightarrow> (Some e, fs)
   | Inr q \<Rightarrow> (case fs q of
        None \<Rightarrow> (Some ENOENT, fs)
      | Some (NDir _) \<Rightarrow> (None, fs(q \<mapsto> NDir perm))
      | Some (NFile _ c) \<Rightarrow> (None, fs(q \<mapsto> NFile perm c))
      | Some _ \<Rightarrow> (None, fs)))"

section \<open>Resolution\<close>

lemma walk_name:
  assumes "is_dir (fs cur)" "c \<noteq> []" "c \<noteq> ''.''" "c \<noteq> ''..''"
  shows "fs (cur @ [c]) = Some nd \<Longrightarrow> \<not> is_link (Some nd) \<Longrightarrow>
      walk n fs cur (c # cs) follow = walk n fs (cur @ [c]) cs follow"
    and "fs (cur @ [c]) = Some (NLink t) \<Longrightarrow> cs \<noteq> [] \<or> follow \<Longrightarrow>
      walk n fs cur (c # cs) follow = (case n of 0 \<Rightarrow> Inl ELOOP
        | Suc m \<Rightarrow> walk m fs (if IsAbs t then [] else cur) (Split slash t @ cs) follow)"
    and "fs (cur @ [c]) = None \<Longrightarrow> walk n fs cur (c # cs) follow =
      (if list_all (\<lambda>d. d = []) cs then Inr (n, cur @ [c]) else Inl ENOENT)"
  using assms by (auto split: node.split)

lemma walk_append:
  "walk n fs cur a True = Inr (m, q) \<Longrightarrow> is_dir (fs q) \<Longrightarrow> b \<noteq> [] \<or> follow \<Longrightarrow>
   walk n fs cur (a @ b) follow = walk m fs q b follow"
proof (induction n fs cur a True rule: walk.induct)
  case (1 n fs cur)
  then show ?case by simp
next
  case (2 n fs cur c cs)
  note prems = "2.prems" and IH = "2.hyps"
  show ?case
  proof (cases "is_dir (fs cur)")
    case False
    with prems show ?thesis by simp
  next
    case dir: True
    consider "c = [] \<or> c = ''.''" | "c = ''..''" | "c \<noteq> []" "c \<noteq> ''.''" "c \<noteq> ''..''" by blast
    then show ?thesis
    proof cases
      case 1
      with dir prems have "walk n fs cur cs True = Inr (m, q)" by auto
      from IH(1) [OF _ 1 this prems(2,3)] dir 1 show ?thesis by auto
    next
      case 2
      with dir prems have "walk n fs (butlast cur) cs True = Inr (m, q)" by auto
      from IH(2) [OF _ _ 2 this prems(2,3)] dir 2 show ?thesis by auto
    next
      case 3
      note name = walk_name [of fs cur c, OF dir 3]
      show ?thesis
      proof (cases "fs (cur @ [c])")
        case None
        then show ?thesis using prems name(3) [of n cs True] by (auto split: if_splits)
      next
        case (Some nd)
        show ?thesis
        proof (cases "is_link (Some nd)")
          case False
          from name(1) [OF Some False] have "walk n fs (cur @ [c]) cs True = Inr (m, q)" using prems by simp
          then have "walk n fs (cur @ [c]) (cs @ b) follow = walk m fs q b follow"
            using IH(3,4,6) dir 3 Some False prems(2,3) by (cases nd) auto
          then show ?thesis using name(1) [OF Some False, of n "cs @ b"] by simp
        next
          case True
          then obtain t where t: "nd = NLink t" by (cases nd) auto
          note step = name(2) [OF Some [unfolded t]]
          obtain k where k: "n = Suc k" "walk k fs (if IsAbs t then [] else cur) (Split slash t @ cs) True = Inr (m, q)"
            using prems(1) step [of cs True] by (cases n) auto
          have "walk k fs (if IsAbs t then [] else cur) ((Split slash t @ cs) @ b) follow = walk m fs q b follow"
            using IH(5) [OF _ _ _ Some t _ k(1) k(2) prems(2,3)] dir 3 by simp
          then show ?thesis using k(1) step [of "cs @ b" follow] prems(3) by auto
        qed
      qed
    qed
  qed
qed

lemma walk_blank:
  "set tr \<subseteq> {[]} \<Longrightarrow> walk n fs R tr follow = Inr (m, q) \<Longrightarrow> m = n \<and> q = R"
  by (induction tr) (auto split: if_splits)

text \<open>Below a directory, along names that are not links, resolution is the identity.\<close>

lemma walk_plain:
  assumes "list_all plain ns" "\<And>k. k \<le> length ns \<Longrightarrow> \<not> is_link (fs (R @ take k ns))"
    and "walk n fs R (ns @ tr) follow = Inr (m, q)" "set tr \<subseteq> {[]}"
  shows "m = n \<and> q = R @ ns"
  using assms
proof (induction ns arbitrary: R)
  case Nil
  then show ?case using walk_blank [of tr n fs R follow m q] by simp
next
  case (Cons c ns)
  have dir: "is_dir (fs R)" using Cons.prems(3) by (auto split: if_splits)
  have c: "plain c" using Cons.prems(1) by simp
  have nolink: "\<not> is_link (fs (R @ [c]))" using Cons.prems(2) [of 1] by simp
  have sub: "\<And>k. k \<le> length ns \<Longrightarrow> \<not> is_link (fs ((R @ [c]) @ take k ns))"
    using Cons.prems(2) [of "Suc k" for k] by simp
  show ?case
  proof (cases "fs (R @ [c])")
    case None
    with Cons.prems(1,3) dir c have "list_all (\<lambda>d. d = []) (ns @ tr)" "q = R @ [c]" "m = n"
      by (auto simp: plain_def split: if_splits)
    moreover from this Cons.prems(1) have "ns = []" by (cases ns) (auto simp: plain_def)
    ultimately show ?thesis by simp
  next
    case (Some nd)
    with nolink have "walk n fs (R @ [c]) (ns @ tr) follow = Inr (m, q)"
      using Cons.prems(3) dir c by (cases nd) (auto simp: plain_def)
    from Cons.IH [OF _ sub this Cons.prems(4)] Cons.prems(1) show ?thesis by simp
  qed
qed

text \<open>A walk that ends in a directory passes only through directories and links, so it is not
  affected by changes to other nodes.\<close>

definition skeleton_kept :: "fsys \<Rightarrow> fsys \<Rightarrow> bool" where
  "skeleton_kept fs fs' \<longleftrightarrow> (\<forall>p. is_dir (fs p) \<or> is_link (fs p) \<longrightarrow> fs' p = fs p)"

lemma walk_skeleton:
  "walk n fs cur cs True = Inr (m, q) \<Longrightarrow> is_dir (fs q) \<Longrightarrow> skeleton_kept fs fs' \<Longrightarrow>
   walk n fs' cur cs True = Inr (m, q)"
proof (induction n fs cur cs True rule: walk.induct)
  case (1 n fs cur)
  then show ?case by simp
next
  case (2 n fs cur c cs)
  note prems = "2.prems" and IH = "2.hyps"
  have kept: "fs' p = fs p" if "is_dir (fs p) \<or> is_link (fs p)" for p
    using prems(3) that by (auto simp: skeleton_kept_def)
  have dir: "is_dir (fs cur)" using prems(1) by (auto split: if_splits)
  then have dir': "is_dir (fs' cur)" using kept by simp
  consider "c = [] \<or> c = ''.''" | "c = ''..''" | "c \<noteq> []" "c \<noteq> ''.''" "c \<noteq> ''..''" by blast
  then show ?case
  proof cases
    case 1
    with dir dir' IH(1) prems show ?thesis by auto
  next
    case 2
    with dir dir' IH(2) prems show ?thesis by auto
  next
    case 3
    note name = walk_name [of fs cur c, OF dir 3] and name' = walk_name [of fs' cur c, OF dir' 3]
    show ?thesis
    proof (cases "fs (cur @ [c])")
      case None
      then show ?thesis using prems(1,2) name(3) [of n cs True] by (auto split: if_splits)
    next
      case (Some nd)
      show ?thesis
      proof (cases "is_link (Some nd)")
        case True
        then obtain t where t: "nd = NLink t" by (cases nd) auto
        have fs': "fs' (cur @ [c]) = Some (NLink t)" using kept [of "cur @ [c]"] Some t by simp
        obtain k where k: "n = Suc k" "walk k fs (if IsAbs t then [] else cur) (Split slash t @ cs) True = Inr (m, q)"
          using prems(1) name(2) [OF Some [unfolded t], of cs True] by (cases n) auto
        from IH(5) [OF _ _ _ Some t _ k(1) k(2) prems(2,3)] dir 3 show ?thesis
          using name'(2) [OF fs', of cs True] k(1) by simp
      next
        case False
        have w: "walk n fs (cur @ [c]) cs True = Inr (m, q)" using prems(1) name(1) [OF Some False] by simp
        have "is_dir (fs (cur @ [c]))"
        proof (cases cs)
          case Nil
          with w prems(2) show ?thesis by simp
        next
          case (Cons d ds)
          with w show ?thesis by (auto split: if_splits)
        qed
        then have fs': "fs' (cur @ [c]) = Some nd" and "\<exists>x. nd = NDir x"
          using kept [of "cur @ [c]"] Some by (auto simp: is_dir_iff)
        then have "walk n fs' (cur @ [c]) cs True = Inr (m, q)"
          using IH(3) dir 3 Some w prems(2,3) by auto
        with name'(1) [OF fs' False] show ?thesis by simp
      qed
    qed
  qed
qed

lemma walk_nofollow:
  "walk n fs cur cs False = Inr (m, q) \<Longrightarrow> \<not> is_link (fs q) \<Longrightarrow> walk n fs cur cs True = Inr (m, q)"
proof (induction n fs cur cs False rule: walk.induct)
  case (1 n fs cur)
  then show ?case by simp
next
  case (2 n fs cur c cs)
  note prems = "2.prems" and IH = "2.hyps"
  have dir: "is_dir (fs cur)" using prems(1) by (auto split: if_splits)
  consider "c = [] \<or> c = ''.''" | "c = ''..''" | "c \<noteq> []" "c \<noteq> ''.''" "c \<noteq> ''..''" by blast
  then show ?case
  proof cases
    case 1
    with dir IH(1) prems show ?thesis by auto
  next
    case 2
    with dir IH(2) prems show ?thesis by auto
  next
    case 3
    note name = walk_name [of fs cur c, OF dir 3]
    show ?thesis
    proof (cases "fs (cur @ [c])")
      case None
      with prems(1) show ?thesis by (simp only: name(3))
    next
      case (Some nd)
      show ?thesis
      proof (cases "is_link (Some nd)")
        case True
        then obtain t where t: "nd = NLink t" by (cases nd) auto
        have "cs \<noteq> []" using prems dir 3 Some t by auto
        then have ne: "cs \<noteq> [] \<or> f" for f by simp
        obtain k where k: "n = Suc k" "walk k fs (if IsAbs t then [] else cur) (Split slash t @ cs) False = Inr (m, q)"
          using prems(1) name(2) [OF Some [unfolded t] ne, of n False] by (cases n) auto
        from IH(5) [OF _ _ _ Some t _ k(1) k(2) prems(2)] dir 3 \<open>cs \<noteq> []\<close> show ?thesis
          using name(2) [OF Some [unfolded t] ne, of n True] k(1) by simp
      next
        case False
        have "walk n fs (cur @ [c]) cs False = Inr (m, q)" using prems(1) name(1) [OF Some False] by simp
        then have "walk n fs (cur @ [c]) cs True = Inr (m, q)"
          using IH(3,4,6) dir 3 Some False prems(2) by (cases nd) auto
        with name(1) [OF Some False] show ?thesis by simp
      qed
    qed
  qed
qed

lemma walk_prefix_dir:
  "walk n fs cur (a @ [c]) True = Inr (m, q) \<Longrightarrow> c \<noteq> [] \<Longrightarrow>
   \<exists>m' p. walk n fs cur a True = Inr (m', p) \<and> is_dir (fs p)"
proof (induction n fs cur a True rule: walk.induct)
  case (1 n fs cur)
  then show ?case by (auto split: if_splits)
next
  case (2 n fs cur d cs)
  note prems = "2.prems" and IH = "2.hyps"
  have dir: "is_dir (fs cur)" using prems(1) by (auto split: if_splits)
  consider "d = [] \<or> d = ''.''" | "d = ''..''" | "d \<noteq> []" "d \<noteq> ''.''" "d \<noteq> ''..''" by blast
  then show ?case
  proof cases
    case 1
    with dir IH(1) prems show ?thesis by auto
  next
    case 2
    with dir IH(2) prems show ?thesis by auto
  next
    case 3
    note name = walk_name [of fs cur d, OF dir 3]
    show ?thesis
    proof (cases "fs (cur @ [d])")
      case None
      then show ?thesis using prems name(3) [of n "cs @ [c]" True] by (auto split: if_splits)
    next
      case (Some nd)
      show ?thesis
      proof (cases "is_link (Some nd)")
        case True
        then obtain t where t: "nd = NLink t" by (cases nd) auto
        obtain k where k: "n = Suc k" "walk k fs (if IsAbs t then [] else cur) ((Split slash t @ cs) @ [c]) True = Inr (m, q)"
          using prems(1) name(2) [OF Some [unfolded t], of "cs @ [c]" True] by (cases n) auto
        from IH(5) [OF _ _ _ Some t _ k(1) k(2) prems(2)] dir 3 show ?thesis
          using name(2) [OF Some [unfolded t], of cs True] k(1) by simp
      next
        case False
        have "walk n fs (cur @ [d]) (cs @ [c]) True = Inr (m, q)" using prems(1) name(1) [OF Some False] by simp
        then have "\<exists>m' p. walk n fs (cur @ [d]) cs True = Inr (m', p) \<and> is_dir (fs p)"
          using IH(3,4,6) dir 3 Some False prems(2) by (cases nd) auto
        with name(1) [OF Some False] show ?thesis by simp
      qed
    qed
  qed
qed

section \<open>Operations below a directory\<close>

text \<open>The string \<open>D\<close> names the existing directory \<open>R\<close>.\<close>

definition dest_at :: "path \<Rightarrow> fsys \<Rightarrow> string \<Rightarrow> path \<Rightarrow> bool" where
  "dest_at cwd fs D R \<longleftrightarrow> D \<noteq> [] \<and> is_dir (fs R) \<and>
     (\<exists>n. walk 40 fs (if IsAbs D then [] else cwd) (Split slash D) True = Inr (n, R))"

lemma dest_at_resolve: "dest_at cwd fs D R \<longleftrightarrow> resolve cwd fs True D = Inr R \<and> is_dir (fs R)"
  by (auto simp: dest_at_def resolve_def split: sum.splits prod.splits)

text \<open>What an operation confined to the tree at \<open>R\<close> may do: nothing outside of it, no existing
  directory or link changed, no link made.\<close>

definition confined :: "path \<Rightarrow> fsys \<Rightarrow> fsys \<Rightarrow> bool" where
  "confined R fs fs' \<longleftrightarrow> (\<forall>p. \<not> prefix R p \<longrightarrow> fs' p = fs p) \<and> skeleton_kept fs fs' \<and>
     (\<forall>p. is_link (fs' p) \<longrightarrow> is_link (fs p))"

lemma confined_refl [simp]: "confined R fs fs"
  by (simp add: confined_def skeleton_kept_def)

lemma confined_trans: "confined R fs fs1 \<Longrightarrow> confined R fs1 fs2 \<Longrightarrow> confined R fs fs2"
  unfolding confined_def skeleton_kept_def by metis

lemma confined_update:
  "\<not> is_dir (fs (R @ ns)) \<Longrightarrow> \<not> is_link (fs (R @ ns)) \<Longrightarrow> \<not> is_link nd \<Longrightarrow> confined R fs (fs(R @ ns := nd))"
  by (auto simp: confined_def skeleton_kept_def)

lemma dest_at_confined: "dest_at cwd fs D R \<Longrightarrow> confined R fs fs' \<Longrightarrow> dest_at cwd fs' D R"
proof -
  assume d: "dest_at cwd fs D R" and c: "confined R fs fs'"
  then have kept: "skeleton_kept fs fs'" by (simp add: confined_def)
  then have "fs' R = fs R" using d by (auto simp: dest_at_def skeleton_kept_def)
  with d kept show "dest_at cwd fs' D R"
    unfolding dest_at_def by (metis walk_skeleton)
qed

definition link_free :: "fsys \<Rightarrow> path \<Rightarrow> string list \<Rightarrow> bool" where
  "link_free fs R ns \<longleftrightarrow> list_all plain ns \<and> (\<forall>k \<le> length ns. \<not> is_link (fs (R @ take k ns)))"

lemma link_free_confined: "link_free fs R ns \<Longrightarrow> confined R fs fs' \<Longrightarrow> link_free fs' R ns"
  by (auto simp: link_free_def confined_def)

lemma link_free_butlast: "link_free fs R (ns @ [c]) \<Longrightarrow> link_free fs R ns"
  unfolding link_free_def by (metis append_assoc le_add1 length_append list_all_append order_trans take_append diff_is_0_eq take_0 append_Nil2)

lemma link_free_last: "link_free fs R ns \<Longrightarrow> \<not> is_link (fs (R @ ns))"
  unfolding link_free_def by (metis order_refl take_all_iff)

lemma IsAbs_under: "D \<noteq> [] \<Longrightarrow> IsAbs (under D ns tr) = IsAbs D"
  by (cases D) (simp_all add: IsAbs_def under_def)

lemma resolve_under:
  assumes "dest_at cwd fs D R" "link_free fs R ns" "ns \<noteq> [] \<or> tr \<or> follow"
    and "resolve cwd fs follow (under D ns tr) = Inr q"
  shows "q = R @ ns"
proof -
  obtain n where w: "walk 40 fs (if IsAbs D then [] else cwd) (Split slash D) True = Inr (n, R)"
      and D: "D \<noteq> []" "is_dir (fs R)" using assms(1) by (auto simp: dest_at_def)
  let ?tr = "if tr then [[]] else [] :: string list"
  have split: "Split slash (under D ns tr) = Split slash D @ (ns @ ?tr)"
    using assms(2) by (simp add: Split_under link_free_def)
  have "ns @ ?tr \<noteq> [] \<or> follow" using assms(3) by auto
  from walk_append [OF w D(2) this] obtain m where "walk n fs R (ns @ ?tr) follow = Inr (m, q)"
    using assms(4) split D(1) by (auto simp: resolve_def IsAbs_under split: if_splits sum.splits prod.splits)
  then show ?thesis
    using walk_plain [of ns fs R n ?tr follow m q] assms(2) by (auto simp: link_free_def split: if_splits)
qed

lemma Mkdir_under:
  assumes "dest_at cwd fs D R" "link_free fs R ns" "ns \<noteq> [] \<or> tr"
    and "Mkdir cwd perm (under D ns tr) fs = (err, fs')"
  shows "confined R fs fs'"
proof (cases "resolve cwd fs False (under D ns tr)")
  case (Inl e)
  with assms(4) show ?thesis by (simp add: Mkdir_def)
next
  case (Inr q)
  then have "q = R @ ns" using resolve_under [OF assms(1,2)] assms(3) by blast
  with Inr assms(4) show ?thesis
    by (auto simp: Mkdir_def confined_update split: if_splits)
qed

lemma parent_prefix_under:
  assumes "plain c"
  shows "parent_prefix (under D (ns @ [c]) tr) = under D ns True"
proof -
  obtain x xs where c: "rev c = x # xs" using assms by (cases "rev c") (auto simp: plain_def)
  then have "x \<in> set c" by (metis list.set_intros(1) set_rev)
  then have x: "x \<noteq> slash" using assms by (auto simp: plain_def)
  have "dropWhile (\<lambda>y. y \<noteq> slash) (rev c @ slash # rest) = slash # rest" for rest
    using assms by (simp add: plain_def dropWhile_append)
  then show ?thesis
    using c x by (cases tr) (simp_all add: parent_prefix_def under_def)
qed

lemma Stat_dest: "dest_at cwd fs D R \<Longrightarrow> \<exists>m. Stat cwd fs (under D [] tr) = Inr (NDir m)"
proof -
  assume d: "dest_at cwd fs D R"
  then obtain n m where w: "walk 40 fs (if IsAbs D then [] else cwd) (Split slash D) True = Inr (n, R)"
      and D: "D \<noteq> []" "fs R = Some (NDir m)" by (auto simp: dest_at_def is_dir_iff)
  have "walk 40 fs (if IsAbs D then [] else cwd) (Split slash D @ (if tr then [[]] else [])) True
      = walk n fs R (if tr then [[]] else []) True"
    by (rule walk_append [OF w]) (simp_all add: D(2))
  moreover have "walk n fs R (if tr then [[]] else []) True = Inr (n, R)" using D(2) by simp
  moreover have "under D [] tr \<noteq> []" using D(1) by (simp add: under_def)
  ultimately have "resolve cwd fs True (under D [] tr) = Inr R"
    using Split_under [of "[]" D tr] by (simp add: resolve_def IsAbs_under [OF D(1)])
  then show ?thesis using D(2) by (simp add: Stat_def lookup_node_def)
qed

lemma MkdirAll_under:
  "dest_at cwd fs D R \<Longrightarrow> link_free fs R ns \<Longrightarrow> MkdirAll cwd perm (under D ns tr) fs = (err, fs') \<Longrightarrow>
   confined R fs fs'"
proof (induction ns arbitrary: tr err fs' rule: rev_induct)
  case Nil
  obtain m where "Stat cwd fs (under D [] tr) = Inr (NDir m)" using Stat_dest [OF Nil(1)] by blast
  with Nil(3) show ?case by (simp add: MkdirAll.simps [of cwd perm "under D [] tr"])
next
  case (snoc c ns)
  have c: "plain c" using snoc.prems(2) by (simp add: link_free_def)
  have ne: "under D ns True \<noteq> []" by (simp add: under_def)
  have ne': "under D (ns @ [c]) tr \<noteq> []" by (simp add: under_def)
  obtain e1 fs1 where rec: "MkdirAll cwd perm (under D ns True) fs = (e1, fs1)" by fastforce
  have c1: "confined R fs fs1"
    by (rule snoc.IH [OF snoc.prems(1) link_free_butlast [OF snoc.prems(2)] rec])
  obtain e2 fs2 where mk: "Mkdir cwd perm (under D (ns @ [c]) tr) fs1 = (e2, fs2)" by fastforce
  have "confined R fs1 fs2"
    using Mkdir_under [OF dest_at_confined [OF snoc.prems(1) c1] link_free_confined [OF snoc.prems(2) c1] _ mk] by simp
  with c1 have c2: "confined R fs fs2" by (rule confined_trans)
  show ?case
    using snoc.prems(3) rec mk c1 c2
    by (simp add: MkdirAll.simps [of cwd perm "under D (ns @ [c]) tr"] parent_prefix_under [OF c] ne ne'
        split: sum.splits node.splits option.splits prod.splits)
qed

lemma WriteFile_under:
  assumes "dest_at cwd fs D R" "link_free fs R ns"
    and "WriteFile cwd perm content (under D ns False) fs = (err, fs')"
  shows "confined R fs fs'" and "err = None \<Longrightarrow> \<not> is_dir (fs' (R @ ns))"
proof -
  have nl: "\<not> is_link (fs (R @ ns))" using assms(2) by (rule link_free_last)
  have "confined R fs fs' \<and> (err = None \<longrightarrow> \<not> is_dir (fs' (R @ ns)))"
  proof (cases "resolve cwd fs True (under D ns False)")
    case (Inl e)
    with assms(3) show ?thesis by (auto simp: WriteFile_def)
  next
    case (Inr q)
    then have q: "q = R @ ns" by (intro resolve_under [OF assms(1,2) _ Inr]) simp
    show ?thesis
      using Inr assms(3) nl unfolding q
      by (auto simp: WriteFile_def confined_update split: option.splits node.splits)
  qed
  then show "confined R fs fs'" and "err = None \<Longrightarrow> \<not> is_dir (fs' (R @ ns))" by simp_all
qed

lemma Chmod_under:
  assumes "dest_at cwd fs D R" "link_free fs R ns" "\<not> is_dir (fs (R @ ns))"
    and "Chmod cwd perm (under D ns False) fs = (err, fs')"
  shows "confined R fs fs'"
proof (cases "resolve cwd fs True (under D ns False)")
  case (Inl e)
  with assms(4) show ?thesis by (simp add: Chmod_def)
next
  case (Inr q)
  then have q: "q = R @ ns" by (intro resolve_under [OF assms(1,2) _ Inr]) simp
  have nl: "\<not> is_link (fs (R @ ns))" using assms(2) by (rule link_free_last)
  show ?thesis
  proof (cases "fs (R @ ns)")
    case None
    with Inr q assms(4) show ?thesis by (simp add: Chmod_def)
  next
    case (Some nd)
    with Inr q assms(3,4) nl confined_update [of fs R ns, OF assms(3) nl] show ?thesis
      by (cases nd) (auto simp: Chmod_def)
  qed
qed

text \<open>Removing what \<^verbatim>\<open>Lstat\<close> showed to be a regular file.\<close>

lemma Remove_under:
  assumes "dest_at cwd fs D R" "link_free fs R ns" "Lstat cwd fs (under D ns False) = Inr (NFile m c)"
    and "Remove cwd (under D ns False) fs = (err, fs')"
  shows "confined R fs fs'"
proof -
  obtain q where q: "resolve cwd fs False (under D ns False) = Inr q" "fs q = Some (NFile m c)"
    using assms(3) by (auto simp: Lstat_def lookup_node_def split: sum.splits option.splits)
  obtain k where "walk 40 fs (if IsAbs (under D ns False) then [] else cwd) (Split slash (under D ns False)) False = Inr (k, q)"
      and ne: "under D ns False \<noteq> []"
    using q(1) by (auto simp: resolve_def split: if_splits sum.splits prod.splits)
  from walk_nofollow [OF this(1)] q(2) ne have "resolve cwd fs True (under D ns False) = Inr q"
    by (simp add: resolve_def)
  then have "q = R @ ns" by (rule resolve_under [OF assms(1,2), rotated]) simp
  then have at: "fs (R @ ns) = Some (NFile m c)" "fs' = fs(R @ ns := None)"
    using q assms(4) by (simp_all add: Remove_def)
  show ?thesis unfolding at(2) by (rule confined_update) (simp_all add: at(1))
qed

lemma resolve_child:
  assumes "dest_at cwd fs D R" "plain n" "\<not> is_link (fs (R @ [n]))"
  shows "resolve cwd fs follow (under D [n] False) = Inr (R @ [n])"
proof -
  obtain k where w: "walk 40 fs (if IsAbs D then [] else cwd) (Split slash D) True = Inr (k, R)"
      and D: "D \<noteq> []" "is_dir (fs R)" using assms(1) by (auto simp: dest_at_def)
  have n: "n \<noteq> []" "n \<noteq> ''.''" "n \<noteq> ''..''" using assms(2) by (auto simp: plain_def)
  have "walk k fs R [n] follow = Inr (k, R @ [n])"
    using D(2) n assms(3) by (auto split: option.split node.split)
  moreover have "under D [n] False \<noteq> []" by (simp add: under_def)
  ultimately show ?thesis
    using walk_append [OF w D(2), of "[n]" follow] Split_under [of "[n]" D False] assms(2)
    by (simp add: resolve_def IsAbs_under [OF D(1)])
qed

section \<open>Well-formed file systems\<close>

definition wf_fs :: "path \<Rightarrow> fsys \<Rightarrow> bool" where
  "wf_fs cwd fs \<longleftrightarrow> is_dir (fs []) \<and> is_dir (fs cwd) \<and> (\<forall>p c. fs (p @ [c]) \<noteq> None \<longrightarrow> is_dir (fs p))"

lemma wf_fs_butlast: "wf_fs cwd fs \<Longrightarrow> fs p \<noteq> None \<Longrightarrow> is_dir (fs (butlast p))"
  by (cases p rule: rev_cases) (auto simp: wf_fs_def)

lemma wf_fs_take: "wf_fs cwd fs \<Longrightarrow> fs (R @ ns) \<noteq> None \<Longrightarrow> k < length ns \<Longrightarrow> is_dir (fs (R @ take k ns))"
proof (induction ns rule: rev_induct)
  case (snoc c ns)
  have "fs ((R @ ns) @ [c]) \<noteq> None" using snoc.prems(2) by simp
  then have dir: "is_dir (fs (R @ ns))" using snoc.prems(1) unfolding wf_fs_def by blast
  then have "fs (R @ ns) \<noteq> None" by (rule is_dir_exists)
  with snoc dir show ?case by (cases "k = length ns") auto
qed simp

lemma walk_absent:
  "walk n fs cur cs follow = Inr (m, q) \<Longrightarrow> fs q = None \<Longrightarrow> wf_fs cwd fs \<Longrightarrow> fs cur \<noteq> None \<Longrightarrow>
   q \<noteq> [] \<and> is_dir (fs (butlast q))"
proof (induction n fs cur cs follow rule: walk.induct)
  case (1 n fs cur follow)
  then show ?case by simp
next
  case (2 n fs cur c cs follow)
  note prems = "2.prems" and IH = "2.IH"
  have dir: "is_dir (fs cur)" using prems(1) by (auto split: if_splits)
  consider "c = [] \<or> c = ''.''" | "c = ''..''" | "c \<noteq> []" "c \<noteq> ''.''" "c \<noteq> ''..''" by blast
  then show ?case
  proof cases
    case 1
    with dir IH(1) prems show ?thesis by auto
  next
    case 2
    have "fs (butlast cur) \<noteq> None" by (rule is_dir_exists [OF wf_fs_butlast [OF prems(3,4)]])
    with 2 dir IH(2) prems show ?thesis by auto
  next
    case 3
    note name = walk_name [of fs cur c, OF dir 3]
    show ?thesis
    proof (cases "fs (cur @ [c])")
      case None
      with name(3) [OF None, of n cs follow] prems(1) have "q = cur @ [c]" by (auto split: if_splits)
      with dir show ?thesis by simp
    next
      case (Some nd)
      show ?thesis
      proof (cases "is_link (Some nd)")
        case True
        then obtain t where t: "nd = NLink t" by (cases nd) auto
        show ?thesis
        proof (cases "cs = [] \<and> \<not> follow")
          case True
          with dir 3 Some t prems(1,2) show ?thesis by auto
        next
          case False
          then have ne: "cs \<noteq> [] \<or> follow" by auto
          obtain k where k: "n = Suc k" "walk k fs (if IsAbs t then [] else cur) (Split slash t @ cs) follow = Inr (m, q)"
            using prems(1) name(2) [OF Some [unfolded t] ne] by (cases n) auto
          have "fs (if IsAbs t then [] else cur) \<noteq> None"
            using prems(3) dir by (intro is_dir_exists) (simp add: wf_fs_def)
          from IH(5) [OF _ _ _ Some t _ k(1) k(2) prems(2,3) this] dir 3 False show ?thesis by simp
        qed
      next
        case False
        have "walk n fs (cur @ [c]) cs follow = Inr (m, q)" using prems(1) name(1) [OF Some False] by simp
        then show ?thesis
          using IH(3,4,6) dir 3 Some False prems(2,3) by (cases nd) auto
      qed
    qed
  qed
qed

lemma resolve_absent:
  assumes "wf_fs cwd fs" "resolve cwd fs follow p = Inr q" "fs q = None"
  shows "q \<noteq> [] \<and> is_dir (fs (butlast q))"
proof -
  obtain m where "walk 40 fs (if IsAbs p then [] else cwd) (Split slash p) follow = Inr (m, q)"
    using assms(2) by (auto simp: resolve_def split: if_splits sum.splits prod.splits)
  moreover have "fs (if IsAbs p then [] else cwd) \<noteq> None"
    using assms(1) by (intro is_dir_exists) (simp add: wf_fs_def)
  ultimately show ?thesis using walk_absent [OF _ assms(3,1)] by blast
qed

lemma wf_fs_update:
  assumes "wf_fs cwd fs" "\<not> is_dir (fs q)" "fs q = None \<Longrightarrow> is_dir (fs (butlast q))"
  shows "wf_fs cwd (fs(q := nd))"
proof -
  have parent: "is_dir (fs (butlast q))" using assms wf_fs_butlast by blast
  have ne: "q \<noteq> []" "q \<noteq> cwd" using assms(1,2) by (auto simp: wf_fs_def)
  have "is_dir ((fs(q := nd)) p)" if "(fs(q := nd)) (p @ [c]) \<noteq> None" for p c
  proof -
    have d: "is_dir (fs p)"
      using that parent assms(1) by (cases "p @ [c] = q") (auto simp: wf_fs_def split: if_splits)
    then have "p \<noteq> q" using assms(2) by auto
    with d show ?thesis by simp
  qed
  with assms(1) ne show ?thesis by (auto simp: wf_fs_def)
qed

lemma Mkdir_wf: "wf_fs cwd fs \<Longrightarrow> Mkdir cwd perm p fs = (err, fs') \<Longrightarrow> wf_fs cwd fs'"
  using resolve_absent [of cwd fs False p] by (auto simp: Mkdir_def intro!: wf_fs_update split: sum.splits if_splits)

lemma WriteFile_wf: "wf_fs cwd fs \<Longrightarrow> WriteFile cwd perm content p fs = (err, fs') \<Longrightarrow> wf_fs cwd fs'"
  using resolve_absent [of cwd fs True p]
  by (auto simp: WriteFile_def intro!: wf_fs_update split: sum.splits option.splits node.splits)

lemma MkdirAll_wf: "wf_fs cwd fs \<Longrightarrow> MkdirAll cwd perm p fs = (err, fs') \<Longrightarrow> wf_fs cwd fs'"
proof (induction cwd perm p fs arbitrary: err fs' rule: MkdirAll.induct)
  case (1 cwd perm p fs)
  obtain e1 fs1 where rec: "(if parent_prefix p \<noteq> [] \<and> p \<noteq> [] then MkdirAll cwd perm (parent_prefix p) fs else (None, fs)) = (e1, fs1)"
    by fastforce
  obtain e2 fs2 where mk: "Mkdir cwd perm p fs1 = (e2, fs2)" by fastforce
  show ?case
  proof (cases "Stat cwd fs p")
    case (Inr nd)
    then show ?thesis using "1.prems" by (cases nd) (simp_all add: MkdirAll.simps [of cwd perm p fs])
  next
    case (Inl e)
    have "wf_fs cwd fs1"
    proof (cases "parent_prefix p \<noteq> [] \<and> p \<noteq> []")
      case True
      with rec have "MkdirAll cwd perm (parent_prefix p) fs = (e1, fs1)" by simp
      from "1.IH" [OF Inl True "1.prems"(1) this] show ?thesis .
    next
      case False
      with rec "1.prems"(1) show ?thesis by auto
    qed
    moreover from this mk have "wf_fs cwd fs2" by (rule Mkdir_wf)
    moreover have "fs' = fs1 \<or> fs' = fs2"
      using "1.prems"(2) Inl rec mk
      by (auto simp: MkdirAll.simps [of cwd perm p fs] split: option.splits sum.splits node.splits)
    ultimately show ?thesis by auto
  qed
qed

lemma Remove_file_wf:
  "wf_fs cwd fs \<Longrightarrow> Lstat cwd fs p = Inr (NFile m c) \<Longrightarrow> Remove cwd p fs = (err, fs') \<Longrightarrow> wf_fs cwd fs'"
  by (auto simp: Remove_def Lstat_def lookup_node_def intro!: wf_fs_update split: sum.splits option.splits)

lemma Chmod_wf: "wf_fs cwd fs \<Longrightarrow> Chmod cwd perm p fs = (err, fs') \<Longrightarrow> wf_fs cwd fs'"
proof -
  assume wf: "wf_fs cwd fs" and ch: "Chmod cwd perm p fs = (err, fs')"
  have dir: "wf_fs cwd (fs(q \<mapsto> NDir perm))" if "fs q = Some (NDir k)" for q k
    using wf that by (auto simp: wf_fs_def)
  have regular: "wf_fs cwd (fs(q := nd))" if "fs q = Some (NFile k c)" for q k c nd
    by (rule wf_fs_update [OF wf]) (simp_all add: that)
  show ?thesis
    using ch wf dir regular by (auto simp: Chmod_def split: sum.splits option.splits node.splits)
qed

end
