(* ===== verification/Archive.thy ===== *)
theory Archive
  imports FileSystem
begin

text \<open>
  \<^verbatim>\<open>src/pkg/archive\<close>: the path checks of \<^verbatim>\<open>extract_safety.go\<close> and the extraction loops of
  \<^verbatim>\<open>tar.go\<close>, \<^verbatim>\<open>zip.go\<close> and \<^verbatim>\<open>gzip.go\<close> over the file system of theory \<open>FileSystem\<close>. The decoders of
  \<^verbatim>\<open>archive/tar\<close>, \<^verbatim>\<open>archive/zip\<close> and \<^verbatim>\<open>compress/gzip\<close> are arguments: a decoded archive is the list
  of its entries, each with the bytes that can be read from it and the read error, if any,
  and, for tar, the error that ends the stream. The files are extracted by one process; a
  concurrent change of the tree between a check and its use is not modelled. Errors of closing
  a file are only logged by the code.
\<close>

datatype archive_error =
    ErrEmptyName | ErrAbsolutePath | ErrPathTraversal | ErrSymlinkInPath | ErrUnsupportedEntry
  | ErrPathValidation | ErrOS errno | ErrRead string | ErrIsDirectory

section \<open>Path checks\<close>

definition ensureDestinationRootSafe :: "path \<Rightarrow> fsys \<Rightarrow> string \<Rightarrow> archive_error option" where
  "ensureDestinationRootSafe cwd fs dest =
     (case Lstat cwd fs dest of
        Inl ENOENT \<Rightarrow> None
      | Inl _ \<Rightarrow> Some ErrPathValidation
      | Inr info \<Rightarrow> if is_link (Some info) then Some ErrSymlinkInPath else None)"

fun scan_parts :: "path \<Rightarrow> fsys \<Rightarrow> string \<Rightarrow> string list \<Rightarrow> archive_error option" where
  "scan_parts cwd fs current [] = None"
| "scan_parts cwd fs current (part # parts) =
     (if part = [] \<or> part = ''.'' then scan_parts cwd fs current parts
      else let current = PathJoin [current, part] in
        case Lstat cwd fs current of
          Inl ENOENT \<Rightarrow> scan_parts cwd fs current parts
        | Inl _ \<Rightarrow> Some ErrPathValidation
        | Inr info \<Rightarrow> if is_link (Some info) then Some ErrSymlinkInPath
                      else scan_parts cwd fs current parts)"

definition ensureNoSymlinkComponent :: "path \<Rightarrow> fsys \<Rightarrow> string \<Rightarrow> string \<Rightarrow> archive_error option" where
  "ensureNoSymlinkComponent cwd fs dest target =
     (case Rel dest target of
        None \<Rightarrow> Some ErrPathValidation
      | Some rel \<Rightarrow> if rel = ''.'' then None else scan_parts cwd fs dest (Split slash rel))"

definition secureExtractPath :: "path \<Rightarrow> fsys \<Rightarrow> string \<Rightarrow> string \<Rightarrow> archive_error + string" where
  "secureExtractPath cwd fs dest entryName =
     (let trimmed = TrimSpace entryName in
      if trimmed = [] \<or> trimmed = ''.'' then Inl ErrEmptyName
      else if CHR 0x00 \<in> set trimmed then Inl ErrPathTraversal
      else let cleanName = Clean trimmed in
        if IsAbs trimmed \<or> IsAbs cleanName then Inl ErrAbsolutePath
        else if cleanName = ''..'' \<or> HasPrefix cleanName (''..'' @ [slash]) then Inl ErrPathTraversal
        else let destClean = Clean dest in
          case ensureDestinationRootSafe cwd fs destClean of
            Some e \<Rightarrow> Inl e
          | None \<Rightarrow>
              (let targetClean = Clean (PathJoin [destClean, cleanName]) in
               if targetClean \<noteq> destClean \<and> \<not> HasPrefix targetClean (destClean @ [slash])
               then Inl ErrPathTraversal
               else case ensureNoSymlinkComponent cwd fs destClean targetClean of
                      Some e \<Rightarrow> Inl e
                    | None \<Rightarrow> Inr targetClean))"

section \<open>Extraction\<close>

text \<open>Modes are written in decimal: \<^verbatim>\<open>0o750\<close> is 488, \<^verbatim>\<open>0o600\<close> is 384 and \<^verbatim>\<open>0o666\<close> is 438.\<close>

definition defaultDirPerm :: nat where
  "defaultDirPerm = 488"

datatype typeflag = TypeReg | TypeDir | TypeSymlink | TypeLink | TypeChar | TypeBlock | TypeFifo | TypeOther nat

text \<open>An entry with the permission bits of its header and what its reader delivers.\<close>

record tar_entry =
  teName :: string
  teType :: typeflag
  tePerm :: nat
  teBody :: string
  teReadError :: "string option"

definition os_err :: "errno option \<times> fsys \<Rightarrow> archive_error option \<times> fsys" where
  "os_err r = (map_option ErrOS (fst r), snd r)"

definition write_tar_file :: "path \<Rightarrow> string \<Rightarrow> tar_entry \<Rightarrow> fsys \<Rightarrow> archive_error option \<times> fsys" where
  "write_tar_file cwd target e fs =
     (case MkdirAll cwd defaultDirPerm (Dir target) fs of
        (Some er, fs1) \<Rightarrow> (Some (ErrOS er), fs1)
      | (None, fs1) \<Rightarrow>
        (let fs2 = (case Lstat cwd fs1 target of Inr (NFile _ _) \<Rightarrow> snd (Remove cwd target fs1) | _ \<Rightarrow> fs1)
         in case WriteFile cwd 384 (teBody e) target fs2 of
              (Some er, fs3) \<Rightarrow> (Some (ErrOS er), fs3)
            | (None, fs3) \<Rightarrow>
              (case teReadError e of
                 Some er \<Rightarrow> (Some (ErrRead er), fs3)
               | None \<Rightarrow> if tePerm e \<noteq> 0 then os_err (Chmod cwd (tePerm e) target fs3) else (None, fs3))))"

definition untar_entry :: "path \<Rightarrow> string \<Rightarrow> tar_entry \<Rightarrow> fsys \<Rightarrow> archive_error option \<times> fsys" where
  "untar_entry cwd dest e fs =
     (case secureExtractPath cwd fs dest (teName e) of
        Inl er \<Rightarrow> (Some er, fs)
      | Inr target \<Rightarrow>
        (case teType e of
           TypeDir \<Rightarrow> os_err (MkdirAll cwd (if tePerm e = 0 then defaultDirPerm else tePerm e) target fs)
         | TypeReg \<Rightarrow> write_tar_file cwd target e fs
         | _ \<Rightarrow> (Some ErrUnsupportedEntry, fs)))"

text \<open>The loop over the entries; \<open>step\<close> extracts one of them, an error ends the loop.\<close>

fun extract_all :: "('e \<Rightarrow> fsys \<Rightarrow> archive_error option \<times> fsys) \<Rightarrow> 'e list \<Rightarrow> fsys \<Rightarrow> archive_error option \<times> fsys" where
  "extract_all step [] fs = (None, fs)"
| "extract_all step (e # es) fs =
     (case step e fs of (Some er, fs1) \<Rightarrow> (Some er, fs1) | (None, fs1) \<Rightarrow> extract_all step es fs1)"

definition UntarGz ::
  "(string \<Rightarrow> string + tar_entry list \<times> string option) \<Rightarrow> path \<Rightarrow> string \<Rightarrow> string \<Rightarrow> fsys \<Rightarrow>
   archive_error option \<times> fsys" where
  "UntarGz decode cwd tarGzFile dest fs =
     (case Stat cwd fs tarGzFile of
        Inl e \<Rightarrow> (Some (ErrOS e), fs)
      | Inr (NFile _ content) \<Rightarrow>
        (case decode content of
           Inl e \<Rightarrow> (Some (ErrRead e), fs)
         | Inr (entries, last_err) \<Rightarrow>
           (case extract_all (untar_entry cwd dest) entries fs of
              (Some er, fs1) \<Rightarrow> (Some er, fs1)
            | (None, fs1) \<Rightarrow> (map_option ErrRead last_err, fs1)))
      | Inr _ \<Rightarrow> (Some (ErrOS EISDIR), fs))"

record zip_entry =
  zeName :: string
  zeIsDir :: bool
  zePerm :: nat
  zeOpenError :: "string option"
  zeBody :: string
  zeReadError :: "string option"

text \<open>The file is created and truncated before the entry is opened.\<close>

definition unzip_entry :: "path \<Rightarrow> string \<Rightarrow> zip_entry \<Rightarrow> fsys \<Rightarrow> archive_error option \<times> fsys" where
  "unzip_entry cwd dest f fs =
     (case secureExtractPath cwd fs dest (zeName f) of
        Inl er \<Rightarrow> (Some er, fs)
      | Inr fpath \<Rightarrow>
        if zeIsDir f
        then os_err (MkdirAll cwd (if zePerm f = 0 then defaultDirPerm else zePerm f) fpath fs)
        else case MkdirAll cwd defaultDirPerm (Dir fpath) fs of
               (Some er, fs1) \<Rightarrow> (Some (ErrOS er), fs1)
             | (None, fs1) \<Rightarrow>
               (let mode = (if zePerm f = 0 then 384 else zePerm f);
                    body = (if zeOpenError f = None then zeBody f else [])
                in case WriteFile cwd mode body fpath fs1 of
                     (Some er, fs2) \<Rightarrow> (Some (ErrOS er), fs2)
                   | (None, fs2) \<Rightarrow>
                     (case zeOpenError f of Some er \<Rightarrow> (Some (ErrRead er), fs2)
                      | None \<Rightarrow> (map_option ErrRead (zeReadError f), fs2))))"

definition Unzip :: "(string \<Rightarrow> string + zip_entry list) \<Rightarrow> path \<Rightarrow> string \<Rightarrow> string \<Rightarrow> fsys \<Rightarrow>
  archive_error option \<times> fsys" where
  "Unzip decode cwd zipFile dest fs =
     (case Stat cwd fs zipFile of
        Inl e \<Rightarrow> (Some (ErrOS e), fs)
      | Inr (NFile _ content) \<Rightarrow>
        (case decode content of
           Inl e \<Rightarrow> (Some (ErrRead e), fs)
         | Inr entries \<Rightarrow> extract_all (unzip_entry cwd dest) entries fs)
      | Inr _ \<Rightarrow> (Some (ErrOS EISDIR), fs))"

section \<open>Single files\<close>

text \<open>\<open>encode name perm content\<close> is the archive \<^verbatim>\<open>archive/tar\<close> and \<^verbatim>\<open>compress/gzip\<close> write for one entry;
  it is written when the writers are closed. Write errors are not modelled.\<close>

definition TarGzSingleFile ::
  "(string \<Rightarrow> nat \<Rightarrow> string \<Rightarrow> string) \<Rightarrow> path \<Rightarrow> string \<Rightarrow> string \<Rightarrow> fsys \<Rightarrow> archive_error option \<times> fsys" where
  "TarGzSingleFile encode cwd srcFile dstArchive fs =
     (case Stat cwd fs srcFile of
        Inl e \<Rightarrow> (Some (ErrOS e), fs)
      | Inr (NDir _) \<Rightarrow> (Some ErrIsDirectory, fs)
      | Inr (NFile perm content) \<Rightarrow>
          os_err (WriteFile cwd 438 (encode (Base srcFile) perm content) dstArchive fs)
      | Inr _ \<Rightarrow> (Some (ErrOS EISDIR), fs))"

definition GzipFile :: "(string \<Rightarrow> string \<Rightarrow> string) \<Rightarrow> path \<Rightarrow> string \<Rightarrow> string \<Rightarrow> fsys \<Rightarrow> archive_error option \<times> fsys" where
  "GzipFile gzip cwd src dst fs =
     (case Stat cwd fs src of
        Inl e \<Rightarrow> (Some (ErrOS e), fs)
      | Inr (NFile _ content) \<Rightarrow> os_err (WriteFile cwd 438 (gzip (Base src) content) dst fs)
      | Inr _ \<Rightarrow> (Some (ErrOS EISDIR), fs))"

text \<open>\<open>gunzip\<close> gives the error of the header, or the bytes read and the error that ends them.\<close>

definition GunzipFile :: "(string \<Rightarrow> string + string \<times> string option) \<Rightarrow> path \<Rightarrow> string \<Rightarrow> string \<Rightarrow> fsys \<Rightarrow>
  archive_error option \<times> fsys" where
  "GunzipFile gunzip cwd src dst fs =
     (case Stat cwd fs src of
        Inl e \<Rightarrow> (Some (ErrOS e), fs)
      | Inr (NFile _ content) \<Rightarrow>
        (case gunzip content of
           Inl e \<Rightarrow> (Some (ErrRead e), fs)
         | Inr (plain_text, er) \<Rightarrow>
           (case WriteFile cwd 438 plain_text dst fs of
              (Some e, fs1) \<Rightarrow> (Some (ErrOS e), fs1)
            | (None, fs1) \<Rightarrow> (map_option ErrRead er, fs1)))
      | Inr _ \<Rightarrow> (Some (ErrOS EISDIR), fs))"

definition to_lower_char :: "char \<Rightarrow> char" where
  "to_lower_char c = (if CHR ''A'' \<le> c \<and> c \<le> CHR ''Z'' then char_of (of_char c + 32 :: nat) else c)"

definition IsAlreadyCompressed :: "string \<Rightarrow> bool" where
  "IsAlreadyCompressed p = (let lower = map to_lower_char p in
     list_ex (HasSuffix lower) [''.gz'', ''.tgz'', ''.zip'', ''.bz2'', ''.xz'', ''.zst'', ''.tar''])"

definition IsGzipCompressed :: "path \<Rightarrow> fsys \<Rightarrow> string \<Rightarrow> errno + bool" where
  "IsGzipCompressed cwd fs p = (case Stat cwd fs p of
     Inl e \<Rightarrow> Inl e
   | Inr (NFile _ content) \<Rightarrow> Inr (take 2 content = [CHR 0x1F, CHR 0x8B])
   | Inr _ \<Rightarrow> Inr False)"

section \<open>What the path check guarantees\<close>

lemma unparse_no_dots:
  assumes "good_comps False cs" "unparse False cs \<noteq> ''..''" "\<not> HasPrefix (unparse False cs) (''..'' @ [slash])"
  shows "list_all plain cs"
proof -
  obtain n cs' where cs: "cs = replicate n ''..'' @ cs'" "list_all plain cs'"
    using assms(1) by (auto simp: good_comps_def)
  have "n = 0"
  proof (cases n)
    case (Suc m)
    let ?rest = "replicate m ''..'' @ cs'"
    have "unparse False cs = (if ?rest = [] then ''..'' else ''..'' @ [slash] @ Join [slash] ?rest)"
      using cs(1) Suc by (auto simp: unparse_def Join_Cons)
    then show ?thesis using assms(2,3) by (auto split: if_splits)
  qed
  with cs show ?thesis by simp
qed

text \<open>The parts that the scan sees are the names below the destination.\<close>

definition checked :: "path \<Rightarrow> fsys \<Rightarrow> string \<Rightarrow> bool" where
  "checked cwd fs p \<longleftrightarrow> Lstat cwd fs p = Inl ENOENT \<or> (\<exists>nd. Lstat cwd fs p = Inr nd \<and> \<not> is_link (Some nd))"

lemma scan_parts_checked:
  "good_comps r ds \<Longrightarrow> list_all plain ns \<Longrightarrow> scan_parts cwd fs (unparse r ds) ns = None \<Longrightarrow>
   \<forall>k. 0 < k \<and> k \<le> length ns \<longrightarrow> checked cwd fs (unparse r (ds @ take k ns))"
proof (induction ns arbitrary: ds)
  case Nil
  then show ?case by simp
next
  case (Cons c ns)
  have c: "plain c" "c \<noteq> []" "c \<noteq> ''.''" using Cons.prems(2) by (auto simp: plain_def)
  have join: "PathJoin [unparse r ds, c] = unparse r (ds @ [c])"
    using PathJoin_plain [OF Cons.prems(1), of "[c]"] c(1) by (simp add: unparse_def)
  have good: "good_comps r (ds @ [c])" using good_comps_append [OF Cons.prems(1), of "[c]"] c(1) by simp
  have head: "checked cwd fs (unparse r (ds @ [c]))"
    and rest: "scan_parts cwd fs (unparse r (ds @ [c])) ns = None"
    using Cons.prems(3) c(2,3) join
    by (auto simp: checked_def Let_def split: sum.splits errno.splits if_splits)
  have IH: "\<forall>k. 0 < k \<and> k \<le> length ns \<longrightarrow> checked cwd fs (unparse r ((ds @ [c]) @ take k ns))"
    using Cons.IH [OF good _ rest] Cons.prems(2) by simp
  show ?case
  proof (intro allI impI)
    fix k assume "0 < k \<and> k \<le> length (c # ns)"
    then show "checked cwd fs (unparse r (ds @ take k (c # ns)))"
      using head IH by (cases k; cases "k = 1") auto
  qed
qed

text \<open>The names below the destination that an entry of the archive stands for.\<close>

definition entry_names :: "string \<Rightarrow> string list" where
  "entry_names name = comps (TrimSpace name)"

lemma secureExtractPath_ok:
  fixes name
  defines "ns \<equiv> entry_names name"
  assumes "secureExtractPath cwd fs dest name = Inr target"
  shows "list_all plain ns \<and> target = unparse (IsAbs dest) (comps dest @ ns) \<and>
     (ns \<noteq> [] \<longrightarrow> comps dest \<noteq> []) \<and>
     (\<forall>k. 0 < k \<and> k \<le> length ns \<longrightarrow> checked cwd fs (unparse (IsAbs dest) (comps dest @ take k ns)))"
proof -
  note assms = assms(2)
  let ?t = "TrimSpace name" and ?r = "IsAbs dest" and ?ds = "comps dest"
  let ?ns = "comps ?t"
  note good = good_comps_comps [of dest]
  have abs: "\<not> IsAbs ?t" and dots: "Clean ?t \<noteq> ''..''" "\<not> HasPrefix (Clean ?t) (''..'' @ [slash])"
    using assms by (auto simp: secureExtractPath_def Let_def split: if_splits)
  have name: "Clean ?t = unparse False ?ns" using abs by (simp add: Clean_def)
  have plain: "list_all plain ?ns"
    using unparse_no_dots [of ?ns] good_comps_comps [of ?t] abs dots name by simp
  have destC: "Clean dest = unparse ?r ?ds" by (simp add: Clean_def)
  have target: "Clean (PathJoin [Clean dest, Clean ?t]) = unparse ?r (?ds @ ?ns)"
    using PathJoin_plain [OF good plain] Clean_unparse [OF good_comps_append [OF good plain]] destC name by simp
  have inside: "target = unparse ?r (?ds @ ?ns)" "ensureNoSymlinkComponent cwd fs (unparse ?r ?ds) target = None"
    and pre: "unparse ?r (?ds @ ?ns) = unparse ?r ?ds \<or> HasPrefix (unparse ?r (?ds @ ?ns)) (unparse ?r ?ds @ [slash])"
    using assms target destC
    by (auto simp: secureExtractPath_def Let_def split: if_splits option.splits)
  have ds: "?ds \<noteq> []" if ne: "?ns \<noteq> []"
  proof
    assume empty: "?ds = []"
    obtain c cs where c: "?ns = c # cs" using ne by (cases ?ns) auto
    then have "c \<noteq> []" "c \<noteq> ''.''" "slash \<notin> set c" using plain by (auto simp: plain_def)
    moreover obtain x xs where x: "c = x # xs" using \<open>c \<noteq> []\<close> by (cases c) auto
    ultimately show False
      using pre empty c by (cases ?r; cases xs; cases cs) (auto simp: unparse_def)
  qed
  have "\<forall>k. 0 < k \<and> k \<le> length ?ns \<longrightarrow> checked cwd fs (unparse ?r (?ds @ take k ?ns))"
  proof (cases "?ns = []")
    case False
    have "Rel (unparse ?r ?ds) target = Some (Join [slash] ?ns)"
      using Rel_plain [OF good plain] inside(1) False by simp
    moreover have "Split slash (Join [slash] ?ns) = ?ns"
      using plain False by (simp add: Split_Join list_all_iff plain_def)
    moreover have "Join [slash] ?ns \<noteq> ''.''"
    proof
      assume "Join [slash] ?ns = ''.''"
      then have "?ns = [''.'']" using \<open>Split slash (Join [slash] ?ns) = ?ns\<close> by simp
      with plain show False by (simp add: plain_def)
    qed
    ultimately have "scan_parts cwd fs (unparse ?r ?ds) ?ns = None"
      using inside(2) by (simp add: ensureNoSymlinkComponent_def)
    then show ?thesis by (rule scan_parts_checked [OF good plain])
  qed simp
  with plain inside(1) ds show ?thesis by (simp add: ns_def entry_names_def)
qed

section \<open>Confinement\<close>

lemma walk_dirs:
  "list_all plain ns \<Longrightarrow> ns \<noteq> [] \<Longrightarrow> (\<And>k. k < length ns \<Longrightarrow> is_dir (fs (R @ take k ns))) \<Longrightarrow>
   walk n fs R ns False = Inr (n, R @ ns)"
proof (induction ns arbitrary: R)
  case (Cons c ns)
  have dir: "is_dir (fs R)" using Cons.prems(3) [of 0] by simp
  have c: "c \<noteq> []" "c \<noteq> ''.''" "c \<noteq> ''..''" using Cons.prems(1) by (auto simp: plain_def)
  show ?case
  proof (cases "ns = []")
    case True
    then show ?thesis using dir c by (auto split: option.split node.split)
  next
    case False
    have sub: "is_dir (fs ((R @ [c]) @ take k ns))" if "k < length ns" for k
      using Cons.prems(3) [of "Suc k"] that by simp
    obtain m where "fs (R @ [c]) = Some (NDir m)" using sub [of 0] False by (auto simp: is_dir_iff)
    then show ?thesis
      using walk_name(1) [of fs R c, OF dir c] Cons.IH [OF _ False sub] Cons.prems(1) by simp
  qed
qed simp

lemma Clean_nonempty [simp]: "Clean p \<noteq> []"
  by (simp add: Clean_def good_comps_comps)

lemma extract_target:
  assumes "secureExtractPath cwd fs dest name = Inr target" "wf_fs cwd fs" "dest_at cwd fs (Clean dest) R"
  shows "link_free fs R (entry_names name) \<and> target = under (Clean dest) (entry_names name) False \<and>
     (entry_names name = [] \<or> Dir target = under (Clean dest) (butlast (entry_names name)) False)"
proof -
  define ns where "ns = entry_names name"
  let ?r = "IsAbs dest" and ?ds = "comps dest" and ?D = "Clean dest"
  have D: "?D = unparse ?r ?ds" by (simp add: Clean_def)
  have ns: "list_all plain ns" "target = unparse ?r (?ds @ ns)" "ns \<noteq> [] \<longrightarrow> ?ds \<noteq> []"
      "\<And>k. 0 < k \<Longrightarrow> k \<le> length ns \<Longrightarrow> checked cwd fs (unparse ?r (?ds @ take k ns))"
    using secureExtractPath_ok [OF assms(1)] by (simp_all add: ns_def)
  have at: "unparse ?r (?ds @ ms) = under ?D ms False" if "ms \<noteq> [] \<longrightarrow> ?ds \<noteq> []" for ms
    using that unparse_append [of ?ds ?r ms] by (cases "ms = []") (auto simp: D under_def)
  have nolink: "\<not> is_link (fs (R @ take k ns))" if "k \<le> length ns" for k
  proof
    assume "is_link (fs (R @ take k ns))"
    then obtain t where t: "fs (R @ take k ns) = Some (NLink t)" by (auto simp: is_link_iff)
    have k: "0 < k" using t assms(3) by (cases k) (auto simp: dest_at_def)
    let ?ms = "take k ns"
    have ms: "list_all plain ?ms" "?ms \<noteq> []" "length ?ms = k"
      using ns(1) k that by (auto simp: list_all_iff dest: in_set_takeD)
    have dirs: "is_dir (fs (R @ take j ?ms))" if "j < length ?ms" for j
      using wf_fs_take [OF assms(2) _ that] t by blast
    obtain n where w: "walk 40 fs (if IsAbs ?D then [] else cwd) (Split slash ?D) True = Inr (n, R)"
      and R: "is_dir (fs R)" using assms(3) by (auto simp: dest_at_def)
    have "walk 40 fs (if IsAbs ?D then [] else cwd) (Split slash ?D @ ?ms) False = Inr (n, R @ ?ms)"
      using walk_append [OF w R, of ?ms False] walk_dirs [of ?ms fs R n, OF ms(1,2)] dirs ms(2) by simp
    moreover have "under ?D ?ms False \<noteq> []" by (simp add: under_def)
    ultimately have "Lstat cwd fs (under ?D ?ms False) = Inr (NLink t)"
      using t Split_under [OF ms(1), of ?D False]
      by (simp add: Lstat_def lookup_node_def resolve_def IsAbs_under)
    with ns(4) [OF k that] at [of ?ms] ns(3) ms(2) show False by (auto simp: checked_def)
  qed
  have "Dir target = under ?D (butlast ns) False" if ne: "ns \<noteq> []"
  proof -
    have "?ds @ ns = (?ds @ butlast ns) @ [last ns]" using ne by simp
    moreover have "good_comps ?r (?ds @ ns)" using good_comps_append [OF good_comps_comps ns(1)] .
    ultimately have "Dir target = unparse ?r (?ds @ butlast ns)"
      using Dir_unparse [of ?r "?ds @ butlast ns" "last ns"] ns(2) by simp
    with at [of "butlast ns"] ns(3) ne show ?thesis by simp
  qed
  with nolink ns at [of ns] show ?thesis by (auto simp: link_free_def simp flip: ns_def)
qed

lemma Stat_Dir_dest:
  assumes "wf_fs cwd fs" "dest_at cwd fs (Clean dest) R"
  shows "\<exists>m. Stat cwd fs (Dir (Clean dest)) = Inr (NDir m)"
proof -
  let ?r = "IsAbs dest" and ?ds = "comps dest"
  have D: "Clean dest = unparse ?r ?ds" by (simp add: Clean_def)
  note good = good_comps_comps [of dest]
  have stat: "\<exists>m. Stat cwd fs p = Inr (NDir m)"
    if "p \<noteq> []" "walk 40 fs (if IsAbs p then [] else cwd) (Split slash p) True = Inr (n, q)" "is_dir (fs q)" for p n q
    using that by (auto simp: Stat_def lookup_node_def resolve_def is_dir_iff)
  have dirs: "is_dir (fs [])" "is_dir (fs cwd)" using assms(1) by (auto simp: wf_fs_def)
  show ?thesis
  proof (cases ?ds rule: rev_cases)
    case Nil
    have "Dir (unparse ?r []) = (if ?r then [slash] else ''.'')"
      by (simp add: Dir_def unparse_def Clean_def comps_def IsAbs_def clean_comps_def clean_step_def)
    with D Nil dirs show ?thesis
      by (auto simp: IsAbs_def intro!: stat [where q = "if IsAbs dest then [] else cwd"])
  next
    case (snoc cs c)
    have gcs: "good_comps ?r (cs @ [c])" using good snoc by simp
    have c: "c \<noteq> []" "slash \<notin> set c" using good_comps_no_slash [OF gcs, of c] by simp_all
    have nos: "\<forall>w \<in> set (cs @ [c]). slash \<notin> set w" using good_comps_no_slash [OF gcs] by blast
    have dir: "Dir (Clean dest) = unparse ?r cs" using Dir_unparse [OF gcs] D snoc by simp
    let ?pre = "if ?r then [[]] else [] :: string list"
    have split: "Split slash (Clean dest) = (?pre @ cs) @ [c]"
      using Split_Join [of "cs @ [c]" slash] nos D snoc by (auto simp: unparse_def)
    obtain n where "walk 40 fs (if ?r then [] else cwd) ((?pre @ cs) @ [c]) True = Inr (n, R)"
      using assms(2) split by (auto simp: dest_at_def)
    from walk_prefix_dir [OF this c(1)] obtain m p
      where w: "walk 40 fs (if ?r then [] else cwd) (?pre @ cs) True = Inr (m, p)" "is_dir (fs p)" by blast
    show ?thesis
    proof (cases "cs = []")
      case True
      with dirs show ?thesis unfolding dir
        by (auto simp: unparse_def IsAbs_def intro!: stat [where q = "if IsAbs dest then [] else cwd"])
    next
      case False
      have gc: "good_comps ?r cs" by (rule good_comps_butlast [OF gcs])
      have "Split slash (unparse ?r cs) = ?pre @ cs"
        using Split_Join [of cs slash] nos False by (auto simp: unparse_def)
      then show ?thesis
        unfolding dir using w comps_unparse(1) [OF gc] unparse_nonempty [OF gc] by (intro stat) simp_all
    qed
  qed
qed

lemma MkdirAll_parent:
  assumes "secureExtractPath cwd fs dest name = Inr target" "wf_fs cwd fs" "dest_at cwd fs (Clean dest) R"
    and "MkdirAll cwd perm (Dir target) fs = (err, fs')"
  shows "confined R fs fs'"
proof -
  obtain ns where ns: "link_free fs R ns" "target = under (Clean dest) ns False"
      "ns = [] \<or> Dir target = under (Clean dest) (butlast ns) False"
    using extract_target [OF assms(1-3)] by blast
  show ?thesis
  proof (cases "ns = []")
    case True
    then have "target = Clean dest" using ns(2) by (simp add: under_def)
    then obtain m where "Stat cwd fs (Dir target) = Inr (NDir m)" using Stat_Dir_dest [OF assms(2,3)] by blast
    with assms(4) show ?thesis by (simp add: MkdirAll.simps [of cwd perm "Dir target"])
  next
    case False
    have "link_free fs R (butlast ns)"
      using link_free_butlast [of fs R "butlast ns" "last ns"] ns(1) False by simp
    from MkdirAll_under [OF assms(3) this] assms(4) ns(3) False show ?thesis by simp
  qed
qed

text \<open>Where the bytes of a file come from: it was there before with the same bytes, or \<open>B\<close> allows them.\<close>

definition files_from :: "(path \<Rightarrow> string \<Rightarrow> bool) \<Rightarrow> fsys \<Rightarrow> fsys \<Rightarrow> bool" where
  "files_from B fs fs' \<longleftrightarrow> (\<forall>q. case fs' q of Some (NFile m b) \<Rightarrow> B q b \<or> (\<exists>m0. fs q = Some (NFile m0 b))
     | Some NOther \<Rightarrow> fs q = Some NOther | _ \<Rightarrow> True)"

lemma files_from_refl [simp]: "files_from B fs fs"
  by (auto simp: files_from_def split: option.split node.split)

lemma files_from_trans: "files_from B fs fs1 \<Longrightarrow> files_from B fs1 fs2 \<Longrightarrow> files_from B fs fs2"
proof -
  assume 1: "files_from B fs fs1" and 2: "files_from B fs1 fs2"
  have "case fs2 q of Some (NFile m b) \<Rightarrow> B q b \<or> (\<exists>m0. fs q = Some (NFile m0 b))
     | Some NOther \<Rightarrow> fs q = Some NOther | _ \<Rightarrow> True" for q
    using 1 [unfolded files_from_def, rule_format, of q] 2 [unfolded files_from_def, rule_format, of q]
    by (auto split: option.splits node.splits)
  then show ?thesis by (simp add: files_from_def)
qed

lemma files_from_mono: "files_from B fs fs' \<Longrightarrow> (\<And>q b. B q b \<Longrightarrow> B' q b) \<Longrightarrow> files_from B' fs fs'"
proof -
  assume 1: "files_from B fs fs'" and 2: "\<And>q b. B q b \<Longrightarrow> B' q b"
  have "case fs' q of Some (NFile m b) \<Rightarrow> B' q b \<or> (\<exists>m0. fs q = Some (NFile m0 b))
     | Some NOther \<Rightarrow> fs q = Some NOther | _ \<Rightarrow> True" for q
    using 1 [unfolded files_from_def, rule_format, of q] 2 [of q] by (auto split: option.splits node.splits)
  then show ?thesis by (simp add: files_from_def)
qed

lemma files_from_update:
  "(case nd of Some (NFile m b) \<Rightarrow> B q b \<or> (\<exists>m0. fs q = Some (NFile m0 b)) | Some NOther \<Rightarrow> False | _ \<Rightarrow> True) \<Longrightarrow> files_from B fs (fs(q := nd))"
  by (auto simp: files_from_def split: option.splits node.splits)

lemma Mkdir_files: "Mkdir cwd perm p fs = (err, fs') \<Longrightarrow> files_from B fs fs'"
  by (auto simp: Mkdir_def intro!: files_from_update split: sum.splits if_splits)

lemma MkdirAll_files: "MkdirAll cwd perm p fs = (err, fs') \<Longrightarrow> files_from B fs fs'"
proof (induction cwd perm p fs arbitrary: err fs' rule: MkdirAll.induct)
  case (1 cwd perm p fs)
  obtain e1 fs1 where rec: "(if parent_prefix p \<noteq> [] \<and> p \<noteq> [] then MkdirAll cwd perm (parent_prefix p) fs else (None, fs)) = (e1, fs1)"
    by fastforce
  obtain e2 fs2 where mk: "Mkdir cwd perm p fs1 = (e2, fs2)" by fastforce
  show ?case
  proof (cases "Stat cwd fs p")
    case (Inr nd)
    then show ?thesis using "1.prems" by (cases nd) (simp_all add: MkdirAll.simps [of cwd perm p fs])
  next
    case (Inl e)
    have "files_from B fs fs1"
    proof (cases "parent_prefix p \<noteq> [] \<and> p \<noteq> []")
      case True
      with rec have "MkdirAll cwd perm (parent_prefix p) fs = (e1, fs1)" by simp
      from "1.IH" [OF Inl True this] show ?thesis .
    next
      case False
      with rec show ?thesis by auto
    qed
    moreover have "files_from B fs1 fs2" by (rule Mkdir_files [OF mk])
    moreover have "fs' = fs1 \<or> fs' = fs2"
      using "1.prems" Inl rec mk
      by (auto simp: MkdirAll.simps [of cwd perm p fs] split: option.splits sum.splits node.splits)
    ultimately show ?thesis using files_from_trans by blast
  qed
qed

lemma Remove_files: "Remove cwd p fs = (err, fs') \<Longrightarrow> files_from B fs fs'"
  by (auto simp: Remove_def intro!: files_from_update split: sum.splits if_splits option.splits node.splits)

lemma Chmod_files: "Chmod cwd perm p fs = (err, fs') \<Longrightarrow> files_from B fs fs'"
  by (auto simp: Chmod_def intro!: files_from_update split: sum.splits if_splits option.splits node.splits)

lemma WriteFile_files:
  assumes "WriteFile cwd perm content p fs = (err, fs')" "\<And>q. resolve cwd fs True p = Inr q \<Longrightarrow> B q content"
  shows "files_from B fs fs'"
  using assms by (auto simp: WriteFile_def intro!: files_from_update split: sum.splits if_splits option.splits node.splits)

lemma write_tar_file_confined:
  assumes "secureExtractPath cwd fs dest name = Inr target" "wf_fs cwd fs" "dest_at cwd fs (Clean dest) R"
    and "write_tar_file cwd target e fs = (err, fs')"
  shows "confined R fs fs' \<and> wf_fs cwd fs'" and "files_from (\<lambda>q b. q = R @ entry_names name \<and> b = teBody e) fs fs'"
proof -
  define ns where "ns = entry_names name"
  have ns: "link_free fs R ns" "target = under (Clean dest) ns False"
    using extract_target [OF assms(1-3)] by (simp_all add: ns_def)
  let ?B = "\<lambda>q b. q = R @ ns \<and> b = teBody e"
  obtain e1 fs1 where mk: "MkdirAll cwd defaultDirPerm (Dir target) fs = (e1, fs1)" by fastforce
  note c1 = MkdirAll_parent [OF assms(1-3) mk] and w1 = MkdirAll_wf [OF assms(2) mk]
  define fs2 where "fs2 = (case Lstat cwd fs1 target of Inr (NFile _ _) \<Rightarrow> snd (Remove cwd target fs1) | _ \<Rightarrow> fs1)"
  note d1 = dest_at_confined [OF assms(3) c1] and l1 = link_free_confined [OF ns(1) c1]
  have "confined R fs1 fs2 \<and> wf_fs cwd fs2"
  proof (cases "\<exists>m c. Lstat cwd fs1 target = Inr (NFile m c)")
    case True
    then obtain m c where st: "Lstat cwd fs1 target = Inr (NFile m c)" by blast
    obtain er fs2' where rm: "Remove cwd target fs1 = (er, fs2')" by fastforce
    from Remove_under [OF d1 l1] Remove_file_wf [OF w1 st rm] st rm ns(2) show ?thesis by (simp add: fs2_def)
  next
    case False
    then have "fs2 = fs1" by (auto simp: fs2_def split: sum.splits node.splits)
    with w1 show ?thesis by simp
  qed
  then have c2: "confined R fs fs2" and w2: "wf_fs cwd fs2" using confined_trans [OF c1] by auto
  have f2: "files_from ?B fs fs2"
    unfolding fs2_def using MkdirAll_files [OF mk, of ?B] files_from_trans [OF MkdirAll_files [OF mk] Remove_files [OF prod.collapse [symmetric]]]
    by (auto split: sum.split node.split)
  note d2 = dest_at_confined [OF assms(3) c2] and l2 = link_free_confined [OF ns(1) c2]
  obtain e3 fs3 where wr: "WriteFile cwd 384 (teBody e) target fs2 = (e3, fs3)" by fastforce
  note wr' = WriteFile_under [OF d2 l2 wr [unfolded ns(2)]]
  have f3: "files_from ?B fs fs3"
    using WriteFile_files [OF wr, of ?B] resolve_under [OF d2 l2, of False True] ns(2) by (intro files_from_trans [OF f2]) simp
  have c3: "confined R fs fs3" and w3: "wf_fs cwd fs3"
    using confined_trans [OF c2 wr'(1)] WriteFile_wf [OF w2 wr] by auto
  note d3 = dest_at_confined [OF assms(3) c3] and l3 = link_free_confined [OF ns(1) c3]
  obtain e4 fs4 where ch: "Chmod cwd (tePerm e) target fs3 = (e4, fs4)" by fastforce
  have c4: "confined R fs fs4 \<and> wf_fs cwd fs4" if "e3 = None"
    using confined_trans [OF c3 Chmod_under [OF d3 l3 wr'(2) [OF that] ch [unfolded ns(2)]]] Chmod_wf [OF w3 ch] by simp
  show "confined R fs fs' \<and> wf_fs cwd fs'"
    using assms(4) mk wr ch c1 w1 c3 w3 c4
    by (auto simp: write_tar_file_def fs2_def [symmetric] os_err_def split: option.splits if_splits)
  show "files_from (\<lambda>q b. q = R @ entry_names name \<and> b = teBody e) fs fs'"
    using assms(4) mk wr ch MkdirAll_files [OF mk, of ?B] f3 files_from_trans [OF f3 Chmod_files [OF ch]]
    by (auto simp: write_tar_file_def fs2_def [symmetric] os_err_def simp flip: ns_def split: option.splits if_splits)
qed

lemma untar_entry_confined:
  assumes "wf_fs cwd fs" "dest_at cwd fs (Clean dest) R" "untar_entry cwd dest e fs = (err, fs')"
  shows "confined R fs fs' \<and> wf_fs cwd fs'"
proof (cases "secureExtractPath cwd fs dest (teName e)")
  case (Inl er)
  with assms show ?thesis by (simp add: untar_entry_def)
next
  case (Inr target)
  obtain ns where ns: "link_free fs R ns" "target = under (Clean dest) ns False"
    using extract_target [OF Inr assms(1,2)] by blast
  let ?mode = "if tePerm e = 0 then defaultDirPerm else tePerm e"
  obtain e1 fs1 where mk: "MkdirAll cwd ?mode target fs = (e1, fs1)" by fastforce
  have c1: "confined R fs fs1 \<and> wf_fs cwd fs1"
    using MkdirAll_under [OF assms(2) ns(1) mk [unfolded ns(2)]] MkdirAll_wf [OF assms(1) mk] by simp
  obtain e2 fs2 where wr: "write_tar_file cwd target e fs = (e2, fs2)" by fastforce
  note c2 = write_tar_file_confined(1) [OF Inr assms(1,2) wr]
  show ?thesis
    using assms(1,3) Inr mk wr c1 c2 by (cases "teType e") (auto simp: untar_entry_def os_err_def)
qed

lemma unzip_entry_confined:
  assumes "wf_fs cwd fs" "dest_at cwd fs (Clean dest) R" "unzip_entry cwd dest f fs = (err, fs')"
  shows "confined R fs fs' \<and> wf_fs cwd fs'"
proof (cases "secureExtractPath cwd fs dest (zeName f)")
  case (Inl er)
  with assms show ?thesis by (simp add: unzip_entry_def)
next
  case (Inr target)
  obtain ns where ns: "link_free fs R ns" "target = under (Clean dest) ns False"
    using extract_target [OF Inr assms(1,2)] by blast
  let ?mode = "if zePerm f = 0 then defaultDirPerm else zePerm f"
  obtain e1 fs1 where mk: "MkdirAll cwd ?mode target fs = (e1, fs1)" by fastforce
  have c1: "confined R fs fs1 \<and> wf_fs cwd fs1"
    using MkdirAll_under [OF assms(2) ns(1) mk [unfolded ns(2)]] MkdirAll_wf [OF assms(1) mk] by simp
  obtain e2 fs2 where pa: "MkdirAll cwd defaultDirPerm (Dir target) fs = (e2, fs2)" by fastforce
  note c2 = MkdirAll_parent [OF Inr assms(1,2) pa] and w2 = MkdirAll_wf [OF assms(1) pa]
  let ?fm = "if zePerm f = 0 then 384 else zePerm f" and ?body = "if zeOpenError f = None then zeBody f else []"
  obtain e3 fs3 where wr: "WriteFile cwd ?fm ?body target fs2 = (e3, fs3)" by fastforce
  have c3: "confined R fs fs3 \<and> wf_fs cwd fs3"
    using confined_trans [OF c2 WriteFile_under(1) [OF dest_at_confined [OF assms(2) c2]
        link_free_confined [OF ns(1) c2] wr [unfolded ns(2)]]] WriteFile_wf [OF w2 wr] by simp
  show ?thesis
    using assms(1,3) Inr mk pa wr c1 c2 w2 c3
    by (auto simp: unzip_entry_def os_err_def Let_def split: if_splits option.splits)
qed

lemma untar_entry_files:
  assumes "wf_fs cwd fs" "dest_at cwd fs (Clean dest) R" "untar_entry cwd dest e fs = (err, fs')"
  shows "files_from (\<lambda>q b. q = R @ entry_names (teName e) \<and> teType e = TypeReg \<and> b = teBody e) fs fs'"
proof (cases "secureExtractPath cwd fs dest (teName e)")
  case (Inr target)
  let ?mode = "if tePerm e = 0 then defaultDirPerm else tePerm e"
  obtain e1 fs1 where mk: "MkdirAll cwd ?mode target fs = (e1, fs1)" by fastforce
  obtain e2 fs2 where wr: "write_tar_file cwd target e fs = (e2, fs2)" by fastforce
  note f2 = write_tar_file_confined(2) [OF Inr assms(1,2) wr]
  show ?thesis
    using assms(3) Inr mk wr MkdirAll_files [OF mk] f2
    by (cases "teType e") (auto simp: untar_entry_def os_err_def)
qed (use assms in \<open>simp add: untar_entry_def\<close>)

lemma unzip_entry_files:
  assumes "wf_fs cwd fs" "dest_at cwd fs (Clean dest) R" "unzip_entry cwd dest f fs = (None, fs')"
  shows "files_from (\<lambda>q b. q = R @ entry_names (zeName f) \<and> \<not> zeIsDir f \<and> b = zeBody f) fs fs'"
proof -
  let ?B = "\<lambda>q b. q = R @ entry_names (zeName f) \<and> \<not> zeIsDir f \<and> b = zeBody f"
  obtain target where t: "secureExtractPath cwd fs dest (zeName f) = Inr target"
    using assms(3) by (auto simp: unzip_entry_def split: sum.splits)
  note ns = extract_target [OF t assms(1,2)]
  show ?thesis
  proof (cases "zeIsDir f")
    case True
    obtain e1 fs1 where mk: "MkdirAll cwd (if zePerm f = 0 then defaultDirPerm else zePerm f) target fs = (e1, fs1)" by fastforce
    with True t assms(3) MkdirAll_files [OF mk] show ?thesis by (auto simp: unzip_entry_def os_err_def)
  next
    case False
    obtain e2 fs2 where pa: "MkdirAll cwd defaultDirPerm (Dir target) fs = (e2, fs2)" by fastforce
    note c2 = MkdirAll_parent [OF t assms(1,2) pa]
    have d2: "dest_at cwd fs2 (Clean dest) R" and l2: "link_free fs2 R (entry_names (zeName f))"
      using dest_at_confined [OF assms(2) c2] link_free_confined [OF _ c2] ns by auto
    have wr: "WriteFile cwd (if zePerm f = 0 then 384 else zePerm f) (zeBody f) target fs2 = (None, fs')"
      using False t pa assms(3) by (auto simp: unzip_entry_def Let_def split: option.splits prod.splits if_splits)
    have "files_from ?B fs2 fs'"
      using WriteFile_files [OF wr, of ?B] resolve_under [OF d2 l2, of False True] ns False by simp
    then show ?thesis by (rule files_from_trans [OF MkdirAll_files [OF pa]])
  qed
qed

lemma extract_all_confined:
  assumes step: "\<And>e fs err fs'. wf_fs cwd fs \<Longrightarrow> dest_at cwd fs D R \<Longrightarrow> step e fs = (err, fs') \<Longrightarrow>
      confined R fs fs' \<and> wf_fs cwd fs'"
  shows "wf_fs cwd fs \<Longrightarrow> dest_at cwd fs D R \<Longrightarrow> extract_all step es fs = (err, fs') \<Longrightarrow>
    confined R fs fs' \<and> wf_fs cwd fs'"
proof (induction es arbitrary: fs)
  case Nil
  then show ?case by simp
next
  case (Cons e es)
  obtain e1 fs1 where s: "step e fs = (e1, fs1)" by fastforce
  note c1 = step [OF Cons.prems(1,2) s]
  then have d1: "dest_at cwd fs1 D R" using dest_at_confined [OF Cons.prems(2)] by blast
  show ?case
  proof (cases e1)
    case (Some er)
    with Cons.prems(3) s c1 show ?thesis by simp
  next
    case None
    with Cons.prems(3) s have "extract_all step es fs1 = (err, fs')" by simp
    from Cons.IH [OF conjunct2 [OF c1] d1 this] c1 confined_trans show ?thesis by blast
  qed
qed

lemma extract_all_files:
  assumes step: "\<And>e fs err fs'. wf_fs cwd fs \<Longrightarrow> dest_at cwd fs D R \<Longrightarrow> step e fs = (err, fs') \<Longrightarrow>
      confined R fs fs' \<and> wf_fs cwd fs'"
    and wrote: "\<And>e fs fs'. wf_fs cwd fs \<Longrightarrow> dest_at cwd fs D R \<Longrightarrow> step e fs = (None, fs') \<Longrightarrow> files_from (B e) fs fs'"
  shows "wf_fs cwd fs \<Longrightarrow> dest_at cwd fs D R \<Longrightarrow> extract_all step es fs = (None, fs') \<Longrightarrow>
    files_from (\<lambda>q b. \<exists>e \<in> set es. B e q b) fs fs'"
proof (induction es arbitrary: fs)
  case (Cons e es)
  obtain fs1 where s: "step e fs = (None, fs1)" "extract_all step es fs1 = (None, fs')"
    using Cons.prems(3) by (auto split: prod.splits option.splits)
  note c1 = step [OF Cons.prems(1,2) s(1)]
  have d1: "dest_at cwd fs1 D R" using c1 dest_at_confined [OF Cons.prems(2)] by blast
  have "files_from (\<lambda>q b. \<exists>e \<in> set (e # es). B e q b) fs fs1"
    by (rule files_from_mono [OF wrote [OF Cons.prems(1,2) s(1)]]) simp
  moreover have "files_from (\<lambda>q b. \<exists>e \<in> set (e # es). B e q b) fs1 fs'"
    by (rule files_from_mono [OF Cons.IH [OF conjunct2 [OF c1] d1 s(2)]]) auto
  ultimately show ?case by (rule files_from_trans)
qed simp

lemma UntarGz_files:
  assumes "wf_fs cwd fs" "dest_at cwd fs (Clean dest) R" "UntarGz decode cwd file dest fs = (None, fs')"
  shows "\<exists>m c es. Stat cwd fs file = Inr (NFile m c) \<and> decode c = Inr (es, None) \<and>
     files_from (\<lambda>q b. \<exists>e \<in> set es. q = R @ entry_names (teName e) \<and> teType e = TypeReg \<and> b = teBody e) fs fs'"
proof -
  obtain m c es where ok: "Stat cwd fs file = Inr (NFile m c)" "decode c = Inr (es, None)"
      "extract_all (untar_entry cwd dest) es fs = (None, fs')"
    using assms(3) by (auto simp: UntarGz_def split: sum.splits node.splits prod.splits option.splits)
  have "files_from (\<lambda>q b. \<exists>e \<in> set es. q = R @ entry_names (teName e) \<and> teType e = TypeReg \<and> b = teBody e) fs fs'"
    by (rule extract_all_files [OF untar_entry_confined untar_entry_files assms(1,2) ok(3)])
  with ok show ?thesis by blast
qed

lemma Unzip_files:
  assumes "wf_fs cwd fs" "dest_at cwd fs (Clean dest) R" "Unzip decode cwd file dest fs = (None, fs')"
  shows "\<exists>m c es. Stat cwd fs file = Inr (NFile m c) \<and> decode c = Inr es \<and>
     files_from (\<lambda>q b. \<exists>f \<in> set es. q = R @ entry_names (zeName f) \<and> \<not> zeIsDir f \<and> b = zeBody f) fs fs'"
proof -
  obtain m c es where ok: "Stat cwd fs file = Inr (NFile m c)" "decode c = Inr es"
      "extract_all (unzip_entry cwd dest) es fs = (None, fs')"
    using assms(3) by (auto simp: Unzip_def split: sum.splits node.splits prod.splits option.splits)
  have "files_from (\<lambda>q b. \<exists>f \<in> set es. q = R @ entry_names (zeName f) \<and> \<not> zeIsDir f \<and> b = zeBody f) fs fs'"
    by (rule extract_all_files [OF unzip_entry_confined unzip_entry_files assms(1,2) ok(3)])
  with ok show ?thesis by blast
qed

lemma UntarGz_confined:
  assumes "wf_fs cwd fs" "dest_at cwd fs (Clean dest) R" "UntarGz decode cwd file dest fs = (err, fs')"
  shows "confined R fs fs' \<and> wf_fs cwd fs'"
proof -
  have "confined R fs fs1 \<and> wf_fs cwd fs1" if "extract_all (untar_entry cwd dest) es fs = (e1, fs1)" for es e1 fs1
    using extract_all_confined [OF untar_entry_confined assms(1,2) that] .
  with assms show ?thesis
    by (auto simp: UntarGz_def split: sum.splits node.splits prod.splits option.splits)
qed

lemma Unzip_confined:
  assumes "wf_fs cwd fs" "dest_at cwd fs (Clean dest) R" "Unzip decode cwd file dest fs = (err, fs')"
  shows "confined R fs fs' \<and> wf_fs cwd fs'"
proof -
  have "confined R fs fs1 \<and> wf_fs cwd fs1" if "extract_all (unzip_entry cwd dest) es fs = (e1, fs1)" for es e1 fs1
    using extract_all_confined [OF unzip_entry_confined assms(1,2) that] .
  with assms show ?thesis
    by (auto simp: Unzip_def split: sum.splits node.splits prod.splits option.splits)
qed

text \<open>C8: whatever a tar or zip archive contains, extracting it into an existing directory changes
  nothing outside the tree of that directory, makes no symbolic link anywhere, and leaves
  existing directories and links as they are, whether the extraction succeeds or fails; no
  entry name and no link that was in the tree before can redirect a write.\<close>

theorem extraction_confined:
  assumes "wf_fs cwd fs" and "resolve cwd fs True (Clean dest) = Inr R" and "is_dir (fs R)"
    and "UntarGz decode cwd file dest fs = (err, fs') \<or> Unzip zdecode cwd file dest fs = (err, fs')"
  shows "(\<forall>p. \<not> prefix R p \<longrightarrow> fs' p = fs p) \<and> (\<forall>p t. fs' p = Some (NLink t) \<longrightarrow> fs p = Some (NLink t)) \<and>
     (\<forall>p. is_dir (fs p) \<longrightarrow> fs' p = fs p) \<and> wf_fs cwd fs'"
proof -
  have d: "dest_at cwd fs (Clean dest) R" using assms(2,3) by (simp add: dest_at_resolve)
  have "confined R fs fs' \<and> wf_fs cwd fs'"
    using assms(4) UntarGz_confined [OF assms(1) d] Unzip_confined [OF assms(1) d] by blast
  then show ?thesis
    unfolding confined_def skeleton_kept_def by (auto simp: is_link_iff)
qed

text \<open>A tree with a link out of the destination.\<close>

definition trap_fs :: fsys where
  "trap_fs = [[] \<mapsto> NDir 493, [''etc''] \<mapsto> NDir 493, [''d''] \<mapsto> NDir 493, [''d'', ''l''] \<mapsto> NLink ''/etc'',
     [''a''] \<mapsto> NFile 420 ''x'']"

definition trap_entries :: "tar_entry list" where
  "trap_entries = [\<lparr>teName = ''sub/f'', teType = TypeReg, tePerm = 420, teBody = ''hi'', teReadError = None\<rparr>,
     \<lparr>teName = ''l/passwd'', teType = TypeReg, tePerm = 420, teBody = ''evil'', teReadError = None\<rparr>]"

lemma trap_wf: "wf_fs [] trap_fs"
  by (auto simp: wf_fs_def trap_fs_def append_eq_Cons_conv split: if_splits)

lemma trap_dest: "resolve [] trap_fs True (Clean ''/d'') = Inr [''d'']" "is_dir (trap_fs [''d''])"
  by code_simp (simp add: trap_fs_def)

theorem extraction_confined_witness:
  "\<exists>err fs'. UntarGz (\<lambda>_. Inr (trap_entries, None)) [] ''/a'' ''/d'' trap_fs = (err, fs') \<and>
     fs' [''etc'', ''passwd''] = None \<and> fs' [''etc''] = Some (NDir 493)"
proof -
  let ?run = "UntarGz (\<lambda>_. Inr (trap_entries, None)) [] ''/a'' ''/d'' trap_fs"
  define err fs' where "err = fst ?run" and "fs' = snd ?run"
  then have run: "?run = (err, fs')" by simp
  have out: "fs' p = trap_fs p" if "\<not> prefix [''d''] p" for p
    using extraction_confined [OF trap_wf trap_dest disjI1 [OF run]] that by blast
  have "fs' [''etc'', ''passwd''] = trap_fs [''etc'', ''passwd'']" "fs' [''etc''] = trap_fs [''etc'']"
    by (rule out, simp)+
  then have "fs' [''etc'', ''passwd''] = None" "fs' [''etc''] = Some (NDir 493)" by (simp_all add: trap_fs_def)
  with run show ?thesis by blast
qed

section \<open>Extraction works\<close>

lemma comps_plain: "plain n \<Longrightarrow> comps n = [n] \<and> Clean n = n \<and> \<not> IsAbs n"
proof -
  assume n: "plain n"
  have abs: "\<not> IsAbs n" using n by (cases n) (auto simp: IsAbs_def plain_def)
  moreover have "Split slash n = [n]" using n by (simp add: Split_word plain_def)
  ultimately show ?thesis
    using n by (simp add: comps_def Clean_def clean_comps_def clean_step_plain unparse_def)
qed

lemma secureExtractPath_plain:
  assumes "dest_at cwd fs (Clean dest) R" "comps dest \<noteq> []" "ensureDestinationRootSafe cwd fs (Clean dest) = None"
    and "plain n" "TrimSpace n = n" "CHR 0x00 \<notin> set n" "\<not> is_link (fs (R @ [n]))"
  shows "secureExtractPath cwd fs dest n = Inr (under (Clean dest) [n] False)"
proof -
  let ?D = "Clean dest"
  note n = comps_plain [OF assms(4)]
  have n': "n \<noteq> []" "n \<noteq> ''.''" "n \<noteq> ''..''" "slash \<notin> set n" using assms(4) by (auto simp: plain_def)
  have D: "?D = unparse (IsAbs dest) (comps dest)" by (simp add: Clean_def)
  have good: "good_comps (IsAbs dest) (comps dest)" by (rule good_comps_comps)
  have un: "unparse False [n] = n" by (simp add: unparse_def)
  have join: "PathJoin [?D, n] = under ?D [n] False"
    using PathJoin_plain [OF good, of "[n]"] unparse_append [OF assms(2)] assms(4) D un by simp
  then have clean: "Clean (PathJoin [?D, n]) = under ?D [n] False"
    using Clean_unparse [OF good_comps_append [OF good, of "[n]"]] unparse_append [OF assms(2)] assms(4) D by simp
  have pre: "HasPrefix (under ?D [n] False) (?D @ [slash])" by (simp add: under_def)
  have nodots: "\<not> HasPrefix n (''..'' @ [slash])" using n'(4) by (auto simp: prefix_def)
  have st: "Lstat cwd fs (under ?D [n] False) = Inl ENOENT \<or>
      (\<exists>nd. Lstat cwd fs (under ?D [n] False) = Inr nd \<and> \<not> is_link (Some nd))"
    using resolve_child [OF assms(1,4,7), of False] assms(7)
    by (cases "fs (R @ [n])") (auto simp: Lstat_def lookup_node_def)
  have rel: "Rel ?D (under ?D [n] False) = Some n"
    using Rel_plain [OF good, of "[n]"] unparse_append [OF assms(2)] assms(4) D by simp
  have "ensureNoSymlinkComponent cwd fs ?D (under ?D [n] False) = None"
    using st n' join by (auto simp: ensureNoSymlinkComponent_def rel Split_word Let_def)
  then show ?thesis
    using n n' assms(3,5,6) clean pre nodots by (simp add: secureExtractPath_def Let_def)
qed



text \<open>A destination that is the current directory or the root of the file system (\<^verbatim>\<open>.\<close>, \<^verbatim>\<open>/\<close> and their
  spellings) refuses every entry but the destination itself, since a clean path below it does
  not begin with the destination and a separator.\<close>

theorem extraction_into_dot_refused:
  assumes "comps dest = []" and "secureExtractPath cwd fs dest name = Inr target"
  shows "target = Clean dest"
  using secureExtractPath_ok [OF assms(2)] assms(1) by (auto simp: Clean_def)

theorem extraction_into_dot_refused_witness:
  "secureExtractPath [''d''] trap_fs ''.'' ''f'' = Inl ErrPathTraversal \<and>
   secureExtractPath [''d''] trap_fs ''./'' ''x/..'' = Inr ''.'' \<and> ''.'' = Clean ''./''"
proof -
  have "secureExtractPath [''d''] trap_fs ''.'' ''f'' = Inl ErrPathTraversal" by code_simp
  moreover have ok: "secureExtractPath [''d''] trap_fs ''./'' ''x/..'' = Inr ''.''" by code_simp
  moreover have "comps ''./'' = []" by code_simp
  ultimately show ?thesis using extraction_into_dot_refused [OF _ ok] by simp
qed

end
