(* ===== verification/Drive.thy ===== *)
theory Drive
  imports StressSuite Paths
begin

text \<open>
  \<^verbatim>\<open>src/cmd/etcd-infra/aws_drive_aggregate.go\<close> and \<^verbatim>\<open>readMetricFile\<close> of \<^verbatim>\<open>aws_drive.go\<close>: the merge of the
  result files of all stress clients of a drive. Reading a file, decoding one JSON record and
  scanning a decimal number are arguments (\<open>readFile\<close>, \<open>unmarshal\<close>, \<open>scan\<close>); \<open>order\<close> is the order in
  which Go iterates over the map of failed scenarios. Adding a record whose histogram is longer
  than the first one's indexes the sum out of range: that panic is \<open>None\<close>.
\<close>

record driveAggregate =
  daClients :: nat
  daRecords :: nat
  daRequests :: int
  daFailedRequests :: int
  daCombinedRequestsPerSecond :: real
  daAverageLatencyMs :: real
  daP99LatencyMs :: real
  daPeerSentBytes :: int
  daFailedScenarios :: "string list"

definition readMetricFile :: "(string \<Rightarrow> string option) \<Rightarrow> (string \<Rightarrow> int option) \<Rightarrow> string \<Rightarrow> int" where
  "readMetricFile readFile scan p = (case readFile p of None \<Rightarrow> -1
     | Some data \<Rightarrow> (case scan (TrimSpace data) of None \<Rightarrow> -1 | Some v \<Rightarrow> v))"

fun merged_scan :: "int list \<Rightarrow> nat \<Rightarrow> int \<Rightarrow> int \<Rightarrow> real option" where
  "merged_scan [] i cumulative threshold = None"
| "merged_scan (c # cs) i cumulative threshold =
     (let cumulative = cumulative + c in
      if cumulative \<ge> threshold then Some (LatencyBucketUpperBoundMs i)
      else merged_scan cs (i + 1) cumulative threshold)"

definition mergedP99Ms :: "int list \<Rightarrow> real" where
  "mergedP99Ms buckets =
     (let total = sum_list buckets in
      if total = 0 then -1
      else let threshold = trunc (real_of_int total * 0.99);
               threshold = (if threshold < 1 then 1 else threshold)
           in case merged_scan buckets 0 0 threshold of
                Some b \<Rightarrow> b
              | None \<Rightarrow> LatencyBucketUpperBoundMs (length buckets - 1))"

text \<open>The variables of the loop.\<close>

record drive_acc =
  acAgg :: driveAggregate
  acBuckets :: "int list option"
  acWeighted :: real
  acFailed :: "string list"

fun add_counts :: "int list \<Rightarrow> int list \<Rightarrow> int list option" where
  "add_counts bs [] = Some bs"
| "add_counts [] (c # cs) = None"
| "add_counts (b # bs) (c # cs) = map_option (Cons (b + c)) (add_counts bs cs)"

definition merge_buckets :: "int list option \<Rightarrow> int list \<Rightarrow> int list option option" where
  "merge_buckets buckets cs =
     (if length cs > 0
      then map_option Some (add_counts (case buckets of None \<Rightarrow> replicate (length cs) 0 | Some bs \<Rightarrow> bs) cs)
      else Some buckets)"

definition merge_record :: "Result \<Rightarrow> drive_acc \<Rightarrow> drive_acc option" where
  "merge_record r s =
     (let agg = (acAgg s)\<lparr>daRecords := daRecords (acAgg s) + 1, daRequests := daRequests (acAgg s) + rTotalRequests r,
            daFailedRequests := daFailedRequests (acAgg s) + rFailedRequests r,
            daCombinedRequestsPerSecond := daCombinedRequestsPerSecond (acAgg s) + rRequestsPerSecond r\<rparr>;
          weighted = acWeighted s + (real_of_int (rAverageLatency r) / real_of_int second) * 1000 * real_of_int (rTotalRequests r);
          failed = (if \<not> rSuccess r \<and> rScenario r \<notin> set (acFailed s) then acFailed s @ [rScenario r] else acFailed s)
      in map_option (\<lambda>b. \<lparr>acAgg = agg, acBuckets = b, acWeighted = weighted, acFailed = failed\<rparr>)
           (merge_buckets (acBuckets s) (rLatencyBuckets r)))"

definition newline :: char where
  "newline = CHR 0x0A"

text \<open>The records of one file: the lines that start with a brace and decode.\<close>

definition file_records :: "(string \<Rightarrow> Result option) \<Rightarrow> string \<Rightarrow> Result list" where
  "file_records unmarshal data =
     List.map_filter (\<lambda>line. let line = TrimSpace line in if HasPrefix line ''{'' then unmarshal line else None)
       (Split newline data)"

fun merge_records :: "Result list \<Rightarrow> drive_acc \<Rightarrow> drive_acc option" where
  "merge_records [] s = Some s"
| "merge_records (r # rs) s = (case merge_record r s of None \<Rightarrow> None | Some s' \<Rightarrow> merge_records rs s')"

definition merge_client ::
  "(string \<Rightarrow> string option) \<Rightarrow> (string \<Rightarrow> int option) \<Rightarrow> (string \<Rightarrow> Result option) \<Rightarrow> string \<Rightarrow> string \<Rightarrow>
   drive_acc \<Rightarrow> drive_acc option" where
  "merge_client readFile scan unmarshal dir client s =
     (let base = PathJoin [dir, client];
          before = readMetricFile readFile scan (PathJoin [base, ''metrics-before.txt'']);
          after = readMetricFile readFile scan (PathJoin [base, ''metrics-after.txt'']);
          s = (if before \<ge> 0 \<and> after \<ge> 0
               then s\<lparr>acAgg := (acAgg s)\<lparr>daPeerSentBytes := daPeerSentBytes (acAgg s) + (after - before)\<rparr>\<rparr> else s)
      in case readFile (PathJoin [base, ''results.jsonl'']) of
           None \<Rightarrow> Some s
         | Some data \<Rightarrow>
             merge_records (file_records unmarshal data)
               (s\<lparr>acAgg := (acAgg s)\<lparr>daClients := daClients (acAgg s) + 1\<rparr>\<rparr>))"

fun merge_clients ::
  "(string \<Rightarrow> string option) \<Rightarrow> (string \<Rightarrow> int option) \<Rightarrow> (string \<Rightarrow> Result option) \<Rightarrow> string \<Rightarrow> string list \<Rightarrow>
   drive_acc \<Rightarrow> drive_acc option" where
  "merge_clients readFile scan unmarshal dir [] s = Some s"
| "merge_clients readFile scan unmarshal dir (c # cs) s =
     (case merge_client readFile scan unmarshal dir c s of
        None \<Rightarrow> None | Some s' \<Rightarrow> merge_clients readFile scan unmarshal dir cs s')"

definition drive_start :: drive_acc where
  "drive_start = \<lparr>acAgg = \<lparr>daClients = 0, daRecords = 0, daRequests = 0, daFailedRequests = 0,
      daCombinedRequestsPerSecond = 0, daAverageLatencyMs = 0, daP99LatencyMs = -1, daPeerSentBytes = 0,
      daFailedScenarios = []\<rparr>, acBuckets = None, acWeighted = 0, acFailed = []\<rparr>"

definition drive_finish :: "(string list \<Rightarrow> string list) \<Rightarrow> drive_acc \<Rightarrow> driveAggregate" where
  "drive_finish order s =
     (let agg = acAgg s;
          agg = (if daRequests agg > 0
                 then agg\<lparr>daAverageLatencyMs := acWeighted s / real_of_int (daRequests agg)\<rparr> else agg);
          agg = (case acBuckets s of None \<Rightarrow> agg | Some b \<Rightarrow> agg\<lparr>daP99LatencyMs := mergedP99Ms b\<rparr>)
      in agg\<lparr>daFailedScenarios := daFailedScenarios agg @ order (acFailed s)\<rparr>)"

definition aggregateDriveResults ::
  "(string \<Rightarrow> string option) \<Rightarrow> (string \<Rightarrow> int option) \<Rightarrow> (string \<Rightarrow> Result option) \<Rightarrow>
   (string list \<Rightarrow> string list) \<Rightarrow> string \<Rightarrow> string list \<Rightarrow> driveAggregate option" where
  "aggregateDriveResults readFile scan unmarshal order dir targets =
     map_option (drive_finish order) (merge_clients readFile scan unmarshal dir targets drive_start)"

section \<open>The merged percentile\<close>

lemma merged_scan_spec:
  "merged_scan cs i cum t = Some b \<Longrightarrow>
   \<exists>k < length cs. b = LatencyBucketUpperBoundMs (i + k) \<and> cum + sum_list (take (Suc k) cs) \<ge> t \<and>
     (\<forall>j < k. cum + sum_list (take (Suc j) cs) < t)"
proof (induction cs arbitrary: i cum)
  case (Cons c cs)
  show ?case
  proof (cases "cum + c \<ge> t")
    case True
    with Cons.prems show ?thesis by (intro exI [of _ 0]) simp
  next
    case False
    then obtain k where k: "k < length cs" "b = LatencyBucketUpperBoundMs (i + 1 + k)"
        "cum + c + sum_list (take (Suc k) cs) \<ge> t" "\<forall>j < k. cum + c + sum_list (take (Suc j) cs) < t"
      using Cons.IH [of "i + 1" "cum + c"] Cons.prems by (auto simp: Let_def)
    have "cum + sum_list (take (Suc j) (c # cs)) < t" if "j < Suc k" for j
      using that k(4) False by (cases j) (auto simp: add.assoc)
    with k show ?thesis by (intro exI [of _ "Suc k"]) (simp add: add.assoc)
  qed
qed simp

lemma merged_scan_None: "merged_scan cs i cum t = None \<Longrightarrow> cs \<noteq> [] \<Longrightarrow> cum + sum_list cs < t"
proof (induction cs arbitrary: i cum)
  case (Cons c cs)
  then have lt: "cum + c < t" and rest: "merged_scan cs (i + 1) (cum + c) t = None"
    by (auto simp: Let_def split: if_splits)
  show ?case
  proof (cases "cs = []")
    case True
    with lt show ?thesis by simp
  next
    case False
    from Cons.IH [OF rest False] show ?thesis by simp
  qed
qed simp

lemma trunc_99: "0 \<le> t \<Longrightarrow> trunc (real_of_int t * 0.99) = 99 * t div 100"
  using floor_divide_of_int_eq [of "99 * t" 100, where ?'a = real] by (simp add: trunc_def field_simps)

lemma mergedP99Ms_scan:
  assumes "0 < sum_list buckets"
  shows "mergedP99Ms buckets = (case merged_scan buckets 0 0 (max 1 (99 * sum_list buckets div 100)) of
    Some b \<Rightarrow> b | None \<Rightarrow> LatencyBucketUpperBoundMs (length buckets - 1))"
proof -
  have "trunc (real_of_int (sum_list buckets) * 0.99) = 99 * sum_list buckets div 100"
    using assms by (intro trunc_99) simp
  then show ?thesis using assms by (simp only: mergedP99Ms_def Let_def) (auto simp: max_def)
qed

text \<open>The fleet-wide p99 of a merged histogram with any request in it is the upper bound of the first
  bucket up to which at least \<open>99 * total div 100\<close> requests (and at least one) are counted: that
  share of all requests of all clients was not slower.\<close>

theorem mergedP99Ms_covers:
  assumes "list_all (\<lambda>c. 0 \<le> c) buckets" and "0 < sum_list buckets"
  shows "\<exists>k < length buckets. mergedP99Ms buckets = LatencyBucketUpperBoundMs k \<and>
     max 1 (99 * sum_list buckets div 100) \<le> sum_list (take (Suc k) buckets) \<and>
     (\<forall>j < k. sum_list (take (Suc j) buckets) < max 1 (99 * sum_list buckets div 100))"
proof -
  let ?total = "sum_list buckets" and ?t = "max 1 (99 * sum_list buckets div 100)"
  have "merged_scan buckets 0 0 ?t \<noteq> None"
  proof
    assume none: "merged_scan buckets 0 0 ?t = None"
    have "buckets \<noteq> []" using assms(2) by auto
    from merged_scan_None [OF none this] have "?total < ?t" by simp
    moreover have "?t \<le> ?total" using assms(2) by simp
    ultimately show False by simp
  qed
  then obtain b where b: "merged_scan buckets 0 0 ?t = Some b" by blast
  then have "mergedP99Ms buckets = b" using mergedP99Ms_scan [OF assms(2)] by simp
  with merged_scan_spec [OF b] show ?thesis by auto
qed

theorem mergedP99Ms_covers_witness:
  "list_all (\<lambda>c. 0 \<le> c) [148, 2, 0 :: int] \<and>
   (\<exists>k < length [148, 2, 0 :: int]. mergedP99Ms [148, 2, 0] = LatencyBucketUpperBoundMs k \<and>
     max 1 (99 * sum_list [148, 2, 0] div 100) \<le> sum_list (take (Suc k) [148, 2, 0 :: int]) \<and>
     (\<forall>j < k. sum_list (take (Suc j) [148, 2, 0]) < max 1 (99 * sum_list [148, 2, 0 :: int] div 100)))"
proof
  show "list_all (\<lambda>c. 0 \<le> c) [148, 2, 0 :: int]" by simp
  then show "\<exists>k < length [148, 2, 0 :: int]. mergedP99Ms [148, 2, 0] = LatencyBucketUpperBoundMs k \<and>
     max 1 (99 * sum_list [148, 2, 0] div 100) \<le> sum_list (take (Suc k) [148, 2, 0 :: int]) \<and>
     (\<forall>j < k. sum_list (take (Suc j) [148, 2, 0]) < max 1 (99 * sum_list [148, 2, 0 :: int] div 100))"
    by (rule mergedP99Ms_covers) simp
qed

text \<open>The rank is rounded down where \<open>percentile\<close> rounds it up: of 150 requests the 149th decides
  the nearest-rank p99, but the merged histogram answers with the bucket of the 148th.\<close>

lemma mergedP99Ms_below_nearest_rank:
  "mergedP99Ms [148, 2, 0] = LatencyBucketUpperBoundMs 0 \<and> \<lceil>0.99 * real 150\<rceil> = 149"
  by (simp add: mergedP99Ms_def trunc_def Let_def)

section \<open>What the aggregate contains\<close>

text \<open>The records that are merged, and the histogram they should add up to: its length is that of the
  first histogram, and shorter ones count as padded with zeros.\<close>

definition client_records :: "(string \<Rightarrow> string option) \<Rightarrow> (string \<Rightarrow> Result option) \<Rightarrow> string \<Rightarrow> string \<Rightarrow> Result list" where
  "client_records readFile unmarshal dir client =
     (case readFile (PathJoin [PathJoin [dir, client], ''results.jsonl'']) of
        None \<Rightarrow> [] | Some data \<Rightarrow> file_records unmarshal data)"

definition drive_records :: "(string \<Rightarrow> string option) \<Rightarrow> (string \<Rightarrow> Result option) \<Rightarrow> string \<Rightarrow> string list \<Rightarrow> Result list" where
  "drive_records readFile unmarshal dir targets = concat (map (client_records readFile unmarshal dir) targets)"

definition nth0 :: "int list \<Rightarrow> nat \<Rightarrow> int" where
  "nth0 xs i = (if i < length xs then xs ! i else 0)"

fun first_len :: "Result list \<Rightarrow> nat" where
  "first_len [] = 0"
| "first_len (r # rs) = (if rLatencyBuckets r = [] then first_len rs else length (rLatencyBuckets r))"

definition histogram :: "Result list \<Rightarrow> int list" where
  "histogram rs = map (\<lambda>i. \<Sum>r\<leftarrow>rs. nth0 (rLatencyBuckets r) i) [0..<first_len rs]"

definition fits :: "Result list \<Rightarrow> bool" where
  "fits rs = list_all (\<lambda>r. length (rLatencyBuckets r) \<le> first_len rs) rs"

definition failed_scenarios :: "Result list \<Rightarrow> string set" where
  "failed_scenarios rs = rScenario ` {r \<in> set rs. \<not> rSuccess r}"

definition weighted_latency :: "Result list \<Rightarrow> real" where
  "weighted_latency rs = (\<Sum>r\<leftarrow>rs. real_of_int (rAverageLatency r) / real_of_int second * 1000 * real_of_int (rTotalRequests r))"

text \<open>The loop variables after the records \<open>rs\<close>.\<close>

definition summarizes :: "Result list \<Rightarrow> drive_acc \<Rightarrow> bool" where
  "summarizes rs s \<longleftrightarrow> daRecords (acAgg s) = length rs \<and> daRequests (acAgg s) = (\<Sum>r\<leftarrow>rs. rTotalRequests r) \<and>
     daFailedRequests (acAgg s) = (\<Sum>r\<leftarrow>rs. rFailedRequests r) \<and>
     daCombinedRequestsPerSecond (acAgg s) = (\<Sum>r\<leftarrow>rs. rRequestsPerSecond r) \<and>
     daAverageLatencyMs (acAgg s) = 0 \<and> daP99LatencyMs (acAgg s) = -1 \<and> daFailedScenarios (acAgg s) = [] \<and>
     acWeighted s = weighted_latency rs \<and> distinct (acFailed s) \<and> set (acFailed s) = failed_scenarios rs \<and>
     acBuckets s = (if first_len rs = 0 then None else Some (histogram rs)) \<and> fits rs"

lemma first_len_0: "first_len rs = 0 \<longleftrightarrow> list_all (\<lambda>r. rLatencyBuckets r = []) rs"
  by (induction rs) auto

lemma first_len_append: "first_len (rs @ qs) = (if first_len rs = 0 then first_len qs else first_len rs)"
  by (induction rs) auto

lemma fits_append_left: "fits (rs @ qs) \<Longrightarrow> fits rs"
  by (auto simp: fits_def first_len_append list_all_iff first_len_0 split: if_splits)

lemma fits_snoc: "fits rs \<Longrightarrow> fits (rs @ [r]) \<longleftrightarrow> first_len rs = 0 \<or> length (rLatencyBuckets r) \<le> first_len rs"
  by (auto simp: fits_def first_len_append list_all_iff first_len_0)

lemma add_counts_eq:
  "add_counts bs cs = (if length cs \<le> length bs then Some (map (\<lambda>i. bs ! i + nth0 cs i) [0..<length bs]) else None)"
proof (induction bs cs rule: add_counts.induct)
  case (1 bs)
  then show ?case by (simp add: nth0_def map_nth)
next
  case (3 b bs c cs)
  have "map (\<lambda>i. (b # bs) ! i + nth0 (c # cs) i) [0..<Suc (length bs)]
      = (b + c) # map (\<lambda>i. bs ! i + nth0 cs i) [0..<length bs]"
    by (simp add: upt_conv_Cons map_Suc_upt [symmetric] nth0_def del: upt_Suc)
  with 3 show ?case by (simp del: upt_Suc)
qed simp

lemma merge_buckets_first:
  assumes "first_len rs = 0"
  shows "merge_buckets None (rLatencyBuckets r) =
    Some (if first_len (rs @ [r]) = 0 then None else Some (histogram (rs @ [r])))"
proof -
  have "(\<Sum>q\<leftarrow>rs. nth0 (rLatencyBuckets q) i) = 0" for i
    using assms by (induction rs) (auto simp: nth0_def split: if_splits)
  moreover have "map (\<lambda>i. replicate n 0 ! i + nth0 xs i) [0..<n] = map (nth0 xs) [0..<n]" for n xs
    by simp
  ultimately show ?thesis using assms
    by (auto simp: merge_buckets_def add_counts_eq first_len_append histogram_def)
qed

lemma nth0_Nil [simp]: "nth0 [] i = 0"
  by (simp add: nth0_def)

lemma merge_buckets_later:
  assumes "first_len rs \<noteq> 0"
  shows "merge_buckets (Some (histogram rs)) (rLatencyBuckets r) =
    (if length (rLatencyBuckets r) \<le> first_len rs then Some (Some (histogram (rs @ [r]))) else None)"
  using assms by (auto simp: merge_buckets_def add_counts_eq first_len_append histogram_def)

lemma merge_record_summary:
  assumes "summarizes rs s"
  shows "if fits (rs @ [r])
    then \<exists>s'. merge_record r s = Some s' \<and> summarizes (rs @ [r]) s' \<and>
           daClients (acAgg s') = daClients (acAgg s) \<and> daPeerSentBytes (acAgg s') = daPeerSentBytes (acAgg s)
    else merge_record r s = None"
proof (cases "fits (rs @ [r])")
  case True
  have "merge_buckets (acBuckets s) (rLatencyBuckets r) =
      Some (if first_len (rs @ [r]) = 0 then None else Some (histogram (rs @ [r])))"
    using assms True merge_buckets_first [of rs r] merge_buckets_later [of rs r]
    by (auto simp: summarizes_def fits_snoc first_len_append)
  with assms True show ?thesis
    by (auto simp: summarizes_def merge_record_def Let_def failed_scenarios_def weighted_latency_def)
next
  case False
  with assms have "first_len rs \<noteq> 0" "\<not> length (rLatencyBuckets r) \<le> first_len rs" "acBuckets s = Some (histogram rs)"
    by (auto simp: summarizes_def fits_snoc)
  with merge_buckets_later [of rs r] False show ?thesis by (simp add: merge_record_def Let_def)
qed

lemma merge_records_summary:
  "summarizes rs s \<Longrightarrow>
   if fits (rs @ qs)
   then \<exists>s'. merge_records qs s = Some s' \<and> summarizes (rs @ qs) s' \<and>
          daClients (acAgg s') = daClients (acAgg s) \<and> daPeerSentBytes (acAgg s') = daPeerSentBytes (acAgg s)
   else merge_records qs s = None"
proof (induction qs arbitrary: rs s)
  case Nil
  then show ?case by (auto simp: summarizes_def)
next
  case (Cons q qs)
  show ?case
  proof (cases "fits (rs @ [q])")
    case True
    with merge_record_summary [OF Cons.prems, of q] obtain s' where
      s': "merge_record q s = Some s'" "summarizes (rs @ [q]) s'" "daClients (acAgg s') = daClients (acAgg s)"
        "daPeerSentBytes (acAgg s') = daPeerSentBytes (acAgg s)" by auto
    from Cons.IH [OF s'(2)] s' show ?thesis by auto
  next
    case False
    then have "\<not> fits (rs @ q # qs)" using fits_append_left [of "rs @ [q]" qs] by auto
    with merge_record_summary [OF Cons.prems, of q] False show ?thesis by simp
  qed
qed

definition client_bytes :: "(string \<Rightarrow> string option) \<Rightarrow> (string \<Rightarrow> int option) \<Rightarrow> string \<Rightarrow> string \<Rightarrow> int" where
  "client_bytes readFile scan dir client =
     (let before = readMetricFile readFile scan (PathJoin [PathJoin [dir, client], ''metrics-before.txt'']);
          after = readMetricFile readFile scan (PathJoin [PathJoin [dir, client], ''metrics-after.txt''])
      in if before \<ge> 0 \<and> after \<ge> 0 then after - before else 0)"

definition reported :: "(string \<Rightarrow> string option) \<Rightarrow> string \<Rightarrow> string \<Rightarrow> bool" where
  "reported readFile dir client = (readFile (PathJoin [PathJoin [dir, client], ''results.jsonl'']) \<noteq> None)"

lemma summarizes_frame [simp]:
  "summarizes rs (s\<lparr>acAgg := (acAgg s)\<lparr>daClients := n\<rparr>\<rparr>) = summarizes rs s"
  "summarizes rs (s\<lparr>acAgg := (acAgg s)\<lparr>daPeerSentBytes := b\<rparr>\<rparr>) = summarizes rs s"
  "summarizes rs (s\<lparr>acAgg := (acAgg s)\<lparr>daClients := n, daPeerSentBytes := b\<rparr>\<rparr>) = summarizes rs s"
  by (simp_all add: summarizes_def)

lemma merge_client_eq:
  "merge_client readFile scan unmarshal dir c s =
   merge_records (client_records readFile unmarshal dir c)
     (s\<lparr>acAgg := (acAgg s)\<lparr>daClients := daClients (acAgg s) + (if reported readFile dir c then 1 else 0),
        daPeerSentBytes := daPeerSentBytes (acAgg s) + client_bytes readFile scan dir c\<rparr>\<rparr>)"
proof -
  obtain a buckets weighted failed where s: "s = \<lparr>acAgg = a, acBuckets = buckets, acWeighted = weighted, acFailed = failed\<rparr>"
    by (cases s)
  then show ?thesis
    by (cases a; cases "readFile (PathJoin [PathJoin [dir, c], ''results.jsonl''])")
       (simp_all add: merge_client_def client_records_def reported_def client_bytes_def Let_def)
qed

lemma merge_clients_summary:
  "summarizes rs s \<Longrightarrow>
   if fits (rs @ drive_records readFile unmarshal dir targets)
   then \<exists>s'. merge_clients readFile scan unmarshal dir targets s = Some s' \<and>
          summarizes (rs @ drive_records readFile unmarshal dir targets) s' \<and>
          daClients (acAgg s') = daClients (acAgg s) + length (filter (reported readFile dir) targets) \<and>
          daPeerSentBytes (acAgg s') = daPeerSentBytes (acAgg s) + (\<Sum>c\<leftarrow>targets. client_bytes readFile scan dir c)
   else merge_clients readFile scan unmarshal dir targets s = None"
proof (induction targets arbitrary: rs s)
  case Nil
  then show ?case by (auto simp: summarizes_def drive_records_def)
next
  case (Cons c targets)
  let ?qs = "client_records readFile unmarshal dir c"
  let ?s = "s\<lparr>acAgg := (acAgg s)\<lparr>daClients := daClients (acAgg s) + (if reported readFile dir c then 1 else 0),
        daPeerSentBytes := daPeerSentBytes (acAgg s) + client_bytes readFile scan dir c\<rparr>\<rparr>"
  have all: "rs @ drive_records readFile unmarshal dir (c # targets)
      = (rs @ ?qs) @ drive_records readFile unmarshal dir targets"
    by (simp add: drive_records_def)
  have "summarizes rs ?s" using Cons.prems by simp
  note step = merge_records_summary [OF this, of ?qs]
  show ?case
  proof (cases "fits (rs @ ?qs)")
    case True
    with step obtain s' where s': "merge_records ?qs ?s = Some s'" "summarizes (rs @ ?qs) s'"
        "daClients (acAgg s') = daClients (acAgg ?s)" "daPeerSentBytes (acAgg s') = daPeerSentBytes (acAgg ?s)"
      by auto
    from Cons.IH [OF s'(2)] s' show ?thesis unfolding all by (auto simp: merge_client_eq)
  next
    case False
    with step have "merge_records ?qs ?s = None" by simp
    moreover have "\<not> fits ((rs @ ?qs) @ drive_records readFile unmarshal dir targets)"
      using False fits_append_left by blast
    ultimately show ?thesis unfolding all by (simp add: merge_client_eq)
  qed
qed

lemma summarizes_start: "summarizes [] drive_start"
  by (simp add: summarizes_def drive_start_def weighted_latency_def failed_scenarios_def fits_def)

lemma aggregateDriveResults_summary:
  fixes readFile unmarshal dir targets
  defines "rs \<equiv> drive_records readFile unmarshal dir targets"
  shows "if fits rs
    then \<exists>s. aggregateDriveResults readFile scan unmarshal order dir targets = Some (drive_finish order s) \<and>
           summarizes rs s \<and> daClients (acAgg s) = length (filter (reported readFile dir) targets) \<and>
           daPeerSentBytes (acAgg s) = (\<Sum>c\<leftarrow>targets. client_bytes readFile scan dir c)
    else aggregateDriveResults readFile scan unmarshal order dir targets = None"
proof -
  have "daClients (acAgg drive_start) = 0" "daPeerSentBytes (acAgg drive_start) = 0"
    by (simp_all add: drive_start_def)
  with merge_clients_summary [OF summarizes_start, of readFile unmarshal dir targets scan] show ?thesis
    unfolding aggregateDriveResults_def rs_def by (auto split: if_splits)
qed

text \<open>C24: whatever the order in which Go visits the failed scenarios, the aggregate of a drive in which no
  later histogram is longer than the first is the merge of all decodable records: counts and rates
  add up, the average latency is weighted by requests, the p99 is that of the summed histogram and a
  scenario is listed once iff one of its records failed.\<close>

theorem aggregateDriveResults_spec:
  fixes readFile unmarshal dir targets
  defines "rs \<equiv> drive_records readFile unmarshal dir targets"
  assumes order: "\<And>xs. mset (order xs) = mset xs" and fits: "fits rs"
  shows "\<exists>agg. aggregateDriveResults readFile scan unmarshal order dir targets = Some agg \<and>
     daClients agg = length (filter (reported readFile dir) targets) \<and> daRecords agg = length rs \<and>
     daRequests agg = (\<Sum>r\<leftarrow>rs. rTotalRequests r) \<and> daFailedRequests agg = (\<Sum>r\<leftarrow>rs. rFailedRequests r) \<and>
     daCombinedRequestsPerSecond agg = (\<Sum>r\<leftarrow>rs. rRequestsPerSecond r) \<and>
     daAverageLatencyMs agg =
       (if (\<Sum>r\<leftarrow>rs. rTotalRequests r) > 0 then weighted_latency rs / real_of_int (\<Sum>r\<leftarrow>rs. rTotalRequests r) else 0) \<and>
     daP99LatencyMs agg = (if first_len rs = 0 then -1 else mergedP99Ms (histogram rs)) \<and>
     daPeerSentBytes agg = (\<Sum>c\<leftarrow>targets. client_bytes readFile scan dir c) \<and>
     distinct (daFailedScenarios agg) \<and> set (daFailedScenarios agg) = failed_scenarios rs"
proof -
  from aggregateDriveResults_summary [of readFile unmarshal dir targets scan order] fits obtain s where
    s: "aggregateDriveResults readFile scan unmarshal order dir targets = Some (drive_finish order s)"
       "summarizes rs s" "daClients (acAgg s) = length (filter (reported readFile dir) targets)"
       "daPeerSentBytes (acAgg s) = (\<Sum>c\<leftarrow>targets. client_bytes readFile scan dir c)"
    by (auto simp: rs_def)
  have "distinct (order (acFailed s)) = distinct (acFailed s)" "set (order (acFailed s)) = set (acFailed s)"
    using order mset_eq_imp_distinct_iff mset_eq_setD by blast+
  with s show ?thesis by (auto simp: summarizes_def drive_finish_def Let_def)
qed

text \<open>A drive of two clients, one of which left no results.\<close>

definition sample_record :: Result where
  "sample_record = (new_result ''put'' 0)\<lparr>rTotalRequests := 3, rLatencyBuckets := [1, 2], rSuccess := False\<rparr>"

definition sample_files :: "string \<Rightarrow> string option" where
  "sample_files p = (if p = ''out/a/results.jsonl'' then Some (''{x'' @ [newline] @ ''warn'' @ [newline] @ ''{y'') else None)"

definition sample_unmarshal :: "string \<Rightarrow> Result option" where
  "sample_unmarshal line = (if line = ''{x'' then Some sample_record else None)"

lemma sample_records: "drive_records sample_files sample_unmarshal ''out'' [''a'', ''b''] = [sample_record]"
  by code_simp

theorem aggregateDriveResults_spec_witness:
  "\<exists>agg. aggregateDriveResults sample_files (\<lambda>_. None) sample_unmarshal id ''out'' [''a'', ''b''] = Some agg \<and>
     daRequests agg = 3 \<and> daP99LatencyMs agg = mergedP99Ms [1, 2] \<and> set (daFailedScenarios agg) = {''put''}"
proof -
  have "fits (drive_records sample_files sample_unmarshal ''out'' [''a'', ''b''])"
    unfolding sample_records by (simp add: fits_def sample_record_def)
  then have "\<exists>agg. aggregateDriveResults sample_files (\<lambda>_. None) sample_unmarshal id ''out'' [''a'', ''b''] = Some agg \<and>
     daRequests agg = (\<Sum>r\<leftarrow>[sample_record]. rTotalRequests r) \<and>
     daP99LatencyMs agg = (if first_len [sample_record] = 0 then -1 else mergedP99Ms (histogram [sample_record])) \<and>
     set (daFailedScenarios agg) = failed_scenarios [sample_record]"
    using aggregateDriveResults_spec [of id sample_files sample_unmarshal "''out''" "[''a'', ''b'']" "\<lambda>_. None"]
    unfolding sample_records id_apply by blast
  moreover have "{r. r = sample_record \<and> \<not> rSuccess r} = {sample_record}"
    by (auto simp: sample_record_def)
  then have "failed_scenarios [sample_record] = {''put''}"
    by (simp add: failed_scenarios_def) (simp add: sample_record_def new_result_def)
  moreover have "histogram [sample_record] = [1, 2]" "first_len [sample_record] = 2" "rTotalRequests sample_record = 3"
    by (simp_all add: histogram_def sample_record_def nth0_def)
  ultimately show ?thesis by simp
qed

text \<open>The only way the aggregation does not return is a record whose histogram is longer than the first
  non-empty one (written, say, by a client of another version): the addition then indexes out of
  range and panics, although malformed files are meant to be tolerated.\<close>

theorem aggregateDriveResults_panics_iff:
  "aggregateDriveResults readFile scan unmarshal order dir targets = None \<longleftrightarrow>
   \<not> fits (drive_records readFile unmarshal dir targets)"
  using aggregateDriveResults_summary [of readFile unmarshal dir targets scan order] by (auto split: if_splits)

end
