(* ===== verification/LocalProvider.thy ===== *)
theory LocalProvider
  imports Prelude "HOL-Library.Multiset"
begin

text \<open>
  \<^verbatim>\<open>src/pkg/providers/local\<close>: the provider that runs one etcd cluster in containers. The
  container runtime (Docker or Podman), the JSON decoder and the passing of time are not part
  of the sources: they are the functions of the record \<open>host\<close>, on a state \<open>'w\<close> of the outside
  world. A command is the argument list the code hands to \<^verbatim>\<open>exec.CommandContext\<close>; the context
  it runs under is a tag, because a context decides only whether the command is cut short. Go
  maps that are only looked up are maps, the one that is iterated over is the list of its
  entries in the order of the iteration. A manager is a value: \<^verbatim>\<open>New\<close> never returns nil.
\<close>

section \<open>Data\<close>

datatype InstanceState = InstanceStateUnknown | InstanceStatePending | InstanceStateRunning
  | InstanceStateStopping | InstanceStateStopped | InstanceStateTerminated

record Manager =
  mRuntime :: string
  mCluster :: string
  mDowntime :: int

record containerInspectState =
  csStatus :: string
  csRunning :: bool

record portBinding =
  pbHostIP :: string
  pbHostPort :: string

record containerMount =
  cmType :: string
  cmName :: string
  cmDestination :: string

record containerInspect =
  ciID :: string
  ciName :: string
  ciImage :: string
  ciCmd :: "string list"
  ciEnv :: "string list"
  ciLabels :: "string \<rightharpoonup> string"
  ciPortBindings :: "(string \<times> portBinding list) list"
  ciNetworks :: "string \<rightharpoonup> string"
  ciMounts :: "containerMount list"
  ciState :: containerInspectState

record instanceInfo =
  iiRuntime :: string
  iiName :: string
  iiPrivateIP :: string
  iiState :: InstanceState

record PortMapping =
  pmContainerPort :: int
  pmHostPort :: int
  pmHostIP :: string
  pmProtocol :: string

record CreateConfig =
  ccCommand :: "string list"
  ccEnv :: "string list"
  ccAuxPortMapping :: "PortMapping option"

text \<open>The fields of the create options this provider reads; \<open>None\<close> is a provider configuration of
  another type.\<close>

record create_op =
  opName :: string
  opImage :: string
  opPortMappings :: "PortMapping list"
  opProviderConfig :: "CreateConfig option"

record replacementSpec =
  rsContainerID :: string
  rsName :: string
  rsCluster :: string
  rsImage :: string
  rsCommand :: "string list"
  rsEnv :: "string list"
  rsAuxPublish :: string
  rsNetwork :: string
  rsPrivateIP :: string
  rsHostIP :: string
  rsHostPort :: string
  rsVolume :: string

record ReplaceResult =
  rrPreviousID :: string
  rrGroup :: string
  rrID :: string

record DeleteResult =
  drID :: string
  drDeleted :: bool

record RunCommandOptions =
  roTimeout :: int
  roWorkDir :: string
  roStdin :: "string option"

record ExecuteResult =
  erExitCode :: int
  erStdout :: string
  erStderr :: string

datatype exec_error = ExitError int | ExecError string

datatype local_error =
    ErrRuntimeRequired | ErrClusterRequired | ErrDowntimeNegative | ErrContainerNameRequired
  | ErrImageRequired | ErrInspectContainer string exec_error string | ErrParseInspection string
  | ErrInspectRecords string nat | ErrNotOwned string string | ErrPower string string exec_error string
  | ErrListContainers exec_error string | ErrContainerExists string | ErrCreateConfig | ErrOnePortMapping
  | ErrPortMapping | ErrPortProtocol | ErrEnvEntry string | ErrAuxContainerPort int | ErrAuxHostPort int
  | ErrAuxProtocol | ErrVolumeExists string | ErrCreateVolume string exec_error string
  | ErrStartContainer string exec_error string | ErrRemoveContainer string exec_error string
  | ErrContext | ErrTerminateContainer string exec_error string | ErrNoIP string string | ErrNoClientPort string
  | ErrAuxBinding string string | ErrAuxBindings string | ErrNoVolume string | ErrInspectionIncomplete string
  | ErrContainerState string string | ErrRemoveStopped string exec_error string | ErrRelaunching string string
  | ErrNotReplaced string | ErrIdentityChanged string | ErrRemoveMismatched local_error exec_error string
  | ErrRelaunch string string exec_error string | ErrRecover string "local_error option"
  | ErrJoined "local_error option" local_error | ErrCommandRequired | ErrExec string exec_error

datatype run_ctx = CallerCtx | CleanupCtx | TerminationCtx | RecoveryCtx | AttemptCtx

text \<open>\<open>hExec\<close> is \<^verbatim>\<open>CombinedOutput\<close>, \<open>hRun\<close> is \<^verbatim>\<open>Run\<close> with the two streams apart; \<open>hDowntime\<close> waits for the
  given time or the end of the caller's context (then \<open>True\<close>); \<open>hTick\<close> is the wait for the ticker.\<close>

record 'w host =
  hExec :: "run_ctx \<Rightarrow> string \<Rightarrow> string list \<Rightarrow> 'w \<Rightarrow> (string \<times> exec_error option) \<times> 'w"
  hRun :: "run_ctx \<Rightarrow> string \<Rightarrow> string list \<Rightarrow> string option \<Rightarrow> 'w \<Rightarrow> (string \<times> string \<times> exec_error option) \<times> 'w"
  hInspect :: "string \<Rightarrow> containerInspect list option"
  hVolumeLabels :: "string \<Rightarrow> (string \<rightharpoonup> string) list option"
  hCtxDone :: "'w \<Rightarrow> bool"
  hDowntime :: "int \<Rightarrow> 'w \<Rightarrow> bool \<times> 'w"
  hTick :: "'w \<Rightarrow> 'w"

section \<open>Names and checks\<close>

definition clusterLabelKey :: string where "clusterLabelKey = ''etcd-infra.cluster''"

definition DataDir :: string where "DataDir = ''/etcd-data''"

definition NetworkName :: "string \<Rightarrow> string" where "NetworkName cluster = cluster @ ''-net''"

definition clusterLabel :: "string \<Rightarrow> string" where "clusterLabel cluster = clusterLabelKey @ ''='' @ cluster"

definition ClusterFilter :: "string \<Rightarrow> string" where "ClusterFilter cluster = ''label='' @ clusterLabel cluster"

definition dataVolumeName :: "string \<Rightarrow> string" where "dataVolumeName member = member @ ''-data''"

text \<open>A lookup in a Go map of strings yields the empty string for a missing key.\<close>

definition get_string :: "(string \<rightharpoonup> string) \<Rightarrow> string \<Rightarrow> string" where
  "get_string m k = (case m k of None \<Rightarrow> [] | Some v \<Rightarrow> v)"

definition TrimPrefix :: "string \<Rightarrow> string \<Rightarrow> string" where
  "TrimPrefix s p = (if HasPrefix s p then drop (length p) s else s)"

definition CutSuffix :: "string \<Rightarrow> string \<Rightarrow> string option" where
  "CutSuffix s p = (if HasSuffix s p then Some (take (length s - length p) s) else None)"

definition to_lower :: "string \<Rightarrow> string" where
  "to_lower = map (\<lambda>c. if CHR ''A'' \<le> c \<and> c \<le> CHR ''Z'' then char_of (of_char c + (32 :: nat)) else c)"

definition validate :: "Manager \<Rightarrow> local_error option" where
  "validate m =
     (if TrimSpace (mRuntime m) = [] then Some ErrRuntimeRequired
      else if TrimSpace (mCluster m) = [] then Some ErrClusterRequired
      else if mDowntime m < 0 then Some ErrDowntimeNegative
      else None)"

definition ownedContainer :: "'w host \<Rightarrow> run_ctx \<Rightarrow> Manager \<Rightarrow> string \<Rightarrow> 'w \<Rightarrow> (local_error + containerInspect) \<times> 'w" where
  "ownedContainer h ctx m i w =
     (case hExec h ctx (mRuntime m) [''inspect'', i] w of
        ((output, Some err), w') \<Rightarrow> (Inl (ErrInspectContainer i err (TrimSpace output)), w')
      | ((output, None), w') \<Rightarrow>
        (case hInspect h output of
           None \<Rightarrow> (Inl (ErrParseInspection i), w')
         | Some inspected \<Rightarrow>
             (if length inspected \<noteq> 1 then (Inl (ErrInspectRecords i (length inspected)), w')
              else if get_string (ciLabels (inspected ! 0)) clusterLabelKey \<noteq> mCluster m
              then (Inl (ErrNotOwned i (mCluster m)), w')
              else (Inr (inspected ! 0), w'))))"

definition ownedVolume :: "'w host \<Rightarrow> run_ctx \<Rightarrow> Manager \<Rightarrow> string \<Rightarrow> 'w \<Rightarrow> bool \<times> 'w" where
  "ownedVolume h ctx m v w =
     (case hExec h ctx (mRuntime m) [''volume'', ''inspect'', v] w of
        ((output, Some err), w') \<Rightarrow> (False, w')
      | ((output, None), w') \<Rightarrow>
        (case hVolumeLabels h output of
           None \<Rightarrow> (False, w')
         | Some inspected \<Rightarrow>
             (if length inspected \<noteq> 1 then (False, w')
              else (get_string (inspected ! 0) clusterLabelKey = mCluster m, w'))))"

definition containerState :: "containerInspectState \<Rightarrow> InstanceState" where
  "containerState st =
     (if csRunning st then InstanceStateRunning
      else let s = to_lower (csStatus st) in
           if s \<in> {''created'', ''configured'', ''restarting''} then InstanceStatePending
           else if s \<in> {''dead'', ''removing''} then InstanceStateTerminated
           else if s \<in> {''exited'', ''stopped'', ''paused''} then InstanceStateStopped
           else InstanceStateUnknown)"

definition instanceFromInspect :: "Manager \<Rightarrow> containerInspect \<Rightarrow> instanceInfo" where
  "instanceFromInspect m c =
     \<lparr>iiRuntime = mRuntime m, iiName = TrimPrefix (ciName c) ''/'',
      iiPrivateIP = get_string (ciNetworks c) (NetworkName (mCluster m)), iiState = containerState (ciState c)\<rparr>"

section \<open>Power, inventory and commands\<close>

definition power :: "'w host \<Rightarrow> Manager \<Rightarrow> string \<Rightarrow> string \<Rightarrow> 'w \<Rightarrow> local_error option \<times> 'w" where
  "power h m operation i w =
     (case validate m of Some e \<Rightarrow> (Some e, w)
      | None \<Rightarrow>
        let i = TrimSpace i in
        if i = [] then (Some ErrContainerNameRequired, w)
        else (case ownedContainer h CallerCtx m i w of
                (Inl e, w1) \<Rightarrow> (Some e, w1)
              | (Inr _, w1) \<Rightarrow>
                (case hExec h CallerCtx (mRuntime m) [operation, i] w1 of
                   ((output, Some err), w2) \<Rightarrow> (Some (ErrPower operation i err (TrimSpace output)), w2)
                 | ((output, None), w2) \<Rightarrow> (None, w2))))"

definition Stop :: "'w host \<Rightarrow> Manager \<Rightarrow> string \<Rightarrow> 'w \<Rightarrow> local_error option \<times> 'w" where
  "Stop h m i w = power h m ''stop'' i w"

definition Start :: "'w host \<Rightarrow> Manager \<Rightarrow> string \<Rightarrow> 'w \<Rightarrow> local_error option \<times> 'w" where
  "Start h m i w = power h m ''start'' i w"

definition Get :: "'w host \<Rightarrow> Manager \<Rightarrow> string \<Rightarrow> 'w \<Rightarrow> (local_error + instanceInfo) \<times> 'w" where
  "Get h m i w =
     (case validate m of Some e \<Rightarrow> (Inl e, w)
      | None \<Rightarrow>
        let i = TrimSpace i in
        if i = [] then (Inl ErrContainerNameRequired, w)
        else (case ownedContainer h CallerCtx m i w of
                (Inl e, w1) \<Rightarrow> (Inl e, w1)
              | (Inr inspected, w1) \<Rightarrow> (Inr (instanceFromInspect m inspected), w1)))"

fun get_all :: "'w host \<Rightarrow> Manager \<Rightarrow> string list \<Rightarrow> 'w \<Rightarrow> (local_error + instanceInfo list) \<times> 'w" where
  "get_all h m [] w = (Inr [], w)"
| "get_all h m (i # is) w =
     (case Get h m i w of
        (Inl e, w1) \<Rightarrow> (Inl e, w1)
      | (Inr inst, w1) \<Rightarrow>
        (case get_all h m is w1 of (Inl e, w2) \<Rightarrow> (Inl e, w2) | (Inr insts, w2) \<Rightarrow> (Inr (inst # insts), w2)))"

fun insert_by_ID :: "instanceInfo \<Rightarrow> instanceInfo list \<Rightarrow> instanceInfo list" where
  "insert_by_ID x [] = [x]"
| "insert_by_ID x (y # ys) = (if str_le (iiName x) (iiName y) then x # y # ys else y # insert_by_ID x ys)"

definition List :: "'w host \<Rightarrow> Manager \<Rightarrow> 'w \<Rightarrow> (local_error + instanceInfo list) \<times> 'w" where
  "List h m w =
     (case validate m of Some e \<Rightarrow> (Inl e, w)
      | None \<Rightarrow>
        (case hExec h CallerCtx (mRuntime m) [''ps'', ''--all'', ''--quiet'', ''--filter'', ClusterFilter (mCluster m)] w of
           ((output, Some err), w1) \<Rightarrow> (Inl (ErrListContainers err (TrimSpace output)), w1)
         | ((output, None), w1) \<Rightarrow>
           (case get_all h m (Fields output) w1 of
              (Inl e, w2) \<Rightarrow> (Inl e, w2)
            | (Inr instances, w2) \<Rightarrow> (Inr (foldr insert_by_ID instances []), w2))))"

definition RunCommandWithOptions ::
  "'w host \<Rightarrow> instanceInfo \<Rightarrow> string list \<Rightarrow> RunCommandOptions option \<Rightarrow> 'w \<Rightarrow> (local_error + ExecuteResult) \<times> 'w" where
  "RunCommandWithOptions h i command opts w =
     (if command = [] then (Inl ErrCommandRequired, w)
      else
        let ctx = (case opts of Some opt \<Rightarrow> if roTimeout opt > 0 then AttemptCtx else CallerCtx | None \<Rightarrow> CallerCtx);
            args = [''exec''];
            args = (case opts of Some opt \<Rightarrow> if roStdin opt \<noteq> None then args @ [''--interactive''] else args | None \<Rightarrow> args);
            args = (case opts of Some opt \<Rightarrow> if roWorkDir opt \<noteq> [] then args @ [''--workdir'', roWorkDir opt] else args | None \<Rightarrow> args);
            args = args @ [iiName i] @ command;
            stdin = (case opts of Some opt \<Rightarrow> roStdin opt | None \<Rightarrow> None)
        in case hRun h ctx (iiRuntime i) args stdin w of
             ((stdout, stderr, err), w') \<Rightarrow>
               (case err of
                  Some (ExitError code) \<Rightarrow> (Inr \<lparr>erExitCode = code, erStdout = stdout, erStderr = stderr\<rparr>, w')
                | Some e \<Rightarrow> (Inl (ErrExec (iiName i) e), w')
                | None \<Rightarrow> (Inr \<lparr>erExitCode = 0, erStdout = stdout, erStderr = stderr\<rparr>, w')))"

section \<open>Creating and deleting\<close>

definition clientPortMapping :: "PortMapping list \<Rightarrow> local_error + PortMapping" where
  "clientPortMapping mappings =
     (if length mappings \<noteq> 1 then Inl ErrOnePortMapping
      else let mapping = mappings ! 0 in
           if pmContainerPort mapping \<noteq> 2379 \<or> pmHostPort mapping < 1 \<or> pmHostPort mapping > 65535
           then Inl ErrPortMapping
           else if pmProtocol mapping \<noteq> [] \<and> pmProtocol mapping \<noteq> ''tcp'' then Inl ErrPortProtocol
           else Inr mapping)"

text \<open>\<^verbatim>\<open>strings.Cut\<close> at an equals sign finds a non-empty key iff the string contains the sign, but not
  in front.\<close>

definition env_entry_ok :: "string \<Rightarrow> bool" where
  "env_entry_ok env = (CHR ''='' \<in> set env \<and> takeWhile (\<lambda>c. c \<noteq> CHR ''='') env \<noteq> [])"

definition validateCreateConfig :: "CreateConfig \<Rightarrow> local_error option" where
  "validateCreateConfig cfg =
     (case find (\<lambda>env. \<not> env_entry_ok env) (ccEnv cfg) of
        Some env \<Rightarrow> Some (ErrEnvEntry env)
      | None \<Rightarrow>
        (case ccAuxPortMapping cfg of
           None \<Rightarrow> None
         | Some aux \<Rightarrow>
             (if pmContainerPort aux < 1 \<or> pmContainerPort aux > 65535 \<or> pmContainerPort aux = 2379
              then Some (ErrAuxContainerPort (pmContainerPort aux))
              else if pmHostPort aux < 1 \<or> pmHostPort aux > 65535 then Some (ErrAuxHostPort (pmHostPort aux))
              else if pmProtocol aux \<noteq> [] \<and> pmProtocol aux \<noteq> ''tcp'' then Some ErrAuxProtocol
              else None)))"

definition publishArg :: "PortMapping \<Rightarrow> int \<Rightarrow> string" where
  "publishArg mapping hostPort =
     (let hostIP = (if pmHostIP mapping = [] then ''127.0.0.1'' else pmHostIP mapping)
      in hostIP @ '':'' @ show_int hostPort @ '':'' @ show_int (pmContainerPort mapping))"

definition createRunArgs :: "string \<Rightarrow> string \<Rightarrow> string \<Rightarrow> string \<Rightarrow> PortMapping \<Rightarrow> CreateConfig \<Rightarrow> string list" where
  "createRunArgs cluster name img volume port cfg =
     [''run'', ''--detach'', ''--name'', name, ''--label'', clusterLabel cluster,
      ''--network'', NetworkName cluster, ''--publish'', publishArg port (pmHostPort port)] @
     (case ccAuxPortMapping cfg of None \<Rightarrow> [] | Some aux \<Rightarrow> [''--publish'', publishArg aux (pmHostPort aux)]) @
     concat (map (\<lambda>env. [''--env'', env]) (ccEnv cfg)) @
     [''--volume'', volume @ '':'' @ DataDir, img] @ ccCommand cfg"

text \<open>The deferred function of \<^verbatim>\<open>Create\<close> when no instance was returned.\<close>

definition create_cleanup :: "'w host \<Rightarrow> Manager \<Rightarrow> string \<Rightarrow> string \<Rightarrow> 'w \<Rightarrow> 'w" where
  "create_cleanup h m name volume w =
     (let (r, w1) = ownedContainer h CleanupCtx m name w;
          w2 = (case r of Inl _ \<Rightarrow> w1
                | Inr _ \<Rightarrow> snd (hExec h CleanupCtx (mRuntime m) [''rm'', ''--force'', name] w1));
          (own, w3) = ownedVolume h CleanupCtx m volume w2
      in if own then snd (hExec h CleanupCtx (mRuntime m) [''volume'', ''rm'', ''--force'', volume] w3) else w3)"

definition launch :: "'w host \<Rightarrow> Manager \<Rightarrow> string \<Rightarrow> string \<Rightarrow> PortMapping \<Rightarrow> CreateConfig \<Rightarrow> 'w \<Rightarrow>
    (local_error + instanceInfo) \<times> 'w" where
  "launch h m name img port cfg w =
     (let volume = dataVolumeName name in
      case hExec h CallerCtx (mRuntime m) (createRunArgs (mCluster m) name img volume port cfg) w of
        ((output, Some err), w1) \<Rightarrow>
          (Inl (ErrStartContainer name err (TrimSpace output)), create_cleanup h m name volume w1)
      | ((output, None), w1) \<Rightarrow>
          (case Get h m name w1 of
             (Inl e, w2) \<Rightarrow> (Inl e, create_cleanup h m name volume w2)
           | (Inr inst, w2) \<Rightarrow> (Inr inst, w2)))"

definition create_config :: "create_op \<Rightarrow> local_error + CreateConfig" where
  "create_config req = (case opProviderConfig req of
     None \<Rightarrow> Inl ErrCreateConfig | Some cfg \<Rightarrow> if ccCommand cfg = [] then Inl ErrCreateConfig else Inr cfg)"

definition create_volume :: "'w host \<Rightarrow> Manager \<Rightarrow> string \<Rightarrow> 'w \<Rightarrow> local_error option \<times> 'w" where
  "create_volume h m name w =
     (let volume = dataVolumeName name in
      case hExec h CallerCtx (mRuntime m) [''volume'', ''inspect'', volume] w of
        ((_, None), w1) \<Rightarrow> (Some (ErrVolumeExists volume), w1)
      | ((_, Some _), w1) \<Rightarrow>
        (case hExec h CallerCtx (mRuntime m) [''volume'', ''create'', ''--label'', clusterLabel (mCluster m), volume] w1 of
           ((output, Some err), w2) \<Rightarrow> (Some (ErrCreateVolume name err (TrimSpace output)), w2)
         | ((output, None), w2) \<Rightarrow> (None, w2)))"

definition Create :: "'w host \<Rightarrow> Manager \<Rightarrow> create_op \<Rightarrow> 'w \<Rightarrow> (local_error + instanceInfo) \<times> 'w" where
  "Create h m req w =
     (case validate m of Some e \<Rightarrow> (Inl e, w)
      | None \<Rightarrow>
        let name = TrimSpace (opName req) in
        if name = [] then (Inl ErrContainerNameRequired, w)
        else if TrimSpace (opImage req) = [] then (Inl ErrImageRequired, w)
        else (case hExec h CallerCtx (mRuntime m) [''inspect'', name] w of
                ((_, None), w1) \<Rightarrow> (Inl (ErrContainerExists name), w1)
              | ((_, Some _), w1) \<Rightarrow>
                (case create_config req of Inl e \<Rightarrow> (Inl e, w1)
                 | Inr cfg \<Rightarrow>
                   (case clientPortMapping (opPortMappings req) of Inl e \<Rightarrow> (Inl e, w1)
                    | Inr port \<Rightarrow>
                      (case validateCreateConfig cfg of Some e \<Rightarrow> (Inl e, w1)
                       | None \<Rightarrow>
                         (case create_volume h m name w1 of
                            (Some e, w2) \<Rightarrow> (Inl e, w2)
                          | (None, w2) \<Rightarrow> launch h m name (opImage req) port cfg w2))))))"

definition Delete :: "'w host \<Rightarrow> Manager \<Rightarrow> string \<Rightarrow> 'w \<Rightarrow> (local_error + DeleteResult) \<times> 'w" where
  "Delete h m i w =
     (case validate m of Some e \<Rightarrow> (Inl e, w)
      | None \<Rightarrow>
        let i = TrimSpace i in
        if i = [] then (Inl ErrContainerNameRequired, w)
        else (case ownedContainer h CallerCtx m i w of
                (Inl e, w1) \<Rightarrow> (Inl e, w1)
              | (Inr _, w1) \<Rightarrow>
                (case hExec h CallerCtx (mRuntime m) [''rm'', ''--force'', i] w1 of
                   ((output, Some err), w2) \<Rightarrow> (Inl (ErrRemoveContainer i err (TrimSpace output)), w2)
                 | ((output, None), w2) \<Rightarrow> (Inr \<lparr>drID = i, drDeleted = True\<rparr>, w2))))"

section \<open>Replacing a machine\<close>

text \<open>The loop over the port bindings.\<close>

fun aux_publish :: "string \<Rightarrow> (string \<times> portBinding list) list \<Rightarrow> string \<Rightarrow> local_error + string" where
  "aux_publish name [] auxPublish = Inr auxPublish"
| "aux_publish name ((portKey, portBindings) # rest) auxPublish =
     (if portKey = ''2379/tcp'' then aux_publish name rest auxPublish
      else (case CutSuffix portKey ''/tcp'' of
              None \<Rightarrow> Inl (ErrAuxBinding name portKey)
            | Some containerPort \<Rightarrow>
                (case portBindings of
                   [b] \<Rightarrow>
                     (if pbHostPort b = [] then Inl (ErrAuxBinding name portKey)
                      else if auxPublish \<noteq> [] then Inl (ErrAuxBindings name)
                      else aux_publish name rest
                             ((if pbHostIP b = [] then ''127.0.0.1'' else pbHostIP b) @ '':'' @ pbHostPort b @ '':'' @ containerPort))
                 | _ \<Rightarrow> Inl (ErrAuxBinding name portKey))))"

definition data_volume :: "containerMount list \<Rightarrow> string" where
  "data_volume mounts =
     (case find (\<lambda>mount. cmType mount = ''volume'' \<and> cmDestination mount = DataDir) mounts of
        None \<Rightarrow> [] | Some mount \<Rightarrow> cmName mount)"

definition replacementSpecFromInspect :: "containerInspect \<Rightarrow> string \<Rightarrow> local_error + replacementSpec" where
  "replacementSpecFromInspect c cluster =
     (let name = TrimPrefix (ciName c) ''/'';
          networkName = NetworkName cluster;
          ip = get_string (ciNetworks c) networkName;
          bindings = (case map_of (ciPortBindings c) ''2379/tcp'' of None \<Rightarrow> [] | Some bs \<Rightarrow> bs);
          volume = data_volume (ciMounts c)
      in if ip = [] then Inl (ErrNoIP name networkName)
         else if length bindings \<noteq> 1 \<or> pbHostPort (bindings ! 0) = [] then Inl (ErrNoClientPort name)
         else case aux_publish name (ciPortBindings c) [] of
                Inl e \<Rightarrow> Inl e
              | Inr aux \<Rightarrow>
                  if volume = [] then Inl (ErrNoVolume name)
                  else if ciID c = [] \<or> name = [] \<or> ciImage c = [] \<or> ciCmd c = [] then Inl (ErrInspectionIncomplete name)
                  else Inr \<lparr>rsContainerID = ciID c, rsName = name, rsCluster = cluster, rsImage = ciImage c,
                            rsCommand = ciCmd c, rsEnv = ciEnv c, rsAuxPublish = aux, rsNetwork = networkName,
                            rsPrivateIP = ip, rsHostIP = pbHostIP (bindings ! 0), rsHostPort = pbHostPort (bindings ! 0),
                            rsVolume = volume\<rparr>)"

definition sameEnv :: "string list \<Rightarrow> string list \<Rightarrow> bool" where
  "sameEnv a b = (if length a \<noteq> length b then False else sort_Strings a = sort_Strings b)"

definition runArgs :: "replacementSpec \<Rightarrow> string list" where
  "runArgs spec =
     (let publish = rsHostPort spec @ '':2379'';
          publish = (if rsHostIP spec \<noteq> [] then rsHostIP spec @ '':'' @ publish else publish)
      in [''run'', ''--detach'', ''--name'', rsName spec, ''--label'', clusterLabel (rsCluster spec),
          ''--network'', rsNetwork spec, ''--ip'', rsPrivateIP spec, ''--publish'', publish] @
         (if rsAuxPublish spec \<noteq> [] then [''--publish'', rsAuxPublish spec] else []) @
         concat (map (\<lambda>env. [''--env'', env]) (rsEnv spec)) @
         [''--volume'', rsVolume spec @ '':'' @ DataDir, rsImage spec] @ rsCommand spec)"

definition runWithAttemptTimeout :: "'w host \<Rightarrow> string \<Rightarrow> string list \<Rightarrow> 'w \<Rightarrow> (string \<times> exec_error option) \<times> 'w" where
  "runWithAttemptTimeout h runtime args w =
     (case hExec h AttemptCtx runtime args w of ((output, err), w') \<Rightarrow> ((TrimSpace output, err), w'))"

text \<open>The body of the recovery loop: \<open>Inl (Some e)\<close> and \<open>Inl None\<close> are its returns, \<open>Inr e\<close> is the new
  \<^verbatim>\<open>lastErr\<close> with which it waits for the next tick.\<close>

definition recovery_step ::
  "'w host \<Rightarrow> Manager \<Rightarrow> replacementSpec \<Rightarrow> 'w \<Rightarrow> (local_error option + local_error) \<times> 'w" where
  "recovery_step h m before w =
     (case ownedContainer h RecoveryCtx m (rsName before) w of
        (Inr inspected, w1) \<Rightarrow>
          if \<not> csRunning (ciState inspected)
          then if to_lower (csStatus (ciState inspected)) \<in> {''created'', ''configured'', ''restarting''}
               then (Inr (ErrContainerState (rsName before) (csStatus (ciState inspected))), w1)
               else (case runWithAttemptTimeout h (mRuntime m) [''rm'', ''--force'', rsName before] w1 of
                       ((output, Some err), w2) \<Rightarrow> (Inr (ErrRemoveStopped (rsName before) err output), w2)
                     | ((output, None), w2) \<Rightarrow> (Inr (ErrRelaunching (rsName before) (csStatus (ciState inspected))), w2))
          else (case replacementSpecFromInspect inspected (mCluster m) of
                  Inl e \<Rightarrow> (Inr e, w1)
                | Inr after \<Rightarrow>
                    if rsContainerID after = rsContainerID before then (Inl (Some (ErrNotReplaced (rsName before))), w1)
                    else if rsPrivateIP after \<noteq> rsPrivateIP before \<or> rsVolume after \<noteq> rsVolume before \<or>
                            rsAuxPublish after \<noteq> rsAuxPublish before \<or> \<not> sameEnv (rsEnv after) (rsEnv before)
                    then (case runWithAttemptTimeout h (mRuntime m) [''rm'', ''--force'', rsName before] w1 of
                            ((output, Some err), w2) \<Rightarrow>
                              (Inl (Some (ErrRemoveMismatched (ErrIdentityChanged (rsName before)) err output)), w2)
                          | ((output, None), w2) \<Rightarrow> (Inr (ErrIdentityChanged (rsName before)), w2))
                    else (Inl None, w1))
      | (Inl inspectErr, w1) \<Rightarrow>
          (case runWithAttemptTimeout h (mRuntime m) (runArgs before) w1 of
             ((output, Some err), w2) \<Rightarrow> (Inr (ErrRelaunch (rsName before) (rsVolume before) err output), w2)
           | ((output, None), w2) \<Rightarrow> (Inr inspectErr, w2)))"

text \<open>\<open>ticks\<close> is how often the ticker fires before the recovery context ends: the context expires after
  two minutes, so every run of the loop has such a number.\<close>

fun restoreContainer ::
  "'w host \<Rightarrow> Manager \<Rightarrow> replacementSpec \<Rightarrow> nat \<Rightarrow> 'w \<Rightarrow> local_error option \<times> 'w" where
  "restoreContainer h m before ticks w =
     (case recovery_step h m before w of
        (Inl result, w1) \<Rightarrow> (result, w1)
      | (Inr lastErr, w1) \<Rightarrow>
          (case ticks of
             0 \<Rightarrow> (Some (ErrRecover (rsName before) (Some lastErr)), w1)
           | Suc k \<Rightarrow> restoreContainer h m before k (hTick h w1)))"

declare restoreContainer.simps [simp del]

definition ReplaceMachine ::
  "'w host \<Rightarrow> Manager \<Rightarrow> nat \<Rightarrow> string \<Rightarrow> 'w \<Rightarrow> (local_error + ReplaceResult) \<times> 'w" where
  "ReplaceMachine h m ticks i w =
     (case validate m of Some e \<Rightarrow> (Inl e, w)
      | None \<Rightarrow>
        let i = TrimSpace i in
        if i = [] then (Inl ErrContainerNameRequired, w)
        else if hCtxDone h w then (Inl ErrContext, w)
        else (case ownedContainer h CallerCtx m i w of
                (Inl e, w1) \<Rightarrow> (Inl e, w1)
              | (Inr inspected, w1) \<Rightarrow>
                (case replacementSpecFromInspect inspected (mCluster m) of
                   Inl e \<Rightarrow> (Inl e, w1)
                 | Inr before \<Rightarrow>
                   (case hExec h TerminationCtx (mRuntime m) [''rm'', ''--force'', rsName before] w1 of
                      ((output, Some err), w2) \<Rightarrow> (Inl (ErrTerminateContainer (rsName before) err (TrimSpace output)), w2)
                    | ((output, None), w2) \<Rightarrow>
                      (case (if mDowntime m > 0 then hDowntime h (mDowntime m) w2 else (False, w2)) of
                         (interrupted, w3) \<Rightarrow>
                           (case restoreContainer h m before ticks w3 of
                              (None, w4) \<Rightarrow> (Inr \<lparr>rrPreviousID = i, rrGroup = [], rrID = []\<rparr>, w4)
                            | (Some recoveryErr, w4) \<Rightarrow>
                                (Inl (ErrJoined (if interrupted \<or> hCtxDone h w4 then Some ErrContext else None) recoveryErr), w4)))))))"

end
