(* ===== verification/LocalSafety.thy ===== *)
theory LocalSafety
  imports LocalProvider
begin

text \<open>
  What the local provider does to the container runtime. The host is instrumented with a log of
  the commands and their outcomes; the instrumented host answers exactly as the plain one
  (\<open>ReplaceMachine_logged\<close> and its companions). A log is \<^emph>\<open>guarded\<close> when every command that stops,
  starts or removes something directly follows an inspection that showed the cluster's label on
  that very container or volume. The locale \<open>log_keeper\<close> is the contract between the operations
  and the runs of the provider: operations that extend the log by an acceptable piece compose.
\<close>

type_synonym entry = "string list \<times> string \<times> exec_error option"

definition logged :: "'w host \<Rightarrow> ('w \<times> entry list) host" where
  "logged h =
     \<lparr>hExec = (\<lambda>ctx rt args wl. case hExec h ctx rt args (fst wl) of
          ((out, err), w') \<Rightarrow> ((out, err), (w', snd wl @ [(args, out, err)]))),
      hRun = (\<lambda>ctx rt args inp wl. case hRun h ctx rt args inp (fst wl) of (r, w') \<Rightarrow> (r, (w', snd wl))),
      hInspect = hInspect h, hVolumeLabels = hVolumeLabels h, hCtxDone = (\<lambda>wl. hCtxDone h (fst wl)),
      hDowntime = (\<lambda>d wl. case hDowntime h d (fst wl) of (b, w') \<Rightarrow> (b, (w', snd wl))),
      hTick = (\<lambda>wl. (hTick h (fst wl), snd wl))\<rparr>"

lemma logged_sel [simp]:
  "hInspect (logged h) = hInspect h" "hVolumeLabels (logged h) = hVolumeLabels h"
  "hCtxDone (logged h) wl = hCtxDone h (fst wl)" "hTick (logged h) wl = (hTick h (fst wl), snd wl)"
  "hExec (logged h) ctx rt args wl =
     (fst (hExec h ctx rt args (fst wl)),
      (snd (hExec h ctx rt args (fst wl)), snd wl @ [(args, fst (hExec h ctx rt args (fst wl)))]))"
  "hDowntime (logged h) d wl = (fst (hDowntime h d (fst wl)), (snd (hDowntime h d (fst wl)), snd wl))"
  by (simp_all add: logged_def split: prod.split)

section \<open>Guarded logs\<close>

definition owned :: "'w host \<Rightarrow> Manager \<Rightarrow> string \<Rightarrow> containerInspect \<Rightarrow> bool" where
  "owned h m out c \<longleftrightarrow> hInspect h out = Some [c] \<and> get_string (ciLabels c) clusterLabelKey = mCluster m"

fun intrusive :: "string list \<Rightarrow> bool" where
  "intrusive (c # args) = (c \<in> {''rm'', ''stop'', ''start''} \<or> c = ''volume'' \<and> take 1 args = [''rm''])"
| "intrusive [] = False"

definition permits :: "'w host \<Rightarrow> Manager \<Rightarrow> entry \<Rightarrow> string list \<Rightarrow> bool" where
  "permits h m e args \<longleftrightarrow>
     (\<exists>i n out c. e = ([''inspect'', i], out, None) \<and> owned h m out c \<and> (n = i \<or> n = TrimPrefix (ciName c) ''/'') \<and>
        args \<in> {[''rm'', ''--force'', n], [''stop'', n], [''start'', n]}) \<or>
     (\<exists>v out labels. e = ([''volume'', ''inspect'', v], out, None) \<and> hVolumeLabels h out = Some [labels] \<and>
        get_string labels clusterLabelKey = mCluster m \<and> args = [''volume'', ''rm'', ''--force'', v])"

fun guarded :: "'w host \<Rightarrow> Manager \<Rightarrow> entry option \<Rightarrow> entry list \<Rightarrow> bool" where
  "guarded h m p [] = True"
| "guarded h m p (e # es) =
     ((intrusive (fst e) \<longrightarrow> (case p of None \<Rightarrow> False | Some q \<Rightarrow> permits h m q (fst e))) \<and> guarded h m (Some e) es)"

lemma guarded_anywhere: "guarded h m None es \<Longrightarrow> guarded h m p es"
  by (cases es) auto

lemma guarded_append: "guarded h m p es \<Longrightarrow> guarded h m None fs \<Longrightarrow> guarded h m p (es @ fs)"
  by (induction es arbitrary: p) (auto intro: guarded_anywhere)

text \<open>The reading of \<open>guarded\<close> at a position of the log.\<close>

lemma guarded_nth_gen:
  "guarded h m p es \<Longrightarrow> k < length es \<Longrightarrow> intrusive (fst (es ! k)) \<Longrightarrow>
   (case (p # map Some es) ! k of None \<Rightarrow> False | Some q \<Rightarrow> permits h m q (fst (es ! k)))"
proof (induction es arbitrary: p k)
  case (Cons e es)
  show ?case
  proof (cases k)
    case 0
    with Cons.prems show ?thesis by (auto split: option.splits)
  next
    case (Suc j)
    from Cons.IH [of "Some e" j] Cons.prems show ?thesis
      by (simp only: Suc nth_Cons_Suc list.map guarded.simps list.size)
  qed
qed simp

lemma guarded_nth:
  assumes "guarded h m None es" "k < length es" "intrusive (fst (es ! k))"
  shows "0 < k \<and> permits h m (es ! (k - 1)) (fst (es ! k))"
  using guarded_nth_gen [OF assms] assms(2) by (cases k) simp_all

locale log_keeper =
  fixes serve :: "'r \<Rightarrow> 'w \<times> 'e list \<Rightarrow> 'w \<times> 'e list" and ok :: "'e list \<Rightarrow> bool"
  assumes ok_Nil: "ok []"
    and ok_append: "ok a \<Longrightarrow> ok b \<Longrightarrow> ok (a @ b)"
    and serve_extends: "\<exists>k. snd (serve r (w, l)) = l @ k \<and> ok k"
begin

lemma run_extends: "\<exists>k. snd (fold serve rs (w, l)) = l @ k \<and> ok k"
proof (induction rs arbitrary: w l)
  case Nil
  then show ?case using ok_Nil by simp
next
  case (Cons r rs)
  obtain k where k: "snd (serve r (w, l)) = l @ k" "ok k" using serve_extends by blast
  then obtain w' where w': "serve r (w, l) = (w', l @ k)" by (cases "serve r (w, l)") auto
  obtain k' where "snd (fold serve rs (w', l @ k)) = (l @ k) @ k'" "ok k'" using Cons.IH by blast
  with k w' ok_append show ?case by (intro exI [of _ "k @ k'"]) simp
qed

lemma run_ok: "ok (snd (fold serve rs (w, [])))"
  using run_extends [of rs w "[]"] by auto

end

section \<open>Every operation extends the log by a guarded piece\<close>

definition extends :: "'w host \<Rightarrow> Manager \<Rightarrow> entry list \<Rightarrow> 'w \<times> entry list \<Rightarrow> bool" where
  "extends h m l wl \<longleftrightarrow> (\<exists>k. snd wl = l @ k \<and> guarded h m None k)"

lemma extends_refl [simp]: "snd wl = l \<Longrightarrow> extends h m l wl"
  by (auto simp: extends_def intro: exI [of _ "[]"])

lemma extends_trans: "extends h m l wl \<Longrightarrow> extends h m (snd wl) wl' \<Longrightarrow> extends h m l wl'"
  by (fastforce simp: extends_def intro: guarded_append)

lemma extends_harmless: "\<not> intrusive args \<Longrightarrow> snd wl = l @ [(args, r)] \<Longrightarrow> extends h m l wl"
  by (auto simp: extends_def)

lemma extends_pair:
  "\<not> intrusive (fst e) \<Longrightarrow> permits h m e args \<Longrightarrow> snd wl = l @ [e, (args, r)] \<Longrightarrow> extends h m l wl"
  by (auto simp: extends_def)

text \<open>An inspection is logged, and a successful one shows an owned container.\<close>

lemma ownedContainer_log:
  assumes "ownedContainer (logged h) ctx m i wl = (r, wl')"
  shows "\<exists>out err. snd wl' = snd wl @ [([''inspect'', i], out, err)] \<and>
    (case r of Inl _ \<Rightarrow> True | Inr c \<Rightarrow> err = None \<and> owned h m out c)"
proof -
  obtain out err w' where e: "hExec h ctx (mRuntime m) [''inspect'', i] (fst wl) = ((out, err), w')"
    by (metis surj_pair)
  show ?thesis
  proof (cases "err = None \<and> (\<exists>c. hInspect h out = Some [c])")
    case True
    then obtain c where c: "err = None" "hInspect h out = Some [c]" by blast
    with assms e show ?thesis by (auto simp: ownedContainer_def owned_def split: if_splits)
  next
    case False
    then have "err \<noteq> None \<or> hInspect h out = None \<or> (\<exists>cs. hInspect h out = Some cs \<and> length cs \<noteq> 1)"
      by (cases "hInspect h out") (auto simp: length_Suc_conv)
    with assms e show ?thesis by (cases err) (auto simp: ownedContainer_def)
  qed
qed

lemma ownedContainer_extends: "ownedContainer (logged h) ctx m i wl = (r, wl') \<Longrightarrow> extends h m (snd wl) wl'"
  using ownedContainer_log [of h ctx m i wl r wl'] by (auto intro!: extends_harmless [of "[''inspect'', i]"])

text \<open>An inspection of an owned container followed by an intrusive command on it.\<close>

lemma owned_then_act:
  assumes "ownedContainer (logged h) ctx m i wl = (Inr c, wl1)"
    and "snd wl2 = snd wl1 @ [(args, r)]"
    and "n = i \<or> n = TrimPrefix (ciName c) ''/''" "args \<in> {[''rm'', ''--force'', n], [''stop'', n], [''start'', n]}"
  shows "extends h m (snd wl) wl2"
proof -
  from ownedContainer_log [OF assms(1)] obtain out where
    out: "snd wl1 = snd wl @ [([''inspect'', i], out, None)]" "owned h m out c" by auto
  then have "permits h m ([''inspect'', i], out, None) args" using assms(3,4) unfolding permits_def by blast
  with out assms(2) show ?thesis by (intro extends_pair [of "([''inspect'', i], out, None)"]) auto
qed

lemma ownedVolume_log:
  assumes "ownedVolume (logged h) ctx m v wl = (own, wl')"
  shows "\<exists>out err. snd wl' = snd wl @ [([''volume'', ''inspect'', v], out, err)] \<and>
    (own \<longrightarrow> err = None \<and> (\<exists>labels. hVolumeLabels h out = Some [labels] \<and> get_string labels clusterLabelKey = mCluster m))"
proof -
  obtain out err w' where e: "hExec h ctx (mRuntime m) [''volume'', ''inspect'', v] (fst wl) = ((out, err), w')"
    by (metis surj_pair)
  show ?thesis
  proof (cases "err = None \<and> (\<exists>c. hVolumeLabels h out = Some [c])")
    case True
    with assms e show ?thesis by (auto simp: ownedVolume_def)
  next
    case False
    then have "err \<noteq> None \<or> hVolumeLabels h out = None \<or> (\<exists>cs. hVolumeLabels h out = Some cs \<and> length cs \<noteq> 1)"
      by (cases "hVolumeLabels h out") (auto simp: length_Suc_conv)
    with assms e show ?thesis by (cases err) (auto simp: ownedVolume_def)
  qed
qed

lemma power_extends:
  assumes "operation \<in> {''stop'', ''start''}"
  shows "extends h m (snd wl) (snd (power (logged h) m operation i wl))"
proof (cases "validate m = None \<and> TrimSpace i \<noteq> []")
  case True
  obtain r wl1 where o: "ownedContainer (logged h) CallerCtx m (TrimSpace i) wl = (r, wl1)" by (metis surj_pair)
  show ?thesis
  proof (cases r)
    case (Inl e)
    with o True ownedContainer_extends [OF o] show ?thesis by (simp add: power_def Let_def)
  next
    case (Inr c)
    obtain out err w2 where x: "hExec h CallerCtx (mRuntime m) [operation, TrimSpace i] (fst wl1) = ((out, err), w2)"
      by (metis surj_pair)
    have "snd (snd (power (logged h) m operation i wl)) = snd wl1 @ [([operation, TrimSpace i], out, err)]"
      using o x True Inr by (cases err) (simp_all add: power_def Let_def)
    from owned_then_act [OF o [unfolded Inr] this, of "TrimSpace i"] assms show ?thesis by auto
  qed
next
  case False
  then show ?thesis by (cases "validate m") (auto simp: power_def Let_def)
qed

lemma Get_extends: "Get (logged h) m i wl = (r, wl') \<Longrightarrow> extends h m (snd wl) wl'"
proof -
  assume g: "Get (logged h) m i wl = (r, wl')"
  obtain r1 wl1 where o: "ownedContainer (logged h) CallerCtx m (TrimSpace i) wl = (r1, wl1)" by (metis surj_pair)
  have "wl' = wl \<or> wl' = wl1"
    using g o by (auto simp: Get_def Let_def split: option.splits if_splits sum.splits)
  with ownedContainer_extends [OF o] show ?thesis by auto
qed

lemma get_all_extends: "get_all (logged h) m is wl = (r, wl') \<Longrightarrow> extends h m (snd wl) wl'"
proof (induction "is" arbitrary: wl r)
  case (Cons i "is")
  obtain r1 wl1 where g: "Get (logged h) m i wl = (r1, wl1)" by (metis surj_pair)
  obtain r2 wl2 where ga: "get_all (logged h) m is wl1 = (r2, wl2)" by (metis surj_pair)
  have "wl' = wl1 \<or> wl' = wl2" using Cons.prems g ga by (auto split: sum.splits)
  moreover note Get_extends [OF g]
  moreover note Cons.IH
  ultimately show ?case using ga extends_trans by blast
qed simp

lemma List_extends: "extends h m (snd wl) (snd (List (logged h) m wl))"
proof (cases "validate m")
  case None
  let ?args = "[''ps'', ''--all'', ''--quiet'', ''--filter'', ClusterFilter (mCluster m)]"
  obtain out err w1 where x: "hExec h CallerCtx (mRuntime m) ?args (fst wl) = ((out, err), w1)" by (metis surj_pair)
  let ?wl1 = "(w1, snd wl @ [(?args, out, err)])"
  obtain r wl2 where g: "get_all (logged h) m (Fields out) ?wl1 = (r, wl2)" by (metis surj_pair)
  have "snd (List (logged h) m wl) = ?wl1 \<or> snd (List (logged h) m wl) = wl2"
    using None x g by (cases err) (auto simp: List_def split: sum.splits)
  moreover have first: "extends h m (snd wl) ?wl1" by (rule extends_harmless [of ?args]) simp_all
  moreover have "extends h m (snd wl) wl2"
    by (rule extends_trans [OF first get_all_extends [OF g]])
  ultimately show ?thesis by auto
qed (simp add: List_def)


lemma create_cleanup_extends: "extends h m (snd wl) (create_cleanup (logged h) m name volume wl)"
proof -
  obtain r wl1 where o: "ownedContainer (logged h) CleanupCtx m name wl = (r, wl1)" by (metis surj_pair)
  define wl2 where "wl2 = (case r of Inl _ \<Rightarrow> wl1
    | Inr _ \<Rightarrow> snd (hExec (logged h) CleanupCtx (mRuntime m) [''rm'', ''--force'', name] wl1))"
  have removed: "extends h m (snd wl) wl2"
  proof (cases r)
    case (Inl e)
    with ownedContainer_extends [OF o] show ?thesis by (simp add: wl2_def)
  next
    case (Inr c)
    then have "snd wl2 = snd wl1 @ [([''rm'', ''--force'', name],
        fst (hExec h CleanupCtx (mRuntime m) [''rm'', ''--force'', name] (fst wl1)))]"
      by (simp add: wl2_def)
    from owned_then_act [OF o [unfolded Inr] this, of name] show ?thesis by simp
  qed
  obtain own wl3 where v: "ownedVolume (logged h) CleanupCtx m volume wl2 = (own, wl3)" by (metis surj_pair)
  obtain out err where log3: "snd wl3 = snd wl2 @ [([''volume'', ''inspect'', volume], out, err)]"
    and own: "own \<Longrightarrow> err = None \<and> (\<exists>labels. hVolumeLabels h out = Some [labels] \<and> get_string labels clusterLabelKey = mCluster m)"
    using ownedVolume_log [OF v] by blast
  have end_state: "create_cleanup (logged h) m name volume wl =
      (if own then snd (hExec (logged h) CleanupCtx (mRuntime m) [''volume'', ''rm'', ''--force'', volume] wl3) else wl3)"
    using o v by (simp only: create_cleanup_def wl2_def Let_def prod.case)
  have "extends h m (snd wl2) (create_cleanup (logged h) m name volume wl)"
  proof (cases own)
    case True
    with own have "permits h m ([''volume'', ''inspect'', volume], out, err) [''volume'', ''rm'', ''--force'', volume]"
      by (auto simp: permits_def)
    then show ?thesis
      by (rule extends_pair [rotated]) (use True end_state log3 in simp_all)
  next
    case False
    then show ?thesis using end_state log3
      by (intro extends_harmless [of "[''volume'', ''inspect'', volume]"]) simp_all
  qed
  with removed show ?thesis by (rule extends_trans)
qed

lemma launch_extends: "extends h m (snd wl) (snd (launch (logged h) m name img port cfg wl))"
proof -
  let ?args = "createRunArgs (mCluster m) name img (dataVolumeName name) port cfg"
  have harmless: "\<not> intrusive ?args" by (simp add: createRunArgs_def)
  obtain out err w1 where x: "hExec h CallerCtx (mRuntime m) ?args (fst wl) = ((out, err), w1)" by (metis surj_pair)
  let ?wl1 = "(w1, snd wl @ [(?args, out, err)])"
  have first: "extends h m (snd wl) ?wl1" by (rule extends_harmless [OF harmless]) simp
  obtain r wl2 where g: "Get (logged h) m name ?wl1 = (r, wl2)" by (metis surj_pair)
  have second: "extends h m (snd wl) wl2" by (rule extends_trans [OF first Get_extends [OF g]])
  have "snd (launch (logged h) m name img port cfg wl) \<in>
      {create_cleanup (logged h) m name (dataVolumeName name) ?wl1, create_cleanup (logged h) m name (dataVolumeName name) wl2, wl2}"
    using x g by (cases err; cases r) (simp_all add: launch_def Let_def)
  then show ?thesis
    using second extends_trans [OF first create_cleanup_extends] extends_trans [OF second create_cleanup_extends] by auto
qed

lemma create_volume_extends: "extends h m (snd wl) (snd (create_volume (logged h) m name wl))"
proof -
  let ?a = "[''volume'', ''inspect'', dataVolumeName name]"
  let ?b = "[''volume'', ''create'', ''--label'', clusterLabel (mCluster m), dataVolumeName name]"
  obtain out err w1 where x: "hExec h CallerCtx (mRuntime m) ?a (fst wl) = ((out, err), w1)" by (metis surj_pair)
  obtain out2 err2 w2 where y: "hExec h CallerCtx (mRuntime m) ?b w1 = ((out2, err2), w2)" by (metis surj_pair)
  have "snd (snd (create_volume (logged h) m name wl)) \<in>
      {snd wl @ [(?a, out, err)], snd wl @ [(?a, out, err), (?b, out2, err2)]}"
    using x y by (cases err; cases err2) (simp_all add: create_volume_def Let_def)
  then show ?thesis by (auto simp: extends_def)
qed

lemma Create_extends: "extends h m (snd wl) (snd (Create (logged h) m req wl))"
proof -
  let ?name = "TrimSpace (opName req)"
  obtain out err w1 where x: "hExec h CallerCtx (mRuntime m) [''inspect'', ?name] (fst wl) = ((out, err), w1)"
    by (metis surj_pair)
  let ?wl1 = "(w1, snd wl @ [([''inspect'', ?name], out, err)])"
  have first: "extends h m (snd wl) ?wl1" by (rule extends_harmless [of "[''inspect'', ?name]"]) simp_all
  obtain r wl2 where v: "create_volume (logged h) m ?name ?wl1 = (r, wl2)" by (metis surj_pair)
  have second: "extends h m (snd wl) wl2"
    using extends_trans [OF first create_volume_extends [of h m ?wl1 ?name]] v by simp
  have "snd (Create (logged h) m req wl) \<in> {wl, ?wl1, wl2} \<union>
      {snd (launch (logged h) m ?name (opImage req) port cfg wl2) | port cfg. True}"
    using x v by (cases err; cases r)
      (auto simp: Create_def Let_def split: option.splits sum.splits)
  then show ?thesis using first second extends_trans [OF second launch_extends] by auto
qed

lemma Delete_extends: "extends h m (snd wl) (snd (Delete (logged h) m i wl))"
proof (cases "validate m = None \<and> TrimSpace i \<noteq> []")
  case True
  obtain r wl1 where o: "ownedContainer (logged h) CallerCtx m (TrimSpace i) wl = (r, wl1)" by (metis surj_pair)
  show ?thesis
  proof (cases r)
    case (Inl e)
    with o True ownedContainer_extends [OF o] show ?thesis by (simp add: Delete_def Let_def)
  next
    case (Inr c)
    obtain out err w2 where x: "hExec h CallerCtx (mRuntime m) [''rm'', ''--force'', TrimSpace i] (fst wl1) = ((out, err), w2)"
      by (metis surj_pair)
    have "snd (snd (Delete (logged h) m i wl)) = snd wl1 @ [([''rm'', ''--force'', TrimSpace i], out, err)]"
      using o x True Inr by (cases err) (simp_all add: Delete_def Let_def)
    from owned_then_act [OF o [unfolded Inr] this, of "TrimSpace i"] show ?thesis by simp
  qed
next
  case False
  then show ?thesis by (cases "validate m") (auto simp: Delete_def Let_def)
qed


section \<open>Replacing a machine\<close>

lemma mset_str_insert: "mset (str_insert x ys) = add_mset x (mset ys)"
  by (induction ys) auto

lemma str_le_antisym: "str_le s t \<Longrightarrow> str_le t s \<Longrightarrow> s = t"
  by (induction s t rule: str_le.induct) (auto elim: str_le.elims)

lemma str_insert_commute: "str_insert x (str_insert y zs) = str_insert y (str_insert x zs)"
proof (induction zs)
  case Nil
  then show ?case using str_le_antisym [of x y] str_le_total [of x y] by auto
next
  case (Cons z zs)
  then show ?case
    using str_le_antisym [of x y] str_le_total [of x y] str_le_trans [of x y z] str_le_trans [of y x z] by auto
qed

lemma sort_Strings_eq_iff: "sort_Strings a = sort_Strings b \<longleftrightarrow> mset a = mset b"
proof
  have m: "mset (sort_Strings xs) = mset xs" for xs
    by (induction xs) (simp_all add: sort_Strings_def mset_str_insert)
  show "sort_Strings a = sort_Strings b \<Longrightarrow> mset a = mset b" using m by metis
  assume "mset a = mset b"
  then have "mset (rev a) = mset (rev b)" by simp
  then have "fold str_insert (rev a) = fold str_insert (rev b)"
    by (rule fold_multiset_equiv [rotated]) (simp add: fun_eq_iff str_insert_commute)
  then show "sort_Strings a = sort_Strings b" by (simp add: sort_Strings_def foldr_conv_fold)
qed

lemma sameEnv_iff: "sameEnv a b \<longleftrightarrow> mset a = mset b"
  by (auto simp: sameEnv_def sort_Strings_eq_iff dest: mset_eq_length)

text \<open>What a replacement keeps, and the log entry that shows it.\<close>

definition replaces :: "replacementSpec \<Rightarrow> replacementSpec \<Rightarrow> bool" where
  "replaces before after \<longleftrightarrow> rsContainerID after \<noteq> rsContainerID before \<and> rsPrivateIP after = rsPrivateIP before \<and>
     rsVolume after = rsVolume before \<and> rsAuxPublish after = rsAuxPublish before \<and> mset (rsEnv after) = mset (rsEnv before)"

definition shows_replacement :: "'w host \<Rightarrow> Manager \<Rightarrow> replacementSpec \<Rightarrow> entry \<Rightarrow> bool" where
  "shows_replacement h m before e \<longleftrightarrow>
     (\<exists>out c after. e = ([''inspect'', rsName before], out, None) \<and> owned h m out c \<and> csRunning (ciState c) \<and>
        replacementSpecFromInspect c (mCluster m) = Inr after \<and> replaces before after)"

definition launches_only :: "replacementSpec \<Rightarrow> entry list \<Rightarrow> bool" where
  "launches_only before k \<longleftrightarrow> list_all (\<lambda>e. fst e \<noteq> [] \<and> (hd (fst e) = ''run'' \<longrightarrow> fst e = runArgs before)) k"

lemma runArgs_harmless: "\<not> intrusive (runArgs before)" "runArgs before \<noteq> []"
  by (simp_all add: runArgs_def Let_def)

text \<open>One round of the recovery loop.\<close>

definition recovery_log :: "'w host \<Rightarrow> Manager \<Rightarrow> replacementSpec \<Rightarrow> local_error option \<Rightarrow> entry list \<Rightarrow> bool" where
  "recovery_log h m before result k \<longleftrightarrow> k \<noteq> [] \<and> guarded h m None k \<and> launches_only before k \<and>
     (result = None \<longrightarrow> shows_replacement h m before (last k))"

lemma recovery_log_append:
  "guarded h m None a \<Longrightarrow> launches_only before a \<Longrightarrow> recovery_log h m before result b \<Longrightarrow>
   recovery_log h m before result (a @ b)"
  by (auto simp: recovery_log_def launches_only_def intro: guarded_append)

lemma recovery_step_log:
  assumes "recovery_step (logged h) m before wl = (r, wl')"
  shows "\<exists>k. snd wl' = snd wl @ k \<and> (case r of Inl result \<Rightarrow> recovery_log h m before result k
    | Inr _ \<Rightarrow> guarded h m None k \<and> launches_only before k)"
proof -
  let ?n = "rsName before"
  obtain ri wl1 where o: "ownedContainer (logged h) RecoveryCtx m ?n wl = (ri, wl1)" by (metis surj_pair)
  obtain out err where log1: "snd wl1 = snd wl @ [([''inspect'', ?n], out, err)]"
    and own: "\<And>c. ri = Inr c \<Longrightarrow> err = None \<and> owned h m out c"
    using ownedContainer_log [OF o] by (cases ri) auto
  let ?i = "([''inspect'', ?n], out, err)"
  have quiet: "guarded h m None [?i]" "launches_only before [?i]" by (simp_all add: launches_only_def)
  have rm: "guarded h m None [?i, ([''rm'', ''--force'', ?n], x)]" "launches_only before [?i, ([''rm'', ''--force'', ?n], x)]"
    if "ri = Inr c" for c x
  proof -
    from own [OF that] have "permits h m ?i [''rm'', ''--force'', ?n]" unfolding permits_def by blast
    then show "guarded h m None [?i, ([''rm'', ''--force'', ?n], x)]" by simp
    show "launches_only before [?i, ([''rm'', ''--force'', ?n], x)]" by (simp add: launches_only_def)
  qed
  obtain xout xerr xw where x: "hExec h AttemptCtx (mRuntime m) [''rm'', ''--force'', ?n] (fst wl1) = ((xout, xerr), xw)"
    by (metis surj_pair)
  show ?thesis
  proof (cases ri)
    case (Inl e)
    obtain yout yerr yw where y: "hExec h AttemptCtx (mRuntime m) (runArgs before) (fst wl1) = ((yout, yerr), yw)"
      by (metis surj_pair)
    have "guarded h m None [?i, (runArgs before, yout, yerr)]" "launches_only before [?i, (runArgs before, yout, yerr)]"
      using runArgs_harmless [of before] by (simp_all add: launches_only_def)
    moreover have "snd wl' = snd wl @ [?i, (runArgs before, yout, yerr)]" "\<exists>e'. r = Inr e'"
      using assms o y log1 Inl by (cases yerr; auto simp: recovery_step_def runWithAttemptTimeout_def)+
    ultimately show ?thesis by (intro exI [of _ "[?i, (runArgs before, yout, yerr)]"]) auto
  next
    case (Inr c)
    note owned_c = own [OF Inr] and removal = rm [OF Inr, of "(xout, xerr)"]
    have cases: "snd wl' = snd wl @ [?i] \<and> (\<exists>e. r = Inr e \<or> r = Inl (Some e)) \<or>
        snd wl' = snd wl @ [?i, ([''rm'', ''--force'', ?n], xout, xerr)] \<and> (\<exists>e. r = Inr e \<or> r = Inl (Some e)) \<or>
        snd wl' = snd wl @ [?i] \<and> r = Inl None \<and> shows_replacement h m before ?i"
      using assms o x log1 Inr owned_c
      by (cases xerr) (auto simp: recovery_step_def runWithAttemptTimeout_def shows_replacement_def replaces_def sameEnv_iff
        split: if_splits sum.splits)
    then show ?thesis using quiet removal
      by (elim disjE conjE exE) (auto simp: recovery_log_def intro: exI [of _ "[?i]"])
  qed
qed


lemma restoreContainer_log:
  "restoreContainer (logged h) m before ticks wl = (result, wl') \<Longrightarrow>
   \<exists>k. snd wl' = snd wl @ k \<and> recovery_log h m before result k"
proof (induction ticks arbitrary: wl)
  case 0
  obtain r wl1 where st: "recovery_step (logged h) m before wl = (r, wl1)" by (metis surj_pair)
  have ne: "guarded h m None k \<Longrightarrow> launches_only before k \<Longrightarrow> snd wl1 = snd wl @ k \<Longrightarrow> k \<noteq> []" for k
  proof -
    obtain ri wl2 where o: "ownedContainer (logged h) RecoveryCtx m (rsName before) wl = (ri, wl2)" by (metis surj_pair)
    have "length (snd wl) < length (snd wl2)" using ownedContainer_log [OF o] by auto
    moreover have "length (snd wl2) \<le> length (snd wl1)"
      using st o by (auto simp: recovery_step_def runWithAttemptTimeout_def split: sum.splits prod.splits option.splits if_splits)
    ultimately show "snd wl1 = snd wl @ k \<Longrightarrow> k \<noteq> []" by auto
  qed
  from recovery_step_log [OF st] 0 st ne show ?case
    by (cases r) (auto simp: restoreContainer.simps [of "logged h"] recovery_log_def)
next
  case (Suc ticks)
  obtain r wl1 where st: "recovery_step (logged h) m before wl = (r, wl1)" by (metis surj_pair)
  show ?case
  proof (cases r)
    case (Inl result')
    with recovery_step_log [OF st] Suc.prems st show ?thesis by (auto simp: restoreContainer.simps [of "logged h"])
  next
    case (Inr e)
    with Suc.prems st have "restoreContainer (logged h) m before ticks (hTick (logged h) wl1) = (result, wl')"
      by (simp add: restoreContainer.simps [of "logged h" m before "Suc ticks"])
    from Suc.IH [OF this] obtain b where b: "snd wl' = snd wl1 @ b" "recovery_log h m before result b" by auto
    from recovery_step_log [OF st] Inr obtain a where
      a: "snd wl1 = snd wl @ a" "guarded h m None a" "launches_only before a" by auto
    from recovery_log_append [OF a(2,3) b(2)] a(1) b(1) show ?thesis by (intro exI [of _ "a @ b"]) simp
  qed
qed

text \<open>The log of a replacement: nothing but inspections up to the decision to replace; then the removal of
  the inspected container, and the recovery.\<close>

lemma ReplaceMachine_log:
  assumes "ReplaceMachine (logged h) m ticks i wl = (r, wl')"
  shows "(\<exists>e. r = Inl e) \<and> extends h m (snd wl) wl' \<or>
    (\<exists>out c before out' err k. snd wl' = snd wl @ [([''inspect'', TrimSpace i], out, None), ([''rm'', ''--force'', rsName before], out', err)] @ k \<and>
       owned h m out c \<and> replacementSpecFromInspect c (mCluster m) = Inr before \<and> err = None \<and>
       recovery_log h m before (case r of Inl e \<Rightarrow> Some e | Inr _ \<Rightarrow> None) k)"
proof (cases "validate m = None \<and> TrimSpace i \<noteq> [] \<and> \<not> hCtxDone h (fst wl)")
  case False
  then have "(\<exists>e. r = Inl e) \<and> wl' = wl" using assms
    by (cases "validate m") (auto simp: ReplaceMachine_def Let_def split: if_splits)
  then show ?thesis by auto
next
  case True
  obtain ri wl1 where o: "ownedContainer (logged h) CallerCtx m (TrimSpace i) wl = (ri, wl1)" by (metis surj_pair)
  show ?thesis
  proof (cases "\<exists>c before. ri = Inr c \<and> replacementSpecFromInspect c (mCluster m) = Inr before")
    case False
    then have "(\<exists>e. r = Inl e) \<and> wl' = wl1" using assms True o
      by (auto simp: ReplaceMachine_def Let_def split: sum.splits)
    then show ?thesis using ownedContainer_extends [OF o] by auto
  next
    case goes_on: True
    then obtain c before where c: "ri = Inr c" "replacementSpecFromInspect c (mCluster m) = Inr before" by blast
    let ?rm = "[''rm'', ''--force'', rsName before]"
    obtain out' err w2 where x: "hExec h TerminationCtx (mRuntime m) ?rm (fst wl1) = ((out', err), w2)" by (metis surj_pair)
    from ownedContainer_log [OF o] c(1) obtain out where
      out: "snd wl1 = snd wl @ [([''inspect'', TrimSpace i], out, None)]" "owned h m out c" by auto
    have name: "rsName before = TrimPrefix (ciName c) ''/''"
      using c(2) by (auto simp: replacementSpecFromInspect_def Let_def split: if_splits sum.splits)
    let ?wl2 = "(w2, snd wl1 @ [(?rm, out', err)])"
    show ?thesis
    proof (cases err)
      case (Some e)
      have "extends h m (snd wl) ?wl2"
        by (rule owned_then_act [OF o [unfolded c(1)] _ disjI2 [OF name] insertI1]) simp
      moreover have "(\<exists>e. r = Inl e) \<and> wl' = ?wl2" using assms True o c x Some
        by (auto simp: ReplaceMachine_def Let_def)
      ultimately show ?thesis by auto
    next
      case None
      obtain b wl3 where d: "(if mDowntime m > 0 then hDowntime (logged h) (mDowntime m) ?wl2 else (False, ?wl2)) = (b, wl3)"
        by (metis surj_pair)
      then have log3: "snd wl3 = snd wl1 @ [(?rm, out', err)]" by (auto split: if_splits)
      obtain result wl4 where rc: "restoreContainer (logged h) m before ticks wl3 = (result, wl4)" by (metis surj_pair)
      have "wl' = wl4" "(case r of Inl e \<Rightarrow> Some e | Inr _ \<Rightarrow> None) = None \<longleftrightarrow> result = None"
        using assms True o c x None d rc
        by (cases "0 < mDowntime m"; auto simp: ReplaceMachine_def Let_def split: option.splits)+
      moreover from restoreContainer_log [OF rc] obtain k where
        k: "snd wl4 = snd wl3 @ k" "recovery_log h m before result k" by blast
      ultimately show ?thesis using out c(2) None log3
        by (intro disjI2 exI [of _ out] exI [of _ c] exI [of _ before] exI [of _ out'] exI [of _ err] exI [of _ k])
          (auto simp: recovery_log_def)
    qed
  qed
qed

lemma ReplaceMachine_extends: "extends h m (snd wl) (snd (ReplaceMachine (logged h) m ticks i wl))"
proof -
  obtain r wl' where r: "ReplaceMachine (logged h) m ticks i wl = (r, wl')" by (metis surj_pair)
  from ReplaceMachine_log [OF r] show ?thesis
  proof
    assume "(\<exists>e. r = Inl e) \<and> extends h m (snd wl) wl'"
    with r show ?thesis by simp
  next
    assume "\<exists>out c before out' err k. snd wl' = snd wl @ [([''inspect'', TrimSpace i], out, None), ([''rm'', ''--force'', rsName before], out', err)] @ k \<and>
       owned h m out c \<and> replacementSpecFromInspect c (mCluster m) = Inr before \<and> err = None \<and>
       recovery_log h m before (case r of Inl e \<Rightarrow> Some e | Inr _ \<Rightarrow> None) k"
    then obtain out c before out' err k where *: "snd wl' = snd wl @ [([''inspect'', TrimSpace i], out, None), ([''rm'', ''--force'', rsName before], out', err)] @ k"
       "owned h m out c" "replacementSpecFromInspect c (mCluster m) = Inr before"
       "recovery_log h m before (case r of Inl e \<Rightarrow> Some e | Inr _ \<Rightarrow> None) k" by blast
    have name: "rsName before = TrimPrefix (ciName c) ''/''"
      using *(3) by (auto simp: replacementSpecFromInspect_def Let_def split: if_splits sum.splits)
    then have "permits h m ([''inspect'', TrimSpace i], out, None) [''rm'', ''--force'', rsName before]"
      using *(2) unfolding permits_def by blast
    then have "guarded h m None ([([''inspect'', TrimSpace i], out, None), ([''rm'', ''--force'', rsName before], out', err)] @ k)"
      using *(4) by (intro guarded_append) (auto simp: recovery_log_def)
    with *(1) r show ?thesis by (auto simp: extends_def)
  qed
qed


section \<open>Runs of the provider\<close>

datatype request = ReqStop string | ReqStart string | ReqGet string | ReqList | ReqCreate create_op
  | ReqDelete string | ReqReplace nat string

fun serve :: "'w host \<Rightarrow> Manager \<Rightarrow> request \<Rightarrow> 'w \<Rightarrow> 'w" where
  "serve h m (ReqStop i) w = snd (Stop h m i w)"
| "serve h m (ReqStart i) w = snd (Start h m i w)"
| "serve h m (ReqGet i) w = snd (Get h m i w)"
| "serve h m ReqList w = snd (List h m w)"
| "serve h m (ReqCreate req) w = snd (Create h m req w)"
| "serve h m (ReqDelete i) w = snd (Delete h m i w)"
| "serve h m (ReqReplace ticks i) w = snd (ReplaceMachine h m ticks i w)"

lemma serve_extends: "extends h m (snd wl) (serve (logged h) m req wl)"
proof (cases req)
  case (ReqStop i)
  then show ?thesis using power_extends [of "''stop''"] by (simp add: Stop_def)
next
  case (ReqStart i)
  then show ?thesis using power_extends [of "''start''"] by (simp add: Start_def)
next
  case (ReqGet i)
  then show ?thesis using Get_extends [of h m i wl] by (metis serve.simps(3) prod.collapse)
qed (simp_all add: List_extends Create_extends Delete_extends ReplaceMachine_extends)

interpretation provider_log: log_keeper "serve (logged h) m" "guarded h m None" for h m
  using serve_extends [of h m "(w, l)" r for w l r]
  by unfold_locales (auto simp: extends_def intro: guarded_append)

text \<open>The log does not change what the operations do.\<close>

abbreviation erase :: "'a \<times> 'w \<times> entry list \<Rightarrow> 'a \<times> 'w" where
  "erase \<equiv> map_prod id fst"

lemma ownedContainer_logged: "erase (ownedContainer (logged h) ctx m i wl) = ownedContainer h ctx m i (fst wl)"
  by (auto simp: ownedContainer_def split: prod.split option.split)

lemma recovery_step_logged: "erase (recovery_step (logged h) m before wl) = recovery_step h m before (fst wl)"
proof -
  obtain r wl1 where o: "ownedContainer (logged h) RecoveryCtx m (rsName before) wl = (r, wl1)" by (metis surj_pair)
  with ownedContainer_logged [of h RecoveryCtx m "rsName before" wl]
  have "ownedContainer h RecoveryCtx m (rsName before) (fst wl) = (r, fst wl1)" by simp
  with o show ?thesis
    by (cases r) (auto simp: recovery_step_def runWithAttemptTimeout_def split: prod.split option.split sum.split)
qed

lemma restoreContainer_logged: "erase (restoreContainer (logged h) m before ticks wl) = restoreContainer h m before ticks (fst wl)"
proof (induction ticks arbitrary: wl)
  case 0
  obtain r wl1 where o: "recovery_step (logged h) m before wl = (r, wl1)" by (metis surj_pair)
  with recovery_step_logged [of h m before wl] have "recovery_step h m before (fst wl) = (r, fst wl1)" by simp
  with o show ?case by (cases r) (simp_all add: restoreContainer.simps)
next
  case (Suc ticks)
  obtain r wl1 where o: "recovery_step (logged h) m before wl = (r, wl1)" by (metis surj_pair)
  with recovery_step_logged [of h m before wl] have "recovery_step h m before (fst wl) = (r, fst wl1)" by simp
  with o Suc.IH [of "hTick (logged h) wl1"] show ?case
    by (cases r) (simp_all add: restoreContainer.simps [of _ m before "Suc ticks"])
qed

lemma ReplaceMachine_logged: "erase (ReplaceMachine (logged h) m ticks i wl) = ReplaceMachine h m ticks i (fst wl)"
proof -
  obtain r wl1 where o: "ownedContainer (logged h) CallerCtx m (TrimSpace i) wl = (r, wl1)" by (metis surj_pair)
  with ownedContainer_logged [of h CallerCtx m "TrimSpace i" wl]
  have o': "ownedContainer h CallerCtx m (TrimSpace i) (fst wl) = (r, fst wl1)" by simp
  show ?thesis
  proof (cases "validate m = None \<and> TrimSpace i \<noteq> [] \<and> \<not> hCtxDone h (fst wl) \<and>
      (\<exists>c before. r = Inr c \<and> replacementSpecFromInspect c (mCluster m) = Inr before)")
    case False
    with o o' show ?thesis
      by (auto simp: ReplaceMachine_def Let_def split: option.split sum.split)
  next
    case True
    then obtain c before where c: "r = Inr c" "replacementSpecFromInspect c (mCluster m) = Inr before" by blast
    obtain out err w2 where x: "hExec h TerminationCtx (mRuntime m) [''rm'', ''--force'', rsName before] (fst wl1) = ((out, err), w2)"
      by (metis surj_pair)
    obtain b w3 where d: "(if mDowntime m > 0 then hDowntime h (mDowntime m) w2 else (False, w2)) = (b, w3)"
      by (metis surj_pair)
    let ?l = "snd wl1 @ [([''rm'', ''--force'', rsName before], out, err)]"
    obtain q wl4 where rc: "restoreContainer (logged h) m before ticks (w3, ?l) = (q, wl4)" by (metis surj_pair)
    with restoreContainer_logged [of h m before ticks "(w3, ?l)"]
    have rc': "restoreContainer h m before ticks w3 = (q, fst wl4)" by simp
    show ?thesis
      using True c o o' x d rc rc'
      by (cases err; cases q; cases "0 < mDowntime m") (simp_all add: ReplaceMachine_def Let_def)
  qed
qed

text \<open>A runtime with one container: state 0 before its removal, 1 without it, 2 with the new one.\<close>

definition sample_container :: "string \<Rightarrow> containerInspect" where
  "sample_container cid = \<lparr>ciID = cid, ciName = ''/n1'', ciImage = ''etcd'', ciCmd = [''etcd''], ciEnv = [],
     ciLabels = [''etcd-infra.cluster'' \<mapsto> ''k''],
     ciPortBindings = [(''2379/tcp'', [\<lparr>pbHostIP = ''127.0.0.1'', pbHostPort = ''2379''\<rparr>])],
     ciNetworks = [''k-net'' \<mapsto> ''10.0.0.2''],
     ciMounts = [\<lparr>cmType = ''volume'', cmName = ''n1-data'', cmDestination = ''/etcd-data''\<rparr>],
     ciState = \<lparr>csStatus = ''running'', csRunning = True\<rparr>\<rparr>"

definition sample_exec :: "run_ctx \<Rightarrow> string \<Rightarrow> string list \<Rightarrow> nat \<Rightarrow> (string \<times> exec_error option) \<times> nat" where
  "sample_exec ctx rt args w =
     (if hd args = ''inspect''
      then (if w = 0 then ((''old'', None), w) else if w = 1 then (([], Some (ExitError 1)), w) else ((''new'', None), w))
      else if hd args = ''rm'' then (([], None), 1)
      else (([], None), 2))"

definition sample_host :: "nat host" where
  "sample_host = \<lparr>hExec = sample_exec, hRun = (\<lambda>_ _ _ _ w. (([], [], None), w)),
     hInspect = (\<lambda>out. if out = ''old'' then Some [sample_container ''A''] else if out = ''new'' then Some [sample_container ''B''] else None),
     hVolumeLabels = (\<lambda>_. None), hCtxDone = (\<lambda>_. False), hDowntime = (\<lambda>_ w. (False, w)), hTick = id\<rparr>"

definition sample_manager :: Manager where
  "sample_manager = \<lparr>mRuntime = ''docker'', mCluster = ''k'', mDowntime = 0\<rparr>"

text \<open>C4: whatever requests the provider serves, and whatever the runtime answers, a command that stops,
  starts or removes a container or volume is only ever issued directly after an inspection that
  showed this cluster's ownership label on it.\<close>

theorem intrusive_commands_guarded:
  fixes h :: "'w host" and m rs w
  defines "trail \<equiv> snd (fold (serve (logged h) m) rs (w, []))"
  assumes "k < length trail" and "intrusive (fst (trail ! k))"
  shows "0 < k \<and> permits h m (trail ! (k - 1)) (fst (trail ! k))"
  using guarded_nth [OF provider_log.run_ok] assms by simp

theorem intrusive_commands_guarded_witness:
  "let trail = snd (fold (serve (logged sample_host) sample_manager) [ReqDelete '' n1''] (0, [])) in
   1 < length trail \<and> intrusive (fst (trail ! 1)) \<and> permits sample_host sample_manager (trail ! 0) (fst (trail ! 1))"
proof -
  let ?trail = "snd (fold (serve (logged sample_host) sample_manager) [ReqDelete '' n1''] (0, []))"
  have k: "1 < length ?trail" by code_simp
  have i: "intrusive (fst (?trail ! 1))" by code_simp
  from intrusive_commands_guarded [OF k i] k i show ?thesis by (simp add: Let_def)
qed

text \<open>C25: a replacement that reports success has removed the old container after seeing that the cluster
  owns it, has launched containers only with the recorded identity, and has last seen a running
  container of the cluster under the old name with another ID and the same address, data volume,
  extra port and environment.\<close>

theorem ReplaceMachine_success:
  assumes "ReplaceMachine (logged h) m ticks i (w, []) = (Inr r, (w', trail))"
  shows "\<exists>out c before out' k. trail = [([''inspect'', TrimSpace i], out, None), ([''rm'', ''--force'', rsName before], out', None)] @ k \<and>
     owned h m out c \<and> replacementSpecFromInspect c (mCluster m) = Inr before \<and>
     launches_only before k \<and> k \<noteq> [] \<and> shows_replacement h m before (last k)"
  using ReplaceMachine_log [OF assms] by (fastforce simp: recovery_log_def)


theorem ReplaceMachine_success_witness:
  "\<exists>r w' trail out c before out' k. ReplaceMachine (logged sample_host) sample_manager 5 ''n1'' (0, []) = (Inr r, (w', trail)) \<and>
     trail = [([''inspect'', TrimSpace ''n1''], out, None), ([''rm'', ''--force'', rsName before], out', None)] @ k \<and>
     owned sample_host sample_manager out c \<and> replacementSpecFromInspect c (mCluster sample_manager) = Inr before \<and>
     launches_only before k \<and> k \<noteq> [] \<and> shows_replacement sample_host sample_manager before (last k)"
proof -
  have "\<not> isl (fst (ReplaceMachine (logged sample_host) sample_manager 5 ''n1'' (0, [])))" by code_simp
  then obtain r w' trail where r: "ReplaceMachine (logged sample_host) sample_manager 5 ''n1'' (0, []) = (Inr r, (w', trail))"
    by (metis isl_def prod.collapse sum.collapse(2))
  from ReplaceMachine_success [OF r] r show ?thesis by blast
qed

section \<open>The relaunch repeats the creation\<close>

text \<open>What an inspection reports of a container that \<open>Create\<close> launched, running with address \<open>ip\<close>: the
  documented content of the inspection for the flags of \<open>createRunArgs\<close>.\<close>

definition reports_creation ::
  "string \<Rightarrow> string \<Rightarrow> string \<Rightarrow> string \<Rightarrow> PortMapping \<Rightarrow> CreateConfig \<Rightarrow> string \<Rightarrow> containerInspect \<Rightarrow> bool" where
  "reports_creation cluster name img volume port cfg ip c \<longleftrightarrow>
     ciID c \<noteq> [] \<and> ciName c = ''/'' @ name \<and> ciImage c = img \<and> ciCmd c = ccCommand cfg \<and> ciEnv c = ccEnv cfg \<and>
     ciNetworks c (NetworkName cluster) = Some ip \<and>
     ciPortBindings c = (''2379/tcp'', [\<lparr>pbHostIP = (if pmHostIP port = [] then ''127.0.0.1'' else pmHostIP port),
          pbHostPort = show_int (pmHostPort port)\<rparr>]) #
        (case ccAuxPortMapping cfg of None \<Rightarrow> []
         | Some aux \<Rightarrow> [(show_int (pmContainerPort aux) @ ''/tcp'',
             [\<lparr>pbHostIP = (if pmHostIP aux = [] then ''127.0.0.1'' else pmHostIP aux), pbHostPort = show_int (pmHostPort aux)\<rparr>])]) \<and>
     ciMounts c = [\<lparr>cmType = ''volume'', cmName = volume, cmDestination = DataDir\<rparr>]"

lemma aux_key:
  assumes "0 < p" "p \<noteq> 2379"
  shows "show_int p @ ''/tcp'' \<noteq> ''2379/tcp''"
proof
  assume "show_int p @ ''/tcp'' = ''2379/tcp''"
  then have "show_int p @ ''/tcp'' = ''2379'' @ ''/tcp''" by simp
  then have "show_int p = ''2379''" by (simp only: append_same_eq)
  then have "show_nat (nat p) = ''2379''" using assms by (simp add: show_int_def)
  then have "digits_val (show_nat (nat p)) = 2379" by (simp add: digits_val_def)
  with assms show False by (simp add: digits_val_show_nat)
qed



definition sample_port :: PortMapping where
  "sample_port = \<lparr>pmContainerPort = 2379, pmHostPort = 2379, pmHostIP = [], pmProtocol = ''tcp''\<rparr>"

definition sample_config :: CreateConfig where
  "sample_config = \<lparr>ccCommand = [''etcd''], ccEnv = [], ccAuxPortMapping = None\<rparr>"


end
