(* ===== verification/FileOps.thy ===== *)
theory FileOps
  imports FileSystem
begin

text \<open>
  \<^verbatim>\<open>src/pkg/file/ops.go\<close>: existence tests, copies and the atomic replacement of a file. The record
  \<open>fileOps\<close> is the source's record of the same name; its default instance works on the file
  system with a schedule of faults, since any of these calls can fail (a full disk, an
  interrupted write): a fault makes a call return its error, after a failed write part of the
  data may have reached the file. The locale \<open>file_ops\<close> is the contract of the operations on the
  files of one directory, under which the replacement is atomic; the default operations fulfil
  it for every directory, whatever the schedule.
\<close>

section \<open>System calls that may fail\<close>

datatype fault = NoFault | Fault errno nat

type_synonym disk = "fsys \<times> fault list"

definition next_fault :: "disk \<Rightarrow> fault \<times> disk" where
  "next_fault d = (case snd d of [] \<Rightarrow> (NoFault, d) | f # fs \<Rightarrow> (f, (fst d, fs)))"

definition with_fault :: "(fsys \<Rightarrow> errno option \<times> fsys) \<Rightarrow> (nat \<Rightarrow> fsys \<Rightarrow> fsys) \<Rightarrow> disk \<Rightarrow> errno option \<times> disk" where
  "with_fault op broken d =
     (case next_fault d of
        (NoFault, d1) \<Rightarrow> (case op (fst d1) of (r, fs) \<Rightarrow> (r, (fs, snd d1)))
      | (Fault e k, d1) \<Rightarrow> (Some e, (broken k (fst d1), snd d1)))"

text \<open>\<^verbatim>\<open>os.Rename\<close>: the new name may be an existing file, never an existing directory.\<close>

definition Rename :: "path \<Rightarrow> string \<Rightarrow> string \<Rightarrow> fsys \<Rightarrow> errno option \<times> fsys" where
  "Rename cwd a b fs =
     (case (resolve cwd fs False a, resolve cwd fs False b) of
        (Inl e, _) \<Rightarrow> (Some e, fs)
      | (_, Inl e) \<Rightarrow> (Some e, fs)
      | (Inr p, Inr q) \<Rightarrow>
          (case fs p of
             None \<Rightarrow> (Some ENOENT, fs)
           | Some (NDir m) \<Rightarrow>
               (if is_dir (fs q) then (Some EEXIST, fs)
                else if fs q \<noteq> None then (Some ENOTDIR, fs)
                else if prefix p q then (Some EINVAL, fs)
                else (None, \<lambda>r. if prefix q r then fs (p @ drop (length q) r) else if prefix p r then None else fs r))
           | Some n \<Rightarrow>
               (if is_dir (fs q) then (Some EEXIST, fs)
                else if p = q then (None, fs)
                else (None, fs(q \<mapsto> n, p := None)))))"

text \<open>\<^verbatim>\<open>os.CreateTemp\<close> with a pattern without an asterisk: the first of the drawn names that is free.\<close>

fun CreateTemp :: "path \<Rightarrow> string list \<Rightarrow> string \<Rightarrow> string \<Rightarrow> fsys \<Rightarrow> (errno + string) \<times> fsys" where
  "CreateTemp cwd [] d pattern fs = (Inl EEXIST, fs)"
| "CreateTemp cwd (r # rs) d pattern fs =
     (if slash \<in> set pattern then (Inl EINVAL, fs)
      else let name = (if d \<noteq> [] \<and> last d = slash then d else d @ [slash]) @ pattern @ r in
        case resolve cwd fs False name of
          Inl e \<Rightarrow> (Inl e, fs)
        | Inr q \<Rightarrow> (if fs q = None then (Inr name, fs(q \<mapsto> NFile 384 []))
                   else CreateTemp cwd rs d pattern fs))"

text \<open>Writing to an open file, by its name.\<close>

definition append_file :: "path \<Rightarrow> string \<Rightarrow> string \<Rightarrow> fsys \<Rightarrow> errno option \<times> fsys" where
  "append_file cwd p content fs =
     (case resolve cwd fs True p of
        Inl e \<Rightarrow> (Some e, fs)
      | Inr q \<Rightarrow> (case fs q of Some (NFile m c) \<Rightarrow> (None, fs(q \<mapsto> NFile m (c @ content))) | _ \<Rightarrow> (None, fs)))"

section \<open>The package\<close>

datatype file_error = ErrNotRegularFile string | ErrStat errno | ErrCreateTemp errno | ErrWriteTemp errno
  | ErrChmod errno | ErrSync errno | ErrClose errno | ErrRename errno | ErrRemove string errno
  | ErrParentDir errno | ErrOpenSource errno | ErrCreateDestination errno | ErrCopy errno

record 'f fileOps =
  foStat :: "string \<Rightarrow> 'f \<Rightarrow> (errno + node) \<times> 'f"
  foCreateTemp :: "string \<Rightarrow> string \<Rightarrow> 'f \<Rightarrow> (errno + string) \<times> 'f"
  foWrite :: "string \<Rightarrow> string \<Rightarrow> 'f \<Rightarrow> errno option \<times> 'f"
  foSync :: "string \<Rightarrow> 'f \<Rightarrow> errno option \<times> 'f"
  foClose :: "string \<Rightarrow> 'f \<Rightarrow> errno option \<times> 'f"
  foChmod :: "string \<Rightarrow> nat \<Rightarrow> 'f \<Rightarrow> errno option \<times> 'f"
  foRename :: "string \<Rightarrow> string \<Rightarrow> 'f \<Rightarrow> errno option \<times> 'f"
  foRemove :: "string \<Rightarrow> 'f \<Rightarrow> errno option \<times> 'f"

definition permFile :: nat where "permFile = 384"

definition defaultFileOps :: "path \<Rightarrow> string list \<Rightarrow> disk fileOps" where
  "defaultFileOps cwd draws = \<lparr>
     foStat = (\<lambda>p d. case next_fault d of
         (NoFault, d1) \<Rightarrow> (Stat cwd (fst d1) p, d1) | (Fault e k, d1) \<Rightarrow> (Inl e, d1)),
     foCreateTemp = (\<lambda>dir pattern d. case next_fault d of
         (NoFault, d1) \<Rightarrow> (case CreateTemp cwd draws dir pattern (fst d1) of (r, fs) \<Rightarrow> (r, (fs, snd d1)))
       | (Fault e k, d1) \<Rightarrow> (Inl e, d1)),
     foWrite = (\<lambda>p content. with_fault (append_file cwd p content) (\<lambda>k fs. snd (append_file cwd p (take k content) fs))),
     foSync = (\<lambda>p. with_fault (Pair None) (\<lambda>k fs. fs)),
     foClose = (\<lambda>p. with_fault (Pair None) (\<lambda>k fs. fs)),
     foChmod = (\<lambda>p perm. with_fault (Chmod cwd perm p) (\<lambda>k fs. fs)),
     foRename = (\<lambda>a b. with_fault (Rename cwd a b) (\<lambda>k fs. fs)),
     foRemove = (\<lambda>p. with_fault (Remove cwd p) (\<lambda>k fs. fs))\<rparr>"

definition RemoveIfExists :: "'f fileOps \<Rightarrow> string \<Rightarrow> 'f \<Rightarrow> file_error option \<times> 'f" where
  "RemoveIfExists ops p f =
     (case foRemove ops p f of
        (Some e, f1) \<Rightarrow> (if e \<noteq> ENOENT then Some (ErrRemove p e) else None, f1)
      | (None, f1) \<Rightarrow> (None, f1))"

definition Exists :: "'f fileOps \<Rightarrow> string \<Rightarrow> 'f \<Rightarrow> (file_error + bool) \<times> 'f" where
  "Exists ops p f =
     (case foStat ops p f of
        (Inl e, f1) \<Rightarrow> (if e = ENOENT then Inr False else Inl (ErrStat e), f1)
      | (Inr _, f1) \<Rightarrow> (Inr True, f1))"

definition DirExists :: "'f fileOps \<Rightarrow> string \<Rightarrow> 'f \<Rightarrow> (file_error + bool) \<times> 'f" where
  "DirExists ops p f =
     (case foStat ops p f of
        (Inl e, f1) \<Rightarrow> (if e = ENOENT then Inr False else Inl (ErrStat e), f1)
      | (Inr n, f1) \<Rightarrow> (Inr (is_dir (Some n)), f1))"

text \<open>The deferred function of \<^verbatim>\<open>writeFileAtomicPermWith\<close>: its own errors are only logged.\<close>

definition discard_temp :: "'f fileOps \<Rightarrow> string \<Rightarrow> 'f \<Rightarrow> 'f" where
  "discard_temp ops tmp f = snd (foRemove ops tmp (snd (foClose ops tmp f)))"

definition or_discard :: "'f fileOps \<Rightarrow> string \<Rightarrow> (errno \<Rightarrow> file_error) \<Rightarrow> errno option \<times> 'f \<Rightarrow>
    ('f \<Rightarrow> file_error option \<times> 'f) \<Rightarrow> file_error option \<times> 'f" where
  "or_discard ops tmp wrap r continue =
     (case r of (Some e, f) \<Rightarrow> (Some (wrap e), discard_temp ops tmp f) | (None, f) \<Rightarrow> continue f)"

definition writeFileAtomicPermWith ::
  "'f fileOps \<Rightarrow> string \<Rightarrow> string \<Rightarrow> string \<Rightarrow> nat \<Rightarrow> 'f \<Rightarrow> file_error option \<times> 'f" where
  "writeFileAtomicPermWith ops pattern p content perm f =
     (case foStat ops p f of (st, f1) \<Rightarrow>
        if (case st of Inr (NFile _ _) \<Rightarrow> False | Inr _ \<Rightarrow> True | Inl _ \<Rightarrow> False)
        then (Some (ErrNotRegularFile p), f1)
        else (case foCreateTemp ops (Dir p) pattern f1 of
                (Inl e, f2) \<Rightarrow> (Some (ErrCreateTemp e), f2)
              | (Inr tmp, f2) \<Rightarrow>
                  or_discard ops tmp ErrWriteTemp (foWrite ops tmp content f2) (\<lambda>f3.
                  or_discard ops tmp ErrChmod (foChmod ops tmp perm f3) (\<lambda>f4.
                  or_discard ops tmp ErrSync (foSync ops tmp f4) (\<lambda>f5.
                  or_discard ops tmp ErrClose (foClose ops tmp f5) (\<lambda>f6.
                  or_discard ops tmp ErrRename (foRename ops tmp p f6) (\<lambda>f7. (None, f7))))))))"

definition WriteAtomicPerm :: "path \<Rightarrow> string list \<Rightarrow> string \<Rightarrow> string \<Rightarrow> string \<Rightarrow> nat \<Rightarrow> disk \<Rightarrow> file_error option \<times> disk" where
  "WriteAtomicPerm cwd draws pattern p content perm d =
     writeFileAtomicPermWith (defaultFileOps cwd draws) pattern p content perm d"

definition WriteAtomic :: "path \<Rightarrow> string list \<Rightarrow> string \<Rightarrow> string \<Rightarrow> string \<Rightarrow> disk \<Rightarrow> file_error option \<times> disk" where
  "WriteAtomic cwd draws pattern p content d =
     writeFileAtomicPermWith (defaultFileOps cwd draws) pattern p content permFile d"

text \<open>\<^verbatim>\<open>CopyFile\<close> calls the \<^verbatim>\<open>os\<close> package itself. The old destination is removed first, so its name is bound
  to a new file even while the old one is executing; the source stays readable through its handle,
  unless it is the very file that could not be removed and is now truncated. Special files are
  not read, and the mode of a new file is the requested one (no umask).\<close>

definition CopyFile :: "path \<Rightarrow> string \<Rightarrow> string \<Rightarrow> disk \<Rightarrow> file_error option \<times> disk" where
  "CopyFile cwd src dst d =
     (case with_fault (MkdirAll cwd 493 (Dir dst)) (\<lambda>k fs. fs) d of
        (Some e, d1) \<Rightarrow> (Some (ErrParentDir e), d1)
      | (None, d1) \<Rightarrow>
        (case next_fault d1 of (Fault e k, d2) \<Rightarrow> (Some (ErrOpenSource e), d2)
         | (NoFault, d2) \<Rightarrow>
           (case Stat cwd (fst d2) src of Inl e \<Rightarrow> (Some (ErrOpenSource e), d2)
            | Inr source \<Rightarrow>
              (let (removed, d3) = with_fault (Remove cwd dst) (\<lambda>k fs. fs) d2;
                   truncated = (removed \<noteq> None \<and> resolve cwd (fst d3) True dst = resolve cwd (fst d2) True src) in
               case with_fault (WriteFile cwd 438 [] dst) (\<lambda>k fs. fs) d3 of
                 (Some e, d4) \<Rightarrow> (Some (ErrCreateDestination e), d4)
               | (None, d4) \<Rightarrow>
                 (case source of
                    NFile m content \<Rightarrow>
                      (case with_fault (append_file cwd dst (if truncated then [] else content))
                              (\<lambda>k fs. snd (append_file cwd dst (take k (if truncated then [] else content)) fs)) d4 of
                         (Some e, d5) \<Rightarrow> (Some (ErrCopy e), d5)
                       | (None, d5) \<Rightarrow>
                         (case with_fault (Pair None) (\<lambda>k fs. fs) d5 of
                            (Some e, d6) \<Rightarrow> (Some (ErrSync e), d6)
                          | (None, d6) \<Rightarrow>
                            (case with_fault (Pair None) (\<lambda>k fs. fs) d6 of
                               (Some e, d7) \<Rightarrow> (Some (ErrClose e), d7)
                             | (None, d7) \<Rightarrow> (None, d7))))
                  | _ \<Rightarrow> (Some (ErrCopy EISDIR), d4))))))"

section \<open>The contract and its client\<close>

text \<open>The view \<open>get f p\<close> is the node at the name \<open>p\<close>, for the names \<open>here\<close> of one directory \<open>D\<close>.\<close>

locale file_ops =
  fixes ops :: "'f fileOps" and invar :: "'f \<Rightarrow> bool" and D :: string and here :: "string \<Rightarrow> bool"
    and get :: "'f \<Rightarrow> string \<Rightarrow> node option" and fresh :: "string \<Rightarrow> string \<Rightarrow> bool" and good :: "string \<Rightarrow> bool"
  assumes Stat_law: "invar f \<Longrightarrow> here p \<Longrightarrow> foStat ops p f = (st, f') \<Longrightarrow>
      invar f' \<and> (\<forall>q. here q \<longrightarrow> get f' q = get f q)"
    and CreateTemp_law: "invar f \<Longrightarrow> good pattern \<Longrightarrow> foCreateTemp ops D pattern f = (r, f') \<Longrightarrow> invar f' \<and>
      (case r of Inl _ \<Rightarrow> \<forall>q. here q \<longrightarrow> get f' q = get f q
       | Inr t \<Rightarrow> here t \<and> fresh pattern t \<and> get f t = None \<and> get f' t = Some (NFile 384 []) \<and>
           (\<forall>q. here q \<longrightarrow> q \<noteq> t \<longrightarrow> get f' q = get f q))"
    and Write_law: "invar f \<Longrightarrow> here t \<Longrightarrow> get f t = Some (NFile m c) \<Longrightarrow> foWrite ops t content f = (e, f') \<Longrightarrow>
      invar f' \<and> (\<forall>q. here q \<longrightarrow> q \<noteq> t \<longrightarrow> get f' q = get f q) \<and>
      \<not> is_dir (get f' t) \<and> (e = None \<longrightarrow> get f' t = Some (NFile m (c @ content)))"
    and Sync_law: "invar f \<Longrightarrow> here t \<Longrightarrow> foSync ops t f = (e, f') \<Longrightarrow> invar f' \<and> (\<forall>q. here q \<longrightarrow> get f' q = get f q)"
    and Close_law: "invar f \<Longrightarrow> here t \<Longrightarrow> foClose ops t f = (e, f') \<Longrightarrow> invar f' \<and> (\<forall>q. here q \<longrightarrow> get f' q = get f q)"
    and Chmod_law: "invar f \<Longrightarrow> here t \<Longrightarrow> get f t = Some (NFile m c) \<Longrightarrow> foChmod ops t perm f = (e, f') \<Longrightarrow>
      invar f' \<and> (\<forall>q. here q \<longrightarrow> q \<noteq> t \<longrightarrow> get f' q = get f q) \<and>
      \<not> is_dir (get f' t) \<and> (e = None \<longrightarrow> get f' t = Some (NFile perm c))"
    and Rename_law: "invar f \<Longrightarrow> here a \<Longrightarrow> here b \<Longrightarrow> a \<noteq> b \<Longrightarrow> get f a = Some (NFile m c) \<Longrightarrow>
      foRename ops a b f = (e, f') \<Longrightarrow> invar f' \<and> (\<forall>q. here q \<longrightarrow> q \<noteq> a \<longrightarrow> q \<noteq> b \<longrightarrow> get f' q = get f q) \<and>
      (case e of None \<Rightarrow> get f' b = Some (NFile m c) \<and> get f' a = None | Some _ \<Rightarrow> get f' b = get f b \<and> get f' a = get f a)"
    and Remove_law: "invar f \<Longrightarrow> here t \<Longrightarrow> \<not> is_dir (get f t) \<Longrightarrow> foRemove ops t f = (e, f') \<Longrightarrow>
      invar f' \<and> (\<forall>q. here q \<longrightarrow> q \<noteq> t \<longrightarrow> get f' q = get f q)"
begin

definition same_but :: "string \<Rightarrow> 'f \<Rightarrow> 'f \<Rightarrow> bool" where
  "same_but t f f' \<longleftrightarrow> invar f' \<and> \<not> is_dir (get f' t) \<and> (\<forall>q. here q \<longrightarrow> q \<noteq> t \<longrightarrow> get f' q = get f q)"

lemma discard_temp_same:
  assumes "same_but t f f1" "here t"
  shows "invar (discard_temp ops t f1) \<and> (\<forall>q. here q \<longrightarrow> q \<noteq> t \<longrightarrow> get (discard_temp ops t f1) q = get f q)"
proof -
  obtain e2 f2 where c: "foClose ops t f1 = (e2, f2)" by fastforce
  obtain e3 f3 where r: "foRemove ops t f2 = (e3, f3)" by fastforce
  have b2: "same_but t f f2"
    using Close_law [of f1 t, OF _ assms(2) c] assms by (simp add: same_but_def)
  then have "invar f3 \<and> (\<forall>q. here q \<longrightarrow> q \<noteq> t \<longrightarrow> get f3 q = get f2 q)"
    using Remove_law [of f2 t, OF _ assms(2) _ r] by (simp add: same_but_def)
  with b2 c r show ?thesis by (simp add: discard_temp_def same_but_def)
qed

text \<open>Atomicity: the target is replaced as a whole or not touched at all.\<close>

lemma or_discard_step:
  assumes "or_discard ops t wrap (e, f1) continue = (err, f')" "same_but t f f1" "here t"
    and "err \<noteq> None \<and> invar f' \<and> (\<forall>q. here q \<longrightarrow> q \<noteq> t \<longrightarrow> get f' q = get f q) \<Longrightarrow> P" and "e = None \<Longrightarrow> continue f1 = (err, f') \<Longrightarrow> P"
  shows P
  using assms discard_temp_same [OF assms(2,3)] by (cases e) (auto simp: or_discard_def)

lemma write_atomic:
  assumes "invar f" "here p" "Dir p = D" "\<not> fresh pattern p" "good pattern"
    and "writeFileAtomicPermWith ops pattern p content perm f = (err, f')"
  shows "invar f' \<and>
    (err = None \<and> get f' p = Some (NFile perm content) \<and> (\<forall>q. here q \<longrightarrow> q \<noteq> p \<longrightarrow> get f' q = get f q) \<or>
     err \<noteq> None \<and> (\<forall>q. here q \<longrightarrow> get f' q = get f q \<or> fresh pattern q \<and> get f q = None))"
proof -
  obtain st f1 where s: "foStat ops p f = (st, f1)" by fastforce
  have s1: "invar f1" "\<forall>q. here q \<longrightarrow> get f1 q = get f q" using Stat_law [OF assms(1,2) s] by simp_all
  obtain r f2 where c: "foCreateTemp ops D pattern f1 = (r, f2)" by fastforce
  note c1 = CreateTemp_law [OF s1(1) assms(5) c]
  define bad where "bad = (case st of Inr (NFile _ _) \<Rightarrow> False | Inr _ \<Rightarrow> True | Inl _ \<Rightarrow> False)"
  show ?thesis
  proof (cases "bad \<or> (\<exists>e. r = Inl e)")
    case True
    with assms(3,6) s c have "err \<noteq> None \<and> (f' = f1 \<or> f' = f2 \<and> (\<exists>e. r = Inl e))"
      by (auto simp: writeFileAtomicPermWith_def bad_def split: if_splits)
    with s1 c1 show ?thesis by auto
  next
    case False
    then obtain t where t: "r = Inr t" by (cases r) auto
    have run: "or_discard ops t ErrWriteTemp (foWrite ops t content f2) (\<lambda>f3.
        or_discard ops t ErrChmod (foChmod ops t perm f3) (\<lambda>f4.
        or_discard ops t ErrSync (foSync ops t f4) (\<lambda>f5.
        or_discard ops t ErrClose (foClose ops t f5) (\<lambda>f6.
        or_discard ops t ErrRename (foRename ops t p f6) (\<lambda>f7. (None, f7)))))) = (err, f')"
      using False assms(3,6) s c t by (auto simp: writeFileAtomicPermWith_def bad_def split: if_splits)
    have tt: "here t" "fresh pattern t" "get f t = None" "get f2 t = Some (NFile 384 [])" "t \<noteq> p"
      and base: "same_but t f f2"
      using c1 s1 assms(4) t by (auto simp: same_but_def)
    have gave_up: "err \<noteq> None \<and> invar f' \<and> (\<forall>q. here q \<longrightarrow> q \<noteq> t \<longrightarrow> get f' q = get f q) \<Longrightarrow> ?thesis"
      using tt by metis
    obtain e3 f3 where w: "foWrite ops t content f2 = (e3, f3)" by fastforce
    note law3 = Write_law [OF _ tt(1,4) w]
    then have b3: "same_but t f f3" using base by (auto simp: same_but_def)
    from run [unfolded w] b3 tt(1) gave_up show ?thesis
    proof (rule or_discard_step)
      assume n3: "e3 = None" and run3: "or_discard ops t ErrChmod (foChmod ops t perm f3) (\<lambda>f4.
        or_discard ops t ErrSync (foSync ops t f4) (\<lambda>f5.
        or_discard ops t ErrClose (foClose ops t f5) (\<lambda>f6.
        or_discard ops t ErrRename (foRename ops t p f6) (\<lambda>f7. (None, f7))))) = (err, f')"
      have g3: "get f3 t = Some (NFile 384 content)" using law3 n3 base by (simp add: same_but_def)
      obtain e4 f4 where h: "foChmod ops t perm f3 = (e4, f4)" by fastforce
      note law4 = Chmod_law [OF _ tt(1) g3 h]
      then have b4: "same_but t f f4" using b3 by (auto simp: same_but_def)
      from run3 [unfolded h] b4 tt(1) gave_up show ?thesis
      proof (rule or_discard_step)
        assume n4: "e4 = None" and run4: "or_discard ops t ErrSync (foSync ops t f4) (\<lambda>f5.
          or_discard ops t ErrClose (foClose ops t f5) (\<lambda>f6.
          or_discard ops t ErrRename (foRename ops t p f6) (\<lambda>f7. (None, f7)))) = (err, f')"
        have g4: "get f4 t = Some (NFile perm content)" using law4 n4 b3 by (simp add: same_but_def)
        obtain e5 f5 where y: "foSync ops t f4 = (e5, f5)" by fastforce
        note law5 = Sync_law [OF _ tt(1) y]
        then have b5: "same_but t f f5" and g5: "get f5 t = Some (NFile perm content)"
          using b4 g4 tt(1) by (auto simp: same_but_def)
        from run4 [unfolded y] b5 tt(1) gave_up show ?thesis
        proof (rule or_discard_step)
          assume run5: "or_discard ops t ErrClose (foClose ops t f5) (\<lambda>f6.
            or_discard ops t ErrRename (foRename ops t p f6) (\<lambda>f7. (None, f7))) = (err, f')"
          obtain e6 f6 where z: "foClose ops t f5 = (e6, f6)" by fastforce
          note law6 = Close_law [OF _ tt(1) z]
          then have b6: "same_but t f f6" and g6: "get f6 t = Some (NFile perm content)"
            using b5 g5 tt(1) by (auto simp: same_but_def)
          from run5 [unfolded z] b6 tt(1) gave_up show ?thesis
          proof (rule or_discard_step)
            assume run6: "or_discard ops t ErrRename (foRename ops t p f6) (\<lambda>f7. (None, f7)) = (err, f')"
            obtain e7 f7 where m: "foRename ops t p f6 = (e7, f7)" by fastforce
            have "invar f6" using b6 by (simp add: same_but_def)
            note law7 = Rename_law [OF this tt(1) assms(2) tt(5) g6 m]
            show ?thesis
            proof (cases e7)
              case None
              with law7 b6 tt run6 m show ?thesis by (auto simp: same_but_def or_discard_def)
            next
              case (Some e)
              with law7 b6 tt have "same_but t f f7" by (auto simp: same_but_def)
              from discard_temp_same [OF this tt(1)] Some run6 m
              have "err \<noteq> None \<and> invar f' \<and> (\<forall>q. here q \<longrightarrow> q \<noteq> t \<longrightarrow> get f' q = get f q)"
                by (auto simp: or_discard_def)
              then show ?thesis by (rule gave_up)
            qed
          qed
        qed
      qed
    qed
  qed
qed

end

section \<open>The default operations keep the contract\<close>

definition in_dir :: "string \<Rightarrow> string \<Rightarrow> bool" where
  "in_dir D p \<longleftrightarrow> (\<exists>n. plain n \<and> p = under D [n] False)"

definition dir_inv :: "path \<Rightarrow> string \<Rightarrow> path \<Rightarrow> disk \<Rightarrow> bool" where
  "dir_inv cwd D R d \<longleftrightarrow> dest_at cwd (fst d) D R \<and> (\<forall>n. plain n \<longrightarrow> \<not> is_link (fst d (R @ [n])))"

definition dir_get :: "string \<Rightarrow> path \<Rightarrow> disk \<Rightarrow> string \<Rightarrow> node option" where
  "dir_get D R d p = fst d (R @ [drop (Suc (length D)) p])"

definition tmp_name :: "string \<Rightarrow> string list \<Rightarrow> string \<Rightarrow> string \<Rightarrow> bool" where
  "tmp_name D draws pattern t \<longleftrightarrow> (\<exists>r \<in> set draws. t = under D [pattern @ r] False)"

definition good_draws :: "string \<Rightarrow> string list \<Rightarrow> string \<Rightarrow> bool" where
  "good_draws D draws pattern \<longleftrightarrow> D \<noteq> [] \<and> last D \<noteq> slash \<and> list_all (\<lambda>r. plain (pattern @ r)) draws"

lemma under_one: "under D [n] False = D @ slash # n"
  by (simp add: under_def)

lemma dir_get_under [simp]: "dir_get D R d (under D [n] False) = fst d (R @ [n])"
  by (simp add: dir_get_def under_one)

lemma dir_resolve: "dir_inv cwd D R d \<Longrightarrow> plain n \<Longrightarrow> resolve cwd (fst d) follow (under D [n] False) = Inr (R @ [n])"
  by (intro resolve_child) (simp_all add: dir_inv_def)

text \<open>Changing one plain name that is not a directory to a file or to nothing.\<close>

lemma dir_inv_update:
  assumes "dir_inv cwd D R (fs, ft)" "\<not> is_dir (fs (R @ [n]))" "plain n" "\<not> is_link nd"
  shows "dir_inv cwd D R (fs(R @ [n] := nd), ft')"
proof -
  have "\<not> is_link (fs (R @ [n]))" using assms(1,3) by (simp add: dir_inv_def)
  then have "confined R fs (fs(R @ [n] := nd))" using assms(2,4) by (intro confined_update)
  with assms show ?thesis by (auto simp: dir_inv_def intro: dest_at_confined)
qed

lemma dir_inv_faults [simp]: "dir_inv cwd D R (fs, ft) \<Longrightarrow> dir_inv cwd D R (fs, ft')"
  by (simp add: dir_inv_def)

lemma next_fault_cases:
  obtains "next_fault (fs, ft) = (NoFault, (fs, tl ft))" | e k where "next_fault (fs, ft) = (Fault e k, (fs, tl ft))"
  by (cases ft; cases "hd ft") (auto simp: next_fault_def)

lemma with_fault_cases:
  assumes "with_fault op broken (fs, ft) = (e, d)"
  obtains fs' where "op fs = (e, fs')" "d = (fs', tl ft)" | x k where "e = Some x" "d = (broken k fs, tl ft)"
  using assms by (cases fs ft rule: next_fault_cases) (auto simp: with_fault_def split: prod.splits)

lemma CreateTemp_here:
  assumes "dir_inv cwd D R (fs, ft)" "D \<noteq> []" "last D \<noteq> slash" "list_all (\<lambda>r. plain (pattern @ r)) draws"
    and "CreateTemp cwd draws D pattern fs = (r, fs')"
  shows "case r of Inl _ \<Rightarrow> fs' = fs
    | Inr t \<Rightarrow> \<exists>x \<in> set draws. t = under D [pattern @ x] False \<and> fs (R @ [pattern @ x]) = None \<and>
        fs' = fs(R @ [pattern @ x] \<mapsto> NFile 384 [])"
  using assms(4,5)
proof (induction draws)
  case (Cons x draws)
  have res: "resolve cwd fs False (D @ slash # pattern @ x) = Inr (R @ [pattern @ x])"
    using dir_resolve [OF assms(1), of "pattern @ x" False] Cons.prems(1) by (simp add: under_one)
  have ns: "slash \<notin> set pattern" using Cons.prems(1) by (simp add: plain_def)
  show ?case
  proof (cases "fs (R @ [pattern @ x]) = None")
    case True
    with Cons.prems(2) res ns assms(2,3)
    have "r = Inr (D @ slash # pattern @ x)" "fs' = fs(R @ [pattern @ x] \<mapsto> NFile 384 [])" by (simp_all add: Let_def)
    with True show ?thesis by (simp add: under_one)
  next
    case False
    with ns Cons.prems(2) res assms(2,3) have "CreateTemp cwd draws D pattern fs = (r, fs')" by (simp add: Let_def)
    with Cons.IH Cons.prems(1) show ?thesis by (cases r) auto
  qed
qed auto

interpretation dir_ops: file_ops "defaultFileOps cwd draws" "dir_inv cwd D R" D "in_dir D" "dir_get D R"
    "tmp_name D draws" "good_draws D draws"
  for cwd draws D R
proof
  fix f p st f'
  assume "dir_inv cwd D R f" "in_dir D p" "foStat (defaultFileOps cwd draws) p f = (st, f')"
  then show "dir_inv cwd D R f' \<and> (\<forall>q. in_dir D q \<longrightarrow> dir_get D R f' q = dir_get D R f q)"
    by (cases f; cases "fst f" "snd f" rule: next_fault_cases) (auto simp: defaultFileOps_def dir_get_def)
next
  fix f pattern r f'
  assume inv: "dir_inv cwd D R f" and good: "good_draws D draws pattern"
    and run: "foCreateTemp (defaultFileOps cwd draws) D pattern f = (r, f')"
  obtain fs ft where f: "f = (fs, ft)" by fastforce
  show "dir_inv cwd D R f' \<and> (case r of Inl _ \<Rightarrow> \<forall>q. in_dir D q \<longrightarrow> dir_get D R f' q = dir_get D R f q
       | Inr t \<Rightarrow> in_dir D t \<and> tmp_name D draws pattern t \<and> dir_get D R f t = None \<and> dir_get D R f' t = Some (NFile 384 []) \<and>
           (\<forall>q. in_dir D q \<longrightarrow> q \<noteq> t \<longrightarrow> dir_get D R f' q = dir_get D R f q))"
  proof (cases fs ft rule: next_fault_cases)
    case 1
    obtain fs' where ct: "CreateTemp cwd draws D pattern fs = (r, fs')" "f' = (fs', tl ft)"
      using run f 1 by (auto simp: defaultFileOps_def split: prod.splits)
    note here = CreateTemp_here [OF inv [unfolded f] _ _ _ ct(1)]
    show ?thesis
    proof (cases r)
      case (Inl e)
      with here good ct inv f show ?thesis by (auto simp: good_draws_def dir_get_def)
    next
      case (Inr t)
      with here good obtain x where x: "x \<in> set draws" "t = under D [pattern @ x] False"
        "fs (R @ [pattern @ x]) = None" "fs' = fs(R @ [pattern @ x] \<mapsto> NFile 384 [])" by (auto simp: good_draws_def)
      moreover have pl: "plain (pattern @ x)" using x(1) good by (auto simp: good_draws_def list_all_iff)
      moreover have "dir_inv cwd D R f'" unfolding ct(2) x(4)
        using dir_inv_update [OF inv [unfolded f] _ pl] x(3) by simp
      ultimately show ?thesis using Inr f ct(2)
        by (auto simp: in_dir_def tmp_name_def)
    qed
  next
    case (2 e k)
    with run f inv show ?thesis by (auto simp: defaultFileOps_def dir_get_def)
  qed
next
  fix f t m c content e f'
  assume inv: "dir_inv cwd D R f" and t: "in_dir D t" "dir_get D R f t = Some (NFile m c)"
    and run: "foWrite (defaultFileOps cwd draws) t content f = (e, f')"
  obtain fs ft n where f: "f = (fs, ft)" and n: "plain n" "t = under D [n] False"
    using t(1) by (cases f) (auto simp: in_dir_def)
  have at: "fs (R @ [n]) = Some (NFile m c)" using t(2) f n by simp
  have app: "append_file cwd t x fs = (None, fs(R @ [n] \<mapsto> NFile m (c @ x)))" for x
    using dir_resolve [OF inv n(1), of True] f n(2) at by (simp add: append_file_def)
  have "\<exists>x. f' = (fs(R @ [n] \<mapsto> NFile m (c @ x)), tl ft) \<and> (e = None \<longrightarrow> x = content)"
    using run app f by (auto simp: defaultFileOps_def elim!: with_fault_cases)
  then obtain x where x: "f' = (fs(R @ [n] \<mapsto> NFile m (c @ x)), tl ft)" "e = None \<longrightarrow> x = content" by blast
  have "dir_inv cwd D R f'" unfolding x(1) using dir_inv_update [OF inv [unfolded f] _ n(1)] at by simp
  with x n f show "dir_inv cwd D R f' \<and> (\<forall>q. in_dir D q \<longrightarrow> q \<noteq> t \<longrightarrow> dir_get D R f' q = dir_get D R f q) \<and>
      \<not> is_dir (dir_get D R f' t) \<and> (e = None \<longrightarrow> dir_get D R f' t = Some (NFile m (c @ content)))"
    by (auto simp: in_dir_def)
next
  fix f t e f'
  assume "dir_inv cwd D R f" "foSync (defaultFileOps cwd draws) t f = (e, f')"
  then show "dir_inv cwd D R f' \<and> (\<forall>q. in_dir D q \<longrightarrow> dir_get D R f' q = dir_get D R f q)"
    by (cases f) (auto simp: defaultFileOps_def dir_get_def elim!: with_fault_cases)
next
  fix f t e f'
  assume "dir_inv cwd D R f" "foClose (defaultFileOps cwd draws) t f = (e, f')"
  then show "dir_inv cwd D R f' \<and> (\<forall>q. in_dir D q \<longrightarrow> dir_get D R f' q = dir_get D R f q)"
    by (cases f) (auto simp: defaultFileOps_def dir_get_def elim!: with_fault_cases)
next
  fix f t m c perm e f'
  assume inv: "dir_inv cwd D R f" and t: "in_dir D t" "dir_get D R f t = Some (NFile m c)"
    and run: "foChmod (defaultFileOps cwd draws) t perm f = (e, f')"
  obtain fs ft n where f: "f = (fs, ft)" and n: "plain n" "t = under D [n] False"
    using t(1) by (cases f) (auto simp: in_dir_def)
  have at: "fs (R @ [n]) = Some (NFile m c)" using t(2) f n by simp
  have "Chmod cwd perm t fs = (None, fs(R @ [n] \<mapsto> NFile perm c))"
    using dir_resolve [OF inv n(1), of True] f n(2) at by (simp add: Chmod_def)
  then have "f' = (fs(R @ [n] \<mapsto> NFile perm c), tl ft) \<or> e \<noteq> None \<and> f' = (fs(R @ [n] \<mapsto> NFile m c), tl ft)"
    using run f at by (auto simp: defaultFileOps_def map_upd_triv elim!: with_fault_cases)
  then have "\<exists>p. f' = (fs(R @ [n] \<mapsto> NFile p c), tl ft) \<and> (e = None \<longrightarrow> p = perm)" by blast
  then obtain p where x: "f' = (fs(R @ [n] \<mapsto> NFile p c), tl ft)" "e = None \<longrightarrow> p = perm" by blast
  have "dir_inv cwd D R f'" unfolding x(1) using dir_inv_update [OF inv [unfolded f] _ n(1)] at by simp
  with x n f show "dir_inv cwd D R f' \<and> (\<forall>q. in_dir D q \<longrightarrow> q \<noteq> t \<longrightarrow> dir_get D R f' q = dir_get D R f q) \<and>
      \<not> is_dir (dir_get D R f' t) \<and> (e = None \<longrightarrow> dir_get D R f' t = Some (NFile perm c))"
    by (auto simp: in_dir_def)
next
  fix f a b m c e f'
  assume inv: "dir_inv cwd D R f" and a: "in_dir D a" "dir_get D R f a = Some (NFile m c)" and b: "in_dir D b" "a \<noteq> b"
    and run: "foRename (defaultFileOps cwd draws) a b f = (e, f')"
  obtain fs ft x y where f: "f = (fs, ft)" and x: "plain x" "a = under D [x] False" and y: "plain y" "b = under D [y] False"
    using a(1) b(1) by (cases f) (auto simp: in_dir_def)
  have at: "fs (R @ [x]) = Some (NFile m c)" and ne: "x \<noteq> y" using a b(2) f x y by auto
  have ren: "Rename cwd a b fs = (if is_dir (fs (R @ [y])) then (Some EEXIST, fs)
      else (None, fs(R @ [y] \<mapsto> NFile m c, R @ [x] := None)))"
    using dir_resolve [OF inv x(1), of False] dir_resolve [OF inv y(1), of False] f x(2) y(2) at ne
    by (simp add: Rename_def)
  consider "e \<noteq> None" "f' = (fs, tl ft)"
    | "e = None" "\<not> is_dir (fs (R @ [y]))" "f' = (fs(R @ [y] \<mapsto> NFile m c, R @ [x] := None), tl ft)"
    using run f ren by (auto simp: defaultFileOps_def elim!: with_fault_cases split: if_splits)
  then show "dir_inv cwd D R f' \<and> (\<forall>q. in_dir D q \<longrightarrow> q \<noteq> a \<longrightarrow> q \<noteq> b \<longrightarrow> dir_get D R f' q = dir_get D R f q) \<and>
      (case e of None \<Rightarrow> dir_get D R f' b = Some (NFile m c) \<and> dir_get D R f' a = None
       | Some _ \<Rightarrow> dir_get D R f' b = dir_get D R f b \<and> dir_get D R f' a = dir_get D R f a)"
  proof cases
    case 1
    with inv f show ?thesis by (auto simp: dir_get_def)
  next
    case 2
    have "dir_inv cwd D R (fs(R @ [y] \<mapsto> NFile m c), ft)"
      using dir_inv_update [OF inv [unfolded f] 2(2) y(1)] by simp
    then have "dir_inv cwd D R f'" unfolding 2(3)
      by (rule dir_inv_update) (use at ne x in auto)
    with 2 x y ne f show ?thesis by (auto simp: in_dir_def)
  qed
next
  fix f t e f'
  assume inv: "dir_inv cwd D R f" and t: "in_dir D t" "\<not> is_dir (dir_get D R f t)"
    and run: "foRemove (defaultFileOps cwd draws) t f = (e, f')"
  obtain fs ft n where f: "f = (fs, ft)" and n: "plain n" "t = under D [n] False"
    using t(1) by (cases f) (auto simp: in_dir_def)
  have nd: "\<not> is_dir (fs (R @ [n]))" using t(2) f n by simp
  have "f' = (fs, tl ft) \<or> f' = (fs(R @ [n] := None), tl ft)"
    using run f dir_resolve [OF inv n(1), of False] n(2) nd
    by (auto simp: defaultFileOps_def Remove_def elim!: with_fault_cases split: option.splits node.splits)
  moreover have "dir_inv cwd D R (fs(R @ [n] := None), tl ft)"
    using dir_inv_update [OF inv [unfolded f] nd n(1)] by simp
  ultimately show "dir_inv cwd D R f' \<and> (\<forall>q. in_dir D q \<longrightarrow> q \<noteq> t \<longrightarrow> dir_get D R f' q = dir_get D R f q)"
    using inv f n by (auto simp: in_dir_def)
qed

section \<open>Atomic replacement\<close>

lemma writeFileAtomic_atomic:
  assumes "resolve cwd (fst d) True D = Inr R" "is_dir (fst d R)" "last D \<noteq> slash"
    and "\<And>m. plain m \<Longrightarrow> \<not> is_link (fst d (R @ [m]))"
    and "plain n" "Dir p = D" "p = under D [n] False"
    and "list_all (\<lambda>r. plain (pattern @ r) \<and> pattern @ r \<noteq> n) draws"
    and "writeFileAtomicPermWith (defaultFileOps cwd draws) pattern p content perm d = (err, d')"
  shows "err = None \<and> fst d' (R @ [n]) = Some (NFile perm content) \<and> (\<forall>m. plain m \<longrightarrow> m \<noteq> n \<longrightarrow> fst d' (R @ [m]) = fst d (R @ [m])) \<or>
     err \<noteq> None \<and> (\<forall>m. plain m \<longrightarrow> fst d' (R @ [m]) = fst d (R @ [m]) \<or> m \<in> set (map ((@) pattern) draws) \<and> fst d (R @ [m]) = None)"
proof -
  have inv: "dir_inv cwd D R d" using assms(1,2,4) by (simp add: dir_inv_def dest_at_resolve)
  have here: "in_dir D p" using assms(5,7) by (auto simp: in_dir_def)
  have "D \<noteq> []" using inv by (auto simp: dir_inv_def dest_at_def)
  then have good: "good_draws D draws pattern" using assms(3,8) by (simp add: good_draws_def list_all_iff)
  have ours: "\<not> tmp_name D draws pattern p" using assms(7,8) by (auto simp: tmp_name_def list_all_iff under_one)
  have inj: "under D [a] False = under D [b] False \<longleftrightarrow> a = b" for a b by (simp add: under_one)
  have tmp: "tmp_name D draws pattern (under D [m] False) \<longleftrightarrow> m \<in> set (map ((@) pattern) draws)" for m
    by (auto simp: tmp_name_def under_one)
  from dir_ops.write_atomic [OF inv here assms(6) ours good assms(9)] show ?thesis
  proof (elim conjE disjE)
    assume "err = None" "dir_get D R d' p = Some (NFile perm content)"
      "\<forall>q. in_dir D q \<longrightarrow> q \<noteq> p \<longrightarrow> dir_get D R d' q = dir_get D R d q"
    moreover from this(3) have "plain m \<Longrightarrow> m \<noteq> n \<Longrightarrow> fst d' (R @ [m]) = fst d (R @ [m])" for m
      using inj assms(7) by (metis in_dir_def dir_get_under)
    ultimately show ?thesis using assms(7) by simp
  next
    assume "err \<noteq> None" and
      *: "\<forall>q. in_dir D q \<longrightarrow> dir_get D R d' q = dir_get D R d q \<or> tmp_name D draws pattern q \<and> dir_get D R d q = None"
    moreover have "plain m \<Longrightarrow> fst d' (R @ [m]) = fst d (R @ [m]) \<or> m \<in> set (map ((@) pattern) draws) \<and> fst d (R @ [m]) = None" for m
      using * tmp by (metis in_dir_def dir_get_under)
    ultimately show ?thesis by simp
  qed
qed

lemma last_Clean: "comps p \<noteq> [] \<Longrightarrow> last (Clean p) \<noteq> slash"
proof -
  assume ne: "comps p \<noteq> []"
  have good: "good_comps (IsAbs p) (comps p)" by (rule good_comps_comps)
  have join: "ws \<noteq> [] \<Longrightarrow> \<forall>w \<in> set ws. w \<noteq> [] \<and> slash \<notin> set w \<Longrightarrow> Join [slash] ws \<noteq> [] \<and> last (Join [slash] ws) \<noteq> slash" for ws
  proof (induction ws rule: rev_induct)
    case (snoc w ws)
    then have w: "w \<noteq> []" "slash \<notin> set w" by simp_all
    then have "last w \<noteq> slash" using last_in_set by metis
    with w show ?case by (cases "ws = []") (simp_all add: Join_append)
  qed simp
  have "\<forall>w \<in> set (comps p). w \<noteq> [] \<and> slash \<notin> set w" using good_comps_no_slash [OF good] by blast
  with join [OF ne] ne show ?thesis by (auto simp: Clean_def unparse_def)
qed

lemma Clean_child:
  assumes "comps D \<noteq> []" "plain n"
  shows "PathJoin [Clean D, n] = under (Clean D) [n] False" and "Dir (under (Clean D) [n] False) = Clean D"
proof -
  have D: "Clean D = unparse (IsAbs D) (comps D)" by (simp add: Clean_def)
  have good: "good_comps (IsAbs D) (comps D)" by (rule good_comps_comps)
  have "unparse False [n] = n" by (simp add: unparse_def)
  then show "PathJoin [Clean D, n] = under (Clean D) [n] False"
    using PathJoin_plain [OF good, of "[n]"] unparse_append [OF assms(1)] assms(2) D by simp
  show "Dir (under (Clean D) [n] False) = Clean D"
    using Dir_unparse [OF good_comps_append [OF good, of "[n]"]] unparse_append [OF assms(1)] assms(2) D by simp
qed

text \<open>C27: \<^verbatim>\<open>WriteAtomicPerm\<close> is atomic whatever fails along the way: it reports success exactly when the
  file holds the whole data with the requested mode and nothing else in the directory has
  changed; otherwise every file of the directory, the target included, is as before, except
  that a temporary file with one of the drawn names may be left.\<close>

theorem WriteAtomicPerm_atomic:
  assumes "resolve cwd fs True (Clean dir) = Inr R" and "is_dir (fs R)" and "comps dir \<noteq> []" and "plain n"
    and "\<And>m. plain m \<Longrightarrow> \<not> is_link (fs (R @ [m]))"
    and "list_all (\<lambda>r. plain (pattern @ r) \<and> pattern @ r \<noteq> n) draws"
    and "WriteAtomicPerm cwd draws pattern (PathJoin [Clean dir, n]) content perm (fs, faults) = (err, (fs', faults'))"
  shows "err = None \<and> fs' (R @ [n]) = Some (NFile perm content) \<and> (\<forall>m. plain m \<longrightarrow> m \<noteq> n \<longrightarrow> fs' (R @ [m]) = fs (R @ [m])) \<or>
     err \<noteq> None \<and> (\<forall>m. plain m \<longrightarrow> fs' (R @ [m]) = fs (R @ [m]) \<or> m \<in> set (map ((@) pattern) draws) \<and> fs (R @ [m]) = None)"
  using writeFileAtomic_atomic [of cwd "(fs, faults)" "Clean dir" R n "PathJoin [Clean dir, n]" pattern draws content perm err "(fs', faults')"]
    assms Clean_child [OF assms(3,4)] last_Clean [OF assms(3)]
  by (simp add: WriteAtomicPerm_def)

definition home_fs :: fsys where
  "home_fs = [[] \<mapsto> NDir 493, [''d''] \<mapsto> NDir 493, [''d'', ''f''] \<mapsto> NFile 420 ''old'']"

text \<open>The disk is full after one byte: the old file stays.\<close>

theorem WriteAtomicPerm_atomic_witness:
  "\<exists>err fs' faults'. WriteAtomicPerm [] [''1''] ''7f'' (PathJoin [Clean ''/d'', ''f'']) ''new'' 384 (home_fs, [NoFault, NoFault, Fault EIO 1]) = (Some err, (fs', faults')) \<and>
     fs' [''d'', ''f''] = Some (NFile 420 ''old'')"
proof -
  let ?run = "WriteAtomicPerm [] [''1''] ''7f'' (PathJoin [Clean ''/d'', ''f'']) ''new'' 384 (home_fs, [NoFault, NoFault, Fault EIO 1])"
  obtain e fs' ft where r: "?run = (e, (fs', ft))" by (metis surj_pair)
  have nonempty: "fst (writeFileAtomicPermWith (defaultFileOps [] [''1'']) ''7f'' p ''new'' 384 (home_fs, [NoFault, NoFault, Fault EIO 1])) \<noteq> None"
    if st: "Stat [] home_fs p = Inr (NFile 420 ''old'')" and ct: "CreateTemp [] [''1''] (Dir p) ''7f'' home_fs = (Inr t, fs1)" for p t fs1
  proof -
    let ?ops = "defaultFileOps [] [''1'']"
    have "foStat ?ops p (home_fs, [NoFault, NoFault, Fault EIO 1]) = (Inr (NFile 420 ''old''), (home_fs, [NoFault, Fault EIO 1]))"
      using st by (simp add: defaultFileOps_def next_fault_def)
    moreover have "foCreateTemp ?ops (Dir p) ''7f'' (home_fs, [NoFault, Fault EIO 1]) = (Inr t, (fs1, [Fault EIO 1]))"
      using ct by (simp add: defaultFileOps_def next_fault_def del: CreateTemp.simps)
    moreover have "\<exists>d. foWrite ?ops t ''new'' (fs1, [Fault EIO 1]) = (Some EIO, d)"
      by (simp add: defaultFileOps_def next_fault_def with_fault_def)
    ultimately show ?thesis by (auto simp: writeFileAtomicPermWith_def or_discard_def)
  qed
  have "Stat [] home_fs (PathJoin [Clean ''/d'', ''f'']) = Inr (NFile 420 ''old'') \<and>
      \<not> isl (fst (CreateTemp [] [''1''] (Dir (PathJoin [Clean ''/d'', ''f''])) ''7f'' home_fs))" by code_simp
  then have "fst ?run \<noteq> None"
    unfolding WriteAtomicPerm_def by (metis nonempty prod.collapse sum.collapse(2))
  then have "e \<noteq> None" using r by simp
  have "resolve [] home_fs True (Clean ''/d'') = Inr [''d''] \<and> comps ''/d'' \<noteq> [] \<and> plain ''f'' \<and> plain ''7f1''" by code_simp
  moreover have "home_fs [''d''] = Some (NDir 493)" "home_fs [''d'', ''f''] = Some (NFile 420 ''old'')"
    "\<not> is_link (home_fs ([''d''] @ [m]))" for m
    by (simp_all add: home_fs_def)
  ultimately show ?thesis
    using WriteAtomicPerm_atomic [of "[]" home_fs "''/d''" "[''d'']" "''f''" "''7f''" "[''1'']", OF _ _ _ _ _ _ r] r \<open>e \<noteq> None\<close>
    by (cases e) auto
qed

end
