(* ===== verification/Topology.thy ===== *)
theory Topology
  imports LocalProvider FileOps "HOL-Library.Word"
begin

text \<open>
  The helpers the commands of \<^verbatim>\<open>src/cmd/etcd-infra\<close> share: members and their server arguments
  (\<^verbatim>\<open>topology.go\<close>), option checks and member lists (\<^verbatim>\<open>local.go\<close>), comma-separated values and
  versions (\<^verbatim>\<open>main.go\<close>), the extra-arguments file (\<^verbatim>\<open>extraargs.go\<close>). Looking up the latest release and
  parsing a semantic version are arguments.
\<close>

record clusterMember =
  mbName :: string
  mbClientURL :: string
  mbPeerURL :: string

definition initialCluster :: "clusterMember list \<Rightarrow> string" where
  "initialCluster members = Join '','' (map (\<lambda>m. mbName m @ ''='' @ mbPeerURL m) members)"

definition etcdServerArgs :: "clusterMember \<Rightarrow> clusterMember list \<Rightarrow> string \<Rightarrow> string \<Rightarrow> string list" where
  "etcdServerArgs m members token dataDir =
     [''--name'', mbName m, ''--data-dir'', dataDir, ''--listen-client-urls'', ''http://0.0.0.0:2379'',
      ''--advertise-client-urls'', mbClientURL m, ''--listen-peer-urls'', ''http://0.0.0.0:2380'',
      ''--initial-advertise-peer-urls'', mbPeerURL m, ''--initial-cluster'', initialCluster members,
      ''--initial-cluster-token'', token, ''--initial-cluster-state'', ''new'', ''--log-level'', ''warn'']"

definition validateMemberCount :: "int \<Rightarrow> string option" where
  "validateMemberCount n = (if n \<noteq> 1 \<and> n \<noteq> 3 then Some (''members must be 1 or 3, got '' @ show_int n) else None)"

text \<open>The pattern \<^verbatim>\<open>^[a-zA-Z0-9][a-zA-Z0-9_.-]{0,62}$\<close>.\<close>

definition alnum :: "char \<Rightarrow> bool" where
  "alnum c = (let n = of_char c :: nat in n \<in> {48..57} \<or> n \<in> {65..90} \<or> n \<in> {97..122})"

definition clusterNamePattern :: "string \<Rightarrow> bool" where
  "clusterNamePattern s = (case s of [] \<Rightarrow> False
     | c # cs \<Rightarrow> alnum c \<and> list_all (\<lambda>d. alnum d \<or> d \<in> set ''_.-'') cs \<and> length cs \<le> 62)"

definition validateClusterName :: "string \<Rightarrow> string option" where
  "validateClusterName name =
     (if name \<noteq> TrimSpace name \<or> \<not> clusterNamePattern name then Some (''invalid cluster name '' @ name) else None)"

text \<open>Arithmetic on a Go \<^verbatim>\<open>int\<close> wraps around at 64 bits.\<close>

definition int64 :: "int \<Rightarrow> int" where
  "int64 v = sint (word_of_int v :: 64 word)"

lemma int64_small: "- (2 ^ 63) \<le> v \<Longrightarrow> v < 2 ^ 63 \<Longrightarrow> int64 v = v"
proof -
  assume "- (2 ^ 63) \<le> v" "v < 2 ^ 63"
  then have "signed_take_bit 63 v = v" by (intro signed_take_bit_int_eq_self) auto
  then show ?thesis by (simp only: int64_def signed_of_int) simp
qed

definition validateLocalOptions :: "string \<Rightarrow> int \<Rightarrow> int \<Rightarrow> string option" where
  "validateLocalOptions name members port =
     (case validateClusterName name of Some e \<Rightarrow> Some e
      | None \<Rightarrow> (case validateMemberCount members of Some e \<Rightarrow> Some e
         | None \<Rightarrow> (if port < 1 \<or> int64 (port + members - 1) > 65535
             then Some (''invalid client port range '' @ show_int port @ ''-'' @ show_int (int64 (port + members - 1))) else None)))"

definition localMembers :: "string \<Rightarrow> nat \<Rightarrow> int \<Rightarrow> clusterMember list" where
  "localMembers cluster n firstPort =
     map (\<lambda>i. let name = cluster @ ''-'' @ show_nat (i + 1) in
        \<lparr>mbName = name, mbClientURL = ''http://127.0.0.1:'' @ show_int (int64 (firstPort + int i)), mbPeerURL = ''http://'' @ name @ '':2380''\<rparr>)
       [0..<n]"

definition memberClientURLs :: "clusterMember list \<Rightarrow> string list" where
  "memberClientURLs members = map mbClientURL members"

definition comma :: char where "comma = CHR 0x2C"

definition splitCSV :: "string \<Rightarrow> string list" where
  "splitCSV v = filter (\<lambda>f. f \<noteq> []) (map TrimSpace (Split comma (TrimSpace v)))"

definition splitEndpoints :: "string \<Rightarrow> string list" where
  "splitEndpoints v = splitCSV v"

definition releaseTag :: "string \<Rightarrow> string" where
  "releaseTag version = ''v'' @ TrimPrefix (TrimSpace version) ''v''"

definition resolveVersion ::
  "('w \<Rightarrow> (string + string) \<times> 'w) \<Rightarrow> (string \<Rightarrow> bool) \<Rightarrow> string \<Rightarrow> 'w \<Rightarrow> (string + string) \<times> 'w" where
  "resolveVersion latestVersion semver version w =
     (let version = TrimSpace version in
      if version = [] then (Inl ''etcd version is required'', w)
      else case (if version = ''latest'' then latestVersion w else (Inr version, w)) of
             (Inl e, w1) \<Rightarrow> (Inl e, w1)
           | (Inr v, w1) \<Rightarrow>
               (let v = TrimPrefix v ''v'' in
                if semver v then (Inr v, w1) else (Inl (''invalid etcd version '' @ v), w1)))"

section \<open>Extra server arguments\<close>

definition line_feed :: char where "line_feed = CHR 0x0A"

fun extra_lines :: "string \<Rightarrow> nat \<Rightarrow> string list \<Rightarrow> string list \<Rightarrow> string + string list" where
  "extra_lines p lineNo [] args = Inr args"
| "extra_lines p lineNo (line # rest) args =
     (let line = TrimSpace line in
      if line = [] \<or> HasPrefix line ''#'' then extra_lines p (Suc lineNo) rest args
      else if \<not> HasPrefix line ''-''
      then Inl (''extra args file '' @ p @ '' line '' @ show_nat (lineNo + 1) @ '': '' @ line @ '' must be a single flag argument'')
      else extra_lines p (Suc lineNo) rest (args @ [line]))"

definition ReadFile :: "path \<Rightarrow> string \<Rightarrow> disk \<Rightarrow> (errno + string) \<times> disk" where
  "ReadFile cwd p d = (case next_fault d of
     (Fault e k, d1) \<Rightarrow> (Inl e, d1)
   | (NoFault, d1) \<Rightarrow> ((case Stat cwd (fst d1) p of
       Inl e \<Rightarrow> Inl e | Inr (NFile m c) \<Rightarrow> Inr c | Inr (NDir m) \<Rightarrow> Inl EISDIR | Inr _ \<Rightarrow> Inl EIO), d1))"

definition parseExtraArgsFile :: "path \<Rightarrow> string \<Rightarrow> disk \<Rightarrow> (string + string list) \<times> disk" where
  "parseExtraArgsFile cwd p d =
     (case ReadFile cwd p d of
        (Inl e, d1) \<Rightarrow> (Inl (''read extra args file '' @ p), d1)
      | (Inr content, d1) \<Rightarrow> (extra_lines p 0 (Split line_feed content) [], d1))"

definition resolveExtraArgs :: "path \<Rightarrow> string \<Rightarrow> string \<Rightarrow> disk \<Rightarrow> (string + string list) \<times> disk" where
  "resolveExtraArgs cwd inline p d =
     (if TrimSpace p \<noteq> []
      then (case parseExtraArgsFile cwd p d of
              (Inl e, d1) \<Rightarrow> (Inl e, d1) | (Inr fileArgs, d1) \<Rightarrow> (Inr (fileArgs @ Fields inline), d1))
      else (Inr (Fields inline), d))"

section \<open>Local environment and ports\<close>

definition parseLocalEnv :: "string \<Rightarrow> string + string list" where
  "parseLocalEnv v =
     (case find (\<lambda>entry. \<not> env_entry_ok entry) (splitCSV v) of
        Some entry \<Rightarrow> Inl (''invalid --env entry '' @ entry @ '', expected KEY=VALUE'')
      | None \<Rightarrow> Inr (splitCSV v))"

text \<open>\<^verbatim>\<open>strconv.Atoi\<close>: an optional sign, digits, and the range of an \<^verbatim>\<open>int64\<close>.\<close>

definition Atoi :: "string \<Rightarrow> int option" where
  "Atoi s =
     (let (neg, ds) = (case s of [] \<Rightarrow> (False, []) | c # cs \<Rightarrow> if c = CHR ''-'' then (True, cs) else if c = CHR ''+'' then (False, cs) else (False, s))
      in if ds = [] \<or> \<not> list_all (\<lambda>c. CHR ''0'' \<le> c \<and> c \<le> CHR ''9'') ds then None
         else let v = int (digits_val ds); v = (if neg then - v else v)
              in if - (2 ^ 63) \<le> v \<and> v < 2 ^ 63 then Some v else None)"

definition colon :: char where "colon = CHR 0x3A"

definition parseLocalAuxPort :: "string \<Rightarrow> int \<Rightarrow> string + PortMapping option" where
  "parseLocalAuxPort v members =
     (if TrimSpace v = [] then Inr None
      else if colon \<notin> set v then Inl (''invalid --aux-port '' @ v)
      else let containerPortText = takeWhile (\<lambda>c. c \<noteq> colon) v;
               hostPortText = tl (dropWhile (\<lambda>c. c \<noteq> colon) v)
           in case Atoi containerPortText of
                None \<Rightarrow> Inl (''invalid --aux-port container port '' @ containerPortText)
              | Some containerPort \<Rightarrow>
                  if containerPort < 1 \<or> containerPort > 65535 \<or> containerPort = 2379
                  then Inl (''invalid --aux-port container port '' @ containerPortText)
                  else case Atoi hostPortText of
                         None \<Rightarrow> Inl (''invalid --aux-port host port range '' @ hostPortText)
                       | Some hostPort \<Rightarrow>
                           if hostPort < 1 \<or> int64 (hostPort + members - 1) > 65535
                           then Inl (''invalid --aux-port host port range '' @ hostPortText)
                           else Inr (Some \<lparr>pmContainerPort = containerPort, pmHostPort = hostPort, pmHostIP = ''127.0.0.1'', pmProtocol = []\<rparr>))"

section \<open>Facts\<close>

lemma validateClusterName_ok: "validateClusterName name = None \<Longrightarrow> name \<noteq> []"
  by (auto simp: validateClusterName_def clusterNamePattern_def split: if_splits list.splits)

text \<open>The port check accepts exactly the valid ranges, as long as the sum does not overflow; the largest
  \<^verbatim>\<open>int\<close> passes it.\<close>

lemma validateLocalOptions_ports:
  assumes "validateClusterName name = None" "members \<in> {1, 3}" "port + members - 1 < 2 ^ 63"
  shows "validateLocalOptions name members port = None \<longleftrightarrow> 1 \<le> port \<and> port + members - 1 \<le> 65535"
proof (cases "port < 1")
  case True
  with assms show ?thesis by (auto simp: validateLocalOptions_def validateMemberCount_def)
next
  case False
  with assms have "int64 (port + members - 1) = port + members - 1" by (intro int64_small) auto
  with False assms show ?thesis by (auto simp: validateLocalOptions_def validateMemberCount_def)
qed

lemma validateLocalOptions_overflow: "validateLocalOptions ''etcd-infra'' 3 (2 ^ 63 - 1) = None"
  by code_simp

text \<open>A cluster name is one name of a directory: it has no separator and is neither dot nor dot-dot.\<close>

lemma alnum_plain: "alnum c \<Longrightarrow> c \<noteq> slash \<and> c \<noteq> CHR ''.''"
  by (auto simp: alnum_def)

lemma clusterName_plain:
  assumes "validateClusterName name = None"
  shows "plain (name @ ''.json'')" and "plain (name @ ''.json.tmp'')"
proof -
  obtain c cs where n: "name = c # cs" "alnum c" "list_all (\<lambda>d. alnum d \<or> d \<in> set ''_.-'') cs"
    using assms by (auto simp: validateClusterName_def clusterNamePattern_def split: if_splits list.splits)
  have "slash \<notin> set cs" using n(3) alnum_plain by (fastforce simp: list_all_iff)
  with n(1) alnum_plain [OF n(2)] show "plain (name @ ''.json'')" "plain (name @ ''.json.tmp'')"
    by (auto simp: plain_def)
qed

end
