(* ===== verification/ClusterHealth.thy ===== *)
theory ClusterHealth
  imports Topology
begin

text \<open>
  Waiting for an etcd cluster: \<^verbatim>\<open>WaitForClusterHealthy\<close> of
  \<^verbatim>\<open>src/internal/etcd/client/cluster_health_waiter.go\<close> and the three helpers of
  \<^verbatim>\<open>src/cmd/etcd-infra/local_replace.go\<close> that look for a leader or for all endpoints. The etcd client
  is the record \<open>member_client\<close>: a call takes some time (a natural number of nanoseconds) and the
  clock is carried beside the state of the outside world, so it never runs backwards. A wait for
  \<^verbatim>\<open>time.After(d)\<close> that is not interrupted takes at least \<open>d\<close>. The loops are partial functions: not
  returning would be \<open>None\<close>. The locale \<open>poller\<close> is what the loops have in common: a body that goes
  round again only before the limit, and later by at least the pace; such a loop returns.
\<close>

record status_resp =
  srLeader :: nat
  srMemberId :: "nat option"

record 'w member_client =
  mcStatus :: "string \<Rightarrow> 'w \<Rightarrow> (string + status_resp) \<times> nat \<times> 'w"
  mcWait :: "int \<Rightarrow> 'w \<Rightarrow> string option \<times> nat \<times> 'w"

type_synonym 'w timed = "int \<times> 'w"

definition Status :: "'w member_client \<Rightarrow> string \<Rightarrow> 'w timed \<Rightarrow> (string + status_resp) \<times> 'w timed" where
  "Status c ep tw = (case mcStatus c ep (snd tw) of (r, k, w') \<Rightarrow> (r, (fst tw + int k, w')))"

text \<open>The \<^verbatim>\<open>select\<close> between the timer and the end of the context; \<open>Some\<close> is the context's error.\<close>

definition wait_or_done :: "'w member_client \<Rightarrow> int \<Rightarrow> 'w timed \<Rightarrow> string option \<times> 'w timed" where
  "wait_or_done c d tw = (case mcWait c d (snd tw) of
     (Some e, k, w') \<Rightarrow> (Some e, (fst tw + int k, w')) | (None, k, w') \<Rightarrow> (None, (fst tw + d + int k, w')))"

definition DefaultClusterHealthPollInterval :: int where "DefaultClusterHealthPollInterval = 200 * millisecond"

section \<open>Waiting for a quorum\<close>

datatype health_error = ErrClientNil | ErrNoEndpoints | ErrMaxWaitInvalid int | ErrClusterHealthTimeout int
  | ErrInterrupted string | ErrFailedHealthCheck string | ErrNotAllHealthy int "string option"

fun probe :: "'w member_client \<Rightarrow> string list \<Rightarrow> nat \<Rightarrow> string option \<Rightarrow> 'w timed \<Rightarrow> nat \<times> string option \<times> 'w timed" where
  "probe c [] healthy lastErr tw = (healthy, lastErr, tw)"
| "probe c (ep # eps) healthy lastErr tw =
     (case Status c ep tw of
        (Inr _, tw1) \<Rightarrow> probe c eps (healthy + 1) lastErr tw1
      | (Inl err, tw1) \<Rightarrow> probe c eps healthy (Some err) tw1)"

definition requiredHealthy :: "string list \<Rightarrow> nat" where
  "requiredHealthy endpoints = length endpoints div 2 + 1"

text \<open>One round of the loop: \<open>Inl\<close> is a return, \<open>Inr\<close> the state with which the next round begins.\<close>

definition health_round :: "'w member_client \<Rightarrow> string list \<Rightarrow> int \<Rightarrow> int \<Rightarrow> string option \<times> 'w timed \<Rightarrow>
    health_error option \<times> 'w timed + string option \<times> 'w timed" where
  "health_round c endpoints maxWait deadline s =
     (case s of (lastErr, tw) \<Rightarrow>
        if fst tw < deadline
        then (case probe c endpoints 0 lastErr tw of (healthy, lastErr1, tw1) \<Rightarrow>
                if healthy \<ge> requiredHealthy endpoints then Inl (None, tw1)
                else (case wait_or_done c DefaultClusterHealthPollInterval tw1 of
                        (Some e, tw2) \<Rightarrow> Inl (Some (ErrInterrupted e), tw2)
                      | (None, tw2) \<Rightarrow> Inr (lastErr1, tw2)))
        else Inl (Some (case lastErr of Some e \<Rightarrow> ErrFailedHealthCheck e | None \<Rightarrow> ErrClusterHealthTimeout maxWait), tw))"

partial_function (option) health_loop :: "'w member_client \<Rightarrow> string list \<Rightarrow> int \<Rightarrow> int \<Rightarrow> string option \<times> 'w timed \<Rightarrow>
    (health_error option \<times> 'w timed) option" where
  "health_loop c endpoints maxWait deadline s =
     (case health_round c endpoints maxWait deadline s of
        Inl r \<Rightarrow> Some r | Inr s' \<Rightarrow> health_loop c endpoints maxWait deadline s')"

definition WaitForClusterHealthy :: "'w member_client option \<Rightarrow> string list \<Rightarrow> int \<Rightarrow> 'w timed \<Rightarrow>
    (health_error option \<times> 'w timed) option" where
  "WaitForClusterHealthy cli endpoints maxWait tw =
     (case cli of None \<Rightarrow> Some (Some ErrClientNil, tw)
      | Some c \<Rightarrow>
          if endpoints = [] then Some (Some ErrNoEndpoints, tw)
          else if maxWait \<le> 0 then Some (Some (ErrMaxWaitInvalid maxWait), tw)
          else health_loop c endpoints maxWait (fst tw + maxWait) (None, tw))"

section \<open>Waiting for every endpoint\<close>

fun probe_all :: "'w member_client \<Rightarrow> string list \<Rightarrow> bool \<Rightarrow> string option \<Rightarrow> 'w timed \<Rightarrow> bool \<times> string option \<times> 'w timed" where
  "probe_all c [] allHealthy lastErr tw = (allHealthy, lastErr, tw)"
| "probe_all c (ep # eps) allHealthy lastErr tw =
     (case Status c ep tw of
        (Inr _, tw1) \<Rightarrow> probe_all c eps allHealthy lastErr tw1
      | (Inl err, tw1) \<Rightarrow> probe_all c eps False (Some err) tw1)"

definition endpoints_round :: "'w member_client \<Rightarrow> string list \<Rightarrow> int \<Rightarrow> int \<Rightarrow> string option \<times> 'w timed \<Rightarrow>
    health_error option \<times> 'w timed + string option \<times> 'w timed" where
  "endpoints_round c endpoints maxWait deadline s =
     (case s of (lastErr, tw) \<Rightarrow>
        (case probe_all c endpoints True lastErr tw of (allHealthy, lastErr1, tw1) \<Rightarrow>
           if allHealthy then Inl (None, tw1)
           else if fst tw1 > deadline then Inl (Some (ErrNotAllHealthy maxWait lastErr1), tw1)
           else (case wait_or_done c DefaultClusterHealthPollInterval tw1 of
                   (Some e, tw2) \<Rightarrow> Inl (Some (ErrInterrupted e), tw2)
                 | (None, tw2) \<Rightarrow> Inr (lastErr1, tw2))))"

partial_function (option) endpoints_loop :: "'w member_client \<Rightarrow> string list \<Rightarrow> int \<Rightarrow> int \<Rightarrow> string option \<times> 'w timed \<Rightarrow>
    (health_error option \<times> 'w timed) option" where
  "endpoints_loop c endpoints maxWait deadline s =
     (case endpoints_round c endpoints maxWait deadline s of
        Inl r \<Rightarrow> Some r | Inr s' \<Rightarrow> endpoints_loop c endpoints maxWait deadline s')"

definition waitForLocalEndpointsHealthy :: "'w member_client \<Rightarrow> string list \<Rightarrow> int \<Rightarrow> 'w timed \<Rightarrow>
    (health_error option \<times> 'w timed) option" where
  "waitForLocalEndpointsHealthy c endpoints maxWait tw =
     endpoints_loop c endpoints maxWait (fst tw + maxWait) (None, tw)"

section \<open>Finding the leader\<close>

datatype leader_error = ErrFindLeader string | ErrNoLeader | ErrLeaderCtx string

fun leader_scan :: "'w member_client \<Rightarrow> clusterMember list \<Rightarrow> string option \<Rightarrow> 'w timed \<Rightarrow>
    (leader_error + string) \<times> 'w timed" where
  "leader_scan c [] lastErr tw = (Inl (case lastErr of Some e \<Rightarrow> ErrFindLeader e | None \<Rightarrow> ErrNoLeader), tw)"
| "leader_scan c (m # ms) lastErr tw =
     (case Status c (mbClientURL m) tw of
        (Inl err, tw1) \<Rightarrow> leader_scan c ms (Some err) tw1
      | (Inr st, tw1) \<Rightarrow>
          if srLeader st \<noteq> 0 \<and> srMemberId st = Some (srLeader st) then (Inr (mbName m), tw1)
          else leader_scan c ms lastErr tw1)"

definition localLeaderName :: "'w member_client \<Rightarrow> clusterMember list \<Rightarrow> 'w timed \<Rightarrow> (leader_error + string) \<times> 'w timed" where
  "localLeaderName c members tw = leader_scan c members None tw"

text \<open>The result pairs the last observed leader with an error: \<^verbatim>\<open>(string, error)\<close>.\<close>

definition leader_round :: "'w member_client \<Rightarrow> clusterMember list \<Rightarrow> string \<Rightarrow> int \<Rightarrow> (string \<times> leader_error option) \<times> 'w timed \<Rightarrow>
    (string \<times> leader_error option) \<times> 'w timed + (string \<times> leader_error option) \<times> 'w timed" where
  "leader_round c members replaced deadline s =
     (case s of ((lastLeader, lastErr), tw) \<Rightarrow>
        (case localLeaderName c members tw of (r, tw1) \<Rightarrow>
           (case (case r of Inl e \<Rightarrow> (lastLeader, Some e) | Inr leader \<Rightarrow> (leader, None)) of (lastLeader1, lastErr1) \<Rightarrow>
              if (case r of Inl _ \<Rightarrow> False | Inr leader \<Rightarrow> leader \<noteq> replaced) then Inl ((lastLeader1, None), tw1)
              else if fst tw1 > deadline
              then Inl (if lastLeader1 = [] then ([], lastErr1) else (lastLeader1, None), tw1)
              else (case wait_or_done c DefaultClusterHealthPollInterval tw1 of
                      (Some e, tw2) \<Rightarrow> Inl (([], Some (ErrLeaderCtx e)), tw2)
                    | (None, tw2) \<Rightarrow> Inr ((lastLeader1, lastErr1), tw2)))))"

partial_function (option) leader_loop :: "'w member_client \<Rightarrow> clusterMember list \<Rightarrow> string \<Rightarrow> int \<Rightarrow>
    (string \<times> leader_error option) \<times> 'w timed \<Rightarrow> ((string \<times> leader_error option) \<times> 'w timed) option" where
  "leader_loop c members replaced deadline s =
     (case leader_round c members replaced deadline s of
        Inl r \<Rightarrow> Some r | Inr s' \<Rightarrow> leader_loop c members replaced deadline s')"

definition waitForLeaderChange :: "'w member_client \<Rightarrow> clusterMember list \<Rightarrow> string \<Rightarrow> int \<Rightarrow> 'w timed \<Rightarrow>
    ((string \<times> leader_error option) \<times> 'w timed) option" where
  "waitForLeaderChange c members replaced maxWait tw =
     leader_loop c members replaced (fst tw + maxWait) (([], None), tw)"

section \<open>Loops that poll\<close>

locale poller =
  fixes now :: "'s \<Rightarrow> int" and limit :: int and pace :: int
    and round :: "'s \<Rightarrow> 'r + 's" and loop :: "'s \<Rightarrow> 'r option"
  assumes pace_positive: "0 < pace"
    and round_again: "round s = Inr s' \<Longrightarrow> now s \<le> limit \<and> now s + pace \<le> now s'"
    and loop_unfold: "loop s = (case round s of Inl r \<Rightarrow> Some r | Inr s' \<Rightarrow> loop s')"
begin

text \<open>The loop returns, from a last round that an invariant of the rounds holds for; it goes round
  again at most once more than the pace fits into the time left.\<close>

lemma loop_returns_from:
  assumes "I s" and "\<And>s s'. I s \<Longrightarrow> round s = Inr s' \<Longrightarrow> I s'"
  shows "\<exists>k s' r. loop s = Some r \<and> round s' = Inl r \<and> I s' \<and> now s + int k * pace \<le> now s' \<and>
    (0 < k \<longrightarrow> int (k - 1) * pace \<le> limit - now s)"
  using assms(1)
proof (induction "nat (limit + 1 - now s)" arbitrary: s rule: less_induct)
  case less
  show ?case
  proof (cases "round s")
    case (Inl r)
    then show ?thesis using less.prems loop_unfold [of s] by (intro exI [of _ 0] exI [of _ s] exI [of _ r]) simp
  next
    case (Inr s1)
    note a = round_again [OF Inr]
    have "nat (limit + 1 - now s1) < nat (limit + 1 - now s)" using a pace_positive by simp
    with less.hyps assms(2) [OF less.prems Inr] obtain k s' r where
      k: "loop s1 = Some r" "round s' = Inl r" "I s'" "now s1 + int k * pace \<le> now s'"
        "0 < k \<longrightarrow> int (k - 1) * pace \<le> limit - now s1" by blast
    have "now s + int (Suc k) * pace \<le> now s'" using a k(4) by (simp add: algebra_simps)
    moreover have "int k * pace \<le> limit - now s"
      using a k(5) by (cases k) (simp_all add: algebra_simps)
    ultimately show ?thesis using k loop_unfold [of s] Inr
      by (intro exI [of _ "Suc k"] exI [of _ s'] exI [of _ r]) simp
  qed
qed

lemma loop_returns: "\<exists>r. loop s = Some r"
  using loop_returns_from [of "\<lambda>_. True" s] by blast

lemma loop_result:
  assumes "loop s = Some r" "I s" "\<And>s s'. I s \<Longrightarrow> round s = Inr s' \<Longrightarrow> I s'"
  shows "\<exists>s'. round s' = Inl r \<and> I s'"
proof -
  have "\<exists>k s' r. loop s = Some r \<and> round s' = Inl r \<and> I s' \<and> now s + int k * pace \<le> now s' \<and>
    (0 < k \<longrightarrow> int (k - 1) * pace \<le> limit - now s)"
    by (rule loop_returns_from) (use assms in auto)
  with assms(1) show ?thesis by auto
qed

end

lemma pace_pos [simp]: "0 < DefaultClusterHealthPollInterval"
  by (simp add: DefaultClusterHealthPollInterval_def millisecond_def)

lemma Status_later: "Status c ep tw = (r, tw') \<Longrightarrow> fst tw \<le> fst tw'"
  by (auto simp: Status_def split: prod.splits)

lemma wait_later: "wait_or_done c d tw = (None, tw') \<Longrightarrow> fst tw + d \<le> fst tw'"
  by (auto simp: wait_or_done_def split: prod.splits option.splits)

lemma probe_later: "probe c eps n e tw = (n', e', tw') \<Longrightarrow> fst tw \<le> fst tw'"
proof (induction eps arbitrary: n e tw)
  case (Cons ep eps)
  obtain r tw1 where s: "Status c ep tw = (r, tw1)" by (metis surj_pair)
  from Cons s have "fst tw1 \<le> fst tw'" by (cases r) auto
  with Status_later [OF s] show ?case by simp
qed simp

lemma probe_all_later: "probe_all c eps b e tw = (b', e', tw') \<Longrightarrow> fst tw \<le> fst tw'"
proof (induction eps arbitrary: b e tw)
  case (Cons ep eps)
  obtain r tw1 where s: "Status c ep tw = (r, tw1)" by (metis surj_pair)
  from Cons s have "fst tw1 \<le> fst tw'" by (cases r) auto
  with Status_later [OF s] show ?case by simp
qed simp

lemma leader_scan_later: "leader_scan c ms e tw = (r, tw') \<Longrightarrow> fst tw \<le> fst tw'"
proof (induction ms arbitrary: e tw)
  case (Cons m ms)
  obtain q tw1 where s: "Status c (mbClientURL m) tw = (q, tw1)" by (metis surj_pair)
  from Cons s have "fst tw1 \<le> fst tw'" by (cases q) (auto split: if_splits)
  with Status_later [OF s] show ?case by simp
qed simp

lemma health_round_again:
  assumes "health_round c eps maxWait deadline s = Inr s'"
  shows "fst (snd s) \<le> deadline \<and> fst (snd s) + DefaultClusterHealthPollInterval \<le> fst (snd s')"
proof -
  obtain n e1 tw1 where p: "probe c eps 0 (fst s) (snd s) = (n, e1, tw1)" by (metis surj_pair)
  obtain d tw2 where w: "wait_or_done c DefaultClusterHealthPollInterval tw1 = (d, tw2)" by (metis surj_pair)
  from assms p w have "fst (snd s) < deadline" "d = None" "s' = (e1, tw2)"
    by (auto simp: health_round_def split: prod.splits if_splits option.splits)
  with w wait_later [of c DefaultClusterHealthPollInterval tw1 tw2] probe_later [OF p] show ?thesis by auto
qed

lemma endpoints_round_again:
  assumes "endpoints_round c eps maxWait deadline s = Inr s'"
  shows "fst (snd s) \<le> deadline \<and> fst (snd s) + DefaultClusterHealthPollInterval \<le> fst (snd s')"
proof -
  obtain n e1 tw1 where p: "probe_all c eps True (fst s) (snd s) = (n, e1, tw1)" by (metis surj_pair)
  obtain d tw2 where w: "wait_or_done c DefaultClusterHealthPollInterval tw1 = (d, tw2)" by (metis surj_pair)
  from assms p w have "fst tw1 \<le> deadline" "d = None" "s' = (e1, tw2)"
    by (auto simp: endpoints_round_def split: prod.splits if_splits option.splits)
  with w wait_later [of c DefaultClusterHealthPollInterval tw1 tw2] probe_all_later [OF p] show ?thesis by auto
qed

lemma leader_round_again:
  assumes "leader_round c ms replaced deadline s = Inr s'"
  shows "fst (snd s) \<le> deadline \<and> fst (snd s) + DefaultClusterHealthPollInterval \<le> fst (snd s')"
proof -
  obtain r tw1 where p: "leader_scan c ms None (snd s) = (r, tw1)" by (metis surj_pair)
  obtain d tw2 where w: "wait_or_done c DefaultClusterHealthPollInterval tw1 = (d, tw2)" by (metis surj_pair)
  from assms p w have "fst tw1 \<le> deadline" "d = None" "snd s' = tw2"
    by (auto simp: leader_round_def localLeaderName_def split: prod.splits if_splits option.splits sum.splits)
  with w wait_later [of c DefaultClusterHealthPollInterval tw1 tw2] leader_scan_later [OF p] show ?thesis by auto
qed

interpretation health: poller "\<lambda>s. fst (snd s)" deadline DefaultClusterHealthPollInterval
    "health_round c eps maxWait deadline" "health_loop c eps maxWait deadline" for c eps maxWait deadline
  by unfold_locales (simp, rule health_round_again, assumption, rule health_loop.simps)

interpretation endpoints: poller "\<lambda>s. fst (snd s)" deadline DefaultClusterHealthPollInterval
    "endpoints_round c eps maxWait deadline" "endpoints_loop c eps maxWait deadline" for c eps maxWait deadline
  by unfold_locales (simp, rule endpoints_round_again, assumption, rule endpoints_loop.simps)

interpretation leader: poller "\<lambda>s. fst (snd s)" deadline DefaultClusterHealthPollInterval
    "leader_round c ms replaced deadline" "leader_loop c ms replaced deadline" for c ms replaced deadline
  by unfold_locales (simp, rule leader_round_again, assumption, rule leader_loop.simps)

section \<open>What the waits promise\<close>

text \<open>The answers of one round of status calls, one after the other.\<close>

fun round_answers :: "'w member_client \<Rightarrow> string list \<Rightarrow> 'w timed \<Rightarrow> bool list" where
  "round_answers c [] tw = []"
| "round_answers c (ep # eps) tw =
     (case Status c ep tw of (r, tw1) \<Rightarrow> (case r of Inl _ \<Rightarrow> False | Inr _ \<Rightarrow> True) # round_answers c eps tw1)"

lemma length_round_answers [simp]: "length (round_answers c eps tw) = length eps"
  by (induction eps arbitrary: tw) (auto split: prod.splits)

lemma probe_counts: "probe c eps n e tw = (n', e', tw') \<Longrightarrow> n' = n + length (filter id (round_answers c eps tw))"
proof (induction eps arbitrary: n e tw)
  case (Cons ep eps)
  obtain r tw1 where "Status c ep tw = (r, tw1)" by (metis surj_pair)
  with Cons.prems show ?case by (cases r) (auto dest: Cons.IH)
qed simp

lemma probe_all_conj: "probe_all c eps b e tw = (b', e', tw') \<Longrightarrow> b' \<longleftrightarrow> b \<and> list_all id (round_answers c eps tw)"
proof (induction eps arbitrary: b e tw)
  case (Cons ep eps)
  obtain r tw1 where "Status c ep tw = (r, tw1)" by (metis surj_pair)
  with Cons.prems show ?case by (cases r) (auto dest: Cons.IH)
qed simp

definition quorum_answered :: "'w member_client \<Rightarrow> string list \<Rightarrow> 'w timed \<Rightarrow> bool" where
  "quorum_answered c eps tw \<longleftrightarrow> length eps < 2 * card {i. i < length eps \<and> round_answers c eps tw ! i}"

lemma quorum_answeredI:
  "requiredHealthy eps \<le> length (filter id (round_answers c eps tw)) \<Longrightarrow> quorum_answered c eps tw"
  by (simp add: quorum_answered_def requiredHealthy_def length_filter_conv_card)

text \<open>Two rounds in which a quorum answered have an endpoint in common.\<close>

lemma quorums_meet:
  assumes "quorum_answered c eps tw" "quorum_answered c eps tw'"
  shows "\<exists>i<length eps. round_answers c eps tw ! i \<and> round_answers c eps tw' ! i"
proof (rule ccontr)
  let ?A = "{i. i < length eps \<and> round_answers c eps tw ! i}"
  let ?B = "{i. i < length eps \<and> round_answers c eps tw' ! i}"
  assume "\<not> ?thesis"
  then have "?A \<inter> ?B = {}" by auto
  then have "card ?A + card ?B = card (?A \<union> ?B)" by (simp add: card_Un_disjoint)
  also have "\<dots> \<le> card {..<length eps}" by (rule card_mono) auto
  finally show False using assms unfolding quorum_answered_def by simp
qed

lemma health_round_return:
  assumes "health_round c eps maxWait deadline s = Inl (r, tw')"
  shows "case r of
      None \<Rightarrow> fst (snd s) < deadline \<and> quorum_answered c eps (snd s)
    | Some (ErrInterrupted e) \<Rightarrow> True
    | Some (ErrFailedHealthCheck e) \<Rightarrow> deadline \<le> fst tw'
    | Some e \<Rightarrow> e = ErrClusterHealthTimeout maxWait \<and> deadline \<le> fst tw'"
proof -
  obtain n e1 tw1 where p: "probe c eps 0 (fst s) (snd s) = (n, e1, tw1)" by (metis surj_pair)
  obtain d tw2 where w: "wait_or_done c DefaultClusterHealthPollInterval tw1 = (d, tw2)" by (metis surj_pair)
  have "requiredHealthy eps \<le> n \<Longrightarrow> quorum_answered c eps (snd s)"
    using probe_counts [OF p] by (auto intro: quorum_answeredI)
  with assms p w show ?thesis
    by (cases d) (auto simp: health_round_def split: prod.splits if_splits option.splits)
qed

text \<open>What a result of the wait tells: success, that in one round that began before the deadline more than
  half of the endpoints answered; failure other than by the caller's context, that the deadline has passed.\<close>

definition health_outcome :: "'w member_client \<Rightarrow> string list \<Rightarrow> int \<Rightarrow> int \<Rightarrow> health_error option \<Rightarrow> int \<Rightarrow> bool" where
  "health_outcome c eps maxWait t r t' \<longleftrightarrow>
     (case r of
        None \<Rightarrow> (\<exists>t0 w0. t \<le> t0 \<and> t0 < t + maxWait \<and> quorum_answered c eps (t0, w0))
      | Some (ErrInterrupted e) \<Rightarrow> True
      | Some (ErrFailedHealthCheck e) \<Rightarrow> t + maxWait \<le> t'
      | Some e \<Rightarrow> e = ErrClusterHealthTimeout maxWait \<and> t + maxWait \<le> t')"

lemma WaitForClusterHealthy_last_round:
  assumes "eps \<noteq> []" "0 < maxWait" "J (None, t, w)"
    and "\<And>s s'. J s \<Longrightarrow> health_round c eps maxWait (t + maxWait) s = Inr s' \<Longrightarrow> J s'"
  shows "\<exists>s' r t' w'. WaitForClusterHealthy (Some c) eps maxWait (t, w) = Some (r, (t', w')) \<and>
    health_round c eps maxWait (t + maxWait) s' = Inl (r, (t', w')) \<and> J s' \<and> health_outcome c eps maxWait t r t'"
proof -
  let ?s = "(None, t, w) :: string option \<times> _"
  let ?I = "\<lambda>s. t \<le> fst (snd s) \<and> J s"
  obtain r where r: "health_loop c eps maxWait (t + maxWait) ?s = Some r" using health.loop_returns by blast
  have "\<exists>s'. health_round c eps maxWait (t + maxWait) s' = Inl r \<and> ?I s'"
  proof (rule health.loop_result [OF r])
    fix s s' :: "string option \<times> int \<times> 'a"
    assume i: "?I s" and n: "health_round c eps maxWait (t + maxWait) s = Inr s'"
    have "t \<le> fst (snd s')" using i health_round_again [OF n] pace_pos by linarith
    with i n assms(4) show "?I s'" by blast
  qed (simp add: assms(3))
  then obtain s' where s': "health_round c eps maxWait (t + maxWait) s' = Inl r" "?I s'" by blast
  obtain q t' w' where q: "r = (q, t', w')" by (metis surj_pair)
  have "WaitForClusterHealthy (Some c) eps maxWait (t, w) = Some (q, t', w')"
    using assms r q by (simp add: WaitForClusterHealthy_def)
  moreover have "health_outcome c eps maxWait t q t'"
    using health_round_return [OF s'(1) [unfolded q]] s'(2) unfolding health_outcome_def
    by (cases s') (auto split: option.splits health_error.splits)
  ultimately show ?thesis using s' q by blast
qed

text \<open>C28: Waiting for a healthy cluster always returns, and what it returns is right: success only when, in
  one round that began before the deadline, more than half of the endpoints answered (so two waits that
  succeeded have an endpoint in common), and, unless the caller's context was interrupted, failure only
  when the deadline has passed.\<close>

theorem WaitForClusterHealthy_quorum:
  assumes "eps \<noteq> []" "0 < maxWait"
  shows "\<exists>r t' w'. WaitForClusterHealthy (Some c) eps maxWait (t, w) = Some (r, (t', w')) \<and> health_outcome c eps maxWait t r t'"
  using WaitForClusterHealthy_last_round [of eps maxWait "\<lambda>_. True" t w c] assms by blast

text \<open>A cluster of three of which the third endpoint never answers.\<close>

definition two_of_three :: "nat member_client" where
  "two_of_three = \<lparr>mcStatus = (\<lambda>ep w. (if ep = ''c'' then Inl ''refused'' else Inr \<lparr>srLeader = 1, srMemberId = Some (if ep = ''a'' then 1 else 2)\<rparr>, 5, w + 1)),
     mcWait = (\<lambda>d w. (None, 0, w))\<rparr>"

theorem WaitForClusterHealthy_quorum_witness:
  "\<exists>r t' w'. WaitForClusterHealthy (Some two_of_three) [''a'', ''b'', ''c''] 100 (0, 0) = Some (r, (t', w')) \<and>
     health_outcome two_of_three [''a'', ''b'', ''c''] 100 0 r t'"
  by (rule WaitForClusterHealthy_quorum) simp_all

section \<open>Leaders and endpoints\<close>

definition leads :: "'w member_client \<Rightarrow> clusterMember list \<Rightarrow> string \<Rightarrow> bool" where
  "leads c members name \<longleftrightarrow> (\<exists>m\<in>set members. mbName m = name \<and>
     (\<exists>tw st tw'. Status c (mbClientURL m) tw = (Inr st, tw') \<and> srLeader st \<noteq> 0 \<and> srMemberId st = Some (srLeader st)))"

lemma leader_scan_leads: "leader_scan c ms e tw = (Inr name, tw') \<Longrightarrow> leads c ms name"
proof (induction ms arbitrary: e tw)
  case (Cons m ms)
  obtain r tw1 where s: "Status c (mbClientURL m) tw = (r, tw1)" by (metis surj_pair)
  have "leads c ms name \<Longrightarrow> leads c (m # ms) name" unfolding leads_def by auto
  moreover have "leads c (m # ms) name"
    if "r = Inr st" "srLeader st \<noteq> 0" "srMemberId st = Some (srLeader st)" "mbName m = name" for st
    using s that unfolding leads_def by (metis list.set_intros(1))
  ultimately show ?case using Cons s by (cases r) (auto split: if_splits)
qed simp

lemma leads_member: "leads c ms name \<Longrightarrow> name \<in> mbName ` set ms"
  by (auto simp: leads_def)

lemma leader_round_spec:
  assumes "fst (fst s) = [] \<or> leads c ms (fst (fst s))" "[] \<notin> mbName ` set ms"
  shows "case leader_round c ms replaced deadline s of
      Inl ((leader, None), tw') \<Rightarrow> leads c ms leader \<and> (leader = replaced \<longrightarrow> deadline < fst tw')
    | Inl ((leader, Some e), tw') \<Rightarrow> leader = []
    | Inr s' \<Rightarrow> fst (fst s') = [] \<or> leads c ms (fst (fst s'))"
proof -
  obtain r tw1 where p: "leader_scan c ms None (snd s) = (r, tw1)" by (metis surj_pair)
  obtain d tw2 where w: "wait_or_done c DefaultClusterHealthPollInterval tw1 = (d, tw2)" by (metis surj_pair)
  show ?thesis
  proof (cases r)
    case (Inl e)
    with p w assms show ?thesis
      by (cases d) (auto simp: leader_round_def localLeaderName_def split: prod.splits if_splits)
  next
    case (Inr name)
    have l: "leads c ms name" using p Inr leader_scan_leads by blast
    moreover have "name \<noteq> []" using leads_member [OF l] assms(2) by blast
    ultimately show ?thesis using p w Inr
      by (cases d) (auto simp: leader_round_def localLeaderName_def split: prod.splits if_splits)
  qed
qed

text \<open>Waiting for a leader change always returns. A name is returned only for a member that reported
  itself as the leader; it is the replaced member's only when the whole time has passed; an error comes
  with no name.\<close>

theorem waitForLeaderChange_leader:
  assumes "[] \<notin> mbName ` set ms"
  shows "\<exists>leader err t' w'. waitForLeaderChange c ms replaced maxWait (t, w) = Some ((leader, err), (t', w')) \<and>
    (if err = None then leads c ms leader \<and> (leader = replaced \<longrightarrow> t + maxWait < t') else leader = [])"
proof -
  let ?s = "(([], None), t, w) :: (string \<times> leader_error option) \<times> _"
  let ?I = "\<lambda>s. fst (fst s) = [] \<or> leads c ms (fst (fst s))"
  obtain r where r: "leader_loop c ms replaced (t + maxWait) ?s = Some r" using leader.loop_returns by blast
  have "\<exists>s'. leader_round c ms replaced (t + maxWait) s' = Inl r \<and> ?I s'"
  proof (rule leader.loop_result [OF r])
    fix s s' :: "(string \<times> leader_error option) \<times> int \<times> 'a"
    assume "?I s" "leader_round c ms replaced (t + maxWait) s = Inr s'"
    then show "?I s'" using leader_round_spec [of s c ms replaced "t + maxWait"] assms by simp
  qed simp
  then obtain s' where s': "leader_round c ms replaced (t + maxWait) s' = Inl r" "?I s'" by blast
  obtain l e t' w' where q: "r = ((l, e), t', w')" by (metis surj_pair)
  have "if e = None then leads c ms l \<and> (l = replaced \<longrightarrow> t + maxWait < t') else l = []"
    using leader_round_spec [OF s'(2) assms, of replaced "t + maxWait"] s'(1) q by (cases e) auto
  with r q show ?thesis by (auto simp: waitForLeaderChange_def)
qed

definition ab_members :: "clusterMember list" where
  "ab_members = [\<lparr>mbName = ''m1'', mbClientURL = ''a'', mbPeerURL = ''p1''\<rparr>, \<lparr>mbName = ''m2'', mbClientURL = ''b'', mbPeerURL = ''p2''\<rparr>]"

theorem waitForLeaderChange_leader_witness:
  "\<exists>leader err t' w'. waitForLeaderChange two_of_three ab_members ''m1'' 10 (0, 0) = Some ((leader, err), (t', w')) \<and>
    (if err = None then leads two_of_three ab_members leader \<and> (leader = ''m1'' \<longrightarrow> 0 + 10 < t') else leader = [])"
  by (rule waitForLeaderChange_leader) (simp add: ab_members_def)

lemma waitForLocalEndpointsHealthy_all:
  "\<exists>r t' w'. waitForLocalEndpointsHealthy c eps maxWait (t, w) = Some (r, (t', w')) \<and>
    (r = None \<longrightarrow> (\<exists>t0 w0. t \<le> t0 \<and> list_all id (round_answers c eps (t0, w0))))"
proof -
  let ?I = "\<lambda>s. t \<le> fst (snd s)"
  obtain r where r: "endpoints_loop c eps maxWait (t + maxWait) (None, t, w) = Some r" using endpoints.loop_returns by blast
  have "\<exists>s'. endpoints_round c eps maxWait (t + maxWait) s' = Inl r \<and> ?I s'"
  proof (rule endpoints.loop_result [OF r])
    fix s s' :: "string option \<times> int \<times> 'a"
    assume "?I s" "endpoints_round c eps maxWait (t + maxWait) s = Inr s'"
    then show "?I s'" using endpoints_round_again [of c eps maxWait "t + maxWait" s s'] pace_pos by linarith
  qed simp
  then obtain s' where s': "endpoints_round c eps maxWait (t + maxWait) s' = Inl r" "?I s'" by blast
  obtain n e1 tw1 where p: "probe_all c eps True (fst s') (snd s') = (n, e1, tw1)" by (metis surj_pair)
  have "fst r = None \<Longrightarrow> n"
    using s' p by (cases s') (auto simp: endpoints_round_def split: if_splits prod.splits option.splits)
  with probe_all_conj [OF p] s'(2) have "fst r = None \<longrightarrow> (\<exists>t0 w0. t \<le> t0 \<and> list_all id (round_answers c eps (t0, w0)))"
    by (metis prod.collapse)
  with r show ?thesis by (cases r) (auto simp: waitForLocalEndpointsHealthy_def)
qed

end
