(* ===== verification/LocalCommands.thy ===== *)
theory LocalCommands
  imports LocalSafety ClusterHealth
begin

text \<open>
  The commands \<^verbatim>\<open>local up\<close>, \<^verbatim>\<open>down\<close>, \<^verbatim>\<open>status\<close> and \<^verbatim>\<open>replace\<close> of \<^verbatim>\<open>src/cmd/etcd-infra/local.go\<close> and
  \<^verbatim>\<open>local_replace.go\<close>, from their parsed flags on. They compose the provider of \<open>LocalProvider\<close> with the
  waits of \<open>ClusterHealth\<close>; a command returns the line it prints, or its error. The process environment,
  the release lookup, the client constructor and the clock are the record \<open>local_env\<close>. A command whose
  result is \<open>None\<close> would not return.
\<close>

datatype cmd_error = CmdError string | CmdExec string exec_error string | CmdProvider string local_error
  | CmdHealth string health_error string | CmdLeader leader_error | CmdJoin "cmd_error list"

record 'w local_env =
  leRuntimeEnv :: string
  leLookPath :: "string \<Rightarrow> bool"
  leCtxErr :: "'w \<Rightarrow> string option"
  leLatestVersion :: "'w \<Rightarrow> (string + string) \<times> 'w"
  leSemver :: "string \<Rightarrow> bool"
  leNewClient :: "string list \<Rightarrow> 'w \<Rightarrow> (string + 'w member_client) \<times> 'w"
  leNow :: "'w \<Rightarrow> int"
  leClientMode :: string

record local_up_flags =
  luVersion :: string
  luName :: string
  luMembers :: int
  luPort :: int
  luImage :: string
  luExtraArgs :: string
  luExtraArgsFile :: string
  luEnv :: string
  luAuxPort :: string

definition minute :: int where "minute = 60 * second"

definition etcdImage :: string where "etcdImage = ''gcr.io/etcd-development/etcd''"

section \<open>Container runtimes\<close>

fun running_runtimes :: "'w host \<Rightarrow> 'w local_env \<Rightarrow> string list \<Rightarrow> 'w \<Rightarrow> string list \<times> 'w" where
  "running_runtimes h env [] w = ([], w)"
| "running_runtimes h env (rt # rts) w =
     (if \<not> leLookPath env rt then running_runtimes h env rts w
      else (case hExec h AttemptCtx rt [''info''] w of ((_, err), w1) \<Rightarrow>
              (case running_runtimes h env rts w1 of (found, w2) \<Rightarrow>
                 (if err = None then rt # found else found, w2))))"

definition localContainerRuntimes :: "'w host \<Rightarrow> 'w local_env \<Rightarrow> 'w \<Rightarrow> (cmd_error + string list) \<times> 'w" where
  "localContainerRuntimes h env w =
     (let configured = leRuntimeEnv env in
      if configured \<noteq> [] \<and> configured \<noteq> ''docker'' \<and> configured \<noteq> ''podman''
      then (Inl (CmdError ''ETCD_INFRA_CONTAINER_RUNTIME must be docker or podman''), w)
      else let candidates = (if configured \<noteq> [] then [configured] else [''docker'', ''podman'']) in
           case running_runtimes h env candidates w of (runtimes, w1) \<Rightarrow>
             if runtimes \<noteq> [] then (Inr runtimes, w1)
             else (Inl (case leCtxErr env w1 of Some e \<Rightarrow> CmdError e
                        | None \<Rightarrow> if configured \<noteq> []
                                  then CmdError (''ETCD_INFRA_CONTAINER_RUNTIME='' @ configured @ '' is not installed or not running'')
                                  else CmdError ''Docker or Podman must be installed and running''), w1))"

definition localContainerRuntime :: "'w host \<Rightarrow> 'w local_env \<Rightarrow> 'w \<Rightarrow> (cmd_error + string) \<times> 'w" where
  "localContainerRuntime h env w =
     (case localContainerRuntimes h env w of (Inl e, w1) \<Rightarrow> (Inl e, w1) | (Inr runtimes, w1) \<Rightarrow> (Inr (runtimes ! 0), w1))"

fun runtime_with :: "'w host \<Rightarrow> string \<Rightarrow> string list \<Rightarrow> 'w \<Rightarrow> (cmd_error + string) \<times> 'w" where
  "runtime_with h name [] w = (Inl (CmdError (''local etcd container '' @ name @ '' not found'')), w)"
| "runtime_with h name (rt # rts) w =
     (case hExec h CallerCtx rt [''inspect'', name] w of
        ((_, None), w1) \<Rightarrow> (Inr rt, w1) | ((_, Some _), w1) \<Rightarrow> runtime_with h name rts w1)"

definition localRuntimeForContainer :: "'w host \<Rightarrow> 'w local_env \<Rightarrow> string \<Rightarrow> 'w \<Rightarrow> (cmd_error + string) \<times> 'w" where
  "localRuntimeForContainer h env name w =
     (case localContainerRuntimes h env w of
        (Inl e, w1) \<Rightarrow> (Inl e, w1) | (Inr runtimes, w1) \<Rightarrow> runtime_with h name runtimes w1)"

section \<open>Removing a cluster\<close>

definition join_error :: "cmd_error list \<Rightarrow> cmd_error option" where
  "join_error errs = (if errs = [] then None else Some (CmdJoin errs))"

text \<open>A listing followed, if it succeeded and is not empty, by a command on everything it lists.\<close>

definition remove_listed :: "'w host \<Rightarrow> run_ctx \<Rightarrow> string \<Rightarrow> string \<Rightarrow> string list \<Rightarrow> string list \<Rightarrow> 'w \<Rightarrow> cmd_error list \<times> 'w" where
  "remove_listed h ctx rt what listing removal w =
     (case hExec h ctx rt listing w of
        ((output, Some err), w1) \<Rightarrow> ([CmdExec (''list local etcd '' @ what) err (TrimSpace output)], w1)
      | ((output, None), w1) \<Rightarrow>
          if Fields output \<noteq> []
          then (case hExec h ctx rt (removal @ Fields output) w1 of
                  ((rmOutput, Some rmErr), w2) \<Rightarrow> ([CmdExec (''remove local etcd '' @ what) rmErr (TrimSpace rmOutput)], w2)
                | ((rmOutput, None), w2) \<Rightarrow> ([], w2))
          else ([], w1))"

definition removeLocalCluster :: "'w host \<Rightarrow> run_ctx \<Rightarrow> string \<Rightarrow> string \<Rightarrow> 'w \<Rightarrow> cmd_error option \<times> 'w" where
  "removeLocalCluster h ctx rt cluster w =
     (case remove_listed h ctx rt ''containers'' [''ps'', ''--all'', ''--quiet'', ''--filter'', ClusterFilter cluster]
             [''rm'', ''--force''] w of (errs1, w1) \<Rightarrow>
      case remove_listed h ctx rt ''volumes'' [''volume'', ''ls'', ''--quiet'', ''--filter'', ClusterFilter cluster]
             [''volume'', ''rm'', ''--force''] w1 of (errs2, w2) \<Rightarrow>
      case hExec h ctx rt [''network'', ''rm'', NetworkName cluster] w2 of ((networkOutput, networkErr), w3) \<Rightarrow>
        (let errs3 = (case networkErr of None \<Rightarrow> []
               | Some err \<Rightarrow> if Contains (to_lower networkOutput) ''not found'' then []
                             else [CmdExec (''remove '' @ rt @ '' network '' @ NetworkName cluster) err (TrimSpace networkOutput)])
         in (join_error (errs1 @ errs2 @ errs3), w3)))"

fun collect_logs :: "'w host \<Rightarrow> string \<Rightarrow> string list \<Rightarrow> 'w \<Rightarrow> string \<times> 'w" where
  "collect_logs h rt [] w = ([], w)"
| "collect_logs h rt (i # is) w =
     (case hExec h CleanupCtx rt [''logs'', i] w of ((out, _), w1) \<Rightarrow>
        (case collect_logs h rt is w1 of (rest, w2) \<Rightarrow> (out @ rest, w2)))"

definition localClusterLogs :: "'w host \<Rightarrow> string \<Rightarrow> string \<Rightarrow> 'w \<Rightarrow> string \<times> 'w" where
  "localClusterLogs h rt cluster w =
     (case hExec h CleanupCtx rt [''ps'', ''--all'', ''--quiet'', ''--filter'', ClusterFilter cluster] w of
        ((_, Some err), w1) \<Rightarrow> (''unable to list container logs: '' @ (case err of ExecError e \<Rightarrow> e | ExitError c \<Rightarrow> ''exit status '' @ show_int c), w1)
      | ((output, None), w1) \<Rightarrow> (case collect_logs h rt (Fields output) w1 of (logs, w2) \<Rightarrow> (TrimSpace logs, w2)))"

fun down_runtimes :: "'w host \<Rightarrow> string \<Rightarrow> string list \<Rightarrow> 'w \<Rightarrow> cmd_error list \<times> 'w" where
  "down_runtimes h name [] w = ([], w)"
| "down_runtimes h name (rt # rts) w =
     (case removeLocalCluster h CallerCtx rt name w of (err, w1) \<Rightarrow>
        (case down_runtimes h name rts w1 of (errs, w2) \<Rightarrow>
           ((case err of None \<Rightarrow> errs | Some e \<Rightarrow> CmdJoin [CmdError (rt @ '': ''), e] # errs), w2)))"

definition runLocalDown :: "'w host \<Rightarrow> 'w local_env \<Rightarrow> string \<Rightarrow> 'w \<Rightarrow> (cmd_error + string) \<times> 'w" where
  "runLocalDown h env name w =
     (case validateClusterName name of Some e \<Rightarrow> (Inl (CmdError e), w)
      | None \<Rightarrow>
        (case localContainerRuntimes h env w of
           (Inl e, w1) \<Rightarrow> (Inl e, w1)
         | (Inr runtimes, w1) \<Rightarrow>
           (case down_runtimes h name runtimes w1 of (errs, w2) \<Rightarrow>
              (case join_error errs of Some e \<Rightarrow> (Inl e, w2)
               | None \<Rightarrow> (Inr (''removed local etcd cluster '' @ name), w2)))))"

definition tab :: char where "tab = CHR 0x09"

fun status_runtimes :: "'w host \<Rightarrow> string \<Rightarrow> string list \<Rightarrow> 'w \<Rightarrow> (string list \<times> cmd_error list) \<times> 'w" where
  "status_runtimes h name [] w = (([], []), w)"
| "status_runtimes h name (rt # rts) w =
     (case hExec h CallerCtx rt [''ps'', ''--all'', ''--filter'', ClusterFilter name, ''--format'', ''{{.Names}}'' @ [tab] @ ''{{.Status}}'' @ [tab] @ ''{{.Ports}}''] w of
        ((output, err), w1) \<Rightarrow>
        (case status_runtimes h name rts w1 of ((outputs, errs), w2) \<Rightarrow>
           (case err of
              Some e \<Rightarrow> ((outputs, CmdExec (''inspect local etcd with '' @ rt) e (TrimSpace output) # errs), w2)
            | None \<Rightarrow> if TrimSpace output \<noteq> [] then (((rt @ '':'' @ [line_feed] @ TrimSpace output) # outputs, errs), w2)
                      else ((outputs, errs), w2))))"

text \<open>The printed lines come with the error: the command prints what it found before it fails.\<close>

definition runLocalStatus :: "'w host \<Rightarrow> 'w local_env \<Rightarrow> string \<Rightarrow> 'w \<Rightarrow> (cmd_error option \<times> string list) \<times> 'w" where
  "runLocalStatus h env name w =
     (case validateClusterName name of Some e \<Rightarrow> ((Some (CmdError e), []), w)
      | None \<Rightarrow>
        (case localContainerRuntimes h env w of
           (Inl e, w1) \<Rightarrow> ((Some e, []), w1)
         | (Inr runtimes, w1) \<Rightarrow>
           (case status_runtimes h name runtimes w1 of ((outputs, errs), w2) \<Rightarrow>
              (case join_error errs of Some e \<Rightarrow> ((Some e, outputs), w2)
               | None \<Rightarrow> if outputs = [] then ((Some (CmdError (''local etcd cluster '' @ name @ '' not found'')), []), w2)
                         else ((None, outputs), w2)))))"

section \<open>Bringing a cluster up\<close>

definition member_op :: "string \<Rightarrow> string \<Rightarrow> clusterMember list \<Rightarrow> string list \<Rightarrow> string list \<Rightarrow> PortMapping option \<Rightarrow> int \<Rightarrow>
    nat \<Rightarrow> clusterMember \<Rightarrow> create_op" where
  "member_op name img members serverArgs envVars aux port i m =
     \<lparr>opName = mbName m, opImage = img,
      opPortMappings = [\<lparr>pmContainerPort = 2379, pmHostPort = int64 (port + int i), pmHostIP = ''127.0.0.1'', pmProtocol = []\<rparr>],
      opProviderConfig = Some
        \<lparr>ccCommand = [''/usr/local/bin/etcd''] @ etcdServerArgs m members name DataDir @ serverArgs, ccEnv = envVars,
         ccAuxPortMapping = map_option (\<lambda>a. a\<lparr>pmHostPort := int64 (pmHostPort a + int i)\<rparr>) aux\<rparr>\<rparr>"

fun create_members :: "'w host \<Rightarrow> Manager \<Rightarrow> (nat \<Rightarrow> clusterMember \<Rightarrow> create_op) \<Rightarrow> nat \<Rightarrow> clusterMember list \<Rightarrow> 'w \<Rightarrow>
    cmd_error option \<times> 'w" where
  "create_members h mgr mk i [] w = (None, w)"
| "create_members h mgr mk i (m # ms) w =
     (case Create h mgr (mk i m) w of
        (Inl e, w1) \<Rightarrow> (Some (CmdProvider (''start local etcd member '' @ mbName m) e), w1)
      | (Inr _, w1) \<Rightarrow> create_members h mgr mk (Suc i) ms w1)"

text \<open>The image and the tag that is printed.\<close>

definition resolve_image :: "'w local_env \<Rightarrow> string \<Rightarrow> string \<Rightarrow> 'w \<Rightarrow> (cmd_error + string \<times> string) \<times> 'w" where
  "resolve_image env img version w =
     (if img = []
      then (case resolveVersion (leLatestVersion env) (leSemver env) version w of
              (Inl e, w1) \<Rightarrow> (Inl (CmdError e), w1)
            | (Inr v, w1) \<Rightarrow> (Inr (etcdImage @ '':'' @ releaseTag v, releaseTag v), w1))
      else (Inr (img, img), w))"

definition cleanup_cluster :: "'w host \<Rightarrow> string \<Rightarrow> string \<Rightarrow> 'w \<Rightarrow> 'w" where
  "cleanup_cluster h rt name w = snd (removeLocalCluster h CleanupCtx rt name w)"

text \<open>The steps after the network exists: members, client, health.\<close>

definition up_members :: "'w host \<Rightarrow> 'w local_env \<Rightarrow> string \<Rightarrow> string \<Rightarrow> clusterMember list \<Rightarrow>
    (nat \<Rightarrow> clusterMember \<Rightarrow> create_op) \<Rightarrow> string \<Rightarrow> 'w \<Rightarrow> ((cmd_error + string) \<times> 'w) option" where
  "up_members h env rt name members mk tag w =
     (case create_members h \<lparr>mRuntime = rt, mCluster = name, mDowntime = 0\<rparr> mk 0 members w of
        (Some e, w1) \<Rightarrow> Some (Inl e, cleanup_cluster h rt name w1)
      | (None, w1) \<Rightarrow>
        (case leNewClient env (memberClientURLs members) w1 of
           (Inl e, w2) \<Rightarrow> Some (Inl (CmdError (''create etcd client: '' @ e)), cleanup_cluster h rt name w2)
         | (Inr cli, w2) \<Rightarrow>
           (case WaitForClusterHealthy (Some cli) (memberClientURLs members) minute (leNow env w2, w2) of
              None \<Rightarrow> None
            | Some (Some err, (_, w3)) \<Rightarrow>
                (case localClusterLogs h rt name w3 of (logs, w4) \<Rightarrow>
                   Some (Inl (CmdHealth ''wait for local etcd: '' err logs), cleanup_cluster h rt name w4))
            | Some (None, (_, w3)) \<Rightarrow>
                Some (Inr (''local etcd '' @ tag @ '' cluster is healthy at '' @ Join '','' (memberClientURLs members)), w3))))"

definition runLocalUp :: "'w host \<Rightarrow> 'w local_env \<Rightarrow> path \<Rightarrow> disk \<Rightarrow> local_up_flags \<Rightarrow> 'w \<Rightarrow> ((cmd_error + string) \<times> 'w) option" where
  "runLocalUp h env cwd d f w =
     (case validateLocalOptions (luName f) (luMembers f) (luPort f) of Some e \<Rightarrow> Some (Inl (CmdError e), w)
      | None \<Rightarrow>
     (case fst (resolveExtraArgs cwd (luExtraArgs f) (luExtraArgsFile f) d) of Inl e \<Rightarrow> Some (Inl (CmdError e), w)
      | Inr serverArgs \<Rightarrow>
     (case parseLocalEnv (luEnv f) of Inl e \<Rightarrow> Some (Inl (CmdError e), w)
      | Inr envVars \<Rightarrow>
     (case parseLocalAuxPort (luAuxPort f) (luMembers f) of Inl e \<Rightarrow> Some (Inl (CmdError e), w)
      | Inr aux \<Rightarrow>
     (case localContainerRuntime h env w of (Inl e, w1) \<Rightarrow> Some (Inl e, w1)
      | (Inr rt, w1) \<Rightarrow>
     (case resolve_image env (luImage f) (luVersion f) w1 of (Inl e, w2) \<Rightarrow> Some (Inl e, w2)
      | (Inr (img, tag), w2) \<Rightarrow>
        let members = localMembers (luName f) (nat (luMembers f)) (luPort f) in
        case hExec h CallerCtx rt [''network'', ''create'', NetworkName (luName f)] w2 of
          ((output, Some err), w3) \<Rightarrow>
            Some (Inl (CmdExec (''create '' @ rt @ '' network '' @ NetworkName (luName f)) err (TrimSpace output)), w3)
        | ((output, None), w3) \<Rightarrow>
            up_members h env rt (luName f) members
              (member_op (luName f) img members serverArgs envVars aux (luPort f)) tag w3))))))"

section \<open>Replacing a member\<close>

definition hasLocalMember :: "clusterMember list \<Rightarrow> string \<Rightarrow> bool" where
  "hasLocalMember members name = list_ex (\<lambda>m. mbName m = name) members"

definition leaderChangeTimeout :: int where "leaderChangeTimeout = 10 * second"

definition localReplacementTimeout :: int where "localReplacementTimeout = minute"

record local_replace_flags =
  lrName :: string
  lrMember :: string
  lrMembers :: int
  lrPort :: int
  lrDowntime :: int

text \<open>After the replacement: all endpoints healthy again, and a leader other than the replaced one if
  it was the leader.\<close>

definition replaced_member :: "'w local_env \<Rightarrow> 'w member_client \<Rightarrow> clusterMember list \<Rightarrow> bool \<Rightarrow> string \<Rightarrow> 'w \<Rightarrow>
    ((cmd_error + string) \<times> 'w) option" where
  "replaced_member env cli members replacingLeader target w =
     (let healthy = ''; cluster healthy (client='' @ leClientMode env @ '')'' in
      case waitForLocalEndpointsHealthy cli (memberClientURLs members) localReplacementTimeout (leNow env w, w) of
        None \<Rightarrow> None
      | Some (Some err, (_, w1)) \<Rightarrow> Some (Inl (CmdHealth (''wait for replaced member '' @ target) err []), w1)
      | Some (None, (_, w1)) \<Rightarrow>
          if replacingLeader \<and> length members > 1
          then (case waitForLeaderChange cli members target leaderChangeTimeout (leNow env w1, w1) of
                  None \<Rightarrow> None
                | Some ((_, Some e), (_, w2)) \<Rightarrow> Some (Inl (CmdLeader e), w2)
                | Some ((newLeader, None), (_, w2)) \<Rightarrow>
                    Some (Inr (if newLeader = target
                      then ''replaced local etcd leader '' @ target @ ''; leadership stayed with '' @ newLeader @ '' after 10s'' @ healthy
                      else ''replaced local etcd leader '' @ target @ ''; new leader '' @ newLeader @ healthy), w2))
          else Some (Inr (''replaced local etcd member '' @ target @ healthy), w1))"

definition replace_target :: "'w member_client \<Rightarrow> 'w local_env \<Rightarrow> string \<Rightarrow> clusterMember list \<Rightarrow> string \<Rightarrow> 'w \<Rightarrow> (cmd_error + string) \<times> 'w" where
  "replace_target cli env name members target w =
     (if target = ''leader''
      then (case localLeaderName cli members (leNow env w, w) of
              (Inl e, (_, w1)) \<Rightarrow> (Inl (CmdLeader e), w1) | (Inr t, (_, w1)) \<Rightarrow> (Inr t, w1))
      else if \<not> hasLocalMember members target
      then (Inl (CmdError (''member '' @ target @ '' is not part of cluster '' @ name)), w)
      else (Inr target, w))"

definition replace_on :: "'w host \<Rightarrow> 'w local_env \<Rightarrow> nat \<Rightarrow> 'w member_client \<Rightarrow> local_replace_flags \<Rightarrow> string \<Rightarrow> 'w \<Rightarrow>
    ((cmd_error + string) \<times> 'w) option" where
  "replace_on h env ticks cli f t w =
     (case localRuntimeForContainer h env t w of (Inl e, w1) \<Rightarrow> Some (Inl e, w1)
      | (Inr rt, w1) \<Rightarrow>
     (case ReplaceMachine h \<lparr>mRuntime = rt, mCluster = lrName f, mDowntime = lrDowntime f\<rparr> ticks t w1 of
        (Inl e, w2) \<Rightarrow> Some (Inl (CmdProvider [] e), w2)
      | (Inr _, w2) \<Rightarrow> replaced_member env cli (localMembers (lrName f) (nat (lrMembers f)) (lrPort f))
          (TrimSpace (lrMember f) = ''leader'') t w2))"

definition runLocalReplace :: "'w host \<Rightarrow> 'w local_env \<Rightarrow> nat \<Rightarrow> local_replace_flags \<Rightarrow> 'w \<Rightarrow> ((cmd_error + string) \<times> 'w) option" where
  "runLocalReplace h env ticks f w =
     (case validateLocalOptions (lrName f) (lrMembers f) (lrPort f) of Some e \<Rightarrow> Some (Inl (CmdError e), w)
      | None \<Rightarrow>
     if lrDowntime f < 0 then Some (Inl (CmdError ''downtime must be non-negative''), w)
     else let members = localMembers (lrName f) (nat (lrMembers f)) (lrPort f);
              endpoints = memberClientURLs members in
     (case leNewClient env endpoints w of (Inl e, w1) \<Rightarrow> Some (Inl (CmdError (''create etcd client: '' @ e)), w1)
      | (Inr cli, w1) \<Rightarrow>
     (case waitForLocalEndpointsHealthy cli endpoints localReplacementTimeout (leNow env w1, w1) of
        None \<Rightarrow> None
      | Some (Some err, (_, w2)) \<Rightarrow> Some (Inl (CmdHealth [] err []), w2)
      | Some (None, (_, w2)) \<Rightarrow>
     (let target = TrimSpace (lrMember f) in
      case replace_target cli env (lrName f) members target w2 of (Inl e, w3) \<Rightarrow> Some (Inl e, w3)
      | (Inr t, w3) \<Rightarrow>
     replace_on h env ticks cli f t w3))))"

section \<open>Removing a cluster removes what the label lists\<close>

definition removed :: "string list \<Rightarrow> string \<Rightarrow> exec_error option \<Rightarrow> entry list \<Rightarrow> bool" where
  "removed removal out err mid \<longleftrightarrow>
     (if err = None \<and> Fields out \<noteq> [] then \<exists>r. mid = [(removal @ Fields out, r)] else mid = [])"

definition entry_ok :: "entry \<Rightarrow> bool" where
  "entry_ok e \<longleftrightarrow> snd (snd e) = None"

lemma entry_ok_pair [simp]: "entry_ok (args, out, err) \<longleftrightarrow> err = None"
  by (simp add: entry_ok_def)

text \<open>The log of one removal: the containers the label filter lists, then the volumes it lists, then the
  network; \<open>ok\<close> tells whether each of these was listed and removed, or the network not found.\<close>

definition removal :: "string \<Rightarrow> bool \<Rightarrow> entry list \<Rightarrow> bool" where
  "removal cluster ok es \<longleftrightarrow>
     (\<exists>o1 e1 mid1 o2 e2 mid2 o3 e3.
        es = ([''ps'', ''--all'', ''--quiet'', ''--filter'', ClusterFilter cluster], o1, e1) # mid1 @
             ([''volume'', ''ls'', ''--quiet'', ''--filter'', ClusterFilter cluster], o2, e2) # mid2 @
             [([''network'', ''rm'', NetworkName cluster], o3, e3)] \<and>
        removed [''rm'', ''--force''] o1 e1 mid1 \<and> removed [''volume'', ''rm'', ''--force''] o2 e2 mid2 \<and>
        (ok \<longleftrightarrow> e1 = None \<and> e2 = None \<and> list_all entry_ok (mid1 @ mid2) \<and>
               (e3 = None \<or> Contains (to_lower o3) ''not found'')))"

lemma remove_listed_log:
  assumes "remove_listed (logged h) ctx rt what listing rm wl = (errs, wl')"
  shows "\<exists>out err mid. snd wl' = snd wl @ (listing, out, err) # mid \<and> removed rm out err mid \<and>
    (errs = [] \<longleftrightarrow> err = None \<and> list_all entry_ok mid)"
proof -
  obtain out err w1 where x: "hExec h ctx rt listing (fst wl) = ((out, err), w1)" by (metis surj_pair)
  obtain out' err' w2 where y: "hExec h ctx rt (rm @ Fields out) w1 = ((out', err'), w2)" by (metis surj_pair)
  show ?thesis
  proof (cases "err = None \<and> Fields out \<noteq> []")
    case True
    with assms x y show ?thesis
      by (intro exI [of _ out] exI [of _ err] exI [of _ "[(rm @ Fields out, out', err')]"])
        (auto simp: remove_listed_def removed_def split: option.splits)
  next
    case False
    with assms x show ?thesis
      by (intro exI [of _ out] exI [of _ err] exI [of _ "[]"])
        (auto simp: remove_listed_def removed_def split: option.splits if_splits)
  qed
qed

lemma removeLocalCluster_log:
  assumes "removeLocalCluster (logged h) ctx rt cluster wl = (r, wl')"
  shows "\<exists>es. snd wl' = snd wl @ es \<and> removal cluster (r = None) es"
proof -
  obtain errs1 wl1 where a: "remove_listed (logged h) ctx rt ''containers''
      [''ps'', ''--all'', ''--quiet'', ''--filter'', ClusterFilter cluster] [''rm'', ''--force''] wl = (errs1, wl1)"
    by (metis surj_pair)
  obtain errs2 wl2 where b: "remove_listed (logged h) ctx rt ''volumes''
      [''volume'', ''ls'', ''--quiet'', ''--filter'', ClusterFilter cluster] [''volume'', ''rm'', ''--force''] wl1 = (errs2, wl2)"
    by (metis surj_pair)
  obtain o3 e3 w3 where c: "hExec h ctx rt [''network'', ''rm'', NetworkName cluster] (fst wl2) = ((o3, e3), w3)"
    by (metis surj_pair)
  obtain o1 e1 mid1 where p1: "snd wl1 = snd wl @ ([''ps'', ''--all'', ''--quiet'', ''--filter'', ClusterFilter cluster], o1, e1) # mid1"
    "removed [''rm'', ''--force''] o1 e1 mid1" "errs1 = [] \<longleftrightarrow> e1 = None \<and> list_all entry_ok mid1"
    using remove_listed_log [OF a] by blast
  obtain o2 e2 mid2 where p2: "snd wl2 = snd wl1 @ ([''volume'', ''ls'', ''--quiet'', ''--filter'', ClusterFilter cluster], o2, e2) # mid2"
    "removed [''volume'', ''rm'', ''--force''] o2 e2 mid2" "errs2 = [] \<longleftrightarrow> e2 = None \<and> list_all entry_ok mid2"
    using remove_listed_log [OF b] by blast
  have r: "r = None \<longleftrightarrow> errs1 = [] \<and> errs2 = [] \<and> (e3 = None \<or> Contains (to_lower o3) ''not found'')"
    and l: "snd wl' = snd wl2 @ [([''network'', ''rm'', NetworkName cluster], o3, e3)]"
    using assms a b c by (auto simp: removeLocalCluster_def join_error_def Let_def split: option.splits if_splits)
  show ?thesis unfolding removal_def
    by (rule exI, rule conjI [rotated], rule exI [of _ o1], rule exI [of _ e1], rule exI [of _ mid1], rule exI [of _ o2],
        rule exI [of _ e2], rule exI [of _ mid2], rule exI [of _ o3], rule exI [of _ e3], rule conjI, rule refl)
      (use p1 p2 r l in auto)
qed

lemma down_runtimes_log:
  "down_runtimes (logged h) name rts wl = (errs, wl') \<Longrightarrow>
   \<exists>ess. snd wl' = snd wl @ concat ess \<and> length ess = length rts \<and> (\<forall>es\<in>set ess. \<exists>ok. removal name ok es) \<and>
     (errs = [] \<longrightarrow> list_all (removal name True) ess)"
proof (induction rts arbitrary: wl errs wl')
  case (Cons rt rts)
  obtain r wl1 where a: "removeLocalCluster (logged h) CallerCtx rt name wl = (r, wl1)" by (metis surj_pair)
  obtain errs1 wl2 where b: "down_runtimes (logged h) name rts wl1 = (errs1, wl2)" by (metis surj_pair)
  obtain es where es: "snd wl1 = snd wl @ es" "removal name (r = None) es" using removeLocalCluster_log [OF a] by blast
  obtain ess where ess: "snd wl2 = snd wl1 @ concat ess" "length ess = length rts" "\<forall>es\<in>set ess. \<exists>ok. removal name ok es"
    "errs1 = [] \<longrightarrow> list_all (removal name True) ess" using Cons.IH [OF b] by blast
  have "wl' = wl2" "errs = [] \<Longrightarrow> r = None \<and> errs1 = []" using Cons.prems a b by (auto split: option.splits)
  with es ess show ?case by (intro exI [of _ "es # ess"]) auto
qed simp

definition info_probe :: "entry \<Rightarrow> bool" where
  "info_probe e \<longleftrightarrow> fst e = [''info'']"

lemma info_probe_pair [simp]: "info_probe (args, r) \<longleftrightarrow> args = [''info'']"
  by (simp add: info_probe_def)

lemma running_runtimes_log:
  "running_runtimes (logged h) env rts wl = (found, wl') \<Longrightarrow>
   \<exists>ps. snd wl' = snd wl @ ps \<and> list_all info_probe ps \<and> length found = length (filter entry_ok ps) \<and> set found \<subseteq> set rts"
proof (induction rts arbitrary: wl found wl')
  case (Cons rt rts)
  obtain out err w1 where x: "hExec h AttemptCtx rt [''info''] (fst wl) = ((out, err), w1)" by (metis surj_pair)
  show ?case
  proof (cases "leLookPath env rt")
    case True
    let ?wl1 = "(w1, snd wl @ [([''info''], out, err)])"
    obtain found1 wl2 where y: "running_runtimes (logged h) env rts ?wl1 = (found1, wl2)" by (metis surj_pair)
    obtain ps where ps: "snd wl2 = snd ?wl1 @ ps" "list_all info_probe ps" "length found1 = length (filter entry_ok ps)"
      "set found1 \<subseteq> set rts" using Cons.IH [OF y] by blast
    have "wl' = wl2" "found = (if err = None then rt # found1 else found1)" using Cons.prems True x y by auto
    with ps show ?thesis by (intro exI [of _ "([''info''], out, err) # ps"]) auto
  next
    case False
    with Cons.prems have "running_runtimes (logged h) env rts wl = (found, wl')" by simp
    from Cons.IH [OF this] show ?thesis by auto
  qed
qed simp

lemma localContainerRuntimes_log:
  assumes "localContainerRuntimes (logged h) env wl = (r, wl')"
  shows "\<exists>ps. snd wl' = snd wl @ ps \<and> list_all info_probe ps \<and>
    (case r of Inl _ \<Rightarrow> True | Inr rts \<Rightarrow> rts \<noteq> [] \<and> length rts = length (filter entry_ok ps) \<and> set rts \<subseteq> {''docker'', ''podman''})"
proof -
  let ?cands = "if leRuntimeEnv env \<noteq> [] then [leRuntimeEnv env] else [''docker'', ''podman'']"
  obtain found wl1 where a: "running_runtimes (logged h) env ?cands wl = (found, wl1)" by (metis surj_pair)
  from running_runtimes_log [OF a] obtain ps where ps: "snd wl1 = snd wl @ ps" "list_all info_probe ps"
    "length found = length (filter entry_ok ps)" "set found \<subseteq> set ?cands" by blast
  show ?thesis
  proof (cases "leRuntimeEnv env \<noteq> [] \<and> leRuntimeEnv env \<noteq> ''docker'' \<and> leRuntimeEnv env \<noteq> ''podman''")
    case True
    with assms show ?thesis by (intro exI [of _ "[]"]) (auto simp: localContainerRuntimes_def Let_def)
  next
    case False
    with assms a have "wl' = wl1 \<and> (r = Inr found \<and> found \<noteq> [] \<or> (\<exists>e. r = Inl e))"
      by (simp add: localContainerRuntimes_def Let_def split: if_splits) auto
    moreover have "set ?cands \<subseteq> {''docker'', ''podman''}" using False by auto
    ultimately show ?thesis using ps by (intro exI [of _ ps]) auto
  qed
qed


text \<open>A runtime that lists one container and no volume, and answers every command.\<close>

definition listing_host :: "nat host" where
  "listing_host = \<lparr>hExec = (\<lambda>ctx rt args w. ((if take 1 args = [''ps''] then ''c1'' else [], None), w + 1)),
     hRun = (\<lambda>ctx rt args inp w. (([], [], None), w)), hInspect = (\<lambda>_. None), hVolumeLabels = (\<lambda>_. None),
     hCtxDone = (\<lambda>_. False), hDowntime = (\<lambda>d w. (False, w)), hTick = (\<lambda>w. w)\<rparr>"

definition docker_env :: "'w local_env" where
  "docker_env = \<lparr>leRuntimeEnv = [], leLookPath = (\<lambda>rt. rt = ''docker''), leCtxErr = (\<lambda>_. None), leLatestVersion = (\<lambda>w. (Inr ''3.6.0'', w)),
     leSemver = (\<lambda>_. True), leNewClient = (\<lambda>eps w. (Inl ''unused'', w)), leNow = (\<lambda>_. 0), leClientMode = ''official''\<rparr>"

lemma listing_host_down:
  "runLocalDown (logged listing_host) docker_env ''demo'' (0, []) =
     (Inr ''removed local etcd cluster demo'', (5,
       [([''info''], [], None), ([''ps'', ''--all'', ''--quiet'', ''--filter'', ClusterFilter ''demo''], ''c1'', None),
        ([''rm'', ''--force'', ''c1''], [], None), ([''volume'', ''ls'', ''--quiet'', ''--filter'', ClusterFilter ''demo''], [], None),
        ([''network'', ''rm'', NetworkName ''demo''], [], None)]))"
  by code_simp


section \<open>Bringing a cluster up, on the log\<close>

text \<open>The environment and the etcd client do not touch the log of container commands.\<close>

definition logged_client :: "'w member_client \<Rightarrow> ('w \<times> entry list) member_client" where
  "logged_client c =
     \<lparr>mcStatus = (\<lambda>ep wl. case mcStatus c ep (fst wl) of (r, k, w') \<Rightarrow> (r, k, (w', snd wl))),
      mcWait = (\<lambda>d wl. case mcWait c d (fst wl) of (r, k, w') \<Rightarrow> (r, k, (w', snd wl)))\<rparr>"

definition logged_env :: "'w local_env \<Rightarrow> ('w \<times> entry list) local_env" where
  "logged_env env =
     \<lparr>leRuntimeEnv = leRuntimeEnv env, leLookPath = leLookPath env, leCtxErr = (\<lambda>wl. leCtxErr env (fst wl)),
      leLatestVersion = (\<lambda>wl. case leLatestVersion env (fst wl) of (r, w') \<Rightarrow> (r, (w', snd wl))), leSemver = leSemver env,
      leNewClient = (\<lambda>eps wl. case leNewClient env eps (fst wl) of (r, w') \<Rightarrow>
          (case r of Inl e \<Rightarrow> Inl e | Inr c \<Rightarrow> Inr (logged_client c), (w', snd wl))),
      leNow = (\<lambda>wl. leNow env (fst wl)), leClientMode = leClientMode env\<rparr>"

lemma Status_logged: "Status (logged_client c) ep tw = (r, tw') \<Longrightarrow> snd (snd tw') = snd (snd tw)"
  by (auto simp: Status_def logged_client_def split: prod.splits)

lemma wait_logged: "wait_or_done (logged_client c) d tw = (r, tw') \<Longrightarrow> snd (snd tw') = snd (snd tw)"
  by (auto simp: wait_or_done_def logged_client_def split: prod.splits option.splits)

lemma probe_logged: "probe (logged_client c) eps n e tw = (n', e', tw') \<Longrightarrow> snd (snd tw') = snd (snd tw)"
proof (induction eps arbitrary: n e tw)
  case (Cons ep eps)
  obtain r tw1 where s: "Status (logged_client c) ep tw = (r, tw1)" by (metis surj_pair)
  with Cons.prems Status_logged [OF s] show ?case by (cases r) (auto dest: Cons.IH)
qed simp

lemma health_round_logged:
  "case health_round (logged_client c) eps maxWait deadline s of
     Inl (r, tw') \<Rightarrow> snd (snd tw') = snd (snd (snd s)) | Inr s' \<Rightarrow> snd (snd (snd s')) = snd (snd (snd s))"
proof -
  obtain n e1 tw1 where p: "probe (logged_client c) eps 0 (fst s) (snd s) = (n, e1, tw1)" by (metis surj_pair)
  obtain d tw2 where w: "wait_or_done (logged_client c) DefaultClusterHealthPollInterval tw1 = (d, tw2)" by (metis surj_pair)
  from probe_logged [OF p] wait_logged [OF w] p w show ?thesis
    by (cases s) (auto simp: health_round_def split: option.splits)
qed

lemma WaitForClusterHealthy_logged:
  assumes "eps \<noteq> []" "0 < maxWait"
  shows "\<exists>r t' w'. WaitForClusterHealthy (Some (logged_client c)) eps maxWait (t, (w, l)) = Some (r, (t', (w', l))) \<and>
    health_outcome (logged_client c) eps maxWait t r t'"
proof -
  let ?J = "\<lambda>s. snd (snd (snd s)) = l"
  have "\<exists>s' r t' w'. WaitForClusterHealthy (Some (logged_client c)) eps maxWait (t, (w, l)) = Some (r, (t', w')) \<and>
      health_round (logged_client c) eps maxWait (t + maxWait) s' = Inl (r, (t', w')) \<and> ?J s' \<and>
      health_outcome (logged_client c) eps maxWait t r t'"
  proof (rule WaitForClusterHealthy_last_round [OF assms])
    fix s s' :: "string option \<times> int \<times> 'a \<times> entry list"
    assume "?J s" "health_round (logged_client c) eps maxWait (t + maxWait) s = Inr s'"
    then show "?J s'" using health_round_logged [where c = c and eps = eps and maxWait = maxWait and deadline = "t + maxWait" and s = s] by simp
  qed simp
  then obtain s' r t' wl where s': "WaitForClusterHealthy (Some (logged_client c)) eps maxWait (t, (w, l)) = Some (r, (t', wl))"
    "health_round (logged_client c) eps maxWait (t + maxWait) s' = Inl (r, (t', wl))" "?J s'"
    "health_outcome (logged_client c) eps maxWait t r t'" by blast
  from s'(2,3) have "snd wl = l" using health_round_logged [where c = c and eps = eps and maxWait = maxWait and deadline = "t + maxWait" and s = s'] by simp
  with s' show ?thesis by (cases wl) auto
qed

text \<open>A created member has been launched.\<close>

lemma launch_success:
  assumes "launch (logged h) m name img port cfg wl = (Inr inst, wl')"
  shows "\<exists>out k. snd wl' = snd wl @ (createRunArgs (mCluster m) name img (dataVolumeName name) port cfg, out, None) # k"
proof -
  let ?args = "createRunArgs (mCluster m) name img (dataVolumeName name) port cfg"
  obtain out err w1 where x: "hExec h CallerCtx (mRuntime m) ?args (fst wl) = ((out, err), w1)" by (metis surj_pair)
  obtain r wl2 where g: "Get (logged h) m name (w1, snd wl @ [(?args, out, err)]) = (r, wl2)" by (metis surj_pair)
  have "err = None \<and> wl' = wl2" using assms x g by (cases err) (auto simp: launch_def Let_def split: sum.splits)
  with Get_extends [OF g] show ?thesis by (auto simp: extends_def)
qed

lemma Create_success:
  assumes "Create (logged h) m req wl = (Inr inst, wl')"
  shows "\<exists>cfg port l out k. opProviderConfig req = Some cfg \<and> opPortMappings req = [port] \<and>
    snd wl' = snd wl @ l @ (createRunArgs (mCluster m) (TrimSpace (opName req)) (opImage req)
      (dataVolumeName (TrimSpace (opName req))) port cfg, out, None) # k"
proof -
  let ?n = "TrimSpace (opName req)"
  obtain o1 e1 w1 where x: "hExec h CallerCtx (mRuntime m) [''inspect'', ?n] (fst wl) = ((o1, e1), w1)" by (metis surj_pair)
  let ?wl1 = "(w1, snd wl @ [([''inspect'', ?n], o1, e1)])"
  obtain e2 wl2 where v: "create_volume (logged h) m ?n ?wl1 = (e2, wl2)" by (metis surj_pair)
  obtain l where l: "snd wl2 = snd ?wl1 @ l" using create_volume_extends [of h m ?wl1 ?n] v by (auto simp: extends_def)
  from assms x v obtain cfg port where c: "create_config req = Inr cfg" "clientPortMapping (opPortMappings req) = Inr port"
    "launch (logged h) m ?n (opImage req) port cfg wl2 = (Inr inst, wl')"
    by (auto simp: Create_def Let_def split: option.splits if_splits sum.splits)
  have "opProviderConfig req = Some cfg" using c(1) by (auto simp: create_config_def split: option.splits if_splits)
  moreover have "opPortMappings req = [port]"
    using c(2) by (cases "opPortMappings req") (auto simp: clientPortMapping_def Let_def split: if_splits)
  moreover obtain out k where "snd wl' = snd wl2 @
      (createRunArgs (mCluster m) ?n (opImage req) (dataVolumeName ?n) port cfg, out, None) # k"
    using launch_success [OF c(3)] by blast
  ultimately show ?thesis using l by (intro exI [of _ cfg] exI [of _ port] exI [of _ "([''inspect'', ?n], o1, e1) # l"]) auto
qed

definition launched :: "string \<Rightarrow> create_op \<Rightarrow> entry list \<Rightarrow> bool" where
  "launched cluster req es \<longleftrightarrow> (\<exists>cfg port out. opProviderConfig req = Some cfg \<and> opPortMappings req = [port] \<and>
     (createRunArgs cluster (TrimSpace (opName req)) (opImage req) (dataVolumeName (TrimSpace (opName req))) port cfg, out, None) \<in> set es)"

lemma launched_append: "launched cluster req es \<Longrightarrow> launched cluster req (ds @ es)"
  by (auto simp: launched_def)

lemma launched_prepend: "launched cluster req es \<Longrightarrow> launched cluster req (es @ fs)"
  by (auto simp: launched_def)

lemma create_members_log:
  "create_members (logged h) m mk i ms wl = (r, wl') \<Longrightarrow>
   \<exists>k. snd wl' = snd wl @ k \<and> guarded h m None k \<and>
     (r = None \<longrightarrow> (\<forall>j<length ms. launched (mCluster m) (mk (i + j) (ms ! j)) k))"
proof (induction ms arbitrary: i wl)
  case (Cons x xs)
  obtain q wl1 where c: "Create (logged h) m (mk i x) wl = (q, wl1)" by (metis surj_pair)
  obtain k1 where k1: "snd wl1 = snd wl @ k1" "guarded h m None k1"
    using Create_extends [of h m wl "mk i x"] c by (auto simp: extends_def)
  show ?case
  proof (cases q)
    case (Inl e)
    with Cons.prems c k1 show ?thesis by auto
  next
    case (Inr inst)
    with Cons.prems c have "create_members (logged h) m mk (Suc i) xs wl1 = (r, wl')" by simp
    from Cons.IH [OF this] obtain k2 where k2: "snd wl' = snd wl1 @ k2" "guarded h m None k2"
      "r = None \<longrightarrow> (\<forall>j<length xs. launched (mCluster m) (mk (Suc i + j) (xs ! j)) k2)" by blast
    have "launched (mCluster m) (mk i x) k1"
      using Create_success [OF c [unfolded Inr]] k1(1) by (fastforce simp: launched_def)
    moreover have "launched (mCluster m) (mk (i + j) ((x # xs) ! j)) k2" if "r = None" "j < length (x # xs)" "j \<noteq> 0" for j
      using k2(3) that by (cases j) auto
    ultimately have "\<forall>j<length (x # xs). launched (mCluster m) (mk (i + j) ((x # xs) ! j)) (k1 @ k2)" if "r = None"
      using that launched_append launched_prepend by (metis add.right_neutral nth_Cons_0)
    then show ?thesis using k1 k2(1,2) guarded_append by (intro exI [of _ "k1 @ k2"]) auto
  qed
qed simp

lemma collect_logs_extends: "collect_logs (logged h) rt is wl = (s, wl') \<Longrightarrow> extends h m (snd wl) wl'"
proof (induction "is" arbitrary: wl s)
  case (Cons i "is")
  obtain s1 wl1 where c: "collect_logs (logged h) rt is (snd (hExec (logged h) CleanupCtx rt [''logs'', i] wl)) = (s1, wl1)"
    by (metis surj_pair)
  have "wl' = wl1" using Cons.prems c by (auto split: prod.splits)
  moreover have "extends h m (snd wl) (snd (hExec (logged h) CleanupCtx rt [''logs'', i] wl))"
    by (rule extends_harmless [of "[''logs'', i]"]) auto
  ultimately show ?case using Cons.IH [OF c [unfolded \<open>wl' = wl1\<close> [symmetric]]] extends_trans by blast
qed simp

lemma localClusterLogs_extends: "localClusterLogs (logged h) rt cluster wl = (s, wl') \<Longrightarrow> extends h m (snd wl) wl'"
proof -
  assume a: "localClusterLogs (logged h) rt cluster wl = (s, wl')"
  let ?args = "[''ps'', ''--all'', ''--quiet'', ''--filter'', ClusterFilter cluster]"
  obtain out err w1 where x: "hExec h CleanupCtx rt ?args (fst wl) = ((out, err), w1)" by (metis surj_pair)
  let ?wl1 = "(w1, snd wl @ [(?args, out, err)])"
  obtain s1 wl2 where c: "collect_logs (logged h) rt (Fields out) ?wl1 = (s1, wl2)" by (metis surj_pair)
  have "extends h m (snd wl) ?wl1" by (rule extends_harmless [of ?args]) simp_all
  moreover have "extends h m (snd ?wl1) wl2" by (rule collect_logs_extends [OF c])
  moreover have "wl' = ?wl1 \<or> wl' = wl2" using a x c by (cases err) (auto simp: localClusterLogs_def)
  ultimately show ?thesis using extends_trans by blast
qed

lemma cleanup_cluster_log: "\<exists>es ok. snd (cleanup_cluster (logged h) rt name wl) = snd wl @ es \<and> removal name ok es"
  using removeLocalCluster_log [of h CleanupCtx rt name wl] unfolding cleanup_cluster_def by (metis prod.collapse)

text \<open>What the log shows once the network exists: a failed start is undone, a successful one has launched
  every member and seen a quorum of them.\<close>

definition up_log :: "'w host \<Rightarrow> 'w local_env \<Rightarrow> Manager \<Rightarrow> clusterMember list \<Rightarrow> (nat \<Rightarrow> clusterMember \<Rightarrow> create_op) \<Rightarrow>
    cmd_error + string \<Rightarrow> entry list \<Rightarrow> bool" where
  "up_log h env m members mk res k \<longleftrightarrow>
     (case res of
        Inl _ \<Rightarrow> \<exists>pre es ok. k = pre @ es \<and> guarded h m None pre \<and> removal (mCluster m) ok es
      | Inr _ \<Rightarrow> guarded h m None k \<and> (\<forall>j<length members. launched (mCluster m) (mk j (members ! j)) k) \<and>
          (\<exists>c w w' tw. leNewClient env (memberClientURLs members) w = (Inr c, w') \<and>
             quorum_answered (logged_client c) (memberClientURLs members) tw))"

lemma up_logI:
  assumes "snd wl' = l @ k" "guarded h m None k" "mCluster m = name"
  shows "\<exists>k'. snd (cleanup_cluster (logged h) rt name wl') = l @ k' \<and> up_log h env m members mk (Inl e) k'"
proof -
  obtain es ok where "snd (cleanup_cluster (logged h) rt name wl') = snd wl' @ es" "removal name ok es"
    using cleanup_cluster_log by blast
  with assms show ?thesis unfolding up_log_def by (intro exI [of _ "k @ es"]) auto
qed

lemma up_members_log:
  assumes "members \<noteq> []"
  shows "\<exists>res w' k. up_members (logged h) (logged_env env) rt name members mk tag (w, l) = Some (res, (w', l @ k)) \<and>
    up_log h env \<lparr>mRuntime = rt, mCluster = name, mDowntime = 0\<rparr> members mk res k"
proof -
  let ?m = "\<lparr>mRuntime = rt, mCluster = name, mDowntime = 0\<rparr>"
  let ?eps = "memberClientURLs members"
  let ?goal = "\<exists>res w' k. up_members (logged h) (logged_env env) rt name members mk tag (w, l) = Some (res, (w', l @ k)) \<and>
    up_log h env ?m members mk res k"
  have undone: ?goal if "up_members (logged h) (logged_env env) rt name members mk tag (w, l) = Some (Inl e, cleanup_cluster (logged h) rt name wl')"
    "snd wl' = l @ k" "guarded h ?m None k" for e wl' k
  proof -
    obtain w' l' where c: "cleanup_cluster (logged h) rt name wl' = (w', l')" by (metis surj_pair)
    from up_logI [OF that(2,3), of name rt env members mk e] obtain k' where "l' = l @ k'" "up_log h env ?m members mk (Inl e) k'"
      by (auto simp: c)
    with that(1) c show ?goal by auto
  qed
  obtain r wl1 where c: "create_members (logged h) ?m mk 0 members (w, l) = (r, wl1)" by (metis surj_pair)
  obtain k1 where k1: "snd wl1 = l @ k1" "guarded h ?m None k1"
    "r = None \<longrightarrow> (\<forall>j<length members. launched name (mk j (members ! j)) k1)"
    using create_members_log [OF c] by auto
  show ?goal
  proof (cases r)
    case (Some e)
    with c k1 show ?goal by (intro undone [of e wl1 k1]) (simp_all add: up_members_def)
  next
    case None
    obtain q w2 where n: "leNewClient env ?eps (fst wl1) = (q, w2)" by (metis surj_pair)
    show ?goal
    proof (cases q)
      case (Inl e)
      with c k1 None n show ?goal
        by (intro undone [of "CmdError (''create etcd client: '' @ e)" "(w2, l @ k1)" k1]) (simp_all add: up_members_def logged_env_def)
    next
      case (Inr cli)
      have e: "?eps \<noteq> []" "0 < minute" using assms by (simp_all add: memberClientURLs_def minute_def second_def)
      obtain he t' w3 where h: "WaitForClusterHealthy (Some (logged_client cli)) ?eps minute (leNow env w2, (w2, l @ k1)) =
          Some (he, (t', (w3, l @ k1)))" "health_outcome (logged_client cli) ?eps minute (leNow env w2) he t'"
        using WaitForClusterHealthy_logged [OF e, of cli "leNow env w2" w2 "l @ k1"] by blast
      obtain logs wl4 where lg: "localClusterLogs (logged h) rt name (w3, l @ k1) = (logs, wl4)" by (metis surj_pair)
      show ?goal
      proof (cases he)
        case None
        then have "\<exists>tw. quorum_answered (logged_client cli) ?eps tw" using h(2) by (auto simp: health_outcome_def)
        then have "up_log h env ?m members mk (Inr msg) k1" for msg
          using n Inr k1 \<open>r = None\<close> unfolding up_log_def by auto
        with c k1 \<open>r = None\<close> n Inr h None show ?goal by (simp add: up_members_def logged_env_def)
      next
        case (Some e)
        obtain k2 where "snd wl4 = l @ k1 @ k2" "guarded h ?m None k2"
          using localClusterLogs_extends [OF lg, of ?m] by (auto simp: extends_def)
        with c k1 \<open>r = None\<close> n Inr h Some lg show ?goal
          by (intro undone [of "CmdHealth ''wait for local etcd: '' e logs" wl4 "k1 @ k2"])
            (simp_all add: up_members_def logged_env_def guarded_append)
      qed
    qed
  qed
qed

lemma resolve_image_log:
  assumes "resolve_image (logged_env env) img v wl = (r, wl')"
  shows "snd wl' = snd wl"
proof -
  obtain q w1 where "leLatestVersion env (fst wl) = (q, w1)" by (metis surj_pair)
  with assms show ?thesis
    by (auto simp: resolve_image_def resolveVersion_def logged_env_def Let_def split: if_splits sum.splits)
qed

lemma validated_members:
  assumes "validateLocalOptions name n p = None"
  shows "localMembers name (nat n) p \<noteq> []"
proof -
  have "n = 1 \<or> n = 3"
    using assms by (auto simp: validateLocalOptions_def validateMemberCount_def split: option.splits if_splits)
  then show ?thesis by (auto simp: localMembers_def)
qed

definition failed_network :: "string \<Rightarrow> entry \<Rightarrow> bool" where
  "failed_network cluster e \<longleftrightarrow> fst e = [''network'', ''create'', NetworkName cluster] \<and> \<not> entry_ok e"

text \<open>What the log of a start shows: a failure before the network exists, or the log of \<open>up_log\<close> after it.\<close>

definition up_result :: "'w host \<Rightarrow> 'w local_env \<Rightarrow> local_up_flags \<Rightarrow> cmd_error + string \<Rightarrow> entry list \<Rightarrow> bool" where
  "up_result h env f res es \<longleftrightarrow>
     (\<exists>e. res = Inl e) \<and> list_all (\<lambda>en. info_probe en \<or> failed_network (luName f) en) es \<or>
     (\<exists>rt probes out k img serverArgs envVars aux.
        es = probes @ ([''network'', ''create'', NetworkName (luName f)], out, None) # k \<and> list_all info_probe probes \<and>
        (let members = localMembers (luName f) (nat (luMembers f)) (luPort f) in
         up_log h env \<lparr>mRuntime = rt, mCluster = luName f, mDowntime = 0\<rparr> members
           (member_op (luName f) img members serverArgs envVars aux (luPort f)) res k))"

lemma up_result_early: "list_all info_probe es \<Longrightarrow> up_result h env f (Inl e) es"
  unfolding up_result_def by (auto simp: list_all_iff)

lemma up_result_refused:
  "list_all info_probe es \<Longrightarrow> up_result h env f (Inl e) (es @ [([''network'', ''create'', NetworkName (luName f)], out, Some x)])"
  unfolding up_result_def by (auto simp: list_all_iff failed_network_def)

text \<open>From the creation of the network on.\<close>

lemma network_step:
  assumes "validateLocalOptions (luName f) (luMembers f) (luPort f) = None" "list_all info_probe (snd wl)"
    "members = localMembers (luName f) (nat (luMembers f)) (luPort f)"
    "mk = member_op (luName f) img members serverArgs envVars aux (luPort f)"
  shows "\<exists>res w' es. (case hExec (logged h) CallerCtx rt [''network'', ''create'', NetworkName (luName f)] wl of
       ((output, Some err), w3) \<Rightarrow>
         Some (Inl (CmdExec (''create '' @ rt @ '' network '' @ NetworkName (luName f)) err (TrimSpace output)), w3)
     | ((output, None), w3) \<Rightarrow> up_members (logged h) (logged_env env) rt (luName f) members mk tag w3) = Some (res, (w', es)) \<and>
     up_result h env f res es"
proof -
  let ?net = "[''network'', ''create'', NetworkName (luName f)]"
  obtain out err w3 where x: "hExec h CallerCtx rt ?net (fst wl) = ((out, err), w3)" by (metis surj_pair)
  show ?thesis
  proof (cases err)
    case (Some e)
    with x assms(2) show ?thesis by (auto intro: up_result_refused)
  next
    case None
    let ?l = "snd wl @ [(?net, out, None)]"
    obtain res w' k where u: "up_members (logged h) (logged_env env) rt (luName f) members mk tag (w3, ?l) = Some (res, (w', ?l @ k))"
      "up_log h env \<lparr>mRuntime = rt, mCluster = luName f, mDowntime = 0\<rparr> members mk res k"
      using up_members_log [OF validated_members [OF assms(1)], of h env rt "luName f" mk tag w3 ?l] unfolding assms(3) by blast
    then have "up_result h env f res (?l @ k)" using assms(2) unfolding assms(3,4) up_result_def Let_def by fastforce
    with u(1) x None show ?thesis by auto
  qed
qed


section \<open>Replacing a member\<close>

lemma replace_target_member:
  assumes "replace_target cli env name members target w = (Inr t, w')"
  shows "t \<in> mbName ` set members" "target = ''leader'' \<Longrightarrow> leads cli members t" "target \<noteq> ''leader'' \<Longrightarrow> t = target"
proof -
  have l: "leads cli members t" if "target = ''leader''"
  proof -
    obtain r tw where "leader_scan cli members None (leNow env w, w) = (r, tw)" by (metis surj_pair)
    with assms that show ?thesis using leader_scan_leads [of cli members None "(leNow env w, w)" t tw]
      by (auto simp: replace_target_def localLeaderName_def split: sum.splits prod.splits)
  qed
  then show "target = ''leader'' \<Longrightarrow> leads cli members t" .
  show "target \<noteq> ''leader'' \<Longrightarrow> t = target" using assms by (auto simp: replace_target_def split: if_splits)
  show "t \<in> mbName ` set members"
  proof (cases "target = ''leader''")
    case True
    with l leads_member show ?thesis by blast
  next
    case False
    with assms show ?thesis by (auto simp: replace_target_def hasLocalMember_def list_ex_iff split: if_splits)
  qed
qed

lemma replaced_member_returns:
  "\<exists>res w'. replaced_member env cli members leader t w = Some (res, w') \<and>
     (case res of Inl _ \<Rightarrow> True
      | Inr _ \<Rightarrow> \<exists>t0 w0. leNow env w \<le> t0 \<and> list_all id (round_answers cli (memberClientURLs members) (t0, w0)))"
proof -
  obtain r t' w1 where a: "waitForLocalEndpointsHealthy cli (memberClientURLs members) localReplacementTimeout (leNow env w, w) = Some (r, (t', w1))"
    "r = None \<longrightarrow> (\<exists>t0 w0. leNow env w \<le> t0 \<and> list_all id (round_answers cli (memberClientURLs members) (t0, w0)))"
    using waitForLocalEndpointsHealthy_all [of cli "memberClientURLs members" localReplacementTimeout "leNow env w" w] by blast
  obtain l e tw where b: "waitForLeaderChange cli members t leaderChangeTimeout (leNow env w1, w1) = Some ((l, e), tw)"
    using leader.loop_returns [of cli members t "leNow env w1 + leaderChangeTimeout" "(([], None), leNow env w1, w1)"]
    by (auto simp: waitForLeaderChange_def)
  show ?thesis
  proof (cases r)
    case None
    with a have h: "\<exists>t0 w0. leNow env w \<le> t0 \<and> list_all id (round_answers cli (memberClientURLs members) (t0, w0))" by blast
    have "\<exists>res w'. replaced_member env cli members leader t w = Some (res, w')"
      using a(1) b None by (cases e) (auto simp: replaced_member_def Let_def split: prod.splits)
    with h show ?thesis by (auto split: sum.splits)
  next
    case (Some x)
    with a(1) show ?thesis by (simp add: replaced_member_def Let_def)
  qed
qed

definition replaced_right :: "'w host \<Rightarrow> 'w local_env \<Rightarrow> nat \<Rightarrow> 'w member_client \<Rightarrow> local_replace_flags \<Rightarrow> string \<Rightarrow> cmd_error + string \<Rightarrow> bool" where
  "replaced_right h env ticks cli f t res \<longleftrightarrow>
     (case res of Inl _ \<Rightarrow> True
      | Inr _ \<Rightarrow> \<exists>rt w3 w4 rr t0 w0.
          ReplaceMachine h \<lparr>mRuntime = rt, mCluster = lrName f, mDowntime = lrDowntime f\<rparr> ticks t w3 = (Inr rr, w4) \<and>
          leNow env w4 \<le> t0 \<and>
          list_all id (round_answers cli (memberClientURLs (localMembers (lrName f) (nat (lrMembers f)) (lrPort f))) (t0, w0)))"

lemma replace_on_returns: "\<exists>res w'. replace_on h env ticks cli f t w = Some (res, w') \<and> replaced_right h env ticks cli f t res"
proof -
  let ?members = "localMembers (lrName f) (nat (lrMembers f)) (lrPort f)"
  obtain g w1 where rt: "localRuntimeForContainer h env t w = (g, w1)" by (metis surj_pair)
  show ?thesis
  proof (cases g)
    case (Inl e)
    with rt show ?thesis by (simp add: replace_on_def replaced_right_def)
  next
    case g: (Inr y)
    let ?m = "\<lparr>mRuntime = y, mCluster = lrName f, mDowntime = lrDowntime f\<rparr>"
    obtain p w2 where rm: "ReplaceMachine h ?m ticks t w1 = (p, w2)" by (metis surj_pair)
    show ?thesis
    proof (cases p)
      case (Inl e)
      with rt g rm show ?thesis by (simp add: replace_on_def replaced_right_def)
    next
      case p: (Inr rr)
      obtain res w3 where r: "replaced_member env cli ?members (TrimSpace (lrMember f) = ''leader'') t w2 = Some (res, w3)"
        "case res of Inl _ \<Rightarrow> True | Inr _ \<Rightarrow> \<exists>t0 w0. leNow env w2 \<le> t0 \<and> list_all id (round_answers cli (memberClientURLs ?members) (t0, w0))"
        using replaced_member_returns [of env cli ?members "TrimSpace (lrMember f) = ''leader''" t w2] by blast
      have "replaced_right h env ticks cli f t res"
        unfolding replaced_right_def using r(2) rm [unfolded p] by (cases res) (simp_all, blast)
      with rt g rm p r(1) show ?thesis by (simp add: replace_on_def)
    qed
  qed
qed

text \<open>Replacing a local member returns, and success means what it says: a member of the cluster (the one
  that reported itself as the leader, if the leader was asked for) went through a successful replacement
  of its container by the provider, and after that all endpoints of the cluster answered in one round.\<close>

theorem runLocalReplace_success:
  "\<exists>res w'. runLocalReplace h env ticks f w = Some (res, w') \<and>
    (case res of Inl _ \<Rightarrow> True
     | Inr _ \<Rightarrow>
       (let members = localMembers (lrName f) (nat (lrMembers f)) (lrPort f); eps = memberClientURLs members in
        \<exists>cli w1 w2 t rt w3 w4 rr t0 w0. leNewClient env eps w1 = (Inr cli, w2) \<and> t \<in> mbName ` set members \<and>
          (if TrimSpace (lrMember f) = ''leader'' then leads cli members t else t = TrimSpace (lrMember f)) \<and>
          ReplaceMachine h \<lparr>mRuntime = rt, mCluster = lrName f, mDowntime = lrDowntime f\<rparr> ticks t w3 = (Inr rr, w4) \<and>
          leNow env w4 \<le> t0 \<and> list_all id (round_answers cli eps (t0, w0))))"
proof (cases "validateLocalOptions (lrName f) (lrMembers f) (lrPort f) = None \<and> 0 \<le> lrDowntime f")
  case False
  then show ?thesis by (auto simp: runLocalReplace_def Let_def split: option.splits)
next
  case valid: True
  let ?members = "localMembers (lrName f) (nat (lrMembers f)) (lrPort f)"
  let ?eps = "memberClientURLs ?members"
  let ?target = "TrimSpace (lrMember f)"
  obtain c w1 where n: "leNewClient env ?eps w = (c, w1)" by (metis surj_pair)
  show ?thesis
  proof (cases c)
    case (Inl e)
    with valid n show ?thesis by (auto simp: runLocalReplace_def Let_def)
  next
    case cli: (Inr cli)
    obtain r tt w2 where a: "waitForLocalEndpointsHealthy cli ?eps localReplacementTimeout (leNow env w1, w1) = Some (r, (tt, w2))"
      using waitForLocalEndpointsHealthy_all [of cli ?eps localReplacementTimeout "leNow env w1" w1] by blast
    obtain q w3 where t: "replace_target cli env (lrName f) ?members ?target w2 = (q, w3)" by (metis surj_pair)
    show ?thesis
    proof (cases "r = None \<and> (\<exists>t. q = Inr t)")
      case False
      with valid n cli a t show ?thesis
        by (cases r; cases q) (auto simp: runLocalReplace_def Let_def)
    next
      case True
      then obtain x where x: "r = None" "q = Inr x" by blast
      obtain res w' where tail: "replace_on h env ticks cli f x w3 = Some (res, w')" "replaced_right h env ticks cli f x res"
        using replace_on_returns [of h env ticks cli f x w3] by blast
      have "runLocalReplace h env ticks f w = Some (res, w')"
        using valid n cli a t x tail(1) by (simp add: runLocalReplace_def Let_def)
      moreover note replace_target_member [OF t [unfolded x]]
      ultimately show ?thesis using n cli tail(2) unfolding replaced_right_def Let_def
        by (cases res) (simp_all, blast)
    qed
  qed
qed

end
