(* ===== verification/AwsScripts.thy ===== *)
theory AwsScripts
  imports Shell Topology
begin

text \<open>
  The shell scripts and the systemd unit that \<^verbatim>\<open>src/cmd/etcd-infra/aws.go\<close> sends to the members of an
  AWS cluster, line by line, built with the quoting of \<open>Shell\<close>. The text is what \<^verbatim>\<open>fmt.Sprintf\<close> makes of
  the raw string literals of the source.
\<close>

record awsBootstrapOptions =
  boVersion :: string
  boArch :: string
  boBinaryURL :: string
  boBinarySHA256 :: string
  boExtraArgs :: "string list"
  boEnv :: "string list"
  boDataVolumeSetup :: bool

definition squote :: char where "squote = CHR 0x27"

definition dquote :: char where "dquote = CHR 0x22"

definition backslash :: char where "backslash = CHR 0x5C"

text \<open>Lines that all end with a line feed, and lines that are only separated by them.\<close>

definition unlines :: "string list \<Rightarrow> string" where
  "unlines ls = concat (map (\<lambda>l. l @ [line_feed]) ls)"

definition script_lines :: "string list \<Rightarrow> string" where
  "script_lines ls = Join [line_feed] ls"

text \<open>\<^verbatim>\<open>strings.NewReplacer\<close> with two one-byte patterns replaces byte by byte.\<close>

definition systemd_escape :: "string \<Rightarrow> string" where
  "systemd_escape entry =
     concat (map (\<lambda>c. if c = backslash then [backslash, backslash] else if c = dquote then [backslash, dquote] else [c]) entry)"

definition awsSystemdEnvironment :: "string list \<Rightarrow> string" where
  "awsSystemdEnvironment env =
     concat (map (\<lambda>entry. ''Environment='' @ [dquote] @ systemd_escape entry @ [dquote, line_feed]) env)"

definition awsEtcdUnitScript :: "string list \<Rightarrow> string \<Rightarrow> string" where
  "awsEtcdUnitScript env execStart =
     unlines [''cat > /etc/systemd/system/etcd-infra.service <<'' @ [squote] @ ''EOF'' @ [squote],
       ''[Unit]'', ''Description=etcd test cluster member'', ''After=network-online.target'', ''Wants=network-online.target'',
       '''', ''[Service]'', ''Type=simple''] @
     awsSystemdEnvironment env @
     unlines [''ExecStart='' @ execStart, ''Restart=on-failure'', ''RestartSec=5s'', ''LimitNOFILE=40000'', '''',
       ''[Install]'', ''WantedBy=multi-user.target'', ''EOF'', ''systemctl daemon-reload'']"

definition in_quotes :: "string \<Rightarrow> string" where
  "in_quotes s = [dquote] @ s @ [dquote]"

definition awsEtcdInstallScript :: "awsBootstrapOptions \<Rightarrow> string" where
  "awsEtcdInstallScript opts =
     (if boBinaryURL opts \<noteq> []
      then script_lines
        [''binary='' @ Quote (boBinaryURL opts), ''binary_sha256='' @ Quote (boBinarySHA256 opts),
         ''curl -fsSL '' @ in_quotes ''$binary'' @ '' -o '' @ in_quotes ''$tmp/etcd'',
         ''echo '' @ in_quotes ''$binary_sha256  $tmp/etcd'' @ '' > '' @ in_quotes ''$tmp/checksum'',
         ''(cd '' @ in_quotes ''$tmp'' @ '' && sha256sum -c checksum)'',
         ''install -m 0755 '' @ in_quotes ''$tmp/etcd'' @ '' /usr/local/bin/etcd'']
      else
        let tag = releaseTag (boVersion opts);
            archive = ''etcd-'' @ tag @ ''-linux-'' @ boArch opts @ ''.tar.gz'';
            releaseURL = ''https://github.com/etcd-io/etcd/releases/download/'' @ tag
        in script_lines
          ([''archive='' @ Quote archive, ''release_url='' @ Quote releaseURL,
            ''curl -fsSL '' @ in_quotes ''$release_url/$archive'' @ '' -o '' @ in_quotes ''$tmp/$archive'',
            ''curl -fsSL '' @ in_quotes ''$release_url/SHA256SUMS'' @ '' -o '' @ in_quotes ''$tmp/SHA256SUMS'',
            ''grep -E '' @ in_quotes ''[[:space:]]+$archive$'' @ '' '' @ in_quotes ''$tmp/SHA256SUMS'' @ '' > '' @ in_quotes ''$tmp/checksum'',
            ''(cd '' @ in_quotes ''$tmp'' @ '' && sha256sum -c checksum)'',
            ''tar -xzf '' @ in_quotes ''$tmp/$archive'' @ '' -C '' @ in_quotes ''$tmp''] @
           map (\<lambda>b. ''install -m 0755 '' @ in_quotes (''$tmp/${archive%.tar.gz}/'' @ b) @ '' /usr/local/bin/'' @ b)
             [''etcd'', ''etcdctl'', ''etcdutl'']))"

definition awsDataVolumeSetupScript :: "string \<Rightarrow> string" where
  "awsDataVolumeSetupScript mountPoint = script_lines
     [''mount_point='' @ Quote mountPoint,
      ''data_dev='' @ in_quotes '''',
      ''for _ in $(seq 1 60); do'',
      ''    for d in /dev/nvme[0-9]n1 /dev/nvme[0-9][0-9]n1; do'',
      ''        [ -b '' @ in_quotes ''$d'' @ '' ] || continue'',
      ''        case '' @ in_quotes (''$(lsblk -dno MODEL '' @ in_quotes ''$d'' @ '')'') @ '' in'',
      ''            '' @ in_quotes ''Amazon Elastic Block Store'' @ ''*) ;;'',
      ''            *) continue ;;'',
      ''        esac'',
      ''        mounted_elsewhere='' @ in_quotes (''$(lsblk -nro MOUNTPOINT '' @ in_quotes ''$d'' @ '' | grep -v -x -e '' @
        [squote, squote] @ '' -e '' @ in_quotes ''$mount_point'' @ '' || true)''),
      ''        [ -n '' @ in_quotes ''$mounted_elsewhere'' @ '' ] && continue'',
      ''        data_dev='' @ in_quotes ''$d'',
      ''        break'',
      ''    done'',
      ''    [ -n '' @ in_quotes ''$data_dev'' @ '' ] && break'',
      ''    sleep 1'',
      ''done'',
      ''[ -n '' @ in_quotes ''$data_dev'' @ '' ] || { echo '' @ in_quotes ''data volume device not found'' @ '' >&2; exit 1; }'',
      ''if ! blkid '' @ in_quotes ''$data_dev'' @ '' >/dev/null 2>&1; then'',
      ''    mkfs.ext4 -q -L etcd-data '' @ in_quotes ''$data_dev'',
      ''fi'',
      ''uuid='' @ in_quotes (''$(blkid -s UUID -o value '' @ in_quotes ''$data_dev'' @ '')''),
      ''[ -n '' @ in_quotes ''$uuid'' @ '' ] || { echo '' @ in_quotes ''data volume $data_dev has no filesystem UUID'' @ '' >&2; exit 1; }'',
      ''install -d -m 0700 '' @ in_quotes ''$mount_point'',
      ''grep -q '' @ in_quotes ''UUID=$uuid'' @ '' /etc/fstab || echo '' @ in_quotes ''UUID=$uuid $mount_point ext4 defaults,nofail 0 2'' @ '' >> /etc/fstab'',
      ''mountpoint -q '' @ in_quotes ''$mount_point'' @ '' || mount '' @ in_quotes ''$mount_point'']"

definition awsBootstrapScript :: "clusterMember \<Rightarrow> clusterMember list \<Rightarrow> string \<Rightarrow> awsBootstrapOptions \<Rightarrow> string" where
  "awsBootstrapScript m members token opts =
     (let execStart = JoinArgs ([''/usr/local/bin/etcd''] @ etcdServerArgs m members token ''/var/lib/etcd'' @ boExtraArgs opts);
          volumeSetup = (if boDataVolumeSetup opts then awsDataVolumeSetupScript ''/var/lib/etcd'' @ [line_feed] else [])
      in unlines [''set -euo pipefail'', ''tmp='' @ in_quotes ''$(mktemp -d)'',
           ''trap '' @ [squote] @ ''rm -rf '' @ in_quotes ''$tmp'' @ [squote] @ '' EXIT''] @
         volumeSetup @ awsEtcdInstallScript opts @ [line_feed] @
         unlines [''install -d -m 0700 /var/lib/etcd''] @
         awsEtcdUnitScript (boEnv opts) execStart @ unlines [''systemctl enable --now etcd-infra.service''])"

definition awsHealthScript :: "string list \<Rightarrow> string" where
  "awsHealthScript endpoints =
     ''for attempt in $(seq 1 60); do ETCDCTL_API=3 /usr/local/bin/etcdctl --endpoints='' @ Quote (Join '','' endpoints) @
     '' endpoint health --cluster && exit 0; sleep 2; done; exit 1''"

definition awsHealthCurlScript :: "string list \<Rightarrow> string" where
  "awsHealthCurlScript endpoints =
     ''for attempt in $(seq 1 60); do ok=1'' @ [line_feed] @
     concat (map (\<lambda>endpoint. ''curl -fsS '' @ Quote endpoint @ ''/health | grep -q '' @ [squote] @ in_quotes ''health'' @ '':'' @
       in_quotes ''true'' @ [squote] @ '' || ok=0'' @ [line_feed]) endpoints) @
     ''[[ $ok == 1 ]] && exit 0; sleep 2; done; exit 1''"

section \<open>The environment of the unit\<close>

text \<open>How systemd reads a quoted assignment: a backslash makes the next byte literal, the closing quote ends
  the value. Specifiers are expanded afterwards and are not part of the quoting.\<close>

fun unquoted :: "string \<Rightarrow> string option" where
  "unquoted [] = None"
| "unquoted (c # cs) =
     (if c = dquote then (if cs = [] then Some [] else None)
      else if c = backslash then (case cs of [] \<Rightarrow> None | d # ds \<Rightarrow> map_option ((#) d) (unquoted ds))
      else map_option ((#) c) (unquoted cs))"

definition env_of_line :: "string \<Rightarrow> string option" where
  "env_of_line l =
     (let p = ''Environment='' @ [dquote] in if HasPrefix l p then unquoted (drop (length p) l) else None)"

definition unit_environment :: "string \<Rightarrow> string list" where
  "unit_environment text = List.map_filter env_of_line (Split line_feed text)"

lemma unquoted_escape: "unquoted (systemd_escape entry @ [dquote]) = Some entry"
  by (induction entry) (auto simp: systemd_escape_def dquote_def backslash_def)

lemma env_of_line_escape: "env_of_line (''Environment='' @ [dquote] @ systemd_escape entry @ [dquote]) = Some entry"
  using unquoted_escape [of entry] by (simp add: env_of_line_def)

lemma line_feed_escape: "line_feed \<in> set (systemd_escape entry) \<longleftrightarrow> line_feed \<in> set entry"
  by (induction entry) (auto simp: systemd_escape_def dquote_def backslash_def line_feed_def)

lemma Split_line: "line_feed \<notin> set l \<Longrightarrow> Split line_feed (l @ line_feed # rest) = l # Split line_feed rest"
  by (induction l) (auto simp: Split_Cons_other Split_not_Nil split: list.splits)

lemma Split_unlines:
  "\<forall>l\<in>set ls. line_feed \<notin> set l \<Longrightarrow> Split line_feed (unlines ls @ rest) = ls @ Split line_feed rest"
  by (induction ls) (auto simp: unlines_def Split_line)

lemma unit_environment_lines:
  assumes "\<forall>l\<in>set ls. line_feed \<notin> set l"
  shows "unit_environment (unlines ls @ rest) = List.map_filter env_of_line ls @ unit_environment rest"
  using assms by (simp add: unit_environment_def Split_unlines map_filter_def)

lemma awsSystemdEnvironment_lines:
  "awsSystemdEnvironment env = unlines (map (\<lambda>e. ''Environment='' @ [dquote] @ systemd_escape e @ [dquote]) env)"
  by (induction env) (simp_all add: awsSystemdEnvironment_def unlines_def)

lemma map_filter_map_Some: "(\<And>x. f (g x) = Some x) \<Longrightarrow> List.map_filter f (map g xs) = xs"
  by (induction xs) (simp_all add: map_filter_def)

text \<open>C30: The unit file carries exactly the requested environment: reading the \<^verbatim>\<open>Environment=\<close> lines of the unit
  script the way systemd unquotes them gives back the entries, whatever quotes, backslashes and spaces they
  contain, as long as neither an entry nor the command line contains a line feed.\<close>

theorem awsEtcdUnitScript_environment:
  assumes "\<forall>e\<in>set env. line_feed \<notin> set e" "line_feed \<notin> set execStart"
  shows "unit_environment (awsEtcdUnitScript env execStart) = env"
proof -
  let ?lines = "map (\<lambda>e. ''Environment='' @ [dquote] @ systemd_escape e @ [dquote]) env"
  have env: "unit_environment (awsSystemdEnvironment env @ rest) = env @ unit_environment rest" for rest
  proof -
    have "\<forall>l\<in>set ?lines. line_feed \<notin> set l"
      using assms(1) by (auto simp: line_feed_escape) (simp_all add: line_feed_def dquote_def)
    moreover have "List.map_filter env_of_line ?lines = env" by (rule map_filter_map_Some, rule env_of_line_escape)
    ultimately show ?thesis unfolding awsSystemdEnvironment_lines by (simp only: unit_environment_lines)
  qed
  have none: "env_of_line (''ExecStart='' @ x) = None" for x by (simp add: env_of_line_def)
  have "unit_environment [] = []" by (simp add: unit_environment_def env_of_line_def map_filter_def)
  moreover have "unit_environment (unlines [''ExecStart='' @ execStart, ''Restart=on-failure'', ''RestartSec=5s'', ''LimitNOFILE=40000'', '''',
       ''[Install]'', ''WantedBy=multi-user.target'', ''EOF'', ''systemctl daemon-reload''] @ []) = unit_environment []"
    using assms(2) none by (subst unit_environment_lines) (simp_all add: line_feed_def map_filter_def env_of_line_def)
  ultimately show ?thesis unfolding awsEtcdUnitScript_def
    by (subst unit_environment_lines) (simp_all add: env line_feed_def squote_def map_filter_def env_of_line_def)
qed

theorem awsEtcdUnitScript_environment_witness:
  "unit_environment (awsEtcdUnitScript [''GOFAIL_FAILPOINTS=fp=return('' @ in_quotes ''a b'' @ '')'', ''K=V''] ''/usr/local/bin/etcd'') =
     [''GOFAIL_FAILPOINTS=fp=return('' @ in_quotes ''a b'' @ '')'', ''K=V'']"
  by (rule awsEtcdUnitScript_environment) (simp_all add: in_quotes_def line_feed_def dquote_def)

end
