(* ===== verification/AwsState.thy ===== *)
theory AwsState
  imports FileOps Topology
begin

text \<open>
  The state file of an AWS cluster, \<^verbatim>\<open>~/.etcd-infra/aws/<name>.json\<close> (\<^verbatim>\<open>src/cmd/etcd-infra/aws.go\<close>): what
  it records, how it is written through a temporary file and a rename, and how it is read. The JSON
  encoder and decoder are arguments. The file system is that of \<open>FileOps\<close>: every call may fail, a
  failed write leaves part of the data. The locale \<open>state_store\<close> is what the commands rely on: a
  write that succeeds has saved the state, one that fails has not touched what was saved.
\<close>

record awsInstanceState =
  aiName :: string
  aiID :: string
  aiPrivateIPv4 :: string
  aiPublicIPv4 :: string
  aiSubnetID :: string
  aiDataVolumeID :: string

record awsDevState =
  dvAccountID :: string
  dvVPCID :: string
  dvSubnetIDs :: "string list"
  dvSecurityGroupIDs :: "string list"
  dvAMI :: string
  dvInstanceType :: string
  dvMountPoint :: string
  dvVolumeSizeGB :: int
  dvVolumeIOPS :: int
  dvVolumeThroughputMiBps :: int
  dvBucket :: string
  dvResultsURI :: string
  dvCount :: int
  dvAutoScalingGroup :: string
  dvLaunchTemplate :: string
  dvLaunchTemplateID :: string
  dvLaunchTemplateVersion :: int
  dvOwnerToken :: string

record awsState =
  asName :: string
  asRegion :: string
  asVersion :: string
  asInstances :: "awsInstanceState list"
  asStressClients :: "awsInstanceState list"
  asArch :: string
  asExtraArgs :: "string list"
  asEnv :: "string list"
  asBinaryURL :: string
  asBinarySHA256 :: string
  asReplaceable :: bool
  asDev :: "awsDevState option"

datatype state_error = ErrHomeDir string | ErrMarshal string | ErrStateDir errno | ErrWriteState errno | ErrReplaceState errno
  | ErrReadState string errno | ErrParseState string | ErrInvalidState string

text \<open>\<open>home\<close> is the result of \<^verbatim>\<open>os.UserHomeDir\<close>.\<close>

definition awsStatePath :: "string + string \<Rightarrow> string \<Rightarrow> state_error + string" where
  "awsStatePath home name =
     (case home of Inl e \<Rightarrow> Inl (ErrHomeDir e) | Inr h \<Rightarrow> Inr (PathJoin [h, ''.etcd-infra'', ''aws'', name @ ''.json'']))"

definition writeAWSState :: "(awsState \<Rightarrow> string + string) \<Rightarrow> path \<Rightarrow> string \<Rightarrow> awsState \<Rightarrow> disk \<Rightarrow> state_error option \<times> disk" where
  "writeAWSState marshal cwd p state d =
     (case marshal state of Inl e \<Rightarrow> (Some (ErrMarshal e), d)
      | Inr content \<Rightarrow>
     (case with_fault (MkdirAll cwd 448 (Dir p)) (\<lambda>k fs. fs) d of (Some e, d1) \<Rightarrow> (Some (ErrStateDir e), d1)
      | (None, d1) \<Rightarrow>
        let temp = p @ ''.tmp''; bytes = content @ [line_feed] in
     (case with_fault (WriteFile cwd 384 bytes temp) (\<lambda>k fs. snd (WriteFile cwd 384 (take k bytes) temp fs)) d1 of
        (Some e, d2) \<Rightarrow> (Some (ErrWriteState e), d2)
      | (None, d2) \<Rightarrow>
     (case with_fault (Rename cwd temp p) (\<lambda>k fs. fs) d2 of
        (Some e, d3) \<Rightarrow> (Some (ErrReplaceState e), snd (with_fault (Remove cwd temp) (\<lambda>k fs. fs) d3))
      | (None, d3) \<Rightarrow> (None, d3)))))"

definition readAWSState :: "(string \<Rightarrow> awsState option) \<Rightarrow> path \<Rightarrow> string \<Rightarrow> disk \<Rightarrow> (state_error + awsState) \<times> disk" where
  "readAWSState unmarshal cwd p d =
     (case ReadFile cwd p d of
        (Inl e, d1) \<Rightarrow> (Inl (ErrReadState p e), d1)
      | (Inr content, d1) \<Rightarrow>
        (case unmarshal content of None \<Rightarrow> (Inl (ErrParseState p), d1)
         | Some state \<Rightarrow>
             if asName state = [] \<or> asRegion state = [] \<or>
                (asInstances state = [] \<and> asStressClients state = [] \<and> asDev state = None)
             then (Inl (ErrInvalidState p), d1)
             else (Inr state, d1)))"

text \<open>The operations on the state file that the commands use.\<close>

record 'd state_ops =
  stStat :: "'d \<Rightarrow> errno option \<times> 'd"
  stWrite :: "awsState \<Rightarrow> 'd \<Rightarrow> state_error option \<times> 'd"
  stRead :: "'d \<Rightarrow> (state_error + awsState) \<times> 'd"
  stRemove :: "'d \<Rightarrow> errno option \<times> 'd"

definition state_file :: "(awsState \<Rightarrow> string + string) \<Rightarrow> (string \<Rightarrow> awsState option) \<Rightarrow> path \<Rightarrow> string \<Rightarrow> disk state_ops" where
  "state_file marshal unmarshal cwd p =
     \<lparr>stStat = (\<lambda>d. case next_fault d of (Fault e k, d1) \<Rightarrow> (Some e, d1)
         | (NoFault, d1) \<Rightarrow> (case Stat cwd (fst d1) p of Inl e \<Rightarrow> Some e | Inr _ \<Rightarrow> None, d1)),
      stWrite = writeAWSState marshal cwd p, stRead = readAWSState unmarshal cwd p,
      stRemove = with_fault (Remove cwd p) (\<lambda>k fs. fs)\<rparr>"

section \<open>What the commands rely on\<close>

text \<open>\<open>saved d st\<close>: the file holds the encoding of \<open>st\<close>. \<open>view d\<close> is what the file holds.\<close>

locale state_store =
  fixes ops :: "'d state_ops" and invar :: "'d \<Rightarrow> bool" and view :: "'d \<Rightarrow> 'v" and saved :: "'v \<Rightarrow> awsState \<Rightarrow> bool" and gone :: 'v
  assumes stat_law: "invar d \<Longrightarrow> stStat ops d = (r, d') \<Longrightarrow> invar d' \<and> view d' = view d"
    and write_law: "invar d \<Longrightarrow> stWrite ops st d = (e, d') \<Longrightarrow> invar d' \<and> (if e = None then saved (view d') st else view d' = view d)"
    and read_law: "invar d \<Longrightarrow> stRead ops d = (r', d') \<Longrightarrow> invar d' \<and> view d' = view d"
    and remove_law: "invar d \<Longrightarrow> stRemove ops d = (r, d') \<Longrightarrow> invar d' \<and>
      (if r = None \<or> r = Some ENOENT then view d' = gone else view d' = view d)"

section \<open>The state file keeps the contract\<close>

definition regular :: "node option \<Rightarrow> bool" where
  "regular v \<longleftrightarrow> v = None \<or> (\<exists>m c. v = Some (NFile m c))"

text \<open>The directory \<open>D\<close> exists at \<open>R\<close>, the file and its temporary companion are regular files or absent, and
  no fault claims that a file does not exist.\<close>

definition store_inv :: "path \<Rightarrow> string \<Rightarrow> path \<Rightarrow> string \<Rightarrow> disk \<Rightarrow> bool" where
  "store_inv cwd D R n d \<longleftrightarrow> dir_inv cwd D R d \<and> plain n \<and> plain (n @ ''.tmp'') \<and> Dir (under D [n] False) = D \<and>
     regular (fst d (R @ [n])) \<and> regular (fst d (R @ [n @ ''.tmp''])) \<and> (\<forall>k. Fault ENOENT k \<notin> set (snd d))"

definition encodes :: "(awsState \<Rightarrow> string + string) \<Rightarrow> node option \<Rightarrow> awsState \<Rightarrow> bool" where
  "encodes marshal v st \<longleftrightarrow> (\<exists>m s. marshal st = Inr s \<and> v = Some (NFile m (s @ [line_feed])))"

lemma regular_simps [simp]: "regular None" "regular (Some (NFile m c))"
  by (simp_all add: regular_def)

lemma regular_not_dir: "regular v \<Longrightarrow> \<not> is_dir v"
  by (auto simp: regular_def)

lemma tl_fault: "\<forall>k. Fault ENOENT k \<notin> set ft \<Longrightarrow> \<forall>k. Fault ENOENT k \<notin> set (tl ft)"
  by (cases ft) auto

lemma store_inv_step: "store_inv cwd D R n (fs, ft) \<Longrightarrow> store_inv cwd D R n (fs, tl ft)"
  using tl_fault [of ft] by (auto simp: store_inv_def)

lemma store_inv_update:
  assumes "store_inv cwd D R n (fs, ft)" "x = n \<or> x = n @ ''.tmp''" "regular v" "\<forall>k. Fault ENOENT k \<notin> set ft'"
  shows "store_inv cwd D R n (fs(R @ [x] := v), ft')"
proof -
  have x: "plain x" "regular (fs (R @ [x]))" using assms(1,2) by (auto simp: store_inv_def)
  have "\<not> is_link v" using assms(3) by (auto simp: regular_def)
  with x assms(1) have "dir_inv cwd D R (fs(R @ [x] := v), ft')"
    by (intro dir_inv_update [of _ _ _ _ ft]) (auto simp: store_inv_def regular_not_dir)
  with assms show ?thesis by (auto simp: store_inv_def)
qed

lemma store_inv_faults: "store_inv cwd D R n (fs, ft) \<Longrightarrow> \<forall>k. Fault ENOENT k \<notin> set ft"
  by (simp add: store_inv_def)

lemma store_resolve:
  assumes "store_inv cwd D R n (fs, ft)"
  shows "resolve cwd fs follow (under D [n] False) = Inr (R @ [n])"
    and "resolve cwd fs follow (under D [n] False @ ''.tmp'') = Inr (R @ [n @ ''.tmp''])"
  using dir_resolve [of cwd D R "(fs, ft)" n follow] dir_resolve [of cwd D R "(fs, ft)" "n @ ''.tmp''" follow] assms
  by (simp_all add: store_inv_def under_one)

lemma store_temp:
  assumes "store_inv cwd D R n (fs, ft)"
    and "with_fault (WriteFile cwd 384 bytes (under D [n] False @ ''.tmp''))
           (\<lambda>k fs. snd (WriteFile cwd 384 (take k bytes) (under D [n] False @ ''.tmp'') fs)) (fs, ft) = (e, d')"
  shows "\<exists>m c. d' = (fs(R @ [n @ ''.tmp''] \<mapsto> NFile m c), tl ft) \<and> (e = None \<longrightarrow> c = bytes)"
proof -
  have "\<exists>m. WriteFile cwd 384 x (under D [n] False @ ''.tmp'') fs = (None, fs(R @ [n @ ''.tmp''] \<mapsto> NFile m x))" for x
    using store_resolve(2) [OF assms(1), of True] assms(1) by (auto simp: WriteFile_def store_inv_def regular_def)
  then obtain f where f: "WriteFile cwd 384 x (under D [n] False @ ''.tmp'') fs = (None, fs(R @ [n @ ''.tmp''] \<mapsto> NFile (f x) x))" for x
    by metis
  show ?thesis using assms(2)
  proof (rule with_fault_cases)
    fix fs' assume "WriteFile cwd 384 bytes (under D [n] False @ ''.tmp'') fs = (e, fs')" "d' = (fs', tl ft)"
    then show ?thesis using f [of bytes] by auto
  next
    fix y k assume "e = Some y" "d' = (snd (WriteFile cwd 384 (take k bytes) (under D [n] False @ ''.tmp'') fs), tl ft)"
    then show ?thesis using f [of "take k bytes"] by auto
  qed
qed

lemma store_rename:
  assumes "store_inv cwd D R n (fs, ft)" "fs (R @ [n @ ''.tmp'']) = Some (NFile m c)"
    and "with_fault (Rename cwd (under D [n] False @ ''.tmp'') (under D [n] False)) (\<lambda>k fs. fs) (fs, ft) = (e, d')"
  shows "d' = (if e = None then fs(R @ [n] \<mapsto> NFile m c, R @ [n @ ''.tmp''] := None) else fs, tl ft)"
  using assms store_resolve [OF assms(1), of False]
  by (elim with_fault_cases) (auto simp: Rename_def store_inv_def regular_not_dir split: if_splits)

lemma store_remove:
  assumes "store_inv cwd D R n (fs, ft)" "x = n \<or> x = n @ ''.tmp''"
    and "with_fault (Remove cwd (under D [x] False)) (\<lambda>k fs. fs) (fs, ft) = (e, d')"
  shows "d' = (if e = None \<or> e = Some ENOENT then fs(R @ [x] := None) else fs, tl ft)"
proof -
  have r: "resolve cwd fs False (under D [x] False) = Inr (R @ [x])"
    using store_resolve [OF assms(1), of False] assms(2) by (auto simp: under_one)
  have reg: "regular (fs (R @ [x]))" using assms(1,2) by (auto simp: store_inv_def)
  show ?thesis
    using assms(3)
  proof (rule with_fault_cases)
    fix fs' assume "Remove cwd (under D [x] False) fs = (e, fs')" "d' = (fs', tl ft)"
    with r reg show ?thesis by (auto simp: Remove_def regular_def fun_upd_idem)
  next
    fix y k assume f: "e = Some y" "d' = (fs, tl ft)"
    have "y \<noteq> ENOENT \<or> fs (R @ [x]) = None"
      using assms(1,3) f r reg by (cases ft) (auto simp: with_fault_def next_fault_def store_inv_def Remove_def regular_def split: fault.splits)
    with f show ?thesis by (auto simp: fun_upd_idem)
  qed
qed

lemma store_write:
  assumes inv: "store_inv cwd D R n d" and run: "writeAWSState marshal cwd (under D [n] False) st d = (e, d')"
  shows "store_inv cwd D R n d' \<and> (if e = None then encodes marshal (fst d' (R @ [n])) st else fst d' (R @ [n]) = fst d (R @ [n]))"
proof (cases "marshal st")
  case (Inl x)
  with assms show ?thesis by (auto simp: writeAWSState_def)
next
  case (Inr content)
  obtain fs ft where d: "d = (fs, ft)" by (metis surj_pair)
  let ?p = "under D [n] False" and ?bytes = "content @ [line_feed]"
  have dir: "dest_at cwd fs D R" and D: "Dir ?p = D" using inv d by (auto simp: store_inv_def dir_inv_def)
  obtain e1 d1 where m: "with_fault (MkdirAll cwd 448 (Dir ?p)) (\<lambda>k fs. fs) d = (e1, d1)" by (metis surj_pair)
  have d1: "d1 = (fs, tl ft)"
    using m D Stat_dest [OF dir, of False] unfolding d
    by (elim with_fault_cases) (auto simp: MkdirAll.simps [of cwd 448 D fs] under_def)
  have inv1: "store_inv cwd D R n d1" using inv d d1 store_inv_step by simp
  show ?thesis
  proof (cases e1)
    case (Some x)
    with run Inr m d1 inv1 d show ?thesis by (auto simp: writeAWSState_def)
  next
    case None
    obtain e2 d2 where w: "with_fault (WriteFile cwd 384 ?bytes (?p @ ''.tmp''))
        (\<lambda>k fs. snd (WriteFile cwd 384 (take k ?bytes) (?p @ ''.tmp'') fs)) d1 = (e2, d2)" by (metis surj_pair)
    obtain md c where c: "d2 = (fs(R @ [n @ ''.tmp''] \<mapsto> NFile md c), tl (tl ft))" "e2 = None \<longrightarrow> c = ?bytes"
      using store_temp [OF inv1 [unfolded d1] w [unfolded d1]] by blast
    note nf = tl_fault [OF store_inv_faults [OF inv1 [unfolded d1]]]
    have inv2: "store_inv cwd D R n d2" unfolding c(1) by (rule store_inv_update [OF inv1 [unfolded d1] _ _ nf]) simp_all
    show ?thesis
    proof (cases e2)
      case (Some x)
      with run Inr m None w c inv2 d show ?thesis by (auto simp: writeAWSState_def Let_def)
    next
      case e2: None
      let ?fs2 = "fs(R @ [n @ ''.tmp''] \<mapsto> NFile md c)" and ?ft3 = "tl (tl (tl ft))"
      obtain e3 d3 where r: "with_fault (Rename cwd (?p @ ''.tmp'') ?p) (\<lambda>k fs. fs) d2 = (e3, d3)" by (metis surj_pair)
      note d3 = store_rename [OF inv2 [unfolded c(1)] _ r [unfolded c(1)], of md c, simplified]
      show ?thesis
      proof (cases e3)
        case e3: None
        have "store_inv cwd D R n (?fs2(R @ [n] \<mapsto> NFile md c), ?ft3)"
          by (rule store_inv_update [OF inv2 [unfolded c(1)] _ _ tl_fault [OF nf]]) simp_all
        from store_inv_update [OF this, of "n @ ''.tmp''" None ?ft3] tl_fault [OF nf] d3 e3
        have "store_inv cwd D R n d3" by simp
        moreover have "encodes marshal (fst d3 (R @ [n])) st" using Inr c(2) e2 d3 e3 by (simp add: encodes_def)
        moreover have "e = None" "d' = d3" using run Inr m None w e2 r e3 by (simp_all add: writeAWSState_def Let_def)
        ultimately show ?thesis by simp
      next
        case e3: (Some x)
        obtain e4 d4 where rm: "with_fault (Remove cwd (under D [n @ ''.tmp''] False)) (\<lambda>k fs. fs) (?fs2, ?ft3) = (e4, d4)"
          by (metis surj_pair)
        have inv3: "store_inv cwd D R n (?fs2, ?ft3)" using store_inv_step [OF inv2 [unfolded c(1)]] .
        note d4 = store_remove [OF inv3 _ rm]
        have "store_inv cwd D R n (?fs2(R @ [n @ ''.tmp''] := None), tl ?ft3)"
          by (rule store_inv_update [OF inv3]) (use tl_fault [OF tl_fault [OF nf]] in simp_all)
        then have "store_inv cwd D R n d4" using d4 store_inv_step [OF inv3] by auto
        moreover have "e \<noteq> None" "d' = d4"
          using run Inr m None w e2 r e3 d3 rm by (auto simp: writeAWSState_def Let_def under_one)
        moreover have "fst d4 (R @ [n]) = fs (R @ [n])" using d4 by auto
        ultimately show ?thesis using d by auto
      qed
    qed
  qed
qed

interpretation aws_file: state_store "state_file marshal unmarshal cwd (under D [n] False)" "store_inv cwd D R n"
    "\<lambda>d. fst d (R @ [n])" "encodes marshal" None
  for marshal unmarshal cwd D R n
proof
  fix d r d'
  assume "store_inv cwd D R n d" "stStat (state_file marshal unmarshal cwd (under D [n] False)) d = (r, d')"
  then show "store_inv cwd D R n d' \<and> fst d' (R @ [n]) = fst d (R @ [n])"
    by (cases d; cases "fst d" "snd d" rule: next_fault_cases) (auto simp: state_file_def intro: store_inv_step)
next
  fix d st e d'
  assume "store_inv cwd D R n d" "stWrite (state_file marshal unmarshal cwd (under D [n] False)) st d = (e, d')"
  then show "store_inv cwd D R n d' \<and>
      (if e = None then encodes marshal (fst d' (R @ [n])) st else fst d' (R @ [n]) = fst d (R @ [n]))"
    using store_write by (simp add: state_file_def)
next
  fix d r d'
  assume "store_inv cwd D R n d" "stRead (state_file marshal unmarshal cwd (under D [n] False)) d = (r, d')"
  moreover have "snd (readAWSState unmarshal cwd (under D [n] False) d) = (fst d, tl (snd d))"
    by (cases "fst d" "snd d" rule: next_fault_cases) (auto simp: readAWSState_def ReadFile_def split: sum.splits option.splits)
  ultimately show "store_inv cwd D R n d' \<and> fst d' (R @ [n]) = fst d (R @ [n])"
    by (cases d) (auto simp: state_file_def intro: store_inv_step)
next
  fix d r d'
  assume inv: "store_inv cwd D R n d" and run: "stRemove (state_file marshal unmarshal cwd (under D [n] False)) d = (r, d')"
  obtain fs ft where d: "d = (fs, ft)" by (metis surj_pair)
  have d': "d' = (if r = None \<or> r = Some ENOENT then fs(R @ [n] := None) else fs, tl ft)"
    using store_remove [OF inv [unfolded d], of n r d'] run d by (simp add: state_file_def)
  have "store_inv cwd D R n (fs(R @ [n] := None), tl ft)"
    by (rule store_inv_update [OF inv [unfolded d]]) (use tl_fault [OF store_inv_faults [OF inv [unfolded d]]] in simp_all)
  then show "store_inv cwd D R n d' \<and>
      (if r = None \<or> r = Some ENOENT then fst d' (R @ [n]) = None else fst d' (R @ [n]) = fst d (R @ [n]))"
    using d' d store_inv_step [OF inv [unfolded d]] by auto
qed

text \<open>A state that was saved is read back, if decoding undoes encoding.\<close>

lemma read_saved:
  assumes "store_inv cwd D R n (fs, ft)" "encodes marshal (fs (R @ [n])) st" "hd (ft @ [NoFault]) = NoFault"
    and "\<And>s. marshal st = Inr s \<Longrightarrow> unmarshal (s @ [line_feed]) = Some st"
    and "asName st \<noteq> []" "asRegion st \<noteq> []" "asInstances st \<noteq> [] \<or> asStressClients st \<noteq> [] \<or> asDev st \<noteq> None"
  shows "fst (readAWSState unmarshal cwd (under D [n] False) (fs, ft)) = Inr st"
proof -
  obtain m s where s: "marshal st = Inr s" "fs (R @ [n]) = Some (NFile m (s @ [line_feed]))" using assms(2) by (auto simp: encodes_def)
  have "next_fault (fs, ft) = (NoFault, (fs, tl ft))" using assms(3) by (cases ft) (auto simp: next_fault_def)
  then have "ReadFile cwd (under D [n] False) (fs, ft) = (Inr (s @ [line_feed]), (fs, tl ft))"
    using s(2) store_resolve(1) [OF assms(1), of True] by (simp add: ReadFile_def Stat_def lookup_node_def)
  with assms(4) [OF s(1)] assms(5-7) show ?thesis by (auto simp: readAWSState_def)
qed

end
