(* ===== verification/AwsCluster.thy ===== *)
theory AwsCluster
  imports AwsScripts AwsState
begin

text \<open>
  The commands \<^verbatim>\<open>aws up\<close>, \<^verbatim>\<open>aws down\<close>, \<^verbatim>\<open>aws status\<close> and \<^verbatim>\<open>aws replace\<close> of
  \<^verbatim>\<open>src/cmd/etcd-infra/aws.go\<close> and \<^verbatim>\<open>aws_replace.go\<close>, from their parsed flags on. The AWS provider
  (\<^verbatim>\<open>src/pkg/providers/aws\<close>) is the record \<open>aws_manager\<close> of its operations on the state \<open>'w\<close> of the
  cloud, the state file the record \<open>state_ops\<close>; a command changes both. Deadlines belong to the
  manager.
\<close>

section \<open>Options and requests\<close>

record awsUpOptions =
  uoName :: string
  uoRegion :: string
  uoVPCID :: string
  uoSubnetID :: string
  uoSecurityGroupIDs :: "string list"
  uoAMI :: string
  uoInstanceType :: string
  uoIAMInstanceProfile :: string
  uoArch :: string
  uoVersion :: string
  uoBinaryURL :: string
  uoBinarySHA256 :: string
  uoExtraArgs :: string
  uoExtraArgsFile :: string
  uoEnv :: string
  uoMembers :: int
  uoDryRun :: bool
  uoStressClients :: int
  uoBastionType :: string
  uoReplaceable :: bool

record aws_request =
  rqName :: string
  rqRegion :: string
  rqVPCID :: string
  rqSubnetID :: string
  rqSecurityGroupIDs :: "string list"
  rqImage :: string
  rqSize :: string
  rqTags :: "(string \<times> string) list"
  rqIAMInstanceProfile :: string
  rqDataVolumeSizeGB :: int

record aws_instance =
  inID :: string
  inPrivateIPv4 :: string
  inPublicIPv4 :: string
  inState :: string

text \<open>A subnet is its identifier and its availability zone.\<close>

record 'w aws_manager =
  amLoadConfig :: "string \<Rightarrow> 'w \<Rightarrow> (string + string) \<times> 'w"
  amCreate :: "aws_request \<Rightarrow> 'w \<Rightarrow> (string + aws_instance) \<times> 'w"
  amDelete :: "string \<Rightarrow> 'w \<Rightarrow> string option \<times> 'w"
  amWaitForReady :: "string \<Rightarrow> 'w \<Rightarrow> (string + aws_instance) \<times> 'w"
  amGet :: "string \<Rightarrow> 'w \<Rightarrow> (string + aws_instance) \<times> 'w"
  amRun :: "string \<Rightarrow> string list \<Rightarrow> 'w \<Rightarrow> (string + int \<times> string) \<times> 'w"
  amDataVolumeID :: "string \<Rightarrow> 'w \<Rightarrow> (string + string) \<times> 'w"
  amWaitForTerminated :: "string \<Rightarrow> 'w \<Rightarrow> string option \<times> 'w"
  amDeleteDataVolume :: "string \<Rightarrow> 'w \<Rightarrow> string option \<times> 'w"
  amSubnets :: "string \<Rightarrow> 'w \<Rightarrow> (string + (string \<times> string) list) \<times> 'w"
  amReplaceMachine :: "string \<Rightarrow> 'w \<Rightarrow> (string + string) \<times> 'w"

text \<open>\<open>AwsUnrecorded\<close> is the error that names an instance that has to be terminated by hand, \<open>AwsSetup\<close> the one
  that points at the saved state.\<close>

datatype aws_error = AwsError string | AwsState state_error | AwsStat errno | AwsRemove errno | AwsUnrecorded state_error string string
  | AwsSetup aws_error string string | AwsJoin "aws_error list" | AwsSave state_error

definition validateAWSUpOptions :: "awsUpOptions \<Rightarrow> string option" where
  "validateAWSUpOptions opts =
     (case validateClusterName (uoName opts) of Some e \<Rightarrow> Some e
      | None \<Rightarrow>
     (case validateMemberCount (uoMembers opts) of Some e \<Rightarrow> Some e
      | None \<Rightarrow>
     (case find (\<lambda>(n, v). TrimSpace v = [])
            [(''vpc'', uoVPCID opts), (''ami'', uoAMI opts), (''instance type'', uoInstanceType opts),
             (''instance profile'', uoIAMInstanceProfile opts)] of
        Some (n, _) \<Rightarrow> Some (n @ '' is required'')
      | None \<Rightarrow>
          if uoArch opts \<noteq> ''amd64'' \<and> uoArch opts \<noteq> ''arm64'' then Some (''arch must be amd64 or arm64, got '' @ uoArch opts)
          else if uoBastionType opts \<noteq> [] \<and> uoStressClients opts = 0 then Some ''--bastion-instance-type requires --stress-clients > 0''
          else if uoStressClients opts < 0 then Some ''--stress-clients must be >= 0''
          else if uoReplaceable opts \<and> uoBinaryURL opts \<noteq> []
          then Some ''--replaceable requires a release version; custom-binary clusters cannot be replaced (the presigned URL expires)''
          else if (uoBinaryURL opts = []) \<noteq> (uoBinarySHA256 opts = []) then Some ''--binary-url and --binary-sha256 must be set together''
          else if uoBinaryURL opts \<noteq> [] \<and> \<not> HasPrefix (uoBinaryURL opts) ''https://''
          then Some (''--binary-url must be an https URL, got '' @ uoBinaryURL opts)
          else (case find (\<lambda>entry. \<not> env_entry_ok entry) (splitCSV (uoEnv opts)) of
                  Some entry \<Rightarrow> Some (''invalid --env entry '' @ entry @ '', expected KEY=VALUE'') | None \<Rightarrow> None))))"

definition awsDataVolumeSizeGB :: int where "awsDataVolumeSizeGB = 8"

definition dataVolumeSizeGB :: "bool \<Rightarrow> int" where
  "dataVolumeSizeGB replaceable = (if replaceable then awsDataVolumeSizeGB else 0)"

definition defaultBastionInstanceType :: "string \<Rightarrow> string" where
  "defaultBastionInstanceType arch = (if arch = ''arm64'' then ''t4g.medium'' else ''t3a.medium'')"

definition awsVersionLabel :: "awsUpOptions \<Rightarrow> string" where
  "awsVersionLabel opts = (if uoBinaryURL opts \<noteq> [] then ''custom-binary'' else releaseTag (uoVersion opts))"

text \<open>The lines printed by a dry run.\<close>

definition printAWSPlan :: "awsUpOptions \<Rightarrow> string list" where
  "printAWSPlan opts =
     [''AWS dry run: '' @ show_int (uoMembers opts) @ '' etcd '' @ uoInstanceType opts @ '' instances in VPC '' @ uoVPCID opts @
      (if uoSubnetID opts \<noteq> [] then '', subnet '' @ uoSubnetID opts else []) @
      '', etcd '' @ awsVersionLabel opts @ ''/'' @ uoArch opts] @
     (if uoStressClients opts > 0
      then let bastionType = (if uoBastionType opts = [] then defaultBastionInstanceType (uoArch opts) else uoBastionType opts)
           in [''plus '' @ show_int (uoStressClients opts) @ '' '' @ bastionType @ '' stress client(s) running suites in-VPC (no inbound rules needed)'']
      else []) @
     (if uoReplaceable opts
      then [''plus 1 dedicated '' @ show_int awsDataVolumeSizeGB @ '' GiB data volume per member (survives termination for '' @
        [squote] @ ''aws replace'' @ [squote] @ '')''] else []) @
     [''requires security-group ingress between members on TCP 2379 and 2380'', ''rerun with --dry-run=false to create the cluster'']"

definition awsMembers :: "awsState \<Rightarrow> clusterMember list" where
  "awsMembers state = map (\<lambda>i. \<lparr>mbName = aiName i, mbClientURL = ''http://'' @ aiPrivateIPv4 i @ '':2379'',
     mbPeerURL = ''http://'' @ aiPrivateIPv4 i @ '':2380''\<rparr>) (asInstances state)"

definition awsSetupError :: "string \<Rightarrow> awsState \<Rightarrow> aws_error \<Rightarrow> aws_error" where
  "awsSetupError statePath state err = (if asInstances state = [] then err else AwsSetup err statePath (asName state))"

definition stressClientNames :: "awsState \<Rightarrow> string" where
  "stressClientNames state = Join '', '' (map (\<lambda>c. aiName c @ '' ('' @ aiID c @ '')'') (asStressClients state))"

definition printAWSEndpoints :: "awsState \<Rightarrow> string list" where
  "printAWSEndpoints state =
     (let privateEndpoints = map (\<lambda>i. ''http://'' @ aiPrivateIPv4 i @ '':2379'') (asInstances state);
          publicEndpoints = map (\<lambda>i. ''http://'' @ aiPublicIPv4 i @ '':2379'') (filter (\<lambda>i. aiPublicIPv4 i \<noteq> []) (asInstances state))
      in [''VPC endpoints: '' @ Join '','' privateEndpoints] @
         (if asStressClients state \<noteq> []
          then [''stress clients: suites run in-VPC on '' @ stressClientNames state @
                ''; no inbound security-group rule for the test host is required'']
          else if length publicEndpoints = length (asInstances state)
          then [''public endpoints (requires security-group ingress): '' @ Join '','' publicEndpoints] else []))"

section \<open>Bringing a cluster up\<close>

definition member_request :: "awsUpOptions \<Rightarrow> string \<Rightarrow> aws_request" where
  "member_request opts name =
     \<lparr>rqName = name, rqRegion = uoRegion opts, rqVPCID = uoVPCID opts, rqSubnetID = uoSubnetID opts,
      rqSecurityGroupIDs = uoSecurityGroupIDs opts, rqImage = uoAMI opts, rqSize = uoInstanceType opts,
      rqTags = [(''etcd-infra.cluster'', uoName opts)], rqIAMInstanceProfile = uoIAMInstanceProfile opts,
      rqDataVolumeSizeGB = dataVolumeSizeGB (uoReplaceable opts)\<rparr>"

definition client_request :: "awsUpOptions \<Rightarrow> string \<Rightarrow> string \<Rightarrow> aws_request" where
  "client_request opts name subnet =
     \<lparr>rqName = name, rqRegion = uoRegion opts, rqVPCID = uoVPCID opts, rqSubnetID = subnet,
      rqSecurityGroupIDs = uoSecurityGroupIDs opts, rqImage = uoAMI opts, rqSize = uoBastionType opts,
      rqTags = [(''etcd-infra.cluster'', uoName opts), (''etcd-infra.role'', ''stress-client'')],
      rqIAMInstanceProfile = uoIAMInstanceProfile opts, rqDataVolumeSizeGB = 0\<rparr>"

text \<open>Saving the state right after an instance was created; if that fails, the instance is deleted.\<close>

definition save_created :: "'w aws_manager \<Rightarrow> 'd state_ops \<Rightarrow> awsState \<Rightarrow> string \<Rightarrow> 'd \<times> 'w \<Rightarrow> aws_error option \<times> 'd \<times> 'w" where
  "save_created am st state i dw =
     (case stWrite st state (fst dw) of
        (None, d1) \<Rightarrow> (None, (d1, snd dw))
      | (Some e, d1) \<Rightarrow>
          (case amDelete am i (snd dw) of
             (Some delErr, w1) \<Rightarrow> (Some (AwsUnrecorded e i delErr), (d1, w1))
           | (None, w1) \<Rightarrow> (Some (AwsSave e), (d1, w1))))"

fun create_instances :: "'w aws_manager \<Rightarrow> 'd state_ops \<Rightarrow> string \<Rightarrow> awsUpOptions \<Rightarrow> nat list \<Rightarrow> awsState \<Rightarrow> 'd \<times> 'w \<Rightarrow>
    (aws_error + awsState) \<times> 'd \<times> 'w" where
  "create_instances am st p opts [] state dw = (Inr state, dw)"
| "create_instances am st p opts (i # is) state dw =
     (let memberName = uoName opts @ ''-'' @ show_nat (i + 1) in
      case amCreate am (member_request opts memberName) (snd dw) of
        (Inl e, w1) \<Rightarrow> (Inl (awsSetupError p state (AwsError (''create '' @ memberName @ '': '' @ e))), (fst dw, w1))
      | (Inr inst, w1) \<Rightarrow>
          (let state1 = state\<lparr>asInstances := asInstances state @
                 [\<lparr>aiName = memberName, aiID = inID inst, aiPrivateIPv4 = inPrivateIPv4 inst, aiPublicIPv4 = inPublicIPv4 inst,
                   aiSubnetID = [], aiDataVolumeID = []\<rparr>]\<rparr>
           in case save_created am st state1 (inID inst) (fst dw, w1) of
                (Some e, dw2) \<Rightarrow> (Inl e, dw2)
              | (None, dw2) \<Rightarrow> create_instances am st p opts is state1 dw2))"

text \<open>\<open>done\<close> are the instances already resolved, \<open>todo\<close> the others: an error reports the state so far.\<close>

fun resolve_instances :: "'w aws_manager \<Rightarrow> string \<Rightarrow> bool \<Rightarrow> awsState \<Rightarrow> awsInstanceState list \<Rightarrow> awsInstanceState list \<Rightarrow> 'w \<Rightarrow>
    (aws_error + awsState) \<times> 'w" where
  "resolve_instances am p replaceable state ready [] w = (Inr (state\<lparr>asInstances := ready\<rparr>), w)"
| "resolve_instances am p replaceable state ready (x # xs) w =
     (case amWaitForReady am (aiID x) w of
        (Inl e, w1) \<Rightarrow> (Inl (awsSetupError p (state\<lparr>asInstances := ready @ x # xs\<rparr>) (AwsError (''wait for '' @ aiName x @ '': '' @ e))), w1)
      | (Inr inst, w1) \<Rightarrow>
          (let x1 = x\<lparr>aiPrivateIPv4 := inPrivateIPv4 inst, aiPublicIPv4 := inPublicIPv4 inst\<rparr>;
               state1 = state\<lparr>asInstances := ready @ x1 # xs\<rparr> in
           if aiPrivateIPv4 x1 = [] then (Inl (awsSetupError p state1 (AwsError (aiName x @ '' has no private IPv4 address''))), w1)
           else if replaceable
           then (case amDataVolumeID am (aiID x) w1 of
                   (Inl e, w2) \<Rightarrow> (Inl (awsSetupError p state1 (AwsError (''read '' @ aiName x @ '' data volume: '' @ e))), w2)
                 | (Inr v, w2) \<Rightarrow> resolve_instances am p replaceable state (ready @ [x1\<lparr>aiDataVolumeID := v\<rparr>]) xs w2)
           else resolve_instances am p replaceable state (ready @ [x1]) xs w1))"

fun create_clients :: "'w aws_manager \<Rightarrow> 'd state_ops \<Rightarrow> string \<Rightarrow> awsUpOptions \<Rightarrow> string list \<Rightarrow> nat list \<Rightarrow> awsState \<Rightarrow> 'd \<times> 'w \<Rightarrow>
    (aws_error + awsState) \<times> 'd \<times> 'w" where
  "create_clients am st p opts subnets [] state dw = (Inr state, dw)"
| "create_clients am st p opts subnets (i # is) state dw =
     (let clientName = uoName opts @ ''-stress-client-'' @ show_nat (i + 1);
          subnet = subnets ! (i mod length subnets) in
      case amCreate am (client_request opts clientName subnet) (snd dw) of
        (Inl e, w1) \<Rightarrow> (Inl (awsSetupError p state (AwsError (''create '' @ clientName @ '': '' @ e))), (fst dw, w1))
      | (Inr inst, w1) \<Rightarrow>
          (let client = \<lparr>aiName = clientName, aiID = inID inst, aiPrivateIPv4 = [], aiPublicIPv4 = [], aiSubnetID = subnet, aiDataVolumeID = []\<rparr>;
               state1 = state\<lparr>asStressClients := asStressClients state @ [client]\<rparr> in
           case save_created am st state1 (inID inst) (fst dw, w1) of
             (Some e, dw2) \<Rightarrow> (Inl e, dw2)
           | (None, dw2) \<Rightarrow>
               (case amWaitForReady am (inID inst) (snd dw2) of
                  (Inl e, w3) \<Rightarrow> (Inl (awsSetupError p state1 (AwsError (''wait for '' @ clientName @ '': '' @ e))), (fst dw2, w3))
                | (Inr ready, w3) \<Rightarrow>
                    (let state2 = state\<lparr>asStressClients := asStressClients state @
                           [client\<lparr>aiPrivateIPv4 := inPrivateIPv4 ready, aiPublicIPv4 := inPublicIPv4 ready\<rparr>]\<rparr> in
                     if inPrivateIPv4 ready = []
                     then (Inl (awsSetupError p state2 (AwsError (clientName @ '' has no private IPv4 address''))), (fst dw2, w3))
                     else (case stWrite st state2 (fst dw2) of
                             (Some e, d4) \<Rightarrow> (Inl (awsSetupError p state2 (AwsSave e)), (d4, w3))
                           | (None, d4) \<Rightarrow> create_clients am st p opts subnets is state2 (d4, w3))))))"

text \<open>Placing the stress clients.\<close>

definition add_clients :: "'w aws_manager \<Rightarrow> 'd state_ops \<Rightarrow> string \<Rightarrow> awsUpOptions \<Rightarrow> awsState \<Rightarrow> 'd \<times> 'w \<Rightarrow>
    (aws_error + awsState) \<times> 'd \<times> 'w" where
  "add_clients am st p opts state dw =
     (if uoStressClients opts > 0
      then (case amSubnets am (uoVPCID opts) (snd dw) of
              (Inl e, w1) \<Rightarrow> (Inl (awsSetupError p state (AwsError (''list subnets for stress client placement: '' @ e))), (fst dw, w1))
            | (Inr infos, w1) \<Rightarrow>
                (let azs = length (remdups (map snd infos));
                     subnets = (if uoSubnetID opts \<noteq> [] then [uoSubnetID opts] else map fst infos) in
                 if uoSubnetID opts = [] \<and> azs < 3
                 then (Inl (AwsError (''VPC '' @ uoVPCID opts @ '' spans only '' @ show_nat azs @ '' availability zones'')), (fst dw, w1))
                 else if subnets = []
                 then (Inl (awsSetupError p state (AwsError (''VPC '' @ uoVPCID opts @ '' has no subnets for stress clients''))), (fst dw, w1))
                 else create_clients am st p opts subnets [0..<nat (uoStressClients opts)] state (fst dw, w1)))
      else (Inr state, dw))"

text \<open>A script on an instance; \<open>what\<close> begins the error.\<close>

definition run_script :: "'w aws_manager \<Rightarrow> string \<Rightarrow> awsState \<Rightarrow> string \<Rightarrow> string \<Rightarrow> string \<Rightarrow> 'w \<Rightarrow> aws_error option \<times> 'w" where
  "run_script am p state what i script w =
     (case amRun am i [''bash'', ''-ceu'', script] w of
        (Inl e, w1) \<Rightarrow> (Some (awsSetupError p state (AwsError (what @ '': '' @ e))), w1)
      | (Inr (exitCode, stderr), w1) \<Rightarrow>
          if exitCode \<noteq> 0
          then (Some (awsSetupError p state (AwsError (what @ '': exit '' @ show_int exitCode @ '': '' @ TrimSpace stderr))), w1)
          else (None, w1))"

fun bootstrap_members :: "'w aws_manager \<Rightarrow> string \<Rightarrow> awsState \<Rightarrow> awsBootstrapOptions \<Rightarrow> awsInstanceState list \<Rightarrow> 'w \<Rightarrow>
    aws_error option \<times> 'w" where
  "bootstrap_members am p state bo [] w = (None, w)"
| "bootstrap_members am p state bo (x # xs) w =
     (let members = awsMembers state; m = \<lparr>mbName = aiName x, mbClientURL = ''http://'' @ aiPrivateIPv4 x @ '':2379'',
            mbPeerURL = ''http://'' @ aiPrivateIPv4 x @ '':2380''\<rparr> in
      case amGet am (aiID x) w of
        (Inl e, w1) \<Rightarrow> (Some (awsSetupError p state (AwsError (''get '' @ aiName x @ '': '' @ e))), w1)
      | (Inr _, w1) \<Rightarrow>
          (case run_script am p state (''configure '' @ aiName x) (aiID x) (awsBootstrapScript m members (asName state) bo) w1 of
             (Some e, w2) \<Rightarrow> (Some e, w2)
           | (None, w2) \<Rightarrow> bootstrap_members am p state bo xs w2))"

definition bootstrap_cluster :: "'w aws_manager \<Rightarrow> string \<Rightarrow> awsUpOptions \<Rightarrow> awsState \<Rightarrow> 'w \<Rightarrow> (aws_error + string list) \<times> 'w" where
  "bootstrap_cluster am p opts state w =
     (let bo = \<lparr>boVersion = uoVersion opts, boArch = uoArch opts, boBinaryURL = uoBinaryURL opts, boBinarySHA256 = uoBinarySHA256 opts,
                boExtraArgs = asExtraArgs state, boEnv = splitCSV (uoEnv opts), boDataVolumeSetup = uoReplaceable opts\<rparr> in
      case bootstrap_members am p state bo (asInstances state) w of
        (Some e, w1) \<Rightarrow> (Inl e, w1)
      | (None, w1) \<Rightarrow>
          (case amGet am (aiID (asInstances state ! 0)) w1 of
             (Inl e, w2) \<Rightarrow> (Inl (awsSetupError p state (AwsError (''get health-check instance: '' @ e))), w2)
           | (Inr _, w2) \<Rightarrow>
               (let endpoints = memberClientURLs (awsMembers state);
                    script = (if uoBinaryURL opts \<noteq> [] then awsHealthCurlScript endpoints else awsHealthScript endpoints) in
                case run_script am p state ''check AWS etcd health'' (aiID (asInstances state ! 0)) script w2 of
                  (Some e, w3) \<Rightarrow> (Inl e, w3)
                | (None, w3) \<Rightarrow>
                    (Inr ((''AWS etcd '' @ awsVersionLabel opts @ '' cluster is healthy; state: '' @ p) # printAWSEndpoints state), w3))))"

text \<open>After the members were created: addresses and volumes, the stress clients, the bootstrap.\<close>

definition up_created :: "'w aws_manager \<Rightarrow> 'd state_ops \<Rightarrow> string \<Rightarrow> awsUpOptions \<Rightarrow> awsState \<Rightarrow> 'd \<times> 'w \<Rightarrow>
    (aws_error + string list) \<times> 'd \<times> 'w" where
  "up_created am st p opts state dw =
     (case resolve_instances am p (uoReplaceable opts) state [] (asInstances state) (snd dw) of
        (Inl e, w3) \<Rightarrow> (Inl e, (fst dw, w3))
      | (Inr state3, w3) \<Rightarrow>
     (case stWrite st state3 (fst dw) of
        (Some e, d4) \<Rightarrow> (Inl (awsSetupError p state3 (AwsSave e)), (d4, w3))
      | (None, d4) \<Rightarrow>
     (case add_clients am st p opts state3 (d4, w3) of
        (Inl e, dw5) \<Rightarrow> (Inl e, dw5)
      | (Inr state5, dw5) \<Rightarrow>
     (case bootstrap_cluster am p opts state5 (snd dw5) of (r, w6) \<Rightarrow> (r, (fst dw5, w6))))))"

definition effective_options :: "awsUpOptions \<Rightarrow> string \<Rightarrow> awsUpOptions" where
  "effective_options opts region = opts\<lparr>uoRegion := region, uoBastionType :=
     (if uoStressClients opts > 0 \<and> uoBastionType opts = [] then defaultBastionInstanceType (uoArch opts) else uoBastionType opts)\<rparr>"

definition initial_state :: "awsUpOptions \<Rightarrow> string list \<Rightarrow> awsState" where
  "initial_state opts extraArgs =
     \<lparr>asName = uoName opts, asRegion = uoRegion opts, asVersion = uoVersion opts, asInstances = [], asStressClients = [],
      asArch = uoArch opts, asExtraArgs = extraArgs, asEnv = splitCSV (uoEnv opts), asBinaryURL = uoBinaryURL opts,
      asBinarySHA256 = uoBinarySHA256 opts, asReplaceable = uoReplaceable opts, asDev = None\<rparr>"

text \<open>From the check of the state file on.\<close>

definition up_cluster :: "'w aws_manager \<Rightarrow> 'd state_ops \<Rightarrow> string \<Rightarrow> awsUpOptions \<Rightarrow> string list \<Rightarrow> 'd \<times> 'w \<Rightarrow>
    (aws_error + string list) \<times> 'd \<times> 'w" where
  "up_cluster am st p opts extraArgs dw =
     (case amLoadConfig am (uoRegion opts) (snd dw) of
        (Inl e, w1) \<Rightarrow> (Inl (AwsError (''load AWS configuration: '' @ e)), (fst dw, w1))
      | (Inr region, w1) \<Rightarrow>
     if region = [] then (Inl (AwsError ''AWS region is required via --region or AWS configuration''), (fst dw, w1))
     else
     (let opts = effective_options opts region; state = initial_state opts extraArgs in
     (case create_instances am st p opts [0..<nat (uoMembers opts)] state (fst dw, w1) of
        (Inl e, dw2) \<Rightarrow> (Inl e, dw2)
      | (Inr state2, dw2) \<Rightarrow> up_created am st p opts state2 dw2)))"

text \<open>The command; \<open>home\<close> is the result of \<^verbatim>\<open>os.UserHomeDir\<close>, \<open>files\<close> gives the operations on the file at a path,
  \<open>extra\<close> is the result of \<open>resolveExtraArgs\<close> and \<open>version\<close> that of \<open>resolveVersion\<close>.\<close>

definition runAWSUp :: "'w aws_manager \<Rightarrow> (string \<Rightarrow> 'd state_ops) \<Rightarrow> string + string \<Rightarrow> string + string list \<Rightarrow>
    ('w \<Rightarrow> (string + string) \<times> 'w) \<Rightarrow> awsUpOptions \<Rightarrow> 'd \<times> 'w \<Rightarrow> (aws_error + string list) \<times> 'd \<times> 'w" where
  "runAWSUp am files home extra version opts dw =
     (case validateAWSUpOptions opts of Some e \<Rightarrow> (Inl (AwsError e), dw)
      | None \<Rightarrow>
     (case extra of Inl e \<Rightarrow> (Inl (AwsError e), dw)
      | Inr extraArgs \<Rightarrow>
     (case (if uoBinaryURL opts = [] then version (snd dw) else (Inr (uoVersion opts), snd dw)) of
        (Inl e, w1) \<Rightarrow> (Inl (AwsError e), (fst dw, w1))
      | (Inr v, w1) \<Rightarrow>
        let opts = opts\<lparr>uoVersion := v\<rparr> in
        if uoDryRun opts then (Inr (printAWSPlan opts), (fst dw, w1))
        else (case awsStatePath home (uoName opts) of Inl e \<Rightarrow> (Inl (AwsState e), (fst dw, w1))
              | Inr p \<Rightarrow>
                (case stStat (files p) (fst dw) of
                   (None, d2) \<Rightarrow> (Inl (AwsError (''AWS cluster state already exists at '' @ p)), (d2, w1))
                 | (Some e, d2) \<Rightarrow>
                     if e \<noteq> ENOENT then (Inl (AwsStat e), (d2, w1))
                     else up_cluster am (files p) p opts extraArgs (d2, w1))))))"

section \<open>Taking a cluster down\<close>

text \<open>Deletes the given instances one after the other; the ones that could not be deleted, and the errors.\<close>

fun delete_instances :: "'w aws_manager \<Rightarrow> awsInstanceState list \<Rightarrow> 'w \<Rightarrow> awsInstanceState list \<times> aws_error list \<times> 'w" where
  "delete_instances am [] w = ([], [], w)"
| "delete_instances am (x # xs) w =
     (case amDelete am (aiID x) w of (r, w1) \<Rightarrow>
        (case delete_instances am xs w1 of (remaining, errs, w2) \<Rightarrow>
           (case r of None \<Rightarrow> (remaining, errs, w2)
            | Some e \<Rightarrow> (x # remaining, AwsError (''delete '' @ aiName x @ '' ('' @ aiID x @ ''): '' @ e) # errs, w2))))"

fun wait_terminated :: "'w aws_manager \<Rightarrow> awsInstanceState list \<Rightarrow> 'w \<Rightarrow> aws_error option \<times> 'w" where
  "wait_terminated am [] w = (None, w)"
| "wait_terminated am (x # xs) w =
     (case amWaitForTerminated am (aiID x) w of
        (Some e, w1) \<Rightarrow> (Some (AwsError (''wait for '' @ aiName x @ '' to terminate before volume cleanup: '' @ e)), w1)
      | (None, w1) \<Rightarrow> wait_terminated am xs w1)"

fun delete_volumes :: "'w aws_manager \<Rightarrow> awsInstanceState list \<Rightarrow> 'w \<Rightarrow> aws_error option \<times> 'w" where
  "delete_volumes am [] w = (None, w)"
| "delete_volumes am (x # xs) w =
     (if aiDataVolumeID x = [] then delete_volumes am xs w
      else (case amDeleteDataVolume am (aiDataVolumeID x) w of
              (Some e, w1) \<Rightarrow> (Some (AwsError (''delete data volume '' @ aiDataVolumeID x @ '': '' @ e)), w1)
            | (None, w1) \<Rightarrow> delete_volumes am xs w1))"

definition delete_recorded_volumes :: "'w aws_manager \<Rightarrow> awsState \<Rightarrow> 'w \<Rightarrow> aws_error option \<times> 'w" where
  "delete_recorded_volumes am state w =
     (if asReplaceable state
      then (case wait_terminated am (asInstances state) w of
              (Some e, w1) \<Rightarrow> (Some e, w1) | (None, w1) \<Rightarrow> delete_volumes am (asInstances state) w1)
      else (None, w))"

text \<open>From the decoded state on.\<close>

definition down_cluster :: "'w aws_manager \<Rightarrow> 'd state_ops \<Rightarrow> string \<Rightarrow> awsState \<Rightarrow> 'd \<times> 'w \<Rightarrow> (aws_error + string) \<times> 'd \<times> 'w" where
  "down_cluster am st name state dw =
     (case amLoadConfig am (asRegion state) (snd dw) of
        (Inl e, w1) \<Rightarrow> (Inl (AwsError (''load AWS configuration: '' @ e)), (fst dw, w1))
      | (Inr _, w1) \<Rightarrow>
     (case delete_instances am (asStressClients state) w1 of (remainingClients, errs1, w2) \<Rightarrow>
     (case delete_instances am (asInstances state) w2 of (remaining, errs2, w3) \<Rightarrow>
        if remaining \<noteq> [] \<or> remainingClients \<noteq> []
        then (case stWrite st (state\<lparr>asStressClients := remainingClients, asInstances := remaining\<rparr>) (fst dw) of
                (Some e, d4) \<Rightarrow> (Inl (AwsJoin (errs1 @ errs2 @ [AwsSave e])), (d4, w3))
              | (None, d4) \<Rightarrow> (Inl (AwsJoin (errs1 @ errs2)), (d4, w3)))
        else (case delete_recorded_volumes am state w3 of
                (Some e, w4) \<Rightarrow> (Inl e, (fst dw, w4))
              | (None, w4) \<Rightarrow>
                  (case stRemove st (fst dw) of
                     (Some e, d5) \<Rightarrow> if e \<noteq> ENOENT then (Inl (AwsRemove e), (d5, w4))
                                     else (Inr (''terminated AWS etcd cluster '' @ name), (d5, w4))
                   | (None, d5) \<Rightarrow> (Inr (''terminated AWS etcd cluster '' @ name), (d5, w4)))))))"

text \<open>\<open>devDown\<close> is the command for a dev group.\<close>

definition runAWSDown :: "'w aws_manager \<Rightarrow> (string \<Rightarrow> 'd state_ops) \<Rightarrow> string + string \<Rightarrow>
    (string \<Rightarrow> 'd \<times> 'w \<Rightarrow> (aws_error + string) \<times> 'd \<times> 'w) \<Rightarrow> string \<Rightarrow> 'd \<times> 'w \<Rightarrow> (aws_error + string) \<times> 'd \<times> 'w" where
  "runAWSDown am files home devDown name dw =
     (case validateClusterName name of Some e \<Rightarrow> (Inl (AwsError e), dw)
      | None \<Rightarrow>
     (case awsStatePath home name of Inl e \<Rightarrow> (Inl (AwsState e), dw)
      | Inr p \<Rightarrow>
     (case stRead (files p) (fst dw) of
        (Inl (ErrReadState q ENOENT), d1) \<Rightarrow> (Inr (''no AWS cluster state for '' @ name @ ''; nothing to do''), (d1, snd dw))
      | (Inl e, d1) \<Rightarrow> (Inl (AwsState e), (d1, snd dw))
      | (Inr state, d1) \<Rightarrow>
          if asDev state \<noteq> None then devDown name (d1, snd dw)
          else down_cluster am (files p) name state (d1, snd dw))))"

fun status_lines :: "'w aws_manager \<Rightarrow> awsInstanceState list \<Rightarrow> 'w \<Rightarrow> (aws_error option \<times> string list) \<times> 'w" where
  "status_lines am [] w = ((None, []), w)"
| "status_lines am (x # xs) w =
     (case amGet am (aiID x) w of
        (Inl e, w1) \<Rightarrow> ((Some (AwsError (''get '' @ aiName x @ '' ('' @ aiID x @ ''): '' @ e)), []), w1)
      | (Inr inst, w1) \<Rightarrow>
          (case status_lines am xs w1 of ((r, ls), w2) \<Rightarrow>
             ((r, Join [CHR 0x09] [aiName x, aiID x, inState inst, inPrivateIPv4 inst] # ls), w2)))"

definition runAWSStatus :: "'w aws_manager \<Rightarrow> (string \<Rightarrow> 'd state_ops) \<Rightarrow> string + string \<Rightarrow>
    (string \<Rightarrow> 'd \<times> 'w \<Rightarrow> (aws_error option \<times> string list) \<times> 'd \<times> 'w) \<Rightarrow> string \<Rightarrow> 'd \<times> 'w \<Rightarrow>
    (aws_error option \<times> string list) \<times> 'd \<times> 'w" where
  "runAWSStatus am files home devStatus name dw =
     (case validateClusterName name of Some e \<Rightarrow> ((Some (AwsError e), []), dw)
      | None \<Rightarrow>
     (case awsStatePath home name of Inl e \<Rightarrow> ((Some (AwsState e), []), dw)
      | Inr p \<Rightarrow>
     (case stRead (files p) (fst dw) of
        (Inl e, d1) \<Rightarrow> ((Some (AwsState e), []), (d1, snd dw))
      | (Inr state, d1) \<Rightarrow>
          if asDev state \<noteq> None then devStatus name (d1, snd dw)
          else (case amLoadConfig am (asRegion state) (snd dw) of
                  (Inl e, w1) \<Rightarrow> ((Some (AwsError (''load AWS configuration: '' @ e)), []), (d1, w1))
                | (Inr _, w1) \<Rightarrow>
                    (case status_lines am (asInstances state @ asStressClients state) w1 of (r, w2) \<Rightarrow> (r, (d1, w2)))))))"

section \<open>Replacing a member\<close>

definition awsClientEndpoints :: "awsState \<Rightarrow> string + string list" where
  "awsClientEndpoints state =
     (case find (\<lambda>i. aiPrivateIPv4 i = []) (asInstances state) of
        Some i \<Rightarrow> Inl (aiName i @ '' has no private IP'')
      | None \<Rightarrow> Inr (map (\<lambda>i. ''http://'' @ aiPrivateIPv4 i @ '':2379'') (asInstances state)))"

text \<open>The etcd client that finds the leader: \<open>lcStatus\<close> answers with the leader's identifier, \<open>lcMembers\<close> with
  the identifiers and names of the members.\<close>

record 'w leader_client =
  lcNew :: "string list \<Rightarrow> 'w \<Rightarrow> string option \<times> 'w"
  lcStatus :: "string \<Rightarrow> 'w \<Rightarrow> (string + nat) \<times> 'w"
  lcMembers :: "'w \<Rightarrow> (string + (nat \<times> string) list) \<times> 'w"

fun first_leader :: "'w leader_client \<Rightarrow> string list \<Rightarrow> 'w \<Rightarrow> nat \<times> 'w" where
  "first_leader lc [] w = (0, w)"
| "first_leader lc (ep # eps) w =
     (case lcStatus lc ep w of (Inl e, w1) \<Rightarrow> first_leader lc eps w1 | (Inr leader, w1) \<Rightarrow> (leader, w1))"

fun index_of :: "string \<Rightarrow> awsInstanceState list \<Rightarrow> nat option" where
  "index_of name [] = None"
| "index_of name (x # xs) = (if aiName x = name then Some 0 else map_option Suc (index_of name xs))"

definition awsReplaceMemberIndex :: "'w leader_client \<Rightarrow> awsState \<Rightarrow> string \<Rightarrow> 'w \<Rightarrow> (string + nat) \<times> 'w" where
  "awsReplaceMemberIndex lc state mb w =
     (let m = TrimSpace mb in
      if m \<noteq> [] \<and> m \<noteq> ''leader''
      then (case index_of m (asInstances state) of
              Some i \<Rightarrow> (Inr i, w) | None \<Rightarrow> (Inl (''member '' @ m @ '' not found in cluster '' @ asName state), w))
      else (case awsClientEndpoints state of Inl e \<Rightarrow> (Inl e, w)
            | Inr endpoints \<Rightarrow>
      (case lcNew lc endpoints w of (Some e, w1) \<Rightarrow> (Inl (''create etcd client: '' @ e), w1)
       | (None, w1) \<Rightarrow>
      (case first_leader lc endpoints w1 of (leaderID, w2) \<Rightarrow>
         if leaderID = 0 then (Inl ''cluster has no leader to replace'', w2)
         else (case lcMembers lc w2 of (Inl e, w3) \<Rightarrow> (Inl (''list members: '' @ e), w3)
               | (Inr ms, w3) \<Rightarrow>
                   (case find (\<lambda>m. fst m = leaderID) ms of
                      None \<Rightarrow> (Inl (''leader id '' @ show_nat leaderID @ '' not found in membership''), w3)
                    | Some (_, n) \<Rightarrow>
                        (case index_of n (asInstances state) of
                           Some i \<Rightarrow> (Inr i, w3)
                         | None \<Rightarrow> (Inl (''leader '' @ n @ '' is not a member of cluster '' @ asName state), w3))))))))"

definition set_instance :: "awsState \<Rightarrow> nat \<Rightarrow> (awsInstanceState \<Rightarrow> awsInstanceState) \<Rightarrow> awsState" where
  "set_instance state idx f = state\<lparr>asInstances := (asInstances state)[idx := f (asInstances state ! idx)]\<rparr>"

text \<open>The caller's state shares its instances with the callee's, so the changed state is part of the result.\<close>

definition awsReplaceMember :: "'w aws_manager \<Rightarrow> 'd state_ops \<Rightarrow> string \<Rightarrow> awsState \<Rightarrow> nat \<Rightarrow> 'd \<times> 'w \<Rightarrow>
    (aws_error + aws_instance \<times> awsState) \<times> 'd \<times> 'w" where
  "awsReplaceMember am st p state idx dw =
     (let saved = asInstances state ! idx in
      case amReplaceMachine am (aiID saved) (snd dw) of
        (Inl e, w1) \<Rightarrow> (Inl (AwsError (''replace '' @ aiName saved @ '': '' @ e)), (fst dw, w1))
      | (Inr newID, w1) \<Rightarrow>
          if newID = [] then (Inl (AwsError (''replace '' @ aiName saved @ '': the provider returned no replacement handle'')), (fst dw, w1))
          else
     (let state1 = set_instance state idx (\<lambda>i. i\<lparr>aiID := newID\<rparr>) in
      case stWrite st state1 (fst dw) of
        (Some e, d2) \<Rightarrow> (Inl (AwsUnrecorded e newID []), (d2, w1))
      | (None, d2) \<Rightarrow>
     (case amWaitForReady am newID w1 of
        (Inl e, w3) \<Rightarrow> (Inl (awsSetupError p state1 (AwsError (''wait for replacement '' @ newID @ '': '' @ e))), (d2, w3))
      | (Inr inst, w3) \<Rightarrow>
     (let state2 = set_instance state1 idx (\<lambda>i. i\<lparr>aiPrivateIPv4 := inPrivateIPv4 inst, aiPublicIPv4 := inPublicIPv4 inst\<rparr>) in
      case stWrite st state2 d2 of
        (Some e, d4) \<Rightarrow> (Inl (awsSetupError p state2 (AwsSave e)), (d4, w3))
      | (None, d4) \<Rightarrow>
     (let members = awsMembers state2;
          bo = \<lparr>boVersion = asVersion state, boArch = (if asArch state = [] then ''amd64'' else asArch state), boBinaryURL = [], boBinarySHA256 = [],
                boExtraArgs = asExtraArgs state, boEnv = asEnv state, boDataVolumeSetup = True\<rparr> in
      case run_script am p state2 (''configure replacement '' @ aiName saved) newID
             (awsBootstrapScript (members ! idx) members (asName state) bo) w3 of
        (Some e, w5) \<Rightarrow> (Inl e, (d4, w5))
      | (None, w5) \<Rightarrow>
     (case run_script am p state2 ''check AWS etcd health'' newID (awsHealthScript (memberClientURLs members)) w5 of
        (Some e, w6) \<Rightarrow> (Inl e, (d4, w6))
      | (None, w6) \<Rightarrow> (Inr (inst, state2), (d4, w6))))))))"

definition runAWSReplace :: "'w aws_manager \<Rightarrow> 'w leader_client \<Rightarrow> (string \<Rightarrow> 'd state_ops) \<Rightarrow> string + string \<Rightarrow> string \<Rightarrow> string \<Rightarrow>
    'd \<times> 'w \<Rightarrow> (aws_error + string) \<times> 'd \<times> 'w" where
  "runAWSReplace am lc files home name mb dw =
     (case validateClusterName name of Some e \<Rightarrow> (Inl (AwsError e), dw)
      | None \<Rightarrow>
     (case awsStatePath home name of Inl e \<Rightarrow> (Inl (AwsState e), dw)
      | Inr p \<Rightarrow>
     (case stRead (files p) (fst dw) of
        (Inl e, d1) \<Rightarrow> (Inl (AwsState e), (d1, snd dw))
      | (Inr state, d1) \<Rightarrow>
          if asDev state \<noteq> None then (Inl (AwsError (asName state @ '' is a dev group, not an etcd cluster'')), (d1, snd dw))
          else if \<not> asReplaceable state
          then (Inl (AwsError (''cluster '' @ asName state @ '' was not created with --replaceable'')), (d1, snd dw))
          else if asBinaryURL state \<noteq> []
          then (Inl (AwsError (''cluster '' @ asName state @ '' runs a custom binary'')), (d1, snd dw))
          else
     (case amLoadConfig am (asRegion state) (snd dw) of
        (Inl e, w2) \<Rightarrow> (Inl (AwsError (''load AWS configuration: '' @ e)), (d1, w2))
      | (Inr _, w2) \<Rightarrow>
     (case awsReplaceMemberIndex lc state mb w2 of
        (Inl e, w3) \<Rightarrow> (Inl (AwsError e), (d1, w3))
      | (Inr idx, w3) \<Rightarrow>
     (let saved = asInstances state ! idx in
      case amDataVolumeID am (aiID saved) w3 of
        (Inl e, w4) \<Rightarrow> (Inl (AwsError (''check '' @ aiName saved @ '' data volume: '' @ e)), (d1, w4))
      | (Inr volumeID, w4) \<Rightarrow>
          if volumeID = [] then (Inl (AwsError (aiName saved @ '' has no data volume; recreate the cluster with --replaceable'')), (d1, w4))
          else (case awsReplaceMember am (files p) p state idx (d1, w4) of
                  (Inl e, dw5) \<Rightarrow> (Inl e, dw5)
                | (Inr (inst, state'), dw5) \<Rightarrow>
                    (Inr (''replaced '' @ aiName saved @ '': '' @ aiID saved @ '' -> '' @ aiID (asInstances state' ! idx) @ ''; cluster is healthy''), dw5))))))))"

end
