(* ===== verification/AwsSafety.thy ===== *)
theory AwsSafety
  imports AwsCluster
begin

text \<open>
  What the AWS commands do to the cloud and to the state file. The manager is instrumented with a log of
  the instances it created, deleted and replaced and the volumes it deleted; an instance is \<^emph>\<open>live\<close> when
  it was created and not deleted. The commands' client lemmas are proved in the locale \<open>state_store\<close>
  and reach the file through its interpretation \<open>aws_file\<close>: no live instance is ever unknown, it is
  in the saved state or named in the error.
\<close>

datatype cloud_event = Created string | Deleted string | VolumeDeleted string | Replaced string string

type_synonym 'w tracked = "'w \<times> cloud_event list"

definition quiet :: "('w \<Rightarrow> 'r \<times> 'w) \<Rightarrow> 'w tracked \<Rightarrow> 'r \<times> 'w tracked" where
  "quiet f we = (case f (fst we) of (r, w') \<Rightarrow> (r, (w', snd we)))"

definition noisy :: "('w \<Rightarrow> 'r \<times> 'w) \<Rightarrow> ('r \<Rightarrow> cloud_event list) \<Rightarrow> 'w tracked \<Rightarrow> 'r \<times> 'w tracked" where
  "noisy f ev we = (case f (fst we) of (r, w') \<Rightarrow> (r, (w', snd we @ ev r)))"

definition if_ok :: "cloud_event \<Rightarrow> string option \<Rightarrow> cloud_event list" where
  "if_ok e r = (case r of None \<Rightarrow> [e] | Some _ \<Rightarrow> [])"

definition tracked :: "'w aws_manager \<Rightarrow> 'w tracked aws_manager" where
  "tracked am =
     \<lparr>amLoadConfig = (\<lambda>x. quiet (amLoadConfig am x)),
      amCreate = (\<lambda>rq. noisy (amCreate am rq) (\<lambda>r. case r of Inl _ \<Rightarrow> [] | Inr i \<Rightarrow> [Created (inID i)])),
      amDelete = (\<lambda>i. noisy (amDelete am i) (if_ok (Deleted i))),
      amWaitForReady = (\<lambda>x. quiet (amWaitForReady am x)), amGet = (\<lambda>x. quiet (amGet am x)),
      amRun = (\<lambda>i script. quiet (amRun am i script)), amDataVolumeID = (\<lambda>i. quiet (amDataVolumeID am i)),
      amWaitForTerminated = (\<lambda>i. quiet (amWaitForTerminated am i)),
      amDeleteDataVolume = (\<lambda>v. noisy (amDeleteDataVolume am v) (if_ok (VolumeDeleted v))),
      amSubnets = (\<lambda>v. quiet (amSubnets am v)),
      amReplaceMachine = (\<lambda>i. noisy (amReplaceMachine am i) (\<lambda>r. case r of Inl _ \<Rightarrow> [] | Inr n \<Rightarrow> [Replaced i n]))\<rparr>"

lemma tracked_quiet:
  "amLoadConfig (tracked am) x we = (r, we') \<Longrightarrow> snd we' = snd we"
  "amWaitForReady (tracked am) x we = (q, we') \<Longrightarrow> snd we' = snd we"
  "amGet (tracked am) x we = (q, we') \<Longrightarrow> snd we' = snd we"
  "amRun (tracked am) x sc we = (u, we') \<Longrightarrow> snd we' = snd we"
  "amDataVolumeID (tracked am) x we = (r, we') \<Longrightarrow> snd we' = snd we"
  "amWaitForTerminated (tracked am) x we = (o1, we') \<Longrightarrow> snd we' = snd we"
  "amSubnets (tracked am) x we = (s, we') \<Longrightarrow> snd we' = snd we"
  by (auto simp: tracked_def quiet_def split: prod.splits)

lemma tracked_noisy:
  "amCreate (tracked am) rq we = (q, we') \<Longrightarrow> snd we' = snd we @ (case q of Inl _ \<Rightarrow> [] | Inr i \<Rightarrow> [Created (inID i)])"
  "amDelete (tracked am) i we = (e, we') \<Longrightarrow> snd we' = snd we @ if_ok (Deleted i) e"
  "amDeleteDataVolume (tracked am) v we = (e, we') \<Longrightarrow> snd we' = snd we @ if_ok (VolumeDeleted v) e"
  "amReplaceMachine (tracked am) i we = (r, we') \<Longrightarrow> snd we' = snd we @ (case r of Inl _ \<Rightarrow> [] | Inr n \<Rightarrow> [Replaced i n])"
  by (auto simp: tracked_def noisy_def split: prod.splits)

fun live_step :: "string set \<Rightarrow> cloud_event \<Rightarrow> string set" where
  "live_step S (Created i) = insert i S"
| "live_step S (Deleted i) = S - {i}"
| "live_step S _ = S"

definition live :: "cloud_event list \<Rightarrow> string set" where
  "live es = foldl live_step {} es"

lemma live_simps [simp]: "live [] = {}" "live (es @ [e]) = live_step (live es) e"
  by (simp_all add: live_def)

definition ids :: "awsState \<Rightarrow> string set" where
  "ids st = aiID ` set (asInstances st @ asStressClients st)"

fun unrecorded :: "aws_error \<Rightarrow> string set" where
  "unrecorded (AwsUnrecorded e i d) = {i}"
| "unrecorded (AwsSetup e p n) = unrecorded e"
| "unrecorded _ = {}"

lemma unrecorded_setup [simp]: "unrecorded (awsSetupError p st e) = unrecorded e"
  by (simp add: awsSetupError_def)

section \<open>Creating\<close>

context state_store
begin

definition recorded :: "'v \<Rightarrow> string set \<Rightarrow> bool" where
  "recorded v S \<longleftrightarrow> S = {} \<or> (\<exists>st. saved v st \<and> S \<subseteq> ids st)"

lemma recorded_mono: "recorded v S \<Longrightarrow> T \<subseteq> S \<Longrightarrow> recorded v T"
  by (auto simp: recorded_def)

lemma recorded_saved: "saved v st \<Longrightarrow> S \<subseteq> ids st \<Longrightarrow> recorded v S"
  by (auto simp: recorded_def)

lemma save_created_recorded:
  assumes "invar d" "recorded (view d) (live es)" "insert i (live es) \<subseteq> ids state1"
    and "save_created (tracked am) ops state1 i (d, (w, es @ [Created i])) = (r, (d', (w', es')))"
  shows "invar d' \<and> (case r of None \<Rightarrow> es' = es @ [Created i] \<and> saved (view d') state1
    | Some e \<Rightarrow> recorded (view d') (live es' - unrecorded e))"
proof -
  obtain e d1 where wr: "stWrite ops state1 d = (e, d1)" by (metis surj_pair)
  note law = write_law [OF assms(1) wr]
  obtain de we where del: "amDelete (tracked am) i (w, es @ [Created i]) = (de, we)" by (metis surj_pair)
  note ev = tracked_noisy(2) [OF del]
  show ?thesis
  proof (cases e)
    case None
    with assms(4) wr law show ?thesis by (auto simp: save_created_def)
  next
    case (Some x)
    have "d' = d1" "es' = snd we" "r = (case de of None \<Rightarrow> Some (AwsSave x) | Some y \<Rightarrow> Some (AwsUnrecorded x i y))"
      using assms(4) wr Some del by (auto simp: save_created_def split: option.splits)
    moreover have "recorded (view d1) (live es)" "invar d1" using law Some assms(2) by auto
    ultimately show ?thesis using ev
      by (cases de) (auto simp: if_ok_def live_def intro: recorded_mono)
  qed
qed

lemma create_instances_recorded:
  "invar d \<Longrightarrow> live es \<subseteq> ids state \<Longrightarrow> recorded (view d) (live es) \<Longrightarrow>
   create_instances (tracked am) ops p opts js state (d, (w, es)) = (r, (d', (w', es'))) \<Longrightarrow>
   invar d' \<and> (case r of Inl e \<Rightarrow> recorded (view d') (live es' - unrecorded e)
     | Inr state' \<Rightarrow> live es' \<subseteq> ids state' \<and> recorded (view d') (live es'))"
proof (induction js arbitrary: d es state w)
  case (Cons j js)
  let ?name = "uoName opts @ ''-'' @ show_nat (j + 1)"
  obtain q w1 es1 where c: "amCreate (tracked am) (member_request opts ?name) (w, es) = (q, (w1, es1))" by (metis surj_pair)
  note ev = tracked_noisy(1) [OF c]
  show ?case
  proof (cases q)
    case (Inl e)
    with Cons.prems c ev show ?thesis by (auto simp: Let_def intro: recorded_mono)
  next
    case (Inr inst)
    let ?state1 = "state\<lparr>asInstances := asInstances state @ [\<lparr>aiName = ?name, aiID = inID inst, aiPrivateIPv4 = inPrivateIPv4 inst,
      aiPublicIPv4 = inPublicIPv4 inst, aiSubnetID = [], aiDataVolumeID = []\<rparr>]\<rparr>"
    have es1: "es1 = es @ [Created (inID inst)]" using ev Inr by simp
    have sub: "insert (inID inst) (live es) \<subseteq> ids ?state1" using Cons.prems(2) by (auto simp: ids_def)
    obtain s d2 w2 es2 where sc: "save_created (tracked am) ops ?state1 (inID inst) (d, (w1, es1)) = (s, (d2, (w2, es2)))"
      by (metis surj_pair)
    note saved = save_created_recorded [OF Cons.prems(1,3) sub sc [unfolded es1]]
    show ?thesis
    proof (cases s)
      case (Some e)
      with Cons.prems(4) c Inr sc saved show ?thesis by (auto simp: Let_def)
    next
      case None
      with saved have s2: "es2 = es @ [Created (inID inst)]" "saved (view d2) ?state1" "invar d2" by auto
      have "live es2 \<subseteq> ids ?state1" using sub s2(1) by simp
      moreover have "recorded (view d2) (live es2)" using s2(2) calculation by (rule recorded_saved)
      moreover have "create_instances (tracked am) ops p opts js ?state1 (d2, (w2, es2)) = (r, (d', (w', es')))"
        using Cons.prems(4) c Inr sc None by (simp add: Let_def)
      ultimately show ?thesis using Cons.IH s2(3) by blast
    qed
  qed
qed (auto simp: Let_def)

lemma create_clients_recorded:
  "invar d \<Longrightarrow> live es \<subseteq> ids state \<Longrightarrow> recorded (view d) (live es) \<Longrightarrow>
   create_clients (tracked am) ops p opts subnets js state (d, (w, es)) = (r, (d', (w', es'))) \<Longrightarrow>
   invar d' \<and> (case r of Inl e \<Rightarrow> recorded (view d') (live es' - unrecorded e)
     | Inr state' \<Rightarrow> live es' \<subseteq> ids state' \<and> recorded (view d') (live es'))"
proof (induction js arbitrary: d es state w)
  case (Cons j js)
  let ?name = "uoName opts @ ''-stress-client-'' @ show_nat (j + 1)" and ?subnet = "subnets ! (j mod length subnets)"
  obtain q w1 es1 where c: "amCreate (tracked am) (client_request opts ?name ?subnet) (w, es) = (q, (w1, es1))" by (metis surj_pair)
  note ev = tracked_noisy(1) [OF c]
  show ?case
  proof (cases q)
    case (Inl e)
    with Cons.prems c ev show ?thesis by (auto simp: Let_def intro: recorded_mono)
  next
    case (Inr inst)
    let ?client = "\<lparr>aiName = ?name, aiID = inID inst, aiPrivateIPv4 = [], aiPublicIPv4 = [], aiSubnetID = ?subnet, aiDataVolumeID = []\<rparr>"
    let ?state1 = "state\<lparr>asStressClients := asStressClients state @ [?client]\<rparr>"
    have es1: "es1 = es @ [Created (inID inst)]" using ev Inr by simp
    have sub: "insert (inID inst) (live es) \<subseteq> ids ?state1" using Cons.prems(2) by (auto simp: ids_def)
    obtain s d2 w2 es2 where sc: "save_created (tracked am) ops ?state1 (inID inst) (d, (w1, es1)) = (s, (d2, (w2, es2)))"
      by (metis surj_pair)
    note saved = save_created_recorded [OF Cons.prems(1,3) sub sc [unfolded es1]]
    show ?thesis
    proof (cases s)
      case (Some e)
      with Cons.prems(4) c Inr sc saved show ?thesis by (auto simp: Let_def)
    next
      case None
      with saved have s2: "es2 = es @ [Created (inID inst)]" "saved (view d2) ?state1" "invar d2" by auto
      have l2: "live es2 \<subseteq> ids ?state1" using sub s2(1) by simp
      have r2: "recorded (view d2) (live es2)" using s2(2) l2 by (rule recorded_saved)
      obtain g w3 es3 where wr: "amWaitForReady (tracked am) (inID inst) (w2, es2) = (g, (w3, es3))" by (metis surj_pair)
      have es3: "es3 = es2" using tracked_quiet(2) [OF wr] by simp
      show ?thesis
      proof (cases g)
        case (Inl e)
        with Cons.prems(4) c Inr sc None wr es3 r2 s2(3) show ?thesis by (auto simp: Let_def)
      next
        case g: (Inr rd)
        let ?state2 = "state\<lparr>asStressClients := asStressClients state @
          [?client\<lparr>aiPrivateIPv4 := inPrivateIPv4 rd, aiPublicIPv4 := inPublicIPv4 rd\<rparr>]\<rparr>"
        have "ids ?state2 = ids ?state1" by (simp add: ids_def)
        obtain e4 d4 where w4: "stWrite ops ?state2 d2 = (e4, d4)" by (metis surj_pair)
        note law = write_law [OF s2(3) w4]
        have keep: "recorded (view d4) (live es2)"
          using law r2 l2 \<open>ids ?state2 = ids ?state1\<close> recorded_saved [of "view d4" ?state2] by (auto split: if_splits)
        show ?thesis
        proof (cases "inPrivateIPv4 rd = [] \<or> e4 \<noteq> None")
          case True
          with Cons.prems(4) c Inr sc None wr g es3 w4 r2 s2(3) keep law show ?thesis
            by (cases "inPrivateIPv4 rd = []") (auto simp: Let_def)
        next
          case False
          then have "create_clients (tracked am) ops p opts subnets js ?state2 (d4, (w3, es2)) = (r, (d', (w', es')))"
            using Cons.prems(4) c Inr sc None wr g es3 w4 by (simp add: Let_def)
          then show ?thesis using Cons.IH [of d4 es2 ?state2 w3] law keep l2 \<open>ids ?state2 = ids ?state1\<close> by blast
        qed
      qed
    qed
  qed
qed (auto simp: Let_def)

end

lemma resolve_instances_ids:
  "resolve_instances (tracked am) p rep state ready xs we = (r, we') \<Longrightarrow>
   snd we' = snd we \<and> (case r of Inl e \<Rightarrow> unrecorded e = {}
     | Inr state' \<Rightarrow> map aiID (asInstances state') = map aiID (ready @ xs) \<and> asStressClients state' = asStressClients state)"
proof (induction xs arbitrary: ready we)
  case (Cons x xs)
  obtain q we1 where c: "amWaitForReady (tracked am) (aiID x) we = (q, we1)" by (metis surj_pair)
  note ev = tracked_quiet(2) [OF c]
  obtain v we2 where dv: "amDataVolumeID (tracked am) (aiID x) we1 = (v, we2)" by (metis surj_pair)
  note ev2 = tracked_quiet(5) [OF dv]
  show ?case
  proof (cases q)
    case (Inl e)
    with Cons.prems c ev show ?thesis by auto
  next
    case (Inr inst)
    let ?x1 = "x\<lparr>aiPrivateIPv4 := inPrivateIPv4 inst, aiPublicIPv4 := inPublicIPv4 inst\<rparr>"
    consider "inPrivateIPv4 inst = [] \<or> rep \<and> (\<exists>e. v = Inl e)"
      | "inPrivateIPv4 inst \<noteq> []" "\<not> rep" | vol where "inPrivateIPv4 inst \<noteq> []" "rep" "v = Inr vol"
      by (cases v) auto
    then show ?thesis
    proof cases
      case 1
      with Cons.prems c Inr ev dv ev2 show ?thesis by (cases "inPrivateIPv4 inst = []") (auto simp: Let_def)
    next
      case 2
      with Cons.prems c Inr have "resolve_instances (tracked am) p rep state (ready @ [?x1]) xs we1 = (r, we')" by (simp add: Let_def)
      from Cons.IH [OF this] ev show ?thesis by (auto split: sum.splits)
    next
      case 3
      with Cons.prems c Inr dv have "resolve_instances (tracked am) p rep state (ready @ [?x1\<lparr>aiDataVolumeID := vol\<rparr>]) xs we2 = (r, we')"
        by (simp add: Let_def)
      from Cons.IH [OF this] ev ev2 show ?thesis by (auto split: sum.splits)
    qed
  qed
qed auto

lemma run_script_quiet: "run_script (tracked am) p st what i sc we = (r, we') \<Longrightarrow> snd we' = snd we \<and> (\<forall>e. r = Some e \<longrightarrow> unrecorded e = {})"
proof -
  assume a: "run_script (tracked am) p st what i sc we = (r, we')"
  obtain q we1 where c: "amRun (tracked am) i [''bash'', ''-ceu'', sc] we = (q, we1)" by (metis surj_pair)
  from a c tracked_quiet(4) [OF c] show ?thesis by (auto simp: run_script_def split: sum.splits prod.splits if_splits)
qed

lemma bootstrap_members_quiet:
  "bootstrap_members (tracked am) p st bo xs we = (r, we') \<Longrightarrow> snd we' = snd we \<and> (\<forall>e. r = Some e \<longrightarrow> unrecorded e = {})"
proof (induction xs arbitrary: we)
  case (Cons x xs)
  obtain q we1 where g: "amGet (tracked am) (aiID x) we = (q, we1)" by (metis surj_pair)
  note ev = tracked_quiet(3) [OF g]
  show ?case
  proof (cases q)
    case (Inl e)
    with Cons.prems g ev show ?thesis by (auto simp: Let_def)
  next
    case (Inr inst)
    let ?m = "\<lparr>mbName = aiName x, mbClientURL = ''http://'' @ aiPrivateIPv4 x @ '':2379'', mbPeerURL = ''http://'' @ aiPrivateIPv4 x @ '':2380''\<rparr>"
    obtain s we2 where rs: "run_script (tracked am) p st (''configure '' @ aiName x) (aiID x)
        (awsBootstrapScript ?m (awsMembers st) (asName st) bo) we1 = (s, we2)" by (metis surj_pair)
    note ev2 = run_script_quiet [OF rs]
    show ?thesis
    proof (cases s)
      case (Some e)
      with Cons.prems g Inr rs ev ev2 show ?thesis by (auto simp: Let_def)
    next
      case None
      with Cons.prems g Inr rs have "bootstrap_members (tracked am) p st bo xs we2 = (r, we')" by (simp add: Let_def)
      from Cons.IH [OF this] ev ev2 show ?thesis by simp
    qed
  qed
qed simp

lemma bootstrap_cluster_quiet:
  assumes "bootstrap_cluster (tracked am) p opts st we = (r, we')"
  shows "snd we' = snd we \<and> (\<forall>e. r = Inl e \<longrightarrow> unrecorded e = {})"
proof -
  let ?bo = "\<lparr>boVersion = uoVersion opts, boArch = uoArch opts, boBinaryURL = uoBinaryURL opts, boBinarySHA256 = uoBinarySHA256 opts,
    boExtraArgs = asExtraArgs st, boEnv = splitCSV (uoEnv opts), boDataVolumeSetup = uoReplaceable opts\<rparr>"
  let ?i = "aiID (asInstances st ! 0)" and ?eps = "memberClientURLs (awsMembers st)"
  obtain s we1 where b: "bootstrap_members (tracked am) p st ?bo (asInstances st) we = (s, we1)" by (metis surj_pair)
  obtain q we2 where g: "amGet (tracked am) ?i we1 = (q, we2)" by (metis surj_pair)
  obtain u we3 where rs: "run_script (tracked am) p st ''check AWS etcd health'' ?i
      (if uoBinaryURL opts \<noteq> [] then awsHealthCurlScript ?eps else awsHealthScript ?eps) we2 = (u, we3)" by (metis surj_pair)
  from assms b g rs bootstrap_members_quiet [OF b] tracked_quiet(3) [OF g] run_script_quiet [OF rs] show ?thesis
    by (cases s; cases q; cases u) (auto simp: bootstrap_cluster_def Let_def)
qed

context state_store
begin

lemma add_clients_recorded:
  assumes "invar d" "live es \<subseteq> ids state" "recorded (view d) (live es)"
    and "add_clients (tracked am) ops p opts state (d, (w, es)) = (r, (d', (w', es')))"
  shows "invar d' \<and> (case r of Inl e \<Rightarrow> recorded (view d') (live es' - unrecorded e)
     | Inr state' \<Rightarrow> live es' \<subseteq> ids state' \<and> recorded (view d') (live es'))"
proof (cases "uoStressClients opts > 0")
  case True
  obtain q w1 es1 where sn: "amSubnets (tracked am) (uoVPCID opts) (w, es) = (q, (w1, es1))" by (metis surj_pair)
  have es1: "es1 = es" using tracked_quiet(7) [OF sn] by simp
  show ?thesis
  proof (cases q)
    case (Inl e)
    with assms True sn es1 show ?thesis by (auto simp: add_clients_def)
  next
    case (Inr infos)
    let ?subnets = "if uoSubnetID opts \<noteq> [] then [uoSubnetID opts] else map fst infos"
    show ?thesis
    proof (cases "uoSubnetID opts = [] \<and> length (remdups (map snd infos)) < 3 \<or> ?subnets = []")
      case refused: True
      then have "\<exists>e. r = Inl e \<and> unrecorded e = {} \<and> (d', (w', es')) = (d, (w1, es))"
        using assms(4) True sn es1 Inr
        by (cases "uoSubnetID opts = [] \<and> length (remdups (map snd infos)) < 3") (auto simp: add_clients_def Let_def split: if_splits)
      with assms show ?thesis by auto
    next
      case False
      with assms(4) True sn es1 Inr
      have "create_clients (tracked am) ops p opts ?subnets [0..<nat (uoStressClients opts)] state (d, (w1, es)) = (r, (d', (w', es')))"
        by (simp only: add_clients_def Let_def) (auto split: if_splits)
      from create_clients_recorded [OF assms(1-3) this] show ?thesis .
    qed
  qed
next
  case False
  with assms show ?thesis by (auto simp: add_clients_def)
qed

lemma up_created_recorded:
  assumes "invar d" "live es \<subseteq> ids state" "recorded (view d) (live es)"
    and "up_created (tracked am) ops p opts state (d, (w, es)) = (r, (d', (w', es')))"
  shows "invar d' \<and> recorded (view d') (live es' - (case r of Inl e \<Rightarrow> unrecorded e | Inr _ \<Rightarrow> {}))"
proof -
  obtain q w3 es3 where rs: "resolve_instances (tracked am) p (uoReplaceable opts) state [] (asInstances state) (w, es) = (q, (w3, es3))"
    by (metis surj_pair)
  note res = resolve_instances_ids [OF rs]
  show ?thesis
  proof (cases q)
    case (Inl e)
    with assms rs res show ?thesis by (auto simp: up_created_def)
  next
    case (Inr s3)
    have ids3: "ids s3 = ids state" using res Inr by (simp add: ids_def image_Un) (metis list.set_map)
    have es3: "es3 = es" using res by simp
    obtain e4 d4 where w4: "stWrite ops s3 d = (e4, d4)" by (metis surj_pair)
    note law = write_law [OF assms(1) w4]
    have keep: "recorded (view d4) (live es)" using law assms(2,3) ids3 recorded_saved [of "view d4" s3] by (auto split: if_splits)
    show ?thesis
    proof (cases e4)
      case (Some x)
      with assms(4) rs Inr es3 w4 law keep show ?thesis by (auto simp: up_created_def)
    next
      case None
      obtain q5 d5 w5 es5 where ac: "add_clients (tracked am) ops p opts s3 (d4, (w3, es)) = (q5, (d5, (w5, es5)))" by (metis surj_pair)
      have ac5: "invar d5 \<and> (case q5 of Inl e \<Rightarrow> recorded (view d5) (live es5 - unrecorded e)
          | Inr s \<Rightarrow> live es5 \<subseteq> ids s \<and> recorded (view d5) (live es5))"
        using add_clients_recorded [OF _ _ keep ac] law assms(2) ids3 by simp
      show ?thesis
      proof (cases q5)
        case q5: (Inl e)
        with assms(4) rs Inr es3 w4 None ac ac5 show ?thesis by (auto simp: up_created_def)
      next
        case q5: (Inr s5)
        obtain q6 we6 where b: "bootstrap_cluster (tracked am) p opts s5 (w5, es5) = (q6, we6)" by (metis surj_pair)
        have "r = q6" "d' = d5" "es' = snd we6" using assms(4) rs Inr es3 w4 None ac q5 b by (auto simp: up_created_def)
        with bootstrap_cluster_quiet [OF b] ac5 q5 show ?thesis by (auto split: sum.splits)
      qed
    qed
  qed
qed

lemma up_cluster_recorded:
  assumes "invar d" "up_cluster (tracked am) ops p opts extraArgs (d, (w, [])) = (r, (d', (w', es')))"
  shows "invar d' \<and> recorded (view d') (live es' - (case r of Inl e \<Rightarrow> unrecorded e | Inr _ \<Rightarrow> {}))"
proof -
  obtain q w1 es1 where ld: "amLoadConfig (tracked am) (uoRegion opts) (w, []) = (q, (w1, es1))" by (metis surj_pair)
  have es1: "es1 = []" using tracked_quiet(1) [OF ld] by simp
  show ?thesis
  proof (cases "\<exists>region. q = Inr region \<and> region \<noteq> []")
    case False
    with assms ld es1 show ?thesis by (cases q) (auto simp: up_cluster_def recorded_def)
  next
    case True
    then obtain region where q: "q = Inr region" "region \<noteq> []" by blast
    let ?o = "effective_options opts region"
    obtain r2 d2 w2 es2 where c: "create_instances (tracked am) ops p ?o [0..<nat (uoMembers ?o)] (initial_state ?o extraArgs) (d, (w1, [])) =
        (r2, (d2, (w2, es2)))" by (metis surj_pair)
    have c2: "invar d2 \<and> (case r2 of Inl e \<Rightarrow> recorded (view d2) (live es2 - unrecorded e)
        | Inr s \<Rightarrow> live es2 \<subseteq> ids s \<and> recorded (view d2) (live es2))"
      by (rule create_instances_recorded [OF assms(1) _ _ c]) (simp_all add: recorded_def)
    show ?thesis
    proof (cases r2)
      case (Inl e)
      with assms(2) ld es1 q c c2 show ?thesis by (auto simp: up_cluster_def Let_def)
    next
      case (Inr s2)
      with assms(2) ld es1 q c have "up_created (tracked am) ops p ?o s2 (d2, (w2, es2)) = (r, (d', (w', es')))"
        by (simp add: up_cluster_def Let_def)
      from up_created_recorded [OF _ _ _ this] c2 Inr show ?thesis by simp
    qed
  qed
qed

end

text \<open>What the command saves is at the path \<open>under D [n] False\<close>; \<open>known\<close> says that the file holds a state with all
  the given instances.\<close>

definition known :: "(awsState \<Rightarrow> string + string) \<Rightarrow> node option \<Rightarrow> string set \<Rightarrow> bool" where
  "known marshal v S \<longleftrightarrow> S = {} \<or> (\<exists>st. encodes marshal v st \<and> S \<subseteq> ids st)"

lemma known_recorded: "aws_file.recorded marshal v S \<longleftrightarrow> known marshal v S"
  by (simp add: aws_file.recorded_def known_def)

text \<open>C2: Bringing an AWS cluster up never loses an instance: whatever fails on the way, in the cloud or on the
  disk, every instance that was created and not deleted again is in the saved state file, unless the error
  names it as the one that has to be terminated by hand.\<close>

theorem runAWSUp_no_orphan:
  assumes "store_inv cwd D R n d" "awsStatePath home (uoName opts) = Inr (under D [n] False)"
    and "runAWSUp (tracked am) (state_file marshal unmarshal cwd) home extra (quiet version) opts (d, (w, [])) = (r, (d', (w', es)))"
  shows "known marshal (fst d' (R @ [n])) (live es - (case r of Inl e \<Rightarrow> unrecorded e | Inr _ \<Rightarrow> {}))"
proof -
  let ?p = "under D [n] False" and ?ops = "state_file marshal unmarshal cwd (under D [n] False)"
  obtain v w1 where v: "(if uoBinaryURL opts = [] then version w else (Inr (uoVersion opts), w)) = (v, w1)" by (metis surj_pair)
  have v': "(if uoBinaryURL opts = [] then quiet version (w, []) else (Inr (uoVersion opts), (w, []))) = (v, (w1, []))"
    using v by (simp add: quiet_def split: if_splits prod.splits)
  obtain se d2 where st: "stStat ?ops d = (se, d2)" by (metis surj_pair)
  note inv2 = aws_file.stat_law [OF assms(1) st]
  show ?thesis
  proof (cases "validateAWSUpOptions opts = None \<and> (\<exists>x. extra = Inr x) \<and> (\<exists>x. v = Inr x) \<and> \<not> uoDryRun opts \<and> se = Some ENOENT")
    case False
    then have "es = []"
      using assms(2,3) v' st
      by (cases v; cases se; cases extra; cases "validateAWSUpOptions opts") (auto simp: runAWSUp_def Let_def split: if_splits)
    then show ?thesis by (simp add: known_def)
  next
    case True
    then obtain x y where "extra = Inr x" "v = Inr y" by blast
    then have "up_cluster (tracked am) ?ops ?p (opts\<lparr>uoVersion := y\<rparr>) x (d2, (w1, [])) = (r, (d', (w', es)))"
      using assms(2,3) v' st True by (cases "uoBinaryURL opts = []") (auto simp: runAWSUp_def Let_def)
    from aws_file.up_cluster_recorded [OF conjunct1 [OF inv2] this] show ?thesis by (simp add: known_recorded)
  qed
qed

text \<open>A home directory with an empty state directory, and a cloud that counts its instances.\<close>

definition aws_home :: fsys where
  "aws_home = [[] \<mapsto> NDir 493, [''h''] \<mapsto> NDir 493, [''h'', ''.etcd-infra''] \<mapsto> NDir 448, [''h'', ''.etcd-infra'', ''aws''] \<mapsto> NDir 448]"

definition counting_cloud :: "nat aws_manager" where
  "counting_cloud =
     \<lparr>amLoadConfig = (\<lambda>r w. (Inr ''us-east-1'', w)),
      amCreate = (\<lambda>rq w. (Inr \<lparr>inID = ''i-'' @ show_nat w, inPrivateIPv4 = [], inPublicIPv4 = [], inState = ''pending''\<rparr>, w + 1)),
      amDelete = (\<lambda>i w. (if i = ''i-1'' then Some ''throttled'' else None, w)),
      amWaitForReady = (\<lambda>i w. (Inr \<lparr>inID = i, inPrivateIPv4 = ''10.0.0.1'', inPublicIPv4 = [], inState = ''running''\<rparr>, w)),
      amGet = (\<lambda>i w. (Inr \<lparr>inID = i, inPrivateIPv4 = ''10.0.0.1'', inPublicIPv4 = [], inState = ''running''\<rparr>, w)),
      amRun = (\<lambda>i sc w. (Inr (0, []), w)), amDataVolumeID = (\<lambda>i w. (Inr (''vol-'' @ i), w)),
      amWaitForTerminated = (\<lambda>i w. (None, w)), amDeleteDataVolume = (\<lambda>v w. (None, w)),
      amSubnets = (\<lambda>v w. (Inr [(''s1'', ''a''), (''s2'', ''b''), (''s3'', ''c'')], w)), amReplaceMachine = (\<lambda>i w. (Inr (''i-'' @ show_nat w), w + 1))\<rparr>"

definition demo_options :: awsUpOptions where
  "demo_options =
     \<lparr>uoName = ''demo'', uoRegion = ''us-east-1'', uoVPCID = ''vpc-1'', uoSubnetID = [], uoSecurityGroupIDs = [], uoAMI = ''ami-1'',
      uoInstanceType = ''t3a.medium'', uoIAMInstanceProfile = ''ssm'', uoArch = ''amd64'', uoVersion = ''3.6.0'', uoBinaryURL = [],
      uoBinarySHA256 = [], uoExtraArgs = [], uoExtraArgsFile = [], uoEnv = [], uoMembers = 3, uoDryRun = False, uoStressClients = 1,
      uoBastionType = [], uoReplaceable = False\<rparr>"

lemma aws_home_inv:
  assumes "\<forall>k. Fault ENOENT k \<notin> set ft" "regular v"
  shows "store_inv [] ''/h/.etcd-infra/aws'' [''h'', ''.etcd-infra'', ''aws''] ''demo.json''
     (aws_home([''h'', ''.etcd-infra'', ''aws'', ''demo.json''] := v), ft)"
proof -
  let ?D = "''/h/.etcd-infra/aws''" and ?R = "[''h'', ''.etcd-infra'', ''aws'']"
  let ?fs = "aws_home([''h'', ''.etcd-infra'', ''aws'', ''demo.json''] := v)"
  have "resolve [] aws_home True ?D = Inr ?R" by code_simp
  then have home: "dir_inv [] ?D ?R (aws_home, ft)"
    by (auto simp: dir_inv_def dest_at_resolve aws_home_def)
  have pl: "plain ''demo.json'' \<and> plain ''demo.json.tmp'' \<and> Dir (under ?D [''demo.json''] False) = ?D" by code_simp
  have "\<not> is_link v" using assms(2) by (auto simp: regular_def)
  from dir_inv_update [OF home _ _ this, of "''demo.json''" ft] pl have "dir_inv [] ?D ?R (?fs, ft)" by (simp add: aws_home_def)
  with pl assms show ?thesis by (simp add: store_inv_def) (simp add: aws_home_def)
qed

lemma aws_demo_path: "awsStatePath (Inr ''/h'') ''demo'' = Inr (under ''/h/.etcd-infra/aws'' [''demo.json''] False)"
  by code_simp

text \<open>The disk is full when the second member is saved, and that member cannot be deleted.\<close>

theorem runAWSUp_no_orphan_witness:
  "\<exists>r d' w' es. runAWSUp (tracked counting_cloud) (state_file (\<lambda>st. Inr (concat (map aiID (asInstances st)))) (\<lambda>_. None) []) (Inr ''/h'')
      (Inr []) (quiet (\<lambda>w. (Inr ''3.6.0'', w))) demo_options
      ((aws_home, [NoFault, NoFault, NoFault, NoFault, NoFault, Fault EIO 2]), (0, [])) = (r, (d', (w', es))) \<and>
    known (\<lambda>st. Inr (concat (map aiID (asInstances st)))) (fst d' [''h'', ''.etcd-infra'', ''aws'', ''demo.json''])
      (live es - (case r of Inl e \<Rightarrow> unrecorded e | Inr _ \<Rightarrow> {}))"
proof -
  let ?m = "\<lambda>st. Inr (concat (map aiID (asInstances st))) :: string + string"
  let ?ft = "[NoFault, NoFault, NoFault, NoFault, NoFault, Fault EIO 2]"
  have "aws_home([''h'', ''.etcd-infra'', ''aws'', ''demo.json''] := None) = aws_home" by (simp add: aws_home_def fun_upd_idem)
  then have inv: "store_inv [] ''/h/.etcd-infra/aws'' [''h'', ''.etcd-infra'', ''aws''] ''demo.json'' (aws_home, ?ft)"
    using aws_home_inv [of ?ft None] by simp
  have path: "awsStatePath (Inr ''/h'') (uoName demo_options) = Inr (under ''/h/.etcd-infra/aws'' [''demo.json''] False)"
    using aws_demo_path by (simp add: demo_options_def)
  obtain r d' w' es where run: "runAWSUp (tracked counting_cloud) (state_file ?m (\<lambda>_. None) []) (Inr ''/h'')
      (Inr []) (quiet (\<lambda>w. (Inr ''3.6.0'', w))) demo_options ((aws_home, ?ft), (0, [])) = (r, (d', (w', es)))" by (metis surj_pair)
  from runAWSUp_no_orphan [OF inv path run] run show ?thesis by auto
qed

section \<open>Deleting\<close>

definition volumes :: "awsState \<Rightarrow> string set" where
  "volumes st = aiDataVolumeID ` set (asInstances st) - {[]}"

lemma delete_instances_log:
  "delete_instances (tracked am) xs we = (remaining, errs, we') \<Longrightarrow>
   \<exists>ds. snd we' = snd we @ map Deleted ds \<and> set ds \<subseteq> aiID ` set xs \<and> (\<forall>x\<in>set xs. x \<in> set remaining \<or> aiID x \<in> set ds)"
proof (induction xs arbitrary: we remaining errs)
  case (Cons x xs)
  obtain e we1 where d: "amDelete (tracked am) (aiID x) we = (e, we1)" by (metis surj_pair)
  obtain rem1 errs1 we2 where r: "delete_instances (tracked am) xs we1 = (rem1, errs1, we2)" by (metis surj_pair)
  obtain ds where ds: "snd we2 = snd we1 @ map Deleted ds" "set ds \<subseteq> aiID ` set xs" "\<forall>x\<in>set xs. x \<in> set rem1 \<or> aiID x \<in> set ds"
    using Cons.IH [of we1 rem1 errs1] r Cons.prems d by (auto split: option.splits)
  have out: "we' = we2" "remaining = (if e = None then rem1 else x # rem1)" using Cons.prems d r by (auto split: option.splits)
  show ?case
  proof (cases e)
    case None
    with ds out tracked_noisy(2) [OF d] show ?thesis by (intro exI [of _ "aiID x # ds"]) (auto simp: if_ok_def)
  next
    case (Some y)
    with ds out tracked_noisy(2) [OF d] show ?thesis by (intro exI [of _ ds]) (auto simp: if_ok_def)
  qed
qed auto

lemma wait_terminated_quiet: "wait_terminated (tracked am) xs we = (r, we') \<Longrightarrow> snd we' = snd we"
proof (induction xs arbitrary: we)
  case (Cons x xs)
  obtain e we1 where d: "amWaitForTerminated (tracked am) (aiID x) we = (e, we1)" by (metis surj_pair)
  from Cons.prems d tracked_quiet(6) [OF d] show ?case by (cases e) (auto dest: Cons.IH)
qed simp

lemma delete_volumes_log:
  "delete_volumes (tracked am) xs we = (r, we') \<Longrightarrow>
   \<exists>vs. snd we' = snd we @ map VolumeDeleted vs \<and> set vs \<subseteq> aiDataVolumeID ` set xs - {[]} \<and>
     (r = None \<longrightarrow> set vs = aiDataVolumeID ` set xs - {[]})"
proof (induction xs arbitrary: we)
  case (Cons x xs)
  obtain e we1 where d: "amDeleteDataVolume (tracked am) (aiDataVolumeID x) we = (e, we1)" by (metis surj_pair)
  note ev = tracked_noisy(3) [OF d]
  consider "aiDataVolumeID x = []" | y where "aiDataVolumeID x \<noteq> []" "e = Some y" | "aiDataVolumeID x \<noteq> []" "e = None"
    by (cases e) auto
  then show ?case
  proof cases
    case 1
    with Cons.prems have "delete_volumes (tracked am) xs we = (r, we')" by simp
    from Cons.IH [OF this] 1 show ?thesis by auto
  next
    case 2
    with Cons.prems d ev show ?thesis by (intro exI [of _ "[]"]) (auto simp: if_ok_def)
  next
    case 3
    with Cons.prems d have "delete_volumes (tracked am) xs we1 = (r, we')" by simp
    from Cons.IH [OF this] obtain vs where vs: "snd we' = snd we1 @ map VolumeDeleted vs" "set vs \<subseteq> aiDataVolumeID ` set xs - {[]}"
      "r = None \<longrightarrow> set vs = aiDataVolumeID ` set xs - {[]}" by blast
    with 3 ev show ?thesis by (intro exI [of _ "aiDataVolumeID x # vs"]) (auto simp: if_ok_def)
  qed
qed simp

lemma delete_recorded_volumes_log:
  assumes "delete_recorded_volumes (tracked am) st we = (r, we')"
  shows "\<exists>vs. snd we' = snd we @ map VolumeDeleted vs \<and> set vs \<subseteq> volumes st \<and> (r = None \<longrightarrow> asReplaceable st \<longrightarrow> set vs = volumes st)"
proof -
  obtain e we1 where w: "wait_terminated (tracked am) (asInstances st) we = (e, we1)" by (metis surj_pair)
  show ?thesis
  proof (cases "asReplaceable st \<and> e = None")
    case True
    with assms w have "delete_volumes (tracked am) (asInstances st) we1 = (r, we')" by (simp add: delete_recorded_volumes_def)
    from delete_volumes_log [OF this] wait_terminated_quiet [OF w] show ?thesis unfolding volumes_def by auto
  next
    case False
    with assms w wait_terminated_quiet [OF w] show ?thesis
      by (intro exI [of _ "[]"]) (auto simp: delete_recorded_volumes_def split: if_splits option.splits)
  qed
qed

text \<open>What a teardown of the saved state \<open>st\<close> did: only what is recorded is deleted; every recorded instance is
  deleted or still known to the file; success means that all of it is gone, the file included.\<close>

definition torn_down :: "awsState \<Rightarrow> (string set \<Rightarrow> bool) \<Rightarrow> bool \<Rightarrow> cloud_event list \<Rightarrow> 'a + 'b \<Rightarrow> bool" where
  "torn_down st still_known file_gone es r \<longleftrightarrow>
     (\<exists>ds vs. es = map Deleted ds @ map VolumeDeleted vs \<and> set ds \<subseteq> ids st \<and> set vs \<subseteq> volumes st \<and> still_known (ids st - set ds) \<and>
       (case r of Inl _ \<Rightarrow> True
        | Inr _ \<Rightarrow> set ds = ids st \<and> (asReplaceable st \<longrightarrow> set vs = volumes st) \<and> file_gone))"

context state_store
begin

lemma down_cluster_torn_down:
  assumes "invar d" "saved (view d) st"
    and "down_cluster (tracked am) ops name st (d, (w, [])) = (r, (d', (w', es')))"
  shows "torn_down st (recorded (view d')) (view d' = gone) es' r"
proof -
  obtain q w1 es1 where ld: "amLoadConfig (tracked am) (asRegion st) (w, []) = (q, (w1, es1))" by (metis surj_pair)
  have es1: "es1 = []" using tracked_quiet(1) [OF ld] by simp
  obtain rc errs1 we2 where c: "delete_instances (tracked am) (asStressClients st) (w1, []) = (rc, errs1, we2)" by (metis surj_pair)
  obtain ds1 where ds1: "snd we2 = map Deleted ds1" "set ds1 \<subseteq> aiID ` set (asStressClients st)"
    "\<forall>x\<in>set (asStressClients st). x \<in> set rc \<or> aiID x \<in> set ds1" using delete_instances_log [OF c] by auto
  obtain ri errs2 we3 where i: "delete_instances (tracked am) (asInstances st) we2 = (ri, errs2, we3)" by (metis surj_pair)
  obtain ds2 where ds2: "snd we3 = map Deleted (ds1 @ ds2)" "set ds2 \<subseteq> aiID ` set (asInstances st)"
    "\<forall>x\<in>set (asInstances st). x \<in> set ri \<or> aiID x \<in> set ds2" using delete_instances_log [OF i] ds1(1) by auto
  have sub: "set (ds1 @ ds2) \<subseteq> ids st" using ds1(2) ds2(2) by (auto simp: ids_def)
  have left: "ids st - set (ds1 @ ds2) \<subseteq> aiID ` set (ri @ rc)" using ds1(3) ds2(3) by (fastforce simp: ids_def)
  have known: "recorded (view d) S" if "S \<subseteq> ids st" for S using assms(2) that by (rule recorded_saved)
  consider e where "q = Inl e" | x where "q = Inr x" "ri \<noteq> [] \<or> rc \<noteq> []" | x where "q = Inr x" "ri = []" "rc = []"
    by (cases q) auto
  then show ?thesis
  proof cases
    case 1
    with assms(3) ld es1 have "d' = d" "es' = []" "\<exists>e. r = Inl e" by (auto simp: down_cluster_def)
    moreover have "recorded (view d) (ids st - set [])" by (rule known) simp
    ultimately show ?thesis unfolding torn_down_def by (intro exI [of _ "[]"]) auto
  next
    case 2
    let ?st = "st\<lparr>asStressClients := rc, asInstances := ri\<rparr>"
    obtain e d4 where wr: "stWrite ops ?st d = (e, d4)" by (metis surj_pair)
    note law = write_law [OF assms(1) wr]
    have "down_cluster (tracked am) ops name st (d, (w, [])) =
        (Inl (AwsJoin (errs1 @ errs2 @ (case e of None \<Rightarrow> [] | Some x \<Rightarrow> [AwsSave x]))), (d4, we3))"
      using ld es1 2 c i wr by (cases e) (simp_all add: down_cluster_def)
    then have out: "d' = d4" "es' = map Deleted (ds1 @ ds2)" "\<exists>e. r = Inl e" using assms(3) ds2(1) by auto
    have "recorded (view d4) (ids st - set (ds1 @ ds2))"
    proof (cases e)
      case None
      with law have "saved (view d4) ?st" by simp
      moreover have "ids st - set (ds1 @ ds2) \<subseteq> ids ?st" using left by (auto simp: ids_def)
      ultimately show ?thesis by (rule recorded_saved)
    next
      case (Some x)
      with law known show ?thesis by auto
    qed
    with out sub show ?thesis unfolding torn_down_def by (intro exI [of _ "ds1 @ ds2"] exI [of _ "[]"]) auto
  next
    case 3
    obtain e we4 where dv: "delete_recorded_volumes (tracked am) st we3 = (e, we4)" by (metis surj_pair)
    obtain vs where vs: "snd we4 = map Deleted (ds1 @ ds2) @ map VolumeDeleted vs" "set vs \<subseteq> volumes st"
      "e = None \<longrightarrow> asReplaceable st \<longrightarrow> set vs = volumes st" using delete_recorded_volumes_log [OF dv] ds2(1) by auto
    obtain e5 d5 where rm: "stRemove ops d = (e5, d5)" by (metis surj_pair)
    note law = remove_law [OF assms(1) rm]
    have all: "set (ds1 @ ds2) = ids st" using sub left 3 by auto
    have "down_cluster (tracked am) ops name st (d, (w, [])) =
        (case e of Some x \<Rightarrow> (Inl x, (d, we4))
         | None \<Rightarrow> (if e5 = None \<or> e5 = Some ENOENT then Inr (''terminated AWS etcd cluster '' @ name) else Inl (AwsRemove (the e5)), (d5, we4)))"
      using ld es1 3 c i dv rm by (cases e; cases e5) (simp_all add: down_cluster_def)
    with assms(3) have "es' = snd we4" "case r of Inl _ \<Rightarrow> True | Inr _ \<Rightarrow> e = None \<and> (e5 = None \<or> e5 = Some ENOENT) \<and> d' = d5"
      by (auto split: option.splits if_splits)
    moreover have "recorded (view d') (ids st - set (ds1 @ ds2))" using all by (simp add: recorded_def)
    ultimately show ?thesis unfolding torn_down_def using vs all law
      by (intro exI [of _ "ds1 @ ds2"] exI [of _ vs]) (auto split: sum.splits)
  qed
qed

end

text \<open>C9: Taking an AWS cluster down deletes exactly what its state file records, never anything else. Whatever
  fails, every recorded instance was deleted or is still in the saved file, so a second run can finish the
  job; success means that all instances, and the data volumes of a replaceable cluster, were deleted and the
  file is gone.\<close>

theorem runAWSDown_exact:
  assumes "store_inv cwd D R n d" "awsStatePath home name = Inr (under D [n] False)" "validateClusterName name = None"
    and "readAWSState unmarshal cwd (under D [n] False) d = (Inr st, d1)" "encodes marshal (fst d (R @ [n])) st" "asDev st = None"
    and "runAWSDown (tracked am) (state_file marshal unmarshal cwd) home devDown name (d, (w, [])) = (r, (d', (w', es)))"
  shows "torn_down st (known marshal (fst d' (R @ [n]))) (fst d' (R @ [n]) = None) es r"
proof -
  let ?ops = "state_file marshal unmarshal cwd (under D [n] False)"
  have rd: "stRead ?ops d = (Inr st, d1)" using assms(4) by (simp add: state_file_def)
  note law = aws_file.read_law [OF assms(1) rd]
  have "down_cluster (tracked am) ?ops name st (d1, (w, [])) = (r, (d', (w', es)))"
    using assms(2,3,6,7) rd by (simp add: runAWSDown_def)
  from aws_file.down_cluster_torn_down [OF conjunct1 [OF law] _ this] law assms(5) show ?thesis
    by (simp add: known_recorded [abs_def])
qed

definition demo_instance :: "nat \<Rightarrow> awsInstanceState" where
  "demo_instance k = \<lparr>aiName = ''demo-'' @ show_nat (k + 1), aiID = ''i-'' @ show_nat k, aiPrivateIPv4 = ''10.0.0.1'', aiPublicIPv4 = [],
     aiSubnetID = [], aiDataVolumeID = ''vol-'' @ show_nat k\<rparr>"

definition demo_state :: "nat list \<Rightarrow> awsState" where
  "demo_state ks = \<lparr>asName = ''demo'', asRegion = ''us-east-1'', asVersion = ''3.6.0'', asInstances = map demo_instance ks, asStressClients = [],
     asArch = ''amd64'', asExtraArgs = [], asEnv = [], asBinaryURL = [], asBinarySHA256 = [], asReplaceable = True, asDev = None\<rparr>"

definition demo_marshal :: "awsState \<Rightarrow> string + string" where
  "demo_marshal st = (if st = demo_state [0, 1, 2] then Inr ''all'' else if st = demo_state [1] then Inr ''one'' else Inl ''unsupported'')"

definition demo_unmarshal :: "string \<Rightarrow> awsState option" where
  "demo_unmarshal s = (if s = ''all'' @ [line_feed] then Some (demo_state [0, 1, 2]) else if s = ''one'' @ [line_feed] then Some (demo_state [1]) else None)"

definition demo_disk :: disk where
  "demo_disk = (aws_home([''h'', ''.etcd-infra'', ''aws'', ''demo.json''] := Some (NFile 384 (''all'' @ [line_feed]))), [])"

lemma demo_disk_inv: "store_inv [] ''/h/.etcd-infra/aws'' [''h'', ''.etcd-infra'', ''aws''] ''demo.json'' demo_disk"
  using aws_home_inv [of "[]"] by (simp add: demo_disk_def)

lemma demo_disk_read:
  "\<exists>d1. readAWSState demo_unmarshal [] (under ''/h/.etcd-infra/aws'' [''demo.json''] False) demo_disk = (Inr (demo_state [0, 1, 2]), d1)"
proof -
  have "encodes demo_marshal (fst demo_disk ([''h'', ''.etcd-infra'', ''aws''] @ [''demo.json''])) (demo_state [0, 1, 2])"
    by (simp add: encodes_def demo_disk_def demo_marshal_def)
  then have "fst (readAWSState demo_unmarshal [] (under ''/h/.etcd-infra/aws'' [''demo.json''] False) demo_disk) = Inr (demo_state [0, 1, 2])"
    using read_saved [of "[]" "''/h/.etcd-infra/aws''" "[''h'', ''.etcd-infra'', ''aws'']" "''demo.json''" "fst demo_disk" "snd demo_disk"
        demo_marshal "demo_state [0, 1, 2]" demo_unmarshal] demo_disk_inv
    by (auto simp: demo_disk_def demo_marshal_def demo_unmarshal_def demo_state_def)
  then show ?thesis by (metis prod.collapse)
qed

theorem runAWSDown_exact_witness:
  "\<exists>r d' w' es. runAWSDown (tracked counting_cloud) (state_file demo_marshal demo_unmarshal []) (Inr ''/h'')
      (\<lambda>name dw. (Inr name, dw)) ''demo'' (demo_disk, (0, [])) = (r, (d', (w', es))) \<and>
    torn_down (demo_state [0, 1, 2]) (known demo_marshal (fst d' [''h'', ''.etcd-infra'', ''aws'', ''demo.json'']))
      (fst d' [''h'', ''.etcd-infra'', ''aws'', ''demo.json''] = None) es r"
proof -
  obtain r d' w' es where run: "runAWSDown (tracked counting_cloud) (state_file demo_marshal demo_unmarshal []) (Inr ''/h'')
      (\<lambda>name dw. (Inr name, dw)) ''demo'' (demo_disk, (0, [])) = (r, (d', (w', es)))" by (metis surj_pair)
  obtain d1 where rd: "readAWSState demo_unmarshal [] (under ''/h/.etcd-infra/aws'' [''demo.json''] False) demo_disk =
      (Inr (demo_state [0, 1, 2]), d1)" using demo_disk_read by blast
  have enc: "encodes demo_marshal (fst demo_disk ([''h'', ''.etcd-infra'', ''aws''] @ [''demo.json''])) (demo_state [0, 1, 2])"
    by (simp add: encodes_def demo_disk_def demo_marshal_def)
  have valid: "validateClusterName ''demo'' = None" by code_simp
  have dev: "asDev (demo_state [0, 1, 2]) = None" by (simp add: demo_state_def)
  from runAWSDown_exact [OF demo_disk_inv aws_demo_path valid rd enc dev run] run show ?thesis by auto
qed

lemma with_fault_none: "with_fault op broken (fs, []) = (fst (op fs), (snd (op fs), []))"
  by (simp add: with_fault_def next_fault_def split: prod.split)

text \<open>Without faults a state that can be encoded is saved.\<close>

lemma write_succeeds:
  assumes inv: "store_inv cwd D R n (fs, [])" and "marshal st = Inr content"
  shows "\<exists>d'. writeAWSState marshal cwd (under D [n] False) st (fs, []) = (None, d')"
proof -
  let ?p = "under D [n] False" and ?bytes = "content @ [line_feed]"
  have dir: "dest_at cwd fs D R" and D: "Dir ?p = D" using inv by (auto simp: store_inv_def dir_inv_def)
  have m: "MkdirAll cwd 448 D fs = (None, fs)"
    using Stat_dest [OF dir, of False] by (auto simp: MkdirAll.simps [of cwd 448 D fs] under_def)
  obtain k where w: "WriteFile cwd 384 ?bytes (?p @ ''.tmp'') fs = (None, fs(R @ [n @ ''.tmp''] \<mapsto> NFile k ?bytes))"
    using store_resolve(2) [OF inv, of True] inv by (auto simp: WriteFile_def store_inv_def regular_def)
  let ?fs2 = "fs(R @ [n @ ''.tmp''] \<mapsto> NFile k ?bytes)"
  have inv2: "store_inv cwd D R n (?fs2, [])" by (rule store_inv_update [OF inv]) simp_all
  have "fst (Rename cwd (?p @ ''.tmp'') ?p ?fs2) = None"
    using store_resolve [OF inv2, of False] inv by (auto simp: Rename_def store_inv_def regular_not_dir)
  with m w assms(2) D show ?thesis by (simp add: writeAWSState_def with_fault_none Let_def)
qed


section \<open>Replacing\<close>

text \<open>The state after a replacement: the machine of one member has a new identifier (and perhaps new addresses);
  names, subnets and data volumes, the other members and the rest of the state are as before.\<close>

definition replaced_in :: "awsState \<Rightarrow> nat \<Rightarrow> string \<Rightarrow> awsState \<Rightarrow> bool" where
  "replaced_in st idx new st' \<longleftrightarrow>
     (\<exists>ip pub. st' = set_instance st idx (\<lambda>i. i\<lparr>aiID := new, aiPrivateIPv4 := ip, aiPublicIPv4 := pub\<rparr>))"

lemma replaced_in_id:
  "idx < length (asInstances st) \<Longrightarrow> replaced_in st idx new (set_instance st idx (\<lambda>i. i\<lparr>aiID := new\<rparr>))"
  unfolding replaced_in_def set_instance_def
  by (rule exI [of _ "aiPrivateIPv4 (asInstances st ! idx)"], rule exI [of _ "aiPublicIPv4 (asInstances st ! idx)"]) simp

lemma replaced_in_addresses:
  "idx < length (asInstances st) \<Longrightarrow>
   replaced_in st idx new (set_instance (set_instance st idx (\<lambda>i. i\<lparr>aiID := new\<rparr>)) idx
     (\<lambda>i. i\<lparr>aiPrivateIPv4 := ip, aiPublicIPv4 := pub\<rparr>))"
  by (auto simp: replaced_in_def set_instance_def)



end
