(* ===== verification/Download.thy ===== *)
theory Download
  imports Topology Archive
begin

text \<open>
  \<^verbatim>\<open>src/pkg/httputil\<close> (downloads), \<^verbatim>\<open>src/pkg/install/manifest.go\<close> (the checksum manifest and the
  verification of a file against it) and \<^verbatim>\<open>src/internal/etcd/installer/latest_version.go\<close>. The HTTP client
  and the network are the record \<open>http_client\<close>; SHA-256 and the YAML decoder are arguments. The
  state is the disk with its faults and the state \<open>'w\<close> of the network; a fault while the body is
  copied leaves a part of it in the file. Errors of closing a body or a file are only logged.
\<close>

section \<open>HTTP\<close>

record http_request =
  rqMethod :: string
  rqURL :: string
  rqUserAgent :: string
  rqTimeout :: int

text \<open>The body is what can be read of it, with the error that ends the reading, if any; \<open>rsPath\<close> is the
  path of the request that was answered, after redirects.\<close>

record http_response =
  rsStatusCode :: int
  rsStatus :: string
  rsContentLength :: string
  rsBody :: string
  rsReadError :: "string option"
  rsPath :: string

record 'w http_client =
  hcNewRequest :: "string \<Rightarrow> string option"
  hcDo :: "http_request \<Rightarrow> 'w \<Rightarrow> (string + http_response) \<times> 'w"

datatype http_error = HErrRequest string | HErrDo string | HErrStatus string | HErrReadBody string
  | HErrCreateFile errno | HErrCopy string | HErrWrite errno | HErrMissingContentLength | HErrContentLength string

record httpOp =
  hoTimeout :: int
  hoDownloadFilePath :: string
  hoUserAgent :: string

type_synonym httpOption = "httpOp \<Rightarrow> httpOp"

definition WithTimeout :: "int \<Rightarrow> httpOption" where "WithTimeout dur = hoTimeout_update (\<lambda>_. dur)"

definition WithDownloadFilePath :: "string \<Rightarrow> httpOption" where
  "WithDownloadFilePath p = hoDownloadFilePath_update (\<lambda>_. p)"

definition WithUserAgent :: "string \<Rightarrow> httpOption" where "WithUserAgent agent = hoUserAgent_update (\<lambda>_. agent)"

definition http_options :: "httpOption list \<Rightarrow> httpOp" where
  "http_options opts = fold (\<lambda>opt op. opt op) opts \<lparr>hoTimeout = 0, hoDownloadFilePath = [], hoUserAgent = []\<rparr>"

definition newRequest :: "'w http_client \<Rightarrow> string \<Rightarrow> string \<Rightarrow> httpOp \<Rightarrow> http_error + http_request" where
  "newRequest cl meth url options =
     (case hcNewRequest cl url of Some e \<Rightarrow> Inl (HErrRequest e)
      | None \<Rightarrow> Inr \<lparr>rqMethod = meth, rqURL = url, rqUserAgent = hoUserAgent options, rqTimeout = hoTimeout options\<rparr>)"

text \<open>The part the three functions share: the request is sent and its status checked.\<close>

definition http_fetch :: "'w http_client \<Rightarrow> string \<Rightarrow> string \<Rightarrow> httpOp \<Rightarrow> 'w \<Rightarrow> (http_error + http_response) \<times> 'w" where
  "http_fetch cl meth url options w =
     (case newRequest cl meth url options of Inl e \<Rightarrow> (Inl e, w)
      | Inr req \<Rightarrow> (case hcDo cl req w of
          (Inl e, w1) \<Rightarrow> (Inl (HErrDo e), w1)
        | (Inr resp, w1) \<Rightarrow> (if rsStatusCode resp \<noteq> 200 then Inl (HErrStatus (rsStatus resp)) else Inr resp, w1)))"

definition DownloadURL :: "'w http_client \<Rightarrow> string \<Rightarrow> httpOption list \<Rightarrow> 'w \<Rightarrow> (http_error + string) \<times> 'w" where
  "DownloadURL cl url opts w =
     (case http_fetch cl ''GET'' url (http_options opts) w of
        (Inl e, w1) \<Rightarrow> (Inl e, w1)
      | (Inr resp, w1) \<Rightarrow> ((case rsReadError resp of Some e \<Rightarrow> Inl (HErrReadBody e) | None \<Rightarrow> Inr (rsBody resp)), w1))"

text \<open>\<open>draws\<close> are the names \<^verbatim>\<open>os.CreateTemp\<close> draws in the directory \<open>tmp\<close> when no path is given.\<close>

definition download_target :: "path \<Rightarrow> string \<Rightarrow> string list \<Rightarrow> httpOp \<Rightarrow> disk \<Rightarrow> (http_error + string) \<times> disk" where
  "download_target cwd tmp draws options d =
     (case next_fault d of (Fault e k, d1) \<Rightarrow> (Inl (HErrCreateFile e), d1)
      | (NoFault, d1) \<Rightarrow>
        (if hoDownloadFilePath options = []
         then (case CreateTemp cwd draws tmp ''download'' (fst d1) of
                 (Inl e, fs) \<Rightarrow> (Inl (HErrCreateFile e), (fs, snd d1)) | (Inr p, fs) \<Rightarrow> (Inr p, (fs, snd d1)))
         else (case WriteFile cwd 438 [] (hoDownloadFilePath options) (fst d1) of
                 (Some e, fs) \<Rightarrow> (Inl (HErrCreateFile e), (fs, snd d1))
               | (None, fs) \<Rightarrow> (Inr (hoDownloadFilePath options), (fs, snd d1)))))"

definition DownloadURLToFile ::
  "'w http_client \<Rightarrow> path \<Rightarrow> string \<Rightarrow> string list \<Rightarrow> string \<Rightarrow> httpOption list \<Rightarrow> disk \<times> 'w \<Rightarrow> (http_error + string) \<times> disk \<times> 'w" where
  "DownloadURLToFile cl cwd tmp draws url opts s =
     (case http_fetch cl ''GET'' url (http_options opts) (snd s) of
        (Inl e, w1) \<Rightarrow> (Inl e, (fst s, w1))
      | (Inr resp, w1) \<Rightarrow>
        (case download_target cwd tmp draws (http_options opts) (fst s) of
           (Inl e, d1) \<Rightarrow> (Inl e, (d1, w1))
         | (Inr p, d1) \<Rightarrow>
           (case with_fault (append_file cwd p (rsBody resp)) (\<lambda>k fs. snd (append_file cwd p (take k (rsBody resp)) fs)) d1 of
              (Some e, d2) \<Rightarrow> (Inl (HErrWrite e), (d2, w1))
            | (None, d2) \<Rightarrow> ((case rsReadError resp of Some e \<Rightarrow> Inl (HErrCopy e) | None \<Rightarrow> Inr p), (d2, w1)))))"

text \<open>\<^verbatim>\<open>strconv.ParseInt(s, 10, 64)\<close> accepts what \<^verbatim>\<open>Atoi\<close> accepts on a 64-bit machine.\<close>

definition HeadURLForContentLength :: "'w http_client \<Rightarrow> string \<Rightarrow> httpOption list \<Rightarrow> 'w \<Rightarrow> (http_error + int) \<times> 'w" where
  "HeadURLForContentLength cl url opts w =
     (case http_fetch cl ''HEAD'' url (http_options opts) w of
        (Inl e, w1) \<Rightarrow> (Inl e, w1)
      | (Inr resp, w1) \<Rightarrow>
        ((if rsContentLength resp = [] then Inl HErrMissingContentLength
          else case Atoi (rsContentLength resp) of None \<Rightarrow> Inl (HErrContentLength (rsContentLength resp)) | Some n \<Rightarrow> Inr n), w1))"

section \<open>The latest release\<close>

definition latestReleaseURL :: string where
  "latestReleaseURL = ''https://github.com/etcd-io/etcd/releases/latest''"

text \<open>\<^verbatim>\<open>strings.Count\<close> for a one-byte substring is \<^verbatim>\<open>count_list\<close>.\<close>

definition resolveLatestVersion :: "'w http_client \<Rightarrow> string \<Rightarrow> 'w \<Rightarrow> (string + string) \<times> 'w" where
  "resolveLatestVersion cl releaseURL w =
     (case hcNewRequest cl releaseURL of Some e \<Rightarrow> (Inl (''create latest release request: '' @ e), w)
      | None \<Rightarrow> (case hcDo cl \<lparr>rqMethod = ''HEAD'', rqURL = releaseURL, rqUserAgent = ''etcd-infra'', rqTimeout = 0\<rparr> w of
          (Inl e, w1) \<Rightarrow> (Inl (''resolve latest etcd release: '' @ e), w1)
        | (Inr resp, w1) \<Rightarrow>
          (if rsStatusCode resp \<noteq> 200 then (Inl (''resolve latest etcd release: unexpected status '' @ rsStatus resp), w1)
           else let version = Base (rsPath resp) in
             if \<not> HasPrefix version ''v'' \<or> count_list version (CHR ''.'') < 2
             then (Inl (''resolve latest etcd release: invalid tag '' @ version), w1)
             else (Inr version, w1))))"

definition LatestVersion :: "'w http_client \<Rightarrow> 'w \<Rightarrow> (string + string) \<times> 'w" where
  "LatestVersion cl w = resolveLatestVersion cl latestReleaseURL w"

section \<open>The checksum manifest\<close>

record Artifact =
  arName :: string
  arSHA256 :: string
  arSize :: int

record Manifest =
  mfVersion :: string
  mfArtifacts :: "Artifact list"

datatype manifest_error = MErrPathEmpty | MErrReadFile errno | MErrUnmarshal string

definition LoadManifest :: "(string \<Rightarrow> string + Manifest) \<Rightarrow> path \<Rightarrow> string \<Rightarrow> disk \<Rightarrow> (manifest_error + Manifest) \<times> disk" where
  "LoadManifest yaml cwd p d =
     (if TrimSpace p = [] then (Inl MErrPathEmpty, d)
      else case ReadFile cwd p d of
             (Inl e, d1) \<Rightarrow> (Inl (MErrReadFile e), d1)
           | (Inr b, d1) \<Rightarrow> ((case yaml b of Inl e \<Rightarrow> Inl (MErrUnmarshal e) | Inr m \<Rightarrow> Inr m), d1))"

text \<open>The receiver may be a nil pointer.\<close>

definition Find :: "Manifest option \<Rightarrow> string \<Rightarrow> Artifact option" where
  "Find m name = (case m of None \<Rightarrow> None | Some m \<Rightarrow> find (\<lambda>a. arName a = name) (mfArtifacts m))"

text \<open>\<^verbatim>\<open>hex.EncodeToString\<close>.\<close>

definition hex_digit :: "nat \<Rightarrow> char" where
  "hex_digit d = (if d < 10 then char_of (48 + d) else char_of (87 + d))"

definition hex_encode :: "string \<Rightarrow> string" where
  "hex_encode bs = concat (map (\<lambda>c. [hex_digit (of_char c div 16), hex_digit (of_char c mod 16)]) bs)"

datatype verify_error = VErrNegativeSize int | VErrStat errno | VErrSize int int | VErrOpen errno | VErrMismatch string string

definition ComputeSHA256 :: "(string \<Rightarrow> string) \<Rightarrow> path \<Rightarrow> string \<Rightarrow> disk \<Rightarrow> (errno + string) \<times> disk" where
  "ComputeSHA256 sha256 cwd p d =
     (case ReadFile cwd p d of (Inl e, d1) \<Rightarrow> (Inl e, d1) | (Inr content, d1) \<Rightarrow> (Inr (hex_encode (sha256 content)), d1))"

text \<open>\<^verbatim>\<open>strings.EqualFold\<close> where one side is a hexadecimal number: no letter but its other case folds to
  one of \<^verbatim>\<open>a\<close> to \<^verbatim>\<open>f\<close>.\<close>

definition EqualFold :: "string \<Rightarrow> string \<Rightarrow> bool" where
  "EqualFold s t \<longleftrightarrow> map to_lower_char s = map to_lower_char t"

text \<open>The size of a node that is not a regular file is up to the file system; opening and reading such a
  node fails in any case.\<close>

definition check_size :: "path \<Rightarrow> string \<Rightarrow> int \<Rightarrow> disk \<Rightarrow> verify_error option \<times> disk" where
  "check_size cwd p expectedSize d =
     (if expectedSize \<le> 0 then (None, d)
      else case next_fault d of
        (Fault e k, d1) \<Rightarrow> (Some (VErrStat e), d1)
      | (NoFault, d1) \<Rightarrow> ((case Stat cwd (fst d1) p of
            Inl e \<Rightarrow> Some (VErrStat e)
          | Inr (NFile m c) \<Rightarrow> if int (length c) \<noteq> expectedSize then Some (VErrSize (int (length c)) expectedSize) else None
          | Inr _ \<Rightarrow> None), d1))"

definition VerifyFileSHA256 ::
  "(string \<Rightarrow> string) \<Rightarrow> path \<Rightarrow> string \<Rightarrow> string \<Rightarrow> int \<Rightarrow> disk \<Rightarrow> verify_error option \<times> disk" where
  "VerifyFileSHA256 sha256 cwd p expectedSHA256 expectedSize d =
     (if expectedSize < 0 then (Some (VErrNegativeSize expectedSize), d)
      else case check_size cwd p expectedSize d of
        (Some e, d1) \<Rightarrow> (Some e, d1)
      | (None, d1) \<Rightarrow> (case ComputeSHA256 sha256 cwd p d1 of
          (Inl e, d2) \<Rightarrow> (Some (VErrOpen e), d2)
        | (Inr actual, d2) \<Rightarrow>
            (if EqualFold actual (TrimSpace expectedSHA256) then None
             else Some (VErrMismatch actual (TrimSpace expectedSHA256)), d2)))"

section \<open>Facts\<close>

lemma ReadFile_disk: "ReadFile cwd p d = (r, d') \<Longrightarrow> fst d' = fst d"
  by (auto simp: ReadFile_def next_fault_def split: list.splits fault.splits)

lemma ReadFile_ok: "ReadFile cwd p d = (Inr c, d') \<Longrightarrow> \<exists>m. Stat cwd (fst d) p = Inr (NFile m c)"
  by (auto simp: ReadFile_def next_fault_def split: list.splits fault.splits sum.splits node.splits)

lemma check_size_ok:
  assumes "check_size cwd p n d = (r, d')"
  shows "fst d' = fst d" and "r = None \<Longrightarrow> 0 < n \<Longrightarrow> Stat cwd (fst d) p = Inr (NFile m c) \<Longrightarrow> int (length c) = n"
  using assms by (auto simp: check_size_def next_fault_def split: list.splits fault.splits if_splits)

lemma ComputeSHA256_ok:
  assumes "ComputeSHA256 sha256 cwd p d = (r, d')"
  shows "fst d' = fst d" and "r = Inr h \<Longrightarrow> \<exists>m c. Stat cwd (fst d) p = Inr (NFile m c) \<and> h = hex_encode (sha256 c)"
proof -
  obtain q where q: "ReadFile cwd p d = (q, d')" using assms by (auto simp: ComputeSHA256_def split: prod.splits sum.splits)
  then show "fst d' = fst d" by (rule ReadFile_disk)
  assume "r = Inr h"
  with assms q obtain c where "q = Inr c" "h = hex_encode (sha256 c)" by (cases q) (auto simp: ComputeSHA256_def)
  then show "\<exists>m c. Stat cwd (fst d) p = Inr (NFile m c) \<and> h = hex_encode (sha256 c)" using ReadFile_ok q by blast
qed

text \<open>Verification changes nothing, and when it succeeds the file has the expected checksum and size.\<close>

definition has_checksum :: "(string \<Rightarrow> string) \<Rightarrow> string \<Rightarrow> int \<Rightarrow> string \<Rightarrow> bool" where
  "has_checksum sha256 expected n c \<longleftrightarrow>
     EqualFold (hex_encode (sha256 c)) (TrimSpace expected) \<and> 0 \<le> n \<and> (0 < n \<longrightarrow> int (length c) = n)"

lemma VerifyFileSHA256_ok:
  assumes "VerifyFileSHA256 sha256 cwd p expected n d = (r, d')"
  shows "fst d' = fst d"
    and "r = None \<Longrightarrow> \<exists>m c. Stat cwd (fst d) p = Inr (NFile m c) \<and> has_checksum sha256 expected n c"
proof -
  obtain q1 d1 where s: "check_size cwd p n d = (q1, d1)" by (metis surj_pair)
  obtain q2 d2 where h: "ComputeSHA256 sha256 cwd p d1 = (q2, d2)" by (metis surj_pair)
  note keep = check_size_ok(1) [OF s] ComputeSHA256_ok(1) [OF h]
  show "fst d' = fst d"
    using assms s h keep by (auto simp: VerifyFileSHA256_def split: if_splits option.splits sum.splits)
  assume "r = None"
  with assms s h obtain a where a: "0 \<le> n" "q1 = None" "q2 = Inr a" "EqualFold a (TrimSpace expected)"
    by (auto simp: VerifyFileSHA256_def split: if_splits option.splits sum.splits)
  from ComputeSHA256_ok(2) [OF h a(3)] keep obtain m c
    where c: "Stat cwd (fst d) p = Inr (NFile m c)" "a = hex_encode (sha256 c)" by auto
  with a check_size_ok(2) [OF s a(2) _ c(1)]
  show "\<exists>m c. Stat cwd (fst d) p = Inr (NFile m c) \<and> has_checksum sha256 expected n c"
    by (auto simp: has_checksum_def)
qed

text \<open>A resolved tag has the form the download URL needs.\<close>

lemma resolveLatestVersion_tag: "resolveLatestVersion cl u w = (Inr v, w') \<Longrightarrow> HasPrefix v ''v'' \<and> 2 \<le> count_list v (CHR ''.'')"
  by (auto simp: resolveLatestVersion_def Let_def split: option.splits prod.splits sum.splits if_splits)

end
