(* ===== verification/Installer.thy ===== *)
theory Installer
  imports Download
begin

text \<open>
  \<^verbatim>\<open>src/internal/etcd/installer\<close>: an etcd release is found in an artifact directory or downloaded, verified
  against a checksum manifest or the published \<^verbatim>\<open>SHA256SUMS\<close>, extracted in a temporary directory and
  moved to its place; and the command \<^verbatim>\<open>install\<close> of \<^verbatim>\<open>src/cmd/etcd-infra/main.go\<close>. The record \<open>install_env\<close>
  holds what the code gets from elsewhere: the platform, the network, the decoders, the parser of URLs (the
  path of a URL and its rendering with another path), the names drawn for temporary directories and the
  processes it starts. System calls consume faults; the extraction of an archive does not.
\<close>

record 'w install_env =
  ieCwd :: path
  ieTempDir :: string
  ieTempNames :: "'w \<Rightarrow> string list"
  ieGOOS :: string
  ieGOARCH :: string
  ieHTTP :: "'w http_client"
  ieSleep :: "int \<Rightarrow> 'w \<Rightarrow> 'w"
  ieSHA256 :: "string \<Rightarrow> string"
  ieYAML :: "string \<Rightarrow> string + Manifest"
  ieUntar :: "string \<Rightarrow> string + tar_entry list \<times> string option"
  ieUnzip :: "string \<Rightarrow> string + zip_entry list"
  ieParseURL :: "string \<Rightarrow> string + string \<times> (string \<Rightarrow> string)"
  ieOutput :: "string \<Rightarrow> string list \<Rightarrow> disk \<times> 'w \<Rightarrow> (string + string) \<times> disk \<times> 'w"

datatype move_error = MvRename errno | MvCopy file_error

datatype install_error =
    ErrOptsNil | ErrVersionRequired | ErrUnsupportedOS string | ErrUnsupportedArchitecture string
  | ErrCopyPreExtracted file_error | ErrPreExtractedMode errno | ErrTempDir errno
  | ErrManifestPathEmpty | ErrLoadManifest manifest_error
  | ErrOfflineDirUnset | ErrOfflineNotFound string | ErrArtifactPath errno | ErrDownload http_error
  | ErrManifestEntry string | ErrVerify verify_error | ErrParseURL string | ErrChecksumList http_error | ErrChecksumEntry string
  | ErrExtract archive_error | ErrMove move_error | ErrBinaryMode errno | ErrCheckVersion string

section \<open>Options\<close>

record Op =
  opVersion :: string
  opDownloadURL :: string
  opDownloadTimeout :: int
  opVersionCheck :: bool
  opOffline :: bool
  opArtifactDir :: string
  opManifestPath :: string

type_synonym OpOption = "Op \<Rightarrow> Op"

definition zero_Op :: Op where
  "zero_Op = \<lparr>opVersion = [], opDownloadURL = [], opDownloadTimeout = 0, opVersionCheck = False, opOffline = False,
     opArtifactDir = [], opManifestPath = []\<rparr>"

definition applyOpts :: "OpOption list \<Rightarrow> Op \<Rightarrow> Op" where
  "applyOpts opts op = (let op = fold (\<lambda>opt op. opt op) opts op in
     if opDownloadTimeout op = 0 then op\<lparr>opDownloadTimeout := 60 * second\<rparr> else op)"

definition WithVersion :: "string \<Rightarrow> OpOption" where "WithVersion v = opVersion_update (\<lambda>_. v)"
definition WithDownloadURL :: "string \<Rightarrow> OpOption" where "WithDownloadURL u = opDownloadURL_update (\<lambda>_. u)"
definition WithDownloadTimeout :: "int \<Rightarrow> OpOption" where "WithDownloadTimeout d = opDownloadTimeout_update (\<lambda>_. d)"
definition WithVersionCheck :: "bool \<Rightarrow> OpOption" where "WithVersionCheck b = opVersionCheck_update (\<lambda>_. b)"
definition WithOffline :: "bool \<Rightarrow> OpOption" where "WithOffline b = opOffline_update (\<lambda>_. b)"
definition WithArtifactDir :: "string \<Rightarrow> OpOption" where "WithArtifactDir dir = opArtifactDir_update (\<lambda>_. dir)"
definition WithChecksumManifest :: "string \<Rightarrow> OpOption" where "WithChecksumManifest p = opManifestPath_update (\<lambda>_. p)"

section \<open>Names\<close>

definition getOSType :: "'w install_env \<Rightarrow> install_error + string" where
  "getOSType env = (if ieGOOS env \<in> {''linux'', ''darwin''} then Inr (ieGOOS env) else Inl (ErrUnsupportedOS (ieGOOS env)))"

definition getArchType :: "'w install_env \<Rightarrow> install_error + string" where
  "getArchType env = (if ieGOARCH env = ''amd64'' then Inr ''amd64'' else if ieGOARCH env = ''arm64'' then Inr ''arm64''
     else Inl (ErrUnsupportedArchitecture (ieGOARCH env)))"

definition getArchiveType :: "'w install_env \<Rightarrow> install_error + string" where
  "getArchiveType env = (if ieGOOS env = ''linux'' then Inr ''tar.gz'' else if ieGOOS env = ''darwin'' then Inr ''zip''
     else Inl (ErrUnsupportedOS (ieGOOS env)))"

definition buildDownloadURL :: "'w install_env \<Rightarrow> string \<Rightarrow> install_error + string" where
  "buildDownloadURL env version =
     (if version = [] then Inl ErrVersionRequired
      else let version = (if HasPrefix version ''v'' then version else ''v'' @ version) in
        case getOSType env of Inl e \<Rightarrow> Inl e
        | Inr osType \<Rightarrow> (case getArchType env of Inl e \<Rightarrow> Inl e
        | Inr archType \<Rightarrow> (case getArchiveType env of Inl e \<Rightarrow> Inl e
        | Inr archiveType \<Rightarrow> Inr (''https://github.com/etcd-io/etcd/releases/download/'' @ version @ ''/etcd-'' @ version @
            ''-'' @ osType @ ''-'' @ archType @ ''.'' @ archiveType))))"

definition resolveDownloadURL :: "'w install_env \<Rightarrow> Op option \<Rightarrow> install_error + string" where
  "resolveDownloadURL env options =
     (case options of None \<Rightarrow> Inl ErrOptsNil
      | Some op \<Rightarrow> if opDownloadURL op \<noteq> [] then Inr (opDownloadURL op) else buildDownloadURL env (opVersion op))"

text \<open>\<^verbatim>\<open>strings.CutSuffix\<close> and \<^verbatim>\<open>strings.TrimSuffix\<close>, and \<^verbatim>\<open>strings.Replace\<close> of the first occurrence of a
  non-empty string.\<close>

definition TrimSuffix :: "string \<Rightarrow> string \<Rightarrow> string" where
  "TrimSuffix s suf = (if HasSuffix s suf then take (length s - length suf) s else s)"

fun Replace1 :: "string \<Rightarrow> string \<Rightarrow> string \<Rightarrow> string" where
  "Replace1 [] old new = []"
| "Replace1 (c # cs) old new =
     (if HasPrefix (c # cs) old then new @ drop (length old) (c # cs) else c # Replace1 cs old new)"

definition stripArchiveExtension :: "string \<Rightarrow> string" where
  "stripArchiveExtension name =
     (case find (HasSuffix name) [''.tar.gz'', ''.tgz'', ''.zip''] of None \<Rightarrow> name | Some ext \<Rightarrow> TrimSuffix name ext)"

definition canonicalizeArtifactName :: "string \<Rightarrow> string" where
  "canonicalizeArtifactName name =
     Replace1 (Replace1 name ''-linux-amd64'' ''-linux-x86_64'') ''-linux-arm64'' ''-linux-aarch64''"

text \<open>The loop runs over \<^verbatim>\<open>range len(name) - 2\<close>, which is empty for shorter names.\<close>

definition findVersionSuffixStart :: "string \<Rightarrow> int" where
  "findVersionSuffixStart name =
     (case find (\<lambda>i. name ! i = CHR ''-'' \<and> name ! (i + 1) = CHR ''v'' \<and> CHR ''0'' \<le> name ! (i + 2) \<and> name ! (i + 2) \<le> CHR ''9'')
        [0..<length name - 2] of None \<Rightarrow> -1 | Some i \<Rightarrow> int i)"

text \<open>\<^verbatim>\<open>path.Ext\<close>: the last element from its last dot on.\<close>

definition Ext :: "string \<Rightarrow> string" where
  "Ext p = (let l = rev (takeWhile (\<lambda>c. c \<noteq> slash) (rev p)) in
     if CHR ''.'' \<in> set l then CHR ''.'' # rev (takeWhile (\<lambda>c. c \<noteq> CHR ''.'') (rev l)) else [])"

section \<open>System calls of the installer\<close>

definition try_call :: "(fsys \<Rightarrow> errno option \<times> fsys) \<Rightarrow> disk \<Rightarrow> errno option \<times> disk" where
  "try_call f d = with_fault f (\<lambda>k fs. fs) d"

definition Stat_disk :: "path \<Rightarrow> string \<Rightarrow> disk \<Rightarrow> (errno + node) \<times> disk" where
  "Stat_disk cwd p d = (case next_fault d of (NoFault, d1) \<Rightarrow> (Stat cwd (fst d1) p, d1) | (Fault e k, d1) \<Rightarrow> (Inl e, d1))"

definition fileExistsQuiet :: "path \<Rightarrow> string \<Rightarrow> disk \<Rightarrow> bool \<times> disk" where
  "fileExistsQuiet cwd p d = (case Stat_disk cwd p d of (r, d1) \<Rightarrow> (\<not> isl r, d1))"

definition fileExists :: "path \<Rightarrow> string \<Rightarrow> disk \<Rightarrow> (errno + bool) \<times> disk" where
  "fileExists cwd p d = (case Stat_disk cwd p d of
     (Inl e, d1) \<Rightarrow> (if e = ENOENT then Inr False else Inl e, d1) | (Inr _, d1) \<Rightarrow> (Inr True, d1))"

text \<open>\<^verbatim>\<open>os.MkdirTemp\<close> with the names it draws, and \<^verbatim>\<open>os.RemoveAll\<close>.\<close>

fun MkdirTemp :: "path \<Rightarrow> string list \<Rightarrow> string \<Rightarrow> string \<Rightarrow> fsys \<Rightarrow> (errno + string) \<times> fsys" where
  "MkdirTemp cwd [] dir pattern fs = (Inl EEXIST, fs)"
| "MkdirTemp cwd (r # rs) dir pattern fs =
     (let name = (if dir \<noteq> [] \<and> last dir = slash then dir else dir @ [slash]) @ pattern @ r in
      case Mkdir cwd 448 name fs of
        (None, fs1) \<Rightarrow> (Inr name, fs1)
      | (Some e, fs1) \<Rightarrow> if e = EEXIST then MkdirTemp cwd rs dir pattern fs else (Inl e, fs))"

definition RemoveAll :: "path \<Rightarrow> string \<Rightarrow> fsys \<Rightarrow> errno option \<times> fsys" where
  "RemoveAll cwd p fs = (case resolve cwd fs False p of
     Inl e \<Rightarrow> (if e = ENOENT then None else Some e, fs)
   | Inr q \<Rightarrow> (None, \<lambda>r. if prefix q r then None else fs r))"

definition untar_disk :: "'w install_env \<Rightarrow> string \<Rightarrow> string \<Rightarrow> disk \<Rightarrow> archive_error option \<times> disk" where
  "untar_disk env p dest d = (case UntarGz (ieUntar env) (ieCwd env) p dest (fst d) of (r, fs) \<Rightarrow> (r, (fs, snd d)))"

definition unzip_disk :: "'w install_env \<Rightarrow> string \<Rightarrow> string \<Rightarrow> disk \<Rightarrow> archive_error option \<times> disk" where
  "unzip_disk env p dest d = (case Unzip (ieUnzip env) (ieCwd env) p dest (fst d) of (r, fs) \<Rightarrow> (r, (fs, snd d)))"

text \<open>\<open>n\<close> attempts are left after this one; the delay doubles in an \<^verbatim>\<open>int64\<close>.\<close>

fun retry_loop :: "nat \<Rightarrow> int \<Rightarrow> (int \<Rightarrow> 's \<Rightarrow> 's) \<Rightarrow> ('s \<Rightarrow> ('e + 'a) \<times> 's) \<Rightarrow> 's \<Rightarrow> ('e + 'a) \<times> 's" where
  "retry_loop n delay sleep fn s =
     (case fn s of (Inr a, s1) \<Rightarrow> (Inr a, s1)
      | (Inl e, s1) \<Rightarrow> (case n of 0 \<Rightarrow> (Inl e, s1) | Suc m \<Rightarrow> retry_loop m (int64 (delay * 2)) sleep fn (sleep delay s1)))"

declare retry_loop.simps [simp del]

definition retry :: "int \<Rightarrow> int \<Rightarrow> (int \<Rightarrow> 's \<Rightarrow> 's) \<Rightarrow> ('s \<Rightarrow> ('e + 'a) \<times> 's) \<Rightarrow> 's \<Rightarrow> ('e + 'a) \<times> 's" where
  "retry attempts delay sleep fn s =
     retry_loop (nat (max attempts 1 - 1)) (if delay \<le> 0 then second else delay) sleep fn s"

definition downloadRetryAttempts :: int where "downloadRetryAttempts = 3"
definition downloadRetryDelay :: int where "downloadRetryDelay = 2 * second"
definition binaryPerm :: nat where "binaryPerm = 493"
definition minChecksumFields :: nat where "minChecksumFields = 2"

text \<open>The value is only logged, in a rendering of a library; the requests count.\<close>

definition probeDownloadSize :: "'w install_env \<Rightarrow> string \<Rightarrow> Op option \<Rightarrow> 'w \<Rightarrow> int \<times> 'w" where
  "probeDownloadSize env downloadURL options w =
     (case options of None \<Rightarrow> (-1, w)
      | Some op \<Rightarrow> if opOffline op then (-1, w)
          else case retry downloadRetryAttempts downloadRetryDelay (ieSleep env)
                      (HeadURLForContentLength (ieHTTP env) downloadURL [WithTimeout (opDownloadTimeout op)]) w of
                 (Inl e, w1) \<Rightarrow> (-1, w1) | (Inr n, w1) \<Rightarrow> (n, w1))"

section \<open>The artifact directory\<close>

text \<open>A binary below \<open>dir\<close>, or the archive next to it, extracted in place; the empty path is nothing found.\<close>

definition pre_extracted_in :: "'w install_env \<Rightarrow> string \<Rightarrow> string \<Rightarrow> disk \<Rightarrow> string \<times> disk" where
  "pre_extracted_in env dir expectedName d =
     (let p = PathJoin [dir, expectedName]; t = PathJoin [dir, expectedName @ ''.tar.gz''] in
      case fileExistsQuiet (ieCwd env) p d of
        (True, d1) \<Rightarrow> (p, d1)
      | (False, d1) \<Rightarrow>
        (case fileExistsQuiet (ieCwd env) t d1 of
           (False, d2) \<Rightarrow> ([], d2)
         | (True, d2) \<Rightarrow>
           (case untar_disk env t (Dir t) d2 of
              (Some e, d3) \<Rightarrow> ([], d3)
            | (None, d3) \<Rightarrow> (case fileExistsQuiet (ieCwd env) p d3 of (found, d4) \<Rightarrow> (if found then p else [], d4)))))"

definition findPreExtractedBinary :: "'w install_env \<Rightarrow> string \<Rightarrow> string \<Rightarrow> string \<Rightarrow> disk \<Rightarrow> string \<times> disk" where
  "findPreExtractedBinary env artifactDir artifactName binName d =
     (let binBase = stripArchiveExtension artifactName in
      if binBase = artifactName then ([], d)
      else let expectedName = (if \<not> HasPrefix binBase (binName @ ''-'') \<and> binBase \<noteq> binName \<and> 0 \<le> findVersionSuffixStart binBase
                 then binName @ drop (nat (findVersionSuffixStart binBase)) binBase else binBase);
               expectedName = canonicalizeArtifactName expectedName
           in case pre_extracted_in env (PathJoin [artifactDir, ''bin'']) expectedName d of
                (p, d1) \<Rightarrow> if p \<noteq> [] then (p, d1) else pre_extracted_in env artifactDir expectedName d1)"

definition resolveFromArtifactDir :: "'w install_env \<Rightarrow> string \<Rightarrow> string \<Rightarrow> bool \<Rightarrow> disk \<Rightarrow> (install_error + string) \<times> disk" where
  "resolveFromArtifactDir env artifactDir artifactName offline d =
     (let localPath = PathJoin [artifactDir, artifactName];
          canonical = canonicalizeArtifactName artifactName;
          canonicalPath = PathJoin [artifactDir, canonical];
          absent = (if offline then Inl (ErrOfflineNotFound localPath) else Inr [])
      in case fileExists (ieCwd env) localPath d of
        (Inl e, d1) \<Rightarrow> (Inl (ErrArtifactPath e), d1)
      | (Inr True, d1) \<Rightarrow> (Inr localPath, d1)
      | (Inr False, d1) \<Rightarrow>
          if canonical \<noteq> artifactName
          then (case fileExists (ieCwd env) canonicalPath d1 of
                  (Inl e, d2) \<Rightarrow> (Inl (ErrArtifactPath e), d2)
                | (Inr True, d2) \<Rightarrow> (Inr canonicalPath, d2)
                | (Inr False, d2) \<Rightarrow> (absent, d2))
          else (absent, d1))"

section \<open>Fetching and verifying\<close>

type_synonym 'w install_state = "disk \<times> 'w"

definition fetch_artifact :: "'w install_env \<Rightarrow> string \<Rightarrow> string \<Rightarrow> string \<Rightarrow> Op \<Rightarrow> 'w install_state \<Rightarrow> (install_error + string) \<times> 'w install_state" where
  "fetch_artifact env binName downloadURL tmpDir op s =
     (case retry downloadRetryAttempts downloadRetryDelay (\<lambda>dur (d, w). (d, ieSleep env dur w))
             (DownloadURLToFile (ieHTTP env) (ieCwd env) (ieTempDir env) [] downloadURL
                [WithTimeout (opDownloadTimeout op), WithDownloadFilePath (PathJoin [tmpDir, binName])]) s of
        (Inl e, s1) \<Rightarrow> (Inl (ErrDownload e), s1) | (Inr p, s1) \<Rightarrow> (Inr p, s1))"

definition resolveDownloadedFile ::
  "'w install_env \<Rightarrow> string \<Rightarrow> string \<Rightarrow> string \<Rightarrow> string \<Rightarrow> Op option \<Rightarrow> 'w install_state \<Rightarrow> (install_error + string) \<times> 'w install_state" where
  "resolveDownloadedFile env binName artifactName downloadURL tmpDir options s =
     (case options of None \<Rightarrow> (Inl ErrOptsNil, s)
      | Some op \<Rightarrow>
        if opOffline op \<and> opArtifactDir op = [] then (Inl ErrOfflineDirUnset, s)
        else if opArtifactDir op \<noteq> []
        then (case resolveFromArtifactDir env (opArtifactDir op) artifactName (opOffline op) (fst s) of
                (Inl e, d1) \<Rightarrow> (Inl e, (d1, snd s))
              | (Inr cached, d1) \<Rightarrow>
                  if cached \<noteq> [] then (Inr cached, (d1, snd s))
                  else fetch_artifact env binName downloadURL tmpDir op (d1, snd s))
        else fetch_artifact env binName downloadURL tmpDir op s)"

fun checksum_line :: "string list \<Rightarrow> string \<Rightarrow> install_error + string" where
  "checksum_line [] artifactName = Inl (ErrChecksumEntry artifactName)"
| "checksum_line (line # ls) artifactName =
     (let fields = Fields (TrimSpace line) in
      if TrimSpace line = [] \<or> length fields < minChecksumFields then checksum_line ls artifactName
      else if fields ! 1 = artifactName then Inr (fields ! 0)
      else checksum_line ls artifactName)"

definition parseSHA256SUMS :: "string \<Rightarrow> string \<Rightarrow> install_error + string" where
  "parseSHA256SUMS data artifactName = checksum_line (Split line_feed data) artifactName"

definition loadManifest :: "'w install_env \<Rightarrow> string \<Rightarrow> disk \<Rightarrow> (install_error + Manifest) \<times> disk" where
  "loadManifest env p d =
     (if TrimSpace p = [] then (Inl ErrManifestPathEmpty, d)
      else case LoadManifest (ieYAML env) (ieCwd env) p d of
             (Inl e, d1) \<Rightarrow> (Inl (ErrLoadManifest e), d1) | (Inr m, d1) \<Rightarrow> (Inr m, d1))"

definition verify_sha :: "'w install_env \<Rightarrow> string \<Rightarrow> string \<Rightarrow> int \<Rightarrow> 'w install_state \<Rightarrow> install_error option \<times> 'w install_state" where
  "verify_sha env filePath expected expectedSize s =
     (case VerifyFileSHA256 (ieSHA256 env) (ieCwd env) filePath expected expectedSize (fst s) of
        (e, d1) \<Rightarrow> (map_option ErrVerify e, (d1, snd s)))"

definition sums_url :: "'w install_env \<Rightarrow> string \<Rightarrow> string + string" where
  "sums_url env rawURL = (case ieParseURL env rawURL of Inl e \<Rightarrow> Inl e
     | Inr (p, render) \<Rightarrow> Inr (render (Dir p @ ''/SHA256SUMS'')))"

definition verifyArtifact ::
  "'w install_env \<Rightarrow> string \<Rightarrow> string \<Rightarrow> string \<Rightarrow> Manifest option \<Rightarrow> bool \<Rightarrow> int \<Rightarrow> 'w install_state \<Rightarrow> install_error option \<times> 'w install_state" where
  "verifyArtifact env filePath artifactName rawURL manifest offline timeout s =
     (if manifest \<noteq> None
      then (case Find manifest artifactName of
              None \<Rightarrow> (Some (ErrManifestEntry artifactName), s)
            | Some entry \<Rightarrow> verify_sha env filePath (arSHA256 entry) (arSize entry) s)
      else if offline then (None, s)
      else case sums_url env rawURL of
        Inl e \<Rightarrow> (Some (ErrParseURL e), s)
      | Inr sumURL \<Rightarrow>
        (case DownloadURL (ieHTTP env) sumURL [WithTimeout timeout] (snd s) of
           (Inl e, w1) \<Rightarrow> (Some (ErrChecksumList e), (fst s, w1))
         | (Inr body, w1) \<Rightarrow>
           (case parseSHA256SUMS body artifactName of
              Inl e \<Rightarrow> (Some e, (fst s, w1))
            | Inr expected \<Rightarrow> verify_sha env filePath expected 0 (fst s, w1))))"

section \<open>Installation\<close>

definition extract_with ::
  "('w install_env \<Rightarrow> string \<Rightarrow> string \<Rightarrow> disk \<Rightarrow> archive_error option \<times> disk) \<Rightarrow> 'w install_env \<Rightarrow> string \<Rightarrow> string \<Rightarrow> string \<Rightarrow> string \<Rightarrow> string \<Rightarrow>
   disk \<Rightarrow> (install_error + string) \<times> disk" where
  "extract_with unpack env suf binName downloadedFile downloadURL tmpDir d =
     (case unpack env downloadedFile tmpDir d of
        (Some e, d1) \<Rightarrow> (Inl (ErrExtract e), d1)
      | (None, d1) \<Rightarrow> (Inr (PathJoin [tmpDir, TrimSuffix (Base downloadURL) suf, binName]), d1))"

definition extractDownloadedBin ::
  "'w install_env \<Rightarrow> string \<Rightarrow> string \<Rightarrow> string \<Rightarrow> string \<Rightarrow> disk \<Rightarrow> (install_error + string) \<times> disk" where
  "extractDownloadedBin env binName downloadedFile downloadURL tmpDir d =
     (if HasSuffix downloadURL ''.tar.gz'' then extract_with untar_disk env ''.tar.gz'' binName downloadedFile downloadURL tmpDir d
      else if HasSuffix downloadURL ''.tgz'' then extract_with untar_disk env ''.tgz'' binName downloadedFile downloadURL tmpDir d
      else if Ext downloadURL = ''.zip'' then extract_with unzip_disk env ''.zip'' binName downloadedFile downloadURL tmpDir d
      else (Inr downloadedFile, d))"

definition moveFile :: "path \<Rightarrow> string \<Rightarrow> string \<Rightarrow> disk \<Rightarrow> move_error option \<times> disk" where
  "moveFile cwd src dst d =
     (case try_call (Rename cwd src dst) d of
        (None, d1) \<Rightarrow> (None, d1)
      | (Some e, d1) \<Rightarrow>
          if e \<noteq> EXDEV then (Some (MvRename e), d1)
          else case CopyFile cwd src dst d1 of
                 (Some ce, d2) \<Rightarrow> (Some (MvCopy ce), d2)
               | (None, d2) \<Rightarrow> (None, snd (try_call (Remove cwd src) d2)))"

definition finalizeDownloadedBin :: "path \<Rightarrow> string \<Rightarrow> string \<Rightarrow> disk \<Rightarrow> install_error option \<times> disk" where
  "finalizeDownloadedBin cwd downloadedBin binPath d =
     (case moveFile cwd downloadedBin binPath d of
        (Some e, d1) \<Rightarrow> (Some (ErrMove e), d1)
      | (None, d1) \<Rightarrow> (case try_call (Chmod cwd binaryPerm binPath) d1 of (e, d2) \<Rightarrow> (map_option ErrBinaryMode e, d2)))"

definition checkVersion :: "'w install_env \<Rightarrow> string \<Rightarrow> string list \<Rightarrow> 'w install_state \<Rightarrow> (install_error + string) \<times> 'w install_state" where
  "checkVersion env binPath checkVersionArgs s =
     (case ieOutput env binPath checkVersionArgs s of (Inl e, s1) \<Rightarrow> (Inl (ErrCheckVersion e), s1) | (Inr out, s1) \<Rightarrow> (Inr out, s1))"

definition check_if_asked :: "'w install_env \<Rightarrow> Op \<Rightarrow> string \<Rightarrow> string list \<Rightarrow> 'w install_state \<Rightarrow> (install_error + string) \<times> 'w install_state" where
  "check_if_asked env op binPath checkVersionArgs s =
     (if \<not> opVersionCheck op then (Inr [], s) else checkVersion env binPath checkVersionArgs s)"

text \<open>The use of a binary of the artifact directory.\<close>

definition install_pre_extracted ::
  "'w install_env \<Rightarrow> string list \<Rightarrow> string \<Rightarrow> Op \<Rightarrow> string \<Rightarrow> 'w install_state \<Rightarrow> (install_error + string) \<times> 'w install_state" where
  "install_pre_extracted env checkVersionArgs binPath op preExtracted s =
     (case CopyFile (ieCwd env) preExtracted binPath (fst s) of
        (Some e, d1) \<Rightarrow> (Inl (ErrCopyPreExtracted e), (d1, snd s))
      | (None, d1) \<Rightarrow>
        (case try_call (Chmod (ieCwd env) binaryPerm binPath) d1 of
           (Some e, d2) \<Rightarrow> (Inl (ErrPreExtractedMode e), (d2, snd s))
         | (None, d2) \<Rightarrow> check_if_asked env op binPath checkVersionArgs (d2, snd s)))"

text \<open>What happens in the temporary directory, before the binary is moved to its place: the path of the
  binary.\<close>

definition stage_artifact ::
  "'w install_env \<Rightarrow> string \<Rightarrow> string \<Rightarrow> string \<Rightarrow> Op \<Rightarrow> 'w install_state \<Rightarrow> (install_error + string) \<times> 'w install_state" where
  "stage_artifact env binName u tmpDir op s =
     (case loadManifest env (opManifestPath op) (fst s) of (lm, d1) \<Rightarrow>
      if (case lm of Inl e \<Rightarrow> e \<noteq> ErrManifestPathEmpty | Inr _ \<Rightarrow> False) then (Inl (projl lm), (d1, snd s))
      else let manifest = (case lm of Inl e \<Rightarrow> None | Inr m \<Rightarrow> Some m) in
      (case resolveDownloadedFile env binName (Base u) u tmpDir (Some op) (d1, snd s) of
         (Inl e, s2) \<Rightarrow> (Inl e, s2)
       | (Inr downloadedFile, s2) \<Rightarrow>
         (case verifyArtifact env downloadedFile (Base u) u manifest (opOffline op) (opDownloadTimeout op) s2 of
            (Some e, s3) \<Rightarrow> (Inl e, s3)
          | (None, s3) \<Rightarrow>
            (case extractDownloadedBin env binName downloadedFile u tmpDir (fst s3) of (r, d4) \<Rightarrow> (r, (d4, snd s3))))))"

definition install_artifact ::
  "'w install_env \<Rightarrow> string \<Rightarrow> string list \<Rightarrow> string \<Rightarrow> string \<Rightarrow> Op \<Rightarrow> 'w install_state \<Rightarrow> (install_error + string) \<times> 'w install_state" where
  "install_artifact env binName checkVersionArgs binPath u op s =
     (case next_fault (fst s) of
        (Fault e k, d1) \<Rightarrow> (Inl (ErrTempDir e), (d1, snd s))
      | (NoFault, d1) \<Rightarrow>
        (case MkdirTemp (ieCwd env) (ieTempNames env (snd s)) (ieTempDir env) ''etcd-install'' (fst d1) of
           (Inl e, fs) \<Rightarrow> (Inl (ErrTempDir e), ((fs, snd d1), snd s))
         | (Inr tmpDir, fs) \<Rightarrow>
           (case (case stage_artifact env binName u tmpDir op ((fs, snd d1), snd s) of
                    (Inl e, s2) \<Rightarrow> (Inl e, s2)
                  | (Inr downloadedBin, s2) \<Rightarrow>
                    (case finalizeDownloadedBin (ieCwd env) downloadedBin binPath (fst s2) of
                       (Some e, d3) \<Rightarrow> (Inl e, (d3, snd s2))
                     | (None, d3) \<Rightarrow> check_if_asked env op binPath checkVersionArgs (d3, snd s2)))
            of (r, s4) \<Rightarrow> (r, (snd (try_call (RemoveAll (ieCwd env) tmpDir) (fst s4)), snd s4)))))"

definition download ::
  "'w install_env \<Rightarrow> string \<Rightarrow> string list \<Rightarrow> string \<Rightarrow> OpOption list \<Rightarrow> 'w install_state \<Rightarrow> (install_error + string) \<times> 'w install_state" where
  "download env binName checkVersionArgs binPath opts s =
     (let op = applyOpts opts zero_Op in
      case resolveDownloadURL env (Some op) of
        Inl e \<Rightarrow> (Inl e, s)
      | Inr u \<Rightarrow>
        (let w1 = snd (probeDownloadSize env u (Some op) (snd s)) in
         case (if opArtifactDir op \<noteq> [] then findPreExtractedBinary env (opArtifactDir op) (Base u) binName (fst s) else ([], fst s)) of
           (preExtracted, d1) \<Rightarrow>
             if preExtracted \<noteq> [] then install_pre_extracted env checkVersionArgs binPath op preExtracted (d1, w1)
             else install_artifact env binName checkVersionArgs binPath u op (d1, w1)))"

definition DownloadEtcd :: "'w install_env \<Rightarrow> string \<Rightarrow> OpOption list \<Rightarrow> 'w install_state \<Rightarrow> (install_error + string) \<times> 'w install_state" where
  "DownloadEtcd env binPath opts = download env ''etcd'' [''--version''] binPath opts"

definition DownloadEtcdctl :: "'w install_env \<Rightarrow> string \<Rightarrow> OpOption list \<Rightarrow> 'w install_state \<Rightarrow> (install_error + string) \<times> 'w install_state" where
  "DownloadEtcdctl env binPath opts = download env ''etcdctl'' [''version''] binPath opts"

definition DownloadEtcdutl :: "'w install_env \<Rightarrow> string \<Rightarrow> OpOption list \<Rightarrow> 'w install_state \<Rightarrow> (install_error + string) \<times> 'w install_state" where
  "DownloadEtcdutl env binPath opts = download env ''etcdutl'' [''version''] binPath opts"

section \<open>The install command\<close>

datatype install_command_error = CmdDirRequired | CmdVersion string | CmdMkdir errno | CmdInstall string install_error

fun install_each ::
  "(string \<times> (string \<Rightarrow> OpOption list \<Rightarrow> 's \<Rightarrow> (install_error + string) \<times> 's)) list \<Rightarrow> string \<Rightarrow> string \<Rightarrow> 's \<Rightarrow> install_command_error option \<times> 's" where
  "install_each [] dir v s = (None, s)"
| "install_each ((name, fn) # rest) dir v s =
     (case fn (PathJoin [dir, name]) [WithVersion v, WithVersionCheck True] s of
        (Inl e, s1) \<Rightarrow> (Some (CmdInstall name e), s1)
      | (Inr out, s1) \<Rightarrow> install_each rest dir v s1)"

text \<open>The parsed flags are arguments; the last step only prints.\<close>

definition runInstall ::
  "'w install_env \<Rightarrow> (string \<Rightarrow> bool) \<Rightarrow> string \<Rightarrow> string \<Rightarrow> 'w install_state \<Rightarrow> install_command_error option \<times> 'w install_state" where
  "runInstall env semver version dir s =
     (if TrimSpace dir = [] then (Some CmdDirRequired, s)
      else case resolveVersion (LatestVersion (ieHTTP env)) semver version (snd s) of
        (Inl e, w1) \<Rightarrow> (Some (CmdVersion e), (fst s, w1))
      | (Inr v, w1) \<Rightarrow>
        (case try_call (MkdirAll (ieCwd env) 493 dir) (fst s) of
           (Some e, d2) \<Rightarrow> (Some (CmdMkdir e), (d2, w1))
         | (None, d2) \<Rightarrow>
             install_each [(''etcd'', DownloadEtcd env), (''etcdctl'', DownloadEtcdctl env), (''etcdutl'', DownloadEtcdutl env)] dir v (d2, w1)))"

end
