(* ===== verification/InstallerSafety.thy ===== *)
theory InstallerSafety
  imports Installer
begin

text \<open>
  What the installer does to the disk and to the network. The temporary directory is new, so everything
  in it was put there by the installer itself: the artifact, and the entries of the archive. Until the
  binary is moved to its place nothing else changes; what is moved is the artifact or an entry of it with the
  name the release layout gives the binary, and the artifact has the checksum that was published or
  listed.
\<close>

section \<open>Retrying\<close>

lemma retry_loop_inv:
  assumes "\<And>s r s'. P s \<Longrightarrow> fn s = (r, s') \<Longrightarrow> P s'" "\<And>d s. P s \<Longrightarrow> P (sleep d s)"
  shows "P s \<Longrightarrow> retry_loop n delay sleep fn s = (r, s') \<Longrightarrow> P s' \<and> (\<forall>a. r = Inr a \<longrightarrow> (\<exists>s0. P s0 \<and> fn s0 = (Inr a, s')))"
proof (induction n arbitrary: delay s)
  case 0
  obtain q s1 where f: "fn s = (q, s1)" by fastforce
  with 0 assms(1) [OF 0(1) f] show ?case
    by (auto simp: retry_loop.simps [of 0] split: sum.splits)
next
  case (Suc n)
  obtain q s1 where f: "fn s = (q, s1)" by fastforce
  have p: "P s1" "P (sleep delay s1)" using assms(1) [OF Suc.prems(1) f] assms(2) by blast+
  show ?case
  proof (cases q)
    case (Inl e)
    with Suc.prems(2) f have "retry_loop n (int64 (delay * 2)) sleep fn (sleep delay s1) = (r, s')"
      by (simp add: retry_loop.simps [of "Suc n"])
    from Suc.IH [OF p(2) this] show ?thesis .
  next
    case (Inr a)
    with Suc.prems f p show ?thesis by (auto simp: retry_loop.simps [of "Suc n"])
  qed
qed

lemma retry_inv:
  assumes "retry attempts delay sleep fn s = (r, s')" "P s"
    and "\<And>s r s'. P s \<Longrightarrow> fn s = (r, s') \<Longrightarrow> P s'" "\<And>d s. P s \<Longrightarrow> P (sleep d s)"
  shows "P s'" and "r = Inr a \<Longrightarrow> \<exists>s0. P s0 \<and> fn s0 = (Inr a, s')"
proof -
  have "P s' \<and> (\<forall>a. r = Inr a \<longrightarrow> (\<exists>s0. P s0 \<and> fn s0 = (Inr a, s')))"
    using retry_loop_inv [of P fn sleep s] assms unfolding retry_def by blast
  then show "P s'" and "r = Inr a \<Longrightarrow> \<exists>s0. P s0 \<and> fn s0 = (Inr a, s')" by blast+
qed

section \<open>The temporary directory\<close>

text \<open>\<open>T\<close> is the directory in which names are drawn, \<open>TD\<close> the new directory and \<open>RX\<close> where it is.\<close>

lemma resolve_child_nofollow:
  assumes "dest_at cwd fs D R" "plain n"
  shows "resolve cwd fs False (under D [n] False) = Inr (R @ [n])"
proof -
  obtain k where w: "walk 40 fs (if IsAbs D then [] else cwd) (Split slash D) True = Inr (k, R)"
      and D: "D \<noteq> []" "is_dir (fs R)" using assms(1) by (auto simp: dest_at_def)
  have n: "n \<noteq> []" "n \<noteq> ''.''" "n \<noteq> ''..''" using assms(2) by (auto simp: plain_def)
  have "walk k fs R [n] False = Inr (k, R @ [n])"
    using D(2) n by (auto split: option.split node.split)
  moreover have "under D [n] False \<noteq> []" by (simp add: under_def)
  ultimately show ?thesis
    using walk_append [OF w D(2), of "[n]" False] Split_under [of "[n]" D False] assms(2)
    by (simp add: resolve_def IsAbs_under [OF D(1)])
qed

lemma MkdirTemp_new:
  assumes "dest_at cwd fs D R" "last D \<noteq> slash" "\<forall>r \<in> set draws. plain (pattern @ r)"
    and "MkdirTemp cwd draws D pattern fs = (r, fs')"
  shows "case r of Inl _ \<Rightarrow> fs' = fs
    | Inr t \<Rightarrow> \<exists>x \<in> set draws. t = under D [pattern @ x] False \<and> fs (R @ [pattern @ x]) = None \<and>
        fs' = fs(R @ [pattern @ x] \<mapsto> NDir 448)"
  using assms(3,4)
proof (induction draws)
  case (Cons x draws)
  have name: "(if D \<noteq> [] \<and> last D = slash then D else D @ [slash]) @ pattern @ x = under D [pattern @ x] False"
    using assms(2) by (simp add: under_one)
  have res: "resolve cwd fs False (under D [pattern @ x] False) = Inr (R @ [pattern @ x])"
    using resolve_child_nofollow [OF assms(1)] Cons.prems(1) by simp
  show ?case
  proof (cases "fs (R @ [pattern @ x]) = None")
    case True
    with Cons.prems(2) res name show ?thesis by (auto simp: Mkdir_def Let_def)
  next
    case False
    then have "MkdirTemp cwd draws D pattern fs = (r, fs')"
      using Cons.prems(2) res name by (auto simp: Mkdir_def Let_def)
    with Cons.IH Cons.prems(1) show ?thesis by (cases r) auto
  qed
qed auto

text \<open>\<open>fs0\<close> is the disk when the directory has just been made. In it only the file \<open>bin\<close> is written before
  the extraction.\<close>

definition fresh_dir :: "path \<Rightarrow> string \<Rightarrow> path \<Rightarrow> fsys \<Rightarrow> bool" where
  "fresh_dir cwd TD RX fs0 \<longleftrightarrow> dest_at cwd fs0 TD RX \<and> Clean TD = TD \<and> comps TD \<noteq> [] \<and> wf_fs cwd fs0 \<and>
     (\<forall>q. prefix RX q \<longrightarrow> q \<noteq> RX \<longrightarrow> fs0 q = None)"

definition staging :: "path \<Rightarrow> string \<Rightarrow> path \<Rightarrow> fsys \<Rightarrow> string \<Rightarrow> fsys \<Rightarrow> bool" where
  "staging cwd TD RX fs0 bin fs \<longleftrightarrow> confined RX fs0 fs \<and> wf_fs cwd fs \<and> files_from (\<lambda>q b. q = RX @ [bin]) fs0 fs"

lemma fresh_link_free:
  assumes "fresh_dir cwd TD RX fs0" "confined RX fs0 fs" "list_all plain ns"
  shows "link_free fs RX ns"
proof -
  have "\<not> is_link (fs0 (RX @ ms))" for ms
    using assms(1) by (cases "ms = []") (auto simp: fresh_dir_def dest_at_def is_dir_iff)
  with assms(2,3) show ?thesis by (auto simp: link_free_def confined_def)
qed

lemma fresh_dest: "fresh_dir cwd TD RX fs0 \<Longrightarrow> confined RX fs0 fs \<Longrightarrow> dest_at cwd fs TD RX"
  by (auto simp: fresh_dir_def intro: dest_at_confined)

lemma fresh_resolve:
  assumes "fresh_dir cwd TD RX fs0" "confined RX fs0 fs" "list_all plain ns" "ns \<noteq> []"
    and "resolve cwd fs follow (under TD ns False) = Inr q"
  shows "q = RX @ ns"
  using resolve_under [OF fresh_dest [OF assms(1,2)] fresh_link_free [OF assms(1,2,3)] _ assms(5)] assms(4) by simp

lemma staging_refl: "fresh_dir cwd TD RX fs0 \<Longrightarrow> staging cwd TD RX fs0 bin fs0"
  by (simp add: staging_def fresh_dir_def)

lemma staging_step:
  assumes "staging cwd TD RX fs0 bin fs" "confined RX fs fs'" "wf_fs cwd fs'" "files_from (\<lambda>q b. q = RX @ [bin]) fs fs'"
  shows "staging cwd TD RX fs0 bin fs'"
  using assms confined_trans files_from_trans unfolding staging_def by blast

lemma append_file_staging:
  assumes "fresh_dir cwd TD RX fs0" "staging cwd TD RX fs0 bin fs" "plain bin"
    and "append_file cwd (under TD [bin] False) content fs = (err, fs')"
  shows "staging cwd TD RX fs0 bin fs'"
proof (cases "resolve cwd fs True (under TD [bin] False)")
  case (Inl e)
  with assms(2,4) show ?thesis by (simp add: append_file_def)
next
  case (Inr q)
  have q: "q = RX @ [bin]" using fresh_resolve [OF assms(1) _ _ _ Inr] assms(2,3) by (simp add: staging_def)
  show ?thesis
  proof (cases "\<exists>m c. fs q = Some (NFile m c)")
    case True
    then obtain m c where at: "fs q = Some (NFile m c)" by blast
    then have fs': "fs' = fs(q \<mapsto> NFile m (c @ content))" using Inr assms(4) by (simp add: append_file_def)
    have "confined RX fs fs'" unfolding fs' q by (rule confined_update) (use at q in simp_all)
    moreover have "wf_fs cwd fs'" unfolding fs'
      by (rule wf_fs_update) (use assms(2) at in \<open>simp_all add: staging_def\<close>)
    moreover have "files_from (\<lambda>r b. r = RX @ [bin]) fs fs'" unfolding fs' by (rule files_from_update) (simp add: q)
    ultimately show ?thesis by (rule staging_step [OF assms(2)])
  next
    case False
    then have "fs' = fs" using Inr assms(4) by (auto simp: append_file_def split: option.splits node.splits)
    with assms(2) show ?thesis by simp
  qed
qed

lemma WriteFile_staging:
  assumes "fresh_dir cwd TD RX fs0" "staging cwd TD RX fs0 bin fs" "plain bin"
    and "WriteFile cwd perm content (under TD [bin] False) fs = (err, fs')"
  shows "staging cwd TD RX fs0 bin fs'"
proof -
  have c: "confined RX fs0 fs" "wf_fs cwd fs" using assms(2) by (simp_all add: staging_def)
  have pl: "list_all plain [bin]" using assms(3) by simp
  show ?thesis
  proof (rule staging_step [OF assms(2)])
    show "confined RX fs fs'"
      by (rule WriteFile_under(1) [OF fresh_dest [OF assms(1) c(1)] fresh_link_free [OF assms(1) c(1) pl] assms(4)])
    show "wf_fs cwd fs'" by (rule WriteFile_wf [OF c(2) assms(4)])
    show "files_from (\<lambda>q b. q = RX @ [bin]) fs fs'"
      using fresh_resolve [OF assms(1) c(1) pl] by (intro WriteFile_files [OF assms(4)]) auto
  qed
qed

lemma DownloadURLToFile_staging:
  assumes "fresh_dir cwd TD RX fs0" "plain bin" "staging cwd TD RX fs0 bin (fst (fst s))"
    and "DownloadURLToFile cl cwd tmp draws url [WithTimeout n, WithDownloadFilePath (under TD [bin] False)] s = (r, s')"
  shows "staging cwd TD RX fs0 bin (fst (fst s'))" and "r = Inr p \<Longrightarrow> p = under TD [bin] False"
proof -
  let ?opts = "[WithTimeout n, WithDownloadFilePath (under TD [bin] False)]"
  have path: "hoDownloadFilePath (http_options ?opts) = under TD [bin] False" "under TD [bin] False \<noteq> []"
    by (simp_all add: http_options_def WithTimeout_def WithDownloadFilePath_def under_one)
  obtain q w1 where h: "http_fetch cl ''GET'' url (http_options ?opts) (snd s) = (q, w1)" by fastforce
  obtain t d1 where t: "download_target cwd tmp draws (http_options ?opts) (fst s) = (t, d1)" by (metis surj_pair)
  have t1: "staging cwd TD RX fs0 bin (fst d1)" and t2: "t = Inr y \<Longrightarrow> y = under TD [bin] False" for y
    using t assms(3) WriteFile_staging [OF assms(1) _ assms(2)] path
    by (auto simp: download_target_def next_fault_def split: list.splits fault.splits prod.splits option.splits)
  have app: "staging cwd TD RX fs0 bin (fst d2)"
    if "with_fault (append_file cwd (under TD [bin] False) x) (\<lambda>k fs. snd (append_file cwd (under TD [bin] False) (take k x) fs)) d1 = (e, d2)"
    for x e d2
    using that append_file_staging [OF assms(1) _ assms(2)] t1
    by (cases d1) (auto elim!: with_fault_cases intro: append_file_staging [OF assms(1) _ assms(2) prod.collapse [symmetric]])
  show "staging cwd TD RX fs0 bin (fst (fst s'))"
    using assms(3,4) h t t1 t2 app
    by (auto simp: DownloadURLToFile_def split: sum.splits prod.splits option.splits)
  show "r = Inr p \<Longrightarrow> p = under TD [bin] False"
    using assms(4) h t t2 by (auto simp: DownloadURLToFile_def split: sum.splits prod.splits option.splits)
qed

section \<open>Staging an artifact\<close>

text \<open>What a verified artifact is: its checksum is the one the manifest lists, or the one published next to
  it.\<close>

definition artifact_checksum :: "'w install_env \<Rightarrow> Op \<Rightarrow> string \<Rightarrow> disk \<Rightarrow> string \<Rightarrow> bool" where
  "artifact_checksum env op u d c \<longleftrightarrow>
     (if TrimSpace (opManifestPath op) = []
      then \<exists>w1 w2 url body expected. sums_url env u = Inr url \<and>
        DownloadURL (ieHTTP env) url [WithTimeout (opDownloadTimeout op)] w1 = (Inr body, w2) \<and>
        parseSHA256SUMS body (Base u) = Inr expected \<and> has_checksum (ieSHA256 env) expected 0 c
      else \<exists>mf d1 entry. LoadManifest (ieYAML env) (ieCwd env) (opManifestPath op) d = (Inr mf, d1) \<and>
        Find (Some mf) (Base u) = Some entry \<and> has_checksum (ieSHA256 env) (arSHA256 entry) (arSize entry) c)"

text \<open>Where the release layout has the binary, and the bytes it has there.\<close>

definition archive_suffix :: "string \<Rightarrow> string option" where
  "archive_suffix u = (if HasSuffix u ''.tar.gz'' then Some ''.tar.gz'' else if HasSuffix u ''.tgz'' then Some ''.tgz''
     else if Ext u = ''.zip'' then Some ''.zip'' else None)"

definition binary_names :: "string \<Rightarrow> string \<Rightarrow> string list" where
  "binary_names u bin = (case archive_suffix u of None \<Rightarrow> [bin] | Some suf \<Rightarrow> [TrimSuffix (Base u) suf, bin])"

definition binary_of :: "'w install_env \<Rightarrow> string \<Rightarrow> string \<Rightarrow> string \<Rightarrow> string \<Rightarrow> bool" where
  "binary_of env u bin c body \<longleftrightarrow>
     (case archive_suffix u of
        None \<Rightarrow> body = c
      | Some suf \<Rightarrow>
          if suf = ''.zip''
          then \<exists>es. ieUnzip env c = Inr es \<and>
            (\<exists>f \<in> set es. \<not> zeIsDir f \<and> entry_names (zeName f) = binary_names u bin \<and> zeBody f = body)
          else \<exists>es. ieUntar env c = Inr (es, None) \<and>
            (\<exists>e \<in> set es. teType e = TypeReg \<and> entry_names (teName e) = binary_names u bin \<and> teBody e = body))"

definition holds_binary :: "'w install_env \<Rightarrow> string \<Rightarrow> string \<Rightarrow> string \<Rightarrow> node option \<Rightarrow> bool" where
  "holds_binary env u bin c nd \<longleftrightarrow> nd \<noteq> Some NOther \<and> (\<forall>k b. nd = Some (NFile k b) \<longrightarrow> binary_of env u bin c b)"

lemma join_names:
  assumes "fresh_dir cwd TD RX fs0" "plain a" "plain b"
  shows "PathJoin [TD, a] = under TD [a] False" and "PathJoin [TD, a, b] = under TD [a, b] False"
proof -
  have D: "TD = Clean TD" "comps TD \<noteq> []" using assms(1) by (simp_all add: fresh_dir_def)
  then show "PathJoin [TD, a] = under TD [a] False" using Clean_child(1) [OF D(2) assms(2)] by simp
  have u: "TD = unparse (IsAbs TD) (comps TD)" using D(1) by (simp add: Clean_def)
  have ab: "unparse False [a, b] = a @ slash # b" by (simp add: unparse_def)
  have ne: "TD \<noteq> []" "a \<noteq> []" "b \<noteq> []" using assms(2,3) D(1) by (auto simp: plain_def) (metis Clean_nonempty)
  have "PathJoin [TD, a, b] = PathJoin [TD, unparse False [a, b]]"
    using ne by (simp add: PathJoin_def ab)
  also have "\<dots> = unparse (IsAbs TD) (comps TD @ [a, b])"
    using PathJoin_plain [OF good_comps_comps, of "[a, b]" TD] u assms(2,3) by simp
  also have "\<dots> = under TD [a, b] False" using unparse_append [OF D(2)] u by metis
  finally show "PathJoin [TD, a, b] = under TD [a, b] False" .
qed

lemma fetch_artifact_staging:
  assumes "fresh_dir (ieCwd env) TD RX fs0" "plain bin" "staging (ieCwd env) TD RX fs0 bin (fst (fst s))"
    and "fetch_artifact env bin u TD op s = (r, s')"
  shows "staging (ieCwd env) TD RX fs0 bin (fst (fst s'))" and "r = Inr p \<Longrightarrow> p = under TD [bin] False"
proof -
  let ?fn = "DownloadURLToFile (ieHTTP env) (ieCwd env) (ieTempDir env) [] u
      [WithTimeout (opDownloadTimeout op), WithDownloadFilePath (under TD [bin] False)]"
  let ?P = "\<lambda>s. staging (ieCwd env) TD RX fs0 bin (fst (fst s))"
  obtain q where q: "retry downloadRetryAttempts downloadRetryDelay (\<lambda>dur (d, w). (d, ieSleep env dur w)) ?fn s = (q, s')"
      "\<And>p. r = Inr p \<longleftrightarrow> q = Inr p"
    using assms(4) join_names(1) [OF assms(1,2,2)] by (auto simp: fetch_artifact_def split: prod.splits sum.splits)
  note step = DownloadURLToFile_staging [OF assms(1,2)]
  have inv: "?P s1 \<Longrightarrow> ?fn s1 = (r1, s2) \<Longrightarrow> ?P s2" for s1 r1 s2 using step(1) by blast
  have sl: "?P s1 \<Longrightarrow> ?P ((\<lambda>dur (d, w). (d, ieSleep env dur w)) d s1)" for d s1 by (cases s1) auto
  show "?P s'" by (rule retry_inv(1) [where P = ?P, OF q(1) assms(3) inv sl])
  assume "r = Inr p"
  then have "\<exists>s0. ?P s0 \<and> ?fn s0 = (Inr p, s')"
    by (intro retry_inv(2) [where P = ?P, OF q(1) assms(3) inv sl]) (simp_all add: q(2))
  then show "p = under TD [bin] False" using step(2) by blast
qed

lemma loadManifest_disk: "loadManifest env p d = (r, d') \<Longrightarrow> fst d' = fst d"
  by (auto simp: loadManifest_def LoadManifest_def dest: ReadFile_disk split: if_splits prod.splits sum.splits)

lemma verify_sha_ok:
  assumes "verify_sha env p expected n s = (r, s')"
  shows "fst (fst s') = fst (fst s)" and "snd s' = snd s"
    and "r = None \<Longrightarrow> \<exists>m c. Stat (ieCwd env) (fst (fst s)) p = Inr (NFile m c) \<and> has_checksum (ieSHA256 env) expected n c"
proof -
  obtain e d1 where v: "VerifyFileSHA256 (ieSHA256 env) (ieCwd env) p expected n (fst s) = (e, d1)" by (metis surj_pair)
  then have "s' = (d1, snd s)" "r = map_option ErrVerify e" using assms by (simp_all add: verify_sha_def)
  with VerifyFileSHA256_ok [OF v] show "fst (fst s') = fst (fst s)" and "snd s' = snd s"
    and "r = None \<Longrightarrow> \<exists>m c. Stat (ieCwd env) (fst (fst s)) p = Inr (NFile m c) \<and> has_checksum (ieSHA256 env) expected n c"
    by simp_all
qed

lemma verifyArtifact_ok:
  assumes "verifyArtifact env p (Base u) u manifest offline timeout s = (r, s')"
  shows "fst (fst s') = fst (fst s)"
    and "r = None \<Longrightarrow> manifest = Some mf \<Longrightarrow> \<exists>entry m c. Find (Some mf) (Base u) = Some entry \<and>
      Stat (ieCwd env) (fst (fst s)) p = Inr (NFile m c) \<and> has_checksum (ieSHA256 env) (arSHA256 entry) (arSize entry) c"
    and "r = None \<Longrightarrow> manifest = None \<Longrightarrow> \<not> offline \<Longrightarrow> \<exists>w2 url body expected m c. sums_url env u = Inr url \<and>
      DownloadURL (ieHTTP env) url [WithTimeout timeout] (snd s) = (Inr body, w2) \<and> parseSHA256SUMS body (Base u) = Inr expected \<and>
      Stat (ieCwd env) (fst (fst s)) p = Inr (NFile m c) \<and> has_checksum (ieSHA256 env) expected 0 c"
proof -
  show "fst (fst s') = fst (fst s)"
    using assms by (auto simp: verifyArtifact_def dest: verify_sha_ok(1) split: if_splits option.splits sum.splits prod.splits)
  show "\<exists>entry m c. Find (Some mf) (Base u) = Some entry \<and>
      Stat (ieCwd env) (fst (fst s)) p = Inr (NFile m c) \<and> has_checksum (ieSHA256 env) (arSHA256 entry) (arSize entry) c"
    if "r = None" "manifest = Some mf"
    using assms that by (auto simp: verifyArtifact_def dest: verify_sha_ok(3) split: option.splits)
  assume none: "r = None" "manifest = None" "\<not> offline"
  then obtain url body w1 expected where *: "sums_url env u = Inr url"
      "DownloadURL (ieHTTP env) url [WithTimeout timeout] (snd s) = (Inr body, w1)" "parseSHA256SUMS body (Base u) = Inr expected"
      "verify_sha env p expected 0 (fst s, w1) = (None, s')"
    using assms by (auto simp: verifyArtifact_def split: sum.splits prod.splits)
  with verify_sha_ok(3) [OF *(4)]
  show "\<exists>w2 url body expected m c. sums_url env u = Inr url \<and>
      DownloadURL (ieHTTP env) url [WithTimeout timeout] (snd s) = (Inr body, w2) \<and> parseSHA256SUMS body (Base u) = Inr expected \<and>
      Stat (ieCwd env) (fst (fst s)) p = Inr (NFile m c) \<and> has_checksum (ieSHA256 env) expected 0 c"
    by auto
qed

lemma unpack_disk:
  assumes "fresh_dir (ieCwd env) TD RX fs0" "confined RX fs0 (fst d)" "wf_fs (ieCwd env) (fst d)"
    and "untar_disk env p TD d = (r, d') \<or> unzip_disk env p TD d = (r, d')"
  shows "confined RX fs0 (fst d') \<and> wf_fs (ieCwd env) (fst d')"
proof -
  have D: "dest_at (ieCwd env) (fst d) (Clean TD) RX"
    using fresh_dest [OF assms(1,2)] assms(1) by (simp add: fresh_dir_def)
  have "confined RX (fst d) (fst d') \<and> wf_fs (ieCwd env) (fst d')"
    using assms(4) UntarGz_confined [OF assms(3) D] Unzip_confined [OF assms(3) D]
    by (auto simp: untar_disk_def unzip_disk_def split: prod.splits)
  then show ?thesis using confined_trans [OF assms(2)] by blast
qed

lemma staged_not_other:
  assumes "fresh_dir cwd TD RX fs0" "staging cwd TD RX fs0 bin fs" "files_from B fs fs'" "ns \<noteq> []"
  shows "fs' (RX @ ns) \<noteq> Some NOther"
proof
  assume o: "fs' (RX @ ns) = Some NOther"
  have "fs0 (RX @ ns) = None" using assms(1,4) by (simp add: fresh_dir_def)
  moreover have "fs (RX @ ns) = Some NOther"
    using assms(3) o by (auto simp: files_from_def dest!: spec [of _ "RX @ ns"])
  ultimately show False using assms(2) by (auto simp: staging_def files_from_def dest!: spec [of _ "RX @ ns"])
qed

lemma staged_new_file:
  assumes "fresh_dir cwd TD RX fs0" "staging cwd TD RX fs0 bin fs" "files_from B fs fs'"
    and "fs' (RX @ ns) = Some (NFile m b)" "ns \<noteq> []" "ns \<noteq> [bin]"
  shows "B (RX @ ns) b"
proof -
  have "fs0 (RX @ ns) = None" using assms(1,5) by (simp add: fresh_dir_def)
  then have "\<not> (\<exists>k. fs (RX @ ns) = Some (NFile k b))"
    using assms(2,6) by (force simp: staging_def files_from_def dest!: spec [of _ "RX @ ns"])
  with assms(3,4) show ?thesis by (force simp: files_from_def dest!: spec [of _ "RX @ ns"])
qed

lemma extract_with_cases:
  assumes "extract_with unpack env suf bin p u TD d = (r, d')"
  obtains e where "unpack env p TD d = (Some e, d')" "r = Inl (ErrExtract e)"
    | "unpack env p TD d = (None, d')" "r = Inr (PathJoin [TD, TrimSuffix (Base u) suf, bin])"
  using assms by (auto simp: extract_with_def split: prod.splits option.splits)

lemma extractDownloadedBin_ok:
  assumes "fresh_dir (ieCwd env) TD RX fs0" "plain bin" "staging (ieCwd env) TD RX fs0 bin (fst d)"
    and "list_all plain (binary_names u bin)" "Stat (ieCwd env) (fst d) (under TD [bin] False) = Inr (NFile m c)"
    and "extractDownloadedBin env bin (under TD [bin] False) u TD d = (r, d')"
  shows "confined RX fs0 (fst d') \<and> wf_fs (ieCwd env) (fst d')"
    and "r = Inr src \<Longrightarrow> src = under TD (binary_names u bin) False \<and>
      holds_binary env u bin c (fst d' (RX @ binary_names u bin))"
proof -
  let ?p = "under TD [bin] False" and ?goal = "\<lambda>r. \<forall>src. r = Inr src \<longrightarrow> src = under TD (binary_names u bin) False \<and>
      holds_binary env u bin c (fst d' (RX @ binary_names u bin))"
  have st: "confined RX fs0 (fst d)" "wf_fs (ieCwd env) (fst d)" using assms(3) by (simp_all add: staging_def)
  have D: "dest_at (ieCwd env) (fst d) (Clean TD) RX"
    using fresh_dest [OF assms(1) st(1)] assms(1) by (simp add: fresh_dir_def)
  note unpack = unpack_disk [OF assms(1) st]
  have "(confined RX fs0 (fst d') \<and> wf_fs (ieCwd env) (fst d')) \<and> ?goal r"
  proof (cases "archive_suffix u")
    case None
    then have d': "r = Inr ?p" "d' = d" using assms(6) by (auto simp: extractDownloadedBin_def archive_suffix_def split: if_splits)
    have "fst d (RX @ [bin]) = Some (NFile m c)"
      using fresh_resolve [OF assms(1) st(1), of "[bin]" True] assms(2,5)
      by (auto simp: Stat_def lookup_node_def split: sum.splits option.splits)
    with d' st None show ?thesis by (simp add: binary_names_def binary_of_def holds_binary_def)
  next
    case (Some suf)
    define base where "base = TrimSuffix (Base u) suf"
    have names: "binary_names u bin = [base, bin]" and base: "plain base"
      using Some assms(4) by (simp_all add: binary_names_def base_def)
    have run: "extract_with (if suf = ''.zip'' then unzip_disk else untar_disk) env suf bin ?p u TD d = (r, d')"
      using assms(6) Some by (auto simp: extractDownloadedBin_def archive_suffix_def split: if_splits)
    have safe: "confined RX fs0 (fst d') \<and> wf_fs (ieCwd env) (fst d')"
      if "(if suf = ''.zip'' then unzip_disk else untar_disk) env ?p TD d = (q, d')" for q
      using unpack [of ?p q d'] that by (simp split: if_splits)
    from run show ?thesis
    proof (cases rule: extract_with_cases)
      case (1 e)
      with safe show ?thesis by blast
    next
      case 2
      have "holds_binary env u bin c (fst d' (RX @ [base, bin]))"
      proof (cases "suf = ''.zip''")
        case True
        then obtain ft where "Unzip (ieUnzip env) (ieCwd env) ?p TD (fst d) = (None, fst d')"
          using 2(1) by (auto simp: unzip_disk_def split: prod.splits)
        from Unzip_files [OF st(2) D this] assms(5) obtain es where es: "ieUnzip env c = Inr es"
            "files_from (\<lambda>q b. \<exists>f \<in> set es. q = RX @ entry_names (zeName f) \<and> \<not> zeIsDir f \<and> b = zeBody f) (fst d) (fst d')" by auto
        from staged_new_file [OF assms(1,3) es(2)] staged_not_other [OF assms(1,3) es(2)] es(1) Some True names
        show ?thesis by (fastforce simp: holds_binary_def binary_of_def)
      next
        case False
        then have "UntarGz (ieUntar env) (ieCwd env) ?p TD (fst d) = (None, fst d')"
          using 2(1) by (auto simp: untar_disk_def split: prod.splits)
        from UntarGz_files [OF st(2) D this] assms(5) obtain es where es: "ieUntar env c = Inr (es, None)"
            "files_from (\<lambda>q b. \<exists>e \<in> set es. q = RX @ entry_names (teName e) \<and> teType e = TypeReg \<and> b = teBody e) (fst d) (fst d')" by auto
        from staged_new_file [OF assms(1,3) es(2)] staged_not_other [OF assms(1,3) es(2)] es(1) Some False names
        show ?thesis by (fastforce simp: holds_binary_def binary_of_def)
      qed
      moreover have "PathJoin [TD, base, bin] = under TD [base, bin] False" by (rule join_names(2) [OF assms(1) base assms(2)])
      ultimately show ?thesis using 2(2) safe [OF 2(1)] names by (auto simp: base_def)
    qed
  qed
  then show "confined RX fs0 (fst d') \<and> wf_fs (ieCwd env) (fst d')" and "r = Inr src \<Longrightarrow> src = under TD (binary_names u bin) False \<and>
      holds_binary env u bin c (fst d' (RX @ binary_names u bin))" by blast+
qed

lemma stage_artifact_ok:
  assumes "fresh_dir (ieCwd env) TD RX fs0" "plain bin" "list_all plain (binary_names u bin)" "opArtifactDir op = []"
    and "stage_artifact env bin u TD op ((fs0, ft), w) = (r, s')"
  shows "confined RX fs0 (fst (fst s')) \<and> wf_fs (ieCwd env) (fst (fst s'))"
    and "r = Inr src \<Longrightarrow> src = under TD (binary_names u bin) False \<and> (\<exists>c. artifact_checksum env op u (fs0, ft) c \<and>
      holds_binary env u bin c (fst (fst s') (RX @ binary_names u bin)))"
proof -
  let ?P = "\<lambda>s. staging (ieCwd env) TD RX fs0 bin (fst (fst s))" and ?p = "under TD [bin] False"
  let ?safe = "\<lambda>s. confined RX fs0 (fst (fst s)) \<and> wf_fs (ieCwd env) (fst (fst s))"
  let ?goal = "\<lambda>r. \<forall>src. r = Inr src \<longrightarrow> src = under TD (binary_names u bin) False \<and> (\<exists>c. artifact_checksum env op u (fs0, ft) c \<and>
      holds_binary env u bin c (fst (fst s') (RX @ binary_names u bin)))"
  have safe: "?P s \<Longrightarrow> ?safe s" for s by (simp add: staging_def)
  obtain lm d1 where lm: "loadManifest env (opManifestPath op) (fs0, ft) = (lm, d1)" by (metis surj_pair)
  have P1: "?P (d1, w)" using staging_refl [OF assms(1)] loadManifest_disk [OF lm] by simp
  have "?safe s' \<and> ?goal r"
  proof (cases "case lm of Inl e \<Rightarrow> e \<noteq> ErrManifestPathEmpty | Inr _ \<Rightarrow> False")
    case True
    with assms(5) lm P1 safe show ?thesis by (auto simp: stage_artifact_def)
  next
    case False
    define mf where "mf = (case lm of Inl e \<Rightarrow> None | Inr m \<Rightarrow> Some m)"
    have mf: "TrimSpace (opManifestPath op) = [] \<Longrightarrow> mf = None"
      "TrimSpace (opManifestPath op) \<noteq> [] \<Longrightarrow> \<exists>m d2. mf = Some m \<and> LoadManifest (ieYAML env) (ieCwd env) (opManifestPath op) (fs0, ft) = (Inr m, d2)"
      using lm False by (auto simp: mf_def loadManifest_def split: if_splits prod.splits sum.splits)
    obtain q s2 where q: "resolveDownloadedFile env bin (Base u) u TD (Some op) (d1, w) = (q, s2)" by (metis surj_pair)
    have "?P s2 \<and> (\<forall>p. q = Inr p \<longrightarrow> \<not> opOffline op \<and> p = ?p)"
      using q P1 assms(4) fetch_artifact_staging [OF assms(1,2) P1, of u op q s2]
      by (auto simp: resolveDownloadedFile_def split: if_splits)
    then have P2: "?P s2" and online: "q = Inr p \<Longrightarrow> \<not> opOffline op \<and> p = ?p" for p by blast+
    show ?thesis
    proof (cases q)
      case (Inl e)
      with assms(5) lm False q P2 safe show ?thesis by (auto simp: stage_artifact_def mf_def [symmetric])
    next
      case (Inr p)
      obtain v s3 where v: "verifyArtifact env ?p (Base u) u mf (opOffline op) (opDownloadTimeout op) s2 = (v, s3)" by (metis surj_pair)
      note ver = verifyArtifact_ok [OF v]
      have P3: "?P s3" using P2 ver(1) by simp
      show ?thesis
      proof (cases v)
        case (Some e)
        with assms(5) lm False q Inr online v P3 safe show ?thesis by (auto simp: stage_artifact_def mf_def [symmetric])
      next
        case None
        obtain m c where c: "Stat (ieCwd env) (fst (fst s3)) ?p = Inr (NFile m c)" "artifact_checksum env op u (fs0, ft) c"
          using ver(2) [OF None] ver(3) [OF None] mf online Inr ver(1)
          by (cases "TrimSpace (opManifestPath op) = []") (fastforce simp: artifact_checksum_def)+
        obtain x d4 where x: "extractDownloadedBin env bin ?p u TD (fst s3) = (x, d4)" by (metis surj_pair)
        note ext = extractDownloadedBin_ok [OF assms(1,2) P3 assms(3) c(1) x]
        have "r = x" "s' = (d4, snd s3)"
          using assms(5) lm False q Inr online v None x by (auto simp: stage_artifact_def mf_def [symmetric])
        with ext c(2) show ?thesis by auto
      qed
    qed
  qed
  then show "?safe s'" and "r = Inr src \<Longrightarrow> src = under TD (binary_names u bin) False \<and> (\<exists>c. artifact_checksum env op u (fs0, ft) c \<and>
      holds_binary env u bin c (fst (fst s') (RX @ binary_names u bin)))" by blast+
qed

section \<open>Moving the binary to its place\<close>

lemma dest_at_skeleton: "dest_at cwd fs D R \<Longrightarrow> skeleton_kept fs fs' \<Longrightarrow> dest_at cwd fs' D R"
proof -
  assume d: "dest_at cwd fs D R" and k: "skeleton_kept fs fs'"
  then obtain n where w: "walk 40 fs (if IsAbs D then [] else cwd) (Split slash D) True = Inr (n, R)"
    and D: "D \<noteq> []" "is_dir (fs R)" by (auto simp: dest_at_def)
  have "is_dir (fs' R)" using k D(2) by (simp add: skeleton_kept_def)
  with walk_skeleton [OF w D(2) k] D(1) show ?thesis by (simp add: dest_at_def)
qed

text \<open>A name that is free or a regular file.\<close>

definition free_name :: "fsys \<Rightarrow> path \<Rightarrow> bool" where
  "free_name fs q \<longleftrightarrow> fs q = None \<or> (\<exists>m c. fs q = Some (NFile m c))"

lemma free_name_node: "free_name fs q \<Longrightarrow> \<not> is_dir (fs q) \<and> \<not> is_link (fs q)"
  by (auto simp: free_name_def)

lemma target_resolve:
  assumes "dest_at cwd fs D R" "plain n" "free_name fs (R @ [n])"
  shows "resolve cwd fs follow (under D [n] False) = Inr (R @ [n])"
  using resolve_child [OF assms(1,2)] free_name_node [OF assms(3)] by blast

text \<open>What an operation on the file at \<open>q\<close> does: the disk after it is \<open>fs(q := nd)\<close> for a node that is free again.\<close>

definition changes_only :: "path \<Rightarrow> fsys \<Rightarrow> fsys \<Rightarrow> bool" where
  "changes_only q fs fs' \<longleftrightarrow> free_name fs q \<and> free_name fs' q \<and> (\<forall>r. r \<noteq> q \<longrightarrow> fs' r = fs r)"

lemma changes_only_update: "changes_only q fs fs' \<Longrightarrow> fs' = fs(q := fs' q)"
  by (auto simp: changes_only_def)

lemma changes_only_refl: "free_name fs q \<Longrightarrow> changes_only q fs fs"
  by (simp add: changes_only_def)

lemma changes_only_trans: "changes_only q fs fs1 \<Longrightarrow> changes_only q fs1 fs2 \<Longrightarrow> changes_only q fs fs2"
  by (simp add: changes_only_def)

lemma changes_only_skeleton: "changes_only q fs fs' \<Longrightarrow> skeleton_kept fs fs'"
  by (auto simp: changes_only_def skeleton_kept_def dest: free_name_node)

lemma changes_only_dest: "changes_only q fs fs' \<Longrightarrow> dest_at cwd fs D R \<Longrightarrow> dest_at cwd fs' D R"
  using changes_only_skeleton dest_at_skeleton by blast

lemma changes_only_wf:
  assumes "changes_only (R @ [n]) fs fs'" "wf_fs cwd fs" "is_dir (fs R)"
  shows "wf_fs cwd fs'"
  using changes_only_update [OF assms(1)] wf_fs_update [OF assms(2), of "R @ [n]" "fs' (R @ [n])"] assms(1,3)
  by (simp add: changes_only_def free_name_node)

lemma Remove_target:
  assumes "dest_at cwd fs D R" "plain n" "free_name fs (R @ [n])" "Remove cwd (under D [n] False) fs = (e, fs')"
  shows "changes_only (R @ [n]) fs fs' \<and> (e = None \<or> fs' = fs)"
proof (cases "fs (R @ [n])")
  case None
  then have "e \<noteq> None \<and> fs' = fs" using target_resolve [OF assms(1-3), of False] assms(4) by (auto simp: Remove_def)
  with assms(3) show ?thesis by (simp add: changes_only_refl)
next
  case (Some nd)
  then obtain m c where "nd = NFile m c" using assms(3) by (auto simp: free_name_def)
  then have "e = None \<and> fs' = fs(R @ [n] := None)" using target_resolve [OF assms(1-3), of False] assms(4) Some by (simp add: Remove_def)
  with assms(3) show ?thesis by (simp add: changes_only_def free_name_def)
qed

lemma WriteFile_target:
  assumes "dest_at cwd fs D R" "plain n" "free_name fs (R @ [n])" "WriteFile cwd perm content (under D [n] False) fs = (e, fs')"
  shows "\<exists>m. fs' = fs(R @ [n] \<mapsto> NFile m content) \<and> changes_only (R @ [n]) fs fs'"
proof -
  have "\<exists>m. fs' = fs(R @ [n] \<mapsto> NFile m content)"
    using target_resolve [OF assms(1-3), of True] assms(4) assms(3) [unfolded free_name_def]
    by (auto simp: WriteFile_def)
  then obtain m where "fs' = fs(R @ [n] \<mapsto> NFile m content)" by blast
  with assms(3) show ?thesis by (intro exI [of _ m]) (simp add: changes_only_def free_name_def)
qed

lemma append_file_target:
  assumes "dest_at cwd fs D R" "plain n" "fs (R @ [n]) = Some (NFile m c)"
    and "append_file cwd (under D [n] False) content fs = (e, fs')"
  shows "fs' = fs(R @ [n] \<mapsto> NFile m (c @ content))"
  using target_resolve [OF assms(1,2), of True] assms(3,4) by (auto simp: append_file_def free_name_def)

lemma Chmod_target:
  assumes "dest_at cwd fs D R" "plain n" "fs (R @ [n]) = Some (NFile m c)" "Chmod cwd perm (under D [n] False) fs = (e, fs')"
  shows "fs' = fs(R @ [n] \<mapsto> NFile perm c)"
  using target_resolve [OF assms(1,2), of True] assms(3,4) by (auto simp: Chmod_def free_name_def)

lemma with_fault_done:
  assumes "with_fault op broken d = (None, d')"
  shows "op (fst d) = (None, fst d')"
  using assms by (cases d) (auto elim: with_fault_cases)

lemma with_fault_same:
  assumes "with_fault op (\<lambda>k fs. fs) d = (e, d')"
  shows "op (fst d) = (e, fst d') \<or> e \<noteq> None \<and> fst d' = fst d"
  using assms by (cases d) (auto elim: with_fault_cases)

lemma next_fault_disk: "next_fault d = (f, d') \<Longrightarrow> fst d' = fst d"
  by (auto simp: next_fault_def split: list.splits)

lemma CopyFile_target:
  assumes "dest_at cwd (fst d) D R" "plain n" "free_name (fst d) (R @ [n])" "Dir dst = D" "dst = under D [n] False"
    and "resolve cwd (fst d) True src \<noteq> Inr (R @ [n])" and "CopyFile cwd src dst d = (None, d')"
  shows "\<exists>m c m'. Stat cwd (fst d) src = Inr (NFile m c) \<and> fst d' (R @ [n]) = Some (NFile m' c) \<and> changes_only (R @ [n]) (fst d) (fst d')"
proof -
  obtain e1 d1 where mk: "with_fault (MkdirAll cwd 493 D) (\<lambda>k fs. fs) d = (e1, d1)" by (metis surj_pair)
  obtain k where "Stat cwd (fst d) D = Inr (NDir k)" using Stat_dest [OF assms(1), of False] by (auto simp: under_def)
  then have "MkdirAll cwd 493 D (fst d) = (None, fst d)" by (simp add: MkdirAll.simps)
  then have d1: "fst d1 = fst d" using with_fault_same [OF mk] by auto
  obtain f2 d2 where f2: "next_fault d1 = (f2, d2)" by (metis surj_pair)
  have d2: "fst d2 = fst d" using next_fault_disk [OF f2] d1 by simp
  obtain removed d3 where rm: "with_fault (Remove cwd dst) (\<lambda>k fs. fs) d2 = (removed, d3)" by (metis surj_pair)
  have r3: "changes_only (R @ [n]) (fst d) (fst d3) \<and> (removed = None \<or> fst d3 = fst d)"
    using with_fault_same [OF rm] Remove_target [OF assms(1-3), of removed "fst d3"] changes_only_refl [OF assms(3)] d2 assms(5) by auto
  then have c3: "changes_only (R @ [n]) (fst d) (fst d3)" by blast
  have notrunc: "\<not> (removed \<noteq> None \<and> resolve cwd (fst d3) True dst = resolve cwd (fst d2) True src)"
    using r3 d2 assms(5,6) target_resolve [OF assms(1-3), of True] by auto
  obtain e4 d4 where wr: "with_fault (WriteFile cwd 438 [] dst) (\<lambda>k fs. fs) d3 = (e4, d4)" by (metis surj_pair)
  obtain m c where src: "Stat cwd (fst d) src = Inr (NFile m c)" "e4 = None"
    and rest: "\<exists>d5 d6. with_fault (append_file cwd dst c) (\<lambda>k fs. snd (append_file cwd dst (take k c) fs)) d4 = (None, d5) \<and>
       with_fault (Pair None) (\<lambda>k fs. fs) d5 = (None, d6) \<and> with_fault (Pair None) (\<lambda>k fs. fs) d6 = (None, d')"
    using assms(4,7) mk d2 f2 rm wr notrunc
    by (auto simp: CopyFile_def Let_def simp del: split_paired_Ex split: option.splits fault.splits sum.splits node.splits prod.splits if_splits)
  note D3 = changes_only_dest [OF c3 assms(1)]
  have free3: "free_name (fst d3) (R @ [n])" using c3 by (simp add: changes_only_def)
  from with_fault_done [OF wr [unfolded src(2)]] obtain m' where
    w4: "fst d4 = (fst d3)(R @ [n] \<mapsto> NFile m' [])" "changes_only (R @ [n]) (fst d3) (fst d4)"
    using WriteFile_target [OF D3 assms(2) free3] assms(5) by blast
  from rest obtain d5 d6 where r: "with_fault (append_file cwd dst c) (\<lambda>k fs. snd (append_file cwd dst (take k c) fs)) d4 = (None, d5)"
      "with_fault (Pair None) (\<lambda>k fs. fs) d5 = (None, d6)" "with_fault (Pair None) (\<lambda>k fs. fs) d6 = (None, d')" by blast
  have a: "append_file cwd dst c (fst d4) = (None, fst d5)" "fst d' = fst d5"
    using with_fault_done [OF r(1)] with_fault_done [OF r(2)] with_fault_done [OF r(3)] by simp_all
  have "fst d5 = (fst d4)(R @ [n] \<mapsto> NFile m' c)"
    using append_file_target [OF changes_only_dest [OF w4(2) D3] assms(2) _ a(1) [unfolded assms(5)], of m' "[]"] w4(1) by simp
  then have at: "fst d5 (R @ [n]) = Some (NFile m' c)" and "\<forall>r. r \<noteq> R @ [n] \<longrightarrow> fst d5 r = fst d4 r" by simp_all
  moreover have "free_name (fst d4) (R @ [n])" using w4(2) by (simp add: changes_only_def)
  ultimately have "changes_only (R @ [n]) (fst d4) (fst d5)" by (simp add: changes_only_def free_name_def)
  with c3 w4(2) have "changes_only (R @ [n]) (fst d) (fst d5)" using changes_only_trans by blast
  with src(1) a(2) at show ?thesis by auto
qed

lemma Rename_err: "Rename cwd a b fs = (Some e, fs') \<Longrightarrow> fs' = fs"
  by (auto simp: Rename_def split: sum.splits option.splits node.splits if_splits)

lemma Chmod_dir: "Chmod cwd perm p fs = (e, fs') \<Longrightarrow> is_dir (fs q) \<Longrightarrow> is_dir (fs' q)"
  by (auto simp: Chmod_def split: sum.splits option.splits node.splits)

text \<open>What a successful move leaves: the file of the source, or the source was a directory and is now at the
  target.\<close>

definition moved :: "path \<Rightarrow> path \<Rightarrow> fsys \<Rightarrow> fsys \<Rightarrow> bool" where
  "moved p q fs fs' \<longleftrightarrow>
     (\<exists>m c m'. fs p = Some (NFile m c) \<and> fs' q = Some (NFile m' c)) \<and> (fs' p = fs p \<or> fs' p = None) \<and> (\<forall>r. r \<noteq> q \<longrightarrow> r \<noteq> p \<longrightarrow> fs' r = fs r) \<or>
     is_dir (fs' q) \<and> (\<forall>r. \<not> prefix q r \<longrightarrow> \<not> prefix p r \<longrightarrow> fs' r = fs r)"

lemma Rename_moved:
  assumes "Rename cwd src dst fs = (None, fs')" "\<And>p'. resolve cwd fs False src = Inr p' \<Longrightarrow> p' = p"
    and "resolve cwd fs False dst = Inr q" "free_name fs q" "p \<noteq> q" "\<not> is_link (fs p)" "fs p \<noteq> Some NOther"
  shows "moved p q fs fs'"
proof -
  have src: "resolve cwd fs False src = Inr p" using assms(1,2) by (cases "resolve cwd fs False src") (auto simp: Rename_def)
  show ?thesis
  proof (cases "fs p")
    case None
    with assms(1,3) src show ?thesis by (simp add: Rename_def)
  next
    case (Some nd)
    then consider m where "nd = NDir m" | m c where "nd = NFile m c" using assms(6,7) by (cases nd) auto
    then show ?thesis
    proof cases
      case 1
      then have "fs' = (\<lambda>r. if prefix q r then fs (p @ drop (length q) r) else if prefix p r then None else fs r)"
        using assms(1,3) src Some by (auto simp: Rename_def split: if_splits)
      with 1 Some show ?thesis by (simp add: moved_def)
    next
      case 2
      then have "fs' = fs(q \<mapsto> nd, p := None)"
        using assms(1,3,4,5) src Some by (auto simp: Rename_def free_name_node split: if_splits)
      with 2 Some assms(5) show ?thesis by (simp add: moved_def)
    qed
  qed
qed

lemma moveFile_moved:
  assumes "dest_at cwd (fst d) D R" "plain n" "free_name (fst d) (R @ [n])" "Dir dst = D" "dst = under D [n] False"
    and src: "\<And>fs follow q. changes_only (R @ [n]) (fst d) fs \<Longrightarrow> resolve cwd fs follow src = Inr q \<Longrightarrow> q = p"
    and "p \<noteq> R @ [n]" "\<not> is_link (fst d p)" "fst d p \<noteq> Some NOther" "moveFile cwd src dst d = (None, d')"
  shows "moved p (R @ [n]) (fst d) (fst d')"
proof -
  have same: "changes_only (R @ [n]) (fst d) (fst d)" by (rule changes_only_refl [OF assms(3)])
  have dst: "resolve cwd (fst d) False dst = Inr (R @ [n])" using target_resolve [OF assms(1-3)] assms(5) by simp
  obtain e1 d1 where rn: "try_call (Rename cwd src dst) d = (e1, d1)" by (metis surj_pair)
  show ?thesis
  proof (cases e1)
    case None
    then have "Rename cwd src dst (fst d) = (None, fst d')"
      using with_fault_done [of "Rename cwd src dst" _ d d1] rn assms(10) by (simp add: moveFile_def try_call_def)
    from Rename_moved [OF this src [OF same] dst assms(3,7,8,9)] show ?thesis .
  next
    case (Some e)
    then have d1: "fst d1 = fst d" using with_fault_same [OF rn [unfolded try_call_def]] Rename_err by fastforce
    obtain d2 where cp: "CopyFile cwd src dst d1 = (None, d2)" "d' = snd (try_call (Remove cwd src) d2)"
      using assms(10) rn Some by (auto simp: moveFile_def split: if_splits option.splits prod.splits)
    have "resolve cwd (fst d1) True src \<noteq> Inr (R @ [n])" using src [OF same] assms(7) d1 by auto
    with CopyFile_target [OF _ assms(2) _ assms(4,5) _ cp(1)] d1 assms(1,3) obtain m c m' where
      c: "Stat cwd (fst d) src = Inr (NFile m c)" "fst d2 (R @ [n]) = Some (NFile m' c)" "changes_only (R @ [n]) (fst d) (fst d2)" by metis
    have p: "fst d p = Some (NFile m c)"
      using c(1) src [OF same, of True] by (auto simp: Stat_def lookup_node_def split: sum.splits option.splits)
    then have p2: "fst d2 p = Some (NFile m c)" using c(3) assms(7) by (simp add: changes_only_def)
    obtain e3 d3 where rm: "try_call (Remove cwd src) d2 = (e3, d3)" by (metis surj_pair)
    have "fst d3 = fst d2 \<or> fst d3 = (fst d2)(p := None)"
      using with_fault_same [OF rm [unfolded try_call_def]] src [OF c(3), of False] p2
      by (auto simp: Remove_def split: sum.splits)
    then show ?thesis
      using p p2 c(2,3) cp(2) rm assms(7) by (auto simp: moved_def changes_only_def)
  qed
qed

section \<open>The whole installation\<close>

text \<open>The directory for temporary files is at \<open>RT\<close>, the target is the name \<open>n\<close> of the directory \<open>D\<close> at \<open>R\<close>, and it is
  not a name that may be drawn.\<close>

definition temp_ready :: "'w install_env \<Rightarrow> string \<Rightarrow> path \<Rightarrow> string \<Rightarrow> fsys \<Rightarrow> bool" where
  "temp_ready env t RT n fs \<longleftrightarrow> wf_fs (ieCwd env) fs \<and> plain n \<and>
     ieTempDir env = Clean t \<and> comps t \<noteq> [] \<and> dest_at (ieCwd env) fs (Clean t) RT \<and> (\<forall>w. \<forall>x \<in> set (ieTempNames env w). slash \<notin> set x)"

definition install_ready :: "'w install_env \<Rightarrow> string \<Rightarrow> path \<Rightarrow> string \<Rightarrow> path \<Rightarrow> string \<Rightarrow> fsys \<Rightarrow> bool" where
  "install_ready env t RT D R n fs \<longleftrightarrow> temp_ready env t RT n fs \<and>
     dest_at (ieCwd env) fs D R \<and> \<not> HasPrefix n ''etcd-install'' \<and> free_name fs (R @ [n])"

definition temp_name :: "string \<Rightarrow> string" where "temp_name x = ''etcd-install'' @ x"

definition only_temp :: "path \<Rightarrow> fsys \<Rightarrow> path \<Rightarrow> bool" where
  "only_temp RT fs q \<longleftrightarrow> fs q = None \<and> (\<exists>x. prefix (RT @ [temp_name x]) q \<and> fs (RT @ [temp_name x]) = None)"

lemma temp_name_plain: "slash \<notin> set x \<Longrightarrow> plain (temp_name x)"
  by (simp add: temp_name_def plain_def)

lemma new_temp_fresh:
  assumes "temp_ready env t RT n fs" "x \<in> set (ieTempNames env w)" "fs (RT @ [temp_name x]) = None"
  defines "RX \<equiv> RT @ [temp_name x]"
  shows "fresh_dir (ieCwd env) (under (Clean t) [temp_name x] False) RX (fs(RX \<mapsto> NDir 448))"
    and "prefix RX q \<Longrightarrow> fs q = None" and "confined RT fs (fs(RX \<mapsto> NDir 448))"
proof -
  let ?n = "temp_name x" and ?fs = "fs(RX \<mapsto> NDir 448)" and ?D = "Clean t"
  have T: "dest_at (ieCwd env) fs ?D RT" "comps t \<noteq> []" "wf_fs (ieCwd env) fs" and pl: "plain ?n"
    using assms(1,2) by (auto simp: install_ready_def temp_ready_def temp_name_plain)
  show none: "fs q = None" if "prefix RX q" for q
  proof (rule ccontr)
    assume "fs q \<noteq> None"
    moreover from that obtain ns where "q = RX @ ns" by (rule prefixE)
    ultimately have "is_dir (fs (RX @ take 0 ns)) \<or> ns = []" using wf_fs_take [OF T(3), of RX ns 0] by (cases ns) auto
    with assms(3) \<open>fs q \<noteq> None\<close> \<open>q = RX @ ns\<close> show False by (auto simp: RX_def)
  qed
  show conf: "confined RT fs ?fs" unfolding RX_def by (rule confined_update) (simp_all add: assms(3))
  have good: "good_comps (IsAbs t) (comps t @ [?n])" by (rule good_comps_append [OF good_comps_comps]) (simp add: pl)
  have TD: "under ?D [?n] False = unparse (IsAbs t) (comps t @ [?n])" using unparse_append [OF T(2)] by (simp add: Clean_def)
  have "resolve (ieCwd env) ?fs True (under ?D [?n] False) = Inr RX"
    unfolding RX_def by (rule resolve_child [OF dest_at_confined [OF T(1) conf [unfolded RX_def]] pl]) simp
  moreover have "wf_fs (ieCwd env) ?fs"
    unfolding RX_def using T(1) by (intro wf_fs_update [OF T(3)]) (simp_all add: assms(3) dest_at_def)
  moreover have "Clean (under ?D [?n] False) = under ?D [?n] False" "comps (under ?D [?n] False) \<noteq> []"
    using Clean_unparse [OF good] comps_unparse(2) [OF good] TD by simp_all
  ultimately show "fresh_dir (ieCwd env) (under ?D [?n] False) RX ?fs"
    using none by (simp add: fresh_dir_def dest_at_resolve)
qed

lemma RemoveAll_temp:
  assumes "dest_at cwd fs T RT" "plain n" "try_call (RemoveAll cwd (under T [n] False)) d = (e, d')" "fst d = fs"
  shows "fst d' = fs \<or> fst d' = (\<lambda>r. if prefix (RT @ [n]) r then None else fs r)"
  using with_fault_same [OF assms(3) [unfolded try_call_def]] resolve_child_nofollow [OF assms(1,2)] assms(4)
  by (auto simp: RemoveAll_def)

definition before_move :: "install_error \<Rightarrow> bool" where
  "before_move e = (case e of ErrMove _ \<Rightarrow> False | ErrBinaryMode _ \<Rightarrow> False | ErrCheckVersion _ \<Rightarrow> False | _ \<Rightarrow> True)"

lemma finalize_not_before:
  "finalizeDownloadedBin cwd src dst d = (Some e, d') \<Longrightarrow> \<not> before_move e"
  by (auto simp: finalizeDownloadedBin_def before_move_def split: option.splits prod.splits)

lemma check_not_before:
  "check_if_asked env op p args s = (Inl e, s') \<Longrightarrow> \<not> before_move e"
  by (auto simp: check_if_asked_def checkVersion_def before_move_def split: if_splits sum.splits prod.splits)

text \<open>The installation up to the end of the stage, in terms of the disk \<open>fs1\<close> with the new directory.\<close>

lemma install_artifact_stage:
  assumes "temp_ready env t RT n fs" "opArtifactDir op = []" "list_all plain (binary_names u n)"
    and "install_artifact env n args dst u op ((fs, ft), w) = (r, s')"
  obtains e where "r = Inl e" "fst (fst s') = fs"
    | x RX TD fs1 q ft1 s2 s4 where "RX = RT @ [temp_name x]" "TD = under (Clean t) [temp_name x] False" "fs1 = fs(RX \<mapsto> NDir 448)"
        "fresh_dir (ieCwd env) TD RX fs1" "\<And>q. prefix RX q \<Longrightarrow> fs q = None" "confined RT fs fs1" "plain (temp_name x)"
        "confined RX fs1 (fst (fst s2))" "wf_fs (ieCwd env) (fst (fst s2))"
        "\<And>src. q = Inr src \<Longrightarrow> src = under TD (binary_names u n) False \<and>
           (\<exists>c. artifact_checksum env op u (fs1, ft1) c \<and> holds_binary env u n c (fst (fst s2) (RX @ binary_names u n)))"
        "(case q of Inl e \<Rightarrow> (Inl e, s2)
          | Inr src \<Rightarrow> (case finalizeDownloadedBin (ieCwd env) src dst (fst s2) of
               (Some e, d3) \<Rightarrow> (Inl e, (d3, snd s2))
             | (None, d3) \<Rightarrow> check_if_asked env op dst args (d3, snd s2))) = (r, s4)"
        "s' = (snd (try_call (RemoveAll (ieCwd env) TD) (fst s4)), snd s4)"
proof -
  obtain f1 d1 where f1: "next_fault (fs, ft) = (f1, d1)" "fst d1 = fs" by (cases fs ft rule: next_fault_cases) auto
  obtain mt fsm where mt: "MkdirTemp (ieCwd env) (ieTempNames env w) (ieTempDir env) ''etcd-install'' fs = (mt, fsm)" by fastforce
  have T: "dest_at (ieCwd env) fs (ieTempDir env) RT" "last (ieTempDir env) \<noteq> slash" "ieTempDir env = Clean t"
      "\<forall>x \<in> set (ieTempNames env w). plain (''etcd-install'' @ x)"
    using assms(1) last_Clean [of t] temp_name_plain by (auto simp: install_ready_def temp_ready_def temp_name_def)
  note new = MkdirTemp_new [OF T(1,2,4) mt]
  show thesis
  proof (cases "f1 = NoFault \<and> (\<exists>y. mt = Inr y)")
    case False
    then have "\<exists>e. r = Inl e" "fst (fst s') = fs"
      using assms(4) f1 mt new by (auto simp: install_artifact_def split: fault.splits sum.splits)
    then show thesis using that(1) by blast
  next
    case True
    then obtain x where x: "x \<in> set (ieTempNames env w)" "mt = Inr (under (Clean t) [temp_name x] False)"
        "fs (RT @ [temp_name x]) = None" "fsm = fs(RT @ [temp_name x] \<mapsto> NDir 448)"
      using new T(3) by (auto simp: temp_name_def)
    let ?RX = "RT @ [temp_name x]" and ?TD = "under (Clean t) [temp_name x] False"
    note fresh = new_temp_fresh [OF assms(1) x(1,3)]
    have pl: "plain n" "plain (temp_name x)" using assms(1) x(1) by (auto simp: install_ready_def temp_ready_def temp_name_plain)
    obtain q s2 where st: "stage_artifact env n u ?TD op ((fsm, snd d1), w) = (q, s2)" by (metis surj_pair)
    note stage = stage_artifact_ok [OF fresh(1) pl(1) assms(3,2) st [unfolded x(4)]]
    let ?rest = "\<lambda>qs. case qs of (Inl e, s2) \<Rightarrow> (Inl e, s2)
          | (Inr src, s2) \<Rightarrow> (case finalizeDownloadedBin (ieCwd env) src dst (fst s2) of
               (Some e, d3) \<Rightarrow> (Inl e, (d3, snd s2))
             | (None, d3) \<Rightarrow> check_if_asked env op dst args (d3, snd s2))"
    obtain p4 where p4: "?rest (q, s2) = p4" by blast
    then obtain r4 s4 where "p4 = (r4, s4)" by (cases p4) auto
    with p4 have s4: "?rest (q, s2) = (r4, s4)" by simp
    have "(r, s') = (r4, (snd (try_call (RemoveAll (ieCwd env) ?TD) (fst s4)), snd s4))"
      using assms(4) f1 mt True x(2) st s4 by (cases d1) (simp add: install_artifact_def)
    with s4 have run: "(case q of Inl e \<Rightarrow> (Inl e, s2)
          | Inr src \<Rightarrow> (case finalizeDownloadedBin (ieCwd env) src dst (fst s2) of
               (Some e, d3) \<Rightarrow> (Inl e, (d3, snd s2))
             | (None, d3) \<Rightarrow> check_if_asked env op dst args (d3, snd s2))) = (r, s4)"
        "s' = (snd (try_call (RemoveAll (ieCwd env) ?TD) (fst s4)), snd s4)" by simp_all
    show thesis
      by (rule that(2) [OF refl refl refl fresh(1) fresh(2) fresh(3) pl(2) _ _ _ run]) (use stage in blast)+
  qed
qed

lemma temp_frame:
  assumes "\<And>q. prefix RX q \<Longrightarrow> fs q = None" "confined RX (fs(RX \<mapsto> nd)) fs2"
  shows "skeleton_kept fs fs2" and "\<not> prefix RX q \<Longrightarrow> fs2 q = fs q"
proof -
  show out: "fs2 q = fs q" if "\<not> prefix RX q" for q
    using assms(2) that by (auto simp: confined_def)
  have "\<not> prefix RX p" if "is_dir (fs p) \<or> is_link (fs p)" for p using assms(1) that by auto
  with out show "skeleton_kept fs fs2" by (simp add: skeleton_kept_def)
qed

lemma only_temp_below: "prefix (RT @ [temp_name x]) q \<Longrightarrow> fs q = None \<Longrightarrow> fs (RT @ [temp_name x]) = None \<Longrightarrow> only_temp RT fs q"
  by (auto simp: only_temp_def)

lemma install_artifact_failed:
  assumes "temp_ready env t RT n fs" "opArtifactDir op = []" "list_all plain (binary_names u n)"
    and "install_artifact env n args dst u op ((fs, ft), w) = (Inl e, s')" "before_move e"
  shows "fst (fst s') q = fs q \<or> only_temp RT fs q"
  using assms(1-4)
proof (cases rule: install_artifact_stage)
  case (1 e)
  then show ?thesis by simp
next
  case (2 x RX TD fs1 r ft1 s2 s4)
  have r: "r = Inl e \<and> s4 = s2"
    using 2(11) assms(5) by (auto dest: finalize_not_before check_not_before split: sum.splits option.splits prod.splits)
  note frame = temp_frame [of RX fs, OF 2(5) 2(8) [unfolded 2(3)]]
  have "dest_at (ieCwd env) fs (Clean t) RT" using assms(1) by (simp add: install_ready_def temp_ready_def)
  then have T: "dest_at (ieCwd env) (fst (fst s2)) (Clean t) RT" using frame(1) by (rule dest_at_skeleton)
  obtain e5 d5 where "try_call (RemoveAll (ieCwd env) TD) (fst s2) = (e5, d5)" by (metis surj_pair)
  moreover from RemoveAll_temp [OF T 2(7) this [unfolded 2(2)] refl]
  have "fst d5 = fst (fst s2) \<or> fst d5 = (\<lambda>r. if prefix RX r then None else fst (fst s2) r)" by (simp add: 2(1))
  ultimately have "fst (fst s') q = fst (fst s2) q \<or> prefix RX q" using 2(12) r by auto
  then show ?thesis
    using frame(2) [of q] 2(5) [of q] 2(5) [of RX] only_temp_below [of RT x q fs] by (cases "prefix RX q") (simp_all add: 2(1))
qed

lemma target_outside:
  assumes "install_ready env t RT D R n fs" "RX = RT @ [temp_name x]" "\<And>q. prefix RX q \<Longrightarrow> fs q = None" "\<not> HasPrefix m ''etcd-install''"
  shows "\<not> prefix RX (R @ [m])"
proof
  assume "prefix RX (R @ [m])"
  then have "prefix RX R \<or> RX = R @ [m]" by (metis prefix_snoc)
  moreover have "\<not> prefix RX R" using assms(1) assms(3) [of R] by (auto simp: install_ready_def temp_ready_def dest_at_def)
  ultimately show False using assms(2,4) by (auto simp: temp_name_def)
qed

text \<open>The version command runs the binary: it succeeds only on a regular file, and it writes nothing.\<close>

definition runs_files :: "'w install_env \<Rightarrow> bool" where
  "runs_files env \<longleftrightarrow> (\<forall>p args s out s'. ieOutput env p args s = (Inr out, s') \<longrightarrow>
     fst s' = fst s \<and> (\<exists>m c. Stat (ieCwd env) (fst (fst s)) p = Inr (NFile m c)))"

lemma finalize_ok:
  assumes "dest_at cwd (fst d) D R" "plain n" "free_name (fst d) (R @ [n])" "Dir dst = D" "dst = under D [n] False"
    and "\<And>fs follow q. changes_only (R @ [n]) (fst d) fs \<Longrightarrow> resolve cwd fs follow src = Inr q \<Longrightarrow> q = p"
    and "p \<noteq> R @ [n]" "\<not> is_link (fst d p)" "fst d p \<noteq> Some NOther" "skeleton_kept fs (fst d)" "dest_at cwd fs D R"
    and "\<And>r. is_dir (fs r) \<or> is_link (fs r) \<Longrightarrow> \<not> prefix (R @ [n]) r \<and> \<not> prefix p r"
    and "finalizeDownloadedBin cwd src dst d = (None, d')" "Stat cwd (fst d') dst = Inr (NFile k b)"
  shows "(\<exists>m. fst d p = Some (NFile m b)) \<and> fst d' (R @ [n]) = Some (NFile 493 b) \<and>
    (fst d' p = fst d p \<or> fst d' p = None) \<and> (\<forall>r. r \<noteq> R @ [n] \<longrightarrow> r \<noteq> p \<longrightarrow> fst d' r = fst d r)"
proof -
  obtain d1 where mv: "moveFile cwd src dst d = (None, d1)" and ch: "try_call (Chmod cwd binaryPerm dst) d1 = (None, d')"
    using assms(13) by (auto simp: finalizeDownloadedBin_def split: prod.splits option.splits)
  have moved: "moved p (R @ [n]) (fst d) (fst d1)"
    by (rule moveFile_moved [OF assms(1-5) _ assms(7-9) mv]) (rule assms(6))
  have ch': "Chmod cwd 493 (under D [n] False) (fst d1) = (None, fst d')"
    using with_fault_done [OF ch [unfolded try_call_def]] assms(5) by (simp add: binaryPerm_def)
  have kept: "skeleton_kept fs (fst d1)"
  proof -
    have "fst d1 r = fst d r" if "is_dir (fs r) \<or> is_link (fs r)" for r
      using moved assms(12) [OF that] by (auto simp: moved_def)
    with assms(10) show ?thesis by (simp add: skeleton_kept_def)
  qed
  have D1: "dest_at cwd (fst d1) D R" by (rule dest_at_skeleton [OF assms(11) kept])
  have not_dir: "\<not> is_dir (fst d1 (R @ [n]))"
  proof
    assume dir: "is_dir (fst d1 (R @ [n]))"
    then have "is_dir (fst d' (R @ [n]))" using Chmod_dir [OF ch'] by blast
    moreover have "resolve cwd (fst d1) True dst = Inr (R @ [n])"
      unfolding assms(5) by (rule resolve_child [OF D1 assms(2)]) (use dir in \<open>auto simp: is_dir_iff\<close>)
    moreover from this dir ch' have "(fst d1)(R @ [n] \<mapsto> NDir 493) = fst d'" by (auto simp: Chmod_def assms(5) is_dir_iff)
    then have "fst d' = (fst d1)(R @ [n] \<mapsto> NDir 493)" by (rule sym)
    then have "skeleton_kept fs (fst d')" using kept assms(12) by (auto simp: skeleton_kept_def)
    then have "resolve cwd (fst d') True dst = Inr (R @ [n])"
      unfolding assms(5) using calculation(1)
      by (intro resolve_child [OF dest_at_skeleton [OF assms(11)] assms(2)]) (auto simp: is_dir_iff)
    ultimately show False using assms(14) by (auto simp: Stat_def lookup_node_def is_dir_iff)
  qed
  with moved obtain m c m' where c: "fst d p = Some (NFile m c)" "fst d1 (R @ [n]) = Some (NFile m' c)"
      "fst d1 p = fst d p \<or> fst d1 p = None" "\<forall>r. r \<noteq> R @ [n] \<longrightarrow> r \<noteq> p \<longrightarrow> fst d1 r = fst d r"
    by (auto simp: moved_def)
  have d': "fst d' = (fst d1)(R @ [n] \<mapsto> NFile 493 c)" by (rule Chmod_target [OF D1 assms(2) c(2) ch'])
  have "skeleton_kept fs (fst d')" using kept d' assms(12) by (auto simp: skeleton_kept_def)
  then have "resolve cwd (fst d') True dst = Inr (R @ [n])"
    unfolding assms(5) by (intro target_resolve [OF dest_at_skeleton [OF assms(11)] assms(2)]) (simp_all add: d' free_name_def)
  then have "b = c" using assms(14) d' by (simp add: Stat_def lookup_node_def)
  then show ?thesis using c d' assms(7) by simp
qed

lemma install_artifact_ok:
  assumes "install_ready env t RT D R n fs" "opArtifactDir op = []" "list_all plain (binary_names u n)"
    and "opVersionCheck op" "runs_files env" "Dir dst = D" "dst = under D [n] False"
    and "install_artifact env n args dst u op ((fs, ft), w) = (Inr out, s')"
  shows "\<exists>x ft1 c body. artifact_checksum env op u (fs(RT @ [temp_name x] \<mapsto> NDir 448), ft1) c \<and> binary_of env u n c body \<and>
      fst (fst s') (R @ [n]) = Some (NFile 493 body)"
    and "q \<noteq> R @ [n] \<Longrightarrow> fst (fst s') q = fs q \<or> only_temp RT fs q"
    and "wf_fs (ieCwd env) (fst (fst s'))"
proof -
  let ?C = "\<lambda>s'. (\<exists>x ft1 c body. artifact_checksum env op u (fs(RT @ [temp_name x] \<mapsto> NDir 448), ft1) c \<and> binary_of env u n c body \<and>
      fst (fst s') (R @ [n]) = Some (NFile 493 body)) \<and> (\<forall>q. q \<noteq> R @ [n] \<longrightarrow> fst (fst s') q = fs q \<or> only_temp RT fs q) \<and>
      wf_fs (ieCwd env) (fst (fst s'))"
  have tmp: "temp_ready env t RT n fs" using assms(1) by (simp add: install_ready_def)
  from tmp assms(2,3,8) have "?C s'"
  proof (cases rule: install_artifact_stage)
    case (2 x RX TD fs1 r ft1 s2 s4)
    let ?ns = "binary_names u n" and ?fs2 = "fst (fst s2)"
    obtain src d3 where src: "r = Inr src" "finalizeDownloadedBin (ieCwd env) src dst (fst s2) = (None, d3)"
        "check_if_asked env op dst args (d3, snd s2) = (Inr out, s4)"
      using 2(11) by (auto split: sum.splits option.splits prod.splits)
    obtain c where c: "src = under TD ?ns False" "artifact_checksum env op u (fs1, ft1) c" "holds_binary env u n c (?fs2 (RX @ ?ns))"
      using 2(10) [OF src(1)] by blast
    have ran: "ieOutput env dst args (d3, snd s2) = (Inr out, s4)"
      using src(3) assms(4) by (auto simp: check_if_asked_def checkVersion_def split: sum.splits prod.splits)
    have s4: "fst s4 = d3" and bin: "\<exists>m b. Stat (ieCwd env) (fst d3) dst = Inr (NFile m b)"
      using assms(5) [unfolded runs_files_def, rule_format, OF ran] by simp_all
    then obtain k b where b: "Stat (ieCwd env) (fst d3) dst = Inr (NFile k b)" by blast
    have frame: "skeleton_kept fs ?fs2" "\<And>q. \<not> prefix RX q \<Longrightarrow> ?fs2 q = fs q"
      using temp_frame [of RX fs "NDir 448" ?fs2] 2(3,5,8) by blast+
    have ready: "dest_at (ieCwd env) fs (Clean t) RT" "dest_at (ieCwd env) fs D R" "plain n" "free_name fs (R @ [n])"
        "\<not> HasPrefix n ''etcd-install''" "wf_fs (ieCwd env) fs"
      using assms(1) by (simp_all add: install_ready_def temp_ready_def)
    have out: "\<not> prefix RX (R @ [n])" by (rule target_outside [OF assms(1) 2(1,5) ready(5)])
    have free: "free_name ?fs2 (R @ [n])" using frame(2) [OF out] ready(4) by (simp add: free_name_def)
    have D2: "dest_at (ieCwd env) ?fs2 D R" by (rule dest_at_skeleton [OF ready(2) frame(1)])
    have p: "RX @ ?ns \<noteq> R @ [n]" using out by (metis prefixI)
    have ns: "?ns \<noteq> []" by (simp add: binary_names_def split: option.split)
    have links: "link_free ?fs2 RX ?ns" by (rule fresh_link_free [OF 2(4,8) assms(3)])
    have at_src: "q = RX @ ?ns" if ch: "changes_only (R @ [n]) ?fs2 fs'" and res: "resolve (ieCwd env) fs' follow src = Inr q" for fs' follow q
    proof (rule resolve_under [of "ieCwd env" fs' TD RX ?ns False follow])
      show "dest_at (ieCwd env) fs' TD RX" by (rule changes_only_dest [OF ch fresh_dest [OF 2(4,8)]])
      have "\<not> is_link (fs' r)" if "\<not> is_link (?fs2 r)" for r
        using ch that by (cases "r = R @ [n]") (auto simp: changes_only_def free_name_node)
      with links show "link_free fs' RX ?ns" by (simp add: link_free_def)
    qed (use ns res c(1) in auto)
    have quiet: "\<not> prefix (R @ [n]) r \<and> \<not> prefix (RX @ ?ns) r" if "is_dir (fs r) \<or> is_link (fs r)" for r
    proof
      show "\<not> prefix (RX @ ?ns) r" using 2(5) [of r] that by (auto dest: append_prefixD)
      show "\<not> prefix (R @ [n]) r"
      proof
        assume "prefix (R @ [n]) r"
        then obtain ms where r: "r = (R @ [n]) @ ms" by (rule prefixE)
        have "fs ((R @ [n]) @ ms) \<noteq> None" using that r by (auto simp: is_dir_iff is_link_iff)
        from wf_fs_take [OF ready(6) this, of 0] that r ready(4) show False by (cases ms) (auto dest: free_name_node)
      qed
    qed
    have nl: "\<not> is_link (?fs2 (RX @ ?ns))" by (rule link_free_last [OF links])
    have no: "?fs2 (RX @ ?ns) \<noteq> Some NOther" using c(3) by (simp add: holds_binary_def)
    have fin: "(\<exists>m. ?fs2 (RX @ ?ns) = Some (NFile m b)) \<and> fst d3 (R @ [n]) = Some (NFile 493 b) \<and>
        (fst d3 (RX @ ?ns) = ?fs2 (RX @ ?ns) \<or> fst d3 (RX @ ?ns) = None) \<and>
        (\<forall>r. r \<noteq> R @ [n] \<longrightarrow> r \<noteq> RX @ ?ns \<longrightarrow> fst d3 r = ?fs2 r)"
      by (rule finalize_ok [OF D2 ready(3) free assms(6,7) _ p nl no frame(1) ready(2) quiet src(2) b]) (rule at_src)
    then have body: "binary_of env u n c b" using c(3) by (auto simp: holds_binary_def)
    have keep3: "fst d3 r = fs r" if "r \<noteq> R @ [n]" "\<not> prefix RX r" for r
      using fin that frame(2) [of r] by (metis prefixI)
    have T3: "dest_at (ieCwd env) (fst d3) (Clean t) RT"
    proof (rule dest_at_skeleton [OF ready(1)])
      have "fst d3 r = fs r" if "is_dir (fs r) \<or> is_link (fs r)" for r
        using keep3 [of r] quiet [OF that] 2(5) [of r] that by (cases "prefix RX r"; cases "r = R @ [n]") auto
      then show "skeleton_kept fs (fst d3)" by (simp add: skeleton_kept_def)
    qed
    obtain e5 d5 where rm: "try_call (RemoveAll (ieCwd env) TD) d3 = (e5, d5)" by (metis surj_pair)
    have d5: "fst d5 = fst d3 \<or> fst d5 = (\<lambda>r. if prefix RX r then None else fst d3 r)"
      using RemoveAll_temp [OF T3 2(7) rm [unfolded 2(2)] refl] by (simp add: 2(1))
    have s': "fst s' = d5" using 2(12) s4 rm by simp
    have wf3: "wf_fs (ieCwd env) (fst d3)"
    proof -
      let ?f = "?fs2(R @ [n] \<mapsto> NFile 493 b)"
      have "wf_fs (ieCwd env) ?f"
        using free_name_node [OF free] D2 by (intro wf_fs_update [OF 2(9)]) (simp_all add: dest_at_def)
      moreover have "fst d3 = ?f \<or> fst d3 = ?f(RX @ ?ns := None)" using fin by (intro disjCI ext) auto
      moreover have "wf_fs (ieCwd env) (?f(RX @ ?ns := None))"
        using fin p by (intro wf_fs_update [OF calculation(1)]) auto
      ultimately show ?thesis by metis
    qed
    have "wf_fs (ieCwd env) (fst d5)"
      using d5
    proof
      assume e: "fst d5 = (\<lambda>r. if prefix RX r then None else fst d3 r)"
      have "\<not> prefix RX []" "\<not> prefix RX (ieCwd env)"
        using 2(5) ready(6) by (auto simp: wf_fs_def dest!: is_dir_exists)
      with wf3 show ?thesis unfolding e wf_fs_def by (auto dest: prefix_order.trans)
    qed (use wf3 in simp)
    moreover have "fst d5 q = fs q \<or> only_temp RT fs q" if "q \<noteq> R @ [n]" for q
      using d5 keep3 [OF that] 2(5) [of q] 2(5) [of RX] only_temp_below [of RT x q fs] 2(1) by (cases "prefix RX q") auto
    moreover have "fst d5 (R @ [n]) = Some (NFile 493 b)" using d5 fin out by auto
    ultimately show ?thesis using c(2) body 2(1,3) s' by blast
  qed simp
  then show "\<exists>x ft1 c body. artifact_checksum env op u (fs(RT @ [temp_name x] \<mapsto> NDir 448), ft1) c \<and> binary_of env u n c body \<and>
      fst (fst s') (R @ [n]) = Some (NFile 493 body)"
    and "q \<noteq> R @ [n] \<Longrightarrow> fst (fst s') q = fs q \<or> only_temp RT fs q" and "wf_fs (ieCwd env) (fst (fst s'))" by blast+
qed

section \<open>Official releases\<close>

lemma Base_append:
  assumes "slash \<notin> set b" "b \<noteq> []"
  shows "\<exists>c. Base (a @ b) = c @ b \<and> slash \<notin> set c"
proof -
  let ?t = "takeWhile (\<lambda>c. c \<noteq> slash) (rev a)"
  have "last b \<noteq> slash" using assms last_in_set by metis
  then have "dropWhile (\<lambda>c. c = slash) (rev (a @ b)) = rev (a @ b)"
    using assms(2) by (cases b rule: rev_cases) simp_all
  moreover have "takeWhile (\<lambda>c. c \<noteq> slash) (rev b @ rev a) = rev b @ ?t"
    by (rule takeWhile_append2) (use assms(1) in auto)
  ultimately have "Base (a @ b) = rev ?t @ b" using assms(2) by (simp add: Base_def Let_def)
  moreover have "slash \<notin> set (rev ?t)" by (auto dest: set_takeWhileD)
  ultimately show ?thesis by blast
qed

lemma trimmed_plain:
  assumes "slash \<notin> set s" "10 \<le> length s" "length suf \<le> 7"
  shows "plain (TrimSuffix s suf)"
proof -
  have "set (TrimSuffix s suf) \<subseteq> set s" by (auto simp: TrimSuffix_def dest: in_set_takeD)
  moreover have "3 \<le> length (TrimSuffix s suf)" using assms(2,3) by (auto simp: TrimSuffix_def)
  ultimately show ?thesis using assms(1) by (auto simp: plain_def)
qed

lemma official_names:
  assumes "buildDownloadURL env v = Inr u" "plain n"
  shows "list_all plain (binary_names u n)"
proof -
  obtain a arch ext where u': "u = a @ ''-'' @ arch @ ''.'' @ ext" "getArchType env = Inr arch" "getArchiveType env = Inr ext"
    using assms(1) that [of "_ @ _"] by (auto simp: buildDownloadURL_def Let_def split: if_splits sum.splits)
  define tail where "tail = ''-'' @ arch @ ''.'' @ ext"
  have u: "u = a @ tail" by (simp add: u'(1) tail_def)
  have tail: "tail \<in> set [''-amd64.tar.gz'', ''-arm64.tar.gz'', ''-amd64.zip'', ''-arm64.zip'']"
    using u'(2,3) by (auto simp: tail_def getArchType_def getArchiveType_def split: if_splits)
  have "slash \<notin> set tail" "tail \<noteq> []" "10 \<le> length tail" using tail by auto
  with Base_append [of tail a] u have "slash \<notin> set (Base u)" "10 \<le> length (Base u)" by auto
  moreover have "length suf \<le> 7" if "archive_suffix u = Some suf" for suf
  proof -
    have "suf \<in> set [''.tar.gz'', ''.tgz'', ''.zip'']" using that by (simp add: archive_suffix_def split: if_splits)
    then show ?thesis by auto
  qed
  ultimately show ?thesis using assms(2) trimmed_plain by (auto simp: binary_names_def split: option.split)
qed

lemma join_clean:
  assumes "comps dir \<noteq> []" "plain n"
  shows "PathJoin [dir, n] = under (Clean dir) [n] False"
proof -
  have ne: "dir \<noteq> []" using assms(1) by (auto simp: comps_def IsAbs_def clean_comps_def clean_step_def)
  have n: "Split slash n = [n]" using assms(2) by (intro Split_word) (simp add: plain_def)
  have abs: "IsAbs (dir @ slash # n) = IsAbs dir" using ne by (cases dir) (simp_all add: IsAbs_def)
  moreover have "comps (dir @ slash # n) = comps dir @ [n]"
    using n abs assms(2) by (simp add: comps_def clean_comps_def Split_append clean_step_plain)
  ultimately show ?thesis
    using ne unparse_append [OF assms(1), of "IsAbs dir" "[n]"] by (simp add: PathJoin_def Clean_def)
qed

section \<open>Downloads\<close>

text \<open>What the options of the install command are.\<close>

lemma install_options:
  "applyOpts [WithVersion v, WithVersionCheck True] zero_Op =
     \<lparr>opVersion = v, opDownloadURL = [], opDownloadTimeout = 60 * second, opVersionCheck = True, opOffline = False,
      opArtifactDir = [], opManifestPath = []\<rparr>"
  by (simp add: applyOpts_def WithVersion_def WithVersionCheck_def zero_Op_def)

text \<open>A binary with the published checksum.\<close>

definition published :: "'w install_env \<Rightarrow> string \<Rightarrow> string \<Rightarrow> string \<Rightarrow> bool" where
  "published env u n body \<longleftrightarrow> (\<exists>url listing w1 w2 expected c. sums_url env u = Inr url \<and>
     DownloadURL (ieHTTP env) url [WithTimeout (60 * second)] w1 = (Inr listing, w2) \<and> parseSHA256SUMS listing (Base u) = Inr expected \<and>
     has_checksum (ieSHA256 env) expected 0 c \<and> binary_of env u n c body)"

lemma install_ready_next:
  assumes "install_ready env t RT D R n fs" "\<And>q. q \<noteq> R @ [n] \<Longrightarrow> fs' q = fs q \<or> only_temp RT fs q" "wf_fs (ieCwd env) fs'"
    and "plain m" "\<not> HasPrefix m ''etcd-install''" "m \<noteq> n" "free_name fs (R @ [m])"
  shows "install_ready env t RT D R m fs'"
proof -
  have ready: "dest_at (ieCwd env) fs (Clean t) RT" "dest_at (ieCwd env) fs D R" "free_name fs (R @ [n])"
    using assms(1) by (simp_all add: install_ready_def temp_ready_def)
  have "fs' r = fs r" if "is_dir (fs r) \<or> is_link (fs r)" for r
    using assms(2) [of r] that free_name_node [OF ready(3)] by (cases "r = R @ [n]") (auto simp: only_temp_def)
  then have "skeleton_kept fs fs'" by (simp add: skeleton_kept_def)
  note kept = dest_at_skeleton [OF ready(1) this] dest_at_skeleton [OF ready(2) this]
  have "\<not> only_temp RT fs (R @ [m])"
  proof
    assume "only_temp RT fs (R @ [m])"
    then obtain x where x: "prefix (RT @ [temp_name x]) (R @ [m])" "fs (RT @ [temp_name x]) = None" by (auto simp: only_temp_def)
    then have "prefix (RT @ [temp_name x]) R \<or> RT @ [temp_name x] = R @ [m]" by (metis prefix_snoc)
    then have "prefix (RT @ [temp_name x]) R" using assms(5) by (auto simp: temp_name_def)
    then obtain ns where ns: "R = (RT @ [temp_name x]) @ ns" by (rule prefixE)
    have "fs ((RT @ [temp_name x]) @ ns) \<noteq> None" using ready(2) ns is_dir_exists [of "fs R"] by (simp add: dest_at_def)
    with x(2) have "ns \<noteq> []" by auto
    moreover have "wf_fs (ieCwd env) fs" using assms(1) by (simp add: install_ready_def temp_ready_def)
    ultimately have "is_dir (fs ((RT @ [temp_name x]) @ take 0 ns))"
      using wf_fs_take \<open>fs ((RT @ [temp_name x]) @ ns) \<noteq> None\<close> by blast
    with x(2) show False by simp
  qed
  then have "free_name fs' (R @ [m])" using assms(2) [of "R @ [m]"] assms(6,7) by (auto simp: free_name_def)
  with assms(1,3,4,5) kept show ?thesis by (simp add: install_ready_def temp_ready_def)
qed

lemma download_published:
  assumes "install_ready env t RT (Clean dir) R n fs" "runs_files env" "comps dir \<noteq> []"
    and "download env n args (PathJoin [dir, n]) [WithVersion v, WithVersionCheck True] ((fs, ft), w) = (Inr out, s')"
  shows "\<exists>u body. buildDownloadURL env v = Inr u \<and> published env u n body \<and> fst (fst s') (R @ [n]) = Some (NFile 493 body)"
    and "q \<noteq> R @ [n] \<Longrightarrow> fst (fst s') q = fs q \<or> only_temp RT fs q" and "wf_fs (ieCwd env) (fst (fst s'))"
proof -
  have n: "plain n" using assms(1) by (simp add: install_ready_def temp_ready_def)
  have dst: "PathJoin [dir, n] = under (Clean dir) [n] False" "Dir (under (Clean dir) [n] False) = Clean dir"
    using join_clean [OF assms(3) n] Clean_child(2) [OF assms(3) n] by simp_all
  define op where "op = \<lparr>opVersion = v, opDownloadURL = [], opDownloadTimeout = 60 * second, opVersionCheck = True, opOffline = False,
      opArtifactDir = [], opManifestPath = []\<rparr>"
  obtain u w1 where u: "buildDownloadURL env v = Inr u"
      "install_artifact env n args (under (Clean dir) [n] False) u op ((fs, ft), w1) = (Inr out, s')"
    using assms(4) dst(1) by (auto simp: download_def install_options op_def Let_def resolveDownloadURL_def split: sum.splits)
  have "opArtifactDir op = []" "opVersionCheck op" by (simp_all add: op_def)
  note ok = install_artifact_ok [OF assms(1) this(1) official_names [OF u(1) n] this(2) assms(2) dst(2) refl u(2)]
  have "artifact_checksum env op u d c \<Longrightarrow> binary_of env u n c body \<Longrightarrow> published env u n body" for d c body
    by (auto simp: artifact_checksum_def op_def published_def TrimSpace_def strip_front.simps starts_with_any_def ws_seqs_def)
  with ok(1) u(1) show "\<exists>u body. buildDownloadURL env v = Inr u \<and> published env u n body \<and> fst (fst s') (R @ [n]) = Some (NFile 493 body)"
    by blast
  show "q \<noteq> R @ [n] \<Longrightarrow> fst (fst s') q = fs q \<or> only_temp RT fs q" and "wf_fs (ieCwd env) (fst (fst s'))"
    using ok(2,3) by blast+
qed

text \<open>One step of the loop over the binaries: \<open>done\<close> holds the names installed before.\<close>

lemma install_next:
  assumes "install_ready env t RT (Clean dir) R n fs" "runs_files env" "comps dir \<noteq> []"
    and "download env n args (PathJoin [dir, n]) [WithVersion v, WithVersionCheck True] ((fs, ft), w) = (Inr out, ((fs', ft'), w'))"
  shows "\<exists>u body. buildDownloadURL env v = Inr u \<and> published env u n body \<and> fs' (R @ [n]) = Some (NFile 493 body)"
    and "fs q = Some nd \<Longrightarrow> q \<noteq> R @ [n] \<Longrightarrow> fs' q = Some nd"
    and "plain m \<Longrightarrow> \<not> HasPrefix m ''etcd-install'' \<Longrightarrow> m \<noteq> n \<Longrightarrow> free_name fs (R @ [m]) \<Longrightarrow>
      install_ready env t RT (Clean dir) R m fs' \<and> free_name fs' (R @ [m])"
proof -
  note ok = download_published [OF assms, unfolded fst_conv]
  from ok(1) show "\<exists>u body. buildDownloadURL env v = Inr u \<and> published env u n body \<and> fs' (R @ [n]) = Some (NFile 493 body)" .
  show "fs' q = Some nd" if "fs q = Some nd" "q \<noteq> R @ [n]"
    using ok(2) [OF that(2)] that(1) by (auto simp: only_temp_def)
  show "install_ready env t RT (Clean dir) R m fs' \<and> free_name fs' (R @ [m])"
    if "plain m" "\<not> HasPrefix m ''etcd-install''" "m \<noteq> n" "free_name fs (R @ [m])"
    using install_ready_next [OF assms(1) ok(2) ok(3) that] by (simp add: install_ready_def temp_ready_def)
qed

text \<open>C3: When \<^verbatim>\<open>install\<close> reports success, each of the three binaries in the installation directory is, byte for
  byte, the entry of that name of an archive whose SHA-256 checksum is the one the release publishes for it, with mode 0755:
  nothing that was not verified is installed, whatever the network delivers and whichever system calls fail on the
  way. Running a binary is assumed to need a regular file and not to write.\<close>

theorem runInstall_verified:
  assumes "wf_fs (ieCwd env) fs" and "ieTempDir env = Clean t" and "comps t \<noteq> []" and "resolve (ieCwd env) fs True (Clean t) = Inr RT"
    and "is_dir (fs RT)" and "\<And>w x. x \<in> set (ieTempNames env w) \<Longrightarrow> slash \<notin> set x" and "runs_files env"
    and "Clean dir = dir" and "comps dir \<noteq> []" and "resolve (ieCwd env) fs True dir = Inr R" and "is_dir (fs R)"
    and "\<And>n. n \<in> set [''etcd'', ''etcdctl'', ''etcdutl''] \<Longrightarrow> free_name fs (R @ [n])"
    and "runInstall env semver version dir ((fs, ft), w) = (None, ((fs', ft'), w'))"
  shows "\<exists>v u. buildDownloadURL env v = Inr u \<and> (\<forall>n \<in> set [''etcd'', ''etcdctl'', ''etcdutl''].
     \<exists>body. published env u n body \<and> fs' (R @ [n]) = Some (NFile 493 body))"
proof -
  have D: "dest_at (ieCwd env) fs dir R" "dest_at (ieCwd env) fs (Clean t) RT" using assms(4,5,10,11) by (simp_all add: dest_at_resolve)
  obtain k where "Stat (ieCwd env) fs dir = Inr (NDir k)" using Stat_dest [OF D(1), of False] by (auto simp: under_def)
  then have mk: "MkdirAll (ieCwd env) 493 dir fs = (None, fs)" by (simp add: MkdirAll.simps)
  obtain v w1 d2 where v: "try_call (MkdirAll (ieCwd env) 493 dir) (fs, ft) = (None, d2)"
      "install_each [(''etcd'', DownloadEtcd env), (''etcdctl'', DownloadEtcdctl env), (''etcdutl'', DownloadEtcdutl env)] dir v (d2, w1)
         = (None, ((fs', ft'), w'))"
    using assms(13) by (auto simp: runInstall_def split: if_splits sum.splits prod.splits option.splits)
  have d2: "fst d2 = fs" using with_fault_done [OF v(1) [unfolded try_call_def]] mk by simp
  let ?opts = "[WithVersion v, WithVersionCheck True]"
  obtain o1 f1 t1 w2 o2 f2 t2 w3 o3 where
    r1: "download env ''etcd'' [''--version''] (PathJoin [dir, ''etcd'']) ?opts ((fs, snd d2), w1) = (Inr o1, ((f1, t1), w2))" and
    r2: "download env ''etcdctl'' [''version''] (PathJoin [dir, ''etcdctl'']) ?opts ((f1, t1), w2) = (Inr o2, ((f2, t2), w3))" and
    r3: "download env ''etcdutl'' [''version''] (PathJoin [dir, ''etcdutl'']) ?opts ((f2, t2), w3) = (Inr o3, ((fs', ft'), w'))"
    using v(2) d2 by (cases d2) (auto simp: DownloadEtcd_def DownloadEtcdctl_def DownloadEtcdutl_def split: sum.splits prod.splits)
  have p: "plain ''etcd''" "plain ''etcdctl''" "plain ''etcdutl''" by (simp_all add: plain_def)
  have "install_ready env t RT (Clean dir) R ''etcd'' fs" using assms D p by (simp add: install_ready_def temp_ready_def)
  note 1 = install_next [OF this assms(7,9) r1]
  have ctl: "install_ready env t RT (Clean dir) R ''etcdctl'' f1" and utl1: "free_name f1 (R @ [''etcdutl''])"
    using 1(3) [OF p(2)] 1(3) [OF p(3)] assms(12) by simp_all
  note 2 = install_next [OF ctl assms(7,9) r2]
  have utl: "install_ready env t RT (Clean dir) R ''etcdutl'' f2" using 2(3) [OF p(3)] utl1 by simp
  note 3 = install_next [OF utl assms(7,9) r3]
  from 1(1) obtain u b1 where b1: "buildDownloadURL env v = Inr u" "published env u ''etcd'' b1" "f1 (R @ [''etcd'']) = Some (NFile 493 b1)" by blast
  from 2(1) obtain b2 where b2: "published env u ''etcdctl'' b2" "f2 (R @ [''etcdctl'']) = Some (NFile 493 b2)" using b1(1) by auto
  from 3(1) obtain b3 where b3: "published env u ''etcdutl'' b3" "fs' (R @ [''etcdutl'']) = Some (NFile 493 b3)" using b1(1) by auto
  have "fs' (R @ [''etcdctl'']) = Some (NFile 493 b2)" "fs' (R @ [''etcd'']) = Some (NFile 493 b1)"
    using 3(2) [OF b2(2)] 3(2) [OF 2(2) [OF b1(3)]] by simp_all
  with b1(1,2) b2(1) b3 show ?thesis by auto
qed

text \<open>C33: An installation from the network that fails before the binary is moved to its place leaves no trace: an archive
  with a wrong checksum, an artifact that is not listed, a hostile archive, a network error or a full disk change nothing
  anywhere, except that a new temporary directory may be left when removing it fails.\<close>

theorem failed_download_leaves_no_trace:
  assumes "wf_fs (ieCwd env) fs" and "ieTempDir env = Clean t" and "comps t \<noteq> []" and "resolve (ieCwd env) fs True (Clean t) = Inr RT"
    and "is_dir (fs RT)" and "\<And>w x. x \<in> set (ieTempNames env w) \<Longrightarrow> slash \<notin> set x" and "plain n"
    and "opArtifactDir (applyOpts opts zero_Op) = []"
    and "\<And>u. resolveDownloadURL env (Some (applyOpts opts zero_Op)) = Inr u \<Longrightarrow> list_all plain (binary_names u n)"
    and "download env n args binPath opts ((fs, ft), w) = (Inl e, ((fs', ft'), w'))" and "before_move e"
  shows "fs' q = fs q \<or> (\<exists>x. prefix (RT @ [''etcd-install'' @ x]) q \<and> fs (RT @ [''etcd-install'' @ x]) = None)"
proof -
  let ?op = "applyOpts opts zero_Op"
  have T: "temp_ready env t RT n fs" using assms by (simp add: temp_ready_def dest_at_resolve)
  consider "fs' = fs" | u w1 where "resolveDownloadURL env (Some ?op) = Inr u"
      "install_artifact env n args binPath u ?op ((fs, ft), w1) = (Inl e, ((fs', ft'), w'))"
    using assms(8,10) by (auto simp: download_def Let_def split: sum.splits)
  then show ?thesis
  proof cases
    case (2 u w1)
    from install_artifact_failed [OF T assms(8) assms(9) [OF 2(1)] 2(2) assms(11), of q] show ?thesis
      by (auto simp: only_temp_def temp_name_def)
  qed simp
qed

text \<open>Offline mode means offline: with \<^verbatim>\<open>WithOffline(true)\<close> and without a version check, no request is sent and no time is
  spent waiting, on any path through the installer: the state of the network afterwards is the one before.\<close>

theorem offline_uses_no_network:
  assumes "opOffline (applyOpts opts zero_Op)" and "\<not> opVersionCheck (applyOpts opts zero_Op)"
    and "download env binName args binPath opts (d, w) = (r, (d', w'))"
  shows "w' = w"
proof -
  let ?op = "applyOpts opts zero_Op"
  have probe: "snd (probeDownloadSize env u (Some ?op) w) = w" for u using assms(1) by (simp add: probeDownloadSize_def)
  have check: "snd (snd (check_if_asked env ?op p args s)) = snd s" for p s using assms(2) by (simp add: check_if_asked_def)
  have ne: "d \<noteq> [] \<Longrightarrow> PathJoin [d, a] \<noteq> []" for d a by (simp add: PathJoin_def)
  have resolve: "snd (snd (resolveDownloadedFile env binName a u tmp (Some ?op) s)) = snd s" for a u tmp s
    using assms(1) ne by (auto simp: resolveDownloadedFile_def resolveFromArtifactDir_def Let_def split: sum.splits prod.splits bool.splits if_splits)
  have verify: "snd (snd (verifyArtifact env p a u mf (opOffline ?op) tm s)) = snd s" for p a u mf tm s
    using assms(1) by (auto simp: verifyArtifact_def verify_sha_def split: option.splits prod.splits)
  have stage: "snd (snd (stage_artifact env binName u tmp ?op s)) = snd s" for u tmp s
    using resolve verify by (auto simp: stage_artifact_def split: prod.splits sum.splits option.splits) (metis snd_conv)+
  have install: "snd (snd (install_artifact env binName args binPath u ?op s)) = snd s" for u s
    using stage check by (auto simp: install_artifact_def split: prod.splits sum.splits option.splits fault.splits) (metis snd_conv)+
  have pre: "snd (snd (install_pre_extracted env args binPath ?op p s)) = snd s" for p s
    using check by (auto simp: install_pre_extracted_def split: prod.splits option.splits)
  show ?thesis
    using assms(3) probe install pre
    by (cases d) (auto simp: download_def Let_def split: sum.splits prod.splits if_splits, (metis snd_conv)+)
qed

text \<open>A checksum manifest does not protect a binary of the artifact directory: whenever one is found there, under its
  own name or in an archive, it is installed whatever the manifest says, even when the manifest is missing or lists another
  checksum.\<close>

theorem pre_extracted_ignores_manifest:
  assumes "resolveDownloadURL env (Some (applyOpts opts zero_Op)) = Inr u" and "opArtifactDir (applyOpts opts zero_Op) \<noteq> []"
    and "fst (findPreExtractedBinary env (opArtifactDir (applyOpts opts zero_Op)) (Base u) binName (fst s)) \<noteq> []"
  shows "download env binName args binPath (opts @ [WithChecksumManifest m]) s = download env binName args binPath opts s"
proof -
  let ?op = "applyOpts opts zero_Op" and ?op' = "applyOpts (opts @ [WithChecksumManifest m]) zero_Op"
  have op': "?op' = ?op\<lparr>opManifestPath := m\<rparr>" by (simp add: applyOpts_def WithChecksumManifest_def Let_def)
  have "resolveDownloadURL env (Some ?op') = Inr u" using assms(1) by (simp add: op' resolveDownloadURL_def split: if_splits)
  moreover have "probeDownloadSize env u (Some ?op') w = probeDownloadSize env u (Some ?op) w" for w
    by (simp add: op' probeDownloadSize_def)
  moreover have "install_pre_extracted env args binPath ?op' p s = install_pre_extracted env args binPath ?op p s" for p s
    by (simp add: op' install_pre_extracted_def check_if_asked_def cong: option.case_cong prod.case_cong)
  ultimately show ?thesis
    using assms by (auto simp: download_def op' Let_def split: prod.split)
qed

section \<open>A release server with one release\<close>

definition demo_etcd :: string where "demo_etcd = ''etcd-v3.6.8-linux-amd64''"

text \<open>The world counts the requests.\<close>

definition demo_http :: "nat http_client" where
  "demo_http = \<lparr>hcNewRequest = (\<lambda>_. None), hcDo = (\<lambda>rq w.
     (Inr \<lparr>rsStatusCode = 200, rsStatus = ''200 OK'', rsContentLength = ''1'',
        rsBody = (if HasSuffix (rqURL rq) ''/SHA256SUMS'' then ''41  '' @ demo_etcd @ ''.tar.gz'' else ''A''),
        rsReadError = None, rsPath = rqURL rq\<rparr>, Suc w))\<rparr>"

definition demo_entry :: "string \<Rightarrow> string \<Rightarrow> tar_entry" where
  "demo_entry n body = \<lparr>teName = demo_etcd @ ''/'' @ n, teType = TypeReg, tePerm = 493, teBody = body, teReadError = None\<rparr>"

definition demo_env :: "(string \<Rightarrow> string) \<Rightarrow> nat install_env" where
  "demo_env sha = \<lparr>ieCwd = [], ieTempDir = ''/t'', ieTempNames = (\<lambda>_. [''1'']), ieGOOS = ''linux'', ieGOARCH = ''amd64'', ieHTTP = demo_http,
     ieSleep = (\<lambda>_ w. w), ieSHA256 = sha, ieYAML = (\<lambda>_. Inl ''yaml''),
     ieUntar = (\<lambda>c. Inr ([demo_entry ''etcd'' ''server'', demo_entry ''etcdctl'' ''client'', demo_entry ''etcdutl'' ''tool''], None)),
     ieUnzip = (\<lambda>_. Inl ''zip''), ieParseURL = (\<lambda>u. Inr (u, (\<lambda>p. p))),
     ieOutput = (\<lambda>p args s. case Stat [] (fst (fst s)) p of Inr (NFile m c) \<Rightarrow> (Inr c, s) | _ \<Rightarrow> (Inl ''exec'', s))\<rparr>"

definition demo_fs :: fsys where
  "demo_fs = [[] \<mapsto> NDir 493, [''t''] \<mapsto> NDir 511, [''b''] \<mapsto> NDir 493, [''a''] \<mapsto> NDir 493, [''a'', ''bin''] \<mapsto> NDir 493,
     [''a'', ''bin'', ''etcd-v3.6.8-linux-x86_64''] \<mapsto> NFile 493 ''forged'']"

lemma demo_wf: "wf_fs [] demo_fs"
proof -
  have "is_dir (demo_fs p)" if "demo_fs (p @ [c]) \<noteq> None" for p c
    using that by (auto simp: demo_fs_def append_eq_Cons_conv split: if_splits)
  then show ?thesis by (auto simp: wf_fs_def demo_fs_def)
qed

lemma demo_runs: "runs_files (demo_env sha)"
  by (auto simp: runs_files_def demo_env_def split: sum.splits node.splits)

lemma demo_paths:
  "''/t'' = Clean ''/t''" "comps ''/t'' \<noteq> []" "resolve [] demo_fs True (Clean ''/t'') = Inr [''t'']"
  "Clean ''/b'' = ''/b''" "comps ''/b'' \<noteq> []" "resolve [] demo_fs True ''/b'' = Inr [''b'']"
  by code_simp+

lemma demo_dirs: "is_dir (demo_fs [''t''])" "is_dir (demo_fs [''b''])"
  by (simp_all add: demo_fs_def)

lemma demo_names: "x \<in> set [''1''] \<Longrightarrow> slash \<notin> set x"
  by simp

lemma demo_fields [simp]:
  "ieCwd (demo_env sha) = []" "ieTempDir (demo_env sha) = ''/t''" "ieTempNames (demo_env sha) w = [''1'']"
  by (simp_all add: demo_env_def)

theorem runInstall_verified_witness:
  "\<exists>v u. buildDownloadURL (demo_env id) v = Inr u \<and> (\<forall>n \<in> set [''etcd'', ''etcdctl'', ''etcdutl'']. \<exists>body. published (demo_env id) u n body \<and>
     fst (fst (snd (runInstall (demo_env id) (\<lambda>_. True) ''3.6.8'' ''/b'' ((demo_fs, []), 0)))) [''b'', n] = Some (NFile 493 body))"
proof -
  let ?run = "runInstall (demo_env id) (\<lambda>_. True) ''3.6.8'' ''/b'' ((demo_fs, []), 0)"
  have "fst ?run = None" by code_simp
  then obtain fs' ft' w' where run: "?run = (None, ((fs', ft'), w'))" by (metis prod.collapse)
  have free: "n \<in> set [''etcd'', ''etcdctl'', ''etcdutl''] \<Longrightarrow> free_name demo_fs ([''b''] @ [n])" for n
    by (simp add: free_name_def demo_fs_def)
  show ?thesis
    using runInstall_verified [of "demo_env id" demo_fs "''/t''" "[''t'']" "''/b''" "[''b'']", unfolded demo_fields,
        OF demo_wf demo_paths(1-3) demo_dirs(1) demo_names demo_runs demo_paths(4-6) demo_dirs(2) free run]
    by (simp only: run snd_conv fst_conv append.simps)
qed

text \<open>With another hash function the published checksum does not match.\<close>

theorem failed_download_leaves_no_trace_witness:
  "\<exists>e. fst (download (demo_env (\<lambda>_. ''B'')) ''etcd'' [] ''/b/etcd'' [WithVersion ''3.6.8''] ((demo_fs, []), 0)) = Inl e \<and>
     fst (fst (snd (download (demo_env (\<lambda>_. ''B'')) ''etcd'' [] ''/b/etcd'' [WithVersion ''3.6.8''] ((demo_fs, []), 0)))) [''b'', ''etcd''] = None"
proof -
  let ?run = "download (demo_env (\<lambda>_. ''B'')) ''etcd'' [] ''/b/etcd'' [WithVersion ''3.6.8''] ((demo_fs, []), 0)"
  have "case fst ?run of Inl e \<Rightarrow> before_move e | Inr _ \<Rightarrow> False" by code_simp
  then obtain e fs' ft' w' where run: "?run = (Inl e, ((fs', ft'), w'))" "before_move e"
    by (cases ?run; cases "fst ?run") auto
  have "case resolveDownloadURL (demo_env (\<lambda>_. ''B'')) (Some (applyOpts [WithVersion ''3.6.8''] zero_Op)) of
      Inl _ \<Rightarrow> False | Inr u \<Rightarrow> list_all plain (binary_names u ''etcd'')" by code_simp
  then have names: "resolveDownloadURL (demo_env (\<lambda>_. ''B'')) (Some (applyOpts [WithVersion ''3.6.8''] zero_Op)) = Inr u \<Longrightarrow>
      list_all plain (binary_names u ''etcd'')" for u by simp
  have "opArtifactDir (applyOpts [WithVersion ''3.6.8''] zero_Op) = []" "plain ''etcd''" by code_simp+
  from failed_download_leaves_no_trace [of "demo_env (\<lambda>_. ''B'')" demo_fs "''/t''" "[''t'']" "''etcd''", unfolded demo_fields,
      OF demo_wf demo_paths(1-3) demo_dirs(1) demo_names this(2,1) names run, of "[''b'', ''etcd'']"]
  have "fs' [''b'', ''etcd''] = None" by (simp add: demo_fs_def)
  with run show ?thesis by auto
qed

theorem offline_uses_no_network_witness:
  "snd (snd (download (demo_env id) ''etcd'' [] ''/b/etcd'' [WithVersion ''3.6.8'', WithOffline True, WithArtifactDir ''/a''] ((demo_fs, []), 0))) = 0"
proof -
  let ?run = "download (demo_env id) ''etcd'' [] ''/b/etcd'' [WithVersion ''3.6.8'', WithOffline True, WithArtifactDir ''/a''] ((demo_fs, []), 0)"
  obtain r d' w' where run: "?run = (r, (d', w'))" by (metis surj_pair)
  have "opOffline (applyOpts [WithVersion ''3.6.8'', WithOffline True, WithArtifactDir ''/a''] zero_Op) \<and>
      \<not> opVersionCheck (applyOpts [WithVersion ''3.6.8'', WithOffline True, WithArtifactDir ''/a''] zero_Op)" by code_simp
  with offline_uses_no_network [OF _ _ run] run show ?thesis by simp
qed

theorem pre_extracted_ignores_manifest_witness:
  "download (demo_env id) ''etcd'' [] ''/b/etcd'' ([WithVersion ''3.6.8'', WithArtifactDir ''/a''] @ [WithChecksumManifest ''/none'']) ((demo_fs, []), 0) =
   download (demo_env id) ''etcd'' [] ''/b/etcd'' [WithVersion ''3.6.8'', WithArtifactDir ''/a''] ((demo_fs, []), 0)"
proof -
  let ?op = "applyOpts [WithVersion ''3.6.8'', WithArtifactDir ''/a''] zero_Op"
  have "case resolveDownloadURL (demo_env id) (Some ?op) of Inl _ \<Rightarrow> False | Inr u \<Rightarrow> opArtifactDir ?op \<noteq> [] \<and>
      fst (findPreExtractedBinary (demo_env id) (opArtifactDir ?op) (Base u) ''etcd'' (demo_fs, [])) \<noteq> []" by code_simp
  then obtain u where "resolveDownloadURL (demo_env id) (Some ?op) = Inr u" "opArtifactDir ?op \<noteq> []"
      "fst (findPreExtractedBinary (demo_env id) (opArtifactDir ?op) (Base u) ''etcd'' (fst ((demo_fs, []), 0 :: nat))) \<noteq> []"
    by (auto split: sum.splits)
  then show ?thesis by (rule pre_extracted_ignores_manifest)
qed

end
