(* ===== verification/Cloud.thy ===== *)
theory Cloud
  imports ClusterHealth
begin

text \<open>
  The AWS SDK as the provider sees it: the interfaces \<^verbatim>\<open>ec2API\<close>, \<^verbatim>\<open>ssmAPI\<close>, \<^verbatim>\<open>asgAPI\<close>, \<^verbatim>\<open>stsAPI\<close>,
  \<^verbatim>\<open>launchTemplateAPI\<close> and \<^verbatim>\<open>groupAPI\<close> of \<^verbatim>\<open>src/pkg/providers/aws\<close> are records of functions on the state
  \<open>'w\<close> of the cloud, parameters of everything that calls them. A call takes some time, and the clock is
  carried beside the state as in \<open>ClusterHealth\<close>. Programs that call the cloud are functions from this
  state to a result and a new state, or to \<open>None\<close> where a loop does not return; \<open>seq\<close> stops at the first
  error, like \<^verbatim>\<open>if err != nil { return err }\<close>. The loops that poll are one function, \<open>poll\<close>; the locale
  \<open>paced\<close> is what it needs to know about its wait, and both kinds of wait satisfy it.
\<close>

named_theorems wp_simps \<open>the weakest preconditions of the program combinators\<close>

section \<open>Programs that may fail or not return\<close>

type_synonym ('e, 'a, 's) prog = "'s \<Rightarrow> (('e + 'a) \<times> 's) option"

definition ok :: "'a \<Rightarrow> ('e, 'a, 's) prog" where "ok x s = Some (Inr x, s)"

definition fail :: "'e \<Rightarrow> ('e, 'a, 's) prog" where "fail e s = Some (Inl e, s)"

definition attempt :: "('e, 'a, 's) prog \<Rightarrow> ('e + 'a \<Rightarrow> ('f, 'b, 's) prog) \<Rightarrow> ('f, 'b, 's) prog" where
  "attempt m f s = (case m s of None \<Rightarrow> None | Some (r, s') \<Rightarrow> f r s')"

definition seq :: "('e, 'a, 's) prog \<Rightarrow> ('a \<Rightarrow> ('e, 'b, 's) prog) \<Rightarrow> ('e, 'b, 's) prog" where
  "seq m f = attempt m (\<lambda>r. case r of Inl e \<Rightarrow> fail e | Inr x \<Rightarrow> f x)"

definition wrap :: "('e \<Rightarrow> 'f) \<Rightarrow> ('e, 'a, 's) prog \<Rightarrow> ('f, 'a, 's) prog" where
  "wrap g m = attempt m (\<lambda>r. case r of Inl e \<Rightarrow> fail (g e) | Inr x \<Rightarrow> ok x)"

definition check :: "'e option \<Rightarrow> ('e, unit, 's) prog" where
  "check e = (case e of None \<Rightarrow> ok () | Some x \<Rightarrow> fail x)"

definition demand :: "bool \<Rightarrow> 'e \<Rightarrow> ('e, unit, 's) prog" where
  "demand b e = (if b then ok () else fail e)"

text \<open>A client that may be nil.\<close>

definition client :: "'c option \<Rightarrow> 'e \<Rightarrow> ('c \<Rightarrow> ('e, 'a, 's) prog) \<Rightarrow> ('e, 'a, 's) prog" where
  "client c e f = (case c of None \<Rightarrow> fail e | Some x \<Rightarrow> f x)"

text \<open>What has to hold before for \<open>Q\<close> to hold after; \<open>d\<close> is what is claimed of a program that does not
  return: \<open>True\<close> for partial, \<open>False\<close> for total correctness.\<close>

definition wp :: "bool \<Rightarrow> ('e, 'a, 's) prog \<Rightarrow> ('e + 'a \<Rightarrow> 's \<Rightarrow> bool) \<Rightarrow> 's \<Rightarrow> bool" where
  "wp d m Q s = (case m s of None \<Rightarrow> d | Some (r, s') \<Rightarrow> Q r s')"

lemma wp_result: "wp True m Q s \<Longrightarrow> m s = Some (r, s') \<Longrightarrow> Q r s'"
  by (simp add: wp_def)

lemma wp_total: "wp False m Q s \<Longrightarrow> \<exists>r s'. m s = Some (r, s') \<and> Q r s'"
  by (auto simp: wp_def split: option.splits)

lemma wp_mono: "wp d m P s \<Longrightarrow> (\<And>r s'. P r s' \<Longrightarrow> Q r s') \<Longrightarrow> wp d m Q s"
  by (auto simp: wp_def split: option.splits)

lemma wp_run: "m s = Some (r, s') \<Longrightarrow> wp d m Q s = Q r s'"
  by (simp add: wp_def)

lemma wp_conj: "wp d m P s \<Longrightarrow> wp d m Q s \<Longrightarrow> wp d m (\<lambda>r s'. P r s' \<and> Q r s') s"
  by (auto simp: wp_def split: option.splits)

lemma wp_attempt [wp_simps]: "wp d (attempt m f) Q s = wp d m (\<lambda>r. wp d (f r) Q) s"
  by (auto simp: wp_def attempt_def split: option.splits)

lemma wp_ok [wp_simps]: "wp d (ok x) Q s = Q (Inr x) s"
  and wp_fail [wp_simps]: "wp d (fail e) Q s = Q (Inl e) s"
  by (simp_all add: wp_def ok_def fail_def)

lemma wp_seq [wp_simps]: "wp d (seq m f) Q s = wp d m (\<lambda>r. case r of Inl e \<Rightarrow> Q (Inl e) | Inr x \<Rightarrow> wp d (f x) Q) s"
  unfolding seq_def wp_attempt by (auto simp: wp_def fail_def split: option.splits sum.splits)

lemma wp_wrap [wp_simps]: "wp d (wrap g m) Q s = wp d m (\<lambda>r. case r of Inl e \<Rightarrow> Q (Inl (g e)) | Inr x \<Rightarrow> Q (Inr x)) s"
  unfolding wrap_def wp_attempt by (auto simp: wp_def fail_def ok_def split: option.splits sum.splits)

lemma wp_check [wp_simps]: "wp d (check e) Q s = (case e of None \<Rightarrow> Q (Inr ()) s | Some x \<Rightarrow> Q (Inl x) s)"
  by (simp add: check_def wp_simps split: option.split)

lemma wp_demand [wp_simps]: "wp d (demand b e) Q s = (if b then Q (Inr ()) s else Q (Inl e) s)"
  by (simp add: demand_def wp_simps)

lemma wp_client [wp_simps]:
  "wp d (client c e f) Q s = (case c of None \<Rightarrow> Q (Inl e) s | Some x \<Rightarrow> wp d (f x) Q s)"
  by (simp add: client_def wp_simps split: option.split)

section \<open>Calls, clocks and polling\<close>

type_synonym ('i, 'o, 'e, 'w) api = "'i \<Rightarrow> 'w \<Rightarrow> ('e + 'o) \<times> nat \<times> 'w"

definition call :: "('i, 'o, 'e, 'w) api \<Rightarrow> 'i \<Rightarrow> ('e, 'o, 'w timed) prog" where
  "call f x tw = (case f x (snd tw) of (r, k, w') \<Rightarrow> Some (r, (fst tw + int k, w')))"

lemma wp_call [wp_simps]: "wp d (call f x) Q tw = (case f x (snd tw) of (r, k, w') \<Rightarrow> Q r (fst tw + int k, w'))"
  by (simp add: wp_def call_def split: prod.splits)

text \<open>A loop whose round either returns or leaves the state of the next round.\<close>

partial_function (option) loop_from :: "('s \<Rightarrow> ('r + 's) option) \<Rightarrow> 's \<Rightarrow> 'r option" where
  "loop_from turn s =
     (case turn s of None \<Rightarrow> None | Some (Inl r) \<Rightarrow> Some r | Some (Inr s') \<Rightarrow> loop_from turn s')"

declare loop_from.simps [code]

text \<open>The two waits of a \<^verbatim>\<open>select\<close> with the end of the context, whose error is the result: for the tick after the
  last one received of a \<^verbatim>\<open>time.Ticker\<close>, which may already be there, and for \<^verbatim>\<open>time.After\<close>. The first component
  of the state is the time at which the last awaited event was due.\<close>

type_synonym 'w waiter = "int \<Rightarrow> 'w \<Rightarrow> string option \<times> nat \<times> 'w"

definition next_tick :: "'w waiter \<Rightarrow> int \<Rightarrow> int \<times> 'w timed \<Rightarrow> string option \<times> int \<times> 'w timed" where
  "next_tick wait period s = (case s of (due, now, w) \<Rightarrow>
     (case wait (due + period - now) w of
        (Some e, k, w') \<Rightarrow> (Some e, due, now + int k, w')
      | (None, k, w') \<Rightarrow> (None, due + period, max now (due + period) + int k, w')))"

definition after :: "'w waiter \<Rightarrow> int \<Rightarrow> int \<times> 'w timed \<Rightarrow> string option \<times> int \<times> 'w timed" where
  "after wait d s = (case s of (due, now, w) \<Rightarrow>
     (case wait d w of (Some e, k, w') \<Rightarrow> (Some e, due, now + int k, w') | (None, k, w') \<Rightarrow> (None, now + d, now + d + int k, w')))"

text \<open>The wait for a tick under a context with its own deadline: when that comes before the tick is due, the context
  ends the wait.\<close>

definition next_tick_until :: "'w waiter \<Rightarrow> int \<Rightarrow> int \<Rightarrow> int \<times> 'w timed \<Rightarrow> string option \<times> int \<times> 'w timed" where
  "next_tick_until wait limit period s = (case s of (due, now, w) \<Rightarrow>
     if now < due + period \<and> limit < due + period
     then (case wait (limit - now) w of
             (e, k, w') \<Rightarrow> (Some (case e of None \<Rightarrow> ''context deadline exceeded'' | Some x \<Rightarrow> x), due, max now limit + int k, w'))
     else next_tick wait period s)"

text \<open>One round: the body returns a result (\<open>Inl\<close>) or what it has seen (\<open>Inr\<close>); past the deadline the second part
  of \<open>expiry\<close> makes the result from that, otherwise the round waits. Without a deadline only the context ends
  the loop.\<close>

type_synonym ('r, 'i, 'w) expiry = "(int \<times> ('i \<Rightarrow> 'w timed \<Rightarrow> ('r \<times> 'w timed) option)) option"

definition poll_round :: "(int \<times> 'w timed \<Rightarrow> string option \<times> int \<times> 'w timed) \<Rightarrow> ('r, 'i, 'w) expiry \<Rightarrow>
    ('r, 'i, 'w timed) prog \<Rightarrow> (string \<Rightarrow> 'r) \<Rightarrow> int \<times> 'w timed \<Rightarrow> ('r \<times> 'w timed + int \<times> 'w timed) option" where
  "poll_round wait expiry body interrupted s =
     (case body (snd s) of
        None \<Rightarrow> None
      | Some (Inl r, tw) \<Rightarrow> Some (Inl (r, tw))
      | Some (Inr i, tw) \<Rightarrow>
          (case (case expiry of None \<Rightarrow> None | Some (deadline, expire) \<Rightarrow> if deadline < fst tw then Some (expire i tw) else None) of
             Some x \<Rightarrow> map_option Inl x
           | None \<Rightarrow> (case wait (fst s, tw) of
                  (Some e, s') \<Rightarrow> Some (Inl (interrupted e, snd s')) | (None, s') \<Rightarrow> Some (Inr s'))))"

definition poll :: "(int \<times> 'w timed \<Rightarrow> string option \<times> int \<times> 'w timed) \<Rightarrow> ('r, 'i, 'w) expiry \<Rightarrow>
    ('r, 'i, 'w timed) prog \<Rightarrow> (string \<Rightarrow> 'r) \<Rightarrow> 'w timed \<Rightarrow> ('r \<times> 'w timed) option" where
  "poll wait expiry body interrupted tw = loop_from (poll_round wait expiry body interrupted) (fst tw, tw)"

text \<open>The wait of \<^verbatim>\<open>select\<close> with \<^verbatim>\<open>time.After\<close> outside such a loop, and a loop that hands its own state from round to
  round: the body returns (\<open>Inl\<close>) or goes on (\<open>Inr\<close>).\<close>

definition sleep :: "'w waiter \<Rightarrow> int \<Rightarrow> (string, unit, 'w timed) prog" where
  "sleep wait d tw = (case wait d (snd tw) of
     (Some e, k, w') \<Rightarrow> Some (Inl e, (fst tw + int k, w')) | (None, k, w') \<Rightarrow> Some (Inr (), (fst tw + d + int k, w')))"

definition iterate_turn :: "('x \<Rightarrow> ('r, 'x, 's) prog) \<Rightarrow> 'x \<times> 's \<Rightarrow> ('r \<times> 's + 'x \<times> 's) option" where
  "iterate_turn body xs = (case body (fst xs) (snd xs) of None \<Rightarrow> None
     | Some (Inl r, s) \<Rightarrow> Some (Inl (r, s)) | Some (Inr x, s) \<Rightarrow> Some (Inr (x, s)))"

definition iterate :: "('x \<Rightarrow> ('r, 'x, 's) prog) \<Rightarrow> 'x \<Rightarrow> 's \<Rightarrow> ('r \<times> 's) option" where
  "iterate body x s = loop_from (iterate_turn body) (x, s)"

text \<open>The time at which a step begins.\<close>

definition at_time :: "(int \<Rightarrow> ('e, 'a, 'w timed) prog) \<Rightarrow> ('e, 'a, 'w timed) prog" where
  "at_time f tw = f (fst tw) tw"

lemma wp_at_time [wp_simps]: "wp d (at_time f) Q tw = wp d (f (fst tw)) Q tw"
  by (simp add: wp_def at_time_def)

lemma wp_sleep [wp_simps]: "wp d (sleep wait t) Q tw =
    (case wait t (snd tw) of (Some e, k, w') \<Rightarrow> Q (Inl e) (fst tw + int k, w') | (None, k, w') \<Rightarrow> Q (Inr ()) (fst tw + t + int k, w'))"
  by (simp add: wp_def sleep_def split: prod.splits option.splits)

definition give :: "'r \<Rightarrow> 'w timed \<Rightarrow> ('r \<times> 'w timed) option" where "give r tw = Some (r, tw)"

lemma loop_from_invariant:
  assumes "loop_from turn s = Some r" "I s"
    and again: "\<And>s s'. I s \<Longrightarrow> turn s = Some (Inr s') \<Longrightarrow> I s'" and stop: "\<And>s r. I s \<Longrightarrow> turn s = Some (Inl r) \<Longrightarrow> Q r"
  shows "Q r"
proof -
  let ?P = "\<lambda>turn s r. (\<forall>s r. I s \<longrightarrow> turn s = Some (Inl r) \<longrightarrow> Q r) \<longrightarrow>
      (\<forall>s s'. I s \<longrightarrow> turn s = Some (Inr s') \<longrightarrow> I s') \<longrightarrow> I s \<longrightarrow> Q r"
  have "?P turn s r"
  proof (rule loop_from.raw_induct [OF _ assms(1), where P = ?P])
    fix loop turn s r
    assume IH: "\<And>t u v. loop t u = Some v \<Longrightarrow> ?P t u v"
      and r: "(case turn s of None \<Rightarrow> None | Some (Inl r) \<Rightarrow> Some r | Some (Inr s') \<Rightarrow> loop turn s') = Some r"
    show "?P turn s r"
    proof (cases "\<exists>s'. turn s = Some (Inr s')")
      case False
      with r show ?thesis by (auto split: option.splits sum.splits)
    next
      case True
      then obtain s' where "turn s = Some (Inr s')" by blast
      with r IH [of turn s' r] show ?thesis by auto
    qed
  qed
  with again stop assms(2) show ?thesis by blast
qed

lemma wp_iterate:
  assumes "I x s" and body: "\<And>x s. I x s \<Longrightarrow> wp True (body x) (\<lambda>r s'. case r of Inl r \<Rightarrow> Q r s' | Inr y \<Rightarrow> I y s') s"
  shows "wp True (iterate body x) Q s"
proof -
  have "case (r, s') of (r, s') \<Rightarrow> Q r s'" if "iterate body x s = Some (r, s')" for r s'
    by (rule loop_from_invariant [OF that [unfolded iterate_def], where I = "\<lambda>(x, s). I x s"])
      (use assms(1) body in \<open>fastforce simp: iterate_turn_def wp_def split: option.splits sum.splits prod.splits\<close>)+
  then show ?thesis by (auto simp: wp_def split: option.splits)
qed

text \<open>Partial correctness of polling, with an invariant \<open>I\<close> of the cloud that the body and the wait keep.\<close>

definition wait_keeps :: "(int \<times> 'w timed \<Rightarrow> string option \<times> int \<times> 'w timed) \<Rightarrow> ('w timed \<Rightarrow> bool) \<Rightarrow> bool" where
  "wait_keeps wait I \<longleftrightarrow> (\<forall>due tw e due' tw'. I tw \<longrightarrow> wait (due, tw) = (e, due', tw') \<longrightarrow> I tw')"

lemma wp_poll:
  assumes "I tw" "wait_keeps wait I"
    and body: "\<And>tw. I tw \<Longrightarrow> wp True body (\<lambda>x tw'. case x of Inl r \<Rightarrow> Q r tw' | Inr i \<Rightarrow> I tw' \<and> J i tw') tw"
    and expire: "\<And>d expire i tw. expiry = Some (d, expire) \<Longrightarrow> I tw \<Longrightarrow> J i tw \<Longrightarrow> case expire i tw of None \<Rightarrow> True | Some (r, tw') \<Rightarrow> Q r tw'"
    and interrupted: "\<And>e tw. I tw \<Longrightarrow> Q (interrupted e) tw"
  shows "case poll wait expiry body interrupted tw of None \<Rightarrow> True | Some (r, tw') \<Rightarrow> Q r tw'"
proof -
  have step: "case x of Inl (r, tw') \<Rightarrow> Q r tw' | Inr s' \<Rightarrow> I (snd s')"
    if I: "I (snd s)" and round: "poll_round wait expiry body interrupted s = Some x" for s x
  proof -
    obtain y tw1 where b: "body (snd s) = Some (y, tw1)" using round by (auto simp: poll_round_def split: option.splits)
    have y: "case y of Inl r \<Rightarrow> Q r tw1 | Inr i \<Rightarrow> I tw1 \<and> J i tw1" using body [OF I] b by (simp add: wp_def)
    show ?thesis
    proof (cases y)
      case (Inl r)
      with y b round show ?thesis by (auto simp: poll_round_def)
    next
      case (Inr i)
      obtain e s' where w: "wait (fst s, tw1) = (e, s')" by (metis surj_pair)
      have "I (snd s')" using assms(2) w y Inr unfolding wait_keeps_def by (metis prod.collapse sum.case(2))
      moreover have "Q r tw'" if "expiry = Some (d, expire)" "expire i tw1 = Some (r, tw')" for d expire r tw'
        using expire [OF that(1), of tw1 i] that(2) y Inr by simp
      ultimately show ?thesis using b round w y Inr interrupted [of "snd s'"]
        by (auto simp: poll_round_def split: option.splits if_splits prod.splits)
    qed
  qed
  have "case (r, tw') of (r, tw') \<Rightarrow> Q r tw'" if "poll wait expiry body interrupted tw = Some (r, tw')" for r tw'
    by (rule loop_from_invariant [OF that [unfolded poll_def], where I = "\<lambda>s. I (snd s)"])
      (use assms(1) step in \<open>fastforce split: sum.splits\<close>)+
  then show ?thesis by (auto split: option.splits)
qed

section \<open>Programs that return\<close>

named_theorems returning_intros \<open>programs that return, and no earlier than they began\<close>

definition returning :: "('e, 'a, 'w timed) prog \<Rightarrow> bool" where
  "returning m \<longleftrightarrow> (\<forall>s. \<exists>r s'. m s = Some (r, s') \<and> fst s \<le> fst s')"

lemma returning_basic [returning_intros]: "returning (ok x)" "returning (fail e)" "returning (call f x)" "returning (give r)"
  by (auto simp: returning_def ok_def fail_def call_def give_def split: prod.split)

lemma returning_attempt [returning_intros]: "returning m \<Longrightarrow> (\<And>r. returning (f r)) \<Longrightarrow> returning (attempt m f)"
  unfolding returning_def attempt_def
proof
  fix s
  assume m: "\<forall>s. \<exists>r s'. m s = Some (r, s') \<and> fst s \<le> fst s'" and f: "\<And>r. \<forall>s. \<exists>x s'. f r s = Some (x, s') \<and> fst s \<le> fst s'"
  obtain r s1 where 1: "m s = Some (r, s1)" "fst s \<le> fst s1" using m by blast
  obtain x s2 where 2: "f r s1 = Some (x, s2)" "fst s1 \<le> fst s2" using f by blast
  show "\<exists>x s'. (case m s of None \<Rightarrow> None | Some (r, s') \<Rightarrow> f r s') = Some (x, s') \<and> fst s \<le> fst s'"
    using 1 2 by auto
qed

lemma returning_seq [returning_intros]: "returning m \<Longrightarrow> (\<And>x. returning (f x)) \<Longrightarrow> returning (seq m f)"
  unfolding seq_def by (rule returning_attempt) (auto intro: returning_basic split: sum.split)

lemma returning_wrap [returning_intros]: "returning m \<Longrightarrow> returning (wrap g m)"
  unfolding wrap_def by (rule returning_attempt) (auto intro: returning_basic split: sum.split)

lemma returning_client [returning_intros]: "(\<And>x. c = Some x \<Longrightarrow> returning (f x)) \<Longrightarrow> returning (client c e f)"
  by (auto simp: client_def intro: returning_basic split: option.split)

lemma returning_at_time [returning_intros]: "(\<And>t. returning (f t)) \<Longrightarrow> returning (at_time f)"
  by (simp add: returning_def at_time_def)

lemma returning_cases [returning_intros]:
  "(b \<Longrightarrow> returning m) \<Longrightarrow> (\<not> b \<Longrightarrow> returning n) \<Longrightarrow> returning (if b then m else n)"
  "(\<And>x. r = Inl x \<Longrightarrow> returning (f x)) \<Longrightarrow> (\<And>y. r = Inr y \<Longrightarrow> returning (g y)) \<Longrightarrow> returning (case r of Inl x \<Rightarrow> f x | Inr y \<Rightarrow> g y)"
  "(p = None \<Longrightarrow> returning m) \<Longrightarrow> (\<And>x. p = Some x \<Longrightarrow> returning (h x)) \<Longrightarrow> returning (case p of None \<Rightarrow> m | Some x \<Rightarrow> h x)"
  "(xs = [] \<Longrightarrow> returning m) \<Longrightarrow> (\<And>y ys. xs = y # ys \<Longrightarrow> returning (k y ys)) \<Longrightarrow> returning (case xs of [] \<Rightarrow> m | y # ys \<Rightarrow> k y ys)"
  "(\<And>a b. q = (a, b) \<Longrightarrow> returning (u a b)) \<Longrightarrow> returning (case q of (a, b) \<Rightarrow> u a b)"
  by (auto split: sum.split option.split list.split prod.split)

text \<open>A wait is paced when the events it waits for are at least a positive time apart.\<close>

locale paced =
  fixes wait :: "int \<times> 'w timed \<Rightarrow> string option \<times> int \<times> 'w timed" and pace :: int
  assumes pace_positive: "0 < pace"
    and wait_forward: "wait (due, now, w) = (e, due', now', w') \<Longrightarrow> now \<le> now'"
    and wait_later: "wait (due, now, w) = (None, due', now', w') \<Longrightarrow> due \<le> now \<Longrightarrow> due + pace \<le> due' \<and> due' \<le> now'"
begin

text \<open>One round from a due time that has passed: it ends the loop, or leaves a later due time.\<close>

lemma round_cases:
  assumes body: "returning body" and expire: "\<And>d expire i. expiry = Some (d, expire) \<Longrightarrow> returning (expire i)"
    and again: "\<And>tw i tw'. body tw = Some (Inr i, tw') \<Longrightarrow> (case expiry of None \<Rightarrow> True | Some (d, _) \<Rightarrow> fst tw' \<le> d) \<Longrightarrow>
      fst tw \<le> fst tw' \<Longrightarrow> fst tw \<le> limit"
    and due: "fst s \<le> fst (snd s)"
  shows "(\<exists>r tw'. poll_round wait expiry body interrupted s = Some (Inl (r, tw')) \<and> fst (snd s) \<le> fst tw') \<or>
    (\<exists>s'. poll_round wait expiry body interrupted s = Some (Inr s') \<and> fst s \<le> limit \<and> fst s + pace \<le> fst s' \<and>
       fst s' \<le> fst (snd s') \<and> fst (snd s) \<le> fst (snd s'))"
proof -
  obtain x tw1 where b: "body (snd s) = Some (x, tw1)" "fst (snd s) \<le> fst tw1" using body unfolding returning_def by blast
  obtain e s' where w: "wait (fst s, tw1) = (e, s')" by (metis surj_pair)
  have fwd: "fst tw1 \<le> fst (snd s')" using wait_forward [of "fst s" "fst tw1" "snd tw1" e "fst s'" "fst (snd s')" "snd (snd s')"] w by simp
  show ?thesis
  proof (cases x)
    case (Inl r)
    then show ?thesis using b by (simp add: poll_round_def)
  next
    case (Inr i)
    show ?thesis
    proof (cases "case expiry of None \<Rightarrow> True | Some (d, _) \<Rightarrow> fst tw1 \<le> d")
      case False
      then obtain d ex where de: "expiry = Some (d, ex)" "d < fst tw1" by (auto split: option.splits)
      obtain r tw2 where "ex i tw1 = Some (r, tw2)" "fst tw1 \<le> fst tw2" using expire [OF de(1)] unfolding returning_def by blast
      then show ?thesis using b Inr de by (simp add: poll_round_def)
    next
      case True
      have "fst (snd s) \<le> limit" using again [of "snd s" i tw1] b Inr True by simp
      moreover have "poll_round wait expiry body interrupted s =
          (case e of Some m \<Rightarrow> Some (Inl (interrupted m, snd s')) | None \<Rightarrow> Some (Inr s'))"
        using b(1) Inr w True by (auto simp: poll_round_def split: option.splits)
      moreover have "e = None \<Longrightarrow> fst s + pace \<le> fst s' \<and> fst s' \<le> fst (snd s')"
        using wait_later [of "fst s" "fst tw1" "snd tw1" "fst s'" "fst (snd s')" "snd (snd s')"] w b(2) due by simp
      ultimately show ?thesis using b(2) fwd due by (cases e) auto
    qed
  qed
qed

text \<open>A poll returns, whatever the cloud answers, when its body does and no round that begins after some time
  is followed by another.\<close>

lemma poll_returning:
  assumes "returning body" "\<And>d expire i. expiry = Some (d, expire) \<Longrightarrow> returning (expire i)"
    and "\<And>tw i tw'. body tw = Some (Inr i, tw') \<Longrightarrow> (case expiry of None \<Rightarrow> True | Some (d, _) \<Rightarrow> fst tw' \<le> d) \<Longrightarrow>
      fst tw \<le> fst tw' \<Longrightarrow> fst tw \<le> limit"
  shows "\<exists>r tw'. poll wait expiry body interrupted tw = Some (r, tw') \<and> fst tw \<le> fst tw'"
proof -
  let ?turn = "poll_round wait expiry body interrupted"
  have "\<exists>r tw'. loop_from ?turn s = Some (r, tw') \<and> fst (snd s) \<le> fst tw'" if "fst s \<le> fst (snd s)" for s
    using that
  proof (induction "nat (limit + 1 - fst s)" arbitrary: s rule: less_induct)
    case less
    have "(\<exists>r tw'. ?turn s = Some (Inl (r, tw')) \<and> fst (snd s) \<le> fst tw') \<or>
      (\<exists>s'. ?turn s = Some (Inr s') \<and> fst s \<le> limit \<and> fst s + pace \<le> fst s' \<and>
         fst s' \<le> fst (snd s') \<and> fst (snd s) \<le> fst (snd s'))"
      by (rule round_cases) (use assms less.prems in blast)+
    then show ?case
    proof (elim disjE exE conjE)
      fix s'
      assume s': "?turn s = Some (Inr s')" "fst s \<le> limit" "fst s + pace \<le> fst s'" "fst s' \<le> fst (snd s')" "fst (snd s) \<le> fst (snd s')"
      then have "nat (limit + 1 - fst s') < nat (limit + 1 - fst s)" using pace_positive by simp
      from less.hyps [OF this s'(4)] s' show ?case by (fastforce simp: loop_from.simps [of ?turn s])
    qed (simp add: loop_from.simps [of ?turn s])
  qed
  from this [of "(fst tw, tw)"] show ?thesis by (simp add: poll_def)
qed

text \<open>In particular, with a deadline.\<close>

lemma poll_deadline_returning:
  assumes "returning body" "\<And>i. returning (expire i)"
  shows "returning (poll wait (Some (d, expire)) body interrupted)"
  unfolding returning_def by (rule allI, rule poll_returning [where limit = d]) (use assms in auto)

end

text \<open>The ticker and the timer, with a positive period.\<close>

lemma next_tick_paced: "0 < d \<Longrightarrow> paced (next_tick wait d) d"
  by unfold_locales (auto simp: next_tick_def split: prod.splits option.splits)

lemma next_tick_until_paced: "0 < d \<Longrightarrow> paced (next_tick_until wait limit d) d"
  by unfold_locales (auto simp: next_tick_until_def next_tick_def split: prod.splits if_splits option.splits)

lemma after_paced: "0 < d \<Longrightarrow> paced (after wait d) d"
  by unfold_locales (auto simp: after_def split: prod.splits option.splits)

interpretation ticks: paced "next_tick wait (5 * second)" "5 * second" for wait
  by (rule next_tick_paced) (simp add: second_def)

interpretation short_ticks: paced "next_tick wait (2 * second)" "2 * second" for wait
  by (rule next_tick_paced) (simp add: second_def)

interpretation ssm_ticks: paced "next_tick_until wait limit (2 * second)" "2 * second" for wait limit
  by (rule next_tick_until_paced) (simp add: second_def)

interpretation short_pauses: paced "after wait (2 * second)" "2 * second" for wait
  by (rule after_paced) (simp add: second_def)

interpretation pauses: paced "after wait (5 * second)" "5 * second" for wait
  by (rule after_paced) (simp add: second_def)

section \<open>The SDK's data\<close>

text \<open>An error of a call: its API error code, when it has one (\<^verbatim>\<open>smithy.APIError\<close>), with the API's message, and its
  whole text. A pointer that may be nil is an \<open>option\<close>; \<^verbatim>\<open>aws.ToString\<close> reads it.\<close>

record api_error =
  aeCode :: "string option"
  aeMessage :: string
  aeText :: string

definition ToString :: "string option \<Rightarrow> string" where
  "ToString p = (case p of None \<Rightarrow> [] | Some s \<Rightarrow> s)"

lemma ToString_simps [simp]: "ToString None = []" "ToString (Some s) = s"
  by (simp_all add: ToString_def)

type_synonym tag = "string option \<times> string option"

record ec2_instance =
  eiInstanceId :: "string option"
  eiPublicIpAddress :: "string option"
  eiPrivateIpAddress :: "string option"
  eiPlacement :: "string option option"
  eiState :: "string option"
  eiTags :: "tag list"
  eiInstanceType :: string
  eiImageId :: "string option"
  eiSubnetId :: "string option"
  eiSecurityGroups :: "string option list"
  eiKeyName :: "string option"
  eiIamInstanceProfile :: "string option option"
  eiBlockDeviceMappings :: "(string option \<times> string option option) list"

datatype iam_profile = ProfileArn string | ProfileName string

record device_mapping =
  dmDeviceName :: string
  dmVolumeSize :: "32 word"
  dmDeleteOnTermination :: bool

record run_input =
  riImageId :: "string option"
  riInstanceType :: string
  riMinCount :: int
  riMaxCount :: int
  riSubnetId :: "string option"
  riPrivateIpAddress :: "string option"
  riSecurityGroupIds :: "string list"
  riTagSpecifications :: "(string \<times> tag list) list"
  riBlockDeviceMappings :: "device_mapping list"
  riUserData :: "string option"
  riKeyName :: "string option"
  riIamInstanceProfile :: "iam_profile option"

record describe_input =
  diInstanceIds :: "string list"
  diFilters :: "(string \<times> string list) list"
  diNextToken :: "string option"

text \<open>Reservations, and the token of the next page.\<close>

record describe_output =
  doReservations :: "ec2_instance list list"
  doNextToken :: "string option"

record volume_input =
  viAvailabilityZone :: string
  viSize :: "32 word"
  viTags :: "(string \<times> string) list"

type_synonym ('i, 'o, 'w) aws_api = "('i, 'o, api_error, 'w) api"

text \<open>\<open>ecAttachVolume\<close> takes the instance, the volume and the device; \<open>ecDescribeSubnets\<close> a VPC, its answer has the
  identifier and the zone; \<open>ecDescribeSecurityGroups\<close> asks for the groups of a VPC with a name;
  \<open>ecDescribeVolumes\<close> answers with identifiers and states.\<close>

record 'w ec2API =
  ecRunInstances :: "(run_input, ec2_instance list, 'w) aws_api"
  ecTerminateInstances :: "(string, unit, 'w) aws_api"
  ecStopInstances :: "(string, unit, 'w) aws_api"
  ecStartInstances :: "(string, unit, 'w) aws_api"
  ecDescribeSubnets :: "(string, (string option \<times> string option) list, 'w) aws_api"
  ecDescribeSecurityGroups :: "(string \<times> string, string option list, 'w) aws_api"
  ecDescribeInstances :: "(describe_input, describe_output, 'w) aws_api"
  ecAttachVolume :: "(string \<times> string \<times> string, unit, 'w) aws_api"
  ecCreateVolume :: "(volume_input, string option, 'w) aws_api"
  ecDetachVolume :: "(string, unit, 'w) aws_api"
  ecDeleteVolume :: "(string, unit, 'w) aws_api"
  ecDescribeVolumes :: "(string, (string option \<times> string) list, 'w) aws_api"

text \<open>SSM: the time left before the caller's own deadline goes with the two calls that have one.\<close>

record send_input =
  siTimeLeft :: int
  siInstanceId :: string
  siDocumentName :: string
  siCommand :: string
  siExecutionTimeout :: int

record invocation =
  ivStatus :: string
  ivResponseCode :: "32 word"
  ivStandardOutput :: "string option"
  ivStandardError :: "string option"

record 'w ssmAPI =
  smSendCommand :: "(send_input, string option option, 'w) aws_api"
  smGetCommandInvocation :: "(int \<times> string \<times> string, invocation, 'w) aws_api"
  smGetParameters :: "(string, (string option \<times> string option) list, 'w) aws_api"

record asg_instance =
  agInstanceId :: "string option"
  agLifecycleState :: string
  agHealthStatus :: "string option"
  agAvailabilityZone :: "string option"

record asg_group =
  asInstancesOf :: "asg_instance list"
  asTagsOf :: "tag list"

record asg_membership =
  amInstanceId :: "string option"
  amGroupName :: "string option"
  amLifecycleState :: "string option"

record asg_update =
  auGroupName :: string
  auMinSize :: "32 word"
  auDesiredCapacity :: "32 word"
  auMaxSize :: "32 word"

record 'w asgAPI =
  agDescribeAutoScalingGroups :: "(string, asg_group list, 'w) aws_api"
  agDescribeAutoScalingInstances :: "(string, asg_membership list, 'w) aws_api"
  agUpdateAutoScalingGroup :: "(asg_update, unit, 'w) aws_api"
  agTerminateInstance :: "(string \<times> bool, unit, 'w) aws_api"

record data_volume =
  dvVolumeSize :: "32 word"
  dvEncrypted :: bool
  dvDeleteOnTermination :: bool
  dvIops :: "32 word option"
  dvThroughput :: "32 word option"

record template_data =
  tdImageId :: string
  tdInstanceType :: string
  tdSecurityGroupIds :: "string list"
  tdHttpTokensRequired :: bool
  tdHopLimit :: int
  tdTags :: "(string \<times> (string \<times> string) list) list"
  tdUserData :: "string option"
  tdIamInstanceProfile :: "iam_profile option"
  tdDataVolume :: "(string \<times> data_volume) option"

record template_input =
  tiName :: string
  tiDescription :: string
  tiData :: template_data
  tiTags :: "(string \<times> string) list"

record launch_template =
  ltLaunchTemplateId :: "string option"
  ltLatestVersionNumber :: "int option"
  ltTags :: "tag list"

record 'w launchTemplateAPI =
  ltCreateLaunchTemplate :: "(template_input, launch_template option, 'w) aws_api"
  ltDeleteLaunchTemplate :: "(string, unit, 'w) aws_api"
  ltDescribeLaunchTemplates :: "(string, launch_template list, 'w) aws_api"
  ltDescribeVpcs :: "(unit, string option list, 'w) aws_api"

record group_input =
  giName :: string
  giTemplateId :: string
  giTemplateVersion :: string
  giMinSize :: "32 word"
  giMaxSize :: "32 word"
  giDesiredCapacity :: "32 word"
  giSubnets :: string
  giHealthCheckType :: string
  giTags :: "(string \<times> string \<times> bool) list"

text \<open>A scaling activity is its status code and its message.\<close>

record 'w groupAPI =
  gaCreateAutoScalingGroup :: "(group_input, unit, 'w) aws_api"
  gaDeleteAutoScalingGroup :: "(string \<times> bool, unit, 'w) aws_api"
  gaSuspendProcesses :: "(string \<times> string list, unit, 'w) aws_api"
  gaDescribeAutoScalingGroups :: "(string, asg_group list, 'w) aws_api"
  gaDescribeScalingActivities :: "(string \<times> int, (string \<times> string option) list, 'w) aws_api"

record caller_identity_output =
  ciAccount :: "string option"
  ciArn :: "string option"

text \<open>\<^verbatim>\<open>Manager\<close>: its clients, each of which may be nil, and the wait for a timer.\<close>

record 'w manager =
  mgEC2 :: "'w ec2API option"
  mgSSM :: "'w ssmAPI option"
  mgASG :: "'w asgAPI option"
  mgSTS :: "(unit, caller_identity_output, 'w) aws_api option"
  mgLT :: "'w launchTemplateAPI option"
  mgGroups :: "'w groupAPI option"
  mgWait :: "'w waiter"

section \<open>Errors\<close>

text \<open>\<open>PApi\<close> wraps the error of a call (\<^verbatim>\<open>%w\<close>) in a message; \<open>PNotFound\<close> is an error for which
  \<^verbatim>\<open>errors.Is(err, ErrInstanceNotFound)\<close> holds, \<open>PExists\<close> one for which \<^verbatim>\<open>errors.Is(err, ErrAlreadyExists)\<close>
  does; \<open>PContext\<close> wraps the error of the context, \<open>PWrap\<close> another error, \<open>PJoin\<close> is \<^verbatim>\<open>errors.Join\<close>; \<open>PPanic\<close> is the use of a nil pointer.\<close>

datatype provider_error = PMsg string | PApi string api_error | PNotFound string "api_error option"
  | PExists string "provider_error option" | PContext string string | PNotSupported string | PWrap string provider_error
  | PJoin "provider_error list" | PPanic string

fun instance_not_found :: "provider_error \<Rightarrow> bool" where
  "instance_not_found (PNotFound _ _) = True"
| "instance_not_found (PWrap _ e) = instance_not_found e"
| "instance_not_found (PJoin es) = list_ex instance_not_found es"
| "instance_not_found _ = False"

fun already_exists :: "provider_error \<Rightarrow> bool" where
  "already_exists (PExists _ _) = True"
| "already_exists (PWrap _ e) = already_exists e"
| "already_exists (PJoin es) = list_ex already_exists es"
| "already_exists _ = False"

definition has_error_code :: "string \<Rightarrow> api_error \<Rightarrow> bool" where
  "has_error_code code e \<longleftrightarrow> aeCode e = Some code \<or> Contains (aeText e) code"

definition isInsufficientCapacityError :: "api_error \<Rightarrow> bool" where
  "isInsufficientCapacityError = has_error_code ''InsufficientInstanceCapacity''"

definition isVolumeNotFoundError :: "api_error \<Rightarrow> bool" where
  "isVolumeNotFoundError = has_error_code ''InvalidVolume.NotFound''"

definition isInstanceNotFoundError :: "api_error \<Rightarrow> bool" where
  "isInstanceNotFoundError = has_error_code ''InvalidInstanceID.NotFound''"

definition isIPAddressInUseError :: "api_error \<Rightarrow> bool" where
  "isIPAddressInUseError = has_error_code ''InvalidIPAddress.InUse''"

definition isInvocationPendingError :: "api_error \<Rightarrow> bool" where
  "isInvocationPendingError = has_error_code ''InvocationDoesNotExist''"

definition apiErrorCode :: "api_error option \<Rightarrow> string" where
  "apiErrorCode err = (case err of None \<Rightarrow> [] | Some e \<Rightarrow> (case aeCode e of Some code \<Rightarrow> code | None \<Rightarrow> ''unknown''))"

definition isLaunchTemplateNotFound :: "api_error \<Rightarrow> bool" where
  "isLaunchTemplateNotFound e \<longleftrightarrow> apiErrorCode (Some e) \<in>
     {''InvalidLaunchTemplateName.NotFoundException'', ''InvalidLaunchTemplateId.NotFound'', ''InvalidLaunchTemplateId.Malformed''}"

definition isGroupNotFoundError :: "api_error \<Rightarrow> bool" where
  "isGroupNotFoundError e \<longleftrightarrow> aeCode e = Some ''ValidationError'' \<and> Contains (to_lower (aeMessage e)) ''not found''"

end
