(* ===== verification/Effects.thy ===== *)
theory Effects
  imports Cloud
begin

text \<open>
  What a program does to the cloud, as a log. The state of the cloud is paired with the events so far; \<open>noting\<close>
  wraps one call so that it appends its events, \<open>unnoted\<close> one that appends none. \<open>emits E m\<close> says that the program
  \<open>m\<close> only appends events of the set \<open>E\<close>; it follows the structure of the program (\<open>emits_intros\<close>). A program is
  \<open>quiet\<close> when it leaves the log alone. \<open>chain J\<close> states that every event is justified by those before it.
\<close>

named_theorems emits_intros \<open>which events a program appends to the log\<close>

type_synonym ('w, 'v) noted = "('w \<times> 'v list) timed"

definition noting :: "('i \<Rightarrow> 'e + 'o \<Rightarrow> 'v list) \<Rightarrow> ('i, 'o, 'e, 'w) api \<Rightarrow> ('i, 'o, 'e, 'w \<times> 'v list) api" where
  "noting ev f x ws = (case f x (fst ws) of (r, k, w') \<Rightarrow> (r, k, (w', snd ws @ ev x r)))"

abbreviation unnoted :: "('i, 'o, 'e, 'w) api \<Rightarrow> ('i, 'o, 'e, 'w \<times> 'v list) api" where
  "unnoted f \<equiv> noting (\<lambda>_ _. []) f"

definition logged_wait :: "'w waiter \<Rightarrow> ('w \<times> 'v list) waiter" where
  "logged_wait f d ws = (case f d (fst ws) of (e, k, w') \<Rightarrow> (e, k, (w', snd ws)))"

definition log_of :: "('w, 'v) noted \<Rightarrow> 'v list" where "log_of s = snd (snd s)"

lemma log_of_pair [simp]: "log_of (t, (w, es)) = es" by (simp add: log_of_def)

definition emits :: "'v set \<Rightarrow> ('e, 'a, ('w, 'v) noted) prog \<Rightarrow> bool" where
  "emits E m \<longleftrightarrow> (\<forall>s r s'. m s = Some (r, s') \<longrightarrow> (\<exists>l. log_of s' = log_of s @ l \<and> set l \<subseteq> E))"

abbreviation quiet :: "('e, 'a, ('w, 'v) noted) prog \<Rightarrow> bool" where "quiet \<equiv> emits {}"

lemma quiet_iff: "quiet m \<longleftrightarrow> (\<forall>s r s'. m s = Some (r, s') \<longrightarrow> log_of s' = log_of s)"
  by (simp add: emits_def)

lemma emits_mono: "emits E m \<Longrightarrow> E \<subseteq> F \<Longrightarrow> emits F m"
  unfolding emits_def by blast

lemma quiet_emits: "quiet m \<Longrightarrow> emits E m"
  by (rule emits_mono) auto

lemma wp_emits: "emits E m \<Longrightarrow> (\<And>r t w l. set l \<subseteq> E \<Longrightarrow> Q r (t, (w, log_of s @ l))) \<Longrightarrow> wp True m Q s"
  unfolding wp_def emits_def log_of_def by (auto split: option.splits) (metis prod.collapse)

lemma wp_quiet: "quiet m \<Longrightarrow> (\<And>r t w. Q r (t, (w, log_of s))) \<Longrightarrow> wp True m Q s"
  by (rule wp_emits) auto

lemma emits_wp: "(\<And>s. wp True m (\<lambda>_ s'. \<exists>l. log_of s' = log_of s @ l \<and> set l \<subseteq> E) s) \<Longrightarrow> emits E m"
  unfolding emits_def
proof (intro allI impI)
  fix s r s'
  assume "\<And>s. wp True m (\<lambda>_ s'. \<exists>l. log_of s' = log_of s @ l \<and> set l \<subseteq> E) s" and run: "m s = Some (r, s')"
  then have "wp True m (\<lambda>_ s'. \<exists>l. log_of s' = log_of s @ l \<and> set l \<subseteq> E) s" by blast
  with run show "\<exists>l. log_of s' = log_of s @ l \<and> set l \<subseteq> E" by (simp add: wp_def)
qed

lemma wp_seq_emits:
  "emits E m \<Longrightarrow> (\<And>e t w l. set l \<subseteq> E \<Longrightarrow> Q (Inl e) (t, (w, log_of s @ l))) \<Longrightarrow>
   (\<And>x t w l. set l \<subseteq> E \<Longrightarrow> wp True (f x) Q (t, (w, log_of s @ l))) \<Longrightarrow> wp True (seq m f) Q s"
  unfolding wp_seq by (rule wp_emits) (auto split: sum.split)

lemma wp_seq_quiet:
  "quiet m \<Longrightarrow> (\<And>e t w. Q (Inl e) (t, (w, log_of s))) \<Longrightarrow> (\<And>x t w. wp True (f x) Q (t, (w, log_of s))) \<Longrightarrow> wp True (seq m f) Q s"
  by (rule wp_seq_emits) auto

text \<open>Growing a log that has grown already.\<close>

definition grown :: "'v set \<Rightarrow> 'v list \<Rightarrow> ('w, 'v) noted \<Rightarrow> bool" where
  "grown E es u \<longleftrightarrow> (\<exists>l. log_of u = es @ l \<and> set l \<subseteq> E)"

lemma grown_refl [simp]: "grown E (log_of u) u" by (simp add: grown_def)

lemma grown_emits: "emits E m \<Longrightarrow> grown E es u \<Longrightarrow> wp True m (\<lambda>_. grown E es) u"
  by (rule wp_emits) (auto simp: grown_def)

lemma emits_grown: "(\<And>s. wp True m (\<lambda>_. grown E (log_of s)) s) \<Longrightarrow> emits E m"
  unfolding grown_def by (rule emits_wp) blast

section \<open>Along the structure of a program\<close>

lemma emits_basic [emits_intros]: "emits E (ok x)" "emits E (fail e)" "emits E (check c)" "emits E (demand b e)" "emits E (give r)"
  by (auto simp: emits_def ok_def fail_def check_def demand_def give_def split: option.splits if_splits)

lemma emits_attempt [emits_intros]: "emits E m \<Longrightarrow> (\<And>r. emits E (f r)) \<Longrightarrow> emits E (attempt m f)"
  unfolding emits_def attempt_def
proof (intro allI impI)
  fix s r s'
  assume m: "\<forall>s r s'. m s = Some (r, s') \<longrightarrow> (\<exists>l. log_of s' = log_of s @ l \<and> set l \<subseteq> E)"
    and f: "\<And>r. \<forall>s x s'. f r s = Some (x, s') \<longrightarrow> (\<exists>l. log_of s' = log_of s @ l \<and> set l \<subseteq> E)"
    and "(case m s of None \<Rightarrow> None | Some (r, s') \<Rightarrow> f r s') = Some (r, s')"
  then obtain q s1 where run: "m s = Some (q, s1)" "f q s1 = Some (r, s')" by (auto split: option.splits)
  obtain l1 where "log_of s1 = log_of s @ l1" "set l1 \<subseteq> E" using m run(1) by blast
  moreover obtain l2 where "log_of s' = log_of s1 @ l2" "set l2 \<subseteq> E" using f run(2) by blast
  ultimately show "\<exists>l. log_of s' = log_of s @ l \<and> set l \<subseteq> E" by (intro exI [of _ "l1 @ l2"]) simp
qed

lemma emits_seq [emits_intros]: "emits E m \<Longrightarrow> (\<And>x. emits E (f x)) \<Longrightarrow> emits E (seq m f)"
  unfolding seq_def by (rule emits_attempt) (auto intro: emits_basic split: sum.split)

lemma emits_wrap [emits_intros]: "emits E m \<Longrightarrow> emits E (wrap g m)"
  unfolding wrap_def by (rule emits_attempt) (auto intro: emits_basic split: sum.split)

lemma emits_at_time [emits_intros]: "(\<And>t. emits E (f t)) \<Longrightarrow> emits E (at_time f)"
  by (auto simp: emits_def at_time_def)

lemma emits_client [emits_intros]: "(\<And>x. c = Some x \<Longrightarrow> emits E (f (g x))) \<Longrightarrow> emits E (client (map_option g c) e f)"
  by (auto simp: client_def intro: emits_basic split: option.split)

lemma emits_unnoted [emits_intros]: "emits E (call (unnoted f) x)"
  by (auto simp: emits_def call_def noting_def log_of_def split: prod.splits)

lemma emits_noting: "(\<And>r. set (ev x r) \<subseteq> E) \<Longrightarrow> emits E (call (noting ev f) x)"
  by (auto simp: emits_def call_def noting_def log_of_def split: prod.splits)

lemma emits_cases [emits_intros]:
  "(b \<Longrightarrow> emits E m) \<Longrightarrow> (\<not> b \<Longrightarrow> emits E n) \<Longrightarrow> emits E (if b then m else n)"
  "(\<And>x. r = Inl x \<Longrightarrow> emits E (f x)) \<Longrightarrow> (\<And>y. r = Inr y \<Longrightarrow> emits E (g y)) \<Longrightarrow> emits E (case r of Inl x \<Rightarrow> f x | Inr y \<Rightarrow> g y)"
  "(p = None \<Longrightarrow> emits E m) \<Longrightarrow> (\<And>x. p = Some x \<Longrightarrow> emits E (h x)) \<Longrightarrow> emits E (case p of None \<Rightarrow> m | Some x \<Rightarrow> h x)"
  "(xs = [] \<Longrightarrow> emits E m) \<Longrightarrow> (\<And>y ys. xs = y # ys \<Longrightarrow> emits E (k y ys)) \<Longrightarrow> emits E (case xs of [] \<Rightarrow> m | y # ys \<Rightarrow> k y ys)"
  "(\<And>a b. q = (a, b) \<Longrightarrow> emits E (u a b)) \<Longrightarrow> emits E (case q of (a, b) \<Rightarrow> u a b)"
  by (auto split: sum.split option.split list.split prod.split)

lemma emits_sleep [emits_intros]: "emits E (sleep (logged_wait f) d)"
  by (auto simp: emits_def sleep_def logged_wait_def log_of_def split: prod.splits option.splits)

lemma emits_waits [emits_intros]:
  "wait_keeps (next_tick (logged_wait f) d) (\<lambda>s. log_of s = es)" "wait_keeps (after (logged_wait f) d) (\<lambda>s. log_of s = es)"
  "wait_keeps (next_tick_until (logged_wait f) l d) (\<lambda>s. log_of s = es)"
  by (auto simp: wait_keeps_def next_tick_def after_def next_tick_until_def logged_wait_def log_of_def
      split: prod.splits option.splits if_splits)

lemma wait_keeps_log: "(\<And>es. wait_keeps wait (\<lambda>s. log_of s = es)) \<Longrightarrow> wait_keeps wait (\<lambda>s. P (log_of s))"
  unfolding wait_keeps_def by metis

lemma emits_poll [emits_intros]:
  assumes "\<And>es. wait_keeps wait (\<lambda>s. log_of s = es)" and body: "emits E body"
    and expire: "\<And>d expire i. expiry = Some (d, expire) \<Longrightarrow> emits E (expire i)"
  shows "emits E (poll wait expiry body interrupted)"
proof (rule emits_grown, unfold wp_def, rule wp_poll [where J = "\<lambda>_ _. True"])
  fix s
  show "grown E (log_of s) s" by simp
  show "wait_keeps wait (grown E (log_of s))" unfolding grown_def by (rule wait_keeps_log [OF assms(1)])
  show "wp True body (\<lambda>x u. case x of Inl r \<Rightarrow> grown E (log_of s) u | Inr i \<Rightarrow> grown E (log_of s) u \<and> True) u"
    if "grown E (log_of s) u" for u
    by (rule wp_mono [OF grown_emits [OF body that]]) (simp split: sum.split)
  show "case f i u of None \<Rightarrow> True | Some (r, u') \<Rightarrow> grown E (log_of s) u'"
    if "expiry = Some (d, f)" "grown E (log_of s) u" for d f i u
    using grown_emits [OF expire [OF that(1)] that(2)] by (simp add: wp_def)
qed

lemma emits_iterate [emits_intros]:
  assumes "\<And>x. emits E (body x)" shows "emits E (iterate body x)"
proof (rule emits_grown, rule wp_iterate)
  fix s
  show "grown E (log_of s) s" by simp
  show "wp True (body y) (\<lambda>r u. case r of Inl _ \<Rightarrow> grown E (log_of s) u | Inr _ \<Rightarrow> grown E (log_of s) u) u"
    if "grown E (log_of s) u" for y u
    by (rule wp_mono [OF grown_emits [OF assms that]]) (simp split: sum.split)
qed

lemma wp_noted:
  assumes "\<And>r k t w' w. fst (snd s) = w \<Longrightarrow> f x w = (r, k, w') \<Longrightarrow> Q r (t, (w', log_of s @ ev x r))"
  shows "wp True (call (noting ev f) x) Q s"
  using assms by (auto simp: wp_call noting_def log_of_def split: prod.splits)

section \<open>Justified logs\<close>

fun chain :: "('v list \<Rightarrow> 'v \<Rightarrow> bool) \<Rightarrow> 'v list \<Rightarrow> 'v list \<Rightarrow> bool" where
  "chain J es [] = True"
| "chain J es (e # l) = (J es e \<and> chain J (es @ [e]) l)"

lemma chain_append: "chain J es (l @ l') \<longleftrightarrow> chain J es l \<and> chain J (es @ l) l'"
  by (induction l arbitrary: es) auto

lemma chain_nth: "chain J es l \<Longrightarrow> i < length l \<Longrightarrow> J (es @ take i l) (l ! i)"
proof (induction l arbitrary: es i)
  case (Cons e l)
  from Cons.prems Cons.IH [of "es @ [e]" "i - 1"] show ?case by (cases i) auto
qed simp

lemma chain_subset: "set l \<subseteq> E \<Longrightarrow> (\<And>e l. e \<in> E \<Longrightarrow> J (es @ l) e) \<Longrightarrow> chain J es l"
proof (induction l arbitrary: es)
  case (Cons e l)
  have "J es e" using Cons.prems(2) [of e "[]"] Cons.prems(1) by simp
  moreover have "chain J (es @ [e]) l"
  proof (rule Cons.IH)
    show "set l \<subseteq> E" using Cons.prems(1) by simp
    show "J ((es @ [e]) @ l') x" if "x \<in> E" for x l' using Cons.prems(2) [OF that, of "e # l'"] by simp
  qed
  ultimately show ?case by simp
qed simp

text \<open>\<open>traces J A m es\<close>: run after the events \<open>es\<close>, the program \<open>m\<close> appends a justified list of events \<open>l\<close>, and \<open>A\<close> holds of its
  result and \<open>l\<close>.\<close>

definition traces :: "('v list \<Rightarrow> 'v \<Rightarrow> bool) \<Rightarrow> ('e + 'a \<Rightarrow> 'v list \<Rightarrow> bool) \<Rightarrow> ('e, 'a, ('w, 'v) noted) prog \<Rightarrow> 'v list \<Rightarrow> bool" where
  "traces J A m es \<longleftrightarrow> (\<forall>t w. wp True m (\<lambda>r u. \<exists>l. log_of u = es @ l \<and> chain J es l \<and> A r l) (t, (w, es)))"

lemma tracesD: "traces J A m es \<Longrightarrow> wp True m (\<lambda>r u. \<exists>l. log_of u = es @ l \<and> chain J es l \<and> A r l) (t, (w, es))"
  by (simp add: traces_def)

lemma traces_mono: "traces J A m es \<Longrightarrow> (\<And>r l. chain J es l \<Longrightarrow> A r l \<Longrightarrow> B r l) \<Longrightarrow> traces J B m es"
  unfolding traces_def by (blast intro: wp_mono)

lemma traces_emits:
  assumes "emits E m" "\<And>e l. e \<in> E \<Longrightarrow> J (es @ l) e" "\<And>r l. set l \<subseteq> E \<Longrightarrow> A r l"
  shows "traces J A m es"
proof -
  have "chain J es l" if "set l \<subseteq> E" for l using that by (rule chain_subset) (use assms(2) in blast)
  with assms(3) show ?thesis unfolding traces_def by (intro allI wp_emits [OF assms(1)]) auto
qed

lemma traces_ok: "A (Inr x) [] \<Longrightarrow> traces J A (ok x) es"
  and traces_fail: "A (Inl e) [] \<Longrightarrow> traces J A (fail e) es"
  by (simp_all add: traces_def wp_ok wp_fail)

lemma traces_attempt:
  fixes f :: "'e + 'a \<Rightarrow> ('f, 'b, ('w, 'v) noted) prog"
  assumes "traces J A m es" "\<And>r l. chain J es l \<Longrightarrow> A r l \<Longrightarrow> traces J (\<lambda>r l'. B r (l @ l')) (f r) (es @ l)"
  shows "traces J B (attempt m f) es"
  unfolding traces_def wp_attempt
proof (intro allI wp_mono [OF tracesD [OF assms(1)]])
  fix r and u :: "('w, 'v) noted"
  assume "\<exists>l. log_of u = es @ l \<and> chain J es l \<and> A r l"
  then obtain l where l: "log_of u = es @ l" "chain J es l" "A r l" by blast
  obtain t w where u: "u = (t, (w, es @ l))" using l(1) by (metis log_of_def prod.collapse)
  have "traces J (\<lambda>r l'. B r (l @ l')) (f r) (es @ l)" using assms(2) l(2,3) by blast
  then show "wp True (f r) (\<lambda>r u. \<exists>l. log_of u = es @ l \<and> chain J es l \<and> B r l) u"
    unfolding u using l(2) by (auto simp: chain_append intro!: wp_mono [OF tracesD])
qed

lemma traces_seq:
  assumes "traces J A m es" "\<And>e l. chain J es l \<Longrightarrow> A (Inl e) l \<Longrightarrow> B (Inl e) l"
    and "\<And>x l. chain J es l \<Longrightarrow> A (Inr x) l \<Longrightarrow> traces J (\<lambda>r l'. B r (l @ l')) (f x) (es @ l)"
  shows "traces J B (seq m f) es"
  unfolding seq_def by (rule traces_attempt [OF assms(1)]) (use assms(2,3) in \<open>auto intro: traces_fail split: sum.split\<close>)

lemma traces_wrap:
  assumes "traces J A m es" "\<And>r l. A r l \<Longrightarrow> B (map_sum g id r) l"
  shows "traces J B (wrap g m) es"
  unfolding wrap_def
  by (rule traces_attempt [OF assms(1)]) (use assms(2) in \<open>force intro!: traces_ok traces_fail split: sum.split\<close>)

lemma traces_at_time: "(\<And>t. traces J A (f t) es) \<Longrightarrow> traces J A (at_time f) es"
  by (simp add: traces_def wp_at_time)

lemma traces_client: "(\<And>x. c = Some x \<Longrightarrow> traces J A (f (g x)) es) \<Longrightarrow> A (Inl e) [] \<Longrightarrow> traces J A (client (map_option g c) e f) es"
  by (auto simp: client_def intro: traces_fail split: option.split)

lemma traces_noting:
  assumes "\<And>r. chain J es (ev x r) \<and> A r (ev x r)"
  shows "traces J A (call (noting ev f) x) es"
  unfolding traces_def by (intro allI wp_noted) (use assms in auto)

lemma traces_iterate:
  fixes body :: "'x \<Rightarrow> ('e + 'a, 'x, ('w, 'v) noted) prog"
  assumes "I x []" and body: "\<And>x l. chain J es l \<Longrightarrow> I x l \<Longrightarrow>
      traces J (\<lambda>r l'. case r of Inl y \<Rightarrow> B y (l @ l') | Inr z \<Rightarrow> I z (l @ l')) (body x) (es @ l)"
  shows "traces J B (iterate body x) es"
  unfolding traces_def
proof (intro allI, rule wp_iterate [where I = "\<lambda>x u. \<exists>l. log_of u = es @ l \<and> chain J es l \<and> I x l"])
  show "\<exists>l. log_of (t, (w, es)) = es @ l \<and> chain J es l \<and> I x l" for t w using assms(1) by (intro exI [of _ "[]"]) simp
  fix x and u :: "('w, 'v) noted"
  assume "\<exists>l. log_of u = es @ l \<and> chain J es l \<and> I x l"
  then obtain l where l: "log_of u = es @ l" "chain J es l" "I x l" by blast
  obtain t w where u: "u = (t, (w, es @ l))" using l(1) by (metis log_of_def prod.collapse)
  show "wp True (body x) (\<lambda>r u. case r of Inl y \<Rightarrow> \<exists>l. log_of u = es @ l \<and> chain J es l \<and> B y l
      | Inr z \<Rightarrow> \<exists>l. log_of u = es @ l \<and> chain J es l \<and> I z l) u"
    unfolding u using l(2) by (force simp: chain_append split: sum.split intro!: wp_mono [OF tracesD [OF body [OF l(2,3)]]])
qed

lemma traces_poll:
  fixes body :: "('e + 'a, 'i, ('w, 'v) noted) prog"
  assumes wait: "\<And>es. wait_keeps wait (\<lambda>s. log_of s = es)" and "I []"
    and body: "\<And>l. chain J es l \<Longrightarrow> I l \<Longrightarrow> traces J (\<lambda>x l'. case x of Inl r \<Rightarrow> B r (l @ l') | Inr i \<Rightarrow> I (l @ l')) body (es @ l)"
    and expire: "\<And>d f i l. expiry = Some (d, f) \<Longrightarrow> I l \<Longrightarrow> traces J (\<lambda>r l'. B r (l @ l')) (f i) (es @ l)"
    and interrupted: "\<And>e l. I l \<Longrightarrow> B (interrupted e) l"
  shows "traces J B (poll wait expiry body interrupted) es"
proof -
  define K :: "('e + 'a \<Rightarrow> 'v list \<Rightarrow> bool) \<Rightarrow> 'e + 'a \<Rightarrow> ('w, 'v) noted \<Rightarrow> bool" where
    "K A r u \<longleftrightarrow> (\<exists>l. log_of u = es @ l \<and> chain J es l \<and> A r l)" for A r u
  define L :: "('w, 'v) noted \<Rightarrow> bool" where "L u \<longleftrightarrow> (\<exists>l. log_of u = es @ l \<and> chain J es l \<and> I l)" for u
  have at: "\<exists>t w l. u = (t, (w, es @ l)) \<and> chain J es l \<and> I l" if "L u" for u
    using that unfolding L_def by (metis log_of_def prod.collapse)
  have "case poll wait expiry body interrupted (t, (w, es)) of None \<Rightarrow> True | Some (r, u) \<Rightarrow> K B r u" for t w
  proof (rule wp_poll [where I = L and J = "\<lambda>_ _. True"])
    show "L (t, (w, es))" using \<open>I []\<close> by (auto simp: L_def intro: exI [of _ "[]"])
    show "wait_keeps wait L" unfolding L_def by (rule wait_keeps_log [OF wait])
    fix u :: "('w, 'v) noted"
    assume "L u"
    then obtain t w l where l: "u = (t, (w, es @ l))" "chain J es l" "I l" using at by blast
    show "wp True body (\<lambda>x u. case x of Inl r \<Rightarrow> K B r u | Inr i \<Rightarrow> L u \<and> True) u"
      unfolding l(1)
      by (rule wp_mono [OF tracesD [OF body [OF l(2,3)]]]) (use l(2) in \<open>force simp: K_def L_def chain_append split: sum.splits\<close>)
  next
    fix d f i and u :: "('w, 'v) noted"
    assume f: "expiry = Some (d, f)" and "L u"
    then obtain t w l where l: "u = (t, (w, es @ l))" "chain J es l" "I l" using at by blast
    have "wp True (f i) (\<lambda>r u. K B r u) u"
      unfolding l(1) by (rule wp_mono [OF tracesD [OF expire [OF f l(3)]]]) (use l(2) in \<open>force simp: K_def chain_append\<close>)
    then show "case f i u of None \<Rightarrow> True | Some (r, u) \<Rightarrow> K B r u" by (simp add: wp_def)
  next
    show "K B (interrupted e) u" if "L u" for e u using that interrupted by (auto simp: K_def L_def)
  qed
  then show ?thesis unfolding traces_def wp_def K_def by blast
qed

end
