(* ===== verification/Ssm.thy ===== *)
theory Ssm
  imports Cloud AwsScripts
begin

text \<open>
  Running commands on an EC2 instance: the second half of \<^verbatim>\<open>src/pkg/providers/aws/manager.go\<close>. A command goes
  to the instance as one shell line through SSM, its input as a here-document; the line is polled until
  it has ended. A command that shuts the machine down terminates the instance instead, unless the
  caller asks for the guest to do it. How a shell reads a here-document is written out, so that what
  the remote command gets as its input can be stated.
\<close>

section \<open>Instances\<close>

record ssh_config =
  scUser :: string
  scPort :: int
  scPrivateKeyPath :: string

record ec2_info =
  efID :: string
  efPublicIPv4 :: string
  efPrivateIPv4 :: string
  efState :: InstanceState
  efTags :: "string \<rightharpoonup> string"
  efAvailabilityZone :: string
  efInstanceType :: string
  efSSH :: ssh_config

definition defaultSSHUser :: string where "defaultSSHUser = ''root''"

definition mapEC2State :: "string option \<Rightarrow> InstanceState" where
  "mapEC2State state = (case state of None \<Rightarrow> InstanceStateUnknown
     | Some name \<Rightarrow>
         if name = ''pending'' then InstanceStatePending
         else if name = ''running'' then InstanceStateRunning
         else if name = ''stopping'' then InstanceStateStopping
         else if name = ''stopped'' then InstanceStateStopped
         else if name = ''shutting-down'' \<or> name = ''terminated'' then InstanceStateTerminated
         else InstanceStateUnknown)"

text \<open>A later tag with the same key overwrites an earlier one.\<close>

definition extractTags :: "tag list \<Rightarrow> string \<rightharpoonup> string" where
  "extractTags tags = fold (\<lambda>t m. case t of (Some k, Some v) \<Rightarrow> m(k \<mapsto> v) | _ \<Rightarrow> m) tags Map.empty"

definition placementAZ :: "ec2_instance \<Rightarrow> string" where
  "placementAZ i = (case eiPlacement i of None \<Rightarrow> [] | Some az \<Rightarrow> ToString az)"

definition instanceFromEC2 :: "ec2_instance \<Rightarrow> ec2_info" where
  "instanceFromEC2 i = \<lparr>efID = ToString (eiInstanceId i), efPublicIPv4 = ToString (eiPublicIpAddress i),
     efPrivateIPv4 = ToString (eiPrivateIpAddress i), efState = mapEC2State (eiState i), efTags = extractTags (eiTags i),
     efAvailabilityZone = placementAZ i, efInstanceType = eiInstanceType i,
     efSSH = \<lparr>scUser = defaultSSHUser, scPort = 22, scPrivateKeyPath = []\<rparr>\<rparr>"

section \<open>Options\<close>

text \<open>The input is what its reader gives, with the error that ends the reading, if any; \<open>aoProviderConfig\<close> is a
  \<^verbatim>\<open>CommandConfig\<close>, if it is one.\<close>

record aws_run_options = RunCommandOptions +
  aoStdinError :: "string option"
  aoProviderConfig :: "bool option"

definition run_options :: "int \<Rightarrow> aws_run_options" where
  "run_options timeout = \<lparr>roTimeout = timeout, roWorkDir = [], roStdin = None, aoStdinError = None, aoProviderConfig = None\<rparr>"

definition guestShutdown :: "aws_run_options option \<Rightarrow> bool" where
  "guestShutdown opts = (case opts of None \<Rightarrow> False | Some o1 \<Rightarrow> aoProviderConfig o1 = Some True)"

definition defaultSSMExecTimeout :: int where "defaultSSMExecTimeout = 15 * 60 * second"

definition defaultSSMWaitInterval :: int where "defaultSSMWaitInterval = 2 * second"

definition ssmExecTimeout :: "aws_run_options option \<Rightarrow> int" where
  "ssmExecTimeout opts = (case opts of None \<Rightarrow> defaultSSMExecTimeout
     | Some o1 \<Rightarrow> if roTimeout o1 > 0 then roTimeout o1 else defaultSSMExecTimeout)"

section \<open>Shutdown commands\<close>

text \<open>\<^verbatim>\<open>strings.ToLower\<close> on UTF-8 text, as far as it gives ASCII letters: two letters outside ASCII do, the Kelvin
  sign and the capital dotted I. The other letters outside ASCII stay outside and are left as they are.\<close>

fun ToLower :: "string \<Rightarrow> string" where
  "ToLower [] = []"
| "ToLower (c # cs) =
     (if c = CHR 0xE2 \<and> take 2 cs = [CHR 0x84, CHR 0xAA] then CHR ''k'' # ToLower (drop 2 cs)
      else if c = CHR 0xC4 \<and> take 1 cs = [CHR 0xB0] then CHR ''i'' # ToLower (drop 1 cs)
      else to_lower [c] @ ToLower cs)"

text \<open>\<^verbatim>\<open>strings.FieldsFunc\<close>: the maximal runs of characters that are not separators.\<close>

fun FieldsFunc :: "(char \<Rightarrow> bool) \<Rightarrow> string \<Rightarrow> string \<Rightarrow> string list" where
  "FieldsFunc sep cur [] = (if cur = [] then [] else [rev cur])"
| "FieldsFunc sep cur (c # cs) =
     (if sep c then (if cur = [] then [] else [rev cur]) @ FieldsFunc sep [] cs else FieldsFunc sep (c # cur) cs)"

definition lower_alnum :: "char \<Rightarrow> bool" where
  "lower_alnum c = (let k = (of_char c :: nat) in 97 \<le> k \<and> k \<le> 122 \<or> 48 \<le> k \<and> k \<le> 57)"

definition shutdown_words :: "string list" where
  "shutdown_words = [''shutdown'', ''poweroff'', ''halt'', ''reboot'']"

definition containsShutdownWord :: "string \<Rightarrow> bool" where
  "containsShutdownWord script =
     list_ex (\<lambda>tok. tok \<in> set shutdown_words) (FieldsFunc (\<lambda>r. \<not> lower_alnum r) [] script)"

definition isShutdownCommand :: "string list \<Rightarrow> bool" where
  "isShutdownCommand command =
     (case filter (\<lambda>c. c \<noteq> []) (map TrimSpace command) of
        [] \<Rightarrow> False
      | parts \<Rightarrow>
          (let all = map ToLower parts;
               lower = (if hd all = ''sudo'' \<and> length all > 1 then tl all else all)
           in if hd lower \<in> set shutdown_words then True
              else if length lower \<ge> 3 \<and> (hd lower = ''bash'' \<or> hd lower = ''sh'') \<and> lower ! 1 = ''-c''
              then containsShutdownWord (ToLower (Join '' '' (drop 2 lower)))
              else False))"

section \<open>The command line\<close>

text \<open>The delimiter grows until the input does not contain it.\<close>

function stdin_delimiter :: "string \<Rightarrow> string \<Rightarrow> string" where
  "stdin_delimiter stdin delimiter =
     (if Contains stdin delimiter then stdin_delimiter stdin (delimiter @ ''_1'') else delimiter)"
  by pat_completeness auto
termination
  by (relation "measure (\<lambda>(stdin, delimiter). Suc (length stdin) - length delimiter)") (auto dest!: sublist_length_le)

declare stdin_delimiter.simps [simp del]

definition pipeStdinToCommand :: "string \<Rightarrow> string \<Rightarrow> string" where
  "pipeStdinToCommand command stdin =
     (if stdin = [] then command
      else (let delimiter = stdin_delimiter stdin ''ETCD_TEST_STDIN_EOF'' in
        ''cat <<'' @ [Shell.squote] @ delimiter @ [Shell.squote] @ '' | '' @ command @ [line_feed] @ stdin @ [line_feed] @ delimiter))"

definition buildSSMCommandString :: "string list \<Rightarrow> aws_run_options option \<Rightarrow> provider_error + string" where
  "buildSSMCommandString command opts =
     (let line = JoinArgs command in
      if line = [] then Inl (PMsg ''aws: command cannot be empty'')
      else (case opts of None \<Rightarrow> Inr line
        | Some o1 \<Rightarrow>
            (let line1 = (if TrimSpace (roWorkDir o1) \<noteq> [] then ''cd '' @ Quote (TrimSpace (roWorkDir o1)) @ '' && '' @ line else line) in
             (case roStdin o1 of None \<Rightarrow> Inr line1
              | Some stdin \<Rightarrow> (case aoStdinError o1 of Some e \<Rightarrow> Inl (PMsg (''aws: read stdin: '' @ e))
                  | None \<Rightarrow> Inr (pipeStdinToCommand line1 stdin))))))"

section \<open>Running a command\<close>

definition terminateAsShutdown :: "'w manager \<Rightarrow> ec2_info \<Rightarrow> (provider_error, ExecuteResult, 'w timed) prog" where
  "terminateAsShutdown m i =
     client (mgEC2 m) (PMsg ''aws: ec2 client is nil'') (\<lambda>c.
     seq (wrap (PApi (''aws: terminate instance '' @ efID i)) (call (ecTerminateInstances c) (efID i))) (\<lambda>_.
     ok \<lparr>erExitCode = 0, erStdout = ''instance termination requested via shutdown command'' @ [line_feed], erStderr = []\<rparr>))"

text \<open>The result of sending is the command's identifier and the deadline of the context that waits for it; the sum
  of the timeout and the margin is a 64-bit number.\<close>

definition sendSSMCommand :: "'w ssmAPI \<Rightarrow> ec2_info \<Rightarrow> string \<Rightarrow> aws_run_options option \<Rightarrow>
    (provider_error, string \<times> int, 'w timed) prog" where
  "sendSSMCommand s i line opts = at_time (\<lambda>now.
     (let execTimeout = ssmExecTimeout opts; deadline = now + int64 (execTimeout + 30 * second) in
      seq (wrap (PApi (''aws: send ssm command on '' @ efID i)) (call (smSendCommand s)
            \<lparr>siTimeLeft = deadline - now, siInstanceId = efID i, siDocumentName = ''AWS-RunShellScript'',
             siCommand = line, siExecutionTimeout = execTimeout div second\<rparr>)) (\<lambda>command.
        (case command of Some (Some commandID) \<Rightarrow>
             if commandID = [] then fail (PMsg ''aws: ssm send command returned empty command id'') else ok (commandID, deadline)
         | _ \<Rightarrow> fail (PMsg ''aws: ssm send command returned empty command id'')))))"

definition buildSSMExecuteResult :: "invocation \<Rightarrow> ExecuteResult" where
  "buildSSMExecuteResult iv =
     (let code = sint (ivResponseCode iv);
          code1 = (if ivStatus iv = ''Success'' \<and> code < 0 then 0 else code);
          code2 = (if ivStatus iv \<noteq> ''Success'' \<and> code1 \<le> 0 then 1 else code1)
      in \<lparr>erExitCode = code2, erStdout = ToString (ivStandardOutput iv), erStderr = ToString (ivStandardError iv)\<rparr>)"

definition unfinished_statuses :: "string list" where
  "unfinished_statuses = [''Pending'', ''InProgress'', ''Delayed'']"

definition ssm_attempt :: "'w ssmAPI \<Rightarrow> ec2_info \<Rightarrow> string \<Rightarrow> int \<Rightarrow> (provider_error + ExecuteResult, unit, 'w timed) prog" where
  "ssm_attempt s i commandID deadline = at_time (\<lambda>now.
     attempt (call (smGetCommandInvocation s) (deadline - now, commandID, efID i)) (\<lambda>r. case r of
        Inl e \<Rightarrow> if isInvocationPendingError e then ok ()
                 else fail (Inl (PApi (''aws: get ssm command invocation '' @ commandID @ '' on '' @ efID i) e))
      | Inr iv \<Rightarrow> if ivStatus iv \<in> set unfinished_statuses then ok () else fail (Inr (buildSSMExecuteResult iv))))"

definition waitForSSMResult :: "'w manager \<Rightarrow> 'w ssmAPI \<Rightarrow> ec2_info \<Rightarrow> string \<Rightarrow> int \<Rightarrow> (provider_error, ExecuteResult, 'w timed) prog" where
  "waitForSSMResult m s i commandID deadline =
     poll (next_tick_until (mgWait m) deadline defaultSSMWaitInterval) None (ssm_attempt s i commandID deadline)
       (\<lambda>e. Inl (PContext (''aws: wait for ssm command '' @ commandID @ '' on '' @ efID i) e))"

definition RunCommandWithOptionsEC2 :: "'w manager \<Rightarrow> ec2_info \<Rightarrow> string list \<Rightarrow> aws_run_options option \<Rightarrow>
    (provider_error, ExecuteResult, 'w timed) prog" where
  "RunCommandWithOptionsEC2 m i command opts =
     (if TrimSpace (efID i) = [] then fail (PMsg ''aws: instance id is required'')
      else if command = [] then fail (PMsg ''aws: command cannot be empty'')
      else if \<not> guestShutdown opts \<and> isShutdownCommand command then terminateAsShutdown m i
      else client (mgSSM m) (PMsg ''aws: ssm client is nil'') (\<lambda>s.
        (case buildSSMCommandString command opts of Inl e \<Rightarrow> fail e
         | Inr line \<Rightarrow> seq (sendSSMCommand s i line opts) (\<lambda>(commandID, deadline). waitForSSMResult m s i commandID deadline))))"

definition RunCommandEC2 :: "'w manager \<Rightarrow> ec2_info \<Rightarrow> string list \<Rightarrow> (provider_error, ExecuteResult, 'w timed) prog" where
  "RunCommandEC2 m i command = RunCommandWithOptionsEC2 m i command None"

section \<open>What a shell makes of the line\<close>

text \<open>A command line ends at the first line feed that is neither quoted nor escaped.\<close>

fun line_end :: "bool \<Rightarrow> string \<Rightarrow> string \<times> string" where
  "line_end quoted [] = ([], [])"
| "line_end quoted (c # cs) =
     (if quoted then (case line_end (c \<noteq> Shell.squote) cs of (a, b) \<Rightarrow> (c # a, b))
      else if c = line_feed then ([], cs)
      else if c = Shell.squote then (case line_end True cs of (a, b) \<Rightarrow> (c # a, b))
      else if c = bslash then (case cs of [] \<Rightarrow> ([c], []) | d # ds \<Rightarrow> (case line_end False ds of (a, b) \<Rightarrow> (c # d # a, b)))
      else (case line_end False cs of (a, b) \<Rightarrow> (c # a, b)))"

text \<open>A script that begins with a here-document piped into a command: the delimiter, the command, and the text up
  to the first line that is the delimiter, each line with its line feed.\<close>

definition here_document :: "string \<Rightarrow> (string \<times> string) option" where
  "here_document script =
     (let start = ''cat <<'' @ [Shell.squote] in
      if \<not> HasPrefix script start then None
      else (let rest = drop (length start) script;
                delimiter = takeWhile (\<lambda>c. c \<noteq> Shell.squote) rest;
                rest1 = drop (length delimiter + 1) rest
            in if \<not> HasPrefix rest1 '' | '' then None
               else (case line_end False (drop 3 rest1) of (command, text) \<Rightarrow>
                  (let ls = Split line_feed text in
                   if delimiter \<notin> set ls then None
                   else Some (command, concat (map (\<lambda>l. l @ [line_feed]) (takeWhile (\<lambda>l. l \<noteq> delimiter) ls)))))))"

lemma delimiter_fresh: "\<not> Contains stdin (stdin_delimiter stdin d)"
proof (induction stdin d rule: stdin_delimiter.induct)
  case (1 stdin d)
  then show ?case by (cases "Contains stdin d") (simp_all add: stdin_delimiter.simps [of stdin d])
qed

lemma delimiter_chars: "set (stdin_delimiter stdin d) \<subseteq> set d \<union> set ''_1''"
proof (induction stdin d rule: stdin_delimiter.induct)
  case (1 stdin d)
  then show ?case by (cases "Contains stdin d") (auto simp: stdin_delimiter.simps [of stdin d])
qed

lemma Split_sublist: "l \<in> set (Split sep s) \<Longrightarrow> sublist l s"
proof (induction s arbitrary: l)
  case (Cons c s)
  obtain w ws where w: "Split sep s = w # ws" by (cases "Split sep s") auto
  have "prefix w s" using w
  proof (induction s arbitrary: w ws)
    case (Cons d s)
    then show ?case by (auto split: if_splits list.splits)
  qed simp
  with Cons w show ?case by (auto simp: sublist_Cons_right split: if_splits)
qed simp

lemma line_end_plain: "list_all sh_plain s \<Longrightarrow> line_end False (s @ t) = apfst ((@) s) (line_end False t)"
proof (induction s)
  case Nil
  then show ?case by (cases "line_end False t") simp
next
  case (Cons c s)
  moreover from this have "c \<noteq> line_feed"
    by (auto simp: sh_plain_def is_alpha_def is_digit_def line_feed_def less_eq_char_def)
  ultimately show ?case using plain_not_special [of c] by (cases "line_end False t") (auto split: prod.splits)
qed

lemma line_end_quoted:
  "line_end True (ReplaceAll Shell.squote [Shell.squote, bslash, Shell.squote, Shell.squote] s @ Shell.squote # t) =
     apfst ((@) (ReplaceAll Shell.squote [Shell.squote, bslash, Shell.squote, Shell.squote] s @ [Shell.squote])) (line_end False t)"
  by (cases "line_end False t"; induction s) (auto simp: Shell.squote_def bslash_def line_feed_def split: prod.splits)

lemma line_end_Quote: "line_end False (Quote s @ t) = apfst ((@) (Quote s)) (line_end False t)"
proof (cases "IsSimpleArg s")
  case True
  then have "list_all sh_plain s" using simple_plain [OF True] by (simp add: list_all_iff)
  with True show ?thesis by (simp add: Quote_def line_end_plain)
next
  case False
  then show ?thesis
    using line_end_quoted [of s t] by (cases "line_end False t") (auto simp: Quote_def Shell.squote_def line_feed_def split: prod.splits)
qed

lemma line_end_JoinArgs: "line_end False (JoinArgs args @ t) = apfst ((@) (JoinArgs args)) (line_end False t)"
proof (induction args)
  case (Cons a args)
  show ?case
  proof (cases args)
    case (Cons b bs)
    then have "JoinArgs (a # args) = Quote a @ CHR '' '' # JoinArgs args" by (simp add: JoinArgs_def)
    with Cons.IH show ?thesis
      by (cases "line_end False t") (simp add: line_end_Quote line_feed_def Shell.squote_def bslash_def)
  qed (simp add: JoinArgs_def line_end_Quote)
qed (cases "line_end False t"; simp add: JoinArgs_def)

lemma concat_lines: "concat (map (\<lambda>l. l @ [line_feed]) (Split line_feed s)) = s @ [line_feed]"
proof (induction s)
  case (Cons c s)
  then show ?case by (cases "Split line_feed s") auto
qed simp

lemma here_document_pipe:
  assumes "stdin \<noteq> []" and "\<And>t. line_end False (command @ t) = apfst ((@) command) (line_end False t)"
  shows "here_document (pipeStdinToCommand command stdin) = Some (command, stdin @ [line_feed])"
proof -
  define d where "d = stdin_delimiter stdin ''ETCD_TEST_STDIN_EOF''"
  have chars: "Shell.squote \<notin> set d" "line_feed \<notin> set d"
    using delimiter_chars [of stdin "''ETCD_TEST_STDIN_EOF''"] by (auto simp: d_def Shell.squote_def line_feed_def)
  have fresh: "d \<notin> set (Split line_feed stdin)" using Split_sublist delimiter_fresh unfolding d_def by blast
  have ls: "Split line_feed (stdin @ line_feed # d) = Split line_feed stdin @ [d]"
    using chars by (simp add: Split_append Split_word)
  have "line_end False (command @ line_feed # stdin @ line_feed # d) = (command, stdin @ line_feed # d)"
    unfolding assms(2) by simp
  moreover have "takeWhile (\<lambda>l. l \<noteq> d) (Split line_feed stdin @ [d]) = Split line_feed stdin"
    using fresh by (simp add: takeWhile_append)
  moreover have "takeWhile (\<lambda>c. c \<noteq> Shell.squote) (d @ Shell.squote # x) = d" for x
    using chars(1) by (auto simp: takeWhile_append)
  ultimately show ?thesis using assms(1)
    by (simp add: pipeStdinToCommand_def here_document_def Let_def ls concat_lines d_def [symmetric])
qed

end
