(* ===== verification/Ec2Provider.thy ===== *)
theory Ec2Provider
  imports Ssm
begin

text \<open>
  The EC2 provider: \<^verbatim>\<open>manager_lifecycle.go\<close>, \<^verbatim>\<open>manager_inventory.go\<close>, \<^verbatim>\<open>manager_scaling.go\<close>,
  \<^verbatim>\<open>create_config.go\<close>, \<^verbatim>\<open>ami.go\<close> and \<^verbatim>\<open>identity.go\<close> of \<^verbatim>\<open>src/pkg/providers/aws\<close>. Operations are
  programs of the theory \<open>Cloud\<close>: launching with failover between subnets, replacing a machine while
  keeping its address and its data volume, waiting for states, volumes, the Auto Scaling operations.
  Names that the local provider has too carry the suffix \<open>EC2\<close>.
\<close>

section \<open>Requests\<close>

record aws_create_config =
  acIAMInstanceProfile :: string
  acDataVolumeSizeGB :: int
  acPrivateIPAddress :: string
  acDataVolumeID :: string

text \<open>The fields of \<^verbatim>\<open>compute.Op\<close> that this provider reads. The tags are a map given by its bindings.\<close>

record compute_op =
  coName :: string
  coSize :: string
  coImage :: string
  coSSHUser :: string
  coSSHPort :: int
  coSSHPrivateKeyPath :: string
  coSSHKeys :: "string list"
  coVPCID :: string
  coSubnetID :: string
  coSecurityGroupIDs :: "string list"
  coTags :: "(string \<times> string) list"
  coUserData :: string
  coProviderConfig :: "aws_create_config option"

definition dataVolumeDeviceName :: string where "dataVolumeDeviceName = ''/dev/xvdf''"

definition five_minutes :: int where "five_minutes = 5 * 60 * second"

text \<open>Sorting by a string key.\<close>

fun insert_by :: "('a \<Rightarrow> string) \<Rightarrow> 'a \<Rightarrow> 'a list \<Rightarrow> 'a list" where
  "insert_by f x [] = [x]"
| "insert_by f x (y # ys) = (if str_le (f x) (f y) then x # y # ys else y # insert_by f x ys)"

definition sort_by :: "('a \<Rightarrow> string) \<Rightarrow> 'a list \<Rightarrow> 'a list" where
  "sort_by f xs = foldr (insert_by f) xs []"

text \<open>The bindings of a map in the order of its keys.\<close>

definition sorted_bindings :: "(string \<times> string) list \<Rightarrow> (string \<times> string) list" where
  "sorted_bindings m = map (\<lambda>k. (k, the (map_of m k))) (sort_Strings (remdups (map fst m)))"

definition some_tags :: "(string \<times> string) list \<Rightarrow> tag list" where
  "some_tags = map (\<lambda>(k, v). (Some k, Some v))"

definition with_name :: "string \<Rightarrow> (string \<times> string) list \<Rightarrow> (string \<times> string) list" where
  "with_name name tags = (if name \<noteq> [] \<and> map_of tags ''Name'' = None then (''Name'', name) # tags else tags)"

definition buildTagSpecifications :: "compute_op \<Rightarrow> (string \<times> tag list) list" where
  "buildTagSpecifications op =
     (if coName op = [] \<and> coTags op = [] then []
      else (let tags = some_tags (sorted_bindings (with_name (coName op) (coTags op))) in
        (''instance'', tags) #
        (case coProviderConfig op of None \<Rightarrow> [] | Some cfg \<Rightarrow> if acDataVolumeSizeGB cfg > 0 then [(''volume'', tags)] else [])))"

text \<open>\<^verbatim>\<open>base64.StdEncoding\<close>.\<close>

definition b64_char :: "nat \<Rightarrow> char" where
  "b64_char k = (if k < 26 then char_of (k + 65) else if k < 52 then char_of (k + 71)
     else if k < 62 then char_of (k - 4) else if k = 62 then CHR ''+'' else CHR ''/'')"

fun EncodeToString :: "string \<Rightarrow> string" where
  "EncodeToString [] = []"
| "EncodeToString [a] = (let x = of_char a in [b64_char (x div 4), b64_char (x mod 4 * 16), CHR ''='', CHR ''=''])"
| "EncodeToString [a, b] = (let x = of_char a; y = of_char b in
     [b64_char (x div 4), b64_char (x mod 4 * 16 + y div 16), b64_char (y mod 16 * 4), CHR ''=''])"
| "EncodeToString (a # b # c # cs) = (let x = of_char a; y = of_char b; z = of_char c in
     [b64_char (x div 4), b64_char (x mod 4 * 16 + y div 16), b64_char (y mod 16 * 4 + z div 64), b64_char (z mod 64)] @
     EncodeToString cs)"

section \<open>Inventory\<close>

definition by_ids :: "string list \<Rightarrow> describe_input" where
  "by_ids ids = \<lparr>diInstanceIds = ids, diFilters = [], diNextToken = None\<rparr>"

definition GetEC2 :: "'w manager \<Rightarrow> string \<Rightarrow> (provider_error, ec2_info, 'w timed) prog" where
  "GetEC2 m iid0 =
     client (mgEC2 m) (PMsg ''aws: ec2 client is nil'') (\<lambda>c.
       (let iid = TrimSpace iid0 in
        if iid = [] then fail (PMsg ''aws: instance id is required'')
        else attempt (call (ecDescribeInstances c) (by_ids [iid])) (\<lambda>r. case r of
            Inl e \<Rightarrow> fail (if isInstanceNotFoundError e then PNotFound (''aws: describe instance '' @ iid) (Some e)
                           else PApi (''aws: describe instance '' @ iid) e)
          | Inr out \<Rightarrow>
              (case find (\<lambda>i. ToString (eiInstanceId i) = iid) (concat (doReservations out)) of
                 Some i \<Rightarrow> ok (instanceFromEC2 i)
               | None \<Rightarrow> fail (PNotFound (''aws: instance '' @ iid) None)))))"

text \<open>One page after another, until a page has no next token.\<close>

definition describe_pages :: "'w ec2API \<Rightarrow> string \<Rightarrow> (string \<times> string list) list \<Rightarrow>
    string option \<times> ec2_instance list \<Rightarrow> (provider_error + ec2_instance list, string option \<times> ec2_instance list, 'w timed) prog" where
  "describe_pages c msg filters ti =
     attempt (call (ecDescribeInstances c) \<lparr>diInstanceIds = [], diFilters = filters, diNextToken = fst ti\<rparr>) (\<lambda>r. case r of
        Inl e \<Rightarrow> fail (Inl (PApi msg e))
      | Inr out \<Rightarrow>
          (let found = snd ti @ concat (doReservations out) in
           if ToString (doNextToken out) = [] then fail (Inr found) else ok (doNextToken out, found)))"

definition describe_all :: "'w ec2API \<Rightarrow> string \<Rightarrow> (string \<times> string list) list \<Rightarrow> (provider_error, ec2_instance list, 'w timed) prog" where
  "describe_all c msg filters = iterate (describe_pages c msg filters) (None, [])"

definition ListEC2 :: "'w manager \<Rightarrow> (provider_error, ec2_info list, 'w timed) prog" where
  "ListEC2 m =
     client (mgEC2 m) (PMsg ''aws: ec2 client is nil'') (\<lambda>c.
     seq (describe_all c ''aws: list instances'' [(''instance-state-name'', [''pending'', ''running'', ''stopping'', ''stopped''])]) (\<lambda>found.
     ok (sort_by efID (map instanceFromEC2 (filter (\<lambda>i. ToString (eiInstanceId i) \<noteq> []) found)))))"

section \<open>Waiting\<close>

definition state_body :: "('e, ec2_info, 's) prog \<Rightarrow> (ec2_info \<Rightarrow> bool) \<Rightarrow> ('e \<Rightarrow> bool) \<Rightarrow> ('f + unit, unit, 's) prog" where
  "state_body get good gone = attempt get (\<lambda>r. case r of
      Inr inst \<Rightarrow> if good inst then fail (Inr ()) else ok ()
    | Inl e \<Rightarrow> if gone e then fail (Inr ()) else ok ())"

definition waitForRunningState :: "'w manager \<Rightarrow> string \<Rightarrow> int \<Rightarrow> (provider_error, unit, 'w timed) prog" where
  "waitForRunningState m iid timeout =
     at_time (\<lambda>now. poll (next_tick (mgWait m) (2 * second))
       (Some (now + timeout, \<lambda>_. give (Inl (PMsg (''aws: instance '' @ iid @ '' not running after '' @ duration_string timeout)))))
       (state_body (GetEC2 m iid) (\<lambda>i. efState i = InstanceStateRunning) (\<lambda>_. False))
       (\<lambda>e. Inl (PContext (''aws: wait for instance '' @ iid @ '' running'') e)))"

definition WaitForTerminated :: "'w manager \<Rightarrow> string \<Rightarrow> int \<Rightarrow> (provider_error, unit, 'w timed) prog" where
  "WaitForTerminated m iid timeout =
     at_time (\<lambda>now. poll (next_tick (mgWait m) (5 * second))
       (Some (now + timeout, \<lambda>_. give (Inl (PMsg (''aws: instance '' @ iid @ '' not terminated after '' @ duration_string timeout)))))
       (state_body (GetEC2 m iid) (\<lambda>i. efState i = InstanceStateTerminated) instance_not_found)
       (\<lambda>e. Inl (PContext (''aws: wait for instance '' @ iid @ '' terminated'') e)))"

definition available_body :: "'w ec2API \<Rightarrow> string \<Rightarrow> (provider_error + unit, unit, 'w timed) prog" where
  "available_body c volumeID = attempt (call (ecDescribeVolumes c) volumeID) (\<lambda>r. case r of
      Inr vs \<Rightarrow> if length vs = 1 \<and> snd (hd vs) = ''available'' then fail (Inr ()) else ok ()
    | Inl _ \<Rightarrow> ok ())"

definition waitForVolumeAvailable :: "'w manager \<Rightarrow> 'w ec2API \<Rightarrow> string \<Rightarrow> int \<Rightarrow> (provider_error, unit, 'w timed) prog" where
  "waitForVolumeAvailable m c volumeID timeout =
     at_time (\<lambda>now. poll (next_tick (mgWait m) (5 * second))
       (Some (now + timeout, \<lambda>_. give (Inl (PMsg (''aws: volume '' @ volumeID @ '' not available after '' @ duration_string timeout)))))
       (available_body c volumeID)
       (\<lambda>e. Inl (PContext (''aws: wait for volume '' @ volumeID @ '' available'') e)))"

definition volume_state_body :: "'w ec2API \<Rightarrow> string \<Rightarrow> string \<Rightarrow> (provider_error + unit, unit, 'w timed) prog" where
  "volume_state_body c volumeID want = attempt (call (ecDescribeVolumes c) volumeID) (\<lambda>r. case r of
      Inl e \<Rightarrow> fail (Inl (PApi (''aws: describe volume '' @ volumeID) e))
    | Inr vs \<Rightarrow> if list_ex (\<lambda>v. ToString (fst v) = volumeID \<and> snd v = want) vs then fail (Inr ()) else ok ())"

definition waitForVolumeState :: "'w manager \<Rightarrow> 'w ec2API \<Rightarrow> string \<Rightarrow> string \<Rightarrow> int \<Rightarrow> (provider_error, unit, 'w timed) prog" where
  "waitForVolumeState m c volumeID want timeout =
     at_time (\<lambda>now. poll (after (mgWait m) (2 * second))
       (Some (now + timeout, \<lambda>_. give (Inl (PMsg (''aws: volume '' @ volumeID @ '' never reached '' @ want)))))
       (volume_state_body c volumeID want) (\<lambda>e. Inl (PContext [] e)))"

section \<open>The network\<close>

definition resolveSubnet :: "'w ec2API \<Rightarrow> compute_op \<Rightarrow> (provider_error, string, 'w timed) prog" where
  "resolveSubnet c op =
     (if coSubnetID op \<noteq> [] then ok (coSubnetID op)
      else seq (wrap (PApi ''aws: describe subnets'') (call (ecDescribeSubnets c) (coVPCID op))) (\<lambda>subnets.
        if subnets = [] then fail (PMsg (''aws: no subnets found in vpc '' @ coVPCID op))
        else (case sort_Strings (List.map_filter fst subnets) of
                [] \<Rightarrow> fail (PMsg (''aws: no subnets with ids found in vpc '' @ coVPCID op))
              | s # _ \<Rightarrow> ok s)))"

definition resolveSecurityGroups :: "'w ec2API \<Rightarrow> compute_op \<Rightarrow> (provider_error, string list, 'w timed) prog" where
  "resolveSecurityGroups c op =
     (if coSecurityGroupIDs op \<noteq> [] then ok (coSecurityGroupIDs op)
      else seq (wrap (PApi ''aws: describe security groups'') (call (ecDescribeSecurityGroups c) (coVPCID op, ''default''))) (\<lambda>groups.
        (case groups of
           [] \<Rightarrow> fail (PMsg (''aws: no default security group found in vpc '' @ coVPCID op))
         | g # _ \<Rightarrow> if ToString g = [] then fail (PMsg (''aws: default security group missing id in vpc '' @ coVPCID op))
                    else ok [ToString g])))"

text \<open>Identifier and zone of each subnet.\<close>

definition SubnetInfosInVPC :: "'w manager \<Rightarrow> string \<Rightarrow> (provider_error, (string \<times> string) list, 'w timed) prog" where
  "SubnetInfosInVPC m vpcID =
     client (mgEC2 m) (PPanic ''nil ec2 client'') (\<lambda>c.
     seq (wrap (PApi (''aws: describe subnets in '' @ vpcID)) (call (ecDescribeSubnets c) vpcID)) (\<lambda>subnets.
     ok (filter (\<lambda>s. fst s \<noteq> []) (map (\<lambda>(iid, az). (ToString iid, ToString az)) subnets))))"

definition SubnetsInVPC :: "'w manager \<Rightarrow> string \<Rightarrow> (provider_error, string list, 'w timed) prog" where
  "SubnetsInVPC m vpcID = seq (SubnetInfosInVPC m vpcID) (\<lambda>infos. ok (map fst infos))"

definition otherSubnetIDs :: "'w manager \<Rightarrow> string \<Rightarrow> string \<Rightarrow> ('e, string list, 'w timed) prog" where
  "otherSubnetIDs m vpcID current =
     attempt (SubnetsInVPC m vpcID) (\<lambda>r. case r of Inl _ \<Rightarrow> ok [] | Inr ids \<Rightarrow> ok (filter (\<lambda>iid. iid \<noteq> current) ids))"

section \<open>Creating\<close>

definition validateCreateOp :: "compute_op \<Rightarrow> provider_error option" where
  "validateCreateOp op =
     (if coVPCID op = [] then Some (PMsg ''aws: vpc id is required'')
      else if coName op = [] then Some (PMsg ''aws: name is required'')
      else if coImage op = [] then Some (PMsg ''aws: image is required'')
      else if coSize op = [] then Some (PMsg ''aws: size is required'') else None)"

definition profile_of :: "string \<Rightarrow> iam_profile option" where
  "profile_of raw = (let profile = TrimSpace raw in
     if HasPrefix profile ''arn:'' then Some (ProfileArn profile) else if profile \<noteq> [] then Some (ProfileName profile) else None)"

definition run_input_of :: "compute_op \<Rightarrow> string \<Rightarrow> string list \<Rightarrow> run_input" where
  "run_input_of op subnetID groups =
     \<lparr>riImageId = Some (coImage op), riInstanceType = coSize op, riMinCount = 1, riMaxCount = 1, riSubnetId = Some subnetID,
      riPrivateIpAddress = (case coProviderConfig op of None \<Rightarrow> None
        | Some cfg \<Rightarrow> if acPrivateIPAddress cfg \<noteq> [] then Some (acPrivateIPAddress cfg) else None),
      riSecurityGroupIds = groups, riTagSpecifications = buildTagSpecifications op,
      riBlockDeviceMappings = (case coProviderConfig op of None \<Rightarrow> []
        | Some cfg \<Rightarrow> if acDataVolumeSizeGB cfg > 0 \<and> acDataVolumeID cfg = []
            then [\<lparr>dmDeviceName = dataVolumeDeviceName, dmVolumeSize = word_of_int (acDataVolumeSizeGB cfg), dmDeleteOnTermination = False\<rparr>] else []),
      riUserData = (if coUserData op \<noteq> [] then Some (EncodeToString (coUserData op)) else None),
      riKeyName = (case coSSHKeys op of [] \<Rightarrow> None | k # _ \<Rightarrow> Some k),
      riIamInstanceProfile = (case coProviderConfig op of None \<Rightarrow> None | Some cfg \<Rightarrow> profile_of (acIAMInstanceProfile cfg))\<rparr>"

definition buildRunInstancesInput :: "'w ec2API \<Rightarrow> compute_op \<Rightarrow> (provider_error, run_input, 'w timed) prog" where
  "buildRunInstancesInput c op =
     seq (resolveSubnet c op) (\<lambda>subnetID. seq (resolveSecurityGroups c op) (\<lambda>groups. ok (run_input_of op subnetID groups)))"

definition instanceInfoFromLaunch :: "ec2_instance \<Rightarrow> compute_op \<Rightarrow> ec2_info" where
  "instanceInfoFromLaunch i op = (instanceFromEC2 i)
     \<lparr>efSSH := \<lparr>scUser = (if coSSHUser op = [] then defaultSSHUser else coSSHUser op),
       scPort = (if coSSHPort op = 0 then 22 else coSSHPort op), scPrivateKeyPath = coSSHPrivateKeyPath op\<rparr>\<rparr>"

text \<open>The state of the launch loop: the options, the request, and the other subnets once they have been loaded.\<close>

type_synonym launch_state = "compute_op \<times> run_input \<times> string list option"

definition launch_body :: "'w manager \<Rightarrow> 'w ec2API \<Rightarrow> int \<Rightarrow> launch_state \<Rightarrow>
    (provider_error + ec2_instance list \<times> compute_op, launch_state, 'w timed) prog" where
  "launch_body m c deadline st =
     (case st of (op, input, loaded) \<Rightarrow>
      attempt (call (ecRunInstances c) input) (\<lambda>r. case r of
        Inr out \<Rightarrow> fail (Inr (out, op))
      | Inl e \<Rightarrow> at_time (\<lambda>now.
          if \<not> isInsufficientCapacityError e \<or> deadline < now then fail (Inl (PApi ''aws: run instances'' e))
          else seq (case loaded of Some alternates \<Rightarrow> ok alternates | None \<Rightarrow> otherSubnetIDs m (coVPCID op) (ToString (riSubnetId input))) (\<lambda>alternates.
            (case alternates of
               alt # others \<Rightarrow>
                 (let op1 = op\<lparr>coSubnetID := alt\<rparr> in
                  seq (wrap Inl (buildRunInstancesInput c op1)) (\<lambda>input1. ok (op1, input1, Some (others @ [alt]))))
             | [] \<Rightarrow>
                 seq (wrap (\<lambda>x. Inl (PContext ''aws: run instances'' x)) (sleep (mgWait m) (30 * second))) (\<lambda>_. ok (op, input, Some [])))))))"

text \<open>What follows the launch: the preserved data volume is attached to the new instance.\<close>

definition finish_create :: "'w ec2API \<Rightarrow> ec2_instance list \<times> compute_op \<Rightarrow> (provider_error, ec2_info, 'w timed) prog" where
  "finish_create c lo =
     (case lo of (out, op) \<Rightarrow>
       (case out of [] \<Rightarrow> fail (PMsg ''aws: run instances returned no instances'')
        | inst # _ \<Rightarrow>
            seq (case coProviderConfig op of
                   Some cfg \<Rightarrow> if acDataVolumeID cfg \<noteq> []
                     then wrap (PApi (''aws: attach data volume '' @ acDataVolumeID cfg @ '' to '' @ ToString (eiInstanceId inst)))
                            (call (ecAttachVolume c) (ToString (eiInstanceId inst), acDataVolumeID cfg, dataVolumeDeviceName))
                     else ok ()
                 | None \<Rightarrow> ok ()) (\<lambda>_. ok (instanceInfoFromLaunch inst op))))"

definition CreateEC2 :: "'w manager \<Rightarrow> compute_op \<Rightarrow> (provider_error, ec2_info, 'w timed) prog" where
  "CreateEC2 m op =
     client (mgEC2 m) (PMsg ''aws: ec2 client is nil'') (\<lambda>c.
     seq (check (validateCreateOp op)) (\<lambda>_.
     seq (buildRunInstancesInput c op) (\<lambda>input.
     at_time (\<lambda>now.
     seq (iterate (launch_body m c (now + 3 * 60 * second)) (op, input, None)) (finish_create c)))))"

section \<open>Deleting and power\<close>

definition DeleteEC2 :: "'w manager \<Rightarrow> string \<Rightarrow> (provider_error, DeleteResult, 'w timed) prog" where
  "DeleteEC2 m iid =
     client (mgEC2 m) (PMsg ''aws: ec2 client is nil'') (\<lambda>c.
       if TrimSpace iid = [] then fail (PMsg ''aws: instance id is required'')
       else seq (wrap (\<lambda>e. if isInstanceNotFoundError e then PNotFound (''aws: terminate instance '' @ iid) (Some e)
                           else PApi (''aws: terminate instance '' @ iid) e) (call (ecTerminateInstances c) iid)) (\<lambda>_.
            ok \<lparr>drID = iid, drDeleted = True\<rparr>))"

definition StopEC2 :: "'w manager \<Rightarrow> string \<Rightarrow> (provider_error, unit, 'w timed) prog" where
  "StopEC2 m iid =
     client (mgEC2 m) (PMsg ''aws: ec2 client is nil'') (\<lambda>c.
       if TrimSpace iid = [] then fail (PMsg ''aws: instance id is required'')
       else wrap (PApi (''aws: stop instance '' @ iid)) (call (ecStopInstances c) iid))"

definition StartEC2 :: "'w manager \<Rightarrow> string \<Rightarrow> (provider_error, unit, 'w timed) prog" where
  "StartEC2 m iid =
     client (mgEC2 m) (PMsg ''aws: ec2 client is nil'') (\<lambda>c.
       if TrimSpace iid = [] then fail (PMsg ''aws: instance id is required'')
       else wrap (PApi (''aws: start instance '' @ iid)) (call (ecStartInstances c) iid))"

section \<open>Replacing a machine\<close>

text \<open>The data volume of an instance: of the mappings of the device with a volume, the last one.\<close>

definition data_volume_of :: "ec2_instance \<Rightarrow> string" where
  "data_volume_of i = fold (\<lambda>b v. if ToString (fst b) = dataVolumeDeviceName then (case snd b of Some ebs \<Rightarrow> ToString ebs | None \<Rightarrow> v) else v)
     (eiBlockDeviceMappings i) []"

definition kept_tags :: "ec2_instance \<Rightarrow> tag list" where
  "kept_tags i = sort_by (\<lambda>t. ToString (fst t))
     (map (\<lambda>t. (Some (ToString (fst t)), snd t))
       (filter (\<lambda>t. ToString (fst t) \<noteq> [] \<and> \<not> HasPrefix (ToString (fst t)) ''aws:'') (eiTags i)))"

text \<open>The launch input of the replacement, and the data volume to reattach.\<close>

definition replacement_input :: "ec2_instance \<Rightarrow> run_input" where
  "replacement_input i =
     \<lparr>riImageId = eiImageId i, riInstanceType = eiInstanceType i, riMinCount = 1, riMaxCount = 1, riSubnetId = eiSubnetId i,
      riPrivateIpAddress = eiPrivateIpAddress i,
      riSecurityGroupIds = sort_Strings (filter (\<lambda>g. g \<noteq> []) (map ToString (eiSecurityGroups i))),
      riTagSpecifications = [(''instance'', kept_tags i)], riBlockDeviceMappings = [], riUserData = None,
      riKeyName = (if ToString (eiKeyName i) \<noteq> [] then Some (ToString (eiKeyName i)) else None),
      riIamInstanceProfile = (case eiIamInstanceProfile i of None \<Rightarrow> None
        | Some arn \<Rightarrow> if ToString arn \<noteq> [] then Some (ProfileArn (ToString arn)) else None)\<rparr>"

text \<open>The last instance with an identifier.\<close>

fun last_match :: "string \<Rightarrow> ec2_instance list \<Rightarrow> ec2_instance option" where
  "last_match iid [] = None"
| "last_match iid (i # is) = (case last_match iid is of Some j \<Rightarrow> Some j
     | None \<Rightarrow> if ToString (eiInstanceId i) = iid then Some i else None)"

definition launchSpecForReplace :: "'w ec2API \<Rightarrow> string \<Rightarrow> (provider_error, run_input \<times> string, 'w timed) prog" where
  "launchSpecForReplace c iid =
     seq (wrap (PApi (''aws: describe instance '' @ iid @ '' for replacement'')) (call (ecDescribeInstances c) (by_ids [iid]))) (\<lambda>out.
       (case last_match iid (concat (doReservations out)) of
          None \<Rightarrow> fail (PMsg (''aws: instance '' @ iid @ '' not found for replacement''))
        | Some i \<Rightarrow>
            if ToString (eiPrivateIpAddress i) = [] then fail (PMsg (''aws: instance '' @ iid @ '' has no private IPv4 address to preserve''))
            else ok (replacement_input i, data_volume_of i)))"

definition relaunch_body :: "'w ec2API \<Rightarrow> string \<Rightarrow> run_input \<Rightarrow> (provider_error + ec2_instance list, api_error, 'w timed) prog" where
  "relaunch_body c iid input = attempt (call (ecRunInstances c) input) (\<lambda>r. case r of
      Inr out \<Rightarrow> fail (Inr out)
    | Inl e \<Rightarrow> if \<not> isIPAddressInUseError e then fail (Inl (PApi (''aws: relaunch replacement for '' @ iid) e)) else ok e)"

definition relaunch :: "'w manager \<Rightarrow> 'w ec2API \<Rightarrow> string \<Rightarrow> run_input \<Rightarrow> (provider_error, ec2_instance list, 'w timed) prog" where
  "relaunch m c iid input =
     at_time (\<lambda>now. poll (after (mgWait m) (5 * second))
       (Some (now + 3 * 60 * second, \<lambda>e. give (Inl (PApi (''aws: private IP '' @ ToString (riPrivateIpAddress input) @
          '' still in use 3 minutes after '' @ iid @ '' terminated'') e))))
       (relaunch_body c iid input) (\<lambda>e. Inl (PContext (''aws: relaunch replacement for '' @ iid) e)))"

text \<open>Reattaching the volume; a failure terminates the replacement.\<close>

definition reattach :: "'w manager \<Rightarrow> 'w ec2API \<Rightarrow> string \<Rightarrow> string \<Rightarrow> (provider_error, unit, 'w timed) prog" where
  "reattach m c volume newID =
     attempt (waitForRunningState m newID five_minutes) (\<lambda>r. case r of
        Inl e \<Rightarrow> attempt (call (ecTerminateInstances c) newID) (\<lambda>_. fail e)
      | Inr _ \<Rightarrow> attempt (call (ecAttachVolume c) (newID, volume, dataVolumeDeviceName)) (\<lambda>a. case a of
            Inl e \<Rightarrow> attempt (call (ecTerminateInstances c) newID) (\<lambda>_.
                       fail (PApi (''aws: attach preserved data volume '' @ volume @ '' to '' @ newID) e))
          | Inr _ \<Rightarrow> ok ()))"

definition launch_replacement :: "'w manager \<Rightarrow> 'w ec2API \<Rightarrow> string \<Rightarrow> run_input \<Rightarrow> string \<Rightarrow>
    (provider_error, ReplaceResult, 'w timed) prog" where
  "launch_replacement m c iid input volume =
     seq (relaunch m c iid input) (\<lambda>out.
       (case out of [] \<Rightarrow> fail (PMsg ''aws: run instances returned no instances'')
        | new # _ \<Rightarrow>
            seq (if volume \<noteq> [] then reattach m c volume (ToString (eiInstanceId new)) else ok ()) (\<lambda>_.
            ok \<lparr>rrPreviousID = iid, rrGroup = [], rrID = ToString (eiInstanceId new)\<rparr>)))"

definition replaceStandalone :: "'w manager \<Rightarrow> string \<Rightarrow> (provider_error, ReplaceResult, 'w timed) prog" where
  "replaceStandalone m iid =
     client (mgEC2 m) (PMsg ''aws: ec2 client is nil'') (\<lambda>c.
     seq (launchSpecForReplace c iid) (\<lambda>(input, volume).
     seq (wrap (PApi (''aws: terminate instance '' @ iid @ '' for replacement'')) (call (ecTerminateInstances c) iid)) (\<lambda>_.
     seq (WaitForTerminated m iid five_minutes) (\<lambda>_.
     seq (if volume \<noteq> [] then waitForVolumeAvailable m c volume five_minutes else ok ()) (\<lambda>_.
     launch_replacement m c iid input volume)))))"

text \<open>\<^verbatim>\<open>strings.EqualFold\<close> with the lifecycle states of the API, which are ASCII.\<close>

definition ReplaceMachineEC2 :: "'w manager \<Rightarrow> string \<Rightarrow> (provider_error, ReplaceResult, 'w timed) prog" where
  "ReplaceMachineEC2 m iid0 =
     (let iid = TrimSpace iid0 in
      if iid = [] then fail (PMsg ''aws: instance id is required'')
      else (case mgASG m of
          None \<Rightarrow> replaceStandalone m iid
        | Some a \<Rightarrow> attempt (call (agDescribeAutoScalingInstances a) iid) (\<lambda>r. case r of
              Inl e \<Rightarrow> if mgEC2 m \<noteq> None then replaceStandalone m iid
                       else fail (PApi (''aws: describe ASG membership for instance '' @ iid) e)
            | Inr members \<Rightarrow>
                if length members \<noteq> 1 \<or> TrimSpace (ToString (amInstanceId (hd members))) \<noteq> iid \<or>
                   TrimSpace (ToString (amGroupName (hd members))) = []
                then replaceStandalone m iid
                else (let lifecycle = TrimSpace (ToString (amLifecycleState (hd members))) in
                  if to_lower lifecycle \<noteq> ''inservice''
                  then fail (PNotSupported (''aws: instance '' @ iid @ '' lifecycle state '' @ lifecycle @ '' cannot be replaced''))
                  else seq (wrap (PApi (''aws: replace ASG instance '' @ iid)) (call (agTerminateInstance a) (iid, False))) (\<lambda>_.
                       ok \<lparr>rrPreviousID = iid, rrGroup = TrimSpace (ToString (amGroupName (hd members))), rrID = []\<rparr>)))))"

section \<open>Data volumes\<close>

definition CreateDataVolume :: "'w manager \<Rightarrow> string \<Rightarrow> 32 word \<Rightarrow> string \<Rightarrow> (provider_error, string, 'w timed) prog" where
  "CreateDataVolume m az sizeGB cluster =
     client (mgEC2 m) (PMsg ''aws: ec2 client is nil'') (\<lambda>c.
     seq (wrap (PApi (''aws: create data volume in '' @ az))
       (call (ecCreateVolume c) \<lparr>viAvailabilityZone = az, viSize = sizeGB, viTags = [(''etcd-infra.cluster'', cluster)]\<rparr>)) (\<lambda>out.
     seq (waitForVolumeAvailable m c (ToString out) five_minutes) (\<lambda>_. ok (ToString out))))"

definition AttachDataVolume :: "'w manager \<Rightarrow> string \<Rightarrow> string \<Rightarrow> string \<Rightarrow> (provider_error, unit, 'w timed) prog" where
  "AttachDataVolume m volumeID instanceID device =
     client (mgEC2 m) (PMsg ''aws: ec2 client is nil'') (\<lambda>c.
     seq (wrap (PApi (''aws: attach data volume '' @ volumeID @ '' to '' @ instanceID)) (call (ecAttachVolume c) (instanceID, volumeID, device))) (\<lambda>_.
     waitForVolumeState m c volumeID ''in-use'' five_minutes))"

definition DetachDataVolume :: "'w manager \<Rightarrow> string \<Rightarrow> (provider_error, unit, 'w timed) prog" where
  "DetachDataVolume m volumeID =
     client (mgEC2 m) (PMsg ''aws: ec2 client is nil'') (\<lambda>c.
     seq (wrap (PApi (''aws: detach data volume '' @ volumeID)) (call (ecDetachVolume c) volumeID)) (\<lambda>_.
     waitForVolumeAvailable m c volumeID five_minutes))"

text \<open>The zone of the first instance that has one; an instance without placement is the use of a nil pointer.\<close>

fun first_zone :: "string \<Rightarrow> ec2_instance list \<Rightarrow> provider_error + string" where
  "first_zone iid [] = Inl (PMsg (''aws: instance '' @ iid @ '' not found''))"
| "first_zone iid (i # is) = (case eiPlacement i of
     None \<Rightarrow> Inl (PPanic ''nil placement'')
   | Some az \<Rightarrow> if ToString az \<noteq> [] then Inr (ToString az) else first_zone iid is)"

definition InstanceAZ :: "'w manager \<Rightarrow> string \<Rightarrow> (provider_error, string, 'w timed) prog" where
  "InstanceAZ m iid =
     client (mgEC2 m) (PMsg ''aws: ec2 client is nil'') (\<lambda>c.
     seq (wrap (PApi (''aws: describe instance '' @ iid)) (call (ecDescribeInstances c) (by_ids [iid]))) (\<lambda>out.
     (case first_zone iid (concat (doReservations out)) of Inl e \<Rightarrow> fail e | Inr az \<Rightarrow> ok az)))"

fun delete_listed :: "'w manager \<Rightarrow> 'w ec2API \<Rightarrow> string \<Rightarrow> (string option \<times> string) list \<Rightarrow> (provider_error, unit, 'w timed) prog" where
  "delete_listed m c volumeID [] = ok ()"
| "delete_listed m c volumeID (v # vs) =
     (if ToString (fst v) \<noteq> volumeID \<or> snd v = ''deleted'' then delete_listed m c volumeID vs
      else seq (if snd v \<noteq> ''available'' then waitForVolumeAvailable m c volumeID five_minutes else ok ()) (\<lambda>_.
        attempt (call (ecDeleteVolume c) volumeID) (\<lambda>r. case r of
            Inl e \<Rightarrow> if isVolumeNotFoundError e then delete_listed m c volumeID vs
                     else fail (PApi (''aws: delete data volume '' @ volumeID) e)
          | Inr _ \<Rightarrow> delete_listed m c volumeID vs)))"

definition DeleteDataVolume :: "'w manager \<Rightarrow> string \<Rightarrow> (provider_error, unit, 'w timed) prog" where
  "DeleteDataVolume m volumeID0 =
     client (mgEC2 m) (PMsg ''aws: ec2 client is nil'') (\<lambda>c.
       (let volumeID = TrimSpace volumeID0 in
        if volumeID = [] then fail (PMsg ''aws: volume id is required'')
        else attempt (call (ecDescribeVolumes c) volumeID) (\<lambda>r. case r of
            Inl e \<Rightarrow> if isVolumeNotFoundError e then ok () else fail (PApi (''aws: describe data volume '' @ volumeID) e)
          | Inr vs \<Rightarrow> delete_listed m c volumeID vs)))"

definition DataVolumeID :: "'w manager \<Rightarrow> string \<Rightarrow> (provider_error, string, 'w timed) prog" where
  "DataVolumeID m iid =
     client (mgEC2 m) (PMsg ''aws: ec2 client is nil'') (\<lambda>c.
     seq (wrap (PApi (''aws: describe instance '' @ iid)) (call (ecDescribeInstances c) (by_ids [iid]))) (\<lambda>out.
       (case find (\<lambda>i. ToString (eiInstanceId i) = iid) (concat (doReservations out)) of
          None \<Rightarrow> fail (PMsg (''aws: instance '' @ iid @ '' not found''))
        | Some i \<Rightarrow> ok (case find (\<lambda>b. ToString (fst b) = dataVolumeDeviceName \<and> snd b \<noteq> None) (eiBlockDeviceMappings i) of
              Some b \<Rightarrow> (case snd b of Some ebs \<Rightarrow> ToString ebs | None \<Rightarrow> []) | None \<Rightarrow> []))))"

section \<open>Readiness and groups\<close>

definition instanceIsReady :: "'w manager \<Rightarrow> ec2_info \<Rightarrow> ('e, bool, 'w timed) prog" where
  "instanceIsReady m inst =
     (if efState inst \<noteq> InstanceStateRunning then ok False
      else if mgSSM m = None then ok True
      else attempt (RunCommandEC2 m inst [''echo'', ''ready'']) (\<lambda>r. ok (case r of Inl _ \<Rightarrow> False | Inr _ \<Rightarrow> True)))"

definition ready_body :: "'w manager \<Rightarrow> string \<Rightarrow> (provider_error + ec2_info, unit, 'w timed) prog" where
  "ready_body m iid = attempt (GetEC2 m iid) (\<lambda>r. case r of
      Inl _ \<Rightarrow> ok () | Inr inst \<Rightarrow> seq (instanceIsReady m inst) (\<lambda>ready. if ready then fail (Inr inst) else ok ()))"

definition WaitForReady :: "'w manager \<Rightarrow> string \<Rightarrow> int \<Rightarrow> (provider_error, ec2_info, 'w timed) prog" where
  "WaitForReady m iid0 timeout =
     client (mgEC2 m) (PMsg ''aws: ec2 client is nil'') (\<lambda>c.
       (let iid = TrimSpace iid0 in
        if iid = [] then fail (PMsg ''aws: instance id is required'')
        else at_time (\<lambda>now. poll (next_tick (mgWait m) (5 * second))
          (Some (now + timeout, \<lambda>_. give (Inl (PMsg (''aws: instance '' @ iid @ '' not ready after '' @ duration_string timeout)))))
          (ready_body m iid) (\<lambda>e. Inl (PContext (''aws: wait for instance '' @ iid @ '' ready'') e)))))"

definition MaxInt32 :: int where "MaxInt32 = 2 ^ 31 - 1"

definition no_asg :: provider_error where "no_asg = PNotSupported ''aws group-scaling (no ASG client)''"

definition SetDesiredCapacity :: "'w manager \<Rightarrow> string \<Rightarrow> int \<Rightarrow> int \<Rightarrow> int \<Rightarrow> (provider_error, unit, 'w timed) prog" where
  "SetDesiredCapacity m grp desired minCapacity maxCapacity =
     client (mgASG m) no_asg (\<lambda>a.
       if TrimSpace grp = [] then fail (PMsg ''aws: group handle is required'')
       else if minCapacity < 0 \<or> desired < 0 \<or> maxCapacity < 0 \<or> minCapacity > MaxInt32 \<or> desired > MaxInt32 \<or> maxCapacity > MaxInt32
       then fail (PMsg ''aws: capacity value out of valid int32 range'')
       else wrap (PApi (''aws: set ASG '' @ grp @ '' capacity'')) (call (agUpdateAutoScalingGroup a)
         \<lparr>auGroupName = grp, auMinSize = word_of_int minCapacity, auDesiredCapacity = word_of_int desired, auMaxSize = word_of_int maxCapacity\<rparr>))"

definition ready_member :: "asg_instance \<Rightarrow> bool" where
  "ready_member i =
     (let lifecycle = to_lower (agLifecycleState i); health = to_lower (TrimSpace (ToString (agHealthStatus i))) in
      TrimSpace (ToString (agInstanceId i)) \<noteq> [] \<and> (lifecycle = [] \<or> lifecycle = ''inservice'') \<and> (health = [] \<or> health = ''healthy''))"

definition ready_ids :: "asg_group \<Rightarrow> string list" where
  "ready_ids g = sort_Strings (map (\<lambda>i. TrimSpace (ToString (agInstanceId i))) (filter ready_member (asInstancesOf g)))"

definition queryReadyInstances :: "'w asgAPI \<Rightarrow> string \<Rightarrow> ('e, string list, 'w timed) prog" where
  "queryReadyInstances a groupName = attempt (call (agDescribeAutoScalingGroups a) groupName) (\<lambda>r. case r of
      Inr (g # _) \<Rightarrow> ok (ready_ids g) | _ \<Rightarrow> ok [])"

definition WaitForDesiredCapacity :: "'w manager \<Rightarrow> string \<Rightarrow> int \<Rightarrow> int \<Rightarrow> (provider_error, string list, 'w timed) prog" where
  "WaitForDesiredCapacity m grp expected timeout =
     client (mgASG m) no_asg (\<lambda>a.
       (let groupName = TrimSpace grp in
        if groupName = [] then fail (PMsg ''aws: group handle is required'')
        else if expected \<le> 0 then ok []
        else at_time (\<lambda>now. poll (next_tick (mgWait m) (10 * second))
          (Some (now + timeout, \<lambda>_. give (Inl (PMsg (''aws: timed out waiting for '' @ show_int expected @ '' instances in ASG '' @ groupName)))))
          (seq (queryReadyInstances a groupName) (\<lambda>ids. if int (length ids) \<ge> expected then fail (Inr (take (nat expected) ids)) else ok ()))
          (\<lambda>e. Inl (PContext (''aws: wait for ASG '' @ groupName @ '' capacity'') e)))))"

definition WaitForZeroCapacity :: "'w manager \<Rightarrow> string \<Rightarrow> int \<Rightarrow> (provider_error, unit, 'w timed) prog" where
  "WaitForZeroCapacity m grp timeout =
     client (mgASG m) no_asg (\<lambda>a.
       (let groupName = TrimSpace grp in
        if groupName = [] then fail (PMsg ''aws: group handle is required'')
        else at_time (\<lambda>now. poll (next_tick (mgWait m) (10 * second))
          (Some (now + timeout, \<lambda>_. give (Inl (PMsg (''aws: timed out waiting for zero capacity in ASG '' @ groupName)))))
          (attempt (call (agDescribeAutoScalingGroups a) groupName) (\<lambda>r. case r of
             Inr (g # _) \<Rightarrow> if asInstancesOf g = [] then fail (Inr ()) else ok () | _ \<Rightarrow> ok ()))
          (\<lambda>e. Inl (PContext (''aws: wait for ASG '' @ groupName @ '' zero capacity'') e)))))"

section \<open>Parameters and identity\<close>

definition ubuntuVolumeTypes :: "string \<rightharpoonup> string" where
  "ubuntuVolumeTypes = map_of [(''22.04'', ''ebs-gp2''), (''24.04'', ''ebs-gp3''), (''26.04'', ''ebs-gp3'')]"

definition UbuntuAMIParameter :: "string \<Rightarrow> string \<Rightarrow> provider_error + string" where
  "UbuntuAMIParameter release arch =
     (case ubuntuVolumeTypes release of
        None \<Rightarrow> Inl (PMsg (''aws: unsupported Ubuntu release '' @ release @ '' (supported: 22.04, 24.04, 26.04)''))
      | Some vol \<Rightarrow>
          if arch \<noteq> ''amd64'' \<and> arch \<noteq> ''arm64'' then Inl (PMsg (''aws: unsupported Ubuntu architecture '' @ arch @ '' (amd64 or arm64)''))
          else Inr (''/aws/service/canonical/ubuntu/server/'' @ release @ ''/stable/current/'' @ arch @ ''/hvm/'' @ vol @ ''/ami-id''))"

definition ResolveSSMParameter :: "'w manager \<Rightarrow> string \<Rightarrow> (provider_error, string, 'w timed) prog" where
  "ResolveSSMParameter m name =
     client (mgSSM m) (PMsg ''aws: ssm client is nil'') (\<lambda>s.
     seq (wrap (PApi (''aws: get ssm parameter '' @ name)) (call (smGetParameters s) name)) (\<lambda>parameters.
       (case find (\<lambda>p. ToString (fst p) = name) parameters of
          None \<Rightarrow> fail (PMsg (''aws: ssm parameter '' @ name @ '' not found in this region''))
        | Some p \<Rightarrow> if TrimSpace (ToString (snd p)) = [] then fail (PMsg (''aws: ssm parameter '' @ name @ '' is empty''))
                    else ok (TrimSpace (ToString (snd p))))))"

record CallerIdentity =
  idAccount :: string
  idARN :: string
  idPartition :: string

text \<open>\<^verbatim>\<open>strings.SplitN(arn, ":", 3)\<close> has three parts when there are two colons.\<close>

definition callerIdentity :: "'w manager \<Rightarrow> (provider_error, CallerIdentity, 'w timed) prog" where
  "callerIdentity m =
     client (mgSTS m) (PMsg ''aws: sts client is nil'') (\<lambda>s.
     seq (wrap (PApi ''aws: get caller identity'') (call s ())) (\<lambda>out.
       (let account = ToString (ciAccount out); arn = ToString (ciArn out); parts = Split CHR '':'' arn in
        if account = [] then fail (PMsg ''aws: caller identity has no account'')
        else if length parts \<ge> 3 \<and> parts ! 0 = ''arn'' \<and> parts ! 1 \<noteq> [] then ok \<lparr>idAccount = account, idARN = arn, idPartition = parts ! 1\<rparr>
        else fail (PMsg (''aws: caller identity has malformed ARN '' @ arn)))))"

definition AccountID :: "'w manager \<Rightarrow> (provider_error, string, 'w timed) prog" where
  "AccountID m = seq (callerIdentity m) (\<lambda>iid. ok (idAccount iid))"

end
