(* ===== verification/Ec2Safety.thy ===== *)
theory Ec2Safety
  imports Effects Ec2Provider
begin

text \<open>
  What the EC2 provider does to the cloud. The clients are instrumented with a log of the calls that
  change something (\<open>Effects\<close>): \<open>logged\<close> wraps the whole manager. A program is \<open>quiet\<close> when it leaves
  the log alone; quietness follows the structure of the program. The theorems say which instances a
  replacement, a creation or a command can have launched or terminated, that the waits return, and
  what reaches the remote shell.
\<close>

section \<open>The log\<close>

datatype cloud_event = EvLaunch run_input "string list" | EvTerminate string | EvAttach string string bool
  | EvSend string string | EvGroupTerminate string bool | EvCapacity asg_update

definition logged_ec2 :: "'w ec2API \<Rightarrow> ('w \<times> cloud_event list) ec2API" where
  "logged_ec2 c =
     \<lparr>ecRunInstances = noting (\<lambda>x r. case r of Inl _ \<Rightarrow> [] | Inr out \<Rightarrow> [EvLaunch x (map (\<lambda>i. ToString (eiInstanceId i)) out)]) (ecRunInstances c),
      ecTerminateInstances = noting (\<lambda>x _. [EvTerminate x]) (ecTerminateInstances c),
      ecStopInstances = unnoted (ecStopInstances c), ecStartInstances = unnoted (ecStartInstances c),
      ecDescribeSubnets = unnoted (ecDescribeSubnets c), ecDescribeSecurityGroups = unnoted (ecDescribeSecurityGroups c),
      ecDescribeInstances = unnoted (ecDescribeInstances c),
      ecAttachVolume = noting (\<lambda>(i, v, _) r. [EvAttach i v (case r of Inl _ \<Rightarrow> False | Inr _ \<Rightarrow> True)]) (ecAttachVolume c),
      ecCreateVolume = unnoted (ecCreateVolume c), ecDetachVolume = unnoted (ecDetachVolume c),
      ecDeleteVolume = unnoted (ecDeleteVolume c), ecDescribeVolumes = unnoted (ecDescribeVolumes c)\<rparr>"

definition logged_ssm :: "'w ssmAPI \<Rightarrow> ('w \<times> cloud_event list) ssmAPI" where
  "logged_ssm s =
     \<lparr>smSendCommand = noting (\<lambda>x _. [EvSend (siInstanceId x) (siCommand x)]) (smSendCommand s),
      smGetCommandInvocation = unnoted (smGetCommandInvocation s), smGetParameters = unnoted (smGetParameters s)\<rparr>"

definition logged_asg :: "'w asgAPI \<Rightarrow> ('w \<times> cloud_event list) asgAPI" where
  "logged_asg a =
     \<lparr>agDescribeAutoScalingGroups = unnoted (agDescribeAutoScalingGroups a),
      agDescribeAutoScalingInstances = unnoted (agDescribeAutoScalingInstances a),
      agUpdateAutoScalingGroup = noting (\<lambda>x _. [EvCapacity x]) (agUpdateAutoScalingGroup a),
      agTerminateInstance = noting (\<lambda>(i, d) _. [EvGroupTerminate i d]) (agTerminateInstance a)\<rparr>"

definition unlogged_lt :: "'w launchTemplateAPI \<Rightarrow> ('w \<times> cloud_event list) launchTemplateAPI" where
  "unlogged_lt l = \<lparr>ltCreateLaunchTemplate = unnoted (ltCreateLaunchTemplate l), ltDeleteLaunchTemplate = unnoted (ltDeleteLaunchTemplate l),
     ltDescribeLaunchTemplates = unnoted (ltDescribeLaunchTemplates l), ltDescribeVpcs = unnoted (ltDescribeVpcs l)\<rparr>"

definition unlogged_groups :: "'w groupAPI \<Rightarrow> ('w \<times> cloud_event list) groupAPI" where
  "unlogged_groups g = \<lparr>gaCreateAutoScalingGroup = unnoted (gaCreateAutoScalingGroup g),
     gaDeleteAutoScalingGroup = unnoted (gaDeleteAutoScalingGroup g), gaSuspendProcesses = unnoted (gaSuspendProcesses g),
     gaDescribeAutoScalingGroups = unnoted (gaDescribeAutoScalingGroups g),
     gaDescribeScalingActivities = unnoted (gaDescribeScalingActivities g)\<rparr>"

definition logged :: "'w manager \<Rightarrow> ('w \<times> cloud_event list) manager" where
  "logged m = \<lparr>mgEC2 = map_option logged_ec2 (mgEC2 m), mgSSM = map_option logged_ssm (mgSSM m),
     mgASG = map_option logged_asg (mgASG m), mgSTS = map_option unnoted (mgSTS m), mgLT = map_option unlogged_lt (mgLT m),
     mgGroups = map_option unlogged_groups (mgGroups m), mgWait = logged_wait (mgWait m)\<rparr>"

definition launched :: "cloud_event list \<Rightarrow> string list" where
  "launched es = concat (map (\<lambda>e. case e of EvLaunch _ ids \<Rightarrow> ids | _ \<Rightarrow> []) es)"

definition terminated :: "cloud_event list \<Rightarrow> string list" where
  "terminated es = concat (map (\<lambda>e. case e of EvTerminate i \<Rightarrow> [i] | _ \<Rightarrow> []) es)"

lemma launched_simps [simp]: "launched [] = []" "launched (EvLaunch x ids # es) = ids @ launched es"
    "launched (EvTerminate i # es) = launched es" "launched (EvAttach i v b # es) = launched es"
    "launched (EvGroupTerminate i d # es) = launched es"
  and terminated_simps [simp]: "terminated [] = []" "terminated (EvLaunch x ids # es) = terminated es"
    "terminated (EvTerminate i # es) = i # terminated es" "terminated (EvAttach i v b # es) = terminated es"
    "terminated (EvGroupTerminate i d # es) = terminated es"
  by (simp_all add: launched_def terminated_def)

lemma logged_clients_sel [simp]:
  "mgEC2 (logged m) = map_option logged_ec2 (mgEC2 m)" "mgSSM (logged m) = map_option logged_ssm (mgSSM m)"
  "mgASG (logged m) = map_option logged_asg (mgASG m)" "mgWait (logged m) = logged_wait (mgWait m)"
  by (simp_all add: logged_def)

section \<open>Reading is quiet\<close>

lemma logged_ec2_sel [simp]:
  "ecDescribeInstances (logged_ec2 c) = unnoted (ecDescribeInstances c)"
  "ecDescribeVolumes (logged_ec2 c) = unnoted (ecDescribeVolumes c)"
  "ecDescribeSubnets (logged_ec2 c) = unnoted (ecDescribeSubnets c)"
  "ecDescribeSecurityGroups (logged_ec2 c) = unnoted (ecDescribeSecurityGroups c)"
  by (simp_all add: logged_ec2_def)

lemma quiet_GetEC2 [emits_intros]: "quiet (GetEC2 (logged m) iid)"
  unfolding GetEC2_def Let_def logged_clients_sel by (intro emits_intros | simp add: emits_intros)+

lemma quiet_state_body [emits_intros]: "quiet get \<Longrightarrow> quiet (state_body get good gone)"
  unfolding state_body_def by (intro emits_intros | simp add: emits_intros)+

lemma quiet_waiting [emits_intros]:
  "quiet (waitForRunningState (logged m) iid t)" "quiet (WaitForTerminated (logged m) iid t)"
  "quiet (waitForVolumeAvailable (logged m) (logged_ec2 c) v t)"
  "quiet (waitForVolumeState (logged m) (logged_ec2 c) v want t)"
  unfolding waitForRunningState_def WaitForTerminated_def waitForVolumeAvailable_def waitForVolumeState_def
    available_body_def volume_state_body_def logged_clients_sel logged_ec2_sel
  by (auto intro!: emits_intros)

section \<open>Replacing a machine\<close>

text \<open>EC2 launches at most the requested number of instances, one.\<close>

definition single_launch :: "'w ec2API \<Rightarrow> bool" where
  "single_launch c \<longleftrightarrow> (\<forall>x w out k w'. ecRunInstances c x w = (Inr out, k, w') \<longrightarrow> riMaxCount x = 1 \<longrightarrow> length out \<le> 1)"

lemma single_launchD: "single_launch c \<Longrightarrow> ecRunInstances c x w = (Inr out, k, w') \<Longrightarrow> riMaxCount x = 1 \<Longrightarrow> length out \<le> 1"
  unfolding single_launch_def by blast

lemma relaunch_wp:
  assumes "single_launch c" "riMaxCount input = 1"
  shows "wp True (relaunch (logged m) (logged_ec2 c) iid input) (\<lambda>r s'. case r of Inl _ \<Rightarrow> log_of s' = log_of s
     | Inr out \<Rightarrow> log_of s' = log_of s @ [EvLaunch input (map (\<lambda>i. ToString (eiInstanceId i)) out)] \<and> length out \<le> 1) s"
  unfolding relaunch_def wp_at_time wp_def [of True "poll _ _ _ _"]
proof (rule wp_poll [where I = "\<lambda>u. log_of u = log_of s" and J = "\<lambda>_ _. True"])
  show "wait_keeps (after (mgWait (logged m)) (5 * second)) (\<lambda>u. log_of u = log_of s)" unfolding logged_clients_sel by (rule emits_waits)
next
  fix u :: "('a, cloud_event) noted"
  assume u: "log_of u = log_of s"
  show "wp True (relaunch_body (logged_ec2 c) iid input)
     (\<lambda>x u'. case x of Inl r \<Rightarrow> (case r of Inl _ \<Rightarrow> log_of u' = log_of s
        | Inr out \<Rightarrow> log_of u' = log_of s @ [EvLaunch input (map (\<lambda>i. ToString (eiInstanceId i)) out)] \<and> length out \<le> 1)
      | Inr i \<Rightarrow> log_of u' = log_of s \<and> True) u"
    unfolding relaunch_body_def wp_attempt logged_ec2_def ec2API.simps
    by (rule wp_noted) (use assms single_launchD in \<open>fastforce simp: u wp_ok wp_fail split: sum.split\<close>)
qed (auto simp: give_def)

text \<open>A log without a launch.\<close>

definition unlaunched :: "cloud_event list \<Rightarrow> bool" where
  "unlaunched es \<longleftrightarrow> (\<forall>x ids. EvLaunch x ids \<notin> set es)"

lemma unlaunched_Nil [simp]: "unlaunched []"
  by (simp add: unlaunched_def)

lemma unlaunched_launched: "unlaunched es \<Longrightarrow> launched es = []"
  by (auto simp: unlaunched_def launched_def split: cloud_event.splits)

lemma reattach_wp:
  "wp True (reattach (logged m) (logged_ec2 c) v new) (\<lambda>r s'. \<exists>tail. log_of s' = log_of s @ tail \<and> unlaunched tail \<and>
     (case r of Inl _ \<Rightarrow> new \<in> set (terminated tail) | Inr _ \<Rightarrow> terminated tail = [])) s"
proof -
  have undo: "wp True (attempt (call (ecTerminateInstances (logged_ec2 c)) new) (\<lambda>_. fail e)) (\<lambda>r s'. \<exists>tail. log_of s' = log_of s @ tail \<and>
     unlaunched tail \<and> (case r of Inl _ \<Rightarrow> new \<in> set (terminated tail) | Inr _ \<Rightarrow> terminated tail = [])) u"
    if "log_of u = log_of s @ pre" "unlaunched pre" for e u pre
    unfolding wp_attempt logged_ec2_def ec2API.simps
    by (rule wp_noted) (use that in \<open>auto simp: wp_simps unlaunched_def terminated_def\<close>)
  show ?thesis
    unfolding reattach_def wp_attempt
  proof (rule wp_quiet [OF quiet_waiting(1)])
    fix r t w
    show "wp True (case r of Inl e \<Rightarrow> attempt (call (ecTerminateInstances (logged_ec2 c)) new) (\<lambda>_. fail e)
       | Inr _ \<Rightarrow> attempt (call (ecAttachVolume (logged_ec2 c)) (new, v, dataVolumeDeviceName)) (\<lambda>a. case a of
            Inl e \<Rightarrow> attempt (call (ecTerminateInstances (logged_ec2 c)) new) (\<lambda>_.
                       fail (PApi (''aws: attach preserved data volume '' @ v @ '' to '' @ new) e))
          | Inr _ \<Rightarrow> ok ())) (\<lambda>r s'. \<exists>tail. log_of s' = log_of s @ tail \<and> unlaunched tail \<and>
     (case r of Inl _ \<Rightarrow> new \<in> set (terminated tail) | Inr _ \<Rightarrow> terminated tail = [])) (t, (w, log_of s))"
    proof (cases r)
      case (Inl e)
      then show ?thesis using undo [of "(t, (w, log_of s))" "[]"] by simp
    next
      case (Inr _)
      have "ecAttachVolume (logged_ec2 c) = noting (\<lambda>(i, v, _) r. [EvAttach i v (case r of Inl _ \<Rightarrow> False | Inr _ \<Rightarrow> True)]) (ecAttachVolume c)"
        by (simp add: logged_ec2_def)
      with Inr show ?thesis
        apply (simp only: sum.case wp_attempt)
        apply (rule wp_noted)
        subgoal for q
          by (cases q) (simp_all only: sum.case wp_ok, rule undo [of _ "[EvAttach new v False]"], simp_all add: unlaunched_def exI [of _ "[EvAttach new v True]"])
        done
    qed
  qed
qed

text \<open>The answer of EC2 to the provider's first question, and what a replacement may have done.\<close>

definition machine_of :: "'w ec2API \<Rightarrow> string \<Rightarrow> 'w \<Rightarrow> ec2_instance \<Rightarrow> bool" where
  "machine_of c iid w i \<longleftrightarrow> (\<exists>out k w'. ecDescribeInstances c (by_ids [iid]) w = (Inr out, k, w') \<and>
     i \<in> set (concat (doReservations out)) \<and> ToString (eiInstanceId i) = iid \<and> ToString (eiPrivateIpAddress i) \<noteq> [])"

definition replaced_log :: "string \<Rightarrow> (run_input \<Rightarrow> bool) \<Rightarrow> 'e + ReplaceResult \<Rightarrow> cloud_event list \<Rightarrow> bool" where
  "replaced_log iid same r es \<longleftrightarrow>
     (\<forall>x ids. EvLaunch x ids \<in> set es \<longrightarrow> same x) \<and> (launched es \<noteq> [] \<longrightarrow> hd es = EvTerminate iid) \<and>
     (case r of Inl _ \<Rightarrow> set (launched es) \<subseteq> set (terminated es)
      | Inr x \<Rightarrow> rrPreviousID x = iid \<and> launched es = [rrID x] \<and> terminated es = [iid])"

lemma replaced_log_tail:
  assumes "es = [EvTerminate iid, EvLaunch input [new]] @ tail" "unlaunched tail" "same input"
    and "case r of Inl _ \<Rightarrow> new \<in> set (terminated tail) | Inr x \<Rightarrow> x = \<lparr>rrPreviousID = iid, rrGroup = [], rrID = new\<rparr> \<and> terminated tail = []"
  shows "replaced_log iid same r es"
  using assms unlaunched_launched [of tail] by (auto simp: replaced_log_def unlaunched_def split: sum.splits)

lemma last_matchD: "last_match iid is = Some i \<Longrightarrow> i \<in> set is \<and> ToString (eiInstanceId i) = iid"
  by (induction "is") (auto split: option.splits if_splits)

lemma launchSpec_wp:
  "wp True (launchSpecForReplace (logged_ec2 c) iid) (\<lambda>r s'. log_of s' = log_of s \<and>
     (\<forall>input v. r = Inr (input, v) \<longrightarrow> (\<exists>w i. machine_of c iid w i \<and> input = replacement_input i))) s"
  unfolding launchSpecForReplace_def wp_seq wp_wrap logged_ec2_sel
  by (rule wp_noted) (auto simp: wp_simps machine_of_def dest!: last_matchD split: sum.split option.split, blast)

text \<open>The outcome of a replacement that the log begins with.\<close>

abbreviation replaced_ok :: "'w ec2API \<Rightarrow> string \<Rightarrow> provider_error + ReplaceResult \<Rightarrow> cloud_event list \<Rightarrow> bool" where
  "replaced_ok c iid r es \<equiv> replaced_log iid (\<lambda>x. \<exists>w i. machine_of c iid w i \<and> x = replacement_input i) r es \<and>
     (\<forall>x. r = Inr x \<longrightarrow> rrGroup x = [])"

lemma launch_replacement_wp:
  fixes c :: "'w ec2API" and s :: "('w, cloud_event) noted"
  assumes "single_launch c" "log_of s = [EvTerminate iid]" "machine_of c iid w i" "input = replacement_input i"
  shows "wp True (launch_replacement (logged m) (logged_ec2 c) iid input v) (\<lambda>r s'. replaced_ok c iid r (log_of s')) s"
  unfolding launch_replacement_def wp_seq [of _ "relaunch _ _ _ _"]
proof (rule wp_mono [OF relaunch_wp [OF assms(1)]])
  show "riMaxCount input = 1" using assms(4) by (simp add: replacement_input_def)
next
  fix r :: "provider_error + ec2_instance list" and u :: "('w, cloud_event) noted"
  let ?new = "\<lambda>new :: ec2_instance. ToString (eiInstanceId new)" and ?Q = "\<lambda>r s'. replaced_ok c iid r (log_of s')"
  let ?R = "\<lambda>new. \<lparr>rrPreviousID = iid, rrGroup = [], rrID = new\<rparr>"
  assume r: "case r of Inl _ \<Rightarrow> log_of u = log_of s
     | Inr out \<Rightarrow> log_of u = log_of s @ [EvLaunch input (map ?new out)] \<and> length out \<le> 1"
  have same: "\<exists>w i. machine_of c iid w i \<and> input = replacement_input i" using assms(3,4) by blast
  show "(case r of Inl e \<Rightarrow> ?Q (Inl e)
     | Inr out \<Rightarrow> wp True (case out of [] \<Rightarrow> fail (PMsg ''aws: run instances returned no instances'')
        | new # _ \<Rightarrow> seq (if v \<noteq> [] then reattach (logged m) (logged_ec2 c) v (?new new) else ok ()) (\<lambda>_. ok (?R (?new new)))) ?Q) u"
  proof (cases r)
    case (Inl e)
    with r assms(2) show ?thesis by (simp add: replaced_log_def)
  next
    case (Inr out)
    show ?thesis
    proof (cases out)
      case Nil
      with r Inr assms(2) same show ?thesis by (auto simp: wp_fail replaced_log_def)
    next
      case (Cons new rest)
      with r Inr assms(2) have log: "log_of u = [EvTerminate iid, EvLaunch input [?new new]]" by simp
      have tail: "replaced_ok c iid q (log_of u')"
        if "log_of u' = log_of u @ tail" "unlaunched tail"
          and "case q of Inl _ \<Rightarrow> ?new new \<in> set (terminated tail) | Inr x \<Rightarrow> x = ?R (?new new) \<and> terminated tail = []"
        for q tail and u' :: "('w, cloud_event) noted"
        using replaced_log_tail [of "log_of u'" iid input "?new new" tail "\<lambda>x. \<exists>w i. machine_of c iid w i \<and> x = replacement_input i" q]
          that log same by (auto split: sum.splits)
      have attached: "wp True (reattach (logged m) (logged_ec2 c) v (?new new))
          (\<lambda>r. case r of Inl e \<Rightarrow> ?Q (Inl e) | Inr x \<Rightarrow> ?Q (Inr (?R (?new new)))) u"
      proof (rule wp_mono [OF reattach_wp])
        fix q :: "provider_error + unit" and u' :: "('w, cloud_event) noted"
        assume "\<exists>tail. log_of u' = log_of u @ tail \<and> unlaunched tail \<and>
          (case q of Inl _ \<Rightarrow> ?new new \<in> set (terminated tail) | Inr _ \<Rightarrow> terminated tail = [])"
        then obtain tail' where t: "log_of u' = log_of u @ tail'" "unlaunched tail'"
          "case q of Inl _ \<Rightarrow> ?new new \<in> set (terminated tail') | Inr _ \<Rightarrow> terminated tail' = []" by blast
        show "(case q of Inl e \<Rightarrow> ?Q (Inl e) | Inr x \<Rightarrow> ?Q (Inr (?R (?new new)))) u'"
          using t(3) tail [OF t(1,2), of "map_sum (\<lambda>e. e) (\<lambda>_. ?R (?new new)) q"] by (cases q) simp_all
      qed
      show ?thesis
      proof (cases "v = []")
        case True
        then show ?thesis using tail [of u "[]" "Inr (?R (?new new))"] unfolding Inr Cons by (simp add: wp_seq wp_ok)
      next
        case False
        then show ?thesis using attached unfolding Inr Cons list.case sum.case wp_seq wp_ok by (simp only: if_True simp_thms)
      qed
    qed
  qed
qed

lemma replaceStandalone_wp:
  fixes c :: "'w ec2API" and s :: "('w, cloud_event) noted"
  assumes "single_launch c" "mgEC2 m = Some c" "log_of s = []"
  shows "wp True (replaceStandalone (logged m) iid) (\<lambda>r s'. replaced_ok c iid r (log_of s')) s" (is "wp True _ ?Q s")
  unfolding replaceStandalone_def wp_client logged_clients_sel assms(2) option.map option.case wp_seq [of _ "launchSpecForReplace _ _"]
proof (rule wp_mono [OF launchSpec_wp])
  let ?go = "\<lambda>input v. seq (WaitForTerminated (logged m) iid five_minutes) (\<lambda>_.
       seq (if v \<noteq> [] then waitForVolumeAvailable (logged m) (logged_ec2 c) v five_minutes else ok ()) (\<lambda>_.
       launch_replacement (logged m) (logged_ec2 c) iid input v))"
  have fails: "?Q (Inl e) u" if "log_of u = [] \<or> log_of u = [EvTerminate iid]" for e u
    using that by (auto simp: replaced_log_def)
  have go: "wp True (?go input v) ?Q u" if log: "log_of u = [EvTerminate iid]" and i: "machine_of c iid w i" "input = replacement_input i"
    for input v w i and u :: "('w, cloud_event) noted"
  proof -
    have quiet: "quiet (if v \<noteq> [] then waitForVolumeAvailable (logged m) (logged_ec2 c) v five_minutes else ok ())"
      by (auto intro!: emits_intros)
    have launch: "wp True (launch_replacement (logged m) (logged_ec2 c) iid input v) ?Q (t, (w', [EvTerminate iid]))" for t w'
      by (rule launch_replacement_wp [OF assms(1) _ i]) simp
    have wait: "wp True (seq (if v \<noteq> [] then waitForVolumeAvailable (logged m) (logged_ec2 c) v five_minutes else ok ()) (\<lambda>_.
       launch_replacement (logged m) (logged_ec2 c) iid input v)) ?Q (t, (w', [EvTerminate iid]))" for t w'
      unfolding wp_seq by (rule wp_quiet [OF quiet]) (use fails launch in \<open>auto split: sum.split\<close>)
    show ?thesis
      unfolding wp_seq [of _ "WaitForTerminated _ _ _"]
      by (rule wp_quiet [OF quiet_waiting(2)]) (use fails wait in \<open>auto simp: log split: sum.split\<close>)
  qed
  fix r :: "provider_error + run_input \<times> string" and u :: "('w, cloud_event) noted"
  assume r: "log_of u = log_of s \<and> (\<forall>input v. r = Inr (input, v) \<longrightarrow> (\<exists>w i. machine_of c iid w i \<and> input = replacement_input i))"
  have terminate: "ecTerminateInstances (logged_ec2 c) = noting (\<lambda>x _. [EvTerminate x]) (ecTerminateInstances c)"
    by (simp add: logged_ec2_def)
  show "(case r of Inl e \<Rightarrow> ?Q (Inl e) | Inr x \<Rightarrow> wp True (case x of (input, v) \<Rightarrow>
     seq (wrap (PApi (''aws: terminate instance '' @ iid @ '' for replacement'')) (call (ecTerminateInstances (logged_ec2 c)) iid))
       (\<lambda>_. ?go input v)) ?Q) u"
  proof (cases r)
    case (Inl e)
    with r show ?thesis using fails [of u e] assms(3) by simp
  next
    case (Inr x)
    obtain input v where x: "x = (input, v)" by (cases x)
    with r Inr obtain w i where i: "machine_of c iid w i" "input = replacement_input i" by blast
    show ?thesis
      unfolding Inr x sum.case prod.case wp_seq [of _ "wrap _ _"] wp_wrap terminate
      apply (rule wp_noted)
      subgoal for q k t w' w
        using r assms(3) by (cases q) (simp_all only: sum.case, rule fails, simp, rule go [OF _ i], simp)
      done
  qed
qed


section \<open>Creating\<close>

lemma build_wp:
  "wp True (buildRunInstancesInput (logged_ec2 c) op) (\<lambda>r s'. log_of s' = log_of s \<and>
     (\<forall>input. r = Inr input \<longrightarrow> (\<exists>subnet groups. input = run_input_of op subnet groups))) s"
proof -
  have quiet: "quiet (resolveSubnet (logged_ec2 c) op)" "quiet (resolveSecurityGroups (logged_ec2 c) op)"
    unfolding resolveSubnet_def resolveSecurityGroups_def logged_ec2_sel by (auto intro!: emits_intros)
  show ?thesis
    unfolding buildRunInstancesInput_def wp_seq [of _ "resolveSubnet _ _"]
    by (rule wp_quiet [OF quiet(1)])
      (fastforce simp: wp_seq wp_ok intro!: wp_quiet [OF quiet(2)] split: sum.split)
qed

text \<open>A request of a creation: the options with some subnet.\<close>

definition requested :: "compute_op \<Rightarrow> compute_op \<Rightarrow> run_input \<Rightarrow> bool" where
  "requested op op1 x \<longleftrightarrow> (\<exists>s subnet groups. op1 = op\<lparr>coSubnetID := s\<rparr> \<and> x = run_input_of op1 subnet groups)"

lemma others_wp: "wp True (otherSubnetIDs (logged m) v cur) (\<lambda>r s'. log_of s' = es \<and> (\<exists>l. r = Inr l)) (t, (w, es))"
proof -
  have "quiet (SubnetsInVPC (logged m) v)"
    unfolding SubnetsInVPC_def SubnetInfosInVPC_def logged_clients_sel by (auto intro!: emits_intros)
  then show ?thesis
    unfolding otherSubnetIDs_def wp_attempt by (rule wp_quiet) (auto simp: wp_ok split: sum.split)
qed

lemma launch_body_wp:
  assumes "single_launch c" "requested op op1 input" "log_of s = []"
  shows "wp True (launch_body (logged m) (logged_ec2 c) d (op1, input, loaded))
     (\<lambda>r s'. case r of
        Inr (op2, input2, _) \<Rightarrow> requested op op2 input2 \<and> log_of s' = []
      | Inl (Inl e) \<Rightarrow> log_of s' = []
      | Inl (Inr (out, op2)) \<Rightarrow> \<exists>x. requested op op2 x \<and> log_of s' = [EvLaunch x (map (\<lambda>i. ToString (eiInstanceId i)) out)] \<and> length out \<le> 1) s"
    (is "wp True _ ?Q s")
proof -
  have "riMaxCount input = 1" using assms(2) by (auto simp: requested_def run_input_of_def)
  have run: "ecRunInstances (logged_ec2 c) = noting (\<lambda>x r. case r of Inl _ \<Rightarrow> []
     | Inr out \<Rightarrow> [EvLaunch x (map (\<lambda>i. ToString (eiInstanceId i)) out)]) (ecRunInstances c)" by (simp add: logged_ec2_def)
  have sleep: "wp True (seq (wrap (\<lambda>x. Inl (PContext ''aws: run instances'' x)) (sleep (mgWait (logged m)) z)) (\<lambda>_. ok (op1, input, Some []))) ?Q (t, (w, []))"
    for z t w
    unfolding wp_seq wp_wrap logged_clients_sel
    by (rule wp_quiet [OF emits_sleep]) (use assms(2) in \<open>auto simp: wp_ok split: sum.split\<close>)
  have move: "wp True (seq (wrap Inl (buildRunInstancesInput (logged_ec2 c) (op1\<lparr>coSubnetID := alt\<rparr>))) (\<lambda>input1.
       ok (op1\<lparr>coSubnetID := alt\<rparr>, input1, l))) ?Q (t, (w, []))" for alt l t w
    unfolding wp_seq wp_wrap
    by (rule wp_mono [OF build_wp]) (use assms(2) in \<open>auto simp: wp_ok requested_def split: sum.split\<close>)
  have alternates: "wp True (case loaded of Some alternates \<Rightarrow> ok alternates
       | None \<Rightarrow> otherSubnetIDs (logged m) (coVPCID op1) (ToString (riSubnetId input))) (\<lambda>r s'. log_of s' = [] \<and> (\<exists>l. r = Inr l)) (t, (w, []))" for t w
    using others_wp by (auto simp: wp_ok split: option.split)
  have next_round: "wp True (seq (case loaded of Some alternates \<Rightarrow> ok alternates
       | None \<Rightarrow> otherSubnetIDs (logged m) (coVPCID op1) (ToString (riSubnetId input))) f) ?Q (t, (w, []))"
    if "\<And>l t w. wp True (f l) ?Q (t, (w, []))" for f t w
    unfolding wp_seq by (rule wp_mono [OF alternates]) (use that in \<open>auto simp: log_of_def\<close>)
  show ?thesis
    unfolding launch_body_def prod.case wp_attempt run Let_def
    apply (rule wp_noted)
    subgoal for q k t w' w
    proof (cases q)
      case (Inr out)
      assume "ecRunInstances c input w = (q, k, w')"
      with Inr have "length out \<le> 1" using single_launchD [OF assms(1)] \<open>riMaxCount input = 1\<close> by metis
      with Inr assms(2,3) show ?thesis by (auto simp: wp_fail)
    next
      case (Inl e)
      show ?thesis
        unfolding Inl sum.case wp_at_time
        by (auto simp: wp_fail assms(3) simp del: logged_clients_sel intro!: next_round move sleep split: list.split)
    qed
    done
qed

text \<open>What a creation may have done, and the rest of it once an instance is launched.\<close>

definition created_log :: "compute_op \<Rightarrow> provider_error + ec2_info \<Rightarrow> cloud_event list \<Rightarrow> bool" where
  "created_log op r es \<longleftrightarrow> terminated es = [] \<and> (\<forall>x ids. EvLaunch x ids \<in> set es \<longrightarrow> (\<exists>op1. requested op op1 x)) \<and>
    (case r of Inr i \<Rightarrow> launched es = [efID i]
     | Inl _ \<Rightarrow> launched es = [] \<or> (\<exists>cfg i. coProviderConfig op = Some cfg \<and> acDataVolumeID cfg \<noteq> [] \<and>
         launched es = [i] \<and> EvAttach i (acDataVolumeID cfg) False \<in> set es))"

lemma created_log_Nil [simp]: "created_log op (Inl e) []"
  by (simp add: created_log_def)

lemma finish_create_wp:
  assumes "requested op op1 x" "log_of u = [EvLaunch x (map (\<lambda>i. ToString (eiInstanceId i)) out)]" "length out \<le> 1"
  shows "wp True (finish_create (logged_ec2 c) (out, op1)) (\<lambda>r s'. created_log op r (log_of s')) u"
proof (cases out)
  case Nil
  with assms show ?thesis by (auto simp: finish_create_def wp_fail created_log_def)
next
  case (Cons inst rest)
  with assms have log: "log_of u = [EvLaunch x [ToString (eiInstanceId inst)]]" by simp
  have cfg: "coProviderConfig op1 = coProviderConfig op" using assms(1) by (auto simp: requested_def)
  have id: "efID (instanceInfoFromLaunch inst op1) = ToString (eiInstanceId inst)"
    by (simp add: instanceInfoFromLaunch_def instanceFromEC2_def)
  have attach: "ecAttachVolume (logged_ec2 c) = noting (\<lambda>(i, v, _) r. [EvAttach i v (case r of Inl _ \<Rightarrow> False | Inr _ \<Rightarrow> True)])
      (ecAttachVolume c)" by (simp add: logged_ec2_def)
  show ?thesis
  proof (cases "\<exists>cfg. coProviderConfig op1 = Some cfg \<and> acDataVolumeID cfg \<noteq> []")
    case True
    then obtain v where c: "coProviderConfig op1 = Some v" "acDataVolumeID v \<noteq> []" by blast
    with cfg have "coProviderConfig op = Some v" by simp
    with c show ?thesis
      unfolding finish_create_def Cons prod.case list.case c(1) option.case wp_seq attach using log id assms(1)
      by (simp add: wp_wrap) (rule wp_noted, auto simp: wp_ok created_log_def split: sum.split)
  next
    case False
    with log id assms(1) show ?thesis unfolding Cons finish_create_def
      by (auto simp: wp_seq wp_ok created_log_def split: option.split)
  qed
qed

lemma launch_create_wp:
  fixes c :: "'w ec2API" and s :: "('w, cloud_event) noted"
  assumes "single_launch c" "requested op op input" "log_of s = []"
  shows "wp True (seq (iterate (launch_body (logged m) (logged_ec2 c) d) (op, input, None)) (finish_create (logged_ec2 c)))
    (\<lambda>r s'. created_log op r (log_of s')) s" (is "wp True _ ?Q s")
  unfolding wp_seq
proof (rule wp_iterate [where I = "\<lambda>(op1, input, _) s. requested op op1 input \<and> log_of s = []"])
  show "(case (op, input, None) of (op1, input, _) \<Rightarrow> \<lambda>s. requested op op1 input \<and> log_of s = []) s" using assms by simp
next
  fix x :: launch_state and s :: "('w, cloud_event) noted"
  assume "(case x of (op1, input, _) \<Rightarrow> \<lambda>s. requested op op1 input \<and> log_of s = []) s"
  then obtain op1 input l where x: "x = (op1, input, l)" "requested op op1 input" "log_of s = []" by (cases x) auto
  show "wp True (launch_body (logged m) (logged_ec2 c) d x)
      (\<lambda>r s'. case r of Inl r \<Rightarrow> (case r of Inl e \<Rightarrow> ?Q (Inl e) | Inr x \<Rightarrow> wp True (finish_create (logged_ec2 c) x) ?Q) s'
         | Inr y \<Rightarrow> (case y of (op1, input, _) \<Rightarrow> \<lambda>s. requested op op1 input \<and> log_of s = []) s') s"
    unfolding x(1) by (rule wp_mono [OF launch_body_wp [OF assms(1) x(2,3)]])
      (auto intro: finish_create_wp split: sum.splits)
qed


section \<open>Waits end\<close>

lemma returning_GetEC2 [returning_intros]: "returning (GetEC2 m iid)"
  unfolding GetEC2_def Let_def by (auto intro!: returning_intros)

lemma returning_state_body [returning_intros]: "returning get \<Longrightarrow> returning (state_body get good gone)"
  unfolding state_body_def by (auto intro!: returning_intros)

lemma returning_waits [returning_intros]:
  "returning (waitForRunningState m iid t)" "returning (WaitForTerminated m iid t)" "returning (waitForVolumeAvailable m c v t)"
  "returning (waitForVolumeState m c v want t)" "returning (relaunch m c iid input)"
  unfolding waitForRunningState_def WaitForTerminated_def waitForVolumeAvailable_def available_body_def waitForVolumeState_def
    volume_state_body_def relaunch_def relaunch_body_def
  by (auto intro!: returning_intros ticks.poll_deadline_returning short_ticks.poll_deadline_returning
      pauses.poll_deadline_returning short_pauses.poll_deadline_returning)

lemma returning_replacement [returning_intros]:
  "returning (launch_replacement m c iid input v)" "returning (launchSpecForReplace c iid)"
  unfolding launch_replacement_def reattach_def launchSpecForReplace_def by (auto intro!: returning_intros)

text \<open>C35: Replacing a machine always comes to an end, whatever EC2 and Auto Scaling answer and however slow they are:
  every loop of it has a deadline, and time passes between two rounds.\<close>

theorem ReplaceMachineEC2_returns: "\<exists>r t' w'. ReplaceMachineEC2 m iid (t, w) = Some (r, (t', w')) \<and> t \<le> t'"
proof -
  have "returning (replaceStandalone m n)" for n
    unfolding replaceStandalone_def by (auto intro!: returning_intros)
  then have "returning (ReplaceMachineEC2 m iid)"
    unfolding ReplaceMachineEC2_def Let_def by (auto intro!: returning_intros)
  then show ?thesis unfolding returning_def by (metis fst_conv surj_pair)
qed

section \<open>Running commands\<close>

lemma exit_code_nonneg: "0 \<le> erExitCode (buildSSMExecuteResult iv)"
  by (simp add: buildSSMExecuteResult_def Let_def)

lemma waitForSSMResult_wp:
  "wp True (waitForSSMResult (logged m) (logged_ssm s) i cid d)
     (\<lambda>r u'. log_of u' = log_of u \<and> (\<forall>x. r = Inr x \<longrightarrow> 0 \<le> erExitCode x)) u"
  unfolding waitForSSMResult_def wp_def [of True "poll _ _ _ _"]
proof (rule wp_poll [where I = "\<lambda>v. log_of v = log_of u" and J = "\<lambda>_ _. True"])
  show "wait_keeps (next_tick_until (mgWait (logged m)) d defaultSSMWaitInterval) (\<lambda>v. log_of v = log_of u)"
    unfolding logged_clients_sel by (rule emits_waits)
next
  fix v :: "('a, cloud_event) noted"
  assume v: "log_of v = log_of u"
  have "smGetCommandInvocation (logged_ssm s) = unnoted (smGetCommandInvocation s)" by (simp add: logged_ssm_def)
  with v show "wp True (ssm_attempt (logged_ssm s) i cid d)
     (\<lambda>x u'. case x of Inl r \<Rightarrow> log_of u' = log_of u \<and> (\<forall>x. r = Inr x \<longrightarrow> 0 \<le> erExitCode x) | Inr i \<Rightarrow> log_of u' = log_of u \<and> True) v"
    unfolding ssm_attempt_def wp_at_time wp_attempt
    by (simp only:) (rule wp_noted, auto simp: wp_ok wp_fail exit_code_nonneg split: sum.split)
qed auto

text \<open>C36: Running a command makes one change at most: it sends one shell line, the one built from the command and its
  options, to this instance, or it terminates this instance, and that only for a shutdown command that the
  caller did not ask to run in the guest. An exit code is never negative.\<close>

theorem RunCommand_effects:
  assumes "RunCommandWithOptionsEC2 (logged m) i command opts (t, (w, [])) = Some (r, (t', (w', es)))"
  shows "(es = [] \<and> (\<exists>e. r = Inl e) \<or>
     es = [EvTerminate (efID i)] \<and> \<not> guestShutdown opts \<and> isShutdownCommand command \<or>
     (\<exists>line. es = [EvSend (efID i) line] \<and> buildSSMCommandString command opts = Inr line \<and>
        (guestShutdown opts \<or> \<not> isShutdownCommand command))) \<and> (\<forall>x. r = Inr x \<longrightarrow> 0 \<le> erExitCode x)" (is "?claim r es")
proof -
  define C :: "provider_error + ExecuteResult \<Rightarrow> cloud_event list \<Rightarrow> bool" where "C r es = ?claim r es" for r es
  have fails: "C (Inl e) []" for e by (simp add: C_def)
  have stop: "wp True (terminateAsShutdown (logged m) i) (\<lambda>r s'. C r (log_of s')) (t, (w, []))"
    if "\<not> guestShutdown opts" "isShutdownCommand command"
    unfolding terminateAsShutdown_def wp_client logged_clients_sel wp_seq wp_wrap
    by (cases "mgEC2 m") (use that in \<open>auto simp: fails logged_ec2_def C_def wp_ok intro!: wp_noted split: sum.split\<close>)
  have sent: "wp True (seq (sendSSMCommand (logged_ssm s) i line opts) (\<lambda>(cid, d). waitForSSMResult (logged m) (logged_ssm s) i cid d))
      (\<lambda>r s'. C r (log_of s')) (t, (w, []))"
    if "guestShutdown opts \<or> \<not> isShutdownCommand command" "buildSSMCommandString command opts = Inr line" for s line
  proof -
    have send: "smSendCommand (logged_ssm s) = noting (\<lambda>x _. [EvSend (siInstanceId x) (siCommand x)]) (smSendCommand s)"
      by (simp add: logged_ssm_def)
    have wait: "wp True (waitForSSMResult (logged m) (logged_ssm s) i cid d) (\<lambda>r s'. C r (log_of s')) (t, (w, [EvSend (efID i) line]))"
      for cid d t w
      by (rule wp_mono [OF waitForSSMResult_wp]) (use that in \<open>auto simp: C_def\<close>)
    show ?thesis
      unfolding sendSSMCommand_def wp_seq wp_at_time Let_def wp_wrap send
      by (rule wp_noted) (use that wait in \<open>auto simp: C_def wp_ok wp_fail split: sum.split option.split\<close>)
  qed
  have "wp True (RunCommandWithOptionsEC2 (logged m) i command opts) (\<lambda>r s'. C r (log_of s')) (t, (w, []))"
    unfolding RunCommandWithOptionsEC2_def using fails stop sent
    by (cases "mgSSM m") (auto simp: wp_fail wp_client split: sum.split)
  from wp_result [OF this assms] show ?thesis by (simp add: C_def)
qed


section \<open>An example cloud\<close>

text \<open>A cloud with one machine, \<^verbatim>\<open>i-1\<close>, its data volume, and an Auto Scaling service that does not know it. The
  state counts the changes: after one the machine is terminated, the second launches \<^verbatim>\<open>i-2\<close>.\<close>

definition demo_machine :: "string \<Rightarrow> string \<Rightarrow> ec2_instance" where
  "demo_machine name state =
     \<lparr>eiInstanceId = Some name, eiPublicIpAddress = None, eiPrivateIpAddress = Some ''10.0.0.5'', eiPlacement = None, eiState = Some state,
      eiTags = [(Some ''Name'', Some ''m1''), (Some ''aws:x'', None)], eiInstanceType = ''t3a.medium'', eiImageId = Some ''ami-1'',
      eiSubnetId = Some ''subnet-1'', eiSecurityGroups = [Some ''sg-2'', Some ''sg-1''], eiKeyName = None, eiIamInstanceProfile = None,
      eiBlockDeviceMappings = [(Some dataVolumeDeviceName, Some (Some ''vol-1''))]\<rparr>"

definition demo_call :: "('i \<Rightarrow> nat \<Rightarrow> api_error + 'o) \<Rightarrow> bool \<Rightarrow> ('i, 'o, nat) aws_api" where
  "demo_call f change x w = (f x w, 1, if change then w + 1 else w)"

definition demo_ec2 :: "nat ec2API" where
  "demo_ec2 =
     \<lparr>ecRunInstances = demo_call (\<lambda>_ _. Inr [demo_machine ''i-2'' ''pending'']) True,
      ecTerminateInstances = demo_call (\<lambda>_ _. Inr ()) True, ecStopInstances = demo_call (\<lambda>_ _. Inr ()) False,
      ecStartInstances = demo_call (\<lambda>_ _. Inr ()) False,
      ecDescribeSubnets = demo_call (\<lambda>_ _. Inr [(Some ''subnet-1'', None)]) False,
      ecDescribeSecurityGroups = demo_call (\<lambda>_ _. Inr [Some ''sg-1'']) False,
      ecDescribeInstances = demo_call (\<lambda>x w. Inr \<lparr>doReservations = [map (\<lambda>n. demo_machine n (if n = ''i-1'' \<and> w > 0 then ''terminated'' else ''running''))
        (diInstanceIds x)], doNextToken = None\<rparr>) False,
      ecAttachVolume = demo_call (\<lambda>_ _. Inr ()) False, ecCreateVolume = demo_call (\<lambda>_ _. Inr (Some ''vol-2'')) False,
      ecDetachVolume = demo_call (\<lambda>_ _. Inr ()) False, ecDeleteVolume = demo_call (\<lambda>_ _. Inr ()) False,
      ecDescribeVolumes = demo_call (\<lambda>v _. Inr [(Some v, ''available'')]) False\<rparr>"

definition demo_ssm :: "nat ssmAPI" where
  "demo_ssm =
     \<lparr>smSendCommand = demo_call (\<lambda>_ _. Inr (Some (Some ''cmd-1''))) False,
      smGetCommandInvocation = demo_call (\<lambda>_ _. Inr \<lparr>ivStatus = ''Failed'', ivResponseCode = -1, ivStandardOutput = None, ivStandardError = None\<rparr>) False,
      smGetParameters = demo_call (\<lambda>_ _. Inr []) False\<rparr>"

definition demo_manager :: "nat manager" where
  "demo_manager = \<lparr>mgEC2 = Some demo_ec2, mgSSM = Some demo_ssm, mgASG = None, mgSTS = None, mgLT = None, mgGroups = None,
     mgWait = (\<lambda>d w. (None, 0, w))\<rparr>"

lemma demo_single: "single_launch demo_ec2" "mgEC2 demo_manager = Some demo_ec2"
  by (auto simp: single_launch_def demo_ec2_def demo_call_def demo_manager_def)

lemma demo_replaced:
  "map_option (\<lambda>(r, t, w, es). (r, es)) (ReplaceMachineEC2 (logged demo_manager) ''i-1'' (0, (0, []))) =
     Some (Inr \<lparr>rrPreviousID = ''i-1'', rrGroup = [], rrID = ''i-2''\<rparr>,
       [EvTerminate ''i-1'', EvLaunch (replacement_input (demo_machine ''i-1'' ''running'')) [''i-2''], EvAttach ''i-2'' ''vol-1'' True])"
  by code_simp


definition demo_request :: compute_op where
  "demo_request =
     \<lparr>coName = ''m1'', coSize = ''t3a.medium'', coImage = ''ami-1'', coSSHUser = [], coSSHPort = 22, coSSHPrivateKeyPath = [], coSSHKeys = [],
      coVPCID = ''vpc-1'', coSubnetID = [], coSecurityGroupIDs = [], coTags = [(''etcd-infra.cluster'', ''demo'')], coUserData = ''abcd'',
      coProviderConfig = Some \<lparr>acIAMInstanceProfile = ''p'', acDataVolumeSizeGB = 8, acPrivateIPAddress = [], acDataVolumeID = []\<rparr>\<rparr>"


theorem RunCommand_effects_witness:
  "\<exists>x t' w' es. RunCommandWithOptionsEC2 (logged demo_manager) (instanceFromEC2 (demo_machine ''i-1'' ''running'')) [''sudo'', ''reboot'']
       (Some ((run_options 0)\<lparr>aoProviderConfig := Some True\<rparr>)) (0, (0, [])) = Some (Inr x, (t', (w', es))) \<and>
     0 \<le> erExitCode x \<and> es = [EvSend ''i-1'' ''sudo reboot'']"
proof -
  let ?run = "RunCommandWithOptionsEC2 (logged demo_manager) (instanceFromEC2 (demo_machine ''i-1'' ''running'')) [''sudo'', ''reboot'']
       (Some ((run_options 0)\<lparr>aoProviderConfig := Some True\<rparr>)) (0, (0, []))"
  have "map_option (\<lambda>(r, t, w, es). (r, es)) ?run = Some (Inr \<lparr>erExitCode = 1, erStdout = [], erStderr = []\<rparr>, [EvSend ''i-1'' ''sudo reboot''])"
    by code_simp
  then obtain x t' w' es where run: "?run = Some (Inr x, (t', (w', es)))" "es = [EvSend ''i-1'' ''sudo reboot'']"
    by (auto split: prod.splits)
  show ?thesis using RunCommand_effects [OF run(1)] run by auto
qed


end
