(* ===== verification/LaunchGroup.thy ===== *)
theory LaunchGroup
  imports Ec2Provider
begin

text \<open>
  Launch groups, \<^verbatim>\<open>src/pkg/providers/aws/launch_group.go\<close>: a launch template and an Auto Scaling group
  of one name. The name is the lock: a name that is taken is accepted only when what has it carries all
  the tags of the specification.
\<close>

record LaunchGroupSpec =
  lsName :: string
  lsSubnetIDs :: "string list"
  lsSecurityGroupIDs :: "string list"
  lsImageID :: string
  lsInstanceType :: string
  lsIAMInstanceProfile :: string
  lsUserData :: string
  lsDataVolumeSizeGB :: "32 word"
  lsDataVolumeIOPS :: "32 word"
  lsDataVolumeThroughputMiBps :: "32 word"
  lsTags :: "(string \<times> string) list"
  lsCount :: "32 word"

definition suspendedGroupProcesses :: "string list" where
  "suspendedGroupProcesses = [''AZRebalance'', ''ReplaceUnhealthy'']"

definition launchGroupHopLimit :: int where "launchGroupHopLimit = 2"

definition ec2Tags :: "(string \<times> string) list \<Rightarrow> string \<Rightarrow> (string \<times> string) list" where
  "ec2Tags tags name = sorted_bindings (with_name name tags)"

definition hasAllTags :: "(string \<rightharpoonup> string) \<Rightarrow> (string \<times> string) list \<Rightarrow> bool" where
  "hasAllTags got want = list_all (\<lambda>k. got k = map_of want k) (map fst want)"

section \<open>The network\<close>

definition first_nonempty :: "string option list \<Rightarrow> string option" where
  "first_nonempty ids = find (\<lambda>s. s \<noteq> []) (map ToString ids)"

definition DefaultVPCID :: "'w manager \<Rightarrow> (provider_error, string, 'w timed) prog" where
  "DefaultVPCID m =
     client (mgLT m) (PMsg ''aws: launch template client is nil'') (\<lambda>l.
     seq (wrap (PApi ''aws: describe default VPC'') (call (ltDescribeVpcs l) ())) (\<lambda>vpcs.
       (case first_nonempty vpcs of Some v \<Rightarrow> ok v | None \<Rightarrow> fail (PMsg ''aws: the region has no default VPC; pass a VPC ID''))))"

definition DefaultSecurityGroupID :: "'w manager \<Rightarrow> string \<Rightarrow> (provider_error, string, 'w timed) prog" where
  "DefaultSecurityGroupID m vpcID =
     client (mgEC2 m) (PPanic ''nil ec2 client'') (\<lambda>c.
     seq (wrap (PApi ''aws: describe security groups'') (call (ecDescribeSecurityGroups c) (vpcID, ''default''))) (\<lambda>groups.
       (case first_nonempty groups of Some g \<Rightarrow> ok g
        | None \<Rightarrow> fail (PMsg (''aws: no default security group found in vpc '' @ vpcID)))))"

section \<open>Launch templates\<close>

definition data_volume_of_spec :: "LaunchGroupSpec \<Rightarrow> (string \<times> data_volume) option" where
  "data_volume_of_spec spec =
     (if sint (lsDataVolumeSizeGB spec) > 0
      then Some (dataVolumeDeviceName,
        \<lparr>dvVolumeSize = lsDataVolumeSizeGB spec, dvEncrypted = True, dvDeleteOnTermination = True,
         dvIops = (if sint (lsDataVolumeIOPS spec) > 0 then Some (lsDataVolumeIOPS spec) else None),
         dvThroughput = (if sint (lsDataVolumeThroughputMiBps spec) > 0 then Some (lsDataVolumeThroughputMiBps spec) else None)\<rparr>)
      else None)"

definition template_of :: "LaunchGroupSpec \<Rightarrow> template_input" where
  "template_of spec =
     (let tags = ec2Tags (lsTags spec) (lsName spec) in
      \<lparr>tiName = lsName spec, tiDescription = ''etcd-infra launch group spec'',
       tiData = \<lparr>tdImageId = lsImageID spec, tdInstanceType = lsInstanceType spec, tdSecurityGroupIds = lsSecurityGroupIDs spec,
         tdHttpTokensRequired = True, tdHopLimit = launchGroupHopLimit, tdTags = [(''instance'', tags), (''volume'', tags)],
         tdUserData = (if lsUserData spec \<noteq> [] then Some (EncodeToString (lsUserData spec)) else None),
         tdIamInstanceProfile = profile_of (lsIAMInstanceProfile spec), tdDataVolume = data_volume_of_spec spec\<rparr>,
       tiTags = tags\<rparr>)"

record LaunchTemplate =
  lmID :: string
  lmVersion :: int
  lmTags :: "string \<rightharpoonup> string"

definition ToInt64 :: "int option \<Rightarrow> int" where
  "ToInt64 v = (case v of None \<Rightarrow> 0 | Some n \<Rightarrow> n)"

text \<open>\<open>None\<close> is \<^verbatim>\<open>exists = false\<close>.\<close>

definition LaunchTemplateByName :: "'w manager \<Rightarrow> string \<Rightarrow> (provider_error, LaunchTemplate option, 'w timed) prog" where
  "LaunchTemplateByName m name =
     client (mgLT m) (PMsg ''aws: launch template client is nil'') (\<lambda>l.
     attempt (call (ltDescribeLaunchTemplates l) name) (\<lambda>r. case r of
         Inl e \<Rightarrow> if isLaunchTemplateNotFound e then ok None else fail (PApi (''aws: describe launch template '' @ name) e)
       | Inr templates \<Rightarrow> ok (case templates of [] \<Rightarrow> None
           | t # _ \<Rightarrow> Some \<lparr>lmID = ToString (ltLaunchTemplateId t), lmVersion = ToInt64 (ltLatestVersionNumber t), lmTags = extractTags (ltTags t)\<rparr>)))"

definition template_taken :: "'w manager \<Rightarrow> LaunchGroupSpec \<Rightarrow> (provider_error, string \<times> int, 'w timed) prog" where
  "template_taken m spec =
     (let msg = ''aws: launch template '' @ lsName spec in
      attempt (LaunchTemplateByName m (lsName spec)) (\<lambda>r. case r of
         Inl e \<Rightarrow> fail (PExists msg (Some e))
       | Inr None \<Rightarrow> fail (PExists msg None)
       | Inr (Some t) \<Rightarrow> if hasAllTags (lmTags t) (lsTags spec) then ok (lmID t, lmVersion t) else fail (PExists msg None)))"

definition CreateLaunchTemplate :: "'w manager \<Rightarrow> LaunchGroupSpec \<Rightarrow> (provider_error, string \<times> int, 'w timed) prog" where
  "CreateLaunchTemplate m spec =
     client (mgLT m) (PMsg ''aws: launch template client is nil'') (\<lambda>l.
     attempt (call (ltCreateLaunchTemplate l) (template_of spec)) (\<lambda>r. case r of
         Inl e \<Rightarrow> if apiErrorCode (Some e) \<noteq> ''InvalidLaunchTemplateName.AlreadyExistsException''
                  then fail (PApi (''aws: create launch template '' @ lsName spec) e) else template_taken m spec
       | Inr None \<Rightarrow> fail (PMsg (''aws: create launch template '' @ lsName spec @ '' returned no ID''))
       | Inr (Some t) \<Rightarrow>
           if ToString (ltLaunchTemplateId t) = [] then fail (PMsg (''aws: create launch template '' @ lsName spec @ '' returned no ID''))
           else ok (ToString (ltLaunchTemplateId t), ToInt64 (ltLatestVersionNumber t))))"

definition DeleteLaunchTemplate :: "'w manager \<Rightarrow> string \<Rightarrow> (provider_error, unit, 'w timed) prog" where
  "DeleteLaunchTemplate m iid =
     client (mgLT m) (PMsg ''aws: launch template client is nil'') (\<lambda>l.
     attempt (call (ltDeleteLaunchTemplate l) iid) (\<lambda>r. case r of
         Inr _ \<Rightarrow> ok ()
       | Inl e \<Rightarrow> if isLaunchTemplateNotFound e then ok () else fail (PApi (''aws: delete launch template '' @ iid) e)))"

section \<open>Auto Scaling groups\<close>

definition no_groups :: provider_error where "no_groups = PMsg ''aws: auto scaling client is nil''"

definition AutoScalingGroupTags :: "'w manager \<Rightarrow> string \<Rightarrow> (provider_error, (string \<rightharpoonup> string) option, 'w timed) prog" where
  "AutoScalingGroupTags m name =
     client (mgGroups m) no_groups (\<lambda>g.
     seq (wrap (PApi (''aws: describe auto scaling group '' @ name)) (call (gaDescribeAutoScalingGroups g) name)) (\<lambda>groups.
     ok (case groups of [] \<Rightarrow> None
         | x # _ \<Rightarrow> Some (fold (\<lambda>t tags. tags(ToString (fst t) \<mapsto> ToString (snd t))) (asTagsOf x) Map.empty))))"

definition group_of :: "LaunchGroupSpec \<Rightarrow> string \<Rightarrow> int \<Rightarrow> group_input" where
  "group_of spec templateID version =
     \<lparr>giName = lsName spec, giTemplateId = templateID, giTemplateVersion = show_int version, giMinSize = lsCount spec,
      giMaxSize = lsCount spec, giDesiredCapacity = lsCount spec, giSubnets = Join '','' (lsSubnetIDs spec), giHealthCheckType = ''EC2'',
      giTags = map (\<lambda>(k, v). (k, v, False)) (sorted_bindings (lsTags spec))\<rparr>"

definition group_taken :: "'w manager \<Rightarrow> LaunchGroupSpec \<Rightarrow> (provider_error, unit, 'w timed) prog" where
  "group_taken m spec =
     (let msg = ''aws: auto scaling group '' @ lsName spec in
      attempt (AutoScalingGroupTags m (lsName spec)) (\<lambda>r. case r of
         Inl e \<Rightarrow> fail (PExists msg (Some e))
       | Inr None \<Rightarrow> fail (PExists msg None)
       | Inr (Some tags) \<Rightarrow> if hasAllTags tags (lsTags spec) then ok () else fail (PExists msg None)))"

definition CreateAutoScalingGroup :: "'w manager \<Rightarrow> LaunchGroupSpec \<Rightarrow> string \<Rightarrow> int \<Rightarrow> (provider_error, unit, 'w timed) prog" where
  "CreateAutoScalingGroup m spec templateID version =
     client (mgGroups m) no_groups (\<lambda>g.
     seq (attempt (call (gaCreateAutoScalingGroup g) (group_of spec templateID version)) (\<lambda>r. case r of
            Inr _ \<Rightarrow> ok ()
          | Inl e \<Rightarrow> if apiErrorCode (Some e) \<noteq> ''AlreadyExists'' then fail (PApi (''aws: create auto scaling group '' @ lsName spec) e)
                     else group_taken m spec)) (\<lambda>_.
     wrap (PApi (''aws: suspend processes on auto scaling group '' @ lsName spec))
       (call (gaSuspendProcesses g) (lsName spec, suspendedGroupProcesses))))"

record GroupMember =
  gmID :: string
  gmLifecycleState :: string
  gmHealthStatus :: string
  gmAvailabilityZone :: string

definition InService :: "GroupMember \<Rightarrow> bool" where
  "InService g \<longleftrightarrow> gmLifecycleState g = ''InService''"

definition member_of :: "asg_instance \<Rightarrow> GroupMember" where
  "member_of i = \<lparr>gmID = ToString (agInstanceId i), gmLifecycleState = agLifecycleState i,
     gmHealthStatus = ToString (agHealthStatus i), gmAvailabilityZone = ToString (agAvailabilityZone i)\<rparr>"

definition GroupMembers :: "'w manager \<Rightarrow> string \<Rightarrow> (provider_error, GroupMember list option, 'w timed) prog" where
  "GroupMembers m name =
     client (mgGroups m) no_groups (\<lambda>g.
     seq (wrap (PApi (''aws: describe auto scaling group '' @ name)) (call (gaDescribeAutoScalingGroups g) name)) (\<lambda>groups.
     ok (case groups of [] \<Rightarrow> None | x # _ \<Rightarrow> Some (sort_by gmID (map member_of (asInstancesOf x))))))"

definition lastFailedScalingActivity :: "'w manager \<Rightarrow> string \<Rightarrow> (provider_error, string, 'w timed) prog" where
  "lastFailedScalingActivity m name =
     client (mgGroups m) (PPanic ''nil auto scaling client'') (\<lambda>g.
     attempt (call (gaDescribeScalingActivities g) (name, 10)) (\<lambda>r. case r of
         Inl _ \<Rightarrow> ok []
       | Inr activities \<Rightarrow> ok (case find (\<lambda>a. fst a = ''Failed'') activities of None \<Rightarrow> [] | Some a \<Rightarrow> ToString (snd a))))"

text \<open>One look at the group: all its members in service, in the expected number, end the wait.\<close>

definition size_body :: "'w manager \<Rightarrow> string \<Rightarrow> int \<Rightarrow> (provider_error + string list, provider_error option, 'w timed) prog" where
  "size_body m name expected = attempt (GroupMembers m name) (\<lambda>r. case r of
      Inl e \<Rightarrow> ok (Some e)
    | Inr None \<Rightarrow> fail (Inl (PMsg (''aws: auto scaling group '' @ name @ '' does not exist'')))
    | Inr (Some members) \<Rightarrow>
        (let ids = map gmID (filter InService members) in
         if int (length members) = expected \<and> int (length ids) = expected then fail (Inr ids) else ok None))"

definition size_expired :: "'w manager \<Rightarrow> string \<Rightarrow> int \<Rightarrow> int \<Rightarrow> provider_error option \<Rightarrow> (provider_error, string list, 'w timed) prog" where
  "size_expired m name expected timeout e =
     seq (lastFailedScalingActivity m name) (\<lambda>reason.
       (let msg = ''aws: timed out after '' @ duration_string timeout @ '' waiting for '' @ show_int expected @
              '' in-service instances in auto scaling group '' @ name @
              (if reason \<noteq> [] then ''; last failed scaling activity: '' @ reason else [])
        in fail (case e of None \<Rightarrow> PMsg msg | Some x \<Rightarrow> PWrap msg x)))"

definition WaitForGroupSize :: "'w manager \<Rightarrow> string \<Rightarrow> int \<Rightarrow> int \<Rightarrow> int \<Rightarrow> (provider_error, string list, 'w timed) prog" where
  "WaitForGroupSize m name expected timeout interval =
     at_time (\<lambda>now. poll (after (mgWait m) interval) (Some (now + timeout, size_expired m name expected timeout))
       (size_body m name expected) (\<lambda>e. Inl (PContext (''aws: wait for auto scaling group '' @ name) e)))"

section \<open>Deleting a group\<close>

definition delete_body :: "'w groupAPI \<Rightarrow> string \<Rightarrow> (provider_error + unit, api_error, 'w timed) prog" where
  "delete_body g name = attempt (call (gaDeleteAutoScalingGroup g) (name, True)) (\<lambda>r. case r of
      Inr _ \<Rightarrow> fail (Inr ())
    | Inl e \<Rightarrow>
        if isGroupNotFoundError e then fail (Inr ())
        else if apiErrorCode (Some e) \<noteq> ''ScalingActivityInProgress'' \<and> apiErrorCode (Some e) \<noteq> ''ResourceInUse''
        then fail (Inl (PApi (''aws: delete auto scaling group '' @ name) e)) else ok e)"

definition gone_body :: "'w manager \<Rightarrow> string \<Rightarrow> (provider_error + unit, provider_error option, 'w timed) prog" where
  "gone_body m name = attempt (GroupMembers m name) (\<lambda>r. case r of
      Inr None \<Rightarrow> fail (Inr ()) | Inr (Some _) \<Rightarrow> ok None | Inl e \<Rightarrow> ok (Some e))"

definition DeleteAutoScalingGroup :: "'w manager \<Rightarrow> string \<Rightarrow> int \<Rightarrow> int \<Rightarrow> (provider_error, unit, 'w timed) prog" where
  "DeleteAutoScalingGroup m name timeout interval =
     client (mgGroups m) no_groups (\<lambda>g.
     at_time (\<lambda>now.
     seq (poll (after (mgWait m) interval)
            (Some (now + timeout, \<lambda>e. fail (PApi (''aws: delete auto scaling group '' @ name) e)))
            (delete_body g name) (\<lambda>e. Inl (PContext (''aws: delete auto scaling group '' @ name) e))) (\<lambda>_.
     poll (after (mgWait m) interval)
       (Some (now + timeout, \<lambda>e. fail (case e of
          Some x \<Rightarrow> PWrap (''aws: wait for auto scaling group '' @ name @ '' deletion'') x
        | None \<Rightarrow> PMsg (''aws: timed out after '' @ duration_string timeout @ '' waiting for auto scaling group '' @ name @ '' deletion''))))
       (gone_body m name) (\<lambda>e. Inl (PContext (''aws: wait for auto scaling group '' @ name @ '' deletion'') e)))))"

section \<open>Instances by tag\<close>

definition unterminatedInstanceStates :: "string list" where
  "unterminatedInstanceStates = [''pending'', ''running'', ''shutting-down'', ''stopping'', ''stopped'']"

definition tag_filters :: "(string \<times> string) list \<Rightarrow> (string \<times> string list) list" where
  "tag_filters tags = (''instance-state-name'', unterminatedInstanceStates) # map (\<lambda>(k, v). (''tag:'' @ k, [v])) (sorted_bindings tags)"

text \<open>The answer maps identifiers to states, a later entry of the same identifier replacing the earlier one. The pages
  are those of the SDK's paginator.\<close>

fun put_binding :: "'k \<Rightarrow> 'v \<Rightarrow> ('k \<times> 'v) list \<Rightarrow> ('k \<times> 'v) list" where
  "put_binding k v [] = [(k, v)]"
| "put_binding k v ((k', v') # kvs) = (if k' = k then (k, v) # kvs else (k', v') # put_binding k v kvs)"

definition UnterminatedInstancesTagged :: "'w manager \<Rightarrow> (string \<times> string) list \<Rightarrow>
    (provider_error, (string \<times> string) list, 'w timed) prog" where
  "UnterminatedInstancesTagged m tags =
     (if tags = [] then fail (PMsg ''aws: refusing to list instances without a tag filter'')
      else client (mgEC2 m) (PPanic ''nil ec2 client'') (\<lambda>c.
        seq (describe_all c ''aws: describe instances by tag'' (tag_filters tags)) (\<lambda>found.
        ok (fold (\<lambda>i. put_binding (ToString (eiInstanceId i)) (ToString (eiState i))) found []))))"

end
