(* ===== verification/AwsDevScripts.thy ===== *)
theory AwsDevScripts
  imports LaunchGroup AwsState
begin

text \<open>
  The development groups of \<^verbatim>\<open>src/cmd/etcd-infra/aws_dev.go\<close>, first part: the options of \<^verbatim>\<open>aws dev up\<close> with
  their validation, the tags, the printed plan, and the shell scripts that configure a box at its first
  boot, wait for that, and run a command in its environment. The two regular expressions are predicates
  on the path segments and on the letters.
\<close>

section \<open>Options\<close>

record awsDevUpOptions =
  duName :: string
  duRegion :: string
  duVPCID :: string
  duSubnetIDs :: "string list"
  duSecurityGroupIDs :: "string list"
  duAMI :: string
  duUbuntuRelease :: string
  duArch :: string
  duInstanceType :: string
  duIAMInstanceProfile :: string
  duVolumeSizeGB :: int
  duVolumeIOPS :: int
  duVolumeThroughput :: int
  duMountPoint :: string
  duBucket :: string
  duCount :: int
  duDryRun :: bool

definition maxAWSDevCount :: int where "maxAWSDevCount = 20"

definition awsDevRole :: string where "awsDevRole = ''dev''"

definition awsDevEnvFile :: string where "awsDevEnvFile = ''/etc/profile.d/etcd-infra-dev.sh''"

definition awsDevSetupLog :: string where "awsDevSetupLog = ''/var/log/etcd-infra-dev-setup.log''"

definition awsDevSetupExitFile :: string where "awsDevSetupExitFile = ''/var/lib/etcd-infra-dev/setup-exit-code''"

definition awsDevSetupTimeout :: int where "awsDevSetupTimeout = 15 * 60 * second"

text \<open>\<^verbatim>\<open>^(/[A-Za-z0-9_-][A-Za-z0-9._-]*)+$\<close>: a slash before every segment, no segment empty or starting with a dot.\<close>

definition mount_char :: "char \<Rightarrow> bool" where
  "mount_char c \<longleftrightarrow> is_alpha c \<or> is_digit c \<or> c = CHR ''_'' \<or> c = CHR ''-''"

definition mount_segment :: "string \<Rightarrow> bool" where
  "mount_segment s \<longleftrightarrow> (case s of [] \<Rightarrow> False | c # cs \<Rightarrow> mount_char c \<and> list_all (\<lambda>c. mount_char c \<or> c = CHR ''.'') cs)"

definition awsDevMountPointPattern :: "string \<Rightarrow> bool" where
  "awsDevMountPointPattern p \<longleftrightarrow> (case Split slash p of s # ss \<Rightarrow> s = [] \<and> ss \<noteq> [] \<and> list_all mount_segment ss | [] \<Rightarrow> False)"

text \<open>\<^verbatim>\<open>^[a-z0-9][a-z0-9.-]{1,61}[a-z0-9]$\<close>.\<close>

definition s3BucketPattern :: "string \<Rightarrow> bool" where
  "s3BucketPattern s \<longleftrightarrow> 3 \<le> length s \<and> length s \<le> 63 \<and> lower_alnum (hd s) \<and> lower_alnum (last s) \<and>
     list_all (\<lambda>c. lower_alnum c \<or> c = CHR ''.'' \<or> c = CHR ''-'') s"

definition awsDevMountPointAllowed :: "string \<Rightarrow> bool" where
  "awsDevMountPointAllowed p \<longleftrightarrow> p = ''/data'' \<or> p = ''/var/lib/etcd'' \<or>
     list_ex (HasPrefix p) [''/mnt/'', ''/data/'', ''/srv/'']"

definition validateAWSDevUpOptions :: "awsDevUpOptions \<Rightarrow> string option" where
  "validateAWSDevUpOptions opts =
     (case validateClusterName (duName opts) of Some e \<Rightarrow> Some e
      | None \<Rightarrow>
          if length (duName opts) < 3 then Some (''--name must be at least 3 characters, got '' @ duName opts)
          else if duCount opts < 1 \<or> duCount opts > maxAWSDevCount
          then Some (''--count must be between 1 and '' @ show_int maxAWSDevCount @ '', got '' @ show_int (duCount opts))
          else (case find (\<lambda>(flag, v). TrimSpace v = [])
                       [(''--instance-profile'', duIAMInstanceProfile opts), (''--bucket'', duBucket opts)] of
                  Some (flag, _) \<Rightarrow> Some (flag @ '' is required'')
                | None \<Rightarrow>
          if duArch opts \<noteq> ''amd64'' \<and> duArch opts \<noteq> ''arm64'' then Some (''--arch must be amd64 or arm64, got '' @ duArch opts)
          else if duVolumeSizeGB opts < 1 \<or> duVolumeSizeGB opts > 16384
          then Some (''--volume-size-gb must be between 1 and 16384, got '' @ show_int (duVolumeSizeGB opts))
          else if duVolumeIOPS opts \<noteq> 0 \<and> (duVolumeIOPS opts < 3000 \<or> duVolumeIOPS opts > 1000000)
          then Some (''--volume-iops must be 0 or at least 3000 (gp3 baseline), got '' @ show_int (duVolumeIOPS opts))
          else if duVolumeThroughput opts \<noteq> 0 \<and> (duVolumeThroughput opts < 125 \<or> duVolumeThroughput opts > 100000)
          then Some (''--volume-throughput must be 0 or at least 125 MiB/s (gp3 baseline), got '' @ show_int (duVolumeThroughput opts))
          else if \<not> awsDevMountPointPattern (duMountPoint opts)
          then Some (''--mount-point must be an absolute path of [A-Za-z0-9._-] segments not starting with . , got '' @ duMountPoint opts)
          else if \<not> awsDevMountPointAllowed (duMountPoint opts)
          then Some (''--mount-point '' @ duMountPoint opts @ '' must be /data, /var/lib/etcd, or under /mnt/, /data/, or /srv/'')
          else if \<not> s3BucketPattern (duBucket opts) then Some (''--bucket '' @ duBucket opts @ '' is not a valid S3 bucket name'')
          else None))"

section \<open>Names and tags\<close>

definition awsDevOwnerTag :: string where "awsDevOwnerTag = ''etcd-infra.dev-owner''"

definition awsDevTags :: "string \<Rightarrow> string \<Rightarrow> (string \<times> string) list" where
  "awsDevTags name ownerToken =
     [(''etcd-infra.cluster'', name), (''etcd-infra.role'', awsDevRole), (awsDevOwnerTag, ownerToken)]"

definition awsDevResultsURI :: "string \<Rightarrow> string \<Rightarrow> string" where
  "awsDevResultsURI bucket name = ''s3://'' @ bucket @ ''/etcd-infra/dev/'' @ name @ ''/''"

definition awsDevVolumePerf :: "int \<Rightarrow> int \<Rightarrow> string" where
  "awsDevVolumePerf iops throughput =
     (if iops > 0 then show_int iops @ '' IOPS'' else ''3000 IOPS (baseline)'') @ '', '' @
     (if throughput > 0 then show_int throughput @ '' MiB/s'' else ''125 MiB/s (baseline)'')"

definition printAWSDevPlan :: "awsDevUpOptions \<Rightarrow> string \<Rightarrow> string list" where
  "printAWSDevPlan opts amiParameter =
     (let ami = (if duAMI opts = [] then ''latest Ubuntu '' @ duUbuntuRelease opts @ '' ('' @ amiParameter @ '', pinned at creation)'' else duAMI opts);
          vpc = (if duVPCID opts = [] then ''the region'' @ [squote] @ ''s default VPC'' else duVPCID opts);
          joined = Join '','' (duSubnetIDs opts);
          subnets = (if joined = [] then ''every subnet in the VPC'' else joined)
      in [''AWS dev group dry run: '' @ duName opts,
          ''  launch template + Auto Scaling group '' @ duName opts @ '': '' @ show_int (duCount opts) @ '' x '' @ duInstanceType opts @
            '' ('' @ duArch opts @ ''), AMI '' @ ami,
          ''  network: existing VPC '' @ vpc @ '', subnets: '' @ subnets @ '' (nothing is created in the VPC)'',
          ''  data volume per box: '' @ show_int (duVolumeSizeGB opts) @ '' GiB encrypted gp3, '' @
            awsDevVolumePerf (duVolumeIOPS opts) (duVolumeThroughput opts) @ '', mounted at '' @ duMountPoint opts @ '' (deleted with the box)'',
          ''  results: '' @ awsDevResultsURI (duBucket opts) (duName opts) @ ''<instance-id>/'',
          ''rerun with --dry-run=false to create the group''])"

section \<open>Scripts\<close>

text \<open>The user data of a box: preparation, the data volume, the AWS CLI, and last the file with its environment.\<close>

definition setup_head :: "awsState \<Rightarrow> string list" where
  "setup_head state =
     [''#!/bin/bash'',
      ''# etcd-infra dev box first-boot setup (dev group '' @ Quote (asName state) @ '').'',
      ''exec >>'' @ awsDevSetupLog @ '' 2>&1'',
      ''mkdir -p '' @ [dquote] @ ''$(dirname '' @ awsDevSetupExitFile @ '')'' @ [dquote],
      ''rm -f '' @ awsDevSetupExitFile,
      ''trap '' @ [squote] @ ''code=$?; echo '' @ in_quotes ''$code'' @ '' > '' @ awsDevSetupExitFile @ ''.tmp && mv '' @ awsDevSetupExitFile @ ''.tmp '' @ awsDevSetupExitFile @ [squote] @ '' EXIT'',
      ''set -euxo pipefail'',
      ''export PATH='' @ in_quotes ''$PATH:/snap/bin'',
      ''# Not every Ubuntu AMI ships the SSM agent; without it the box is unreachable.'',
      ''if ! pgrep -f amazon-ssm-agent >/dev/null 2>&1; then'',
      ''    snap wait system seed.loaded'',
      ''    for _ in $(seq 1 30); do'',
      ''        snap install amazon-ssm-agent --classic && break'',
      ''        sleep 5'',
      ''    done'',
      ''fi'']"

definition setup_cli :: "string list" where
  "setup_cli =
     [''if ! command -v aws >/dev/null 2>&1; then'',
      ''    snap wait system seed.loaded || true'',
      ''    for _ in $(seq 1 12); do'',
      ''        snap install aws-cli --classic && break'',
      ''        sleep 5'',
      ''    done'',
      ''    if ! command -v aws >/dev/null 2>&1; then'',
      ''        export DEBIAN_FRONTEND=noninteractive'',
      ''        apt-get -o DPkg::Lock::Timeout=300 update -q'',
      ''        apt-get -o DPkg::Lock::Timeout=300 install -y -q unzip curl'',
      ''        tmp='' @ in_quotes ''$(mktemp -d)'',
      ''        curl -fsSL '' @ in_quotes ''https://awscli.amazonaws.com/awscli-exe-linux-$(uname -m).zip'' @ '' -o '' @ in_quotes ''$tmp/awscliv2.zip'',
      ''        unzip -q '' @ in_quotes ''$tmp/awscliv2.zip'' @ '' -d '' @ in_quotes ''$tmp'',
      ''        '' @ in_quotes ''$tmp/aws/install'' @ '' --update'',
      ''        rm -rf '' @ in_quotes ''$tmp'',
      ''    fi'',
      ''fi'',
      ''aws --version'']"

definition setup_env :: "awsState \<Rightarrow> awsDevState \<Rightarrow> string list" where
  "setup_env state dev =
     [''instance_id='' @ in_quotes ''$(cat /var/lib/cloud/data/instance-id)'',
      ''[ -n '' @ in_quotes ''$instance_id'' @ '' ]'',
      ''results='' @ Quote (dvResultsURI dev) @ in_quotes ''${instance_id}/'',
      ''export AWS_REGION='' @ Quote (asRegion state) @ '' AWS_DEFAULT_REGION='' @ Quote (asRegion state),
      ''echo '' @ in_quotes ''ready $(date -u)'' @ '' | aws s3 cp - '' @ in_quotes ''${results}.dev-ready'',
      ''findmnt '' @ Quote (dvMountPoint dev),
      ''cat > '' @ awsDevEnvFile @ ''.tmp <<EOF'',
      ''export ETCD_INFRA_DEV_NAME='' @ Quote (asName state),
      ''export ETCD_INFRA_DEV_INSTANCE_ID=${instance_id}'',
      ''export ETCD_INFRA_DEV_DIR='' @ Quote (dvMountPoint dev),
      ''export ETCD_INFRA_DEV_RESULTS=${results}'',
      ''export AWS_REGION='' @ Quote (asRegion state),
      ''export AWS_DEFAULT_REGION='' @ Quote (asRegion state),
      ''case '' @ [dquote] @ '':'' @ [backslash] @ ''$PATH:'' @ in_quotes '' in *:/snap/bin:*) ;; *) export PATH='' @ [backslash] @ ''$PATH:/snap/bin'' @ [dquote] @ '' ;; esac'',
      ''EOF'',
      ''chmod 0644 '' @ awsDevEnvFile @ ''.tmp'',
      ''mv '' @ awsDevEnvFile @ ''.tmp '' @ awsDevEnvFile]"

definition awsDevUserData :: "awsState \<Rightarrow> awsDevState \<Rightarrow> string" where
  "awsDevUserData state dev = unlines (setup_head state) @ awsDataVolumeSetupScript (dvMountPoint dev) @ [line_feed] @
     unlines setup_cli @ unlines (setup_env state dev)"

definition awsDevSetupWaitScript :: string where
  "awsDevSetupWaitScript = (let polls = (awsDevSetupTimeout - 60 * second) div (5 * second) in unlines
     [''for _ in $(seq 1 '' @ show_int polls @ ''); do [ -e '' @ awsDevSetupExitFile @ '' ] && break; sleep 5; done'',
      ''if [ ! -e '' @ awsDevSetupExitFile @ '' ]; then echo '' @ [dquote] @ ''setup still running; last lines of '' @ awsDevSetupLog @ '':'' @ [dquote] @ '' >&2; tail -n 40 '' @ awsDevSetupLog @ '' >&2; exit 1; fi'',
      ''code='' @ [dquote] @ ''$(cat '' @ awsDevSetupExitFile @ '')'' @ [dquote],
      ''if [ '' @ in_quotes ''$code'' @ '' != 0 ]; then echo '' @ [dquote] @ ''setup failed (exit $code); last lines of '' @ awsDevSetupLog @ '':'' @ [dquote] @ '' >&2; tail -n 40 '' @ awsDevSetupLog @ '' >&2; exit 1; fi''])"

definition awsDevRunScript :: "string \<Rightarrow> string" where
  "awsDevRunScript userScript = unlines
     [''if ! . '' @ awsDevEnvFile @ '' 2>/dev/null; then echo '' @ [dquote] @ ''etcd-infra: '' @ awsDevEnvFile @ '' missing: first-boot setup has not finished or failed; see '' @ awsDevSetupLog @ [dquote] @ '' >&2; exit 97; fi'',
      ''cd '' @ in_quotes ''$ETCD_INFRA_DEV_DIR'' @ '' || exit 97'',
      userScript]"

section \<open>A single etcd member on a box\<close>

record awsDevEtcdBinary =
  ebPath :: string
  ebName :: string
  ebSHA256 :: string
  ebURI :: string

definition awsDevEtcdHealthPolls :: int where "awsDevEtcdHealthPolls = 60"

text \<open>The lines of all binaries; the last one loses its line feed.\<close>

definition s3_install :: "awsDevEtcdBinary \<Rightarrow> string list" where
  "s3_install bin =
     [''aws s3 cp --only-show-errors '' @ Quote (ebURI bin) @ '' '' @ [dquote] @ ''$tmp/'' @ ebName bin @ [dquote],
      ''echo '' @ ebSHA256 bin @ [dquote] @ ''  $tmp/'' @ ebName bin @ [dquote] @ '' | sha256sum -c -'',
      ''install -m 0755 '' @ [dquote] @ ''$tmp/'' @ ebName bin @ [dquote] @ '' /usr/local/bin/'' @ ebName bin]"

definition awsDevEtcdS3InstallScript :: "awsDevEtcdBinary list \<Rightarrow> string" where
  "awsDevEtcdS3InstallScript binaries = script_lines (concat (map s3_install binaries))"

definition awsDevEtcdScript :: "clusterMember \<Rightarrow> string \<Rightarrow> string \<Rightarrow> string \<Rightarrow> string list \<Rightarrow> string list \<Rightarrow> bool \<Rightarrow> string" where
  "awsDevEtcdScript m token dataDir install extraArgs env resetData =
     (let execStart = JoinArgs ([''/usr/local/bin/etcd''] @ etcdServerArgs m [m] token dataDir @ extraArgs);
          reset = (if resetData then unlines [''systemctl stop etcd-infra.service'', ''rm -rf -- '' @ Quote dataDir] else [])
      in unlines
     [''set -euo pipefail'',
      ''tmp='' @ in_quotes ''$(mktemp -d)'',
      ''trap '' @ [squote] @ ''rm -rf '' @ in_quotes ''$tmp'' @ [squote] @ '' EXIT'',
      install] @
     awsEtcdUnitScript env execStart @ reset @ unlines
     [''install -d -m 0700 '' @ Quote dataDir,
      ''systemctl enable etcd-infra.service'',
      ''systemctl restart etcd-infra.service'',
      ''for _ in $(seq 1 '' @ show_int awsDevEtcdHealthPolls @ ''); do'',
      ''    if curl -fsS --max-time 2 http://127.0.0.1:2379/health >/dev/null 2>&1; then'',
      ''        /usr/local/bin/etcd --version'',
      ''        exit 0'',
      ''    fi'',
      ''    sleep 2'',
      ''done'',
      ''echo '' @ in_quotes ''etcd is not healthy after restart; unit status and journal follow'' @ '' >&2'',
      ''systemctl --no-pager status etcd-infra.service >&2 || true'',
      ''journalctl -u etcd-infra.service --no-pager -n 40 >&2 || true'',
      ''exit 1''])"

text \<open>\<^verbatim>\<open>strings.Lines\<close> with the spaces trimmed: the line feed that ends a line is one of them.\<close>

definition awsDevEtcdVersion :: "string \<Rightarrow> string" where
  "awsDevEtcdVersion stdout =
     (case find (\<lambda>l. HasPrefix l ''etcd Version: '') (map TrimSpace (Split line_feed stdout)) of
        None \<Rightarrow> ''unknown'' | Some l \<Rightarrow> drop (length ''etcd Version: '') l)"

end
