(* ===== verification/AwsDev.thy ===== *)
theory AwsDev
  imports AwsDevScripts AwsCluster
begin

text \<open>
  The commands \<^verbatim>\<open>aws dev up\<close>, \<^verbatim>\<open>scale\<close>, \<^verbatim>\<open>run\<close>, \<^verbatim>\<open>status\<close> and \<^verbatim>\<open>down\<close> of \<^verbatim>\<open>src/cmd/etcd-infra/aws_dev.go\<close>, from
  their parsed flags on. A command is a program on two states: that of the state file (\<open>'d\<close>) and that of the
  cloud, with its clock (\<open>'w timed\<close>); \<open>cloud\<close> and \<open>disk_read\<close>, \<open>disk_do\<close> run a step of one of them. The manager is
  the one of \<open>LaunchGroup\<close>. What a command writes to standard output is its result; progress messages are
  left out. The goroutines that wait for the boxes, or run a command on them, work on different instances and share
  nothing; they are modelled one after the other, in the order of the instances.
\<close>

section \<open>Commands\<close>

datatype dev_error = DvMsg string | DvProvider provider_error | DvWrap string dev_error | DvState state_error
  | DvStat errno | DvRemove errno | DvSetup dev_error string string | DvKept dev_error string | DvJoin "dev_error list"

type_synonym ('d, 'a, 'w) command = "(dev_error, 'a, 'd \<times> 'w timed) prog"

definition cloud :: "(provider_error, 'a, 'w timed) prog \<Rightarrow> ('d, 'a, 'w) command" where
  "cloud m s = map_option (\<lambda>(r, tw). (map_sum DvProvider id r, (fst s, tw))) (m (snd s))"

definition disk_read :: "('d \<Rightarrow> (state_error + 'a) \<times> 'd) \<Rightarrow> ('d, 'a, 'w) command" where
  "disk_read f s = (case f (fst s) of (r, d) \<Rightarrow> Some (map_sum DvState id r, (d, snd s)))"

definition disk_do :: "('e \<Rightarrow> dev_error) \<Rightarrow> ('d \<Rightarrow> 'e option \<times> 'd) \<Rightarrow> ('d, unit, 'w) command" where
  "disk_do g f s = (case f (fst s) of (e, d) \<Rightarrow> Some (case e of None \<Rightarrow> Inr () | Some x \<Rightarrow> Inl (g x), (d, snd s)))"

text \<open>What the commands take from their environment: the result of \<^verbatim>\<open>os.UserHomeDir\<close>, the operations on the state
  file at a path, the AWS configuration of a region (its region and the manager made from it), 16 random bytes, and the
  order in which Go visits the entries of a map.\<close>

record ('d, 'w) dev_env =
  deHome :: "string + string"
  deStore :: "string \<Rightarrow> 'd state_ops"
  deLoadConfig :: "(string, string \<times> 'w manager, provider_error, 'w) api"
  deRandom :: "(unit, string, provider_error, 'w) api"
  deOrder :: "(string \<times> string) list \<Rightarrow> (string \<times> string) list"

text \<open>Something for every box, keeping what each came to.\<close>

fun each :: "('i \<Rightarrow> ('e, 'a, 's) prog) \<Rightarrow> 'i list \<Rightarrow> ('f, ('e + 'a) list, 's) prog" where
  "each f [] = ok []"
| "each f (x # xs) = attempt (f x) (\<lambda>r. seq (each f xs) (\<lambda>rs. ok (r # rs)))"

definition errors_of :: "('e + 'a) list \<Rightarrow> 'e list" where
  "errors_of rs = List.map_filter (\<lambda>r. case r of Inl e \<Rightarrow> Some e | Inr _ \<Rightarrow> None) rs"

definition awsDevCapacityTimeout :: int where "awsDevCapacityTimeout = 10 * 60 * second"

definition awsDevTeardownTimeout :: int where "awsDevTeardownTimeout = 15 * 60 * second"

definition awsDevPollInterval :: int where "awsDevPollInterval = 10 * second"

definition awsReadyTimeout :: int where "awsReadyTimeout = 10 * 60 * second"

definition ssmOutputLimit :: nat where "ssmOutputLimit = 24000"

section \<open>The state of a group\<close>

definition awsDevIsLegacy :: "awsState \<Rightarrow> awsDevState \<Rightarrow> bool" where
  "awsDevIsLegacy state dev \<longleftrightarrow> dvOwnerToken dev = [] \<and> asInstances state \<noteq> []"

text \<open>The state, what it says of the group, and the path of the file.\<close>

definition readAWSDevState :: "('d, 'w) dev_env \<Rightarrow> string \<Rightarrow> ('d, awsState \<times> awsDevState \<times> string, 'w) command" where
  "readAWSDevState env name =
     seq (check (map_option DvMsg (validateClusterName name))) (\<lambda>_.
     (case awsStatePath (deHome env) name of
        Inl e \<Rightarrow> fail (DvState e)
      | Inr p \<Rightarrow>
          seq (disk_read (stRead (deStore env p))) (\<lambda>state.
            (case asDev state of
               None \<Rightarrow> fail (DvMsg (name @ '' is an etcd cluster, not a dev group; use the aws cluster commands''))
             | Some dev \<Rightarrow>
                 if dvAccountID dev = [] then fail (DvMsg (''invalid dev group state '' @ p @ '': missing account''))
                 else if \<not> awsDevIsLegacy state dev \<and> (dvAutoScalingGroup dev = [] \<or> dvLaunchTemplate dev = [] \<or> dvOwnerToken dev = [])
                 then fail (DvMsg (''invalid dev group state '' @ p @ '': missing Auto Scaling group, launch template, or owner token''))
                 else ok (state, dev, p)))))"

definition readAWSDevGroupState :: "('d, 'w) dev_env \<Rightarrow> string \<Rightarrow> ('d, awsState \<times> awsDevState \<times> string, 'w) command" where
  "readAWSDevGroupState env name =
     seq (readAWSDevState env name) (\<lambda>(state, dev, p).
       if awsDevIsLegacy state dev
       then fail (DvMsg (name @ '' is a single-instance dev box from an older etcd-infra; run etcd-infra aws dev down --name '' @ name @
              '' and recreate it with aws dev up''))
       else ok (state, dev, p))"

definition removeAWSState :: "'d state_ops \<Rightarrow> ('d, unit, 'w) command" where
  "removeAWSState st = attempt (disk_do DvRemove (stRemove st)) (\<lambda>r. case r of
      Inl (DvRemove e) \<Rightarrow> if e = ENOENT then ok () else fail (DvRemove e) | Inl e \<Rightarrow> fail e | Inr _ \<Rightarrow> ok ())"

definition load_config :: "('d, 'w) dev_env \<Rightarrow> string \<Rightarrow> ('d, string \<times> 'w manager, 'w) command" where
  "load_config env region = wrap (DvWrap ''load AWS configuration'') (cloud (call (deLoadConfig env) region))"

definition awsDevManager :: "('d, 'w) dev_env \<Rightarrow> awsState \<Rightarrow> ('d, 'w manager, 'w) command" where
  "awsDevManager env state = seq (load_config env (asRegion state)) (\<lambda>cfg. ok (snd cfg))"

definition awsDevSetupError :: "string \<Rightarrow> awsState \<Rightarrow> dev_error \<Rightarrow> dev_error" where
  "awsDevSetupError p state e = DvSetup e p (asName state)"

definition awsDevLaunchGroupSpec :: "awsState \<Rightarrow> awsDevState \<Rightarrow> string \<Rightarrow> LaunchGroupSpec" where
  "awsDevLaunchGroupSpec state dev instanceProfile =
     \<lparr>lsName = dvLaunchTemplate dev, lsSubnetIDs = dvSubnetIDs dev, lsSecurityGroupIDs = dvSecurityGroupIDs dev, lsImageID = dvAMI dev,
      lsInstanceType = dvInstanceType dev, lsIAMInstanceProfile = instanceProfile, lsUserData = awsDevUserData state dev,
      lsDataVolumeSizeGB = word_of_int (dvVolumeSizeGB dev), lsDataVolumeIOPS = word_of_int (dvVolumeIOPS dev),
      lsDataVolumeThroughputMiBps = word_of_int (dvVolumeThroughputMiBps dev), lsTags = awsDevTags (asName state) (dvOwnerToken dev),
      lsCount = word_of_int (dvCount dev)\<rparr>"

section \<open>Waiting for the boxes\<close>

definition awsDevAwaitSetup :: "'w manager \<Rightarrow> string \<Rightarrow> (provider_error, unit, 'w timed) prog" where
  "awsDevAwaitSetup m iid =
     seq (wrap (PWrap ''wait for SSM'') (WaitForReady m iid awsReadyTimeout)) (\<lambda>ready.
     seq (wrap (PWrap ''check first-boot setup'')
       (RunCommandWithOptionsEC2 m ready [''bash'', ''-c'', awsDevSetupWaitScript] (Some (run_options awsDevSetupTimeout)))) (\<lambda>res.
     demand (erExitCode res = 0) (PMsg (''first-boot setup: '' @ TrimSpace (erStderr res @ [line_feed] @ erStdout res)))))"

definition awsDevAwaitCapacity :: "'w manager \<Rightarrow> awsDevState \<Rightarrow> (provider_error, unit, 'w timed) prog" where
  "awsDevAwaitCapacity m dev =
     seq (WaitForGroupSize m (dvAutoScalingGroup dev) (dvCount dev) awsDevCapacityTimeout awsDevPollInterval) (\<lambda>ids.
     seq (each (\<lambda>iid. wrap (PWrap iid) (awsDevAwaitSetup m iid)) ids) (\<lambda>rs.
     demand (errors_of rs = []) (PJoin (errors_of rs))))"

section \<open>Status\<close>

definition member_line :: "'w manager \<Rightarrow> awsDevState \<Rightarrow> GroupMember \<Rightarrow> (provider_error, string, 'w timed) prog" where
  "member_line m dev g = attempt (GetEC2 m (gmID g)) (\<lambda>r.
     (let ip = (case r of Inl _ \<Rightarrow> [] | Inr i \<Rightarrow> efPrivateIPv4 i) in
      ok (''instance='' @ gmID g @ '' lifecycle='' @ gmLifecycleState g @ '' health='' @ gmHealthStatus g @ '' az='' @ gmAvailabilityZone g @
          '' private_ipv4='' @ ip @ '' results_uri='' @ dvResultsURI dev @ gmID g @ ''/'')))"

definition status_head :: "string \<Rightarrow> awsState \<Rightarrow> awsDevState \<Rightarrow> string \<Rightarrow> string list" where
  "status_head groupState state dev p =
     [''name='' @ asName state, ''region='' @ asRegion state, ''account_id='' @ dvAccountID dev, ''vpc_id='' @ dvVPCID dev,
      ''subnet_ids='' @ Join '','' (dvSubnetIDs dev), ''security_group_ids='' @ Join '','' (dvSecurityGroupIDs dev),
      ''auto_scaling_group='' @ dvAutoScalingGroup dev, ''auto_scaling_group_state='' @ groupState,
      ''launch_template_id='' @ dvLaunchTemplateID dev, ''launch_template_version='' @ show_int (dvLaunchTemplateVersion dev),
      ''instance_type='' @ dvInstanceType dev, ''ami='' @ dvAMI dev, ''count='' @ show_int (dvCount dev),
      ''mount_point='' @ dvMountPoint dev, ''volume_size_gb='' @ show_int (dvVolumeSizeGB dev),
      ''volume_performance='' @ awsDevVolumePerf (dvVolumeIOPS dev) (dvVolumeThroughputMiBps dev),
      ''results_uri='' @ dvResultsURI dev, ''state_file='' @ p]"

definition printAWSDevStatus :: "'w manager \<Rightarrow> string \<Rightarrow> awsState \<Rightarrow> awsDevState \<Rightarrow> (provider_error, string list, 'w timed) prog" where
  "printAWSDevStatus m p state dev =
     seq (GroupMembers m (dvAutoScalingGroup dev)) (\<lambda>found.
     seq (each (member_line m dev) (case found of None \<Rightarrow> [] | Some members \<Rightarrow> members)) (\<lambda>ls.
     ok (status_head (case found of None \<Rightarrow> ''missing'' | Some _ \<Rightarrow> ''active'') state dev p @
         List.map_filter (\<lambda>r. case r of Inl _ \<Rightarrow> None | Inr l \<Rightarrow> Some l) ls)))"

definition runAWSDevStatus :: "('d, 'w) dev_env \<Rightarrow> string \<Rightarrow> ('d, string list, 'w) command" where
  "runAWSDevStatus env name =
     seq (readAWSDevGroupState env name) (\<lambda>(state, dev, p).
     seq (awsDevManager env state) (\<lambda>m. cloud (printAWSDevStatus m p state dev)))"

section \<open>Up\<close>

definition resolveAWSDevNetwork :: "'w manager \<Rightarrow> awsDevUpOptions \<Rightarrow> (provider_error, awsDevUpOptions, 'w timed) prog" where
  "resolveAWSDevNetwork m opts =
     seq (if duVPCID opts = [] then wrap (PWrap ''resolve VPC (pass --vpc or set $ETCD_INFRA_AWS_VPC)'') (DefaultVPCID m)
          else ok (duVPCID opts)) (\<lambda>vpc.
     seq (if duSubnetIDs opts = []
          then seq (SubnetsInVPC m vpc) (\<lambda>subnets. if subnets = [] then fail (PMsg (''VPC '' @ vpc @ '' has no subnets'')) else ok (sort_Strings subnets))
          else ok (duSubnetIDs opts)) (\<lambda>subnets.
     seq (if duSecurityGroupIDs opts = [] then seq (DefaultSecurityGroupID m vpc) (\<lambda>g. ok [g]) else ok (duSecurityGroupIDs opts)) (\<lambda>groups.
     ok (opts\<lparr>duVPCID := vpc, duSubnetIDs := subnets, duSecurityGroupIDs := groups\<rparr>))))"

text \<open>\<^verbatim>\<open>hex.EncodeToString\<close> of the random bytes.\<close>

definition hex_digit :: "nat \<Rightarrow> char" where "hex_digit k = (''0123456789abcdef'' ! k)"

definition hex :: "string \<Rightarrow> string" where
  "hex b = concat (map (\<lambda>c. [hex_digit (of_char c div 16), hex_digit (of_char c mod 16)]) b)"

definition newAWSDevOwnerToken :: "('d, 'w) dev_env \<Rightarrow> (provider_error, string, 'w timed) prog" where
  "newAWSDevOwnerToken env = seq (wrap (PWrap ''generate owner token'') (call (deRandom env) ())) (\<lambda>b. ok (hex b))"

text \<open>The state that is recorded before anything is created.\<close>

definition dev_record :: "awsDevUpOptions \<Rightarrow> string \<Rightarrow> string \<Rightarrow> awsDevState" where
  "dev_record opts accountID ownerToken =
     \<lparr>dvAccountID = accountID, dvVPCID = duVPCID opts, dvSubnetIDs = duSubnetIDs opts, dvSecurityGroupIDs = duSecurityGroupIDs opts,
      dvAMI = duAMI opts, dvInstanceType = duInstanceType opts, dvMountPoint = duMountPoint opts, dvVolumeSizeGB = duVolumeSizeGB opts,
      dvVolumeIOPS = duVolumeIOPS opts, dvVolumeThroughputMiBps = duVolumeThroughput opts, dvBucket = duBucket opts,
      dvResultsURI = awsDevResultsURI (duBucket opts) (duName opts), dvCount = duCount opts, dvAutoScalingGroup = duName opts,
      dvLaunchTemplate = duName opts, dvLaunchTemplateID = [], dvLaunchTemplateVersion = 0, dvOwnerToken = ownerToken\<rparr>"

definition dev_state :: "awsDevUpOptions \<Rightarrow> string \<Rightarrow> awsDevState \<Rightarrow> awsState" where
  "dev_state opts region dev =
     \<lparr>asName = duName opts, asRegion = region, asVersion = [], asInstances = [], asStressClients = [], asArch = duArch opts,
      asExtraArgs = [], asEnv = [], asBinaryURL = [], asBinarySHA256 = [], asReplaceable = False, asDev = Some dev\<rparr>"

definition save_state :: "'d state_ops \<Rightarrow> awsState \<Rightarrow> ('d, unit, 'w) command" where
  "save_state st state = disk_do (\<lambda>e. DvWrap ''save AWS state'' (DvState e)) (stWrite st state)"

text \<open>A name that belongs to another group: the state is removed again and both errors are reported.\<close>

definition give_up :: "'d state_ops \<Rightarrow> string \<Rightarrow> ('d, 'a, 'w) command" where
  "give_up st msg = attempt (removeAWSState st) (\<lambda>r. fail (DvJoin (DvMsg msg # (case r of Inl e \<Rightarrow> [e] | Inr _ \<Rightarrow> []))))"

definition create_template :: "'w manager \<Rightarrow> 'd state_ops \<Rightarrow> string \<Rightarrow> awsState \<Rightarrow> LaunchGroupSpec \<Rightarrow> ('d, string \<times> int, 'w) command" where
  "create_template m st p state spec =
     attempt (cloud (CreateLaunchTemplate m spec)) (\<lambda>r. case r of
        Inr tv \<Rightarrow> ok tv
      | Inl (DvProvider e) \<Rightarrow>
          if already_exists e
          then give_up st (''launch template '' @ asName state @ '' already exists in '' @ asRegion state @ ''; pick another --name'')
          else fail (awsDevSetupError p state (DvProvider e))
      | Inl e \<Rightarrow> fail (awsDevSetupError p state e))"

definition create_group :: "'w manager \<Rightarrow> 'd state_ops \<Rightarrow> string \<Rightarrow> awsState \<Rightarrow> LaunchGroupSpec \<Rightarrow> string \<times> int \<Rightarrow> ('d, unit, 'w) command" where
  "create_group m st p state spec tv =
     attempt (cloud (CreateAutoScalingGroup m spec (fst tv) (snd tv))) (\<lambda>r. case r of
        Inr _ \<Rightarrow> ok ()
      | Inl (DvProvider e) \<Rightarrow>
          if already_exists e
          then attempt (cloud (DeleteLaunchTemplate m (fst tv))) (\<lambda>d. case d of
                 Inl delErr \<Rightarrow> fail (awsDevSetupError p state (DvJoin [DvProvider e, delErr]))
               | Inr _ \<Rightarrow> give_up st (''auto scaling group '' @ asName state @ '' already exists in '' @ asRegion state @ ''; pick another --name''))
          else fail (awsDevSetupError p state (DvProvider e))
      | Inl e \<Rightarrow> fail (awsDevSetupError p state e))"

definition up_created :: "'w manager \<Rightarrow> 'd state_ops \<Rightarrow> string \<Rightarrow> awsDevUpOptions \<Rightarrow> string \<Rightarrow> awsDevState \<Rightarrow> ('d, string list, 'w) command" where
  "up_created m st p opts region dev =
     (let state = dev_state opts region dev; spec = awsDevLaunchGroupSpec state dev (duIAMInstanceProfile opts) in
      seq (save_state st state) (\<lambda>_.
      seq (create_template m st p state spec) (\<lambda>tv.
        (let dev1 = dev\<lparr>dvLaunchTemplateID := fst tv, dvLaunchTemplateVersion := snd tv\<rparr>; state1 = dev_state opts region dev1 in
         seq (wrap (awsDevSetupError p state1) (save_state st state1)) (\<lambda>_.
         seq (create_group m st p state1 spec tv) (\<lambda>_.
         seq (wrap (awsDevSetupError p state1) (cloud (awsDevAwaitCapacity m dev1))) (\<lambda>_.
         cloud (printAWSDevStatus m p state1 dev1))))))))"

text \<open>Account, network, image and token.\<close>

definition up_resolved :: "('d, 'w) dev_env \<Rightarrow> 'w manager \<Rightarrow> awsDevUpOptions \<Rightarrow> string \<Rightarrow>
    (provider_error, awsDevUpOptions \<times> awsDevState, 'w timed) prog" where
  "up_resolved env m opts amiParameter =
     seq (wrap (PWrap ''identify AWS account'') (AccountID m)) (\<lambda>accountID.
     seq (resolveAWSDevNetwork m opts) (\<lambda>opts1.
     seq (if amiParameter \<noteq> []
          then wrap (PWrap ''resolve Ubuntu AMI (grant ssm:GetParameters on the public parameter, or pass --ami)'') (ResolveSSMParameter m amiParameter)
          else ok (duAMI opts1)) (\<lambda>ami.
     seq (newAWSDevOwnerToken env) (\<lambda>token.
       (let opts2 = opts1\<lparr>duAMI := ami\<rparr> in ok (opts2, dev_record opts2 accountID token))))))"

definition stat_free :: "'d state_ops \<Rightarrow> string \<Rightarrow> string \<Rightarrow> ('d, unit, 'w) command" where
  "stat_free st p name = attempt (disk_do DvStat (stStat st)) (\<lambda>r. case r of
      Inr _ \<Rightarrow> fail (DvMsg (''AWS state already exists at '' @ p @ ''; pick another --name or run etcd-infra aws dev down --name '' @ name))
    | Inl (DvStat e) \<Rightarrow> if e = ENOENT then ok () else fail (DvWrap ''check AWS state'' (DvStat e))
    | Inl e \<Rightarrow> fail e)"

definition runAWSDevUp :: "('d, 'w) dev_env \<Rightarrow> awsDevUpOptions \<Rightarrow> ('d, string list, 'w) command" where
  "runAWSDevUp env opts0 =
     (let opts = (if duInstanceType opts0 = [] then opts0\<lparr>duInstanceType := defaultBastionInstanceType (duArch opts0)\<rparr> else opts0) in
      seq (check (map_option DvMsg (validateAWSDevUpOptions opts))) (\<lambda>_.
      seq (if duAMI opts = []
           then (case UbuntuAMIParameter (duUbuntuRelease opts) (duArch opts) of Inl e \<Rightarrow> fail (DvProvider e) | Inr x \<Rightarrow> ok x)
           else ok []) (\<lambda>amiParameter.
      if duDryRun opts then ok (printAWSDevPlan opts amiParameter)
      else (case awsStatePath (deHome env) (duName opts) of
          Inl e \<Rightarrow> fail (DvState e)
        | Inr p \<Rightarrow>
            seq (stat_free (deStore env p) p (duName opts)) (\<lambda>_.
            seq (load_config env (duRegion opts)) (\<lambda>(region, m).
            seq (demand (region \<noteq> []) (DvMsg ''AWS region is required via --region or AWS configuration'')) (\<lambda>_.
            seq (cloud (up_resolved env m opts amiParameter)) (\<lambda>(opts1, dev).
            up_created m (deStore env p) p opts1 region dev)))))))) "

section \<open>Scale\<close>

definition runAWSDevScale :: "('d, 'w) dev_env \<Rightarrow> string \<Rightarrow> int \<Rightarrow> ('d, string list, 'w) command" where
  "runAWSDevScale env name n =
     (if n < 0 \<or> n > maxAWSDevCount
      then fail (DvMsg (''--count must be between 0 and '' @ show_int maxAWSDevCount @ '', got '' @ show_int n))
      else seq (readAWSDevGroupState env name) (\<lambda>(state, dev, p).
        seq (awsDevManager env state) (\<lambda>m.
        seq (cloud (SetDesiredCapacity m (dvAutoScalingGroup dev) n n n)) (\<lambda>_.
          (let dev1 = dev\<lparr>dvCount := n\<rparr>; state1 = state\<lparr>asDev := Some dev1\<rparr> in
           seq (save_state (deStore env p) state1) (\<lambda>_.
           seq (cloud (awsDevAwaitCapacity m dev1)) (\<lambda>_.
           cloud (printAWSDevStatus m p state1 dev1))))))))"

section \<open>Run\<close>

definition awsDevRunTargets :: "GroupMember list \<Rightarrow> string list \<Rightarrow> provider_error + string list" where
  "awsDevRunTargets members requested =
     (let inService = map gmID (filter InService members) in
      if requested = []
      then (if inService = [] then Inl (PMsg ''the group has no in-service boxes; see aws dev status or aws dev scale'') else Inr inService)
      else (let targets = remdups_adj (sort_Strings requested) in
            case find (\<lambda>iid. iid \<notin> set inService) targets of
              Some iid \<Rightarrow> Inl (PMsg (''instance '' @ iid @ '' is not an in-service box of this group (in service: '' @ Join '', '' inService @ '')''))
            | None \<Rightarrow> Inr targets))"

text \<open>The members to run on, if the group is still there.\<close>

definition group_targets :: "'w manager \<Rightarrow> awsState \<Rightarrow> awsDevState \<Rightarrow> string list \<Rightarrow> (provider_error, string list, 'w timed) prog" where
  "group_targets m state dev requested =
     seq (GroupMembers m (dvAutoScalingGroup dev)) (\<lambda>found.
       (case found of
          None \<Rightarrow> fail (PMsg (''auto scaling group '' @ dvAutoScalingGroup dev @ '' does not exist; run etcd-infra aws dev down --name '' @
                    asName state @ '' to clean up''))
        | Some members \<Rightarrow> (case awsDevRunTargets members requested of Inl e \<Rightarrow> fail e | Inr targets \<Rightarrow> ok targets)))"

definition guest_options :: "int \<Rightarrow> aws_run_options" where
  "guest_options timeout = (run_options timeout)\<lparr>aoProviderConfig := Some True\<rparr>"

definition run_on :: "'w manager \<Rightarrow> string \<Rightarrow> int \<Rightarrow> string \<Rightarrow> (provider_error, ExecuteResult, 'w timed) prog" where
  "run_on m userScript timeout iid =
     seq (GetEC2 m iid) (\<lambda>i. RunCommandWithOptionsEC2 m i [''bash'', ''-c'', awsDevRunScript userScript] (Some (guest_options timeout)))"

text \<open>The report of a run: what goes to standard output, what to standard error, and the boxes it failed on. An error of
  the provider is shown by its value.\<close>

datatype report_line = Text string | RunError string provider_error

definition box_report :: "nat \<Rightarrow> string \<Rightarrow> provider_error + ExecuteResult \<Rightarrow> report_line list \<times> report_line list \<times> string list" where
  "box_report boxes iid r =
     (let out = (if boxes > 1 then [Text (''=== '' @ iid @ '' exit='' @ (case r of Inl _ \<Rightarrow> ''error'' | Inr res \<Rightarrow> show_int (erExitCode res)) @ '' ==='' @ [line_feed])] else []);
          err = (if boxes > 1 then [Text (''=== '' @ iid @ '' ==='' @ [line_feed])] else [])
      in (case r of
            Inl e \<Rightarrow> (out, err @ [RunError iid e], [iid])
          | Inr res \<Rightarrow>
              (out @ [Text (erStdout res)],
               err @ [Text (erStderr res)] @
                 (if length (erStdout res) \<ge> ssmOutputLimit \<or> length (erStderr res) \<ge> ssmOutputLimit
                  then [Text (''warning: SSM caps output at '' @ show_nat ssmOutputLimit @
                    '' characters; write large output under $ETCD_INFRA_DEV_DIR and upload it to $ETCD_INFRA_DEV_RESULTS'' @ [line_feed])] else []),
               if erExitCode res \<noteq> 0 then [iid] else [])))"

definition run_report :: "awsState \<Rightarrow> string list \<Rightarrow> (provider_error + ExecuteResult) list \<Rightarrow>
    report_line list \<times> report_line list \<times> dev_error option" where
  "run_report state targets results =
     (let boxes = map (\<lambda>(iid, r). box_report (length targets) iid r) (zip targets results);
          failed = concat (map (\<lambda>(_, _, f). f) boxes)
      in (concat (map fst boxes), concat (map (fst \<circ> snd) boxes),
          if failed = [] then None
          else Some (DvMsg (''dev group '' @ asName state @ '': remote command failed on '' @ show_nat (length failed) @ '' of '' @
                 show_nat (length targets) @ '' boxes: '' @ Join '', '' failed))))"

record awsDevRunOptions =
  roName :: string
  roInstances :: string
  roScript :: string
  roRunTimeout :: int
  roCommand :: "string list"

text \<open>\<open>script\<close> is the result of reading the file given by \<^verbatim>\<open>--script\<close>. The printed report comes with the error that
  ends the command, if any.\<close>

definition runAWSDevRun :: "('d, 'w) dev_env \<Rightarrow> errno + string \<Rightarrow> awsDevRunOptions \<Rightarrow>
    ('d, report_line list \<times> report_line list \<times> dev_error option, 'w) command" where
  "runAWSDevRun env script ro =
     (if (roScript ro = []) = (roCommand ro = []) then fail (DvMsg ''usage'')
      else if roRunTimeout ro \<le> 0 then fail (DvMsg ''--timeout must be positive'')
      else seq (if roScript ro \<noteq> [] then (case script of Inl e \<Rightarrow> fail (DvWrap ''read --script'' (DvStat e)) | Inr text \<Rightarrow> ok text)
                else ok (JoinArgs (roCommand ro))) (\<lambda>userScript.
           seq (readAWSDevGroupState env (roName ro)) (\<lambda>(state, dev, _).
           seq (awsDevManager env state) (\<lambda>m.
           seq (cloud (group_targets m state dev (splitCSV (roInstances ro)))) (\<lambda>targets.
           seq (cloud (each (run_on m userScript (roRunTimeout ro)) targets)) (\<lambda>results.
           ok (run_report state targets results)))))))"

section \<open>Down\<close>

text \<open>The leftovers that are neither shutting down nor were terminated in an earlier round.\<close>

fun sweep_leftovers :: "'w manager \<Rightarrow> (string \<times> string) list \<Rightarrow> string list \<Rightarrow> (provider_error, string list, 'w timed) prog" where
  "sweep_leftovers m [] terminated = ok terminated"
| "sweep_leftovers m ((iid, state) # rest) terminated =
     (if state = ''shutting-down'' \<or> iid \<in> set terminated then sweep_leftovers m rest terminated
      else attempt (DeleteEC2 m iid) (\<lambda>r. case r of
          Inl e \<Rightarrow> if instance_not_found e then sweep_leftovers m rest (iid # terminated)
                   else fail (PWrap (''terminate leftover instance '' @ iid) e)
        | Inr _ \<Rightarrow> sweep_leftovers m rest (iid # terminated)))"

definition sweep_round :: "('d, 'w) dev_env \<Rightarrow> 'w manager \<Rightarrow> (string \<times> string) list \<Rightarrow> int \<Rightarrow> string list \<Rightarrow>
    (provider_error + unit, string list, 'w timed) prog" where
  "sweep_round env m tags deadline terminated =
     seq (wrap Inl (UnterminatedInstancesTagged m tags)) (\<lambda>remaining.
     if remaining = [] then fail (Inr ())
     else seq (wrap Inl (sweep_leftovers m (deOrder env remaining) terminated)) (\<lambda>terminated1.
       at_time (\<lambda>now.
         if deadline < now
         then fail (Inl (PMsg (''timed out after '' @ duration_string awsDevTeardownTimeout @ '' waiting for instances to terminate: '' @
                Join '', '' (sort_Strings (map fst remaining)))))
         else seq (wrap (\<lambda>e. Inl (PContext [] e)) (sleep (mgWait m) awsDevPollInterval)) (\<lambda>_. ok terminated1))))"

definition awsDevSweepInstances :: "('d, 'w) dev_env \<Rightarrow> 'w manager \<Rightarrow> (string \<times> string) list \<Rightarrow> (provider_error, unit, 'w timed) prog" where
  "awsDevSweepInstances env m tags = at_time (\<lambda>now. iterate (sweep_round env m tags (now + awsDevTeardownTimeout)) [])"

definition owned :: "awsDevState \<Rightarrow> (string \<rightharpoonup> string) \<Rightarrow> bool" where
  "owned dev tags \<longleftrightarrow> (case tags awsDevOwnerTag of None \<Rightarrow> [] | Some v \<Rightarrow> v) = dvOwnerToken dev"

definition awsDevDownGroup :: "('d, 'w) dev_env \<Rightarrow> 'w manager \<Rightarrow> awsState \<Rightarrow> awsDevState \<Rightarrow> (provider_error, unit, 'w timed) prog" where
  "awsDevDownGroup env m state dev =
     seq (AutoScalingGroupTags m (dvAutoScalingGroup dev)) (\<lambda>found.
     seq (case found of
            Some tags \<Rightarrow> if owned dev tags then DeleteAutoScalingGroup m (dvAutoScalingGroup dev) awsDevTeardownTimeout awsDevPollInterval else ok ()
          | None \<Rightarrow> ok ()) (\<lambda>_.
     seq (awsDevSweepInstances env m (awsDevTags (asName state) (dvOwnerToken dev))) (\<lambda>_.
     seq (LaunchTemplateByName m (dvLaunchTemplate dev)) (\<lambda>template.
       (case template of
          Some t \<Rightarrow> if owned dev (lmTags t) then DeleteLaunchTemplate m (lmID t) else ok ()
        | None \<Rightarrow> ok ())))))"

fun awsDevDownLegacy :: "'w manager \<Rightarrow> awsInstanceState list \<Rightarrow> (provider_error, unit, 'w timed) prog" where
  "awsDevDownLegacy m [] = ok ()"
| "awsDevDownLegacy m (box # boxes) =
     attempt (DeleteEC2 m (aiID box)) (\<lambda>r. case r of
        Inl e \<Rightarrow> if instance_not_found e then awsDevDownLegacy m boxes else fail (PWrap (''terminate '' @ aiID box) e)
      | Inr _ \<Rightarrow> seq (wrap (PWrap (''wait for '' @ aiID box @ '' to terminate'')) (WaitForTerminated m (aiID box) awsDevTeardownTimeout)) (\<lambda>_.
          awsDevDownLegacy m boxes))"

definition tear_down :: "('d, 'w) dev_env \<Rightarrow> 'w manager \<Rightarrow> awsState \<Rightarrow> awsDevState \<Rightarrow> (provider_error, unit, 'w timed) prog" where
  "tear_down env m state dev =
     (if awsDevIsLegacy state dev then awsDevDownLegacy m (asInstances state) else awsDevDownGroup env m state dev)"

definition runAWSDevDown :: "('d, 'w) dev_env \<Rightarrow> string \<Rightarrow> ('d, string, 'w) command" where
  "runAWSDevDown env name =
     attempt (readAWSDevState env name) (\<lambda>r. case r of
        Inl (DvState (ErrReadState p e)) \<Rightarrow>
          if e = ENOENT then ok (''no AWS state for '' @ name @ ''; nothing to do'') else fail (DvState (ErrReadState p e))
      | Inl e \<Rightarrow> fail e
      | Inr (state, dev, p) \<Rightarrow>
          seq (awsDevManager env state) (\<lambda>m.
          seq (wrap (\<lambda>e. DvKept (DvWrap ''identify AWS account'' e) p) (cloud (AccountID m))) (\<lambda>account.
          seq (demand (account = dvAccountID dev)
                 (DvKept (DvMsg (''dev group '' @ asName state @ '' was created in account '' @ dvAccountID dev @
                    '' but the credentials are for '' @ account @ ''; use the creating account'')) p)) (\<lambda>_.
          seq (wrap (\<lambda>e. DvKept e p) (cloud (tear_down env m state dev))) (\<lambda>_.
          seq (removeAWSState (deStore env p)) (\<lambda>_.
          ok (''deleted dev group '' @ asName state @
              '' (Auto Scaling group, launch template, instances, and data volumes); results kept at '' @ dvResultsURI dev)))))))"

end
