(* ===== verification/AwsDevSafety.thy ===== *)
theory AwsDevSafety
  imports AwsDev Effects AwsSafety
begin

text \<open>
  What the development group commands do to the cloud and to the state file. \<open>watched\<close> instruments the manager
  with the log of \<open>Effects\<close>: what the services answered (\<open>Saw\<close>) and what was changed. Every deletion of
  \<^verbatim>\<open>aws dev down\<close> is justified by an answer that precedes it in the log; the state file outlives everything that
  \<^verbatim>\<open>aws dev up\<close> created; \<^verbatim>\<open>aws dev run\<close> only reaches boxes of the group.
\<close>

section \<open>The log\<close>

datatype dev_event = SawAccount caller_identity_output | SawGroups string "asg_group list" | SawTemplates string "launch_template list"
  | SawInstances describe_input describe_output | MadeTemplate template_input string | MadeGroup group_input
  | DropTemplate string bool | DropGroup string | DropInstance string | Sent string string | Changed

definition saw :: "dev_event set" where
  "saw = {e. case e of SawAccount _ \<Rightarrow> True | SawGroups _ _ \<Rightarrow> True | SawTemplates _ _ \<Rightarrow> True | SawInstances _ _ \<Rightarrow> True | _ \<Rightarrow> False}"

lemma saw_simps [simp]: "SawAccount a \<in> saw" "SawGroups n g \<in> saw" "SawTemplates n t \<in> saw" "SawInstances x out \<in> saw"
    "MadeTemplate y i \<notin> saw" "MadeGroup z \<notin> saw" "DropTemplate i b \<notin> saw" "DropGroup n \<notin> saw" "DropInstance i \<notin> saw"
    "Sent i line \<notin> saw" "Changed \<notin> saw"
  by (simp_all add: saw_def)

text \<open>The event of an answer, none for an error; the event of a change, whatever is answered.\<close>

abbreviation seen :: "('o \<Rightarrow> 'v) \<Rightarrow> 'e + 'o \<Rightarrow> 'v list" where
  "seen ev r \<equiv> (case r of Inl _ \<Rightarrow> [] | Inr out \<Rightarrow> [ev out])"

abbreviation changing :: "('i, 'o, 'e, 'w) api \<Rightarrow> ('i, 'o, 'e, 'w \<times> dev_event list) api" where
  "changing f \<equiv> noting (\<lambda>_ _. [Changed]) f"

definition watched_ec2 :: "'w ec2API \<Rightarrow> ('w \<times> dev_event list) ec2API" where
  "watched_ec2 c =
     \<lparr>ecRunInstances = changing (ecRunInstances c), ecTerminateInstances = noting (\<lambda>i _. [DropInstance i]) (ecTerminateInstances c),
      ecStopInstances = changing (ecStopInstances c), ecStartInstances = changing (ecStartInstances c),
      ecDescribeSubnets = unnoted (ecDescribeSubnets c), ecDescribeSecurityGroups = unnoted (ecDescribeSecurityGroups c),
      ecDescribeInstances = noting (\<lambda>x. seen (SawInstances x)) (ecDescribeInstances c),
      ecAttachVolume = changing (ecAttachVolume c), ecCreateVolume = changing (ecCreateVolume c),
      ecDetachVolume = changing (ecDetachVolume c), ecDeleteVolume = changing (ecDeleteVolume c),
      ecDescribeVolumes = unnoted (ecDescribeVolumes c)\<rparr>"

definition watched_ssm :: "'w ssmAPI \<Rightarrow> ('w \<times> dev_event list) ssmAPI" where
  "watched_ssm s =
     \<lparr>smSendCommand = noting (\<lambda>x _. [Sent (siInstanceId x) (siCommand x)]) (smSendCommand s),
      smGetCommandInvocation = unnoted (smGetCommandInvocation s), smGetParameters = unnoted (smGetParameters s)\<rparr>"

definition watched_asg :: "'w asgAPI \<Rightarrow> ('w \<times> dev_event list) asgAPI" where
  "watched_asg a =
     \<lparr>agDescribeAutoScalingGroups = unnoted (agDescribeAutoScalingGroups a),
      agDescribeAutoScalingInstances = unnoted (agDescribeAutoScalingInstances a),
      agUpdateAutoScalingGroup = changing (agUpdateAutoScalingGroup a), agTerminateInstance = changing (agTerminateInstance a)\<rparr>"

definition template_deleted :: "api_error + unit \<Rightarrow> bool" where
  "template_deleted r = (case r of Inl e \<Rightarrow> isLaunchTemplateNotFound e | Inr _ \<Rightarrow> True)"

text \<open>An error that says that there is no template counts as that answer.\<close>

definition found_templates :: "string \<Rightarrow> api_error + launch_template list \<Rightarrow> dev_event list" where
  "found_templates n r = (case r of Inr ts \<Rightarrow> [SawTemplates n ts] | Inl e \<Rightarrow> if isLaunchTemplateNotFound e then [SawTemplates n []] else [])"

definition watched_lt :: "'w launchTemplateAPI \<Rightarrow> ('w \<times> dev_event list) launchTemplateAPI" where
  "watched_lt l =
     \<lparr>ltCreateLaunchTemplate = noting (\<lambda>x. seen (\<lambda>t. MadeTemplate x (case t of None \<Rightarrow> [] | Some y \<Rightarrow> ToString (ltLaunchTemplateId y))))
        (ltCreateLaunchTemplate l),
      ltDeleteLaunchTemplate = noting (\<lambda>i r. [DropTemplate i (template_deleted r)]) (ltDeleteLaunchTemplate l),
      ltDescribeLaunchTemplates = noting found_templates (ltDescribeLaunchTemplates l), ltDescribeVpcs = unnoted (ltDescribeVpcs l)\<rparr>"

definition watched_groups :: "'w groupAPI \<Rightarrow> ('w \<times> dev_event list) groupAPI" where
  "watched_groups g =
     \<lparr>gaCreateAutoScalingGroup = noting (\<lambda>x. seen (\<lambda>_. MadeGroup x)) (gaCreateAutoScalingGroup g),
      gaDeleteAutoScalingGroup = noting (\<lambda>(n, _) _. [DropGroup n]) (gaDeleteAutoScalingGroup g),
      gaSuspendProcesses = changing (gaSuspendProcesses g),
      gaDescribeAutoScalingGroups = noting (\<lambda>n. seen (SawGroups n)) (gaDescribeAutoScalingGroups g),
      gaDescribeScalingActivities = unnoted (gaDescribeScalingActivities g)\<rparr>"

definition watched :: "'w manager \<Rightarrow> ('w \<times> dev_event list) manager" where
  "watched m = \<lparr>mgEC2 = map_option watched_ec2 (mgEC2 m), mgSSM = map_option watched_ssm (mgSSM m),
     mgASG = map_option watched_asg (mgASG m), mgSTS = map_option (noting (\<lambda>_. seen SawAccount)) (mgSTS m), mgLT = map_option watched_lt (mgLT m),
     mgGroups = map_option watched_groups (mgGroups m), mgWait = logged_wait (mgWait m)\<rparr>"

definition watched_env :: "('d, 'w) dev_env \<Rightarrow> ('d, 'w \<times> dev_event list) dev_env" where
  "watched_env env =
     \<lparr>deHome = deHome env, deStore = deStore env,
      deLoadConfig = (\<lambda>x ws. case deLoadConfig env x (fst ws) of (r, k, w') \<Rightarrow> (map_sum id (map_prod id watched) r, k, (w', snd ws))),
      deRandom = unnoted (deRandom env), deOrder = deOrder env\<rparr>"

lemma watched_sel [simp]:
  "mgEC2 (watched m) = map_option watched_ec2 (mgEC2 m)" "mgSSM (watched m) = map_option watched_ssm (mgSSM m)"
  "mgASG (watched m) = map_option watched_asg (mgASG m)" "mgLT (watched m) = map_option watched_lt (mgLT m)"
  "mgGroups (watched m) = map_option watched_groups (mgGroups m)"
  "mgSTS (watched m) = map_option (noting (\<lambda>_. seen SawAccount)) (mgSTS m)" "mgWait (watched m) = logged_wait (mgWait m)"
  "deHome (watched_env env) = deHome env" "deStore (watched_env env) = deStore env" "deOrder (watched_env env) = deOrder env"
  "deRandom (watched_env env) = unnoted (deRandom env)"
  by (simp_all add: watched_def watched_env_def)

lemma watched_calls [simp]:
  "ecDescribeInstances (watched_ec2 c) = noting (\<lambda>x. seen (SawInstances x)) (ecDescribeInstances c)"
  "ecTerminateInstances (watched_ec2 c) = noting (\<lambda>i _. [DropInstance i]) (ecTerminateInstances c)"
  "ecDescribeSubnets (watched_ec2 c) = unnoted (ecDescribeSubnets c)"
  "ecDescribeSecurityGroups (watched_ec2 c) = unnoted (ecDescribeSecurityGroups c)"
  "smSendCommand (watched_ssm s) = noting (\<lambda>x _. [Sent (siInstanceId x) (siCommand x)]) (smSendCommand s)"
  "smGetCommandInvocation (watched_ssm s) = unnoted (smGetCommandInvocation s)" "smGetParameters (watched_ssm s) = unnoted (smGetParameters s)"
  "agUpdateAutoScalingGroup (watched_asg a) = changing (agUpdateAutoScalingGroup a)"
  "ltCreateLaunchTemplate (watched_lt l) = noting (\<lambda>x. seen (\<lambda>t. MadeTemplate x (case t of None \<Rightarrow> [] | Some y \<Rightarrow> ToString (ltLaunchTemplateId y))))
     (ltCreateLaunchTemplate l)"
  "ltDeleteLaunchTemplate (watched_lt l) = noting (\<lambda>i r. [DropTemplate i (template_deleted r)]) (ltDeleteLaunchTemplate l)"
  "ltDescribeLaunchTemplates (watched_lt l) = noting found_templates (ltDescribeLaunchTemplates l)"
  "ltDescribeVpcs (watched_lt l) = unnoted (ltDescribeVpcs l)"
  "gaCreateAutoScalingGroup (watched_groups g) = noting (\<lambda>x. seen (\<lambda>_. MadeGroup x)) (gaCreateAutoScalingGroup g)"
  "gaDeleteAutoScalingGroup (watched_groups g) = noting (\<lambda>(n, _) _. [DropGroup n]) (gaDeleteAutoScalingGroup g)"
  "gaSuspendProcesses (watched_groups g) = changing (gaSuspendProcesses g)"
  "gaDescribeAutoScalingGroups (watched_groups g) = noting (\<lambda>n. seen (SawGroups n)) (gaDescribeAutoScalingGroups g)"
  "gaDescribeScalingActivities (watched_groups g) = unnoted (gaDescribeScalingActivities g)"
  by (simp_all add: watched_ec2_def watched_ssm_def watched_asg_def watched_lt_def watched_groups_def)

section \<open>Commands\<close>

lemma map_sum_InrD: "map_sum f id r = Inr x \<Longrightarrow> r = Inr x"
  and map_sum_InlD: "map_sum f id r = Inl y \<Longrightarrow> \<exists>e. y = f e"
  by (cases r; auto)+

lemma wp_cloud: "wp d (cloud m) Q (x, tw) = wp d m (\<lambda>r tw'. Q (map_sum DvProvider id r) (x, tw')) tw"
  by (simp add: wp_def cloud_def split: option.split prod.split)

lemma wp_disk_read: "wp d (disk_read f) Q (x, tw) = (case f x of (r, x') \<Rightarrow> Q (map_sum DvState id r) (x', tw))"
  by (simp add: wp_def disk_read_def split: prod.split)

lemma wp_disk_do: "wp d (disk_do g f) Q (x, tw) = (case f x of (e, x') \<Rightarrow> Q (case e of None \<Rightarrow> Inr () | Some y \<Rightarrow> Inl (g y)) (x', tw))"
  by (simp add: wp_def disk_do_def split: prod.split)

lemmas wp_command = wp_cloud wp_disk_read wp_disk_do

text \<open>Loading the configuration leaves the log alone and gives a watched manager.\<close>

lemma wp_load_config:
  assumes "\<And>e t w. Q (Inl e) (d, (t, (w, es)))" "\<And>region m t w. Q (Inr (region, watched m)) (d, (t, (w, es)))"
  shows "wp True (load_config (watched_env env) region0) Q (d, (t, (w, es)))"
proof -
  obtain r k w' where "deLoadConfig env region0 w = (r, k, w')" by (metis surj_pair)
  with assms show ?thesis by (cases r) (auto simp: load_config_def wp_wrap wp_cloud wp_call watched_env_def)
qed

lemma wp_awsDevManager:
  assumes "\<And>e t w. Q (Inl e) (d, (t, (w, es)))" "\<And>m t w. Q (Inr (watched m)) (d, (t, (w, es)))"
  shows "wp True (awsDevManager (watched_env env) st) Q (d, (t, (w, es)))"
  unfolding awsDevManager_def wp_seq by (rule wp_load_config) (auto simp: assms wp_ok)

section \<open>Reading\<close>

lemma emits_seen [emits_intros]: "(\<And>out. ev x out \<in> E) \<Longrightarrow> emits E (call (noting (\<lambda>i. seen (ev i)) f) x)"
  by (rule emits_noting) (auto split: sum.splits)

lemma emits_each [emits_intros]: "(\<And>x. x \<in> set xs \<Longrightarrow> emits E (f x)) \<Longrightarrow> emits E (each f xs)"
  by (induction xs) (auto intro!: emits_intros)

lemma emits_GetEC2 [emits_intros]: "emits saw (GetEC2 (watched m) iid)"
  unfolding GetEC2_def Let_def watched_sel watched_calls by (intro emits_intros | simp)+

lemma emits_GroupMembers [emits_intros]: "emits saw (GroupMembers (watched m) n)"
  unfolding GroupMembers_def watched_sel watched_calls by (intro emits_intros | simp)+

lemma emits_templates [emits_intros]: "emits saw (call (noting found_templates f) n)"
  by (rule emits_noting) (auto simp: found_templates_def split: sum.splits if_splits)

lemma emits_AccountID [emits_intros]: "emits saw (AccountID (watched m))"
  unfolding AccountID_def callerIdentity_def Let_def watched_sel by (intro emits_intros | simp)+

lemma emits_state_body [emits_intros]: "emits E get \<Longrightarrow> emits E (state_body get good gone)"
  unfolding state_body_def by (intro emits_intros | simp)+

lemma emits_WaitForTerminated [emits_intros]: "emits saw (WaitForTerminated (watched m) iid t)"
  unfolding WaitForTerminated_def watched_sel by (auto intro!: emits_intros)

lemma emits_DeleteEC2: "emits {DropInstance iid} (DeleteEC2 (watched m) iid)"
  unfolding DeleteEC2_def watched_sel watched_calls by (intro emits_intros emits_noting | simp)+

section \<open>Down\<close>

text \<open>The tags of a group as the provider reads them, and the instances of a page.\<close>

definition tags_of_group :: "asg_group \<Rightarrow> string \<rightharpoonup> string" where
  "tags_of_group g = fold (\<lambda>t tags. tags(ToString (fst t) \<mapsto> ToString (snd t))) (asTagsOf g) Map.empty"

definition ids_of :: "describe_output \<Rightarrow> string list" where
  "ids_of out = map (\<lambda>i. ToString (eiInstanceId i)) (concat (doReservations out))"

text \<open>What justifies a deletion: the group of the recorded name carries the owner token, so does the template, the
  instance was listed under the token (or, for a box of the older format, is recorded itself).\<close>

fun proven :: "awsState \<Rightarrow> awsDevState \<Rightarrow> dev_event list \<Rightarrow> dev_event \<Rightarrow> bool" where
  "proven st dev es (DropGroup n) \<longleftrightarrow> n = dvAutoScalingGroup dev \<and>
     (\<exists>g gs. SawGroups n (g # gs) \<in> set es \<and> tags_of_group g awsDevOwnerTag = Some (dvOwnerToken dev))"
| "proven st dev es (DropTemplate i b) \<longleftrightarrow>
     (\<exists>x xs. SawTemplates (dvLaunchTemplate dev) (x # xs) \<in> set es \<and> i = ToString (ltLaunchTemplateId x) \<and>
        extractTags (ltTags x) awsDevOwnerTag = Some (dvOwnerToken dev))"
| "proven st dev es (DropInstance i) \<longleftrightarrow>
     (if awsDevIsLegacy st dev then i \<in> aiID ` set (asInstances st)
      else \<exists>x out. SawInstances x out \<in> set es \<and> (''tag:'' @ awsDevOwnerTag, [dvOwnerToken dev]) \<in> set (diFilters x) \<and> i \<in> set (ids_of out))"
| "proven st dev es _ \<longleftrightarrow> False"

definition account_checked :: "awsDevState \<Rightarrow> dev_event list \<Rightarrow> bool" where
  "account_checked dev es \<longleftrightarrow> (\<exists>a. SawAccount a \<in> set es \<and> ToString (ciAccount a) = dvAccountID dev)"

definition warranted :: "awsState \<Rightarrow> awsDevState \<Rightarrow> dev_event list \<Rightarrow> dev_event \<Rightarrow> bool" where
  "warranted st dev es e \<longleftrightarrow> e \<in> saw \<or> account_checked dev es \<and> proven st dev es e"

lemma warranted_saw [simp]: "e \<in> saw \<Longrightarrow> warranted st dev es e" by (simp add: warranted_def)

lemma account_checked_append [simp]: "account_checked dev es \<Longrightarrow> account_checked dev (es @ l)"
  by (auto simp: account_checked_def)

lemma owned_token: "dvOwnerToken dev \<noteq> [] \<Longrightarrow> owned dev tags \<longleftrightarrow> tags awsDevOwnerTag = Some (dvOwnerToken dev)"
  by (auto simp: owned_def split: option.split)

text \<open>A program that only reads.\<close>

lemma traces_saw: "emits saw m \<Longrightarrow> (\<And>r l. set l \<subseteq> saw \<Longrightarrow> A r l) \<Longrightarrow> traces (warranted st dev) A m es"
  by (rule traces_emits) auto

text \<open>The answers of the services to the questions of \<^verbatim>\<open>awsDevDownGroup\<close>.\<close>

lemma traces_group_tags:
  assumes "\<And>e. A (Inl e) []" "\<And>gs. A (Inr (case gs of [] \<Rightarrow> None | g # _ \<Rightarrow> Some (tags_of_group g))) [SawGroups n gs]"
  shows "traces (warranted st dev) A (AutoScalingGroupTags (watched m) n) es"
proof -
  let ?B = "\<lambda>r l. (\<exists>e. r = Inl e \<and> l = []) \<or> (\<exists>gs. r = Inr gs \<and> l = [SawGroups n gs])"
  have "traces (warranted st dev) ?B (wrap h (call (gaDescribeAutoScalingGroups (watched_groups g)) n)) es" for g :: "'w groupAPI" and h
    unfolding watched_calls by (rule traces_wrap [where A = ?B], rule traces_noting) (auto split: sum.split)
  then show ?thesis
    unfolding AutoScalingGroupTags_def watched_sel tags_of_group_def [symmetric]
    by (intro traces_client traces_seq [where A = ?B]) (use assms in \<open>auto intro!: traces_ok\<close>)
qed

lemma traces_template:
  assumes "\<And>e. A (Inl e) []"
    "\<And>ts. A (Inr (case ts of [] \<Rightarrow> None | x # _ \<Rightarrow> Some \<lparr>lmID = ToString (ltLaunchTemplateId x), lmVersion = ToInt64 (ltLatestVersionNumber x),
       lmTags = extractTags (ltTags x)\<rparr>)) [SawTemplates n ts]"
  shows "traces (warranted st dev) A (LaunchTemplateByName (watched m) n) es"
proof -
  let ?B = "\<lambda>r l. (\<exists>e. r = Inl e \<and> l = (if isLaunchTemplateNotFound e then [SawTemplates n []] else [])) \<or> (\<exists>ts. r = Inr ts \<and> l = [SawTemplates n ts])"
  show ?thesis
    unfolding LaunchTemplateByName_def watched_sel
  proof (intro traces_client traces_attempt [where A = ?B])
    show "traces (warranted st dev) ?B (call (ltDescribeLaunchTemplates (watched_lt x)) n) es" for x :: "'w launchTemplateAPI"
      unfolding watched_calls by (rule traces_noting) (auto simp: found_templates_def split: sum.split)
  qed (use assms(1) assms(2) [of "[]"] assms(2) in \<open>auto intro!: traces_ok traces_fail split: sum.split if_splits\<close>)
qed

lemma sorted_bindings_mem: "(k, v) \<in> set (sorted_bindings b) \<longleftrightarrow> map_of b k = Some v"
proof -
  have "(k, v) \<in> set (sorted_bindings b) \<longleftrightarrow> k \<in> fst ` set b \<and> v = the (map_of b k)"
    by (auto simp: sorted_bindings_def)
  also have "\<dots> \<longleftrightarrow> map_of b k = Some v"
    by (cases "map_of b k") (auto simp: map_of_eq_None_iff intro: rev_image_eqI dest: map_of_SomeD)
  finally show ?thesis .
qed

lemma owner_filter: "(''tag:'' @ awsDevOwnerTag, [token]) \<in> set (tag_filters (awsDevTags name token))"
proof -
  have "(awsDevOwnerTag, token) \<in> set (sorted_bindings (awsDevTags name token))"
    by (simp add: sorted_bindings_mem awsDevTags_def awsDevOwnerTag_def)
  then show ?thesis unfolding tag_filters_def by force
qed

text \<open>A complete listing: the pages of the answer, up to one without a next token, with what they hold.\<close>

definition listing :: "(string \<times> string list) list \<Rightarrow> ec2_instance list \<Rightarrow> dev_event list \<Rightarrow> bool" where
  "listing flt found l \<longleftrightarrow> (\<exists>ps. l = map (\<lambda>(x, out). SawInstances x out) ps \<and> (\<forall>p\<in>set ps. diFilters (fst p) = flt) \<and>
     found = concat (map (concat \<circ> doReservations \<circ> snd) ps) \<and> ps \<noteq> [] \<and> ToString (doNextToken (snd (last ps))) = [])"

lemma listing_saw: "listing flt found l \<Longrightarrow> set l \<subseteq> saw"
  by (auto simp: listing_def)

lemma listing_ids:
  "listing flt found l \<Longrightarrow> i \<in> set found \<Longrightarrow>
   \<exists>x out. SawInstances x out \<in> set l \<and> diFilters x = flt \<and> ToString (eiInstanceId i) \<in> set (ids_of out)"
  unfolding listing_def ids_of_def by fastforce

lemma traces_describe_all:
  assumes "\<And>e l. set l \<subseteq> saw \<Longrightarrow> A (Inl e) l" "\<And>found l. listing flt found l \<Longrightarrow> A (Inr found) l"
  shows "traces (warranted st dev) A (describe_all (watched_ec2 c) msg flt) es"
proof -
  define I :: "string option \<times> ec2_instance list \<Rightarrow> dev_event list \<Rightarrow> bool" where
    "I x l \<longleftrightarrow> (\<exists>ps. l = map (\<lambda>(x, out). SawInstances x out) ps \<and> (\<forall>p\<in>set ps. diFilters (fst p) = flt) \<and>
       snd x = concat (map (concat \<circ> doReservations \<circ> snd) ps))" for x l
  have start: "I (None, []) []" by (auto simp: I_def)
  have page: "I (tok, found @ concat (doReservations out)) (l @ [SawInstances y out])"
      "ToString (doNextToken out) = [] \<Longrightarrow> listing flt (found @ concat (doReservations out)) (l @ [SawInstances y out])"
    if l: "I (ti, found) l" and y: "diFilters y = flt" for ti found l y out tok
  proof -
    obtain ps where ps: "l = map (\<lambda>(x, out). SawInstances x out) ps" "\<forall>p\<in>set ps. diFilters (fst p) = flt"
        "found = concat (map (concat \<circ> doReservations \<circ> snd) ps)" using l by (auto simp: I_def)
    show "I (tok, found @ concat (doReservations out)) (l @ [SawInstances y out])"
      unfolding I_def by (rule exI [of _ "ps @ [(y, out)]"]) (use ps y in auto)
    show "listing flt (found @ concat (doReservations out)) (l @ [SawInstances y out])" if "ToString (doNextToken out) = []"
      unfolding listing_def by (rule exI [of _ "ps @ [(y, out)]"]) (use ps y that in auto)
  qed
  have saw: "set l \<subseteq> saw" if "I x l" for x l using that by (auto simp: I_def)
  show ?thesis
    unfolding describe_all_def
  proof (rule traces_iterate [where I = I, OF start])
    fix x l
    assume I: "I x l"
    define q where "q = \<lparr>diInstanceIds = [], diFilters = flt, diNextToken = fst x\<rparr>"
    have q: "diFilters q = flt" by (simp add: q_def)
    have call: "traces (warranted st dev) (\<lambda>r l'. l' = (case r of Inl _ \<Rightarrow> [] | Inr out \<Rightarrow> [SawInstances q out]))
        (call (ecDescribeInstances (watched_ec2 c)) q) (es @ l)"
      unfolding watched_calls by (rule traces_noting) (simp split: sum.split)
    show "traces (warranted st dev) (\<lambda>r l'. case r of Inl y \<Rightarrow> A y (l @ l') | Inr z \<Rightarrow> I z (l @ l'))
        (describe_pages (watched_ec2 c) msg flt x) (es @ l)"
      unfolding describe_pages_def q_def [symmetric]
      by (rule traces_attempt [OF call])
        (use assms saw [OF I] page [where y = q, OF _ q] I in
          \<open>cases x, auto intro!: traces_ok traces_fail split: sum.split simp: Let_def\<close>)
  qed
qed

lemma put_binding_keys: "fst ` set (put_binding k v b) = insert k (fst ` set b)"
  by (induction k v b rule: put_binding.induct) auto

lemma tagged_keys:
  "fst ` set (fold (\<lambda>i. put_binding (ToString (eiInstanceId i)) (ToString (eiState i))) found b) =
   fst ` set b \<union> (\<lambda>i. ToString (eiInstanceId i)) ` set found"
  by (induction found arbitrary: b) (auto simp: put_binding_keys)

lemma traces_tagged:
  assumes "\<And>e l. set l \<subseteq> saw \<Longrightarrow> A (Inl e) l"
    "\<And>b found l. listing (tag_filters tags) found l \<Longrightarrow> fst ` set b = (\<lambda>i. ToString (eiInstanceId i)) ` set found \<Longrightarrow> A (Inr b) l"
  shows "traces (warranted st dev) A (UnterminatedInstancesTagged (watched m) tags) es"
proof (cases "tags = []")
  case True
  with assms(1) [of "[]"] show ?thesis by (auto simp: UnterminatedInstancesTagged_def intro: traces_fail)
next
  case False
  define B :: "provider_error + ec2_instance list \<Rightarrow> dev_event list \<Rightarrow> bool" where
    "B r l = (case r of Inl _ \<Rightarrow> set l \<subseteq> saw | Inr found \<Rightarrow> listing (tag_filters tags) found l)" for r l
  have "traces (warranted st dev) B (describe_all (watched_ec2 c) msg (tag_filters tags)) es" for c :: "'w ec2API" and msg
    by (rule traces_describe_all) (simp_all add: B_def)
  then show ?thesis
    unfolding UnterminatedInstancesTagged_def watched_sel if_not_P [OF False]
    by (intro traces_client traces_seq [where A = B])
      (use assms(1) [of "[]"] assms in \<open>auto simp: B_def tagged_keys intro!: traces_ok\<close>)
qed

text \<open>The deletions.\<close>

lemma traces_DeleteEC2:
  assumes "J es (DropInstance iid)"
  shows "traces J (\<lambda>r l. set l \<subseteq> {DropInstance iid} \<and> ((\<exists>x. r = Inr x) \<or> (\<exists>e. r = Inl e \<and> instance_not_found e) \<longrightarrow> l = [DropInstance iid]))
     (DeleteEC2 (watched m) iid) es" (is "traces J ?A _ _")
proof -
  have "traces J (\<lambda>_ l. l = [DropInstance iid]) (wrap h (call (ecTerminateInstances (watched_ec2 c)) iid)) es" for c :: "'w ec2API" and h
    unfolding watched_calls by (rule traces_wrap [where A = "\<lambda>_ l. l = [DropInstance iid]"], rule traces_noting) (simp_all add: assms)
  then show ?thesis
    unfolding DeleteEC2_def watched_sel
    by (intro traces_client) (auto intro!: traces_ok traces_fail traces_seq [where A = "\<lambda>_ l. l = [DropInstance iid]"])
qed

lemma emits_sweep_leftovers: "emits (DropInstance ` fst ` set b) (sweep_leftovers (watched m) b gone)"
proof (induction b arbitrary: gone)
  case Nil
  show ?case by (auto intro: emits_intros)
next
  case (Cons p b)
  obtain i s where p: "p = (i, s)" by (metis surj_pair)
  have rest: "emits (DropInstance ` fst ` set (p # b)) (sweep_leftovers (watched m) b gone)" for gone
    by (rule emits_mono [OF Cons.IH]) auto
  have del: "emits (DropInstance ` fst ` set (p # b)) (DeleteEC2 (watched m) i)"
    by (rule emits_mono [OF emits_DeleteEC2]) (simp add: p)
  show ?case unfolding p sweep_leftovers.simps
    by (intro emits_intros) (use rest del in \<open>simp_all add: p\<close>)
qed

lemma traces_DeleteAutoScalingGroup:
  fixes m :: "'w manager"
  assumes J: "\<And>l. J (es @ l) (DropGroup n)" "\<And>e es. e \<in> saw \<Longrightarrow> J es e"
  shows "traces J (\<lambda>r l. r = Inr () \<longrightarrow> SawGroups n [] \<in> set l) (DeleteAutoScalingGroup (watched m) n tmo gap) es"
proof -
  have delete: "emits {DropGroup n} (poll (after (logged_wait (mgWait m)) gap) (Some (t, \<lambda>e. fail (h e))) (delete_body (watched_groups g) n) k)"
    for g :: "'w groupAPI" and t h and k :: "string \<Rightarrow> provider_error + unit"
    unfolding delete_body_def watched_calls by (intro emits_intros emits_noting) (auto intro: emits_intros)
  have body: "traces J (\<lambda>x l. case x of Inl r \<Rightarrow> (r = Inr () \<longrightarrow> SawGroups n [] \<in> set l) | Inr _ \<Rightarrow> True) (gone_body (watched m) n) es'" for es'
  proof -
    let ?B = "\<lambda>r l. r = Inr None \<longrightarrow> SawGroups n [] \<in> set l"
    let ?C = "\<lambda>r l. \<forall>gs. r = Inr gs \<longrightarrow> l = [SawGroups n gs]"
    have "traces J ?C (wrap h (call (gaDescribeAutoScalingGroups (watched_groups g)) n)) es'" for g :: "'w groupAPI" and h
      unfolding watched_calls by (rule traces_wrap [where A = ?C], rule traces_noting) (auto simp: J split: sum.split sum.splits dest: map_sum_InrD)
    then have "traces J ?B (GroupMembers (watched m) n) es'"
      unfolding GroupMembers_def watched_sel
      by (intro traces_client traces_seq [where A = ?C]) (auto intro!: traces_ok split: list.split)
    then show ?thesis unfolding gone_body_def
      by (rule traces_attempt) (auto intro!: traces_ok traces_fail split: sum.split option.split)
  qed
  show ?thesis
    unfolding DeleteAutoScalingGroup_def watched_sel
  proof (intro traces_client traces_at_time, rule traces_seq)
    show "traces J (\<lambda>r l. True) (poll (after (logged_wait (mgWait m)) gap) (Some (t, \<lambda>e. fail (h e))) (delete_body (watched_groups g) n) k) es"
      for g :: "'w groupAPI" and t h and k :: "string \<Rightarrow> provider_error + unit"
      by (rule traces_emits [OF delete]) (auto simp: J)
    show "traces J (\<lambda>r l'. r = Inr () \<longrightarrow> SawGroups n [] \<in> set (l @ l')) (poll (after (logged_wait (mgWait m)) gap)
        (Some (t, \<lambda>e. fail (h e))) (gone_body (watched m) n) (\<lambda>e. Inl (k e))) (es @ l)" for l t h k
      by (rule traces_poll [where I = "\<lambda>_. True"])
        (auto intro: emits_waits traces_fail traces_mono [OF body] split: sum.splits)
  qed simp_all
qed

lemma traces_DeleteLaunchTemplate:
  assumes "\<And>b. J es (DropTemplate i b)"
  shows "traces J (\<lambda>r l. set l \<subseteq> range (DropTemplate i) \<and> (r = Inr () \<longrightarrow> DropTemplate i True \<in> set l)) (DeleteLaunchTemplate (watched m) i) es"
proof -
  have "traces J (\<lambda>r l. l = [DropTemplate i (template_deleted r)]) (call (ltDeleteLaunchTemplate (watched_lt x)) i) es" for x :: "'w launchTemplateAPI"
    unfolding watched_calls by (rule traces_noting) (simp add: assms)
  then show ?thesis
    unfolding DeleteLaunchTemplate_def watched_sel
    by (intro traces_client traces_attempt [where A = "\<lambda>r l. l = [DropTemplate i (template_deleted r)]"])
      (auto simp: template_deleted_def intro!: traces_ok traces_fail split: sum.split)
qed

text \<open>The sweep terminates what a listing under the owner token showed, and ends after an empty one. Go visits the entries of
  a map in some order, each once.\<close>

lemma traces_sweep:
  assumes order: "\<And>b. mset (deOrder env b) = mset b" and checked: "account_checked dev es" and "\<not> awsDevIsLegacy st dev"
  shows "traces (warranted st dev)
    (\<lambda>r l. r = Inr () \<longrightarrow> (\<exists>a b. l = a @ b \<and> listing (tag_filters (awsDevTags (asName st) (dvOwnerToken dev))) [] b))
    (awsDevSweepInstances (watched_env env) (watched m) (awsDevTags (asName st) (dvOwnerToken dev))) es"
proof -
  let ?tags = "awsDevTags (asName st) (dvOwnerToken dev)"
  let ?J = "warranted st dev" and ?flt = "tag_filters ?tags"
  let ?E = "\<lambda>r l. r = Inr () \<longrightarrow> (\<exists>a b. l = a @ b \<and> listing ?flt [] b)"
  let ?L = "\<lambda>r l. case r of Inl _ \<Rightarrow> True | Inr b \<Rightarrow> \<exists>found. listing ?flt found l \<and> fst ` set b = (\<lambda>i. ToString (eiInstanceId i)) ` set found"
  have drop: "?J (es @ l0 @ l @ l') (DropInstance i)"
    if shown: "listing ?flt found l" and i: "i \<in> (\<lambda>i. ToString (eiInstanceId i)) ` set found" for l0 l l' found i
  proof -
    obtain x out where "SawInstances x out \<in> set l" "diFilters x = ?flt" "i \<in> set (ids_of out)"
      using i listing_ids [OF shown] by blast
    then have "\<exists>x out. SawInstances x out \<in> set (es @ l0 @ l @ l') \<and>
        (''tag:'' @ awsDevOwnerTag, [dvOwnerToken dev]) \<in> set (diFilters x) \<and> i \<in> set (ids_of out)"
      using owner_filter [of "dvOwnerToken dev" "asName st"] by (intro exI [of _ x] exI [of _ out]) simp
    with assms(3) have "proven st dev (es @ l0 @ l @ l') (DropInstance i)" unfolding proven.simps by presburger
    with checked show ?thesis unfolding warranted_def by (blast intro: account_checked_append)
  qed
  have tagged: "traces ?J (\<lambda>r l. (\<forall>y. r = Inl y \<longrightarrow> (\<exists>e. y = h e)) \<and> ?L r l) (wrap h (UnterminatedInstancesTagged (watched m) ?tags)) es'"
    for es' and h :: "provider_error \<Rightarrow> provider_error + unit"
    by (rule traces_wrap, rule traces_tagged [where A = ?L]) (auto split: sum.split dest!: map_sum_InrD map_sum_InlD)
  have sweep: "traces ?J (\<lambda>r _. \<forall>y. r = Inl y \<longrightarrow> (\<exists>e. y = h e))
      (wrap h (sweep_leftovers (watched m) (deOrder env b) gone)) ((es @ l0) @ l)"
    if "listing ?flt found l" "fst ` set b = (\<lambda>i. ToString (eiInstanceId i)) ` set found" for b gone l0 l found and h :: "provider_error \<Rightarrow> provider_error + unit"
  proof (rule traces_wrap [where A = "\<lambda>_ _. True"], rule traces_emits [OF emits_sweep_leftovers])
    have "set (deOrder env b) = set b" by (metis order set_mset_mset)
    then show "?J (((es @ l0) @ l) @ l') e" if "e \<in> DropInstance ` fst ` set (deOrder env b)" for e l'
      using that \<open>fst ` set b = _\<close> drop [OF \<open>listing ?flt found l\<close>, of _ l0 l'] by auto
  qed (auto dest!: map_sum_InlD)
  have round: "traces ?J (\<lambda>r l'. case r of Inl y \<Rightarrow> ?E y (l0 @ l') | Inr _ \<Rightarrow> True)
      (sweep_round (watched_env env) (watched m) ?tags d gone) (es @ l0)" for l0 d gone
    unfolding sweep_round_def watched_sel
  proof (rule traces_seq [OF tagged])
    fix b :: "(string \<times> string) list" and l
    assume "chain ?J (es @ l0) l"
      "(\<forall>y. (Inr b :: (provider_error + unit) + _) = Inl y \<longrightarrow> (\<exists>e. y = Inl e)) \<and> ?L (Inr b :: (provider_error + unit) + _) l"
    then obtain found where f: "listing ?flt found l" "fst ` set b = (\<lambda>i. ToString (eiInstanceId i)) ` set found" by auto
    have rest: "traces ?J (\<lambda>r l'. case r of Inl y \<Rightarrow> ?E y (l0 @ l @ l1 @ l') | Inr _ \<Rightarrow> True) (at_time (\<lambda>now.
        if d < now then fail (Inl e) else seq (wrap (\<lambda>e. Inl (PContext [] e)) (sleep (logged_wait (mgWait m)) awsDevPollInterval)) (\<lambda>_. ok g))) es'"
      for es' l1 g and e :: provider_error
      by (intro traces_at_time)
        (auto intro!: traces_fail traces_ok traces_seq [where A = "\<lambda>r _. \<forall>x. r = Inl x \<longrightarrow> (\<exists>y. x = Inl y)"] traces_wrap [where A = "\<lambda>_ _. True"]
          traces_emits [OF emits_sleep [where E = "{}"]] dest!: map_sum_InlD)
    show "traces ?J (\<lambda>r l'. case r of Inl y \<Rightarrow> ?E y (l0 @ l @ l') | Inr _ \<Rightarrow> True)
       (if b = [] then fail (Inr ()) else seq (wrap Inl (sweep_leftovers (watched m) (deOrder env b) gone)) (\<lambda>gone1. at_time (\<lambda>now.
          if d < now then fail (Inl (PMsg (''timed out after '' @ duration_string awsDevTeardownTimeout @
            '' waiting for instances to terminate: '' @ Join '', '' (sort_Strings (map fst b)))))
          else seq (wrap (\<lambda>e. Inl (PContext [] e)) (sleep (logged_wait (mgWait m)) awsDevPollInterval)) (\<lambda>_. ok gone1)))) ((es @ l0) @ l)"
    proof (cases "b = []")
      case True
      with f have "listing ?flt [] l" by simp
      with True show ?thesis by (auto intro!: traces_fail) blast
    next
      case False
      then show ?thesis
        using rest
        by (simp del: append_assoc) (rule traces_seq [OF sweep [OF f]], auto)
    qed
  qed auto
  show ?thesis unfolding awsDevSweepInstances_def
    by (intro traces_at_time traces_iterate [where I = "\<lambda>_ _. True"]) (use round in \<open>auto split: sum.split\<close>)
qed

text \<open>What a finished teardown has seen: the group is gone or belongs to another, a complete listing under the owner token was
  empty, the template is gone, belongs to another or its deletion was confirmed.\<close>

definition group_gone :: "awsDevState \<Rightarrow> dev_event list \<Rightarrow> bool" where
  "group_gone dev l \<longleftrightarrow> (\<exists>gs. SawGroups (dvAutoScalingGroup dev) gs \<in> set l \<and> (\<forall>g\<in>set (take 1 gs). \<not> owned dev (tags_of_group g)))"

definition boxes_gone :: "awsState \<Rightarrow> awsDevState \<Rightarrow> dev_event list \<Rightarrow> bool" where
  "boxes_gone st dev l \<longleftrightarrow> (\<exists>a b c. l = a @ b @ c \<and> listing (tag_filters (awsDevTags (asName st) (dvOwnerToken dev))) [] b)"

definition template_gone :: "awsDevState \<Rightarrow> dev_event list \<Rightarrow> bool" where
  "template_gone dev l \<longleftrightarrow> (\<exists>ts. SawTemplates (dvLaunchTemplate dev) ts \<in> set l \<and>
     (\<forall>x\<in>set (take 1 ts). owned dev (extractTags (ltTags x)) \<longrightarrow> DropTemplate (ToString (ltLaunchTemplateId x)) True \<in> set l))"

definition cleared :: "awsState \<Rightarrow> awsDevState \<Rightarrow> dev_event list \<Rightarrow> bool" where
  "cleared st dev l \<longleftrightarrow>
     (if awsDevIsLegacy st dev then \<forall>box\<in>set (asInstances st). DropInstance (aiID box) \<in> set l
      else group_gone dev l \<and> boxes_gone st dev l \<and> template_gone dev l)"

lemma group_gone_mono: "group_gone dev l \<Longrightarrow> set l \<subseteq> set l' \<Longrightarrow> group_gone dev l'"
  and template_gone_mono: "template_gone dev l \<Longrightarrow> set l \<subseteq> set l' \<Longrightarrow> template_gone dev l'"
  unfolding group_gone_def template_gone_def by blast+

lemma boxes_gone_append: "boxes_gone st dev l \<Longrightarrow> boxes_gone st dev (a @ l @ b)"
  unfolding boxes_gone_def by (metis append.assoc)

lemma cleared_append: "cleared st dev l \<Longrightarrow> cleared st dev (a @ l)"
  using boxes_gone_append [of st dev l a "[]"] group_gone_mono [of dev l "a @ l"] template_gone_mono [of dev l "a @ l"]
  by (auto simp: cleared_def)

lemma traces_down_group:
  assumes order: "\<And>b. mset (deOrder env b) = mset b" and checked: "account_checked dev es" and group: "\<not> awsDevIsLegacy st dev"
    and token: "dvOwnerToken dev \<noteq> []"
  shows "traces (warranted st dev) (\<lambda>r l. r = Inr () \<longrightarrow> cleared st dev l) (awsDevDownGroup (watched_env env) (watched m) st dev) es"
proof -
  let ?J = "warranted st dev"
  have justified: "?J (es @ l) e" if "proven st dev (es @ l) e" for l e
    using that checked by (simp add: warranted_def)
  have delete: "traces ?J (\<lambda>r l. r = Inr () \<longrightarrow> group_gone dev (SawGroups (dvAutoScalingGroup dev) gs # l))
      (case (case gs of [] \<Rightarrow> None | g # _ \<Rightarrow> Some (tags_of_group g)) of
         Some tags \<Rightarrow> if owned dev tags then DeleteAutoScalingGroup (watched m) (dvAutoScalingGroup dev) t d else ok ()
       | None \<Rightarrow> ok ()) (es @ [SawGroups (dvAutoScalingGroup dev) gs])" for gs t d
  proof (cases "\<exists>g gs'. gs = g # gs' \<and> owned dev (tags_of_group g)")
    case True
    then obtain g gs' where g: "gs = g # gs'" "owned dev (tags_of_group g)" by blast
    have "traces ?J (\<lambda>r l. r = Inr () \<longrightarrow> SawGroups (dvAutoScalingGroup dev) [] \<in> set l)
        (DeleteAutoScalingGroup (watched m) (dvAutoScalingGroup dev) t d) (es @ [SawGroups (dvAutoScalingGroup dev) gs])"
    proof (rule traces_DeleteAutoScalingGroup)
      show "?J ((es @ [SawGroups (dvAutoScalingGroup dev) gs]) @ l) (DropGroup (dvAutoScalingGroup dev))" for l
        using justified [of "SawGroups (dvAutoScalingGroup dev) gs # l" "DropGroup (dvAutoScalingGroup dev)"] g token by (auto simp: owned_token)
    qed simp
    then show ?thesis unfolding g(1) using g(2)
      by (auto elim!: traces_mono simp: group_gone_def intro!: exI [of _ "[]"])
  next
    case False
    then show ?thesis by (auto simp: group_gone_def split: list.split intro!: traces_ok exI [of _ gs])
  qed
  have template: "traces ?J (\<lambda>r l'. r = Inr () \<longrightarrow> template_gone dev (SawTemplates (dvLaunchTemplate dev) ts # l'))
      (case (case ts of [] \<Rightarrow> None | x # _ \<Rightarrow> Some \<lparr>lmID = ToString (ltLaunchTemplateId x), lmVersion = ToInt64 (ltLatestVersionNumber x),
         lmTags = extractTags (ltTags x)\<rparr>) of
         Some t \<Rightarrow> if owned dev (lmTags t) then DeleteLaunchTemplate (watched m) (lmID t) else ok ()
       | None \<Rightarrow> ok ()) (es @ l @ [SawTemplates (dvLaunchTemplate dev) ts])" for ts l
  proof (cases "\<exists>x ts'. ts = x # ts' \<and> owned dev (extractTags (ltTags x))")
    case True
    then obtain x ts' where x: "ts = x # ts'" "owned dev (extractTags (ltTags x))" by blast
    have "traces ?J (\<lambda>r l'. r = Inr () \<longrightarrow> DropTemplate (ToString (ltLaunchTemplateId x)) True \<in> set l')
        (DeleteLaunchTemplate (watched m) (ToString (ltLaunchTemplateId x))) (es @ l @ [SawTemplates (dvLaunchTemplate dev) ts])"
    proof (rule traces_mono [OF traces_DeleteLaunchTemplate])
      show "?J (es @ l @ [SawTemplates (dvLaunchTemplate dev) ts]) (DropTemplate (ToString (ltLaunchTemplateId x)) b)" for b
        using justified [of "l @ [SawTemplates (dvLaunchTemplate dev) ts]" "DropTemplate (ToString (ltLaunchTemplateId x)) b"] x token by (auto simp: owned_token)
    qed simp
    then show ?thesis unfolding x(1) using x(2)
      by (auto elim!: traces_mono simp: template_gone_def intro!: exI [of _ "x # ts'"])
  next
    case False
    then show ?thesis by (auto simp: template_gone_def split: list.split intro!: traces_ok exI [of _ ts])
  qed
  show ?thesis
    unfolding awsDevDownGroup_def
  proof (rule traces_seq [where A = "\<lambda>r l. \<forall>x. r = Inr x \<longrightarrow> (\<exists>gs. x = (case gs of [] \<Rightarrow> None | g # _ \<Rightarrow> Some (tags_of_group g)) \<and>
        l = [SawGroups (dvAutoScalingGroup dev) gs])"], rule traces_group_tags)
    fix found l1
    assume "\<forall>x. Inr found = (Inr x :: provider_error + _) \<longrightarrow> (\<exists>gs. x = (case gs of [] \<Rightarrow> None | g # _ \<Rightarrow> Some (tags_of_group g)) \<and>
        l1 = [SawGroups (dvAutoScalingGroup dev) gs])"
    then obtain gs where gs: "found = (case gs of [] \<Rightarrow> None | g # _ \<Rightarrow> Some (tags_of_group g))" "l1 = [SawGroups (dvAutoScalingGroup dev) gs]"
      by blast
    show "traces ?J (\<lambda>r l. r = Inr () \<longrightarrow> cleared st dev (l1 @ l)) (seq (case found of
            Some tags \<Rightarrow> if owned dev tags then DeleteAutoScalingGroup (watched m) (dvAutoScalingGroup dev) awsDevTeardownTimeout awsDevPollInterval else ok ()
          | None \<Rightarrow> ok ()) (\<lambda>_.
        seq (awsDevSweepInstances (watched_env env) (watched m) (awsDevTags (asName st) (dvOwnerToken dev))) (\<lambda>_.
        seq (LaunchTemplateByName (watched m) (dvLaunchTemplate dev)) (\<lambda>template.
          (case template of Some t \<Rightarrow> if owned dev (lmTags t) then DeleteLaunchTemplate (watched m) (lmID t) else ok () | None \<Rightarrow> ok ())))))
        (es @ l1)"
      unfolding gs
    proof (rule traces_seq [OF delete], simp, rule traces_seq [OF traces_sweep [OF order _ group]])
      fix u v :: unit and l2 l3 :: "dev_event list"
      assume grp: "Inr u = (Inr () :: provider_error + unit) \<longrightarrow> group_gone dev (SawGroups (dvAutoScalingGroup dev) gs # l2)"
        and boxes: "Inr v = (Inr () :: provider_error + unit) \<longrightarrow> (\<exists>a b. l3 = a @ b \<and> listing (tag_filters (awsDevTags (asName st) (dvOwnerToken dev))) [] b)"
      let ?pre = "[SawGroups (dvAutoScalingGroup dev) gs] @ l2 @ l3"
      have "boxes_gone st dev l3" using boxes unfolding boxes_gone_def by simp (metis append.right_neutral)
      then have pre: "group_gone dev (?pre @ l)" "boxes_gone st dev (?pre @ l)" for l
        using grp boxes_gone_append [of st dev l3 "SawGroups (dvAutoScalingGroup dev) gs # l2" l] by (auto elim!: group_gone_mono)
      show "traces ?J (\<lambda>r l. r = Inr () \<longrightarrow> cleared st dev ([SawGroups (dvAutoScalingGroup dev) gs] @ l2 @ l3 @ l))
          (seq (LaunchTemplateByName (watched m) (dvLaunchTemplate dev)) (\<lambda>template.
            (case template of Some t \<Rightarrow> if owned dev (lmTags t) then DeleteLaunchTemplate (watched m) (lmID t) else ok () | None \<Rightarrow> ok ())))
          (((es @ [SawGroups (dvAutoScalingGroup dev) gs]) @ l2) @ l3)"
      proof (rule traces_seq [where A = "\<lambda>r l. \<forall>x. r = Inr x \<longrightarrow> (\<exists>ts. x = (case ts of [] \<Rightarrow> None
            | x # _ \<Rightarrow> Some \<lparr>lmID = ToString (ltLaunchTemplateId x), lmVersion = ToInt64 (ltLatestVersionNumber x), lmTags = extractTags (ltTags x)\<rparr>) \<and>
            l = [SawTemplates (dvLaunchTemplate dev) ts])"], rule traces_template)
        fix found l4
        assume "\<forall>x. Inr found = (Inr x :: provider_error + _) \<longrightarrow> (\<exists>ts. x = (case ts of [] \<Rightarrow> None
            | x # _ \<Rightarrow> Some \<lparr>lmID = ToString (ltLaunchTemplateId x), lmVersion = ToInt64 (ltLatestVersionNumber x), lmTags = extractTags (ltTags x)\<rparr>) \<and>
            l4 = [SawTemplates (dvLaunchTemplate dev) ts])"
        then obtain ts where ts: "found = (case ts of [] \<Rightarrow> None
            | x # _ \<Rightarrow> Some \<lparr>lmID = ToString (ltLaunchTemplateId x), lmVersion = ToInt64 (ltLatestVersionNumber x), lmTags = extractTags (ltTags x)\<rparr>)"
            "l4 = [SawTemplates (dvLaunchTemplate dev) ts]" by blast
        have gone: "cleared st dev (?pre @ l4 @ l)" if "template_gone dev (SawTemplates (dvLaunchTemplate dev) ts # l)" for l
          using that pre [of "l4 @ l"] group ts(2) by (auto simp: cleared_def elim: template_gone_mono)
        show "traces ?J (\<lambda>r l'. r = Inr () \<longrightarrow> cleared st dev ([SawGroups (dvAutoScalingGroup dev) gs] @ l2 @ l3 @ l4 @ l'))
            (case found of Some t \<Rightarrow> if owned dev (lmTags t) then DeleteLaunchTemplate (watched m) (lmID t) else ok () | None \<Rightarrow> ok ())
            ((((es @ [SawGroups (dvAutoScalingGroup dev) gs]) @ l2) @ l3) @ l4)"
          unfolding ts append_assoc
          by (rule traces_mono [OF template [of ts "?pre", unfolded append_assoc]]) (use gone in \<open>simp add: ts(2)\<close>)
      qed auto
    qed (auto simp: checked)
  qed auto
qed

lemma traces_down_legacy:
  assumes "awsDevIsLegacy st dev"
  shows "account_checked dev es \<Longrightarrow> set boxes \<subseteq> set (asInstances st) \<Longrightarrow>
     traces (warranted st dev) (\<lambda>r l. r = Inr () \<longrightarrow> (\<forall>box\<in>set boxes. DropInstance (aiID box) \<in> set l)) (awsDevDownLegacy (watched m) boxes) es"
proof (induction boxes arbitrary: es)
  case Nil
  show ?case by (auto intro!: traces_ok)
next
  case (Cons box boxes)
  let ?J = "warranted st dev"
  let ?A = "\<lambda>(r :: provider_error + _) l. set l \<subseteq> {DropInstance (aiID box)} \<and>
      ((\<exists>x. r = Inr x) \<or> (\<exists>e. r = Inl e \<and> instance_not_found e) \<longrightarrow> l = [DropInstance (aiID box)])"
  have later: "traces ?J (\<lambda>r l'. r = Inr () \<longrightarrow> (\<forall>b\<in>set (box # boxes). DropInstance (aiID b) \<in> set (l @ l')))
      (awsDevDownLegacy (watched m) boxes) (es @ l)" if "DropInstance (aiID box) \<in> set l" for l
    by (rule traces_mono [OF Cons.IH]) (use Cons.prems that in auto)
  have wait: "traces ?J (\<lambda>r l'. set l' \<subseteq> saw) (wrap h (WaitForTerminated (watched m) (aiID box) t)) es'" for h :: "provider_error \<Rightarrow> provider_error" and t es'
    by (rule traces_saw) (auto intro: emits_intros)
  show ?case
    unfolding awsDevDownLegacy.simps
  proof (rule traces_attempt [where A = ?A])
    show "traces ?J ?A (DeleteEC2 (watched m) (aiID box)) es"
      by (rule traces_DeleteEC2) (use Cons.prems assms in \<open>auto simp: warranted_def\<close>)
    fix r l
    assume "?A r l"
    then show "traces ?J (\<lambda>r l'. r = Inr () \<longrightarrow> (\<forall>b\<in>set (box # boxes). DropInstance (aiID b) \<in> set (l @ l')))
        (case r of Inl e \<Rightarrow> if instance_not_found e then awsDevDownLegacy (watched m) boxes else fail (PWrap (''terminate '' @ aiID box) e)
         | Inr _ \<Rightarrow> seq (wrap (PWrap (''wait for '' @ aiID box @ '' to terminate'')) (WaitForTerminated (watched m) (aiID box) awsDevTeardownTimeout))
             (\<lambda>_. awsDevDownLegacy (watched m) boxes)) (es @ l)"
      using later [of l] later [of "l @ _"]
      by (auto intro!: traces_fail traces_seq [OF wait] split: sum.split simp del: append_assoc simp flip: append_assoc)
  qed
qed

lemma traces_tear_down:
  assumes "\<And>b. mset (deOrder env b) = mset b" "account_checked dev es" "awsDevIsLegacy st dev \<or> dvOwnerToken dev \<noteq> []"
  shows "traces (warranted st dev) (\<lambda>r l. r = Inr () \<longrightarrow> cleared st dev l) (tear_down (watched_env env) (watched m) st dev) es"
proof (cases "awsDevIsLegacy st dev")
  case True
  then show ?thesis unfolding tear_down_def
    using traces_down_legacy [OF True assms(2) subset_refl, of m] by (simp add: cleared_def)
next
  case False
  with assms show ?thesis unfolding tear_down_def by (simp add: traces_down_group)
qed

lemma traces_AccountID:
  "traces (warranted st dev) (\<lambda>r l. \<forall>a. r = Inr a \<longrightarrow> (\<exists>x. SawAccount x \<in> set l \<and> ToString (ciAccount x) = a)) (AccountID (watched m)) es"
proof -
  let ?C = "\<lambda>r l. \<forall>out. r = Inr out \<longrightarrow> l = [SawAccount out]"
  have "traces (warranted st dev) ?C (wrap h (call (noting (\<lambda>_. seen SawAccount) s) ())) es" for h and s :: "(unit, caller_identity_output, api_error, 'a) api"
    by (rule traces_wrap [where A = ?C], rule traces_noting) (auto split: sum.split dest!: map_sum_InrD)
  then show ?thesis
    unfolding AccountID_def callerIdentity_def watched_sel
    by (intro traces_seq [where A = "\<lambda>r l. \<forall>c. r = Inr c \<longrightarrow> (\<exists>x. SawAccount x \<in> set l \<and> ToString (ciAccount x) = idAccount c)"]
        traces_client traces_seq [where A = ?C]) (auto simp: Let_def intro!: traces_ok traces_fail)
qed

text \<open>What the whole command leaves: a justified log; after success everything was cleared and the state file was removed, after an
  error the state was not touched, or could not be removed.\<close>

definition down_post :: "'d state_ops \<Rightarrow> awsState \<Rightarrow> awsDevState \<Rightarrow> 'd \<Rightarrow> 'd \<Rightarrow> 'e + 'a \<Rightarrow> 'd \<Rightarrow> dev_event list \<Rightarrow> bool" where
  "down_post ops st dev d d1 r d' l \<longleftrightarrow> chain (warranted st dev) [] l \<and>
     (case r of Inr _ \<Rightarrow> cleared st dev l \<and> (\<exists>e. stRemove ops d1 = (e, d') \<and> (e = None \<or> e = Some ENOENT))
      | Inl _ \<Rightarrow> d' = d \<or> d' = d1 \<or> (\<exists>e. stRemove ops d1 = (Some e, d') \<and> e \<noteq> ENOENT))"

lemma wp_removeAWSState:
  "wp True (removeAWSState st) Q (d, tw) = (case stRemove st d of (e, d') \<Rightarrow>
     Q (if e = None \<or> e = Some ENOENT then Inr () else Inl (DvRemove (the e))) (d', tw))"
  by (auto simp: removeAWSState_def wp_simps wp_disk_do split: prod.split option.split)

lemma wp_down_loaded:
  assumes order: "\<And>b. mset (deOrder env b) = mset b" and token: "awsDevIsLegacy st dev \<or> dvOwnerToken dev \<noteq> []"
  shows "wp True (seq (wrap h (cloud (AccountID (watched m)))) (\<lambda>account. seq (demand (account = dvAccountID dev) (e account)) (\<lambda>_.
      seq (wrap g (cloud (tear_down (watched_env env) (watched m) st dev))) (\<lambda>_. seq (removeAWSState ops) (\<lambda>_. ok x)))))
    (\<lambda>r (d', (t', (w', l))). down_post ops st dev d d1 r d' l) (d1, (t, (w, [])))"
  unfolding wp_seq wp_wrap wp_cloud
  apply (rule wp_mono [OF tracesD [OF traces_AccountID [of st dev m "[]"]]])
  subgoal premises prems for r u
  proof -
    obtain l where l: "log_of u = l" "chain (warranted st dev) [] l" and a: "\<And>a. r = Inr a \<Longrightarrow> \<exists>x. SawAccount x \<in> set l \<and> ToString (ciAccount x) = a"
      using prems by auto
    obtain t w where u: "u = (t, (w, l))" using l(1) by (metis log_of_def prod.collapse)
    have tear: "wp True (tear_down (watched_env env) (watched m) st dev) (\<lambda>r u. \<exists>l'. log_of u = l @ l' \<and> chain (warranted st dev) l l' \<and>
        (r = Inr () \<longrightarrow> cleared st dev l')) u" if "r = Inr (dvAccountID dev)"
      unfolding u by (rule tracesD [OF traces_tear_down [OF order _ token]]) (use a [OF that] in \<open>auto simp: account_checked_def\<close>)
    show ?thesis
      using l(2) tear
      by (cases r) (auto simp: wp_simps wp_cloud wp_removeAWSState u down_post_def chain_append cleared_append split: sum.splits prod.splits
          elim!: wp_mono dest!: map_sum_InrD)
  qed
  done

text \<open>Reading the state of a group gives what the file holds, if it names the account and the resources.\<close>

lemma wp_readAWSDevState:
  assumes path: "awsStatePath (deHome env) name = Inr p" and read: "stRead (deStore env p) d = (Inr st, d1)" and dev: "asDev st = Some dev"
    and "\<And>e x. x = d \<or> x = d1 \<Longrightarrow> e \<noteq> DvState (ErrReadState p ENOENT) \<Longrightarrow> \<forall>q y. e \<noteq> DvState (ErrReadState q y) \<Longrightarrow> Q (Inl e) (x, tw)"
    and "awsDevIsLegacy st dev \<or> dvOwnerToken dev \<noteq> [] \<Longrightarrow> Q (Inr (st, dev, p)) (d1, tw)"
  shows "wp True (readAWSDevState env name) Q (d, tw)"
proof -
  have "wp True (seq (disk_read (stRead (deStore env p))) f) Q (d, tw) = wp True (f st) Q (d1, tw)" for f :: "awsState \<Rightarrow> ('a, awsState \<times> awsDevState \<times> string, 'b) command"
    by (simp add: wp_seq wp_disk_read read)
  then show ?thesis
    using assms(4,5) path dev by (cases "validateClusterName name") (auto simp: readAWSDevState_def wp_simps wp_disk_read read)
qed

lemma runAWSDevDown_post:
  assumes order: "\<And>b. mset (deOrder env b) = mset b" and path: "awsStatePath (deHome env) name = Inr p"
    and read: "stRead (deStore env p) d = (Inr st, d1)" and dev: "asDev st = Some dev"
    and run: "runAWSDevDown (watched_env env) name (d, (t, (w, []))) = Some (r, (d', (t', (w', es))))"
  shows "down_post (deStore env p) st dev d d1 r d' es"
proof -
  define Q :: "dev_error + string \<Rightarrow> 'a \<times> ('b, dev_event) noted \<Rightarrow> bool" where
    "Q = (\<lambda>r (d', (t', (w', l))). down_post (deStore env p) st dev d d1 r d' l)"
  have early: "Q (Inl e) (x, (t, (w, [])))" if "x = d \<or> x = d1" for e t w x using that by (auto simp: Q_def down_post_def)
  have "wp True (runAWSDevDown (watched_env env) name) Q (d, (t, (w, [])))"
    unfolding runAWSDevDown_def wp_attempt
  proof (rule wp_readAWSDevState)
    show "stRead (deStore (watched_env env) p) d = (Inr st, d1)" "awsStatePath (deHome (watched_env env)) name = Inr p"
      using path read by simp_all
    show "asDev st = Some dev" by (rule dev)
    fix e x assume "x = d \<or> x = d1" "\<forall>q y. e \<noteq> DvState (ErrReadState q y)"
    then show "wp True (case Inl e of
        Inl (DvState (ErrReadState p e)) \<Rightarrow> if e = ENOENT then ok (''no AWS state for '' @ name @ ''; nothing to do'') else fail (DvState (ErrReadState p e))
      | Inl e \<Rightarrow> fail e | Inr x \<Rightarrow> f x) Q (x, (t, (w, [])))" for f :: "_ \<Rightarrow> ('a, string, 'b \<times> dev_event list) command"
      using early by (auto simp: wp_simps split: dev_error.split state_error.split)
  next
    assume token: "awsDevIsLegacy st dev \<or> dvOwnerToken dev \<noteq> []"
    have manager: "wp True (seq (awsDevManager (watched_env env) st) f) Q (d1, (t, (w, [])))"
      if "\<And>m t w. wp True (f (watched m)) Q (d1, (t, (w, [])))" for f
      unfolding wp_seq by (rule wp_awsDevManager) (simp_all add: early that)
    show "wp True (case Inr (st, dev, p) of Inl e \<Rightarrow> g e | Inr (state, dev, p) \<Rightarrow>
          seq (awsDevManager (watched_env env) state) (\<lambda>m.
          seq (wrap (\<lambda>e. DvKept (DvWrap ''identify AWS account'' e) p) (cloud (AccountID m))) (\<lambda>account.
          seq (demand (account = dvAccountID dev)
                 (DvKept (DvMsg (''dev group '' @ asName state @ '' was created in account '' @ dvAccountID dev @
                    '' but the credentials are for '' @ account @ ''; use the creating account'')) p)) (\<lambda>_.
          seq (wrap (\<lambda>e. DvKept e p) (cloud (tear_down (watched_env env) m state dev))) (\<lambda>_.
          seq (removeAWSState (deStore (watched_env env) p)) (\<lambda>_.
          ok (''deleted dev group '' @ asName state @
              '' (Auto Scaling group, launch template, instances, and data volumes); results kept at '' @ dvResultsURI dev))))))) Q (d1, (t, (w, [])))" for g
      unfolding sum.case prod.case Q_def
      by (rule manager [unfolded Q_def]) (use wp_down_loaded [OF order token] in simp)
  qed
  from wp_result [OF this run] show ?thesis by (simp add: Q_def)
qed

text \<open>C5: Taking a development group down deletes nothing that is not proven to be its own. Whatever the services answer and
  wherever the command stops, every deletion it asks for comes after the account of the credentials was seen to be
  the recorded one and after an answer that shows the owner token of this group: the Auto Scaling group of the recorded name has it
  among its tags, so has the launch template of the recorded name and of the identifier that is deleted, and a terminated
  instance was in a listing filtered by the token (a box of the older format is recorded itself).\<close>

theorem runAWSDevDown_warranted:
  assumes "\<And>b. mset (deOrder env b) = mset b" "awsStatePath (deHome env) name = Inr p"
    and "stRead (deStore env p) d = (Inr st, d1)" "asDev st = Some dev"
    and "runAWSDevDown (watched_env env) name (d, (t, (w, []))) = Some (r, (d', (t', (w', es))))"
  shows "\<forall>k<length es. warranted st dev (take k es) (es ! k)"
proof -
  have "chain (warranted st dev) [] es"
    using runAWSDevDown_post [OF assms] by (simp add: down_post_def)
  then show ?thesis using chain_nth [of "warranted st dev" "[]" es] by simp
qed

text \<open>C11: A teardown that reports success left nothing behind: the Auto Scaling group is gone or belongs to somebody else, a
  complete listing of the instances with the owner token came back empty, the launch template was deleted (or is
  gone, or belongs to somebody else), and the state file is removed. After any error the state file still holds the state, so
  that the command can be run again.\<close>

theorem runAWSDevDown_complete:
  assumes "store_inv cwd D R n d" "awsStatePath (deHome env) name = Inr (under D [n] False)"
    and "deStore env (under D [n] False) = state_file marshal unmarshal cwd (under D [n] False)"
    and "encodes marshal (fst d (R @ [n])) st" "readAWSState unmarshal cwd (under D [n] False) d = (Inr st, d1)" "asDev st = Some dev"
    and "\<And>b. mset (deOrder env b) = mset b"
    and "runAWSDevDown (watched_env env) name (d, (t, (w, []))) = Some (r, (d', (t', (w', es))))"
  shows "case r of Inr _ \<Rightarrow> cleared st dev es \<and> fst d' (R @ [n]) = None | Inl _ \<Rightarrow> encodes marshal (fst d' (R @ [n])) st"
proof -
  let ?ops = "state_file marshal unmarshal cwd (under D [n] False)"
  have rd: "stRead ?ops d = (Inr st, d1)" using assms(5) by (simp add: state_file_def)
  note read = aws_file.read_law [OF assms(1) rd]
  have post: "down_post ?ops st dev d d1 r d' es"
    using runAWSDevDown_post [OF assms(7,2) _ assms(6,8)] rd assms(3) by simp
  have removed: "if e = None \<or> e = Some ENOENT then fst d' (R @ [n]) = None else fst d' (R @ [n]) = fst d (R @ [n])"
    if "stRemove ?ops d1 = (e, d')" for e
    using aws_file.remove_law [OF conjunct1 [OF read] that] read by (auto split: if_splits)
  show ?thesis
    using post assms(4) read by (auto simp: down_post_def split: sum.splits dest!: removed)
qed

text \<open>A group of one box, its template and a box that outlives the group, owned by \<^verbatim>\<open>abc\<close>. The state of the cloud counts the
  changes: the group goes first, then the box, then the template.\<close>

definition dev_call :: "('i \<Rightarrow> nat \<Rightarrow> api_error + 'o) \<Rightarrow> bool \<Rightarrow> ('i, 'o, nat) aws_api" where
  "dev_call f change x w = (f x w, 1, if change then w + 1 else w)"

definition dev_machine :: "string \<Rightarrow> ec2_instance" where
  "dev_machine name =
     \<lparr>eiInstanceId = Some name, eiPublicIpAddress = None, eiPrivateIpAddress = Some ''10.0.0.7'', eiPlacement = None, eiState = Some ''running'',
      eiTags = [], eiInstanceType = ''t3a.medium'', eiImageId = Some ''ami-1'', eiSubnetId = Some ''subnet-1'', eiSecurityGroups = [],
      eiKeyName = None, eiIamInstanceProfile = None, eiBlockDeviceMappings = []\<rparr>"

definition dev_owner :: "tag list" where "dev_owner = [(Some awsDevOwnerTag, Some ''abc'')]"

definition dev_cloud :: "nat manager" where
  "dev_cloud =
     \<lparr>mgEC2 = Some \<lparr>ecRunInstances = dev_call (\<lambda>_ _. Inr []) False, ecTerminateInstances = dev_call (\<lambda>_ _. Inr ()) True,
        ecStopInstances = dev_call (\<lambda>_ _. Inr ()) False, ecStartInstances = dev_call (\<lambda>_ _. Inr ()) False,
        ecDescribeSubnets = dev_call (\<lambda>_ _. Inr [(Some ''subnet-1'', None)]) False, ecDescribeSecurityGroups = dev_call (\<lambda>_ _. Inr [Some ''sg-1'']) False,
        ecDescribeInstances = dev_call (\<lambda>x w. Inr \<lparr>doReservations = (if w \<le> 1 then [[dev_machine ''i-1'']] else []), doNextToken = None\<rparr>) False,
        ecAttachVolume = dev_call (\<lambda>_ _. Inr ()) False, ecCreateVolume = dev_call (\<lambda>_ _. Inr None) False, ecDetachVolume = dev_call (\<lambda>_ _. Inr ()) False,
        ecDeleteVolume = dev_call (\<lambda>_ _. Inr ()) False, ecDescribeVolumes = dev_call (\<lambda>_ _. Inr []) False\<rparr>,
      mgSSM = Some \<lparr>smSendCommand = dev_call (\<lambda>_ _. Inr (Some (Some ''cmd-1''))) False,
        smGetCommandInvocation = dev_call (\<lambda>_ _. Inr \<lparr>ivStatus = ''Success'', ivResponseCode = 0, ivStandardOutput = None, ivStandardError = None\<rparr>) False,
        smGetParameters = dev_call (\<lambda>_ _. Inr []) False\<rparr>,
      mgASG = None,
      mgSTS = Some (dev_call (\<lambda>_ _. Inr \<lparr>ciAccount = Some ''1234'', ciArn = Some ''arn:aws:iam::1234:user/u''\<rparr>) False),
      mgLT = Some \<lparr>ltCreateLaunchTemplate = dev_call (\<lambda>_ _. Inr (Some \<lparr>ltLaunchTemplateId = Some ''lt-1'', ltLatestVersionNumber = Some 1, ltTags = []\<rparr>)) False,
        ltDeleteLaunchTemplate = dev_call (\<lambda>_ _. Inr ()) True,
        ltDescribeLaunchTemplates = dev_call (\<lambda>_ _. Inr [\<lparr>ltLaunchTemplateId = Some ''lt-1'', ltLatestVersionNumber = Some 1, ltTags = dev_owner\<rparr>]) False,
        ltDescribeVpcs = dev_call (\<lambda>_ _. Inr [Some ''vpc-1'']) False\<rparr>,
      mgGroups = Some \<lparr>gaCreateAutoScalingGroup = dev_call (\<lambda>_ _. Inr ()) False, gaDeleteAutoScalingGroup = dev_call (\<lambda>_ _. Inr ()) True,
        gaSuspendProcesses = dev_call (\<lambda>_ _. Inr ()) False,
        gaDescribeAutoScalingGroups = dev_call (\<lambda>_ w. Inr (if w = 0
          then [\<lparr>asInstancesOf = [\<lparr>agInstanceId = Some ''i-1'', agLifecycleState = ''InService'', agHealthStatus = None, agAvailabilityZone = None\<rparr>],
                 asTagsOf = dev_owner\<rparr>] else [])) False,
        gaDescribeScalingActivities = dev_call (\<lambda>_ _. Inr []) False\<rparr>,
      mgWait = (\<lambda>d w. (None, 0, w))\<rparr>"

definition dev_group :: awsDevState where
  "dev_group =
     \<lparr>dvAccountID = ''1234'', dvVPCID = ''vpc-1'', dvSubnetIDs = [''subnet-1''], dvSecurityGroupIDs = [''sg-1''], dvAMI = ''ami-1'',
      dvInstanceType = ''t3a.medium'', dvMountPoint = ''/data'', dvVolumeSizeGB = 8, dvVolumeIOPS = 0, dvVolumeThroughputMiBps = 0, dvBucket = ''b'',
      dvResultsURI = ''s3://b/demo/'', dvCount = 1, dvAutoScalingGroup = ''demo'', dvLaunchTemplate = ''demo'', dvLaunchTemplateID = ''lt-1'',
      dvLaunchTemplateVersion = 1, dvOwnerToken = ''abc''\<rparr>"

definition dev_group_state :: awsState where
  "dev_group_state = (demo_state [])\<lparr>asReplaceable := False, asDev := Some dev_group\<rparr>"

definition dev_marshal :: "awsState \<Rightarrow> string + string" where "dev_marshal st = Inr (if st = dev_group_state then ''group'' else asName st)"

definition dev_unmarshal :: "string \<Rightarrow> awsState option" where
  "dev_unmarshal s = (if s = ''group'' @ [line_feed] then Some dev_group_state else None)"

definition dev_demo_env :: "(disk, nat) dev_env" where
  "dev_demo_env = \<lparr>deHome = Inr ''/h'', deStore = state_file dev_marshal dev_unmarshal [],
     deLoadConfig = (\<lambda>region w. (Inr (''us-east-1'', dev_cloud), 1, w)), deRandom = (\<lambda>_ w. (Inr (replicate 16 CHR ''a''), 1, w)), deOrder = (\<lambda>b. b)\<rparr>"

definition dev_disk :: disk where
  "dev_disk = (aws_home([''h'', ''.etcd-infra'', ''aws'', ''demo.json''] := Some (NFile 384 (''group'' @ [line_feed]))), [])"

lemma dev_demo_simps [simp]:
  "deHome dev_demo_env = Inr ''/h''" "deStore dev_demo_env = state_file dev_marshal dev_unmarshal []" "mset (deOrder dev_demo_env b) = mset b"
  by (simp_all add: dev_demo_env_def)

definition drops :: "dev_event list \<Rightarrow> dev_event list" where
  "drops = filter (\<lambda>e. case e of DropGroup _ \<Rightarrow> True | DropTemplate _ _ \<Rightarrow> True | DropInstance _ \<Rightarrow> True | _ \<Rightarrow> False)"

lemma dev_down_runs:
  "map_option (\<lambda>(r, d, t, w, es). (isl r, drops es)) (runAWSDevDown (watched_env dev_demo_env) ''demo'' (dev_disk, (0, (0, [])))) =
   Some (False, [DropGroup ''demo'', DropInstance ''i-1'', DropTemplate ''lt-1'' True])"
  by code_simp

lemma dev_down_run:
  obtains x d' t' w' es where "runAWSDevDown (watched_env dev_demo_env) ''demo'' (dev_disk, (0, (0, []))) = Some (Inr x, (d', (t', (w', es))))"
    and "DropInstance ''i-1'' \<in> set es"
proof -
  obtain r d' t' w' es where run: "runAWSDevDown (watched_env dev_demo_env) ''demo'' (dev_disk, (0, (0, []))) = Some (r, (d', (t', (w', es))))"
      "\<not> isl r" "drops es = [DropGroup ''demo'', DropInstance ''i-1'', DropTemplate ''lt-1'' True]"
    using dev_down_runs by (auto split: prod.splits)
  have "DropInstance ''i-1'' \<in> set (drops es)" by (simp add: run(3))
  then have "DropInstance ''i-1'' \<in> set es" by (simp add: drops_def)
  with run(1,2) show ?thesis by (cases r) (auto intro: that)
qed

lemma dev_disk_facts:
  "store_inv [] ''/h/.etcd-infra/aws'' [''h'', ''.etcd-infra'', ''aws''] ''demo.json'' dev_disk"
  "encodes dev_marshal (fst dev_disk ([''h'', ''.etcd-infra'', ''aws''] @ [''demo.json''])) dev_group_state"
  "\<exists>d1. readAWSState dev_unmarshal [] (under ''/h/.etcd-infra/aws'' [''demo.json''] False) dev_disk = (Inr dev_group_state, d1)"
proof -
  show inv: "store_inv [] ''/h/.etcd-infra/aws'' [''h'', ''.etcd-infra'', ''aws''] ''demo.json'' dev_disk"
    using aws_home_inv [of "[]"] by (simp add: dev_disk_def)
  show enc: "encodes dev_marshal (fst dev_disk ([''h'', ''.etcd-infra'', ''aws''] @ [''demo.json''])) dev_group_state"
    by (simp add: encodes_def dev_disk_def dev_marshal_def)
  have "fst (readAWSState dev_unmarshal [] (under ''/h/.etcd-infra/aws'' [''demo.json''] False) (fst dev_disk, snd dev_disk)) = Inr dev_group_state"
  proof (rule read_saved)
    show "store_inv [] ''/h/.etcd-infra/aws'' [''h'', ''.etcd-infra'', ''aws''] ''demo.json'' (fst dev_disk, snd dev_disk)" using inv by simp
    show "hd (snd dev_disk @ [NoFault]) = NoFault" by (simp add: dev_disk_def)
    show "dev_unmarshal (s @ [line_feed]) = Some dev_group_state" if "dev_marshal dev_group_state = Inr s" for s
      using that unfolding dev_marshal_def dev_unmarshal_def by simp
  qed (use enc in \<open>simp_all add: dev_group_state_def demo_state_def\<close>)
  then show "\<exists>d1. readAWSState dev_unmarshal [] (under ''/h/.etcd-infra/aws'' [''demo.json''] False) dev_disk = (Inr dev_group_state, d1)"
    unfolding prod.collapse by (metis prod.collapse)
qed

lemma dev_group_recorded: "asDev dev_group_state = Some dev_group"
  by (simp add: dev_group_state_def)

theorem runAWSDevDown_warranted_witness:
  "\<exists>x d' t' w' es. runAWSDevDown (watched_env dev_demo_env) ''demo'' (dev_disk, (0, (0, []))) = Some (Inr x, (d', (t', (w', es)))) \<and>
     DropInstance ''i-1'' \<in> set es \<and> (\<forall>k<length es. warranted dev_group_state dev_group (take k es) (es ! k))"
proof -
  obtain x d' t' w' es where run: "runAWSDevDown (watched_env dev_demo_env) ''demo'' (dev_disk, (0, (0, []))) = Some (Inr x, (d', (t', (w', es))))"
      "DropInstance ''i-1'' \<in> set es"
    by (rule dev_down_run)
  obtain d1 where read: "readAWSState dev_unmarshal [] (under ''/h/.etcd-infra/aws'' [''demo.json''] False) dev_disk = (Inr dev_group_state, d1)"
    using dev_disk_facts(3) by blast
  have rd: "stRead (deStore dev_demo_env (under ''/h/.etcd-infra/aws'' [''demo.json''] False)) dev_disk = (Inr dev_group_state, d1)"
    using read by (simp add: state_file_def)
  have "\<forall>k<length es. warranted dev_group_state dev_group (take k es) (es ! k)"
    by (rule runAWSDevDown_warranted [OF _ _ rd dev_group_recorded run(1)]) (simp_all add: aws_demo_path)
  with run show ?thesis by blast
qed

theorem runAWSDevDown_complete_witness:
  "\<exists>x d' t' w' es. runAWSDevDown (watched_env dev_demo_env) ''demo'' (dev_disk, (0, (0, []))) = Some (Inr x, (d', (t', (w', es)))) \<and>
     cleared dev_group_state dev_group es \<and> fst d' [''h'', ''.etcd-infra'', ''aws'', ''demo.json''] = None"
proof -
  obtain x d' t' w' es where run: "runAWSDevDown (watched_env dev_demo_env) ''demo'' (dev_disk, (0, (0, []))) = Some (Inr x, (d', (t', (w', es))))"
    by (rule dev_down_run)
  obtain d1 where read: "readAWSState dev_unmarshal [] (under ''/h/.etcd-infra/aws'' [''demo.json''] False) dev_disk = (Inr dev_group_state, d1)"
    using dev_disk_facts(3) by blast
  have path: "awsStatePath (deHome dev_demo_env) ''demo'' = Inr (under ''/h/.etcd-infra/aws'' [''demo.json''] False)"
    by (simp add: aws_demo_path)
  have store: "deStore dev_demo_env (under ''/h/.etcd-infra/aws'' [''demo.json''] False) =
      state_file dev_marshal dev_unmarshal [] (under ''/h/.etcd-infra/aws'' [''demo.json''] False)" by simp
  have order: "mset (deOrder dev_demo_env b) = mset b" for b by simp
  from runAWSDevDown_complete [OF dev_disk_facts(1) path store dev_disk_facts(2) read dev_group_recorded order run] run
  show ?thesis by auto
qed

end
