(* ===== verification/AwsDevReach.thy ===== *)
theory AwsDevReach
  imports AwsDevSafety
begin

text \<open>
  The commands of a development group that create and use it, over the log of \<open>AwsDevSafety\<close>. \<^verbatim>\<open>aws dev run\<close> sends a command to
  the boxes of the group that are in service and changes nothing; \<^verbatim>\<open>aws dev up\<close> leaves nothing behind that the state file does
  not name.
\<close>

section \<open>Running a command on a box\<close>

lemma emits_ssm_result [emits_intros]: "emits E (waitForSSMResult (watched m) (watched_ssm s) i c d)"
  unfolding waitForSSMResult_def ssm_attempt_def watched_sel watched_calls by (intro emits_intros | simp)+

lemma emits_sendSSM [emits_intros]: "emits {Sent (efID i) line} (sendSSMCommand (watched_ssm s) i line opts)"
  unfolding sendSSMCommand_def Let_def watched_calls by (intro emits_intros emits_noting) auto

text \<open>A command that is no shutdown, or is meant for the guest, is sent to the machine.\<close>

lemma emits_RunCommand:
  assumes "guestShutdown opts \<or> \<not> isShutdownCommand command" "\<And>line. buildSSMCommandString command opts = Inr line \<Longrightarrow> Sent (efID i) line \<in> E"
  shows "emits E (RunCommandWithOptionsEC2 (watched m) i command opts)"
proof -
  have "emits E (sendSSMCommand (watched_ssm s) i line opts)" if "buildSSMCommandString command opts = Inr line" for s line
    using assms(2) [OF that] by (auto intro: emits_mono [OF emits_sendSSM])
  with assms(1) show ?thesis
    unfolding RunCommandWithOptionsEC2_def watched_sel by (auto intro!: emits_intros)
qed

lemma traces_RunCommand:
  assumes "guestShutdown opts \<or> \<not> isShutdownCommand command" "\<And>l line. buildSSMCommandString command opts = Inr line \<Longrightarrow> J (es @ l) (Sent (efID i) line)"
    and "\<And>r line. buildSSMCommandString command opts = Inr line \<Longrightarrow> A r [Sent (efID i) line]" "\<And>e. A (Inl e) []"
  shows "traces J A (RunCommandWithOptionsEC2 (watched m) i command opts) es"
proof -
  have sent: "traces J (\<lambda>r l'. A r ([Sent (efID i) line] @ l')) (waitForSSMResult (watched m) (watched_ssm s) i c d) es'"
    if "buildSSMCommandString command opts = Inr line" for s c d es' line
    by (rule traces_emits [OF emits_ssm_result [where E = "{}"]]) (use assms(3) [OF that] in auto)
  have send: "traces J (\<lambda>r l. l = [Sent (efID i) line]) (sendSSMCommand (watched_ssm s) i line opts) es"
    if "buildSSMCommandString command opts = Inr line" for s line
  proof -
    have call: "traces J (\<lambda>_ l. l = [Sent (efID i) line]) (wrap h (call (smSendCommand (watched_ssm s)) x)) es" if "siInstanceId x = efID i" "siCommand x = line" for h x
      unfolding watched_calls
      by (rule traces_wrap [where A = "\<lambda>_ l. l = [Sent (efID i) line]"], rule traces_noting)
        (use assms(2) [OF \<open>buildSSMCommandString command opts = Inr line\<close>, of "[]"] that in auto)
    show ?thesis
      unfolding sendSSMCommand_def Let_def
      by (intro traces_at_time, rule traces_seq, rule call) (auto intro!: traces_ok traces_fail split: option.split)
  qed
  show ?thesis
    unfolding RunCommandWithOptionsEC2_def watched_sel
    using assms(1,4) assms(3)
    by (auto intro!: traces_fail traces_client traces_seq [OF send] sent split: sum.split)
qed

lemma traces_GetEC2:
  assumes "\<And>e. e \<in> saw \<Longrightarrow> \<forall>es. J es e" "\<And>r l. set l \<subseteq> saw \<Longrightarrow> (\<forall>i. r = Inr i \<longrightarrow> efID i = TrimSpace iid) \<Longrightarrow> A r l"
  shows "traces J A (GetEC2 (watched m) iid) es"
proof -
  define B :: "provider_error + ec2_info \<Rightarrow> dev_event list \<Rightarrow> bool" where
    "B r l \<longleftrightarrow> set l \<subseteq> saw \<and> (\<forall>i. r = Inr i \<longrightarrow> efID i = TrimSpace iid)" for r l
  have found: "efID (instanceFromEC2 i) = TrimSpace iid" if "find (\<lambda>i. ToString (eiInstanceId i) = TrimSpace iid) is = Some i" for "is" i
    using that by (auto simp: find_Some_iff instanceFromEC2_def Let_def)
  have "traces J B (GetEC2 (watched m) iid) es"
    unfolding GetEC2_def Let_def watched_sel
  proof (intro traces_client)
    fix c :: "'a ec2API"
    have "traces J (\<lambda>r l. set l \<subseteq> saw) (call (ecDescribeInstances (watched_ec2 c)) x) es" for x
      unfolding watched_calls by (rule traces_noting) (use assms(1) in \<open>auto split: sum.split\<close>)
    then show "traces J B (if TrimSpace iid = [] then fail (PMsg ''aws: instance id is required'')
        else attempt (call (ecDescribeInstances (watched_ec2 c)) (by_ids [TrimSpace iid])) (\<lambda>r. case r of
            Inl e \<Rightarrow> fail (if isInstanceNotFoundError e then PNotFound (''aws: describe instance '' @ TrimSpace iid) (Some e)
                           else PApi (''aws: describe instance '' @ TrimSpace iid) e)
          | Inr out \<Rightarrow>
              (case find (\<lambda>i. ToString (eiInstanceId i) = TrimSpace iid) (concat (doReservations out)) of
                 Some i \<Rightarrow> ok (instanceFromEC2 i)
               | None \<Rightarrow> fail (PNotFound (''aws: instance '' @ TrimSpace iid) None)))) es"
      by (auto intro!: traces_fail traces_attempt traces_ok split: sum.split option.split simp: B_def found)
  qed (simp add: B_def)
  then show ?thesis by (rule traces_mono) (use assms(2) in \<open>simp add: B_def\<close>)
qed

text \<open>Something for every box: what each of them appended, in order.\<close>

lemma traces_each:
  assumes "\<And>x l. x \<in> set xs \<Longrightarrow> traces J (A x) (f x) (es @ l)"
  shows "traces J (\<lambda>r l. \<exists>ps. r = Inr (map fst ps) \<and> l = concat (map snd ps) \<and> list_all2 (\<lambda>x p. A x (fst p) (snd p)) xs ps) 
     (each f xs :: ('f, ('e + 'a) list, ('w, 'v) noted) prog) es"
  using assms
proof (induction xs arbitrary: es)
  case Nil
  show ?case by (auto intro!: traces_ok)
next
  case (Cons x xs)
  let ?B = "\<lambda>xs r l. \<exists>ps. r = Inr (map fst ps) \<and> l = concat (map snd ps) \<and> list_all2 (\<lambda>x p. A x (fst p) (snd p)) xs ps"
  show ?case
    unfolding each.simps
  proof (rule traces_attempt [where A = "A x"])
    show "traces J (A x) (f x) es" using Cons.prems [of x "[]"] by simp
    fix r l
    assume r: "A x r l"
    have "traces J (?B xs) (each f xs :: ('f, ('e + 'a) list, ('w, 'v) noted) prog) (es @ l)"
      by (rule Cons.IH) (use Cons.prems [of _ "l @ _"] in simp)
    then show "traces J (\<lambda>(r :: 'f + ('e + 'a) list) l'. ?B (x # xs) r (l @ l')) (seq (each f xs) (\<lambda>rs. ok (r # rs))) (es @ l)"
    proof (rule traces_seq)
      fix rs l'
      assume "?B xs (Inr rs :: 'f + _) l'"
      then obtain ps where ps: "rs = map fst ps" "l' = concat (map snd ps)" "list_all2 (\<lambda>x p. A x (fst p) (snd p)) xs ps" by auto
      show "traces J (\<lambda>(r :: 'f + ('e + 'a) list) l''. ?B (x # xs) r (l @ l' @ l'')) (ok (r # rs)) ((es @ l) @ l')"
        by (rule traces_ok, rule exI [of _ "(r, l) # ps"]) (use ps r in simp)
    qed auto
  qed
qed

lemma traces_GroupMembers:
  assumes "\<And>gs. J es (SawGroups n gs)" "\<And>e. A (Inl e) []"
    and "\<And>gs. A (Inr (case gs of [] \<Rightarrow> None | x # _ \<Rightarrow> Some (sort_by gmID (map member_of (asInstancesOf x))))) [SawGroups n gs]"
  shows "traces J A (GroupMembers (watched m) n) es"
proof -
  let ?C = "\<lambda>r l. (\<exists>e. r = Inl e \<and> l = []) \<or> (\<exists>gs. r = Inr gs \<and> l = [SawGroups n gs])"
  have "traces J ?C (wrap h (call (gaDescribeAutoScalingGroups (watched_groups g)) n)) es" for g :: "'a groupAPI" and h
    unfolding watched_calls by (rule traces_wrap [where A = ?C], rule traces_noting) (use assms(1) in \<open>auto split: sum.split\<close>)
  then show ?thesis
    unfolding GroupMembers_def watched_sel
    by (intro traces_client traces_seq [where A = ?C]) (use assms(2,3) in \<open>auto intro!: traces_ok\<close>)
qed

section \<open>Run\<close>

text \<open>The boxes in service of a group, and those of them that are asked for.\<close>

definition in_service :: "asg_group \<Rightarrow> string set" where
  "in_service x = gmID ` set (filter InService (map member_of (asInstancesOf x)))"

definition selected :: "asg_group \<Rightarrow> string list \<Rightarrow> string set" where
  "selected x requested = (if requested = [] then in_service x else set requested)"

definition run_line :: "string \<Rightarrow> string" where
  "run_line userScript = JoinArgs [''bash'', ''-c'', awsDevRunScript userScript]"

definition allowed :: "awsDevState \<Rightarrow> string list \<Rightarrow> string \<Rightarrow> dev_event list \<Rightarrow> dev_event \<Rightarrow> bool" where
  "allowed dev requested userScript es e \<longleftrightarrow> e \<in> saw \<or>
     (\<exists>x xs iid. SawGroups (dvAutoScalingGroup dev) (x # xs) \<in> set es \<and> iid \<in> in_service x \<inter> selected x requested \<and>
        e = Sent (TrimSpace iid) (run_line userScript))"

lemma allowed_saw [simp]: "e \<in> saw \<Longrightarrow> allowed dev requested userScript es e" by (simp add: allowed_def)

lemma set_sort_by: "set (sort_by f xs) = set xs"
proof -
  have insert: "set (insert_by f x ys) = insert x (set ys)" for x ys by (induction ys) auto
  show ?thesis unfolding sort_by_def by (induction xs) (simp_all add: insert)
qed

lemma awsDevRunTargets_set:
  assumes "awsDevRunTargets members requested = Inr targets"
  shows "set targets \<subseteq> gmID ` set (filter InService members)"
    "set targets = (if requested = [] then gmID ` set (filter InService members) else set requested)"
  using assms by (auto simp: awsDevRunTargets_def Let_def find_None_iff split: if_splits option.splits)

lemma traces_group_targets:
  assumes "\<And>e. A (Inl e) []" "\<And>e gs. A (Inl e) [SawGroups (dvAutoScalingGroup dev) gs]"
    "\<And>targets x xs. set targets \<subseteq> in_service x \<Longrightarrow> set targets = selected x requested \<Longrightarrow> A (Inr targets) [SawGroups (dvAutoScalingGroup dev) (x # xs)]"
  shows "traces (allowed dev requested userScript) A (group_targets (watched m) st dev requested) es"
proof -
  let ?C = "\<lambda>r l. (\<exists>e. r = Inl e \<and> l = []) \<or> (\<exists>gs. l = [SawGroups (dvAutoScalingGroup dev) gs] \<and>
      r = Inr (case gs of [] \<Rightarrow> None | x # _ \<Rightarrow> Some (sort_by gmID (map member_of (asInstancesOf x)))))"
  have picked: "set targets \<subseteq> in_service x" "set targets = selected x requested"
    if "awsDevRunTargets (sort_by gmID (map member_of (asInstancesOf x))) requested = Inr targets" for x targets
    using awsDevRunTargets_set [OF that] by (auto simp: set_sort_by in_service_def selected_def)
  show ?thesis
    unfolding group_targets_def
  proof (rule traces_seq [where A = ?C], rule traces_GroupMembers)
    fix found l
    assume "?C (Inr found :: provider_error + _) l"
    then obtain gs where gs: "l = [SawGroups (dvAutoScalingGroup dev) gs]"
        "found = (case gs of [] \<Rightarrow> None | x # _ \<Rightarrow> Some (sort_by gmID (map member_of (asInstancesOf x))))" by auto
    show "traces (allowed dev requested userScript) (\<lambda>r l'. A r (l @ l'))
        (case found of None \<Rightarrow> fail (PMsg (''auto scaling group '' @ dvAutoScalingGroup dev @ '' does not exist; run etcd-infra aws dev down --name '' @
                    asName st @ '' to clean up''))
        | Some members \<Rightarrow> (case awsDevRunTargets members requested of Inl e \<Rightarrow> fail e | Inr targets \<Rightarrow> ok targets)) (es @ l)"
      unfolding gs using assms(2,3) picked by (cases gs) (auto intro!: traces_fail traces_ok split: sum.split)
  qed (use assms(1) in auto)
qed

lemma run_line_built:
  assumes "buildSSMCommandString [''bash'', ''-c'', awsDevRunScript userScript] (Some (guest_options t)) = Inr line"
  shows "line = run_line userScript"
proof -
  have "TrimSpace [] = []" by code_simp
  with assms show ?thesis
    by (auto simp: buildSSMCommandString_def guest_options_def run_options_def run_line_def Let_def split: if_splits)
qed

lemma traces_run_on:
  assumes "SawGroups (dvAutoScalingGroup dev) (x # xs) \<in> set es" "iid \<in> in_service x" "iid \<in> selected x requested"
  shows "traces (allowed dev requested userScript) (\<lambda>r l. \<forall>y. r = Inr y \<longrightarrow> Sent (TrimSpace iid) (run_line userScript) \<in> set l)
     (run_on (watched m) userScript timeout iid) es"
proof -
  let ?J = "allowed dev requested userScript" and ?E = "\<lambda>r l. \<forall>y. r = Inr y \<longrightarrow> Sent (TrimSpace iid) (run_line userScript) \<in> set l"
  have sent: "?J (es @ l) (Sent (TrimSpace iid) (run_line userScript))" for l
    using assms unfolding allowed_def by (intro disjI2 exI [of _ x] exI [of _ xs] exI [of _ iid]) simp
  have guest: "guestShutdown (Some (guest_options timeout))" by (simp add: guestShutdown_def guest_options_def)
  show ?thesis
    unfolding run_on_def
  proof (rule traces_seq [where A = "\<lambda>r l. \<forall>i. r = Inr i \<longrightarrow> efID i = TrimSpace iid"], rule traces_GetEC2)
    fix i l
    assume "\<forall>i'. (Inr i :: provider_error + ec2_info) = Inr i' \<longrightarrow> efID i' = TrimSpace iid"
    then have i: "efID i = TrimSpace iid" by simp
    show "traces ?J (\<lambda>r l'. ?E r (l @ l'))
        (RunCommandWithOptionsEC2 (watched m) i [''bash'', ''-c'', awsDevRunScript userScript] (Some (guest_options timeout))) (es @ l)"
      by (rule traces_RunCommand) (use guest sent i in \<open>auto dest!: run_line_built\<close>)
  qed auto
qed

text \<open>A step of the cloud inside a command.\<close>

lemma wp_cloud_traces:
  fixes m :: "(provider_error, 'a, ('w, 'v) noted) prog"
  assumes "traces J A m es" "\<And>r l t w. chain J es l \<Longrightarrow> A r l \<Longrightarrow> Q (map_sum DvProvider id r) (x, (t, (w, es @ l)))"
  shows "wp True (cloud m) Q (x, (t, (w, es)))"
  unfolding wp_cloud
proof (rule wp_mono [OF tracesD [OF assms(1)]])
  fix r and u :: "('w, 'v) noted"
  assume "\<exists>l. log_of u = es @ l \<and> chain J es l \<and> A r l"
  then obtain l where l: "log_of u = es @ l" "chain J es l" "A r l" by blast
  obtain t w where "u = (t, (w, es @ l))" using l(1) by (metis log_of_def prod.collapse)
  with assms(2) l(2,3) show "Q (map_sum DvProvider id r) (x, u)" by simp
qed

lemma run_report_clean:
  assumes "run_report st targets rs = (out, err, None)" "length rs = length targets"
  shows "\<forall>r\<in>set rs. \<exists>y. r = Inr y \<and> erExitCode y = 0"
proof -
  have "concat (map (\<lambda>(_, _, f). f) (map (\<lambda>(iid, r). box_report (length targets) iid r) (zip targets rs))) = []"
    using assms(1) unfolding run_report_def Let_def by (simp only: prod.inject option.distinct simp_thms split: if_splits)
  then have "\<forall>b\<in>set (map (\<lambda>(iid, r). box_report (length targets) iid r) (zip targets rs)). snd (snd b) = []"
    by (simp add: split_def)
  then have "snd (snd (box_report k iid r)) = []" if "(iid, r) \<in> set (zip targets rs)" "k = length targets" for k iid r
    using that by (metis (no_types, lifting) case_prod_conv image_eqI list.set_map)
  moreover have "snd (snd (box_report k iid r)) \<noteq> []" if "\<not> (\<exists>y. r = Inr y \<and> erExitCode y = 0)" for k iid r
    using that by (cases r) (auto simp: box_report_def Let_def)
  ultimately show ?thesis using assms(2) by (metis in_set_impl_in_set_zip2)
qed

text \<open>The text of a run.\<close>

definition user_script :: "errno + string \<Rightarrow> awsDevRunOptions \<Rightarrow> string" where
  "user_script script ro = (if roScript ro = [] then JoinArgs (roCommand ro) else (case script of Inl _ \<Rightarrow> [] | Inr text \<Rightarrow> text))"

definition run_post :: "awsDevState \<Rightarrow> string list \<Rightarrow> string \<Rightarrow> 'e + report_line list \<times> report_line list \<times> dev_error option \<Rightarrow>
    dev_event list \<Rightarrow> bool" where
  "run_post dev requested text r l \<longleftrightarrow> chain (allowed dev requested text) [] l \<and>
     (\<forall>out err. r = Inr (out, err, None) \<longrightarrow> (\<exists>x xs. SawGroups (dvAutoScalingGroup dev) (x # xs) \<in> set l \<and>
        (\<forall>iid\<in>selected x requested. Sent (TrimSpace iid) (run_line text) \<in> set l)))"

lemma run_targets_post:
  "wp True (seq (cloud (group_targets (watched m) st dev requested)) (\<lambda>targets.
       seq (cloud (each (run_on (watched m) text timeout) targets)) (\<lambda>results. ok (run_report st targets results))))
     (\<lambda>r (d', (t', (w', l))). run_post dev requested text r l) (d, (t, (w, [])))"
proof -
  define Q :: "dev_error + report_line list \<times> report_line list \<times> dev_error option \<Rightarrow> 'a \<times> ('b, dev_event) noted \<Rightarrow> bool" where
    "Q = (\<lambda>r (d', (t', (w', l))). run_post dev requested text r l)"
  let ?J = "allowed dev requested text"
  let ?G = "\<lambda>r l. set l \<subseteq> saw \<and> (\<forall>targets. r = Inr targets \<longrightarrow> (\<exists>x xs. l = [SawGroups (dvAutoScalingGroup dev) (x # xs)] \<and>
      set targets \<subseteq> in_service x \<and> set targets = selected x requested))"
  let ?R = "\<lambda>targets r l. \<exists>ps. r = Inr (map fst ps) \<and> l = concat (map snd ps) \<and>
      list_all2 (\<lambda>iid p. \<forall>y. fst p = Inr y \<longrightarrow> Sent (TrimSpace iid) (run_line text) \<in> set (snd p)) targets ps"
  let ?K = "\<lambda>targets r. case r of Inl e \<Rightarrow> Q (Inl e) | Inr results \<Rightarrow> wp True (ok (run_report st targets results)) Q"
  have early: "Q (Inl e) (d, (t, (w, l)))" if "chain ?J [] l" for e t w l using that by (simp add: Q_def run_post_def)
  have targets: "traces ?J ?G (group_targets (watched m) st dev requested) []"
    by (rule traces_group_targets) auto
  have boxes: "wp True (cloud (each (run_on (watched m) text timeout) targets))
      (?K targets) (d, (t, (w, [SawGroups (dvAutoScalingGroup dev) (x # xs)])))"
    if ts: "set targets \<subseteq> in_service x" "set targets = selected x requested" for targets x xs t w
  proof (rule wp_cloud_traces [where A = "?R targets"])
    show "traces ?J (?R targets) (each (run_on (watched m) text timeout) targets) [SawGroups (dvAutoScalingGroup dev) (x # xs)]"
      by (rule traces_each, rule traces_run_on) (use ts in auto)
    fix r l t w
    assume l: "chain ?J [SawGroups (dvAutoScalingGroup dev) (x # xs)] l" and "?R targets (r :: provider_error + (provider_error + ExecuteResult) list) l"
    then obtain ps where ps: "r = Inr (map fst ps)" "l = concat (map snd ps)"
        "list_all2 (\<lambda>iid p. \<forall>y. fst p = Inr y \<longrightarrow> Sent (TrimSpace iid) (run_line text) \<in> set (snd p)) targets ps" by blast
    have "Sent (TrimSpace iid) (run_line text) \<in> set l" if report: "run_report st targets (map fst ps) = (out, err, None)" and iid: "iid \<in> set targets" for out err iid
    proof -
      have len: "length ps = length targets" using ps(3) by (simp add: list_all2_lengthD)
      obtain k where k: "k < length targets" "iid = targets ! k" using iid by (metis in_set_conv_nth)
      have "\<exists>y. fst (ps ! k) = Inr y"
        using run_report_clean [OF report] len k(1) by (metis length_map nth_map nth_mem)
      then have "Sent (TrimSpace iid) (run_line text) \<in> set (snd (ps ! k))" using list_all2_nthD [OF ps(3) k(1)] k(2) by auto
      then show ?thesis using len k(1) unfolding ps(2) by force
    qed
    then show "?K targets (map_sum DvProvider id r) (d, (t, (w, [SawGroups (dvAutoScalingGroup dev) (x # xs)] @ l)))"
      using l ts by (auto simp: ps(1) wp_ok Q_def run_post_def)
  qed
  have "wp True (seq (cloud (group_targets (watched m) st dev requested)) (\<lambda>targets.
       seq (cloud (each (run_on (watched m) text timeout) targets)) (\<lambda>results. ok (run_report st targets results)))) Q (d, (t, (w, [])))"
    unfolding wp_seq
    by (rule wp_cloud_traces [OF targets]) (use boxes early in \<open>auto split: sum.split dest!: map_sum_InrD\<close>)
  then show ?thesis by (simp add: Q_def)
qed

lemma wp_seq_known: "wp d (seq (ok x) f) Q s = wp d (f x) Q s" "wp d (seq (fail e) f) Q s = Q (Inl e) s"
  by (simp_all add: wp_simps)

text \<open>C12: Running a command on a development group changes nothing and reaches only its boxes: apart from questions the cloud
  is only asked to run the given script, each time in the script's wrapping and on an instance that an earlier answer showed as an
  in-service member of the recorded Auto Scaling group and, if boxes were selected, on one of those. A command that
  shuts the machine down is sent as well, never turned into a termination. A report without failures means that
  the script was sent to every box that was asked for.\<close>

theorem runAWSDevRun_reaches:
  assumes "awsStatePath (deHome env) (roName ro) = Inr p" "stRead (deStore env p) d = (Inr st, d1)" "asDev st = Some dev"
    and "runAWSDevRun (watched_env env) script ro (d, (t, (w, []))) = Some (r, (d', (t', (w', es))))"
  shows "(\<forall>k<length es. allowed dev (splitCSV (roInstances ro)) (user_script script ro) (take k es) (es ! k)) \<and>
    (\<forall>out err. r = Inr (out, err, None) \<longrightarrow> (\<exists>x xs. SawGroups (dvAutoScalingGroup dev) (x # xs) \<in> set es \<and>
       (\<forall>iid\<in>selected x (splitCSV (roInstances ro)). Sent (TrimSpace iid) (run_line (user_script script ro)) \<in> set es)))"
proof -
  define Q :: "dev_error + report_line list \<times> report_line list \<times> dev_error option \<Rightarrow> 'a \<times> ('b, dev_event) noted \<Rightarrow> bool" where
    "Q = (\<lambda>r (d', (t', (w', l))). run_post dev (splitCSV (roInstances ro)) (user_script script ro) r l)"
  have early: "Q (Inl e) (x, (t, (w, [])))" for e x t w by (simp add: Q_def run_post_def)
  have group: "wp True (seq (readAWSDevGroupState (watched_env env) (roName ro)) f) Q (d, (t, (w, [])))"
    if "\<And>p. wp True (f (st, dev, p)) Q (d1, (t, (w, [])))" for f
    unfolding readAWSDevGroupState_def wp_seq
    by (rule wp_readAWSDevState [OF _ _ assms(3)]) (use assms(1,2) early that in \<open>auto simp: wp_ok wp_fail\<close>)
  have manager: "wp True (seq (awsDevManager (watched_env env) st) f) Q (d1, (t, (w, [])))"
    if "\<And>m t w. wp True (f (watched m)) Q (d1, (t, (w, [])))" for f
    unfolding wp_seq by (rule wp_awsDevManager) (simp_all add: early that)
  have body: "wp True (seq (readAWSDevGroupState (watched_env env) (roName ro)) (\<lambda>(state, dev, _).
      seq (awsDevManager (watched_env env) state) (\<lambda>m.
      seq (cloud (group_targets m state dev (splitCSV (roInstances ro)))) (\<lambda>targets.
      seq (cloud (each (run_on m (user_script script ro) (roRunTimeout ro)) targets)) (\<lambda>results.
      ok (run_report state targets results)))))) Q (d, (t, (w, [])))"
    by (rule group, unfold prod.case, rule manager) (simp add: Q_def run_targets_post)
  have "wp True (runAWSDevRun (watched_env env) script ro) Q (d, (t, (w, [])))"
    using body early unfolding runAWSDevRun_def
    by (auto simp: wp_fail wp_seq_known user_script_def split: sum.split)
  from wp_result [OF this assms(4)] show ?thesis
    using chain_nth [of "allowed dev (splitCSV (roInstances ro)) (user_script script ro)" "[]" es] by (simp add: Q_def run_post_def)
qed

definition demo_run :: awsDevRunOptions where
  "demo_run = \<lparr>roName = ''demo'', roInstances = [], roScript = [], roRunTimeout = 60 * second, roCommand = [''sudo'', ''reboot'']\<rparr>"

lemma poll_done: "body tw = Some (Inl r, tw') \<Longrightarrow> poll wait expiry body interrupted tw = Some (r, tw')"
  by (simp add: poll_def loop_from.simps poll_round_def)

definition dev_ssm :: "nat ssmAPI" where
  "dev_ssm = \<lparr>smSendCommand = dev_call (\<lambda>_ _. Inr (Some (Some ''cmd-1''))) False,
     smGetCommandInvocation = dev_call (\<lambda>_ _. Inr \<lparr>ivStatus = ''Success'', ivResponseCode = 0, ivStandardOutput = None, ivStandardError = None\<rparr>) False,
     smGetParameters = dev_call (\<lambda>_ _. Inr []) False\<rparr>"

lemma dev_cloud_ssm: "mgSSM dev_cloud = Some dev_ssm"
  by (simp add: dev_cloud_def dev_ssm_def)

text \<open>A command on the demo machine, whatever its text.\<close>

lemma dev_answer:
  "\<exists>x t'. waitForSSMResult (watched dev_cloud) (watched_ssm dev_ssm) i c d (t, (w, es)) = Some (Inr x, (t', (w, es))) \<and> erExitCode x = 0"
proof -
  let ?x = "\<lparr>erExitCode = 0, erStdout = [], erStderr = []\<rparr>"
  have "ssm_attempt (watched_ssm dev_ssm) i c d (t, (w, es)) = Some (Inl (Inr ?x), (t + 1, (w, es)))"
    by (simp add: ssm_attempt_def at_time_def attempt_def call_def noting_def dev_ssm_def dev_call_def fail_def unfinished_statuses_def
        buildSSMExecuteResult_def)
  from poll_done [where body = "ssm_attempt (watched_ssm dev_ssm) i c d" and tw = "(t, (w, es))", OF this] show ?thesis
    by (simp add: waitForSSMResult_def)
qed

lemma dev_sent:
  assumes "TrimSpace (efID i) \<noteq> []"
  shows "\<exists>x t'. RunCommandWithOptionsEC2 (watched dev_cloud) i [''bash'', ''-c'', awsDevRunScript s] (Some (guest_options d)) (t, (w, es)) =
     Some (Inr x, (t', (w, es @ [Sent (efID i) (run_line s)]))) \<and> erExitCode x = 0"
proof -
  have "TrimSpace [] = []" by code_simp
  moreover have "JoinArgs [''bash'', ''-c'', awsDevRunScript s] \<noteq> []" by (simp add: JoinArgs_def Quote_def)
  ultimately have build: "buildSSMCommandString [''bash'', ''-c'', awsDevRunScript s] (Some (guest_options d)) = Inr (run_line s)"
    by (simp add: buildSSMCommandString_def guest_options_def run_options_def run_line_def Let_def)
  have guest: "guestShutdown (Some (guest_options d))" by (simp add: guestShutdown_def guest_options_def)
  obtain limit where send: "sendSSMCommand (watched_ssm dev_ssm) i (run_line s) (Some (guest_options d)) (t, (w, es)) =
      Some (Inr (''cmd-1'', limit), (t + 1, (w, es @ [Sent (efID i) (run_line s)])))"
    by (simp add: sendSSMCommand_def at_time_def seq_def attempt_def wrap_def call_def noting_def dev_ssm_def dev_call_def ok_def Let_def)
  show ?thesis
    using assms send dev_answer
    by (simp add: RunCommandWithOptionsEC2_def build guest dev_cloud_ssm client_def seq_def [of "sendSSMCommand _ _ _ _"] attempt_def)
qed

lemma seq_run: "m s = Some (Inr x, s') \<Longrightarrow> seq m f s = f x s'"
  by (simp add: seq_def attempt_def)

lemma ok_run: "ok x s = Some (Inr x, s)" by (simp add: ok_def)

lemma map_sum_InrE: "map_sum f g r = Inr y \<Longrightarrow> (\<And>x. r = Inr x \<Longrightarrow> g x = y \<Longrightarrow> thesis) \<Longrightarrow> thesis"
  by (cases r) auto

lemma trim_i: "TrimSpace ''i-1'' = ''i-1''" by code_simp

lemma dev_run_runs:
  "\<exists>out err d' t' es. runAWSDevRun (watched_env dev_demo_env) (Inl ENOENT) demo_run (dev_disk, (0, (0, []))) = Some (Inr (out, err, None), (d', (t', (0, es)))) \<and>
     Sent ''i-1'' (run_line ''sudo reboot'') \<in> set es"
proof -
  let ?p = "under ''/h/.etcd-infra/aws'' [''demo.json''] False" and ?env = "watched_env dev_demo_env"
  obtain d1 where "readAWSState dev_unmarshal [] ?p dev_disk = (Inr dev_group_state, d1)"
    using dev_disk_facts(3) by blast
  then have read: "stRead (state_file dev_marshal dev_unmarshal [] ?p) dev_disk = (Inr dev_group_state, d1)" by (simp add: state_file_def)
  have valid: "validateClusterName ''demo'' = None" by code_simp
  have state: "readAWSDevGroupState ?env ''demo'' (dev_disk, tw) = Some (Inr (dev_group_state, dev_group, ?p), (d1, tw))" for tw
    by (simp add: readAWSDevGroupState_def readAWSDevState_def seq_def attempt_def check_def valid ok_def disk_read_def read aws_demo_path
        dev_group_recorded awsDevIsLegacy_def) (simp add: dev_group_def ok_def)
  have manager: "awsDevManager ?env dev_group_state (d1, (0, (0, []))) = Some (Inr (watched dev_cloud), (d1, (1, (0, []))))"
    by (simp add: awsDevManager_def load_config_def seq_def attempt_def wrap_def ok_def cloud_def call_def watched_env_def dev_demo_env_def)
  have "map_option (\<lambda>(r, t, w, es). (map_sum (\<lambda>_. ()) id r, t, w)) (group_targets (watched dev_cloud) dev_group_state dev_group [] (1, (0, []))) =
      Some (Inr [''i-1''], 2, 0)" by code_simp
  then obtain es1 where targets: "group_targets (watched dev_cloud) dev_group_state dev_group [] (1, (0, [])) = Some (Inr [''i-1''], (2, (0, es1)))"
    by (auto split: prod.splits dest!: map_sum_InrD)
  have "map_option (\<lambda>(r, t, w, es). (map_sum (\<lambda>_. ()) efID r, t, w)) (GetEC2 (watched dev_cloud) ''i-1'' (2, (0, es1))) = Some (Inr ''i-1'', 3, 0)"
    by code_simp
  then obtain i es2 where get: "GetEC2 (watched dev_cloud) ''i-1'' (2, (0, es1)) = Some (Inr i, (3, (0, es2)))" "efID i = ''i-1''"
    by (auto split: prod.splits elim!: map_sum_InrE)
  obtain x t' where sent: "RunCommandWithOptionsEC2 (watched dev_cloud) i [''bash'', ''-c'', awsDevRunScript ''sudo reboot''] (Some (guest_options (60 * second)))
      (3, (0, es2)) = Some (Inr x, (t', (0, es2 @ [Sent ''i-1'' (run_line ''sudo reboot'')])))" "erExitCode x = 0"
    using dev_sent [of i "''sudo reboot''" "60 * second" 3 0 es2] get(2) by (auto simp: trim_i)
  have boxes: "each (run_on (watched dev_cloud) ''sudo reboot'' (60 * second)) [''i-1''] (2, (0, es1)) =
      Some (Inr [Inr x], (t', (0, es2 @ [Sent ''i-1'' (run_line ''sudo reboot'')])))"
    by (simp add: attempt_def run_on_def seq_def get(1) sent ok_def)
  have report: "\<exists>out err. run_report dev_group_state [''i-1''] [Inr x] = (out, err, None)"
    using sent(2) by (simp add: run_report_def box_report_def Let_def)
  have targets1: "cloud (group_targets (watched dev_cloud) dev_group_state dev_group []) (d1, (1, (0, []))) = Some (Inr [''i-1''], (d1, (2, (0, es1))))"
    by (simp add: cloud_def targets)
  have boxes1: "cloud (each (run_on (watched dev_cloud) ''sudo reboot'' (60 * second)) [''i-1'']) (d1, (2, (0, es1))) =
      Some (Inr [Inr x], (d1, (t', (0, es2 @ [Sent ''i-1'' (run_line ''sudo reboot'')]))))"
    by (simp add: cloud_def boxes del: each.simps)
  have pos: "\<not> second \<le> 0" by (simp add: second_def)
  have line: "JoinArgs [''sudo'', ''reboot''] = ''sudo reboot''" "splitCSV [] = []" by code_simp+
  have "runAWSDevRun ?env (Inl ENOENT) demo_run (dev_disk, (0, (0, []))) =
      Some (Inr (run_report dev_group_state [''i-1''] [Inr x]), (d1, (t', (0, es2 @ [Sent ''i-1'' (run_line ''sudo reboot'')]))))"
    by (simp add: runAWSDevRun_def demo_run_def line pos seq_run state manager targets1 boxes1 ok_run del: each.simps)
  with report show ?thesis by force
qed

theorem runAWSDevRun_reaches_witness:
  "\<exists>out err d' t' w' es. runAWSDevRun (watched_env dev_demo_env) (Inl ENOENT) demo_run (dev_disk, (0, (0, []))) =
      Some (Inr (out, err, None), (d', (t', (w', es)))) \<and>
    (\<forall>k<length es. allowed dev_group [] ''sudo reboot'' (take k es) (es ! k)) \<and>
    Sent ''i-1'' (run_line ''sudo reboot'') \<in> set es"
proof -
  obtain out err d' t' es where run: "runAWSDevRun (watched_env dev_demo_env) (Inl ENOENT) demo_run (dev_disk, (0, (0, []))) =
      Some (Inr (out, err, None), (d', (t', (0, es))))" "Sent ''i-1'' (run_line ''sudo reboot'') \<in> set es" using dev_run_runs by blast
  obtain d1 where "readAWSState dev_unmarshal [] (under ''/h/.etcd-infra/aws'' [''demo.json''] False) dev_disk = (Inr dev_group_state, d1)"
    using dev_disk_facts(3) by blast
  then have rd: "stRead (deStore dev_demo_env (under ''/h/.etcd-infra/aws'' [''demo.json''] False)) dev_disk = (Inr dev_group_state, d1)"
    by (simp add: state_file_def)
  have path: "awsStatePath (deHome dev_demo_env) (roName demo_run) = Inr (under ''/h/.etcd-infra/aws'' [''demo.json''] False)"
    by (simp add: aws_demo_path demo_run_def)
  have given: "splitCSV (roInstances demo_run) = []" "user_script (Inl ENOENT) demo_run = ''sudo reboot''" by code_simp+
  note all = runAWSDevRun_reaches [OF path rd dev_group_recorded run(1), unfolded given]
  show ?thesis by (intro exI conjI) (rule run(1), rule conjunct1 [OF all], rule run(2))
qed

end
