(* ===== verification/AwsDevUp.thy ===== *)
theory AwsDevUp
  imports AwsDevReach
begin

text \<open>
  What \<^verbatim>\<open>aws dev up\<close> leaves behind. Whatever fails on the way, what it created is named by the state file, with the owner token that
  \<^verbatim>\<open>aws dev down\<close> looks for, or nothing it created is left. The client lemmas are proved in the locale \<open>state_store\<close> and
  reach the file through its interpretation \<open>aws_file\<close>.
\<close>

section \<open>What up may do\<close>

text \<open>Everything it creates bears the name and the owner token of the group; it deletes only a launch template that it made or
  saw with this token.\<close>

fun made_for :: "awsDevState \<Rightarrow> dev_event list \<Rightarrow> dev_event \<Rightarrow> bool" where
  "made_for dev es (MadeTemplate x i) \<longleftrightarrow> tiName x = dvLaunchTemplate dev \<and> (awsDevOwnerTag, dvOwnerToken dev) \<in> set (tiTags x)"
| "made_for dev es (MadeGroup z) \<longleftrightarrow> giName z = dvAutoScalingGroup dev \<and> (awsDevOwnerTag, dvOwnerToken dev, False) \<in> set (giTags z)"
| "made_for dev es (DropTemplate i b) \<longleftrightarrow> (\<exists>x. MadeTemplate x i \<in> set es) \<or>
     (\<exists>x xs. SawTemplates (dvLaunchTemplate dev) (x # xs) \<in> set es \<and> i = ToString (ltLaunchTemplateId x) \<and>
        extractTags (ltTags x) awsDevOwnerTag = Some (dvOwnerToken dev))"
| "made_for dev es (DropGroup n) \<longleftrightarrow> False"
| "made_for dev es (DropInstance i) \<longleftrightarrow> False"
| "made_for dev es e \<longleftrightarrow> True"

lemma made_for_saw [simp]: "e \<in> saw \<Longrightarrow> made_for dev es e"
  by (cases e) auto

definition nothing_left :: "dev_event list \<Rightarrow> bool" where
  "nothing_left es \<longleftrightarrow> (\<forall>z. MadeGroup z \<notin> set es) \<and> (\<forall>x i. MadeTemplate x i \<in> set es \<longrightarrow> DropTemplate i True \<in> set es)"

text \<open>Watching and commanding boxes.\<close>

definition boxes_only :: "dev_event set" where "boxes_only = saw \<union> {e. \<exists>i line. e = Sent i line}"

lemma boxes_only_simps [simp]: "saw \<subseteq> boxes_only" "Sent i line \<in> boxes_only" "MadeTemplate x y \<notin> boxes_only" "MadeGroup z \<notin> boxes_only"
  "e \<in> boxes_only \<Longrightarrow> made_for dev es e"
  by (auto simp: boxes_only_def)

section \<open>Waiting for the boxes\<close>

lemma emits_boxes: "emits saw m \<Longrightarrow> emits boxes_only m"
  by (erule emits_mono) (auto simp: boxes_only_def)

lemma emits_run: "\<not> isShutdownCommand command \<Longrightarrow> emits boxes_only (RunCommandWithOptionsEC2 (watched m) i command opts)"
  by (rule emits_RunCommand) auto

lemma no_shutdowns: "\<not> isShutdownCommand [''echo'', ''ready'']" "\<not> isShutdownCommand [''bash'', ''-c'', awsDevSetupWaitScript]"
  by code_simp+

lemma emits_WaitForReady: "emits boxes_only (WaitForReady (watched m) iid t)"
proof -
  have "emits boxes_only (instanceIsReady (watched m) i)" for i
    unfolding instanceIsReady_def RunCommandEC2_def
    by (intro emits_intros emits_run) (simp_all add: no_shutdowns)
  then show ?thesis
    unfolding WaitForReady_def ready_body_def Let_def watched_sel
    by (auto intro!: emits_intros emits_boxes [OF emits_GetEC2])
qed

lemma emits_WaitForGroupSize: "emits saw (WaitForGroupSize (watched m) n k t d)"
proof -
  have "emits saw (lastFailedScalingActivity (watched m) n)"
    unfolding lastFailedScalingActivity_def watched_sel watched_calls by (intro emits_intros | simp)+
  then show ?thesis
    unfolding WaitForGroupSize_def size_body_def size_expired_def Let_def watched_sel
    by (auto intro!: emits_intros)
qed

lemma emits_AwaitCapacity: "emits boxes_only (awsDevAwaitCapacity (watched m) dev)"
  unfolding awsDevAwaitCapacity_def awsDevAwaitSetup_def
  by (intro emits_intros emits_WaitForReady emits_run emits_boxes [OF emits_WaitForGroupSize]) (simp_all add: no_shutdowns)

lemma emits_DevStatus: "emits saw (printAWSDevStatus (watched m) p st dev)"
  unfolding printAWSDevStatus_def member_line_def Let_def by (intro emits_intros)

section \<open>Creating\<close>

lemma owner_binding: "map_of (awsDevTags name token) awsDevOwnerTag = Some token"
  by (simp add: awsDevTags_def awsDevOwnerTag_def)

lemma owner_tags:
  "(awsDevOwnerTag, token) \<in> set (sorted_bindings (awsDevTags name token))"
  "(awsDevOwnerTag, token) \<in> set (ec2Tags (awsDevTags name token) n)"
proof -
  have "awsDevOwnerTag \<noteq> ''Name''" by (simp add: awsDevOwnerTag_def)
  then show "(awsDevOwnerTag, token) \<in> set (sorted_bindings (awsDevTags name token))"
    "(awsDevOwnerTag, token) \<in> set (ec2Tags (awsDevTags name token) n)"
    by (auto simp: ec2Tags_def with_name_def sorted_bindings_mem owner_binding)
qed

lemma hasAllTags_owner: "hasAllTags got (awsDevTags name token) \<Longrightarrow> got awsDevOwnerTag = Some token"
proof -
  assume "hasAllTags got (awsDevTags name token)"
  moreover have "awsDevOwnerTag \<in> set (map fst (awsDevTags name token))"
    by (simp add: awsDevTags_def)
  ultimately show ?thesis using owner_binding [of name token] by (force simp: hasAllTags_def list_all_iff)
qed

definition own_template :: "awsDevState \<Rightarrow> dev_event list \<Rightarrow> string \<Rightarrow> bool" where
  "own_template dev es i \<longleftrightarrow> made_for dev es (DropTemplate i True)"

text \<open>A launch template: the identifier that is returned is the one that was made, or that of a template seen with all tags of the
  group; when the name is taken nothing was made.\<close>

lemma traces_CreateLaunchTemplate:
  assumes spec: "lsName spec = dvLaunchTemplate dev" "lsTags spec = awsDevTags name (dvOwnerToken dev)"
  shows "traces (made_for dev) (\<lambda>r l. (\<forall>z. MadeGroup z \<notin> set l) \<and> (case r of
       Inl e \<Rightarrow> already_exists e \<longrightarrow> (\<forall>x i. MadeTemplate x i \<notin> set l)
     | Inr tv \<Rightarrow> own_template dev l (fst tv) \<and> (\<forall>x i. MadeTemplate x i \<in> set l \<longrightarrow> i = fst tv)))
     (CreateLaunchTemplate (watched m) spec) es"
proof -
  let ?A = "\<lambda>r l. (\<forall>z. MadeGroup z \<notin> set l) \<and> (case r of
       Inl e \<Rightarrow> already_exists e \<longrightarrow> (\<forall>x i. MadeTemplate x i \<notin> set l)
     | Inr tv \<Rightarrow> own_template dev l (fst tv) \<and> (\<forall>x i. MadeTemplate x i \<in> set l \<longrightarrow> i = fst tv))"
  let ?made = "\<lambda>t. MadeTemplate (template_of spec) (case t of None \<Rightarrow> [] | Some y \<Rightarrow> ToString (ltLaunchTemplateId y))"
  have justified: "made_for dev es' (MadeTemplate (template_of spec) i)" for es' i
    by (simp add: template_of_def Let_def spec owner_tags)
  have call: "traces (made_for dev) (\<lambda>r l. l = seen ?made r) (call (ltCreateLaunchTemplate (watched_lt x)) (template_of spec)) es" for x :: "'a launchTemplateAPI"
    unfolding watched_calls by (rule traces_noting) (use justified in \<open>simp del: made_for.simps split: sum.split\<close>)
  have lookup: "traces (made_for dev) (\<lambda>r l. set l \<subseteq> saw \<and> (\<forall>t. r = Inr (Some t) \<longrightarrow> hasAllTags (lmTags t) (lsTags spec) \<longrightarrow> own_template dev l (lmID t)))
      (LaunchTemplateByName (watched m) (dvLaunchTemplate dev)) es'" for es'
  proof -
    let ?B = "\<lambda>r l. set l \<subseteq> saw \<and> (\<forall>ts. r = Inr ts \<longrightarrow> l = [SawTemplates (dvLaunchTemplate dev) ts])"
    have "traces (made_for dev) ?B (call (ltDescribeLaunchTemplates (watched_lt x)) (dvLaunchTemplate dev)) es'" for x :: "'a launchTemplateAPI"
      unfolding watched_calls by (rule traces_noting) (auto simp: found_templates_def split: sum.split)
    moreover have "own_template dev [SawTemplates (dvLaunchTemplate dev) (x # xs)] (ToString (ltLaunchTemplateId x))"
      if "hasAllTags (extractTags (ltTags x)) (lsTags spec)" for x xs
      using hasAllTags_owner [OF that [unfolded spec]] by (auto simp: own_template_def)
    ultimately show ?thesis
      unfolding LaunchTemplateByName_def watched_sel
      by (intro traces_client traces_attempt [where A = ?B]) (auto intro!: traces_ok traces_fail split: sum.split list.split)
  qed
  define A :: "provider_error + string \<times> int \<Rightarrow> dev_event list \<Rightarrow> bool" where "A = ?A"
  have fails: "A (Inl e) l" if "(\<forall>x i. MadeTemplate x i \<notin> set l) \<or> \<not> already_exists e" "\<forall>z. MadeGroup z \<notin> set l" for e l
    using that by (auto simp: A_def)
  have made: "A (Inr (i, v)) [MadeTemplate x i]" for x i v by (auto simp: A_def own_template_def)
  have taken: "traces (made_for dev) A (template_taken (watched m) spec) es'" for es'
    unfolding template_taken_def Let_def spec(1) A_def
    by (rule traces_attempt [OF lookup]) (auto intro!: traces_ok traces_fail split: sum.split option.split)
  show ?thesis
    unfolding CreateLaunchTemplate_def watched_sel A_def [symmetric]
    by (intro traces_client traces_attempt [OF call])
      (use taken in \<open>auto intro!: traces_fail traces_ok fails made split: sum.split option.split\<close>)
qed

text \<open>An Auto Scaling group: when the name is taken none was made.\<close>

lemma traces_CreateAutoScalingGroup:
  assumes spec: "lsName spec = dvAutoScalingGroup dev" "lsTags spec = awsDevTags name (dvOwnerToken dev)"
  shows "traces (made_for dev) (\<lambda>r l. (\<forall>x i. MadeTemplate x i \<notin> set l) \<and> (\<forall>e. r = Inl e \<and> already_exists e \<longrightarrow> (\<forall>z. MadeGroup z \<notin> set l)))
     (CreateAutoScalingGroup (watched m) spec tid v) es"
proof -
  let ?A = "\<lambda>r l. (\<forall>x i. MadeTemplate x i \<notin> set l) \<and> (\<forall>e. r = Inl e \<and> already_exists e \<longrightarrow> (\<forall>z. MadeGroup z \<notin> set l))"
  have justified: "made_for dev es' (MadeGroup (group_of spec tid v))" for es'
    using owner_tags(1) [of "dvOwnerToken dev" name] by (force simp: group_of_def spec)
  have call: "traces (made_for dev) (\<lambda>r l. l = seen (\<lambda>_. MadeGroup (group_of spec tid v)) r) (call (gaCreateAutoScalingGroup (watched_groups x)) (group_of spec tid v)) es"
    for x :: "'a groupAPI"
    unfolding watched_calls by (rule traces_noting) (use justified in \<open>simp del: made_for.simps split: sum.split\<close>)
  have "emits saw (AutoScalingGroupTags (watched m) n)" for n
    unfolding AutoScalingGroupTags_def watched_sel watched_calls by (intro emits_intros | simp)+
  then have "emits saw (group_taken (watched m) spec)"
    unfolding group_taken_def Let_def by (intro emits_intros)
  then have taken: "traces (made_for dev) (\<lambda>r l. set l \<subseteq> saw) (group_taken (watched m) spec) es'" for es'
    by (rule traces_emits) auto
  have suspend: "traces (made_for dev) (\<lambda>r l. l = [Changed] \<and> (\<forall>e. r = Inl e \<longrightarrow> \<not> already_exists e))
      (wrap (PApi msg) (call (gaSuspendProcesses (watched_groups x)) y)) es'" for x :: "'a groupAPI" and y msg es'
    unfolding watched_calls by (rule traces_wrap [where A = "\<lambda>_ l. l = [Changed]"], rule traces_noting) (auto dest!: map_sum_InlD)
  define A :: "provider_error + unit \<Rightarrow> dev_event list \<Rightarrow> bool" where "A = ?A"
  have made: "A (Inr ()) [MadeGroup z]" "A r []" for z r by (auto simp: A_def)
  have taken: "traces (made_for dev) A (group_taken (watched m) spec) es'" for es'
    by (rule traces_mono [OF taken]) (auto simp: A_def)
  have create: "traces (made_for dev) A (attempt (call (gaCreateAutoScalingGroup (watched_groups x)) (group_of spec tid v)) (\<lambda>r. case r of
      Inr _ \<Rightarrow> ok () | Inl e \<Rightarrow> if apiErrorCode (Some e) \<noteq> ''AlreadyExists'' then fail (PApi msg e) else group_taken (watched m) spec)) es"
    for x :: "'a groupAPI" and msg
    by (rule traces_attempt [OF call]) (use taken made in \<open>auto intro!: traces_fail traces_ok split: sum.split\<close>)
  show ?thesis
    unfolding CreateAutoScalingGroup_def watched_sel
    by (intro traces_client, rule traces_seq [OF create], simp add: A_def, rule traces_mono [OF suspend]) (auto simp: A_def)
qed

section \<open>The state file\<close>

definition same_group :: "awsDevState \<Rightarrow> awsDevState \<Rightarrow> bool" where
  "same_group a b \<longleftrightarrow> dvOwnerToken a = dvOwnerToken b \<and> dvLaunchTemplate a = dvLaunchTemplate b \<and>
     dvAutoScalingGroup a = dvAutoScalingGroup b"

lemma same_group_refl [simp]: "same_group dev dev" by (simp add: same_group_def)

lemma made_for_append: "made_for dev es e \<Longrightarrow> made_for dev (a @ es @ b) e"
  by (cases e) auto

context state_store
begin

definition remembered :: "awsDevState \<Rightarrow> 'v \<Rightarrow> bool" where
  "remembered dev v \<longleftrightarrow> (\<exists>st dv. saved v st \<and> asDev st = Some dv \<and> same_group dv dev)"

text \<open>The end of a command: what it made is remembered, or nothing of it is left.\<close>

definition tidy :: "awsDevState \<Rightarrow> 'd \<times> ('w, dev_event) noted \<Rightarrow> bool" where
  "tidy dev u \<longleftrightarrow> (case u of (d, (t, (w, l))) \<Rightarrow> chain (made_for dev) [] l \<and> (remembered dev (view d) \<or> nothing_left l))"

text \<open>The middle of it: the state is saved.\<close>

definition midway :: "awsDevState \<Rightarrow> 'd \<Rightarrow> dev_event list \<Rightarrow> bool" where
  "midway dev d l \<longleftrightarrow> invar d \<and> chain (made_for dev) [] l \<and> remembered dev (view d)"

lemma midway_tidy: "midway dev d l \<Longrightarrow> tidy dev (d, (t, (w, l)))"
  by (simp add: midway_def tidy_def)

lemma midway_grow: "midway dev d l \<Longrightarrow> chain (made_for dev) l l' \<Longrightarrow> midway dev d (l @ l')"
  by (simp add: midway_def chain_append)

lemma wp_boxes:
  assumes "midway dev d l" "emits boxes_only m" "\<And>r l' t w. midway dev d (l @ l') \<Longrightarrow> Q (map_sum DvProvider id r) (d, (t, (w, l @ l')))"
  shows "wp True (cloud m) Q (d, (t, (w, l)))"
  by (rule wp_cloud_traces [where A = "\<lambda>_ _. True", OF traces_emits [OF assms(2), where J = "made_for dev"]])
    (use assms(1,3) midway_grow in auto)

lemma wp_finish:
  assumes "midway dev d l"
  shows "wp True (seq (wrap h (cloud (awsDevAwaitCapacity (watched m) dev1))) (\<lambda>_. cloud (printAWSDevStatus (watched m) p st dev1))) (\<lambda>_. tidy dev) (d, (t, (w, l)))"
proof -
  have status: "wp True (cloud (printAWSDevStatus (watched m) p st dev1)) (\<lambda>_. tidy dev) (d, (t, (w, l')))" if "midway dev d l'" for t w l'
    by (rule wp_boxes [OF that emits_boxes [OF emits_DevStatus]]) (rule midway_tidy)
  show ?thesis
    unfolding wp_seq wp_wrap
    by (rule wp_boxes [OF assms emits_AwaitCapacity]) (use status in \<open>auto split: sum.split intro: midway_tidy\<close>)
qed

text \<open>The state is given up once nothing is left.\<close>

lemma wp_give_up:
  "chain (made_for dev) [] l \<Longrightarrow> nothing_left l \<Longrightarrow> (\<And>e u. tidy dev u \<Longrightarrow> Q (Inl e) u) \<Longrightarrow> wp True (give_up ops msg) Q (d, (t, (w, l)))"
  unfolding give_up_def wp_attempt wp_removeAWSState by (simp add: wp_fail tidy_def split: prod.split)

lemma wp_save:
  assumes "invar d" "asDev st = Some dv" "same_group dv dev"
    and "\<And>d' e. view d' = view d \<Longrightarrow> invar d' \<Longrightarrow> Q (Inl e) (d', tw)" "\<And>d'. invar d' \<Longrightarrow> remembered dev (view d') \<Longrightarrow> Q (Inr ()) (d', tw)"
  shows "wp True (save_state ops st) Q (d, tw)"
proof -
  obtain e d' where wr: "stWrite ops st d = (e, d')" by (metis surj_pair)
  note law = write_law [OF assms(1) wr]
  have "remembered dev (view d')" if "e = None"
    using law assms(2,3) that by (auto simp: remembered_def)
  then show ?thesis
    unfolding save_state_def wp_disk_do wr using law assms(4,5) by (cases e) simp_all
qed

text \<open>The group. When its name is taken the template is deleted again, and only then the state is given up.\<close>

lemma wp_create_group:
  fixes m :: "'w manager"
  assumes mid: "midway dev d l" and spec: "lsName spec = dvAutoScalingGroup dev" "lsTags spec = awsDevTags name (dvOwnerToken dev)"
    and own: "own_template dev l (fst tv)" "\<And>x i. MadeTemplate x i \<in> set l \<Longrightarrow> i = fst tv" "\<And>z. MadeGroup z \<notin> set l"
    and go: "\<And>l' t w. midway dev d l' \<Longrightarrow> wp True (f ()) (\<lambda>_. tidy dev) (d, (t, (w, l')))"
  shows "wp True (seq (create_group (watched m) ops p st spec tv) f) (\<lambda>_. tidy dev) (d, (t, (w, l)))"
proof -
  define Q :: "dev_error + unit \<Rightarrow> 'd \<times> ('w, dev_event) noted \<Rightarrow> bool" where
    "Q r = (case r of Inl e \<Rightarrow> tidy dev | Inr x \<Rightarrow> wp True (f x) (\<lambda>_. tidy dev))" for r
  have fails: "Q (Inl e) u" if "tidy dev u" for e u using that by (simp add: Q_def)
  have delete: "wp True (attempt (cloud (DeleteLaunchTemplate (watched m) (fst tv))) (\<lambda>r. case r of
      Inl delErr \<Rightarrow> fail (g delErr) | Inr _ \<Rightarrow> give_up ops msg)) Q (d, (t, (w, l @ l1)))"
    if l1: "midway dev d (l @ l1)" "\<And>x i. MadeTemplate x i \<notin> set l1" "\<And>z. MadeGroup z \<notin> set l1" for t w l1 g msg
    unfolding wp_attempt
  proof (rule wp_cloud_traces [OF traces_DeleteLaunchTemplate [where J = "made_for dev"]])
    show "made_for dev (l @ l1) (DropTemplate (fst tv) b)" for b
      using own(1) by (auto simp: own_template_def)
    fix r :: "provider_error + unit" and l2 t w
    assume l2: "chain (made_for dev) (l @ l1) l2" "set l2 \<subseteq> range (DropTemplate (fst tv)) \<and> (r = Inr () \<longrightarrow> DropTemplate (fst tv) True \<in> set l2)"
    have mid2: "midway dev d ((l @ l1) @ l2)" by (rule midway_grow [OF l1(1) l2(1)])
    have "nothing_left ((l @ l1) @ l2)" if "r = Inr ()"
      using l2(2) own(2,3) l1(2,3) that by (fastforce simp: nothing_left_def)
    then show "wp True (case map_sum DvProvider id r of Inl delErr \<Rightarrow> fail (g delErr) | Inr _ \<Rightarrow> give_up ops msg) Q (d, (t, (w, (l @ l1) @ l2)))"
      using fails [OF midway_tidy [OF mid2]] mid2 wp_give_up [of dev "(l @ l1) @ l2" Q msg d t w, OF _ _ fails]
      by (cases r) (simp_all add: wp_fail midway_def)
  qed
  have "wp True (create_group (watched m) ops p st spec tv) Q (d, (t, (w, l)))"
    unfolding create_group_def wp_attempt
  proof (rule wp_cloud_traces [OF traces_CreateAutoScalingGroup [OF spec]])
    fix r :: "provider_error + unit" and l1 t w
    assume l1: "chain (made_for dev) l l1" "(\<forall>x i. MadeTemplate x i \<notin> set l1) \<and> (\<forall>e. r = Inl e \<and> already_exists e \<longrightarrow> (\<forall>z. MadeGroup z \<notin> set l1))"
    have mid1: "midway dev d (l @ l1)" by (rule midway_grow [OF mid l1(1)])
    show "wp True (case map_sum DvProvider id r of Inr _ \<Rightarrow> ok ()
      | Inl (DvProvider e) \<Rightarrow>
          if already_exists e
          then attempt (cloud (DeleteLaunchTemplate (watched m) (fst tv))) (\<lambda>d. case d of
                 Inl delErr \<Rightarrow> fail (awsDevSetupError p st (DvJoin [DvProvider e, delErr]))
               | Inr _ \<Rightarrow> give_up ops (''auto scaling group '' @ asName st @ '' already exists in '' @ asRegion st @ ''; pick another --name''))
          else fail (awsDevSetupError p st (DvProvider e))
      | Inl e \<Rightarrow> fail (awsDevSetupError p st e)) Q (d, (t, (w, l @ l1)))"
    proof (cases r)
      case (Inl e)
      then show ?thesis using l1(2) delete [OF mid1] fails [OF midway_tidy [OF mid1]] by (simp add: wp_fail)
    next
      case (Inr u)
      then show ?thesis using go [OF mid1] by (simp add: wp_ok Q_def)
    qed
  qed
  then show ?thesis by (simp add: wp_seq Q_def [abs_def])
qed

text \<open>The launch template.\<close>

lemma wp_create_template:
  fixes m :: "'w manager"
  assumes mid: "midway dev d es" "set es \<subseteq> saw" and spec: "lsName spec = dvLaunchTemplate dev" "lsTags spec = awsDevTags name (dvOwnerToken dev)"
    and go: "\<And>tv l t w. midway dev d l \<Longrightarrow> own_template dev l (fst tv) \<Longrightarrow> \<forall>x i. MadeTemplate x i \<in> set l \<longrightarrow> i = fst tv \<Longrightarrow>
      \<forall>z. MadeGroup z \<notin> set l \<Longrightarrow> wp True (f tv) (\<lambda>_. tidy dev) (d, (t, (w, l)))"
  shows "wp True (seq (create_template (watched m) ops p st spec) f) (\<lambda>_. tidy dev) (d, (t, (w, es)))"
proof -
  define Q :: "dev_error + string \<times> int \<Rightarrow> 'd \<times> ('w, dev_event) noted \<Rightarrow> bool" where
    "Q r = (case r of Inl e \<Rightarrow> tidy dev | Inr x \<Rightarrow> wp True (f x) (\<lambda>_. tidy dev))" for r
  have fails: "Q (Inl e) u" if "tidy dev u" for e u using that by (simp add: Q_def)
  have "wp True (create_template (watched m) ops p st spec) Q (d, (t, (w, es)))"
    unfolding create_template_def wp_attempt
  proof (rule wp_cloud_traces [OF traces_CreateLaunchTemplate [OF spec]])
    fix r :: "provider_error + string \<times> int" and l1 t w
    assume l1: "chain (made_for dev) es l1" "(\<forall>z. MadeGroup z \<notin> set l1) \<and> (case r of
       Inl e \<Rightarrow> already_exists e \<longrightarrow> (\<forall>x i. MadeTemplate x i \<notin> set l1)
     | Inr tv \<Rightarrow> own_template dev l1 (fst tv) \<and> (\<forall>x i. MadeTemplate x i \<in> set l1 \<longrightarrow> i = fst tv))"
    have mid1: "midway dev d (es @ l1)" by (rule midway_grow [OF mid(1) l1(1)])
    have clean: "nothing_left (es @ l1)" if "\<forall>x i. MadeTemplate x i \<notin> set l1"
      using l1(2) mid(2) that unfolding nothing_left_def by auto
    show "wp True (case map_sum DvProvider id r of Inr tv \<Rightarrow> ok tv
      | Inl (DvProvider e) \<Rightarrow>
          if already_exists e
          then give_up ops (''launch template '' @ asName st @ '' already exists in '' @ asRegion st @ ''; pick another --name'')
          else fail (awsDevSetupError p st (DvProvider e))
      | Inl e \<Rightarrow> fail (awsDevSetupError p st e)) Q (d, (t, (w, es @ l1)))"
    proof (cases r)
      case (Inl e)
      have "wp True (give_up ops msg) Q (d, (t, (w, es @ l1)))" if "already_exists e" for msg
        by (rule wp_give_up) (use mid1 l1(2) Inl that clean fails in \<open>auto simp: midway_def\<close>)
      with Inl fails [OF midway_tidy [OF mid1]] show ?thesis by (simp add: wp_fail)
    next
      case (Inr tv)
      have "own_template dev (es @ l1) (fst tv)"
        using l1(2) Inr by (auto simp: own_template_def)
      moreover have "\<forall>x i. MadeTemplate x i \<in> set (es @ l1) \<longrightarrow> i = fst tv" "\<forall>z. MadeGroup z \<notin> set (es @ l1)"
        using l1(2) mid(2) Inr by auto
      ultimately show ?thesis using go [OF mid1] Inr by (simp add: wp_ok Q_def)
    qed
  qed
  then show ?thesis by (simp add: wp_seq Q_def [abs_def])
qed

lemma wp_up_created:
  assumes "invar d" "chain (made_for dev) [] es" "set es \<subseteq> saw" "dvLaunchTemplate dev = dvAutoScalingGroup dev"
  shows "wp True (up_created (watched m) ops p opts region dev) (\<lambda>_. tidy dev) (d, (t, (w, es)))"
proof -
  let ?st = "dev_state opts region dev" and ?spec = "awsDevLaunchGroupSpec (dev_state opts region dev) dev (duIAMInstanceProfile opts)"
  define dev1 where "dev1 tv = dev\<lparr>dvLaunchTemplateID := fst tv, dvLaunchTemplateVersion := snd tv\<rparr>" for tv
  have same: "same_group (dev1 tv) dev" for tv by (simp add: same_group_def dev1_def)
  have state: "asDev (dev_state opts region dv) = Some dv" for dv by (simp add: dev_state_def)
  have spec: "lsName ?spec = dvLaunchTemplate dev" "lsName ?spec = dvAutoScalingGroup dev" "lsTags ?spec = awsDevTags (asName ?st) (dvOwnerToken dev)"
    using assms(4) by (simp_all add: awsDevLaunchGroupSpec_def)
  have clean: "nothing_left es" using assms(3) by (auto simp: nothing_left_def)
  show ?thesis
    unfolding up_created_def Let_def dev1_def [symmetric] wp_seq [of _ "save_state _ _"]
  proof (rule wp_save [OF assms(1) state same_group_refl], simp_all only: sum.case)
    show "tidy dev (d', (t, (w, es)))" for d' using assms(2) clean by (simp add: tidy_def)
    fix d'
    assume "invar d'" "remembered dev (view d')"
    then have mid: "midway dev d' es" using assms(2) by (simp add: midway_def)
    show "wp True (seq (create_template (watched m) ops p ?st ?spec) (\<lambda>tv.
        seq (wrap (awsDevSetupError p (dev_state opts region (dev1 tv))) (save_state ops (dev_state opts region (dev1 tv)))) (\<lambda>_.
        seq (create_group (watched m) ops p (dev_state opts region (dev1 tv)) ?spec tv) (\<lambda>_.
        seq (wrap (awsDevSetupError p (dev_state opts region (dev1 tv))) (cloud (awsDevAwaitCapacity (watched m) (dev1 tv)))) (\<lambda>_.
        cloud (printAWSDevStatus (watched m) p (dev_state opts region (dev1 tv)) (dev1 tv)))))))
        (\<lambda>_. tidy dev) (d', (t, (w, es)))"
    proof (rule wp_create_template [OF mid assms(3) spec(1,3)])
      fix tv :: "string \<times> int" and l t w
      assume l: "midway dev d' l" "own_template dev l (fst tv)" "\<forall>x i. MadeTemplate x i \<in> set l \<longrightarrow> i = fst tv" "\<forall>z. MadeGroup z \<notin> set l"
      have d': "invar d'" "remembered dev (view d')" "chain (made_for dev) [] l" using l(1) by (simp_all add: midway_def)
      show "wp True (seq (wrap (awsDevSetupError p (dev_state opts region (dev1 tv))) (save_state ops (dev_state opts region (dev1 tv)))) (\<lambda>_.
        seq (create_group (watched m) ops p (dev_state opts region (dev1 tv)) ?spec tv) (\<lambda>_.
        seq (wrap (awsDevSetupError p (dev_state opts region (dev1 tv))) (cloud (awsDevAwaitCapacity (watched m) (dev1 tv)))) (\<lambda>_.
        cloud (printAWSDevStatus (watched m) p (dev_state opts region (dev1 tv)) (dev1 tv))))))
        (\<lambda>_. tidy dev) (d', (t, (w, l)))"
        unfolding wp_seq [of _ "wrap _ (save_state _ _)"] wp_wrap
      proof (rule wp_save [OF d'(1) state same], simp_all only: sum.case)
        show "tidy dev (d2, (t, (w, l)))" if "view d2 = view d'" for d2 using d'(2,3) that by (simp add: tidy_def)
        fix d2
        assume "invar d2" "remembered dev (view d2)"
        then have mid2: "midway dev d2 l" using d'(3) by (simp add: midway_def)
        show "wp True (seq (create_group (watched m) ops p (dev_state opts region (dev1 tv)) ?spec tv) (\<lambda>_.
          seq (wrap (awsDevSetupError p (dev_state opts region (dev1 tv))) (cloud (awsDevAwaitCapacity (watched m) (dev1 tv)))) (\<lambda>_.
          cloud (printAWSDevStatus (watched m) p (dev_state opts region (dev1 tv)) (dev1 tv)))))
          (\<lambda>_. tidy dev) (d2, (t, (w, l)))"
          by (rule wp_create_group [OF mid2 spec(2,3)]) (use l wp_finish in auto)
      qed
    qed
  qed
qed

lemma wp_stat_free:
  assumes "invar d" "\<And>r d'. invar d' \<Longrightarrow> Q r (d', tw)"
  shows "wp True (stat_free ops p name) Q (d, tw)"
proof -
  obtain e d' where st: "stStat ops d = (e, d')" by (metis surj_pair)
  have "invar d'" using stat_law [OF assms(1) st] by blast
  with assms(2) st show ?thesis
    by (cases e) (auto simp: stat_free_def wp_simps wp_disk_do)
qed

end

section \<open>The whole command\<close>

lemma emits_AwsNetwork: "emits saw (resolveAWSDevNetwork (watched m) opts)"
proof -
  have subnets: "emits saw (SubnetInfosInVPC (watched m) v)" for v
    unfolding SubnetInfosInVPC_def Let_def watched_sel watched_calls by (intro emits_intros | simp)+
  have groups: "emits saw (DefaultSecurityGroupID (watched m) v)" for v
    unfolding DefaultSecurityGroupID_def Let_def watched_sel watched_calls by (intro emits_intros | simp)+
  have vpc: "emits saw (DefaultVPCID (watched m))"
    unfolding DefaultVPCID_def Let_def watched_sel watched_calls by (intro emits_intros | simp)+
  show ?thesis
    unfolding resolveAWSDevNetwork_def SubnetsInVPC_def by (intro emits_intros subnets groups vpc)
qed

lemma emits_SSMParameter: "emits E (ResolveSSMParameter (watched m) x)"
  unfolding ResolveSSMParameter_def Let_def watched_sel watched_calls by (intro emits_intros | simp)+

lemma traces_up_resolved:
  fixes m :: "'w manager"
  assumes J: "\<And>es e. e \<in> saw \<Longrightarrow> J es e"
  shows "traces J (\<lambda>r l. set l \<subseteq> saw \<and> (\<forall>o1 dev. r = Inr (o1, dev) \<longrightarrow> dvLaunchTemplate dev = dvAutoScalingGroup dev))
     (up_resolved (watched_env env) (watched m) opts ami) es"
proof -
  have reading: "traces J (\<lambda>_ l. set l \<subseteq> saw) m1 es'" if "emits saw m1" for m1 :: "(provider_error, 'x, ('w, dev_event) noted) prog" and es'
    using that by (rule traces_emits) (use J in auto)
  have account: "emits saw (wrap h (AccountID (watched m)))" for h :: "provider_error \<Rightarrow> provider_error"
    by (intro emits_intros)
  have image: "emits saw (if b then wrap h (ResolveSSMParameter (watched m) ami) else ok x)" for b h x
    by (intro emits_intros emits_SSMParameter)
  have token: "emits saw (newAWSDevOwnerToken (watched_env env))"
    unfolding newAWSDevOwnerToken_def watched_sel by (intro emits_intros)
  show ?thesis
    unfolding up_resolved_def
    by (rule traces_seq [OF reading [OF account]], simp, rule traces_seq [OF reading [OF emits_AwsNetwork]], simp,
        rule traces_seq [OF reading [OF image]], simp, rule traces_seq [OF reading [OF token]])
      (auto simp: Let_def dev_record_def intro!: traces_ok)
qed

context state_store
begin

lemma wp_runAWSDevUp:
  fixes env :: "('d, 'w) dev_env"
  assumes "invar d" "awsStatePath (deHome env) (duName opts) = Inr p" "deStore env p = ops"
  shows "wp True (runAWSDevUp (watched_env env) opts) (\<lambda>_ (d', (t', (w', l))). \<exists>dev. chain (made_for dev) [] l \<and>
     (nothing_left l \<or> (\<exists>st dv. saved (view d') st \<and> asDev st = Some dv \<and> same_group dv dev))) (d, (t, (w, [])))"
proof -
  define P :: "'d \<times> ('w, dev_event) noted \<Rightarrow> bool" where
    "P u \<longleftrightarrow> (\<exists>dev. tidy dev u)" for u
  have quiet: "P (x, (t, (w, es)))" if "set es \<subseteq> saw" for x t w es
    unfolding P_def tidy_def using that chain_subset [of es saw] by (auto simp: nothing_left_def)
  have resolved: "wp True (seq (cloud (up_resolved (watched_env env) (watched m) o2 ami)) (\<lambda>(opts1, dev). up_created (watched m) ops p opts1 region dev))
      (\<lambda>_. P) (d1, (t, (w, [])))" if "invar d1" for d1 m o2 ami region t w
    unfolding wp_seq
  proof (rule wp_cloud_traces [OF traces_up_resolved [where J = "\<lambda>_ e. e \<in> saw"]], simp)
    fix r :: "provider_error + awsDevUpOptions \<times> awsDevState" and l t w
    assume l: "set l \<subseteq> saw \<and> (\<forall>o1 dev. r = Inr (o1, dev) \<longrightarrow> dvLaunchTemplate dev = dvAutoScalingGroup dev)"
    show "(case map_sum DvProvider id r of Inl e \<Rightarrow> P
      | Inr x \<Rightarrow> wp True (case x of (opts1, dev) \<Rightarrow> up_created (watched m) ops p opts1 region dev) (\<lambda>_. P)) (d1, (t, (w, [] @ l)))"
    proof (cases r)
      case (Inr x)
      obtain o1 dev where x: "x = (o1, dev)" by (metis surj_pair)
      have "chain (made_for dev) [] l" using l by (intro chain_subset [of l saw]) auto
      then have "wp True (up_created (watched m) ops p o1 region dev) (\<lambda>_. tidy dev) (d1, (t, (w, l)))"
        by (intro wp_up_created [OF that]) (use l Inr x in auto)
      then show ?thesis using Inr x by (auto simp: P_def elim!: wp_mono)
    qed (use l quiet in simp)
  qed
  have config: "wp True (seq (load_config (watched_env env) region0) (\<lambda>(region, m). seq (demand (region \<noteq> []) e) (\<lambda>_.
      seq (cloud (up_resolved (watched_env env) m o2 ami)) (\<lambda>(opts1, dev). up_created m ops p opts1 region dev)))) (\<lambda>_. P) (d1, (t, (w, [])))"
    if "invar d1" for d1 region0 e o2 ami t w
    unfolding wp_seq [of _ "load_config _ _"]
    by (rule wp_load_config) (use resolved [OF that] quiet in \<open>auto simp: wp_seq [of _ "demand _ _"] wp_demand\<close>)
  have stat: "wp True (seq (stat_free ops p nm) f) (\<lambda>_. P) (d, (t, (w, [])))"
    if "\<And>d1. invar d1 \<Longrightarrow> wp True (f ()) (\<lambda>_. P) (d1, (t, (w, [])))" for f nm
    unfolding wp_seq by (rule wp_stat_free [OF assms(1)]) (use that quiet in \<open>auto split: sum.split\<close>)
  have ready: "wp True (seq (stat_free (deStore env p) p nm) (\<lambda>_. seq (load_config (watched_env env) region0) (\<lambda>(region, m).
      seq (demand (region \<noteq> []) e) (\<lambda>_. seq (cloud (up_resolved (watched_env env) m o2 ami)) (\<lambda>(opts1, dev).
      up_created m (deStore env p) p opts1 region dev))))) (\<lambda>_. P) (d, (t, (w, [])))" for nm region0 e o2 ami
    unfolding assms(3) by (rule stat, rule config)
  define o1 where "o1 = (if duInstanceType opts = [] then opts\<lparr>duInstanceType := defaultBastionInstanceType (duArch opts)\<rparr> else opts)"
  have path: "awsStatePath (deHome env) (duName o1) = Inr p" using assms(2) by (simp add: o1_def)
  have "wp True (runAWSDevUp (watched_env env) opts) (\<lambda>_. P) (d, (t, (w, [])))"
    unfolding runAWSDevUp_def Let_def o1_def [symmetric] wp_seq [of _ "check _"] wp_seq [of _ "if _ then _ else _"] wp_check
    using path ready by (auto simp: wp_ok wp_fail quiet split: option.split sum.split)
  then show ?thesis unfolding P_def tidy_def remembered_def by (rule wp_mono) (auto split: prod.splits)
qed

end


section \<open>An example\<close>

text \<open>The cloud of \<open>AwsDevSafety\<close> without a client for Auto Scaling groups: the launch template is made, the group cannot be.\<close>

definition dev_half_cloud :: "nat manager" where "dev_half_cloud = dev_cloud\<lparr>mgGroups := None\<rparr>"

definition dev_up_env :: "(disk, nat) dev_env" where
  "dev_up_env = dev_demo_env\<lparr>deLoadConfig := (\<lambda>region w. (Inr (''us-east-1'', dev_half_cloud), 1, w))\<rparr>"

definition demo_up :: awsDevUpOptions where
  "demo_up =
     \<lparr>duName = ''demo'', duRegion = ''us-east-1'', duVPCID = ''vpc-1'', duSubnetIDs = [''subnet-1''], duSecurityGroupIDs = [''sg-1''],
      duAMI = ''ami-1'', duUbuntuRelease = ''24.04'', duArch = ''amd64'', duInstanceType = ''t3a.medium'', duIAMInstanceProfile = ''p'',
      duVolumeSizeGB = 8, duVolumeIOPS = 3000, duVolumeThroughput = 125, duMountPoint = ''/mnt/data'', duBucket = ''bucket'', duCount = 1, duDryRun = False\<rparr>"

lemma dev_up_facts:
  "awsStatePath (deHome dev_up_env) (duName demo_up) = Inr (under ''/h/.etcd-infra/aws'' [''demo.json''] False)"
  "deStore dev_up_env = state_file dev_marshal dev_unmarshal []"
  "store_inv [] ''/h/.etcd-infra/aws'' [''h'', ''.etcd-infra'', ''aws''] ''demo.json'' (aws_home, [])"
  "stStat (state_file dev_marshal dev_unmarshal [] (under ''/h/.etcd-infra/aws'' [''demo.json''] False)) (aws_home, []) = (Some ENOENT, (aws_home, []))"
  "validateAWSDevUpOptions demo_up = None"
proof -
  show "awsStatePath (deHome dev_up_env) (duName demo_up) = Inr (under ''/h/.etcd-infra/aws'' [''demo.json''] False)"
    by (simp add: dev_up_env_def demo_up_def aws_demo_path)
  show "deStore dev_up_env = state_file dev_marshal dev_unmarshal []" by (simp add: dev_up_env_def)
  have "aws_home([''h'', ''.etcd-infra'', ''aws'', ''demo.json''] := None) = aws_home" by (simp add: aws_home_def fun_upd_idem)
  then show "store_inv [] ''/h/.etcd-infra/aws'' [''h'', ''.etcd-infra'', ''aws''] ''demo.json'' (aws_home, [])"
    using aws_home_inv [of "[]" None] by simp
  have "Stat [] aws_home (under ''/h/.etcd-infra/aws'' [''demo.json''] False) = Inl ENOENT" by code_simp
  then show "stStat (state_file dev_marshal dev_unmarshal [] (under ''/h/.etcd-infra/aws'' [''demo.json''] False)) (aws_home, []) = (Some ENOENT, (aws_home, []))"
    by (simp add: state_file_def next_fault_def)
  show "validateAWSDevUpOptions demo_up = None" by code_simp
qed

lemma dev_half_template:
  "CreateLaunchTemplate (watched dev_half_cloud) spec (t, (w, es)) = Some (Inr (''lt-1'', 1), (t + 1, (w, es @ [MadeTemplate (template_of spec) ''lt-1''])))"
proof -
  obtain lt where lt: "mgLT dev_half_cloud = Some lt"
      "ltCreateLaunchTemplate lt = dev_call (\<lambda>_ _. Inr (Some \<lparr>ltLaunchTemplateId = Some ''lt-1'', ltLatestVersionNumber = Some 1, ltTags = []\<rparr>)) False"
    by (simp add: dev_half_cloud_def dev_cloud_def)
  show ?thesis
    by (simp add: CreateLaunchTemplate_def client_def lt attempt_def call_def noting_def dev_call_def ok_def ToInt64_def)
qed

text \<open>The rest fails for the want of a client, without a further event.\<close>

lemma dev_half_rest:
  "\<exists>r d'. seq (wrap h (save_state ops st)) (\<lambda>_. seq (create_group (watched dev_half_cloud) ops p st1 spec tv) f) (d, (t, (w, es))) = Some (r, (d', (t, (w, es))))"
proof -
  obtain e d' where saved: "stWrite ops st d = (e, d')" by (metis surj_pair)
  have "mgGroups dev_half_cloud = None" by (simp add: dev_half_cloud_def)
  then have "\<exists>r. create_group (watched dev_half_cloud) ops p st1 spec tv (d', (t, (w, es))) = Some (Inl r, (d', (t, (w, es))))"
    by (simp add: create_group_def attempt_def cloud_def CreateAutoScalingGroup_def client_def fail_def no_groups_def)
  then show ?thesis
    using saved by (cases e) (auto simp: seq_def attempt_def wrap_def save_state_def disk_do_def fail_def ok_def)
qed

lemma dev_half_created:
  "\<exists>r d' t' l. up_created (watched dev_half_cloud) (state_file dev_marshal dev_unmarshal [] (under ''/h/.etcd-infra/aws'' [''demo.json''] False))
      (under ''/h/.etcd-infra/aws'' [''demo.json''] False) opts region dev ((aws_home, []), (t, (w, es))) = Some (r, (d', (t', (w, es @ [MadeTemplate l ''lt-1'']))))"
proof -
  let ?p = "under ''/h/.etcd-infra/aws'' [''demo.json''] False"
  let ?ops = "state_file dev_marshal dev_unmarshal [] ?p" and ?st = "dev_state opts region dev"
  obtain content where "dev_marshal ?st = Inr content" by (simp add: dev_marshal_def)
  from write_succeeds [OF dev_up_facts(3), of dev_marshal, OF this] obtain d1 where wr: "writeAWSState dev_marshal [] ?p ?st (aws_home, []) = (None, d1)"
    by blast
  have save: "save_state ?ops ?st ((aws_home, []), tw) = Some (Inr (), (d1, tw))" for tw
    using wr by (simp add: save_state_def disk_do_def state_file_def)
  have template: "create_template (watched dev_half_cloud) ?ops ?p ?st spec (d1, (t, (w, es))) =
      Some (Inr (''lt-1'', 1), (d1, (t + 1, (w, es @ [MadeTemplate (template_of spec) ''lt-1'']))))" for spec
    by (simp add: create_template_def attempt_def cloud_def dev_half_template ok_def)
  show ?thesis
    unfolding up_created_def Let_def
    by (simp add: seq_run save template del: split_paired_Ex)
      (rule exE [OF dev_half_rest], erule exE, intro exI, assumption)
qed

lemma dev_up_runs:
  "\<exists>r d' t' w' es x. runAWSDevUp (watched_env dev_up_env) demo_up ((aws_home, []), (0, (0, []))) = Some (r, (d', (t', (w', es)))) \<and>
     MadeTemplate x ''lt-1'' \<in> set es"
proof -
  let ?p = "under ''/h/.etcd-infra/aws'' [''demo.json''] False"
  let ?ops = "state_file dev_marshal dev_unmarshal [] ?p"
  have config: "load_config (watched_env dev_up_env) region (d, (0, (0, []))) = Some (Inr (''us-east-1'', watched dev_half_cloud), (d, (1, (0, []))))" for region and d :: disk
    by (simp add: load_config_def wrap_def attempt_def cloud_def call_def watched_env_def dev_up_env_def ok_def)
  have free: "stat_free ?ops ?p nm ((aws_home, []), tw) = Some (Inr (), ((aws_home, []), tw))" for nm tw
    by (simp add: stat_free_def attempt_def disk_do_def dev_up_facts(4) ok_def)
  have "map_option (\<lambda>(r, t, w, es). isl r) (up_resolved (watched_env dev_up_env) (watched dev_half_cloud) demo_up [] (1, (0, []))) = Some False"
    by code_simp
  then obtain o1 dev s where resolved: "up_resolved (watched_env dev_up_env) (watched dev_half_cloud) demo_up [] (1, (0, [])) = Some (Inr (o1, dev), s)"
    by (auto split: prod.splits) (metis isl_def old.sum.exhaust prod.collapse)
  obtain t w es where s: "s = (t, (w, es))" by (metis surj_pair)
  have resolved1: "cloud (up_resolved (watched_env dev_up_env) (watched dev_half_cloud) demo_up []) (d, (1, (0, []))) = Some (Inr (o1, dev), (d, (t, (w, es))))"
    for d :: disk by (simp add: cloud_def resolved s)
  obtain r d' t' l where created: "up_created (watched dev_half_cloud) ?ops ?p o1 ''us-east-1'' dev ((aws_home, []), (t, (w, es))) =
      Some (r, (d', (t', (w, es @ [MadeTemplate l ''lt-1'']))))" using dev_half_created by blast
  have image: "duInstanceType demo_up \<noteq> []" "duAMI demo_up \<noteq> []" "\<not> duDryRun demo_up" by (simp_all add: demo_up_def)
  have "runAWSDevUp (watched_env dev_up_env) demo_up ((aws_home, []), (0, (0, []))) =
      up_created (watched dev_half_cloud) ?ops ?p o1 ''us-east-1'' dev ((aws_home, []), (t, (w, es)))"
    by (simp add: runAWSDevUp_def Let_def dev_up_facts(1,2,5) image check_def ok_run seq_run free config demand_def resolved1)
  with created show ?thesis by auto
qed


section \<open>The numbers of a launch\<close>

lemma sint_small: "0 \<le> k \<Longrightarrow> k < 2 ^ 31 \<Longrightarrow> sint (word_of_int k :: 32 word) = k"
  by (simp add: signed_of_int signed_take_bit_int_eq_self)

lemma validated_numbers:
  assumes "validateAWSDevUpOptions opts = None"
  shows "1 \<le> duCount opts" "duCount opts \<le> 20" "1 \<le> duVolumeSizeGB opts" "duVolumeSizeGB opts \<le> 16384"
    "duVolumeIOPS opts = 0 \<or> 3000 \<le> duVolumeIOPS opts \<and> duVolumeIOPS opts \<le> 1000000"
    "duVolumeThroughput opts = 0 \<or> 125 \<le> duVolumeThroughput opts \<and> duVolumeThroughput opts \<le> 100000"
  using assms by (auto simp: validateAWSDevUpOptions_def maxAWSDevCount_def split: option.splits if_splits)

text \<open>C38: The numbers a user asks for are the numbers AWS gets. After validation none of the conversions to 32 bits changes a
  value: the group is created with exactly the requested number of boxes as minimum, maximum and desired size, and its launch template has an
  encrypted data volume of exactly the requested size that goes away with its instance, whose IOPS and throughput are set exactly when
  they were given.\<close>

theorem awsDevLaunchGroupSpec_exact:
  assumes "validateAWSDevUpOptions opts = None"
    and "spec = awsDevLaunchGroupSpec st (dev_record opts account token) (duIAMInstanceProfile opts)"
  shows "sint (giMinSize (group_of spec tid v)) = duCount opts \<and> sint (giDesiredCapacity (group_of spec tid v)) = duCount opts \<and>
    sint (giMaxSize (group_of spec tid v)) = duCount opts \<and>
    (\<exists>device vol. tdDataVolume (tiData (template_of spec)) = Some (device, vol) \<and> sint (dvVolumeSize vol) = duVolumeSizeGB opts \<and>
       dvEncrypted vol \<and> dvDeleteOnTermination vol \<and>
       map_option sint (dvIops vol) = (if duVolumeIOPS opts = 0 then None else Some (duVolumeIOPS opts)) \<and>
       map_option sint (dvThroughput vol) = (if duVolumeThroughput opts = 0 then None else Some (duVolumeThroughput opts)))"
  using validated_numbers [OF assms(1)]
  by (auto simp: assms(2) awsDevLaunchGroupSpec_def dev_record_def group_of_def template_of_def Let_def data_volume_of_spec_def sint_small)

theorem awsDevLaunchGroupSpec_exact_witness:
  "\<exists>device vol. tdDataVolume (tiData (template_of (awsDevLaunchGroupSpec dev_group_state (dev_record demo_up ''1234'' ''abc'') ''p''))) = Some (device, vol) \<and>
     sint (dvVolumeSize vol) = 8 \<and> map_option sint (dvIops vol) = Some 3000 \<and> map_option sint (dvThroughput vol) = Some 125"
proof -
  have valid: "validateAWSDevUpOptions demo_up = None" by code_simp
  have given: "duIAMInstanceProfile demo_up = ''p''" "duVolumeSizeGB demo_up = 8" "duVolumeIOPS demo_up = 3000" "duVolumeThroughput demo_up = 125"
    by (simp_all add: demo_up_def)
  from awsDevLaunchGroupSpec_exact [OF valid refl, of dev_group_state "''1234''" "''abc''" "''lt-1''" 1, unfolded given] show ?thesis by auto
qed

end
