(* ===== verification/AwsDevEtcd.thy ===== *)
theory AwsDevEtcd
  imports AwsDev
begin

text \<open>
  The command \<^verbatim>\<open>aws dev etcd\<close> of \<^verbatim>\<open>src/cmd/etcd-infra/aws_dev_etcd.go\<close>, from its parsed flags on: a single-member
  etcd on every box of a development group, from a release or from local binaries that travel through S3. The reading of
  an ELF header, the SHA-256 of a file, the release lookup and the AWS CLI are arguments.
\<close>

record 'w etcd_tools =
  etElf :: "string \<Rightarrow> string + string"
  etSHA256 :: "string \<Rightarrow> string + string"
  etLatestVersion :: "'w \<Rightarrow> (string + string) \<times> 'w"
  etSemver :: "string \<Rightarrow> bool"
  etAwsCLI :: "(string list, unit, string, 'w) api"

text \<open>Which machine a binary is for. \<open>etElf\<close> answers with the name of the constant of \<^verbatim>\<open>debug/elf\<close>.\<close>

definition checkLinuxBinary :: "(string \<Rightarrow> string + string) \<Rightarrow> string \<Rightarrow> string \<Rightarrow> string option" where
  "checkLinuxBinary elf p arch =
     (case map_of [(''amd64'', ''EM_X86_64''), (''arm64'', ''EM_AARCH64'')] arch of
        None \<Rightarrow> Some (''dev group has unknown arch '' @ arch)
      | Some want \<Rightarrow>
     (case elf p of
        Inl e \<Rightarrow> Some (p @ '' is not a Linux ELF binary (build it with GOOS=linux GOARCH='' @ arch @ ''): '' @ e)
      | Inr machine \<Rightarrow>
          if machine \<noteq> want
          then Some (p @ '' is built for '' @ machine @ '', but the dev group is '' @ arch @ '' (build it with GOOS=linux GOARCH='' @ arch @ '')'')
          else None))"

text \<open>A given binary, checked; its object is named after its content.\<close>

definition etcd_binary :: "'w etcd_tools \<Rightarrow> awsState \<Rightarrow> awsDevState \<Rightarrow> string \<times> string \<Rightarrow> string + awsDevEtcdBinary" where
  "etcd_binary tools state dev b =
     (case b of (p, name) \<Rightarrow>
     (case checkLinuxBinary (etElf tools) p (asArch state) of Some e \<Rightarrow> Inl e
      | None \<Rightarrow>
     (case etSHA256 tools p of Inl e \<Rightarrow> Inl e
      | Inr digest \<Rightarrow> Inr \<lparr>ebPath = p, ebName = name, ebSHA256 = digest, ebURI = dvResultsURI dev @ ''bin/'' @ take 16 digest @ ''/'' @ name\<rparr>)))"

fun etcd_binaries :: "'w etcd_tools \<Rightarrow> awsState \<Rightarrow> awsDevState \<Rightarrow> (string \<times> string) list \<Rightarrow> string + awsDevEtcdBinary list" where
  "etcd_binaries tools state dev [] = Inr []"
| "etcd_binaries tools state dev (b # bs) =
     (if fst b = [] then etcd_binaries tools state dev bs
      else (case etcd_binary tools state dev b of Inl e \<Rightarrow> Inl e
            | Inr x \<Rightarrow> (case etcd_binaries tools state dev bs of Inl e \<Rightarrow> Inl e | Inr xs \<Rightarrow> Inr (x # xs))))"

definition release_version :: "'w etcd_tools \<Rightarrow> string \<Rightarrow> (provider_error, string, 'w timed) prog" where
  "release_version tools v tw =
     (case resolveVersion (etLatestVersion tools) (etSemver tools) (if v = [] then ''latest'' else v) (snd tw) of
        (Inl e, w') \<Rightarrow> Some (Inl (PMsg e), (fst tw, w')) | (Inr x, w') \<Rightarrow> Some (Inr x, (fst tw, w')))"

fun upload_binaries :: "'w etcd_tools \<Rightarrow> string \<Rightarrow> awsDevEtcdBinary list \<Rightarrow> (provider_error, unit, 'w timed) prog" where
  "upload_binaries tools region [] = ok ()"
| "upload_binaries tools region (b # bs) =
     seq (wrap (PContext (''upload '' @ ebName b))
       (call (etAwsCLI tools) [''s3'', ''cp'', ''--only-show-errors'', ebPath b, ebURI b, ''--region'', region])) (\<lambda>_.
     upload_binaries tools region bs)"

definition awsDevEtcdTimeout :: int where "awsDevEtcdTimeout = 10 * 60 * second"

record awsDevEtcdOptions =
  eoName :: string
  eoInstances :: string
  eoBinary :: string
  eoEtcdctl :: string
  eoVersion :: string
  eoEnv :: string
  eoResetData :: bool

text \<open>Starting the member on one box; its address goes with the result of the script.\<close>

definition start_etcd :: "'w manager \<Rightarrow> awsState \<Rightarrow> awsDevState \<Rightarrow> string \<Rightarrow> string list \<Rightarrow> string list \<Rightarrow> bool \<Rightarrow> string \<Rightarrow>
    (provider_error, string \<times> ExecuteResult, 'w timed) prog" where
  "start_etcd m state dev install extraArgs env resetData iid =
     seq (GetEC2 m iid) (\<lambda>i.
       (let ip = efPrivateIPv4 i in
        if ip = [] then fail (PMsg ''no private IPv4 address'')
        else
          (let member = \<lparr>mbName = iid, mbClientURL = ''http://'' @ ip @ '':2379'', mbPeerURL = ''http://'' @ ip @ '':2380''\<rparr>;
               script = awsDevEtcdScript member (asName state) (dvMountPoint dev @ ''/etcd'') install extraArgs env resetData
           in seq (RunCommandWithOptionsEC2 m i [''bash'', ''-c'', awsDevRunScript script] (Some (guest_options awsDevEtcdTimeout)))
                (\<lambda>res. ok (ip, res)))))"

definition etcd_line :: "awsDevState \<Rightarrow> string \<times> (provider_error + string \<times> ExecuteResult) \<Rightarrow> string list + string" where
  "etcd_line dev o1 =
     (case o1 of (iid, Inr (ip, res)) \<Rightarrow>
        if erExitCode res \<noteq> 0 then Inl [iid]
        else Inr (''instance='' @ iid @ '' client_url=http://'' @ ip @ '':2379 data_dir='' @ dvMountPoint dev @ ''/etcd etcd_version='' @
               awsDevEtcdVersion (erStdout res))
      | (iid, Inl _) \<Rightarrow> Inl [iid])"

definition etcd_report :: "awsState \<Rightarrow> awsDevState \<Rightarrow> string list \<Rightarrow> (provider_error + string \<times> ExecuteResult) list \<Rightarrow>
    string list \<times> dev_error option" where
  "etcd_report state dev targets outcomes =
     (let rs = map (etcd_line dev) (zip targets outcomes);
          failed = concat (errors_of rs)
      in (List.map_filter (\<lambda>r. case r of Inl _ \<Rightarrow> None | Inr l \<Rightarrow> Some l) rs,
          if failed = [] then None
          else Some (DvMsg (''dev group '' @ asName state @ '': etcd failed on '' @ show_nat (length failed) @ '' of '' @
                 show_nat (length targets) @ '' boxes: '' @ Join '', '' failed))))"

text \<open>\<open>extra\<close> is the result of \<open>resolveExtraArgs\<close>. The printed lines come with the error that ends the command, if any.\<close>

definition runAWSDevEtcd :: "('d, 'w) dev_env \<Rightarrow> 'w etcd_tools \<Rightarrow> string + string list \<Rightarrow> awsDevEtcdOptions \<Rightarrow>
    ('d, string list \<times> dev_error option, 'w) command" where
  "runAWSDevEtcd env tools extra eo =
     (if eoBinary eo \<noteq> [] \<and> eoVersion eo \<noteq> [] then fail (DvMsg ''--binary and --version are mutually exclusive'')
      else if eoEtcdctl eo \<noteq> [] \<and> eoBinary eo = []
      then fail (DvMsg ''--etcdctl requires --binary (a release install already includes etcdctl)'')
      else (case extra of Inl e \<Rightarrow> fail (DvMsg e)
      | Inr extraArgs \<Rightarrow>
     (case parseLocalEnv (eoEnv eo) of Inl e \<Rightarrow> fail (DvMsg e)
      | Inr envVars \<Rightarrow>
        seq (readAWSDevGroupState env (eoName eo)) (\<lambda>(state, dev, _).
        (case etcd_binaries tools state dev [(eoBinary eo, ''etcd''), (eoEtcdctl eo, ''etcdctl'')] of Inl e \<Rightarrow> fail (DvMsg e)
         | Inr binaries \<Rightarrow>
        seq (if binaries = [] then cloud (release_version tools (eoVersion eo)) else ok []) (\<lambda>version.
        seq (awsDevManager env state) (\<lambda>m.
        seq (cloud (group_targets m state dev (splitCSV (eoInstances eo)))) (\<lambda>targets.
        seq (cloud (upload_binaries tools (asRegion state) binaries)) (\<lambda>_.
          (let bootstrap = \<lparr>boVersion = version, boArch = asArch state, boBinaryURL = [], boBinarySHA256 = [], boExtraArgs = [],
                 boEnv = [], boDataVolumeSetup = False\<rparr>;
               install = (if binaries = [] then awsEtcdInstallScript bootstrap else awsDevEtcdS3InstallScript binaries)
           in seq (cloud (each (start_etcd m state dev install extraArgs envVars (eoResetData eo)) targets)) (\<lambda>outcomes.
              ok (etcd_report state dev targets outcomes)))))))))))) "

end
