(* ===== verification/Iam.thy ===== *)
theory Iam
  imports Ec2Provider
begin

text \<open>
  \<^verbatim>\<open>src/pkg/providers/aws/iam.go\<close>: policies, roles, instance profiles and users, as programs over the client of IAM. A page
  of a list is its items and the marker with which the SDK's paginator asks for the next one (none when the answer is not
  truncated). Times are nanoseconds since 1970. The JSON decoder is an argument.
\<close>

section \<open>The client\<close>

record policy_output =
  poArn :: "string option"
  poDefaultVersionId :: "string option"

record policy_version =
  pvVersionId :: "string option"
  pvIsDefaultVersion :: bool
  pvCreateDate :: "int option"

record policy_input =
  piPolicyName :: string
  piPolicyDocument :: string
  piDescription :: string
  piTags :: "tag list"

record version_input =
  viPolicyArn :: string
  viPolicyDocument :: string
  viSetAsDefault :: bool

record role_output =
  rlArn :: "string option"
  rlTags :: "tag list"

record role_input =
  riRoleName :: string
  riAssumeRolePolicyDocument :: string
  riDescription :: string
  riTags :: "tag list"

record profile_output =
  pfArn :: "string option"
  pfTags :: "tag list"
  pfRoles :: "string option list"

record user_output =
  usArn :: "string option"
  usTags :: "tag list"
  usPermissionsBoundary :: "string option option"

record user_input =
  uiUserName :: string
  uiPermissionsBoundary :: string
  uiTags :: "tag list"

type_synonym 'x page = "'x list \<times> string option"

text \<open>The list calls take what is listed and the marker. The policy and the version of an answer are pointers; the role, the
  profile, the user and the key of an answer are taken to be there, as IAM documents.\<close>

record 'w iamAPI =
  imGetPolicy :: "(string, policy_output option, 'w) aws_api"
  imCreatePolicy :: "(policy_input, unit, 'w) aws_api"
  imGetPolicyVersion :: "(string \<times> string, string option option, 'w) aws_api"
  imListPolicyVersions :: "(string \<times> string option, policy_version page, 'w) aws_api"
  imCreatePolicyVersion :: "(version_input, unit, 'w) aws_api"
  imDeletePolicyVersion :: "(string \<times> string, unit, 'w) aws_api"
  imGetRole :: "(string, role_output, 'w) aws_api"
  imCreateRole :: "(role_input, unit, 'w) aws_api"
  imAttachRolePolicy :: "(string \<times> string, unit, 'w) aws_api"
  imListAttachedRolePolicies :: "(string \<times> string option, string option page, 'w) aws_api"
  imGetInstanceProfile :: "(string, profile_output, 'w) aws_api"
  imCreateInstanceProfile :: "(string \<times> tag list, unit, 'w) aws_api"
  imAddRoleToInstanceProfile :: "(string \<times> string, unit, 'w) aws_api"
  imGetUser :: "(string, user_output, 'w) aws_api"
  imCreateUser :: "(user_input, unit, 'w) aws_api"
  imAttachUserPolicy :: "(string \<times> string, unit, 'w) aws_api"
  imListAttachedUserPolicies :: "(string \<times> string option, string option page, 'w) aws_api"
  imPutUserPermissionsBoundary :: "(string \<times> string, unit, 'w) aws_api"
  imListAccessKeys :: "(string \<times> string option, string option page, 'w) aws_api"
  imCreateAccessKey :: "(string, string option \<times> string option, 'w) aws_api"

record 'j json_codec =
  jsValid :: "string \<Rightarrow> bool"
  jsUnmarshal :: "string \<Rightarrow> string + 'j"

definition no_iam :: provider_error where "no_iam = PMsg ''aws: iam client is nil''"

definition isIAMNotFound :: "api_error \<Rightarrow> bool" where
  "isIAMNotFound e \<longleftrightarrow> apiErrorCode (Some e) = ''NoSuchEntity''"

definition iamTags :: "(string \<times> string) list \<Rightarrow> tag list" where
  "iamTags tags = some_tags (sorted_bindings tags)"

definition iamTagMap :: "tag list \<Rightarrow> string \<rightharpoonup> string" where
  "iamTagMap tags = fold (\<lambda>t m. m(ToString (fst t) \<mapsto> ToString (snd t))) tags Map.empty"

text \<open>\<^verbatim>\<open>HasMorePages\<close> and \<^verbatim>\<open>NextPage\<close> of a paginator.\<close>

definition next_page :: "(string \<times> string option, 'x page, 'w) aws_api \<Rightarrow> string \<Rightarrow> string \<Rightarrow> string option \<times> 'x list \<Rightarrow>
    (provider_error + 'x list, string option \<times> 'x list, 'w timed) prog" where
  "next_page list msg arg mx = attempt (call list (arg, fst mx)) (\<lambda>r. case r of
      Inl e \<Rightarrow> fail (Inl (PApi msg e))
    | Inr (xs, marker) \<Rightarrow> if ToString marker = [] then fail (Inr (snd mx @ xs)) else ok (marker, snd mx @ xs))"

definition all_pages :: "(string \<times> string option, 'x page, 'w) aws_api \<Rightarrow> string \<Rightarrow> string \<Rightarrow> (provider_error, 'x list, 'w timed) prog" where
  "all_pages list msg arg = iterate (next_page list msg arg) (None, [])"

section \<open>Policies\<close>

datatype policy_change = PolicyCreated | PolicyUpdated | PolicyUnchanged

definition maxPolicyVersions :: nat where "maxPolicyVersions = 5"

record iamPolicy =
  ipARN :: string
  ipDefaultVersion :: string

definition managedPolicy :: "'w iamAPI \<Rightarrow> string \<Rightarrow> (provider_error, iamPolicy option, 'w timed) prog" where
  "managedPolicy i arn = attempt (call (imGetPolicy i) arn) (\<lambda>r. case r of
      Inl e \<Rightarrow> if isIAMNotFound e then ok None else fail (PApi (''aws: get policy '' @ arn) e)
    | Inr None \<Rightarrow> fail (PPanic ''nil policy'')
    | Inr (Some p) \<Rightarrow> ok (Some \<lparr>ipARN = ToString (poArn p), ipDefaultVersion = ToString (poDefaultVersionId p)\<rparr>))"

text \<open>\<^verbatim>\<open>url.PathUnescape\<close>.\<close>

definition hex_value :: "char \<Rightarrow> nat option" where
  "hex_value c = (let k = of_char c in
     if 48 \<le> k \<and> k \<le> 57 then Some (k - 48) else if 97 \<le> k \<and> k \<le> 102 then Some (k - 87)
     else if 65 \<le> k \<and> k \<le> 70 then Some (k - 55) else None)"

fun PathUnescape :: "string \<Rightarrow> string option" where
  "PathUnescape [] = Some []"
| "PathUnescape (c # cs) =
     (if c = CHR ''%''
      then (case cs of
              a # b # rest \<Rightarrow>
                (case (hex_value a, hex_value b) of
                   (Some x, Some y) \<Rightarrow> map_option ((#) (char_of (16 * x + y))) (PathUnescape rest)
                 | _ \<Rightarrow> None)
            | _ \<Rightarrow> None)
      else map_option ((#) c) (PathUnescape cs))"

definition policyDocument :: "'w iamAPI \<Rightarrow> string \<Rightarrow> string \<Rightarrow> (provider_error, string, 'w timed) prog" where
  "policyDocument i arn versionID =
     seq (wrap (PApi (''aws: get policy '' @ arn @ '' version '' @ versionID)) (call (imGetPolicyVersion i) (arn, versionID))) (\<lambda>v.
       (case v of
          None \<Rightarrow> fail (PPanic ''nil policy version'')
        | Some document \<Rightarrow>
            (case PathUnescape (ToString document) of
               None \<Rightarrow> fail (PMsg (''aws: decode policy '' @ arn @ '' version '' @ versionID))
             | Some doc \<Rightarrow> ok doc)))"

definition equalPolicyDocuments :: "'j json_codec \<Rightarrow> string \<Rightarrow> string \<Rightarrow> provider_error + bool" where
  "equalPolicyDocuments js a b =
     (case jsUnmarshal js a of Inl e \<Rightarrow> Inl (PMsg (''aws: parse policy document: '' @ e))
      | Inr va \<Rightarrow> (case jsUnmarshal js b of Inl e \<Rightarrow> Inl (PMsg (''aws: parse policy document: '' @ e)) | Inr vb \<Rightarrow> Inr (va = vb)))"

definition policyVersions :: "'w iamAPI \<Rightarrow> string \<Rightarrow> (provider_error, policy_version list, 'w timed) prog" where
  "policyVersions i arn = all_pages (imListPolicyVersions i) (''aws: list versions of policy '' @ arn) arn"

definition deletePolicyVersion :: "'w iamAPI \<Rightarrow> string \<Rightarrow> string \<Rightarrow> (provider_error, unit, 'w timed) prog" where
  "deletePolicyVersion i arn versionID = attempt (call (imDeletePolicyVersion i) (arn, versionID)) (\<lambda>r. case r of
      Inl e \<Rightarrow> if isIAMNotFound e then ok () else fail (PApi (''aws: delete policy '' @ arn @ '' version '' @ versionID) e)
    | Inr _ \<Rightarrow> ok ())"

text \<open>The zero time of a nil date, the first of January of the year 1. \<^verbatim>\<open>sort.Slice\<close> keeps equal elements in order on the few
  versions there are (it sorts at most twelve by insertion), so the first element is the first of the oldest.\<close>

definition ToTime :: "int option \<Rightarrow> int" where
  "ToTime d = (case d of None \<Rightarrow> - 62135596800 * second | Some t \<Rightarrow> t)"

fun oldest :: "policy_version \<Rightarrow> policy_version list \<Rightarrow> policy_version" where
  "oldest v [] = v"
| "oldest v (x # xs) = oldest (if ToTime (pvCreateDate x) < ToTime (pvCreateDate v) then x else v) xs"

definition pruneOldestPolicyVersion :: "'w iamAPI \<Rightarrow> string \<Rightarrow> (provider_error, unit, 'w timed) prog" where
  "pruneOldestPolicyVersion i arn =
     seq (policyVersions i arn) (\<lambda>versions.
       if length versions < maxPolicyVersions then ok ()
       else (case filter (\<lambda>v. \<not> pvIsDefaultVersion v) versions of
               [] \<Rightarrow> fail (PMsg (''aws: policy '' @ arn @ '' has '' @ show_nat (length versions) @ '' versions and none is deletable''))
             | v # vs \<Rightarrow> deletePolicyVersion i arn (ToString (pvVersionId (oldest v vs)))))"

text \<open>The name of a policy is what follows the last slash of its ARN.\<close>

definition policy_name :: "string \<Rightarrow> string" where
  "policy_name arn = rev (takeWhile (\<lambda>c. c \<noteq> CHR ''/'') (rev arn))"

definition update_policy :: "'w iamAPI \<Rightarrow> string \<Rightarrow> string \<Rightarrow> (provider_error, policy_change, 'w timed) prog" where
  "update_policy i arn document =
     seq (pruneOldestPolicyVersion i arn) (\<lambda>_.
     seq (wrap (PApi (''aws: update policy '' @ arn)) (call (imCreatePolicyVersion i)
            \<lparr>viPolicyArn = arn, viPolicyDocument = document, viSetAsDefault = True\<rparr>)) (\<lambda>_.
     ok PolicyUpdated))"

definition EnsureManagedPolicy :: "'j json_codec \<Rightarrow> 'w iamAPI option \<Rightarrow> string \<Rightarrow> string \<Rightarrow> string \<Rightarrow> (string \<times> string) list \<Rightarrow>
    (provider_error, policy_change, 'w timed) prog" where
  "EnsureManagedPolicy js iam arn document description tags =
     client iam no_iam (\<lambda>i.
     if \<not> jsValid js document then fail (PMsg ''aws: policy document is not valid JSON'')
     else seq (managedPolicy i arn) (\<lambda>existing. case existing of
        None \<Rightarrow>
          seq (wrap (PApi (''aws: create policy '' @ policy_name arn)) (call (imCreatePolicy i)
                 \<lparr>piPolicyName = policy_name arn, piPolicyDocument = document, piDescription = description, piTags = iamTags tags\<rparr>)) (\<lambda>_.
          ok PolicyCreated)
      | Some p \<Rightarrow>
          seq (policyDocument i arn (ipDefaultVersion p)) (\<lambda>current.
            (case equalPolicyDocuments js current document of
               Inl e \<Rightarrow> fail e
             | Inr same \<Rightarrow> if same then ok PolicyUnchanged else update_policy i arn document))))"

section \<open>Roles and instance profiles\<close>

record IAMRole =
  irARN :: string
  irTags :: "string \<rightharpoonup> string"

record IAMInstanceProfile =
  ipfARN :: string
  ipfRoles :: "string list"
  ipfTags :: "string \<rightharpoonup> string"

text \<open>\<open>None\<close> is the nil of something that does not exist.\<close>

definition Role :: "'w iamAPI option \<Rightarrow> string \<Rightarrow> (provider_error, IAMRole option, 'w timed) prog" where
  "Role iam name = client iam no_iam (\<lambda>i. attempt (call (imGetRole i) name) (\<lambda>r. case r of
      Inl e \<Rightarrow> if isIAMNotFound e then ok None else fail (PApi (''aws: get role '' @ name) e)
    | Inr out \<Rightarrow> ok (Some \<lparr>irARN = ToString (rlArn out), irTags = iamTagMap (rlTags out)\<rparr>)))"

definition CreateRole :: "'w iamAPI option \<Rightarrow> string \<Rightarrow> string \<Rightarrow> string \<Rightarrow> (string \<times> string) list \<Rightarrow> (provider_error, unit, 'w timed) prog" where
  "CreateRole iam name trustPolicy description tags = client iam no_iam (\<lambda>i.
     wrap (PApi (''aws: create role '' @ name)) (call (imCreateRole i)
       \<lparr>riRoleName = name, riAssumeRolePolicyDocument = trustPolicy, riDescription = description, riTags = iamTags tags\<rparr>))"

definition RolePolicyARNs :: "'w iamAPI option \<Rightarrow> string \<Rightarrow> (provider_error, string list, 'w timed) prog" where
  "RolePolicyARNs iam role = client iam no_iam (\<lambda>i.
     seq (all_pages (imListAttachedRolePolicies i) (''aws: list policies of role '' @ role) role) (\<lambda>arns. ok (map ToString arns)))"

definition AttachRolePolicy :: "'w iamAPI option \<Rightarrow> string \<Rightarrow> string \<Rightarrow> (provider_error, unit, 'w timed) prog" where
  "AttachRolePolicy iam role policyARN = client iam no_iam (\<lambda>i.
     wrap (PApi (''aws: attach '' @ policyARN @ '' to role '' @ role)) (call (imAttachRolePolicy i) (role, policyARN)))"

definition InstanceProfile :: "'w iamAPI option \<Rightarrow> string \<Rightarrow> (provider_error, IAMInstanceProfile option, 'w timed) prog" where
  "InstanceProfile iam name = client iam no_iam (\<lambda>i. attempt (call (imGetInstanceProfile i) name) (\<lambda>r. case r of
      Inl e \<Rightarrow> if isIAMNotFound e then ok None else fail (PApi (''aws: get instance profile '' @ name) e)
    | Inr p \<Rightarrow> ok (Some \<lparr>ipfARN = ToString (pfArn p), ipfRoles = map ToString (pfRoles p), ipfTags = iamTagMap (pfTags p)\<rparr>)))"

definition CreateInstanceProfile :: "'w iamAPI option \<Rightarrow> string \<Rightarrow> (string \<times> string) list \<Rightarrow> (provider_error, unit, 'w timed) prog" where
  "CreateInstanceProfile iam name tags = client iam no_iam (\<lambda>i.
     wrap (PApi (''aws: create instance profile '' @ name)) (call (imCreateInstanceProfile i) (name, iamTags tags)))"

definition AddRoleToInstanceProfile :: "'w iamAPI option \<Rightarrow> string \<Rightarrow> string \<Rightarrow> (provider_error, unit, 'w timed) prog" where
  "AddRoleToInstanceProfile iam profile role = client iam no_iam (\<lambda>i.
     wrap (PApi (''aws: add role '' @ role @ '' to instance profile '' @ profile)) (call (imAddRoleToInstanceProfile i) (profile, role)))"

section \<open>Users\<close>

record IAMUser =
  iuARN :: string
  iuPermissionsBoundary :: string
  iuTags :: "string \<rightharpoonup> string"

record AccessKey =
  akID :: string
  akSecret :: string

definition user_of :: "user_output \<Rightarrow> IAMUser" where
  "user_of u = \<lparr>iuARN = ToString (usArn u),
     iuPermissionsBoundary = (case usPermissionsBoundary u of None \<Rightarrow> [] | Some b \<Rightarrow> ToString b), iuTags = iamTagMap (usTags u)\<rparr>"

definition User :: "'w iamAPI option \<Rightarrow> string \<Rightarrow> (provider_error, IAMUser option, 'w timed) prog" where
  "User iam name = client iam no_iam (\<lambda>i. attempt (call (imGetUser i) name) (\<lambda>r. case r of
      Inl e \<Rightarrow> if isIAMNotFound e then ok None else fail (PApi (''aws: get user '' @ name) e)
    | Inr u \<Rightarrow> ok (Some (user_of u))))"

definition CreateUser :: "'w iamAPI option \<Rightarrow> string \<Rightarrow> string \<Rightarrow> (string \<times> string) list \<Rightarrow> (provider_error, unit, 'w timed) prog" where
  "CreateUser iam name boundaryARN tags = client iam no_iam (\<lambda>i.
     wrap (PApi (''aws: create user '' @ name)) (call (imCreateUser i)
       \<lparr>uiUserName = name, uiPermissionsBoundary = boundaryARN, uiTags = iamTags tags\<rparr>))"

definition SetUserPermissionsBoundary :: "'w iamAPI option \<Rightarrow> string \<Rightarrow> string \<Rightarrow> (provider_error, unit, 'w timed) prog" where
  "SetUserPermissionsBoundary iam name boundaryARN = client iam no_iam (\<lambda>i.
     wrap (PApi (''aws: set permissions boundary of user '' @ name)) (call (imPutUserPermissionsBoundary i) (name, boundaryARN)))"

definition UserPolicyARNs :: "'w iamAPI option \<Rightarrow> string \<Rightarrow> (provider_error, string list, 'w timed) prog" where
  "UserPolicyARNs iam name = client iam no_iam (\<lambda>i.
     seq (all_pages (imListAttachedUserPolicies i) (''aws: list policies of user '' @ name) name) (\<lambda>arns. ok (map ToString arns)))"

definition AttachUserPolicy :: "'w iamAPI option \<Rightarrow> string \<Rightarrow> string \<Rightarrow> (provider_error, unit, 'w timed) prog" where
  "AttachUserPolicy iam name policyARN = client iam no_iam (\<lambda>i.
     wrap (PApi (''aws: attach '' @ policyARN @ '' to user '' @ name)) (call (imAttachUserPolicy i) (name, policyARN)))"

definition AccessKeyIDs :: "'w iamAPI option \<Rightarrow> string \<Rightarrow> (provider_error, string list, 'w timed) prog" where
  "AccessKeyIDs iam name = client iam no_iam (\<lambda>i.
     seq (all_pages (imListAccessKeys i) (''aws: list access keys of user '' @ name) name) (\<lambda>ids. ok (map ToString ids)))"

definition CreateAccessKey :: "'w iamAPI option \<Rightarrow> string \<Rightarrow> (provider_error, AccessKey, 'w timed) prog" where
  "CreateAccessKey iam name = client iam no_iam (\<lambda>i.
     seq (wrap (PApi (''aws: create access key for user '' @ name)) (call (imCreateAccessKey i) name)) (\<lambda>k.
     ok \<lparr>akID = ToString (fst k), akSecret = ToString (snd k)\<rparr>))"

end
