(* ===== verification/AwsIam.thy ===== *)
theory AwsIam
  imports Iam
begin

text \<open>
  The command \<^verbatim>\<open>aws iam create-user\<close> of \<^verbatim>\<open>src/cmd/etcd-infra/aws_iam.go\<close>, from its parsed flags on. The two embedded
  policy documents of \<^verbatim>\<open>src/hack\<close> are an argument. A writer is a call whose result nobody looks at, so that output and
  requests keep their order.
\<close>

section \<open>Names\<close>

definition defaultAWSIAMUser :: string where "defaultAWSIAMUser = ''etcd-infra-aws-e2e''"

definition awsIAMUserPolicyName :: string where "awsIAMUserPolicyName = ''etcd-infra-aws-e2e''"

definition awsIAMRoleName :: string where "awsIAMRoleName = ''etcd-infra-ssm''"

definition awsIAMRoleExecPolicyName :: string where "awsIAMRoleExecPolicyName = ''etcd-infra-ssm-exec''"

definition awsIAMManagedByTag :: string where "awsIAMManagedByTag = ''etcd-infra.managed-by''"

definition awsIAMManagedByValue :: string where "awsIAMManagedByValue = ''etcd-infra-aws-iam''"

definition awsIAMMaxAccessKeys :: nat where "awsIAMMaxAccessKeys = 2"

definition awsIAMDefaultRegion :: string where "awsIAMDefaultRegion = ''us-east-1''"

definition awsIAMRoleTrustPolicy :: string where
  "awsIAMRoleTrustPolicy = Join [line_feed]
     [''{'', ''  \"Version\": \"2012-10-17\",'', ''  \"Statement\": [{'', ''    \"Effect\": \"Allow\",'',
      ''    \"Principal\": {\"Service\": \"ec2.amazonaws.com\"},'', ''    \"Action\": \"sts:AssumeRole\"'', ''  }]'', ''}'']"

definition awsIAMRoleAWSPolicies :: "string list" where
  "awsIAMRoleAWSPolicies = [''AmazonSSMManagedInstanceCore'', ''AmazonS3ReadOnlyAccess'']"

definition iam_name_char :: "char \<Rightarrow> bool" where
  "iam_name_char c \<longleftrightarrow> is_alpha c \<or> is_digit c \<or> c \<in> set ''+=,.@_-''"

record awsIAMOptions =
  ioRegion :: string
  ioUser :: string
  ioRole :: bool
  ioAccessKey :: bool
  ioDryRun :: bool

record awsIAMTarget =
  itAccount :: string
  itPartition :: string
  itUser :: string
  itUserPolicyARN :: string
  itRoleExecPolicyARN :: string
  itRoleAWSPolicyARNs :: "string list"
  itUserPolicyDocument :: string
  itRoleExecPolicyDoc :: string
  itIncludeRole :: bool
  itCreateAccessKey :: bool
  itCallerARN :: string
  itManagedTags :: "(string \<times> string) list"

text \<open>The documents of \<^verbatim>\<open>aws-e2e.iam-policy.json\<close> and \<^verbatim>\<open>aws-ssm-role-exec.iam-policy.json\<close>.\<close>

record iam_documents =
  hkUserPolicy :: string
  hkRoleExecPolicy :: string

definition awsIAMPolicyARN :: "string \<Rightarrow> string \<Rightarrow> string \<Rightarrow> string" where
  "awsIAMPolicyARN part account name = ''arn:'' @ part @ '':iam::'' @ account @ '':policy/'' @ name"

definition newAWSIAMTarget :: "iam_documents \<Rightarrow> CallerIdentity \<Rightarrow> awsIAMOptions \<Rightarrow> awsIAMTarget" where
  "newAWSIAMTarget docs iid opts =
     \<lparr>itAccount = idAccount iid, itPartition = idPartition iid, itUser = ioUser opts,
      itUserPolicyARN = awsIAMPolicyARN (idPartition iid) (idAccount iid) awsIAMUserPolicyName,
      itRoleExecPolicyARN = awsIAMPolicyARN (idPartition iid) (idAccount iid) awsIAMRoleExecPolicyName,
      itRoleAWSPolicyARNs = map (\<lambda>name. ''arn:'' @ idPartition iid @ '':iam::aws:policy/'' @ name) awsIAMRoleAWSPolicies,
      itUserPolicyDocument = hkUserPolicy docs, itRoleExecPolicyDoc = hkRoleExecPolicy docs, itIncludeRole = ioRole opts,
      itCreateAccessKey = ioAccessKey opts, itCallerARN = idARN iid, itManagedTags = [(awsIAMManagedByTag, awsIAMManagedByValue)]\<rparr>"

definition awsIAMManaged :: "(string \<rightharpoonup> string) \<Rightarrow> bool" where
  "awsIAMManaged tags \<longleftrightarrow> tags awsIAMManagedByTag = Some awsIAMManagedByValue"

definition validateAWSIAMOptions :: "awsIAMOptions \<Rightarrow> string option" where
  "validateAWSIAMOptions opts =
     (if ioUser opts \<noteq> [] \<and> length (ioUser opts) \<le> 64 \<and> list_all iam_name_char (ioUser opts) then None
      else Some (''invalid --user '' @ ioUser opts @ '': IAM user names are 1-64 characters of letters, digits, and +=,.@_-''))"

definition validateAWSIAMPartition :: "string \<Rightarrow> string option" where
  "validateAWSIAMPartition part =
     (if part \<noteq> ''aws'' then Some (''partition '' @ part @ '' is unsupported: the policies in hack/ use arn:aws: resource ARNs'')
      else None)"

section \<open>Writers and the session\<close>

type_synonym 'w writer = "(string, unit, provider_error, 'w) api"

definition Fprintf :: "'w writer \<Rightarrow> string list \<Rightarrow> (provider_error, unit, 'w timed) prog" where
  "Fprintf w ls = attempt (call w (concat (map (\<lambda>l. l @ [line_feed]) ls))) (\<lambda>_. ok ())"

text \<open>What the command takes from its environment: the JSON decoder and the writers, and for its session the AWS configuration
  of a region: the region it settles on and the manager that \<^verbatim>\<open>New\<close> makes of it with a region. The STS client of the
  manager is the one of \<open>Ec2Provider\<close>, its IAM client the one of \<open>Iam\<close>.\<close>

record ('w, 'j) iam_env =
  ieJson :: "'j json_codec"
  ieStdout :: "'w writer"
  ieStderr :: "'w writer"

type_synonym 'w iam_config = "(string, string \<times> (string \<Rightarrow> 'w manager \<times> 'w iamAPI option), provider_error, 'w) api"

definition newAWSIAMSession :: "'w iam_config \<Rightarrow> string \<Rightarrow> (provider_error, 'w iamAPI option \<times> CallerIdentity, 'w timed) prog" where
  "newAWSIAMSession load region =
     seq (wrap (PWrap ''load AWS config'') (call load region)) (\<lambda>(configured, new).
       (let (manager, iam) = new (if configured = [] then awsIAMDefaultRegion else configured) in
        seq (wrap (PWrap ''identify AWS account'') (callerIdentity manager)) (\<lambda>iid.
        seq (check (map_option PMsg (validateAWSIAMPartition (idPartition iid)))) (\<lambda>_.
        ok (iam, iid)))))"

section \<open>The role\<close>

definition attach_role_policies :: "'w iamAPI option \<Rightarrow> string list \<Rightarrow> string list \<Rightarrow> (provider_error, unit, 'w timed) prog" where
  "attach_role_policies c attached wanted = foldr (\<lambda>arn rest.
     if arn \<in> set attached then rest else seq (AttachRolePolicy c awsIAMRoleName arn) (\<lambda>_. rest)) wanted (ok ())"

definition adopt_role :: "('w, 'j) iam_env \<Rightarrow> 'w iamAPI option \<Rightarrow> awsIAMTarget \<Rightarrow> IAMRole option \<Rightarrow> (provider_error, string, 'w timed) prog" where
  "adopt_role env c t role =
     (case role of
        None \<Rightarrow> seq (CreateRole c awsIAMRoleName awsIAMRoleTrustPolicy
            ''etcd-infra: role of etcd-infra test instances (SSM, S3 results)'' (itManagedTags t)) (\<lambda>_. ok ''created'')
      | Some r \<Rightarrow>
          if \<not> awsIAMManaged (irTags r)
          then seq (Fprintf (ieStderr env) [''note: role '' @ awsIAMRoleName @ '' predates 'etcd-infra aws iam create-user' (no '' @
                 awsIAMManagedByTag @ '' tag); adopting it'']) (\<lambda>_. ok ''existing'')
          else ok ''existing'')"

definition ensure_role :: "('w, 'j) iam_env \<Rightarrow> 'w iamAPI option \<Rightarrow> awsIAMTarget \<Rightarrow> (provider_error, unit, 'w timed) prog" where
  "ensure_role env c t =
     seq (Role c awsIAMRoleName) (\<lambda>role.
     seq (adopt_role env c t role) (\<lambda>roleState.
     seq (RolePolicyARNs c awsIAMRoleName) (\<lambda>attached.
     seq (attach_role_policies c attached (itRoleAWSPolicyARNs t @ [itRoleExecPolicyARN t])) (\<lambda>_.
     Fprintf (ieStdout env) [''role='' @ awsIAMRoleName, ''role_state='' @ roleState]))))"

definition adopt_profile :: "'w iamAPI option \<Rightarrow> awsIAMTarget \<Rightarrow> IAMInstanceProfile option \<Rightarrow> (provider_error, string \<times> string list, 'w timed) prog" where
  "adopt_profile c t found =
     (case found of
        None \<Rightarrow> seq (CreateInstanceProfile c awsIAMRoleName (itManagedTags t)) (\<lambda>_. ok (''created'', []))
      | Some p \<Rightarrow> ok (''existing'', ipfRoles p))"

definition fill_profile :: "'w iamAPI option \<Rightarrow> string list \<Rightarrow> (provider_error, unit, 'w timed) prog" where
  "fill_profile c roles =
     (if awsIAMRoleName \<in> set roles then ok ()
      else if roles = [] then AddRoleToInstanceProfile c awsIAMRoleName awsIAMRoleName
      else fail (PMsg (''instance profile '' @ awsIAMRoleName @ '' holds role '' @ Join '','' roles @ '', not '' @ awsIAMRoleName @
             ''; fix it by hand'')))"

definition ensure_profile :: "('w, 'j) iam_env \<Rightarrow> 'w iamAPI option \<Rightarrow> awsIAMTarget \<Rightarrow> (provider_error, unit, 'w timed) prog" where
  "ensure_profile env c t =
     seq (InstanceProfile c awsIAMRoleName) (\<lambda>found.
     seq (adopt_profile c t found) (\<lambda>(profileState, roles).
     seq (fill_profile c roles) (\<lambda>_.
     Fprintf (ieStdout env) [''instance_profile='' @ awsIAMRoleName, ''instance_profile_state='' @ profileState])))"

fun show_change :: "policy_change \<Rightarrow> string" where
  "show_change PolicyCreated = ''created''" | "show_change PolicyUpdated = ''updated''" | "show_change PolicyUnchanged = ''unchanged''"

definition awsIAMEnsureRole :: "('w, 'j) iam_env \<Rightarrow> 'w iamAPI option \<Rightarrow> awsIAMTarget \<Rightarrow> (provider_error, unit, 'w timed) prog" where
  "awsIAMEnsureRole env c t =
     seq (EnsureManagedPolicy (ieJson env) c (itRoleExecPolicyARN t) (itRoleExecPolicyDoc t)
            (''etcd-infra: tag-scoped execution permissions of the '' @ awsIAMRoleName @ '' instance role'') (itManagedTags t)) (\<lambda>change.
     seq (Fprintf (ieStdout env) [''role_exec_policy_arn='' @ itRoleExecPolicyARN t, ''role_exec_policy='' @ show_change change]) (\<lambda>_.
     seq (ensure_role env c t) (\<lambda>_.
     ensure_profile env c t)))"

section \<open>The user\<close>

definition bound_user :: "('w, 'j) iam_env \<Rightarrow> 'w iamAPI option \<Rightarrow> awsIAMTarget \<Rightarrow> IAMUser option \<Rightarrow> (provider_error, string, 'w timed) prog" where
  "bound_user env c t user =
     (case user of
        None \<Rightarrow> seq (CreateUser c (itUser t) (itUserPolicyARN t) (itManagedTags t)) (\<lambda>_. ok ''created'')
      | Some u \<Rightarrow>
          (let managed = awsIAMManaged (iuTags u); boundary = iuPermissionsBoundary u in
           seq (if \<not> managed
                then Fprintf (ieStderr env) [''note: user '' @ itUser t @ '' predates 'etcd-infra aws iam create-user' (no '' @ awsIAMManagedByTag @
                       '' tag); adopting it'']
                else ok ()) (\<lambda>_.
           seq (if boundary = itUserPolicyARN t then ok ()
                else if boundary = [] then SetUserPermissionsBoundary c (itUser t) (itUserPolicyARN t)
                else if \<not> managed
                then fail (PMsg (''user '' @ itUser t @ '' already has permissions boundary '' @ boundary @
                       ''; refusing to replace it (it may be stricter). Use another --user, or remove it by hand''))
                else SetUserPermissionsBoundary c (itUser t) (itUserPolicyARN t)) (\<lambda>_.
           ok ''existing''))))"

definition awsIAMEnsureUser :: "('w, 'j) iam_env \<Rightarrow> 'w iamAPI option \<Rightarrow> awsIAMTarget \<Rightarrow> (provider_error, unit, 'w timed) prog" where
  "awsIAMEnsureUser env c t =
     seq (EnsureManagedPolicy (ieJson env) c (itUserPolicyARN t) (itUserPolicyDocument t)
            ''etcd-infra: least-privilege permissions (and boundary) of the etcd-infra IAM user'' (itManagedTags t)) (\<lambda>change.
     seq (Fprintf (ieStdout env) [''user_policy_arn='' @ itUserPolicyARN t, ''user_policy='' @ show_change change]) (\<lambda>_.
     seq (User c (itUser t)) (\<lambda>user.
     seq (bound_user env c t user) (\<lambda>userState.
     seq (UserPolicyARNs c (itUser t)) (\<lambda>attached.
     seq (if itUserPolicyARN t \<in> set attached then ok () else AttachUserPolicy c (itUser t) (itUserPolicyARN t)) (\<lambda>_.
     seq (let extra = filter (\<lambda>arn. arn \<noteq> itUserPolicyARN t) attached in
          if extra \<noteq> []
          then Fprintf (ieStderr env) [''note: user '' @ itUser t @ '' also has '' @ Join '', '' extra @
                 '' attached; the permissions boundary still caps it at '' @ awsIAMUserPolicyName]
          else ok ()) (\<lambda>_.
     Fprintf (ieStdout env) [''user='' @ itUser t, ''user_state='' @ userState, ''permissions_boundary='' @ itUserPolicyARN t])))))))"

section \<open>The command\<close>

definition new_access_key :: "('w, 'j) iam_env \<Rightarrow> 'w iamAPI option \<Rightarrow> awsIAMTarget \<Rightarrow> (provider_error, unit, 'w timed) prog" where
  "new_access_key env c t =
     seq (AccessKeyIDs c (itUser t)) (\<lambda>keys.
     seq (demand (length keys < awsIAMMaxAccessKeys)
            (PMsg (''user '' @ itUser t @ '' already has '' @ show_nat (length keys) @
               '' access keys (IAM maximum); delete one (aws iam delete-access-key --user-name '' @ itUser t @ '' --access-key-id <id>) and rerun''))) (\<lambda>_.
     seq (CreateAccessKey c (itUser t)) (\<lambda>key.
     seq (Fprintf (ieStdout env) [''access_key_id='' @ akID key]) (\<lambda>_.
     seq (Fprintf (ieStdout env) [''secret_access_key='' @ akSecret key]) (\<lambda>_.
     Fprintf (ieStderr env) [''the secret access key is shown only now; store it, e.g.:'',
       ''  aws configure set aws_access_key_id '' @ akID key @ '' --profile '' @ itUser t,
       ''  aws configure set aws_secret_access_key <secret> --profile '' @ itUser t])))))"

definition other_than_caller :: "awsIAMTarget \<Rightarrow> IAMUser option \<Rightarrow> bool" where
  "other_than_caller t user = (case user of None \<Rightarrow> True | Some u \<Rightarrow> iuARN u \<noteq> itCallerARN t)"

definition awsIAMCreateUser :: "('w, 'j) iam_env \<Rightarrow> 'w iamAPI option \<Rightarrow> awsIAMTarget \<Rightarrow> (provider_error, unit, 'w timed) prog" where
  "awsIAMCreateUser env c t =
     seq (User c (itUser t)) (\<lambda>user.
     seq (demand (other_than_caller t user)
            (PMsg (''the current credentials are user '' @ itUser t @
               '' itself; run 'etcd-infra aws iam create-user' with administrator credentials as another identity''))) (\<lambda>_.
     seq (Fprintf (ieStdout env) [''account_id='' @ itAccount t]) (\<lambda>_.
     seq (if itIncludeRole t then awsIAMEnsureRole env c t else ok ()) (\<lambda>_.
     seq (awsIAMEnsureUser env c t) (\<lambda>_.
     seq (if itCreateAccessKey t then new_access_key env c t else ok ()) (\<lambda>_.
     Fprintf (ieStderr env) [''IAM changes take a few seconds to propagate. Then run etcd-infra as the user, e.g.:'',
       ''  export AWS_PROFILE='' @ itUser t @ (if itIncludeRole t then '' ETCD_INFRA_AWS_INSTANCE_PROFILE='' @ awsIAMRoleName else [])]))))))"

definition awsIAMPlan :: "awsIAMOptions \<Rightarrow> string list" where
  "awsIAMPlan opts =
     [''plan: IAM setup in the account of the current (administrator) credentials''] @
     (if ioRole opts
      then [''  policy '' @ awsIAMRoleExecPolicyName @ '' (hack/aws-ssm-role-exec.iam-policy.json): create, or update to the file's document'',
            ''  role + instance profile '' @ awsIAMRoleName @ '': EC2 trust; attach '' @ Join '', '' awsIAMRoleAWSPolicies @ '', '' @ awsIAMRoleExecPolicyName]
      else []) @
     [''  policy '' @ awsIAMUserPolicyName @ '' (hack/aws-e2e.iam-policy.json): create, or update to the file's document'',
      ''  user '' @ ioUser opts @ '': attach '' @ awsIAMUserPolicyName @ '' and set it as permissions boundary''] @
     (if ioAccessKey opts then [''  access key for '' @ ioUser opts @ '': create and print once''] else []) @
     [''  created resources are tagged '' @ awsIAMManagedByTag @ ''='' @ awsIAMManagedByValue, ''rerun with --dry-run=false to apply'']"

definition runAWSIAMCreateUser :: "iam_documents \<Rightarrow> 'w iam_config \<Rightarrow> ('w, 'j) iam_env \<Rightarrow> awsIAMOptions \<Rightarrow> (provider_error, unit, 'w timed) prog" where
  "runAWSIAMCreateUser docs load env opts =
     seq (check (map_option PMsg (validateAWSIAMOptions opts))) (\<lambda>_.
     if ioDryRun opts then Fprintf (ieStdout env) (awsIAMPlan opts)
     else seq (newAWSIAMSession load (ioRegion opts)) (\<lambda>(c, iid). awsIAMCreateUser env c (newAWSIAMTarget docs iid opts)))"

end
