(* ===== verification/IamSafety.thy ===== *)
theory IamSafety
  imports AwsIam Effects
begin

text \<open>
  What \<^verbatim>\<open>aws iam create-user\<close> does to an account. \<open>noted_iam\<close> and \<open>noted_env\<close> instrument the IAM client and the writers
  with the log of \<open>Effects\<close>: what IAM answered, what was asked of it, what was printed. The theorems say when each change
  is made and what holds after a run that succeeds: the user is bounded by its policy before it gets any permission or key.
\<close>

section \<open>The log\<close>

datatype iam_event = SawUser string "IAMUser option" | SawProfile string "string list" | SawVersions string "policy_version list"
  | SawDocument string string "string option" | SawUserPolicies string "string list" | SawRolePolicies string "string list" | SawKeys string "string list"
  | MadeUser user_input bool | BoundUser string string bool | AttachedUser string string bool | MadeKey string bool
  | MadeRole role_input | AttachedRole string string bool | MadeProfile string "tag list" | FilledProfile string string bool
  | MadePolicy policy_input | MadeVersion version_input bool | DroppedVersion string string | Printed string

definition accepted :: "'e + 'a \<Rightarrow> bool" where "accepted r = (case r of Inl _ \<Rightarrow> False | Inr _ \<Rightarrow> True)"

lemma accepted_simps [simp]: "\<not> accepted (Inl e)" "accepted (Inr x)" by (simp_all add: accepted_def)

text \<open>The decoded document of a policy version.\<close>

definition read_document :: "string \<times> string \<Rightarrow> api_error + string option option \<Rightarrow> iam_event list" where
  "read_document x r = (case r of Inl _ \<Rightarrow> []
     | Inr d \<Rightarrow> [SawDocument (fst x) (snd x) (case d of None \<Rightarrow> None | Some y \<Rightarrow> PathUnescape (ToString y))])"

text \<open>An error that says that there is no such thing counts as that answer.\<close>

definition told :: "('o option \<Rightarrow> iam_event) \<Rightarrow> api_error + 'o \<Rightarrow> iam_event list" where
  "told ev r = (case r of Inl e \<Rightarrow> if isIAMNotFound e then [ev None] else [] | Inr out \<Rightarrow> [ev (Some out)])"

definition paged :: "('x list \<Rightarrow> iam_event) \<Rightarrow> api_error + 'x page \<Rightarrow> iam_event list" where
  "paged ev r = (case r of Inl _ \<Rightarrow> [] | Inr p \<Rightarrow> [ev (fst p)])"

definition noted_iam :: "'w iamAPI \<Rightarrow> ('w \<times> iam_event list) iamAPI" where
  "noted_iam i =
     \<lparr>imGetPolicy = unnoted (imGetPolicy i), imCreatePolicy = noting (\<lambda>x _. [MadePolicy x]) (imCreatePolicy i),
      imGetPolicyVersion = noting read_document (imGetPolicyVersion i),
      imListPolicyVersions = noting (\<lambda>x. paged (SawVersions (fst x))) (imListPolicyVersions i),
      imCreatePolicyVersion = noting (\<lambda>x r. [MadeVersion x (accepted r)]) (imCreatePolicyVersion i),
      imDeletePolicyVersion = noting (\<lambda>x _. [DroppedVersion (fst x) (snd x)]) (imDeletePolicyVersion i),
      imGetRole = unnoted (imGetRole i), imCreateRole = noting (\<lambda>x _. [MadeRole x]) (imCreateRole i),
      imAttachRolePolicy = noting (\<lambda>x r. [AttachedRole (fst x) (snd x) (accepted r)]) (imAttachRolePolicy i),
      imListAttachedRolePolicies = noting (\<lambda>x. paged (\<lambda>p. SawRolePolicies (fst x) (map ToString p))) (imListAttachedRolePolicies i),
      imGetInstanceProfile = noting (\<lambda>n. told (\<lambda>p. SawProfile n (case p of None \<Rightarrow> [] | Some q \<Rightarrow> map ToString (pfRoles q)))) (imGetInstanceProfile i),
      imCreateInstanceProfile = noting (\<lambda>x _. [MadeProfile (fst x) (snd x)]) (imCreateInstanceProfile i),
      imAddRoleToInstanceProfile = noting (\<lambda>x r. [FilledProfile (fst x) (snd x) (accepted r)]) (imAddRoleToInstanceProfile i),
      imGetUser = noting (\<lambda>n. told (\<lambda>u. SawUser n (map_option user_of u))) (imGetUser i),
      imCreateUser = noting (\<lambda>x r. [MadeUser x (accepted r)]) (imCreateUser i),
      imAttachUserPolicy = noting (\<lambda>x r. [AttachedUser (fst x) (snd x) (accepted r)]) (imAttachUserPolicy i),
      imListAttachedUserPolicies = noting (\<lambda>x. paged (\<lambda>p. SawUserPolicies (fst x) (map ToString p))) (imListAttachedUserPolicies i),
      imPutUserPermissionsBoundary = noting (\<lambda>x r. [BoundUser (fst x) (snd x) (accepted r)]) (imPutUserPermissionsBoundary i),
      imListAccessKeys = noting (\<lambda>x. paged (\<lambda>p. SawKeys (fst x) (map ToString p))) (imListAccessKeys i),
      imCreateAccessKey = noting (\<lambda>n r. [MadeKey n (accepted r)]) (imCreateAccessKey i)\<rparr>"

definition noted_env :: "('w, 'j) iam_env \<Rightarrow> ('w \<times> iam_event list, 'j) iam_env" where
  "noted_env env = \<lparr>ieJson = ieJson env, ieStdout = noting (\<lambda>x _. [Printed x]) (ieStdout env), ieStderr = unnoted (ieStderr env)\<rparr>"

section \<open>When a change is justified\<close>

text \<open>What the log last told about the boundary of a user, about the user and about the roles of a profile, and the items of
  the pages it ends with.\<close>

definition latest :: "(iam_event \<Rightarrow> 'x option) \<Rightarrow> iam_event list \<Rightarrow> 'x option" where
  "latest f es = fold (\<lambda>e b. case f e of None \<Rightarrow> b | Some x \<Rightarrow> Some x) es None"

definition trailing :: "(iam_event \<Rightarrow> 'x list option) \<Rightarrow> iam_event list \<Rightarrow> 'x list" where
  "trailing f es = concat (rev (map (\<lambda>e. the (f e)) (takeWhile (\<lambda>e. f e \<noteq> None) (rev es))))"

fun told_boundary :: "string \<Rightarrow> iam_event \<Rightarrow> string option" where
  "told_boundary n (SawUser m (Some u)) = (if m = n then Some (iuPermissionsBoundary u) else None)"
| "told_boundary n (MadeUser x True) = (if uiUserName x = n then Some (uiPermissionsBoundary x) else None)"
| "told_boundary n (BoundUser m b True) = (if m = n then Some b else None)"
| "told_boundary n _ = None"

fun told_user :: "string \<Rightarrow> iam_event \<Rightarrow> IAMUser option option" where
  "told_user n (SawUser m u) = (if m = n then Some u else None)"
| "told_user n _ = None"

fun told_roles :: "string \<Rightarrow> iam_event \<Rightarrow> string list option" where
  "told_roles n (SawProfile m rs) = (if m = n then Some rs else None)"
| "told_roles n _ = None"

fun told_versions :: "string \<Rightarrow> iam_event \<Rightarrow> policy_version list option" where
  "told_versions arn (SawVersions a vs) = (if a = arn then Some vs else None)"
| "told_versions arn _ = None"

fun told_keys :: "string \<Rightarrow> iam_event \<Rightarrow> string list option" where
  "told_keys n (SawKeys m ks) = (if m = n then Some ks else None)"
| "told_keys n _ = None"

text \<open>A version that may go: IAM stores no more than five, it is not the default one, and no other such version is older.\<close>

definition expendable :: "policy_version list \<Rightarrow> string \<Rightarrow> bool" where
  "expendable vs v \<longleftrightarrow> 5 \<le> length vs \<and> (\<exists>x \<in> set vs. \<not> pvIsDefaultVersion x \<and> ToString (pvVersionId x) = v \<and>
     (\<forall>y \<in> set vs. \<not> pvIsDefaultVersion y \<longrightarrow> ToTime (pvCreateDate x) \<le> ToTime (pvCreateDate y)))"

definition targeted :: "awsIAMTarget \<Rightarrow> (string \<times> string) set" where
  "targeted t = {(itUserPolicyARN t, itUserPolicyDocument t), (itRoleExecPolicyARN t, itRoleExecPolicyDoc t)}"

definition role_policies :: "awsIAMTarget \<Rightarrow> string list" where
  "role_policies t = itRoleAWSPolicyARNs t @ [itRoleExecPolicyARN t]"

text \<open>The command looked first whether it runs as the user itself.\<close>

definition foreign :: "awsIAMTarget \<Rightarrow> iam_event list \<Rightarrow> bool" where
  "foreign t es \<longleftrightarrow> (\<exists>u rest. es = SawUser (itUser t) u # rest \<and> other_than_caller t u)"

fun is_change :: "iam_event \<Rightarrow> bool" where
  "is_change (SawUser _ _) = False" | "is_change (SawProfile _ _) = False" | "is_change (SawVersions _ _) = False"
| "is_change (SawDocument _ _ _) = False" | "is_change (SawUserPolicies _ _) = False" | "is_change (SawRolePolicies _ _) = False"
| "is_change (SawKeys _ _) = False" | "is_change _ = True"

fun warranted_change :: "awsIAMTarget \<Rightarrow> iam_event list \<Rightarrow> iam_event \<Rightarrow> bool" where
  "warranted_change t es (MadeUser x _) \<longleftrightarrow> latest (told_user (itUser t)) es = Some None \<and> uiUserName x = itUser t \<and>
     uiPermissionsBoundary x = itUserPolicyARN t"
| "warranted_change t es (BoundUser n b _) \<longleftrightarrow> n = itUser t \<and> b = itUserPolicyARN t \<and>
     (\<exists>u. latest (told_user n) es = Some (Some u) \<and> (iuPermissionsBoundary u = [] \<or> awsIAMManaged (iuTags u)))"
| "warranted_change t es (AttachedUser n p _) \<longleftrightarrow> n = itUser t \<and> p = itUserPolicyARN t \<and> latest (told_boundary n) es = Some p"
| "warranted_change t es (MadeKey n _) \<longleftrightarrow> n = itUser t \<and> itCreateAccessKey t \<and> length (trailing (told_keys n) es) < 2 \<and>
     latest (told_boundary n) es = Some (itUserPolicyARN t)"
| "warranted_change t es (MadeRole x) \<longleftrightarrow> itIncludeRole t \<and> riRoleName x = awsIAMRoleName \<and> riAssumeRolePolicyDocument x = awsIAMRoleTrustPolicy"
| "warranted_change t es (AttachedRole n p _) \<longleftrightarrow> itIncludeRole t \<and> n = awsIAMRoleName \<and> p \<in> set (role_policies t)"
| "warranted_change t es (MadeProfile n _) \<longleftrightarrow> itIncludeRole t \<and> n = awsIAMRoleName \<and> latest (told_roles n) es = Some []"
| "warranted_change t es (FilledProfile n r _) \<longleftrightarrow> itIncludeRole t \<and> n = awsIAMRoleName \<and> r = awsIAMRoleName \<and> latest (told_roles n) es = Some []"
| "warranted_change t es (MadePolicy x) \<longleftrightarrow> (\<exists>arn. (arn, piPolicyDocument x) \<in> targeted t \<and> piPolicyName x = policy_name arn)"
| "warranted_change t es (MadeVersion x _) \<longleftrightarrow> (viPolicyArn x, viPolicyDocument x) \<in> targeted t \<and> viSetAsDefault x"
| "warranted_change t es (DroppedVersion arn v) \<longleftrightarrow> arn \<in> fst ` targeted t \<and> expendable (trailing (told_versions arn) es) v"
| "warranted_change t es _ = True"

definition justified :: "awsIAMTarget \<Rightarrow> iam_event list \<Rightarrow> iam_event \<Rightarrow> bool" where
  "justified t es e \<longleftrightarrow> (is_change e \<longrightarrow> foreign t es) \<and> warranted_change t es e"

section \<open>Logs\<close>

lemma latest_append: "latest f (es @ l) = (case latest f l of None \<Rightarrow> latest f es | Some x \<Rightarrow> Some x)"
  by (induction l rule: rev_induct) (auto simp: latest_def split: option.splits)

lemma latest_simps [simp]: "latest f [] = None" "latest f [e] = f e"
  by (auto simp: latest_def split: option.split)

lemma latest_None: "(\<And>e. e \<in> set l \<Longrightarrow> f e = None) \<Longrightarrow> latest f l = None"
  by (induction l rule: rev_induct) (auto simp: latest_append)

lemma latest_kept: "(\<And>e. e \<in> set l \<Longrightarrow> f e = None) \<Longrightarrow> latest f (es @ l) = latest f es"
  by (simp add: latest_append latest_None)

lemma trailing_pages: "trailing f es = [] \<Longrightarrow> (\<And>p. f (ev p) = Some p) \<Longrightarrow> trailing f (es @ map ev ps) = concat ps"
proof (induction ps rule: rev_induct)
  case (snoc p ps)
  from snoc.prems snoc.IH show ?case by (simp add: trailing_def)
qed simp

lemma trailing_snoc: "f e = None \<Longrightarrow> trailing f (es @ [e]) = []"
  by (simp add: trailing_def)

lemma foreign_append: "foreign t es \<Longrightarrow> foreign t (es @ l)"
  by (auto simp: foreign_def)

section \<open>Single operations\<close>

lemma traces_wrap_call:
  assumes "\<And>r. chain J es (ev x r) \<and> A (map_sum g id r) (ev x r)"
  shows "traces J A (wrap g (call (noting ev f) x)) es"
  by (rule traces_wrap [OF traces_noting [where A = "\<lambda>r l. l = ev x r \<and> A (map_sum g id r) l"]]) (use assms in auto)

lemma traces_demand: "(b \<Longrightarrow> A (Inr ()) []) \<Longrightarrow> (\<not> b \<Longrightarrow> A (Inl e) []) \<Longrightarrow> traces J A (demand b e) es"
  and traces_check: "(c = None \<Longrightarrow> A (Inr ()) []) \<Longrightarrow> (\<And>x. c = Some x \<Longrightarrow> A (Inl x) []) \<Longrightarrow> traces J A (check c) es"
  by (auto simp: demand_def check_def intro: traces_ok traces_fail split: option.split)

text \<open>The pages of a list are all that reading it notes.\<close>

definition read_pages :: "('x list \<Rightarrow> iam_event) \<Rightarrow> 'e + 'x list \<Rightarrow> iam_event list \<Rightarrow> bool" where
  "read_pages ev r l \<longleftrightarrow> (\<exists>ps. l = map ev ps \<and> (\<forall>xs. r = Inr xs \<longrightarrow> concat ps = xs))"

lemma traces_all_pages:
  assumes J: "\<And>es p. J es (ev p)" and h: "\<And>x. fst x = arg \<Longrightarrow> h x = ev"
  shows "traces J (read_pages ev) (all_pages (noting (\<lambda>x. paged (h x)) f) msg arg) es"
  unfolding all_pages_def
proof (rule traces_iterate [where I = "\<lambda>mx l. \<exists>ps. l = map ev ps \<and> concat ps = snd mx"])
  show "\<exists>ps. [] = map ev ps \<and> concat ps = snd (None, [])" by simp
  fix mx :: "string option \<times> 'a list" and l
  assume "\<exists>ps. l = map ev ps \<and> concat ps = snd mx"
  then obtain ps where ps: "l = map ev ps" "concat ps = snd mx" by blast
  show "traces J (\<lambda>r l'. case r of Inl y \<Rightarrow> read_pages ev y (l @ l') | Inr z \<Rightarrow> \<exists>ps. l @ l' = map ev ps \<and> concat ps = snd z)
      (next_page (noting (\<lambda>x. paged (h x)) f) msg arg mx) (es @ l)"
    unfolding next_page_def
  proof (rule traces_attempt [OF traces_noting [where A = "\<lambda>r l'. l' = paged ev r"]])
    fix r :: "api_error + 'a page"
    show "chain J (es @ l) (paged (h (arg, fst mx)) r) \<and> paged (h (arg, fst mx)) r = paged ev r"
      using J h by (auto simp: paged_def split: sum.split)
    fix l' :: "iam_event list"
    assume l': "l' = paged ev r"
    show "traces J (\<lambda>r la. case r of Inl y \<Rightarrow> read_pages ev y (l @ l' @ la) | Inr z \<Rightarrow> \<exists>ps. l @ l' @ la = map ev ps \<and> concat ps = snd z)
        (case r of Inl e \<Rightarrow> fail (Inl (PApi msg e))
         | Inr (xs, marker) \<Rightarrow> if ToString marker = [] then fail (Inr (snd mx @ xs)) else ok (marker, snd mx @ xs)) ((es @ l) @ l')"
    proof (cases r)
      case (Inl e)
      then show ?thesis using ps l' by (auto simp: paged_def read_pages_def intro!: traces_fail)
    next
      case (Inr p)
      have "l @ l' = map ev (ps @ [fst p])" "concat (ps @ [fst p]) = snd mx @ fst p" using ps l' Inr by (simp_all add: paged_def)
      then have "\<exists>qs. l @ l' = map ev qs \<and> concat qs = snd mx @ fst p" by blast
      then show ?thesis using Inr by (auto simp: read_pages_def split: prod.split intro!: traces_fail traces_ok)
    qed
  qed
qed

section \<open>Policies\<close>

definition policy_events :: "iam_event set" where
  "policy_events = {e. case e of SawVersions _ _ \<Rightarrow> True | SawDocument _ _ _ \<Rightarrow> True | MadePolicy _ \<Rightarrow> True | MadeVersion _ _ \<Rightarrow> True
     | DroppedVersion _ _ \<Rightarrow> True | _ \<Rightarrow> False}"

fun policy_change_ok :: "string \<Rightarrow> string \<Rightarrow> iam_event list \<Rightarrow> iam_event \<Rightarrow> bool" where
  "policy_change_ok arn doc es (MadePolicy x) \<longleftrightarrow> piPolicyDocument x = doc \<and> piPolicyName x = policy_name arn"
| "policy_change_ok arn doc es (MadeVersion x _) \<longleftrightarrow> viPolicyArn x = arn \<and> viPolicyDocument x = doc \<and> viSetAsDefault x"
| "policy_change_ok arn doc es (DroppedVersion a v) \<longleftrightarrow> a = arn \<and> expendable (trailing (told_versions arn) es) v"
| "policy_change_ok arn doc es (SawVersions _ _) \<longleftrightarrow> True"
| "policy_change_ok arn doc es (SawDocument _ _ _) \<longleftrightarrow> True"
| "policy_change_ok arn doc es _ \<longleftrightarrow> False"

text \<open>What the log of a run that succeeded says of its answer.\<close>

fun policy_outcome :: "'j json_codec \<Rightarrow> string \<Rightarrow> string \<Rightarrow> policy_change \<Rightarrow> iam_event list \<Rightarrow> bool" where
  "policy_outcome js arn doc PolicyUnchanged l \<longleftrightarrow>
     (\<exists>v current. l = [SawDocument arn v (Some current)] \<and> equalPolicyDocuments js current doc = Inr True)"
| "policy_outcome js arn doc PolicyCreated l \<longleftrightarrow> (\<exists>x. l = [MadePolicy x])"
| "policy_outcome js arn doc PolicyUpdated l \<longleftrightarrow>
     (\<exists>v current l' x. l = SawDocument arn v (Some current) # l' @ [MadeVersion x True] \<and>
        equalPolicyDocuments js current doc = Inr False \<and> (\<forall>y b. MadeVersion y b \<notin> set l'))"

lemma chain_mono: "chain J es l \<Longrightarrow> (\<And>e l'. J (es @ l') e \<Longrightarrow> K (es @ l') e) \<Longrightarrow> chain K es l"
proof (induction l arbitrary: es)
  case (Cons e l)
  have "K es e" using Cons.prems(1) Cons.prems(2) [of "[]" e] by simp
  moreover have "chain K (es @ [e]) l" using Cons.prems Cons.IH [of "es @ [e]"] by simp
  ultimately show ?case by simp
qed simp

lemma traces_weaken: "traces J A m es \<Longrightarrow> (\<And>e l. J (es @ l) e \<Longrightarrow> K (es @ l) e) \<Longrightarrow> traces K A m es"
  unfolding traces_def by (blast intro: wp_mono chain_mono)

lemma oldest_least: "oldest v vs \<in> set (v # vs) \<and> (\<forall>y \<in> set (v # vs). ToTime (pvCreateDate (oldest v vs)) \<le> ToTime (pvCreateDate y))"
proof (induction vs arbitrary: v)
  case (Cons x vs)
  from Cons.IH [of v] Cons.IH [of x] show ?case by (cases "ToTime (pvCreateDate x) < ToTime (pvCreateDate v)") force+
qed simp

lemma expendable_oldest:
  assumes "\<not> length xs < maxPolicyVersions" "filter (\<lambda>v. \<not> pvIsDefaultVersion v) xs = v # vs"
  shows "expendable xs (ToString (pvVersionId (oldest v vs)))"
proof -
  have eq: "set (v # vs) = {y \<in> set xs. \<not> pvIsDefaultVersion y}" unfolding assms(2) [symmetric] by simp
  show ?thesis
    using oldest_least [of v vs] assms(1) unfolding expendable_def eq by (auto simp: maxPolicyVersions_def intro!: bexI [of _ "oldest v vs"])
qed

lemma noted_iam_sel [simp]:
  "imGetPolicy (noted_iam i) = unnoted (imGetPolicy i)" "imCreatePolicy (noted_iam i) = noting (\<lambda>x _. [MadePolicy x]) (imCreatePolicy i)"
  "imGetPolicyVersion (noted_iam i) = noting read_document (imGetPolicyVersion i)"
  "imListPolicyVersions (noted_iam i) = noting (\<lambda>x. paged (SawVersions (fst x))) (imListPolicyVersions i)"
  "imCreatePolicyVersion (noted_iam i) = noting (\<lambda>x r. [MadeVersion x (accepted r)]) (imCreatePolicyVersion i)"
  "imDeletePolicyVersion (noted_iam i) = noting (\<lambda>x _. [DroppedVersion (fst x) (snd x)]) (imDeletePolicyVersion i)"
  by (simp_all add: noted_iam_def)

lemma traces_prune:
  assumes "trailing (told_versions arn) es = []"
  shows "traces (policy_change_ok arn doc) (\<lambda>r l. \<forall>y b. MadeVersion y b \<notin> set l) (pruneOldestPolicyVersion (noted_iam i) arn) es"
  unfolding pruneOldestPolicyVersion_def policyVersions_def noted_iam_sel
proof (rule traces_seq [OF traces_all_pages [where ev = "SawVersions arn"]])
  fix xs :: "policy_version list" and l
  assume "read_pages (SawVersions arn) (Inr xs :: provider_error + _) l"
  then obtain ps where ps: "l = map (SawVersions arn) ps" "concat ps = xs" by (auto simp: read_pages_def)
  have seen: "trailing (told_versions arn) (es @ l) = xs" unfolding ps by (rule trailing_pages [OF assms, THEN trans]) (simp_all add: ps(2))
  have none: "\<forall>y b. MadeVersion y b \<notin> set l" using ps by auto
  show "traces (policy_change_ok arn doc) (\<lambda>r l'. \<forall>y b. MadeVersion y b \<notin> set (l @ l'))
     (if length xs < maxPolicyVersions then ok ()
      else case filter (\<lambda>v. \<not> pvIsDefaultVersion v) xs of
        [] \<Rightarrow> fail (PMsg (''aws: policy '' @ arn @ '' has '' @ show_nat (length xs) @ '' versions and none is deletable''))
      | v # vs \<Rightarrow> deletePolicyVersion (noted_iam i) arn (ToString (pvVersionId (oldest v vs)))) (es @ l)"
  proof (cases "\<not> length xs < maxPolicyVersions \<and> filter (\<lambda>v. \<not> pvIsDefaultVersion v) xs \<noteq> []")
    case False
    then show ?thesis using none by (auto intro!: traces_ok traces_fail)
  next
    case True
    then obtain v vs where v: "filter (\<lambda>v. \<not> pvIsDefaultVersion v) xs = v # vs" by (cases "filter (\<lambda>v. \<not> pvIsDefaultVersion v) xs") auto
    have "expendable xs (ToString (pvVersionId (oldest v vs)))" using True v by (blast intro: expendable_oldest)
    then have "traces (policy_change_ok arn doc) (\<lambda>r l'. \<forall>y b. MadeVersion y b \<notin> set (l @ l'))
        (deletePolicyVersion (noted_iam i) arn (ToString (pvVersionId (oldest v vs)))) (es @ l)"
      unfolding deletePolicyVersion_def noted_iam_sel using none
      by (intro traces_attempt [OF traces_noting [where A = "\<lambda>r l. \<forall>y b. MadeVersion y b \<notin> set l"]])
        (auto simp: seen intro!: traces_ok traces_fail split: sum.split)
    then show ?thesis using True v by simp
  qed
qed (auto simp: read_pages_def)

lemma traces_document:
  "traces (policy_change_ok arn doc) (\<lambda>r l. \<forall>current. r = Inr current \<longrightarrow> l = [SawDocument arn v (Some current)]) (policyDocument (noted_iam i) arn v) es"
  unfolding policyDocument_def noted_iam_sel
  by (rule traces_seq [OF traces_wrap_call [where A = "\<lambda>r l. \<forall>d. r = Inr d \<longrightarrow> l = read_document (arn, v) (Inr d)"]])
    (auto simp: read_document_def intro!: traces_ok traces_fail split: option.split sum.splits)

lemma traces_update:
  assumes "trailing (told_versions arn) es = []"
  shows "traces (policy_change_ok arn doc) (\<lambda>r l. \<forall>c. r = Inr c \<longrightarrow> c = PolicyUpdated \<and>
     (\<exists>l' x. l = l' @ [MadeVersion x True] \<and> (\<forall>y b. MadeVersion y b \<notin> set l'))) (update_policy (noted_iam i) arn doc) es"
  unfolding update_policy_def noted_iam_sel
proof (rule traces_seq [OF traces_prune [OF assms]])
  fix l :: "iam_event list"
  assume l: "\<forall>y b. MadeVersion y b \<notin> set l"
  let ?x = "\<lparr>viPolicyArn = arn, viPolicyDocument = doc, viSetAsDefault = True\<rparr>"
  show "traces (policy_change_ok arn doc) (\<lambda>r l'. \<forall>c. r = Inr c \<longrightarrow> c = PolicyUpdated \<and>
       (\<exists>k x. l @ l' = k @ [MadeVersion x True] \<and> (\<forall>y b. MadeVersion y b \<notin> set k)))
     (seq (wrap (PApi (''aws: update policy '' @ arn)) (call (noting (\<lambda>x r. [MadeVersion x (accepted r)]) (imCreatePolicyVersion i)) ?x))
       (\<lambda>_. ok PolicyUpdated)) (es @ l)"
    by (rule traces_seq [OF traces_wrap_call [where A = "\<lambda>r l. l = [MadeVersion ?x (accepted r)]"]])
      (use l in \<open>auto simp: accepted_def intro!: traces_ok split: sum.splits\<close>)
qed simp

lemma traces_policy:
  "traces (policy_change_ok arn doc) (\<lambda>r l. \<forall>c. r = Inr c \<longrightarrow> policy_outcome js arn doc c l)
     (EnsureManagedPolicy js (map_option noted_iam iam) arn doc description tags) es"
  unfolding EnsureManagedPolicy_def
proof (rule traces_client)
  fix i
  have created: "traces (policy_change_ok arn doc) (\<lambda>r l. \<forall>c. r = Inr c \<longrightarrow> policy_outcome js arn doc c l)
      (seq (wrap (PApi (''aws: create policy '' @ policy_name arn)) (call (imCreatePolicy (noted_iam i))
         \<lparr>piPolicyName = policy_name arn, piPolicyDocument = doc, piDescription = description, piTags = iamTags tags\<rparr>)) (\<lambda>_. ok PolicyCreated)) es"
    for es
    unfolding noted_iam_sel
    by (rule traces_seq [OF traces_wrap_call [where A = "\<lambda>r l. \<exists>x. l = [MadePolicy x]"]]) (auto intro!: traces_ok)
  have changed: "traces (policy_change_ok arn doc) (\<lambda>r l. \<forall>c. r = Inr c \<longrightarrow> policy_outcome js arn doc c l)
      (seq (policyDocument (noted_iam i) arn v) (\<lambda>current. case equalPolicyDocuments js current doc of
         Inl e \<Rightarrow> fail e | Inr same \<Rightarrow> if same then ok PolicyUnchanged else update_policy (noted_iam i) arn doc)) es" for v es
  proof (rule traces_seq [OF traces_document])
    fix current l
    assume "\<forall>x. (Inr current :: provider_error + string) = Inr x \<longrightarrow> l = [SawDocument arn v (Some x)]"
    then have l: "l = [SawDocument arn v (Some current)]" by simp
    have "traces (policy_change_ok arn doc) (\<lambda>r l'. \<forall>c. r = Inr c \<longrightarrow> policy_outcome js arn doc c (l @ l')) (update_policy (noted_iam i) arn doc) (es @ l)"
      if "equalPolicyDocuments js current doc = Inr False"
      by (rule traces_mono [OF traces_update]) (use l that in \<open>auto simp: trailing_snoc\<close>)
    then show "traces (policy_change_ok arn doc) (\<lambda>r l'. \<forall>c. r = Inr c \<longrightarrow> policy_outcome js arn doc c (l @ l'))
        (case equalPolicyDocuments js current doc of Inl e \<Rightarrow> fail e
         | Inr same \<Rightarrow> if same then ok PolicyUnchanged else update_policy (noted_iam i) arn doc) (es @ l)"
      using l by (auto intro!: traces_ok traces_fail split: sum.split)
  qed simp
  have found: "traces (policy_change_ok arn doc) (\<lambda>r l. l = []) (managedPolicy (noted_iam i) arn) es" for es
    unfolding managedPolicy_def noted_iam_sel
    by (rule traces_attempt [OF traces_noting [where A = "\<lambda>r l. l = []"]]) (auto intro!: traces_ok traces_fail split: sum.split option.split)
  show "traces (policy_change_ok arn doc) (\<lambda>r l. \<forall>c. r = Inr c \<longrightarrow> policy_outcome js arn doc c l)
     (if \<not> jsValid js doc then fail (PMsg ''aws: policy document is not valid JSON'')
      else seq (managedPolicy (noted_iam i) arn) (\<lambda>existing. case existing of
        None \<Rightarrow> seq (wrap (PApi (''aws: create policy '' @ policy_name arn)) (call (imCreatePolicy (noted_iam i))
           \<lparr>piPolicyName = policy_name arn, piPolicyDocument = doc, piDescription = description, piTags = iamTags tags\<rparr>)) (\<lambda>_. ok PolicyCreated)
      | Some p \<Rightarrow> seq (policyDocument (noted_iam i) arn (ipDefaultVersion p)) (\<lambda>current. case equalPolicyDocuments js current doc of
           Inl e \<Rightarrow> fail e | Inr same \<Rightarrow> if same then ok PolicyUnchanged else update_policy (noted_iam i) arn doc))) es"
    using created changed by (auto intro!: traces_fail traces_seq [OF found] split: option.split)
qed simp

section \<open>Operations of the command\<close>

lemma noted_iam_sel2 [simp]:
  "imGetRole (noted_iam i) = unnoted (imGetRole i)" "imCreateRole (noted_iam i) = noting (\<lambda>x _. [MadeRole x]) (imCreateRole i)"
  "imAttachRolePolicy (noted_iam i) = noting (\<lambda>x r. [AttachedRole (fst x) (snd x) (accepted r)]) (imAttachRolePolicy i)"
  "imListAttachedRolePolicies (noted_iam i) = noting (\<lambda>x. paged (\<lambda>p. SawRolePolicies (fst x) (map ToString p))) (imListAttachedRolePolicies i)"
  "imGetInstanceProfile (noted_iam i) =
     noting (\<lambda>n. told (\<lambda>p. SawProfile n (case p of None \<Rightarrow> [] | Some q \<Rightarrow> map ToString (pfRoles q)))) (imGetInstanceProfile i)"
  "imCreateInstanceProfile (noted_iam i) = noting (\<lambda>x _. [MadeProfile (fst x) (snd x)]) (imCreateInstanceProfile i)"
  "imAddRoleToInstanceProfile (noted_iam i) = noting (\<lambda>x r. [FilledProfile (fst x) (snd x) (accepted r)]) (imAddRoleToInstanceProfile i)"
  "imGetUser (noted_iam i) = noting (\<lambda>n. told (\<lambda>u. SawUser n (map_option user_of u))) (imGetUser i)"
  "imCreateUser (noted_iam i) = noting (\<lambda>x r. [MadeUser x (accepted r)]) (imCreateUser i)"
  "imAttachUserPolicy (noted_iam i) = noting (\<lambda>x r. [AttachedUser (fst x) (snd x) (accepted r)]) (imAttachUserPolicy i)"
  "imListAttachedUserPolicies (noted_iam i) = noting (\<lambda>x. paged (\<lambda>p. SawUserPolicies (fst x) (map ToString p))) (imListAttachedUserPolicies i)"
  "imPutUserPermissionsBoundary (noted_iam i) = noting (\<lambda>x r. [BoundUser (fst x) (snd x) (accepted r)]) (imPutUserPermissionsBoundary i)"
  "imListAccessKeys (noted_iam i) = noting (\<lambda>x. paged (\<lambda>p. SawKeys (fst x) (map ToString p))) (imListAccessKeys i)"
  "imCreateAccessKey (noted_iam i) = noting (\<lambda>n r. [MadeKey n (accepted r)]) (imCreateAccessKey i)"
  by (simp_all add: noted_iam_def)

abbreviation result_is :: "('a \<Rightarrow> iam_event list) \<Rightarrow> provider_error + 'a \<Rightarrow> iam_event list \<Rightarrow> bool" where
  "result_is f r l \<equiv> \<forall>x. r = Inr x \<longrightarrow> l = f x"

lemma justified_seen: "\<not> is_change e \<Longrightarrow> justified t es e"
  by (cases e) (auto simp: justified_def)

lemma targeted_policy:
  assumes "(arn, doc) \<in> targeted t" "foreign t es" shows "policy_change_ok arn doc (es @ l) e \<Longrightarrow> justified t (es @ l) e"
  using assms foreign_append [of t es l] by (cases e) (force simp: justified_def targeted_def)+

lemma traces_ensure_policy:
  assumes "(arn, doc) \<in> targeted t" "foreign t es"
  shows "traces (justified t) (\<lambda>r l. True) (EnsureManagedPolicy js (map_option noted_iam iam) arn doc description tags) es"
proof (rule traces_weaken)
  show "traces (policy_change_ok arn doc) (\<lambda>r l. True) (EnsureManagedPolicy js (map_option noted_iam iam) arn doc description tags) es"
    by (rule traces_mono [OF traces_policy]) simp
qed (rule targeted_policy [OF assms])

lemma traces_out:
  "foreign t es \<Longrightarrow> traces (justified t) (\<lambda>r l. \<exists>x. l = [Printed x]) (Fprintf (ieStdout (noted_env env)) ls) es"
  unfolding Fprintf_def noted_env_def iam_env.simps
  by (rule traces_attempt [OF traces_noting [where A = "\<lambda>r l. \<exists>x. l = [Printed x]"]]) (auto simp: justified_def intro!: traces_ok)

lemma traces_err: "traces J (\<lambda>r l. l = []) (Fprintf (ieStderr (noted_env env)) ls) es"
  unfolding Fprintf_def noted_env_def iam_env.simps
  by (rule traces_attempt [OF traces_noting [where A = "\<lambda>r l. l = []"]]) (auto intro!: traces_ok)

lemma traces_User:
  "traces (justified t) (result_is (\<lambda>u. [SawUser n u])) (User (map_option noted_iam c) n) es"
  unfolding User_def
proof (rule traces_client)
  show "traces (justified t) (result_is (\<lambda>u. [SawUser n u])) (attempt (call (imGetUser (noted_iam i)) n) (\<lambda>r. case r of
      Inl e \<Rightarrow> if isIAMNotFound e then ok None else fail (PApi (''aws: get user '' @ n) e) | Inr u \<Rightarrow> ok (Some (user_of u)))) es" for i
    unfolding noted_iam_sel2
    by (rule traces_attempt [OF traces_noting [where A = "\<lambda>r l. l = told (\<lambda>u. SawUser n (map_option user_of u)) r"]])
      (auto simp: told_def justified_seen intro!: traces_ok traces_fail split: sum.split)
qed simp

lemma traces_Role: "traces J (\<lambda>r l. l = []) (Role (map_option noted_iam c) n) es"
  unfolding Role_def
  by (rule traces_client, unfold noted_iam_sel2, rule traces_attempt [OF traces_noting [where A = "\<lambda>r l. l = []"]])
    (auto intro!: traces_ok traces_fail split: sum.split)

lemma traces_InstanceProfile:
  "traces (justified t) (result_is (\<lambda>p. [SawProfile n (case p of None \<Rightarrow> [] | Some q \<Rightarrow> ipfRoles q)])) (InstanceProfile (map_option noted_iam c) n) es"
  unfolding InstanceProfile_def
proof (rule traces_client)
  show "traces (justified t) (result_is (\<lambda>p. [SawProfile n (case p of None \<Rightarrow> [] | Some q \<Rightarrow> ipfRoles q)]))
     (attempt (call (imGetInstanceProfile (noted_iam i)) n) (\<lambda>r. case r of
      Inl e \<Rightarrow> if isIAMNotFound e then ok None else fail (PApi (''aws: get instance profile '' @ n) e)
    | Inr p \<Rightarrow> ok (Some \<lparr>ipfARN = ToString (pfArn p), ipfRoles = map ToString (pfRoles p), ipfTags = iamTagMap (pfTags p)\<rparr>))) es" for i
    unfolding noted_iam_sel2
    by (rule traces_attempt [OF traces_noting
          [where A = "\<lambda>r l. l = told (\<lambda>p. SawProfile n (case p of None \<Rightarrow> [] | Some q \<Rightarrow> map ToString (pfRoles q))) r"]])
      (auto simp: told_def justified_seen intro!: traces_ok traces_fail split: sum.split)
qed simp

text \<open>What the lists of policies and keys note: pages that hold what is returned.\<close>

definition shown :: "(string list \<Rightarrow> iam_event) \<Rightarrow> provider_error + string list \<Rightarrow> iam_event list \<Rightarrow> bool" where
  "shown ev r l \<longleftrightarrow> set l \<subseteq> range ev \<and> (\<forall>xs. r = Inr xs \<longrightarrow> (\<exists>ps. l = map ev ps \<and> concat ps = xs))"

lemma traces_listed:
  assumes "\<And>p. \<not> is_change (ev p)" "\<And>x. fst x = arg \<Longrightarrow> h x = (\<lambda>p. ev (map ToString p))"
  shows "traces (justified t) (shown ev) (seq (all_pages (noting (\<lambda>x. paged (h x)) f) msg arg) (\<lambda>xs. ok (map ToString xs))) es"
proof (rule traces_seq [OF traces_all_pages [where ev = "\<lambda>p. ev (map ToString p)"]])
  fix xs :: "string option list" and l
  assume "read_pages (\<lambda>p. ev (map ToString p)) (Inr xs :: provider_error + _) l"
  then obtain ps where ps: "l = map (\<lambda>p. ev (map ToString p)) ps" "concat ps = xs" by (auto simp: read_pages_def)
  have "l = map ev (map (map ToString) ps)" "concat (map (map ToString) ps) = map ToString xs"
    using ps by (auto simp: map_concat)
  then have "\<exists>qs. l = map ev qs \<and> concat qs = map ToString xs" by blast
  then show "traces (justified t) (\<lambda>r l'. shown ev r (l @ l')) (ok (map ToString xs)) (es @ l)"
    by (auto simp: shown_def intro!: traces_ok)
qed (use assms in \<open>auto simp: justified_seen shown_def read_pages_def\<close>)

lemma traces_lists:
  "traces (justified t) (shown (SawRolePolicies n)) (RolePolicyARNs (map_option noted_iam c) n) es"
  "traces (justified t) (shown (SawUserPolicies n)) (UserPolicyARNs (map_option noted_iam c) n) es"
  "traces (justified t) (shown (SawKeys n)) (AccessKeyIDs (map_option noted_iam c) n) es"
  unfolding RolePolicyARNs_def UserPolicyARNs_def AccessKeyIDs_def
  by (rule traces_client, unfold noted_iam_sel2, rule traces_listed; simp add: shown_def)+

text \<open>Requests.\<close>

lemma traces_CreateRole:
  "justified t es (MadeRole \<lparr>riRoleName = n, riAssumeRolePolicyDocument = d, riDescription = x, riTags = iamTags tags\<rparr>) \<Longrightarrow>
     traces (justified t) (\<lambda>r l. True) (CreateRole (map_option noted_iam c) n d x tags) es"
  unfolding CreateRole_def by (rule traces_client) (auto intro!: traces_wrap_call)

lemma traces_AttachRolePolicy:
  "(\<And>b. justified t es (AttachedRole n p b)) \<Longrightarrow>
     traces (justified t) (result_is (\<lambda>_. [AttachedRole n p True])) (AttachRolePolicy (map_option noted_iam c) n p) es"
  unfolding AttachRolePolicy_def by (rule traces_client) (auto simp: accepted_def intro!: traces_wrap_call split: sum.split)

lemma traces_CreateInstanceProfile:
  "justified t es (MadeProfile n (iamTags tags)) \<Longrightarrow>
     traces (justified t) (\<lambda>r l. l = [] \<or> l = [MadeProfile n (iamTags tags)]) (CreateInstanceProfile (map_option noted_iam c) n tags) es"
  unfolding CreateInstanceProfile_def by (rule traces_client) (auto intro!: traces_wrap_call)

lemma traces_AddRoleToInstanceProfile:
  "(\<And>b. justified t es (FilledProfile n p b)) \<Longrightarrow>
     traces (justified t) (result_is (\<lambda>_. [FilledProfile n p True])) (AddRoleToInstanceProfile (map_option noted_iam c) n p) es"
  unfolding AddRoleToInstanceProfile_def by (rule traces_client) (auto simp: accepted_def intro!: traces_wrap_call split: sum.split)

lemma traces_CreateUser:
  "(\<And>b. justified t es (MadeUser \<lparr>uiUserName = n, uiPermissionsBoundary = p, uiTags = iamTags tags\<rparr> b)) \<Longrightarrow>
     traces (justified t) (result_is (\<lambda>_. [MadeUser \<lparr>uiUserName = n, uiPermissionsBoundary = p, uiTags = iamTags tags\<rparr> True]))
       (CreateUser (map_option noted_iam c) n p tags) es"
  unfolding CreateUser_def by (rule traces_client) (auto simp: accepted_def intro!: traces_wrap_call split: sum.split)

lemma traces_SetUserPermissionsBoundary:
  "(\<And>b. justified t es (BoundUser n p b)) \<Longrightarrow>
     traces (justified t) (result_is (\<lambda>_. [BoundUser n p True])) (SetUserPermissionsBoundary (map_option noted_iam c) n p) es"
  unfolding SetUserPermissionsBoundary_def by (rule traces_client) (auto simp: accepted_def intro!: traces_wrap_call split: sum.split)

lemma traces_AttachUserPolicy:
  "(\<And>b. justified t es (AttachedUser n p b)) \<Longrightarrow>
     traces (justified t) (result_is (\<lambda>_. [AttachedUser n p True])) (AttachUserPolicy (map_option noted_iam c) n p) es"
  unfolding AttachUserPolicy_def by (rule traces_client) (auto simp: accepted_def intro!: traces_wrap_call split: sum.split)

lemma traces_CreateAccessKey:
  assumes "\<And>b. justified t es (MadeKey n b)"
  shows "traces (justified t) (result_is (\<lambda>_. [MadeKey n True])) (CreateAccessKey (map_option noted_iam c) n) es"
  unfolding CreateAccessKey_def
proof (rule traces_client)
  show "traces (justified t) (result_is (\<lambda>_. [MadeKey n True]))
      (seq (wrap (PApi (''aws: create access key for user '' @ n)) (call (imCreateAccessKey (noted_iam i)) n))
        (\<lambda>k. ok \<lparr>akID = ToString (fst k), akSecret = ToString (snd k)\<rparr>)) es" for i
    unfolding noted_iam_sel2
    by (rule traces_seq [OF traces_wrap_call [where A = "result_is (\<lambda>_. [MadeKey n True])"]])
      (auto simp: assms accepted_def intro!: traces_ok split: sum.split)
qed simp

section \<open>The role\<close>

text \<open>A policy is on the role: IAM listed it, or accepted it.\<close>

definition on_role :: "iam_event list \<Rightarrow> string \<Rightarrow> bool" where
  "on_role es arn \<longleftrightarrow> AttachedRole awsIAMRoleName arn True \<in> set es \<or> (\<exists>ps. SawRolePolicies awsIAMRoleName ps \<in> set es \<and> arn \<in> set ps)"

definition role_in_profile :: "iam_event list \<Rightarrow> bool" where
  "role_in_profile es \<longleftrightarrow> FilledProfile awsIAMRoleName awsIAMRoleName True \<in> set es \<or>
     (\<exists>rs. SawProfile awsIAMRoleName rs \<in> set es \<and> awsIAMRoleName \<in> set rs)"

definition role_ready :: "awsIAMTarget \<Rightarrow> iam_event list \<Rightarrow> bool" where
  "role_ready t es \<longleftrightarrow> (\<forall>arn \<in> set (role_policies t). on_role es arn) \<and> role_in_profile es"

lemma role_ready_append: "role_ready t es \<Longrightarrow> role_ready t (es @ l)"
  unfolding role_ready_def on_role_def role_in_profile_def by auto

lemma shown_mem: "shown ev (Inr xs) l \<Longrightarrow> x \<in> set xs \<Longrightarrow> \<exists>ps. ev ps \<in> set l \<and> x \<in> set ps"
  unfolding shown_def by fastforce

lemma traces_attach:
  assumes "foreign t es" "itIncludeRole t" "set wanted \<subseteq> set (role_policies t)" "\<forall>arn \<in> set attached. on_role es arn"
  shows "traces (justified t) (\<lambda>r l. r = Inr () \<longrightarrow> (\<forall>arn \<in> set wanted. on_role (es @ l) arn))
     (attach_role_policies (map_option noted_iam c) attached wanted) es"
  using assms
proof (induction wanted arbitrary: es)
  case Nil
  then show ?case by (auto simp: attach_role_policies_def intro!: traces_ok)
next
  case (Cons arn wanted)
  let ?rest = "attach_role_policies (map_option noted_iam c) attached wanted"
  have unfolded: "attach_role_policies (map_option noted_iam c) attached (arn # wanted) =
      (if arn \<in> set attached then ?rest else seq (AttachRolePolicy (map_option noted_iam c) awsIAMRoleName arn) (\<lambda>_. ?rest))"
    by (simp add: attach_role_policies_def)
  have more: "on_role (es @ l) x" if "on_role es x" for l x using that by (auto simp: on_role_def)
  show ?case
  proof (cases "arn \<in> set attached")
    case True
    have "traces (justified t) (\<lambda>r l. r = Inr () \<longrightarrow> (\<forall>arn \<in> set (arn # wanted). on_role (es @ l) arn)) ?rest es"
      by (rule traces_mono [OF Cons.IH]) (use Cons.prems True more in auto)
    then show ?thesis using True unfolded by simp
  next
    case False
    have ok: "justified t es (AttachedRole awsIAMRoleName arn b)" for b using Cons.prems by (simp add: justified_def)
    have "traces (justified t) (\<lambda>r l. r = Inr () \<longrightarrow> (\<forall>arn \<in> set (arn # wanted). on_role (es @ l) arn))
        (seq (AttachRolePolicy (map_option noted_iam c) awsIAMRoleName arn) (\<lambda>_. ?rest)) es"
    proof (rule traces_seq [OF traces_AttachRolePolicy [OF ok]])
      fix u :: unit and l
      assume "\<forall>x. (Inr u :: provider_error + unit) = Inr x \<longrightarrow> l = [AttachedRole awsIAMRoleName arn True]"
      then have l: "l = [AttachedRole awsIAMRoleName arn True]" by simp
      show "traces (justified t) (\<lambda>r l'. r = Inr () \<longrightarrow> (\<forall>arn \<in> set (arn # wanted). on_role (es @ l @ l') arn)) ?rest (es @ l)"
        by (rule traces_mono [OF Cons.IH]) (use Cons.prems more l in \<open>auto simp: on_role_def intro: foreign_append\<close>)
    qed simp
    then show ?thesis using False unfolded by simp
  qed
qed

lemma on_role_append: "on_role es arn \<Longrightarrow> on_role (es @ l) arn"
  by (auto simp: on_role_def)

lemma traces_adopt_role:
  "foreign t es \<Longrightarrow> itIncludeRole t \<Longrightarrow>
     traces (justified t) (\<lambda>r l. True) (adopt_role (noted_env env) (map_option noted_iam c) t role) es"
  unfolding adopt_role_def
  by (auto simp: justified_def intro!: traces_seq [OF traces_CreateRole] traces_seq [OF traces_err] traces_ok split: option.split)

lemma traces_ensure_role:
  assumes "foreign t es" "itIncludeRole t"
  shows "traces (justified t) (\<lambda>r l. r = Inr () \<longrightarrow> (\<forall>arn \<in> set (role_policies t). on_role (es @ l) arn))
     (ensure_role (noted_env env) (map_option noted_iam c) t) es"
  unfolding ensure_role_def role_policies_def [symmetric]
proof (rule traces_seq [OF traces_Role], goal_cases)
  case (2 role l)
  show ?case
  proof (rule traces_seq [OF traces_adopt_role], goal_cases)
    case (4 roleState l')
    show ?case
    proof (rule traces_seq [OF traces_lists(1)], goal_cases)
      case (2 attached l'')
      have on: "\<forall>arn \<in> set attached. on_role (((es @ l) @ l') @ l'') arn" using shown_mem [OF 2(2)] by (auto simp: on_role_def)
      show ?case
        by (rule traces_seq [OF traces_attach [OF _ assms(2) _ on]])
          (use assms(1) in \<open>auto intro!: foreign_append on_role_append [of "(((es @ l) @ l') @ l'') @ _"] traces_mono [OF traces_out] simp flip: append_assoc\<close>)
    qed simp
  qed (use assms in \<open>auto intro: foreign_append\<close>)
qed simp

lemma traces_fill:
  assumes "foreign t es" "itIncludeRole t" "latest (told_roles awsIAMRoleName) es = Some roles" "SawProfile awsIAMRoleName roles \<in> set es"
  shows "traces (justified t) (\<lambda>r l. r = Inr () \<longrightarrow> role_in_profile (es @ l)) (fill_profile (map_option noted_iam c) roles) es"
  unfolding fill_profile_def using assms
  by (auto simp: justified_def role_in_profile_def intro!: traces_ok traces_fail traces_mono [OF traces_AddRoleToInstanceProfile])

text \<open>A profile that is made holds no role yet.\<close>

lemma traces_adopt_profile:
  assumes "foreign t (es @ [SawProfile awsIAMRoleName roles])" "itIncludeRole t" "roles = (case found of None \<Rightarrow> [] | Some q \<Rightarrow> ipfRoles q)"
  shows "traces (justified t) (\<lambda>r l. (\<forall>x. r = Inr x \<longrightarrow> snd x = roles) \<and> latest (told_roles awsIAMRoleName) l = None)
     (adopt_profile (map_option noted_iam c) t found) (es @ [SawProfile awsIAMRoleName roles])"
proof (cases found)
  case None
  have "justified t (es @ [SawProfile awsIAMRoleName roles]) (MadeProfile awsIAMRoleName (iamTags (itManagedTags t)))"
    using assms None by (simp add: justified_def latest_append)
  then show ?thesis using None assms(3) by (auto simp: adopt_profile_def intro!: traces_ok traces_seq [OF traces_CreateInstanceProfile])
qed (use assms(3) in \<open>auto simp: adopt_profile_def intro!: traces_ok\<close>)

lemma traces_ensure_profile:
  assumes "foreign t es" "itIncludeRole t"
  shows "traces (justified t) (\<lambda>r l. r = Inr () \<longrightarrow> role_in_profile (es @ l)) (ensure_profile (noted_env env) (map_option noted_iam c) t) es"
  unfolding ensure_profile_def
proof (rule traces_seq [OF traces_InstanceProfile], goal_cases)
  case (2 found l)
  define roles where "roles = (case found of None \<Rightarrow> [] | Some q \<Rightarrow> ipfRoles q)"
  have l: "l = [SawProfile awsIAMRoleName roles]" using 2 by (simp add: roles_def)
  show ?case unfolding l
  proof (rule traces_seq [OF traces_adopt_profile [OF _ assms(2) roles_def]], goal_cases)
    case (3 x k)
    have kept: "latest (told_roles awsIAMRoleName) ((es @ [SawProfile awsIAMRoleName roles]) @ k) = Some roles" and snd: "snd x = roles"
      using 3 by (simp_all add: latest_append del: append_assoc)
    show ?case unfolding split_beta snd
      by (rule traces_seq [OF traces_fill [OF foreign_append [OF foreign_append [OF assms(1)]] assms(2) kept]])
        (auto simp: role_in_profile_def intro!: traces_mono [OF traces_out] foreign_append assms(1))
  qed (auto intro: foreign_append assms(1))
qed simp

lemma traces_awsIAMEnsureRole:
  assumes "foreign t es" "itIncludeRole t"
  shows "traces (justified t) (\<lambda>r l. r = Inr () \<longrightarrow> role_ready t (es @ l)) (awsIAMEnsureRole (noted_env env) (map_option noted_iam c) t) es"
  unfolding awsIAMEnsureRole_def
proof (rule traces_seq [OF traces_ensure_policy], goal_cases)
  case (4 change l)
  show ?case
  proof (rule traces_seq [OF traces_out], goal_cases)
    case (3 u l')
    show ?case
    proof (rule traces_seq [OF traces_ensure_role], goal_cases)
      case (4 v l'')
      then have "\<forall>arn \<in> set (role_policies t). on_role (((es @ l) @ l') @ l'') arn" by (cases v) simp
      then show ?case
        by (intro traces_mono [OF traces_ensure_profile])
          (use assms in \<open>auto simp: role_ready_def intro!: foreign_append on_role_append [of "((es @ l) @ l') @ l''"] simp flip: append_assoc\<close>)
    qed (use assms in \<open>auto intro: foreign_append\<close>)
  qed (use assms in \<open>auto intro: foreign_append\<close>)
qed (use assms in \<open>auto simp: targeted_def\<close>)

section \<open>The user\<close>

text \<open>The user is bounded by its policy, and the policy is attached.\<close>

definition bounded_user :: "awsIAMTarget \<Rightarrow> iam_event list \<Rightarrow> bool" where
  "bounded_user t es \<longleftrightarrow> latest (told_boundary (itUser t)) es = Some (itUserPolicyARN t)"

definition on_user :: "awsIAMTarget \<Rightarrow> iam_event list \<Rightarrow> bool" where
  "on_user t es \<longleftrightarrow> AttachedUser (itUser t) (itUserPolicyARN t) True \<in> set es \<or>
     (\<exists>ps. SawUserPolicies (itUser t) ps \<in> set es \<and> itUserPolicyARN t \<in> set ps)"

lemma on_user_append: "on_user t es \<Longrightarrow> on_user t (es @ l)"
  by (auto simp: on_user_def)

lemma bounded_user_append: "bounded_user t es \<Longrightarrow> (\<And>e. e \<in> set l \<Longrightarrow> told_boundary (itUser t) e = None) \<Longrightarrow> bounded_user t (es @ l)"
  by (simp add: bounded_user_def latest_kept)

lemma traces_bound_user:
  assumes "foreign t (es @ [SawUser (itUser t) user])"
  shows "traces (justified t) (\<lambda>r l. \<forall>x. r = Inr x \<longrightarrow> bounded_user t ((es @ [SawUser (itUser t) user]) @ l))
     (bound_user (noted_env env) (map_option noted_iam c) t user) (es @ [SawUser (itUser t) user])" (is "traces _ _ _ ?es")
proof (cases user)
  case None
  have "justified t ?es (MadeUser \<lparr>uiUserName = itUser t, uiPermissionsBoundary = itUserPolicyARN t, uiTags = iamTags (itManagedTags t)\<rparr> b)" for b
    using assms None by (simp add: justified_def latest_append)
  then show ?thesis using None
    by (auto simp: bound_user_def bounded_user_def latest_append simp del: append_assoc intro!: traces_ok traces_seq [OF traces_CreateUser])
next
  case (Some u)
  let ?es = "es @ [SawUser (itUser t) (Some u)]"
  let ?set = "SetUserPermissionsBoundary (map_option noted_iam c) (itUser t) (itUserPolicyARN t)"
  let ?A = "\<lambda>r l. \<forall>x. r = Inr x \<longrightarrow> bounded_user t (?es @ l)"
  have change: "traces (justified t) ?A ?set ?es" if "iuPermissionsBoundary u = [] \<or> awsIAMManaged (iuTags u)"
  proof (rule traces_mono [OF traces_SetUserPermissionsBoundary])
    show "justified t ?es (BoundUser (itUser t) (itUserPolicyARN t) b)" for b
      using assms Some that by (simp add: justified_def latest_append)
  qed (simp add: bounded_user_def latest_append del: append_assoc)
  have quiet: "traces (justified t) (\<lambda>r l. l = []) (if \<not> awsIAMManaged (iuTags u) then Fprintf (ieStderr (noted_env env)) ls else ok ()) ?es" for ls
    by (auto intro!: traces_ok traces_err)
  have "traces (justified t) ?A (if iuPermissionsBoundary u = itUserPolicyARN t then ok () else if iuPermissionsBoundary u = [] then ?set
      else if \<not> awsIAMManaged (iuTags u) then fail e else ?set) ?es" for e
    using change by (auto simp: bounded_user_def latest_append intro!: traces_ok traces_fail simp del: append_assoc)
  then have "traces (justified t) ?A (seq (if iuPermissionsBoundary u = itUserPolicyARN t then ok () else if iuPermissionsBoundary u = [] then ?set
      else if \<not> awsIAMManaged (iuTags u) then fail e else ?set) (\<lambda>_. ok ''existing'')) ?es" for e
    by (rule traces_seq) (auto intro!: traces_ok)
  then show ?thesis
    unfolding bound_user_def Some option.case Let_def
    by (intro traces_seq [OF quiet]) simp_all
qed

lemma shown_inert: "shown (SawUserPolicies m) r l \<Longrightarrow> e \<in> set l \<Longrightarrow> told_boundary n e = None"
  "shown (SawKeys m) r l \<Longrightarrow> e \<in> set l \<Longrightarrow> told_boundary n e = None"
  by (auto simp: shown_def)

text \<open>After its first look at the user the command ends with the user bounded and its policy attached; the last thing it did
  was to print.\<close>

lemma traces_attach_user:
  assumes "foreign t es" "bounded_user t es"
  shows "traces (justified t) (\<lambda>r l. r = Inr () \<longrightarrow> bounded_user t (es @ l) \<and> on_user t (es @ l) \<and> trailing (told_keys (itUser t)) (es @ l) = [])
     (seq (UserPolicyARNs (map_option noted_iam c) (itUser t)) (\<lambda>attached.
      seq (if itUserPolicyARN t \<in> set attached then ok ()
           else AttachUserPolicy (map_option noted_iam c) (itUser t) (itUserPolicyARN t)) (\<lambda>_.
      seq (if filter (\<lambda>arn. arn \<noteq> itUserPolicyARN t) attached \<noteq> [] then Fprintf (ieStderr (noted_env env)) (ls attached) else ok ()) (\<lambda>_.
      Fprintf (ieStdout (noted_env env)) out)))) es"
proof (rule traces_seq [OF traces_lists(2)], goal_cases)
  case (2 attached l)
  have b: "bounded_user t (es @ l)" by (rule bounded_user_append [OF assms(2)]) (rule shown_inert(1) [OF 2(2)])
  have j: "justified t (es @ l) (AttachedUser (itUser t) (itUserPolicyARN t) b)" for b
    using \<open>bounded_user t (es @ l)\<close> assms(1) by (simp add: justified_def foreign_append bounded_user_def)
  have listed: "on_user t (es @ l)" if "itUserPolicyARN t \<in> set attached" using shown_mem [OF 2(2) that] by (auto simp: on_user_def)
  have att: "traces (justified t) (\<lambda>r l'. r = Inr () \<longrightarrow> bounded_user t ((es @ l) @ l') \<and> on_user t ((es @ l) @ l'))
      (if itUserPolicyARN t \<in> set attached then ok () else AttachUserPolicy (map_option noted_iam c) (itUser t) (itUserPolicyARN t)) (es @ l)"
    using b listed by (auto simp: on_user_def bounded_user_def latest_append simp del: append_assoc
        intro!: traces_ok traces_mono [OF traces_AttachUserPolicy [OF j]])
  show ?case
  proof (rule traces_seq [OF att], goal_cases)
    case (2 u l')
    then have u: "bounded_user t ((es @ l) @ l')" "on_user t ((es @ l) @ l')" by simp_all
    have quiet: "traces (justified t) (\<lambda>r l. l = [])
        (if filter (\<lambda>arn. arn \<noteq> itUserPolicyARN t) attached \<noteq> [] then Fprintf (ieStderr (noted_env env)) (ls attached) else ok ()) ((es @ l) @ l')"
      by (auto intro!: traces_ok traces_err)
    show ?case
    proof (rule traces_seq [OF quiet], goal_cases)
      case (2 v k)
      have f: "foreign t (((es @ l) @ l') @ k)" by (intro foreign_append assms(1))
      show ?case
        by (rule traces_mono [OF traces_out [OF f]])
          (use u 2(2) in \<open>auto simp: bounded_user_def latest_append on_user_def trailing_def\<close>)
    qed simp
  qed simp
qed simp

lemma traces_awsIAMEnsureUser:
  assumes "foreign t es"
  shows "traces (justified t) (\<lambda>r l. r = Inr () \<longrightarrow> bounded_user t (es @ l) \<and> on_user t (es @ l) \<and> trailing (told_keys (itUser t)) (es @ l) = [])
     (awsIAMEnsureUser (noted_env env) (map_option noted_iam c) t) es"
  unfolding awsIAMEnsureUser_def
proof (rule traces_seq [OF traces_ensure_policy], goal_cases)
  case (4 change l)
  show ?case
  proof (rule traces_seq [OF traces_out], goal_cases)
    case (3 u l')
    show ?case
    proof (rule traces_seq [OF traces_User], goal_cases)
      case (2 user l'')
      then have l'': "l'' = [SawUser (itUser t) user]" by simp
      have f: "foreign t (((es @ l) @ l') @ [SawUser (itUser t) user])" by (intro foreign_append assms)
      show ?case unfolding l''
      proof (rule traces_seq [OF traces_bound_user [OF f]], goal_cases)
        case (2 userState k)
        then have "bounded_user t ((((es @ l) @ l') @ [SawUser (itUser t) user]) @ k)" by blast
        from traces_attach_user [OF foreign_append [OF f] this] show ?case unfolding Let_def by (rule traces_mono) simp
      qed simp
    qed simp
  qed (use assms in \<open>auto intro: foreign_append\<close>)
qed (use assms in \<open>auto simp: targeted_def\<close>)

section \<open>The command\<close>

definition keyed :: "awsIAMTarget \<Rightarrow> iam_event list \<Rightarrow> bool" where
  "keyed t es \<longleftrightarrow> MadeKey (itUser t) True \<in> set es"

text \<open>What a run that succeeds leaves behind.\<close>

definition set_up :: "awsIAMTarget \<Rightarrow> iam_event list \<Rightarrow> bool" where
  "set_up t es \<longleftrightarrow> bounded_user t es \<and> on_user t es \<and> (itIncludeRole t \<longrightarrow> role_ready t es) \<and> (itCreateAccessKey t \<longrightarrow> keyed t es)"

lemma set_up_append:
  "set_up t es \<Longrightarrow> (\<And>e. e \<in> set l \<Longrightarrow> told_boundary (itUser t) e = None) \<Longrightarrow> set_up t (es @ l)"
  using bounded_user_append [of t es l] by (auto simp: set_up_def keyed_def intro: on_user_append role_ready_append)

lemma traces_new_access_key:
  assumes "foreign t es" "bounded_user t es" "trailing (told_keys (itUser t)) es = []" "itCreateAccessKey t"
  shows "traces (justified t) (\<lambda>r l. r = Inr () \<longrightarrow> keyed t l \<and> (\<forall>e \<in> set l. told_boundary (itUser t) e = None))
     (new_access_key (noted_env env) (map_option noted_iam c) t) es"
  unfolding new_access_key_def
proof (rule traces_seq [OF traces_lists(3)], goal_cases)
  case (2 keys l)
  have b: "bounded_user t (es @ l)" by (rule bounded_user_append [OF assms(2)]) (rule shown_inert(2) [OF 2(2)])
  obtain ps where ps: "l = map (SawKeys (itUser t)) ps" "concat ps = keys" using 2(2) by (auto simp: shown_def)
  have keys: "trailing (told_keys (itUser t)) (es @ l) = keys" unfolding ps(1) ps(2) [symmetric] by (rule trailing_pages [OF assms(3)]) simp
  have printing: "traces (justified t) (\<lambda>r k. r = Inr () \<longrightarrow> keyed t (l @ MadeKey (itUser t) True # k) \<and>
        (\<forall>e \<in> set (l @ MadeKey (itUser t) True # k). told_boundary (itUser t) e = None))
      (seq (Fprintf (ieStdout (noted_env env)) x) (\<lambda>_. seq (Fprintf (ieStdout (noted_env env)) y) (\<lambda>_. Fprintf (ieStderr (noted_env env)) z)))
      ((es @ l) @ [MadeKey (itUser t) True])" for x y z
  proof (rule traces_seq [OF traces_out], goal_cases)
    case (3 u k)
    show ?case
      by (rule traces_seq [OF traces_out]) (use 3 shown_inert(2) [OF 2(2)] in
        \<open>auto simp: keyed_def intro!: foreign_append assms(1) traces_mono [OF traces_err]\<close>)
  qed (auto intro: foreign_append assms(1))
  show ?case
  proof (rule traces_seq [OF traces_demand [where A = "\<lambda>r k. k = [] \<and> (r = Inr () \<longrightarrow> length keys < awsIAMMaxAccessKeys)"]], goal_cases)
    case (4 u k)
    have j: "justified t ((es @ l) @ k) (MadeKey (itUser t) x)" for x
      using 4 keys b assms(1,4) by (cases u) (auto simp: justified_def bounded_user_def awsIAMMaxAccessKeys_def intro: foreign_append)
    show ?case
    proof (rule traces_seq [OF traces_CreateAccessKey [OF j]], goal_cases)
      case (2 key k')
      have k: "k = []" "k' = [MadeKey (itUser t) True]" using 4 2 by simp_all
      show ?case unfolding k append_Nil append_Nil2 by (rule traces_mono [OF printing]) simp
    qed simp
  qed simp_all
qed simp

lemma traces_rest:
  assumes "foreign t es"
  shows "traces (justified t) (\<lambda>r l. r = Inr () \<longrightarrow> set_up t (es @ l))
     (seq (if itIncludeRole t then awsIAMEnsureRole (noted_env env) (map_option noted_iam c) t else ok ()) (\<lambda>_.
      seq (awsIAMEnsureUser (noted_env env) (map_option noted_iam c) t) (\<lambda>_.
      seq (if itCreateAccessKey t then new_access_key (noted_env env) (map_option noted_iam c) t else ok ()) (\<lambda>_.
      Fprintf (ieStderr (noted_env env)) ls)))) es"
proof -
  have role: "traces (justified t) (\<lambda>r l. r = Inr () \<longrightarrow> itIncludeRole t \<longrightarrow> role_ready t (es @ l))
      (if itIncludeRole t then awsIAMEnsureRole (noted_env env) (map_option noted_iam c) t else ok ()) es"
    by (auto intro!: traces_ok traces_mono [OF traces_awsIAMEnsureRole] assms)
  show ?thesis
  proof (rule traces_seq [OF role], goal_cases)
    case (2 u l)
    then have ready: "itIncludeRole t \<longrightarrow> role_ready t (es @ l)" by (cases u) simp
    show ?case
    proof (rule traces_seq [OF traces_awsIAMEnsureUser], goal_cases)
      case (3 v l')
      let ?es = "(es @ l) @ l'"
      have user: "bounded_user t ?es" "on_user t ?es" "trailing (told_keys (itUser t)) ?es = []" using 3(2) by (cases v; simp)+
      have f: "foreign t ?es" by (intro foreign_append assms)
      have key: "traces (justified t) (\<lambda>r k. r = Inr () \<longrightarrow> set_up t (?es @ k))
          (if itCreateAccessKey t then new_access_key (noted_env env) (map_option noted_iam c) t else ok ()) ?es"
      proof (cases "itCreateAccessKey t")
        case True
        have "traces (justified t) (\<lambda>r k. r = Inr () \<longrightarrow> set_up t (?es @ k)) (new_access_key (noted_env env) (map_option noted_iam c) t) ?es"
          by (rule traces_mono [OF traces_new_access_key [OF f user(1,3) True]])
            (use user ready in \<open>auto simp: set_up_def keyed_def simp del: append_assoc intro!: on_user_append role_ready_append bounded_user_append\<close>)
        then show ?thesis using True by simp
      qed (use user ready in \<open>auto simp: set_up_def simp del: append_assoc intro!: traces_ok role_ready_append\<close>)
      show ?case by (rule traces_seq [OF key]) (auto intro!: traces_mono [OF traces_err])
    qed (auto intro: foreign_append assms)
  qed simp
qed

lemma traces_awsIAMCreateUser:
  "traces (justified t) (\<lambda>r l. r = Inr () \<longrightarrow> set_up t l) (awsIAMCreateUser (noted_env env) (map_option noted_iam c) t) []"
  unfolding awsIAMCreateUser_def
proof (rule traces_seq [OF traces_User], goal_cases)
  case (2 user l)
  then have l: "l = [SawUser (itUser t) user]" by simp
  show ?case
  proof (rule traces_seq [OF traces_demand [where A = "\<lambda>r k. k = [] \<and> (r = Inr () \<longrightarrow> other_than_caller t user)"]], goal_cases)
    case (4 u k)
    then have k: "k = []" and f: "foreign t l" using l by (cases u; simp add: foreign_def)+
    show ?case unfolding k append_Nil append_Nil2
    proof (rule traces_seq [OF traces_out [OF f]], goal_cases)
      case (2 v l')
      show ?case by (rule traces_mono [OF traces_rest]) (auto intro: foreign_append f)
    qed simp
  qed simp_all
qed simp

section \<open>The properties\<close>

lemma traced_run:
  assumes "traces J A m []" "m (time, (w, [])) = Some (r, s)" shows "chain J [] (log_of s) \<and> A r (log_of s)"
  using tracesD [OF assms(1), of time w] assms(2) by (auto simp: wp_def)

text \<open>C13: whatever IAM answers and whether or not the command succeeds, every change it asks for is justified by what the
  log holds before it: nothing is changed before the command saw that it does not run as the user itself; the user is created with
  its policy as boundary, a boundary is only set on a user without one or tagged as the command's own; the policy is attached and
  an access key made only once the user is bounded by the policy, and a key only when fewer than two were listed; the role is
  put into its instance profile only when the profile held none; a policy version is deleted only when five were listed, and it
  is the oldest that is not the default.\<close>

theorem awsIAMCreateUser_warranted:
  assumes "awsIAMCreateUser (noted_env env) (map_option noted_iam c) t (time, (w, [])) = Some (r, s)" "i < length (log_of s)"
  shows "justified t (take i (log_of s)) (log_of s ! i)"
  using chain_nth [OF conjunct1 [OF traced_run [OF traces_awsIAMCreateUser assms(1)]] assms(2)] by simp

text \<open>C39: a run of the command that succeeds leaves the user with its policy as permissions boundary and with the policy
  attached; when asked for, the role with its three policies attached and in its instance profile, and an access key.\<close>

theorem awsIAMCreateUser_sets_up:
  assumes "awsIAMCreateUser (noted_env env) (map_option noted_iam c) t (time, (w, [])) = Some (Inr (), s)"
  shows "set_up t (log_of s)"
  using conjunct2 [OF traced_run [OF traces_awsIAMCreateUser assms]] by simp


section \<open>A run\<close>

text \<open>An account with a user somebody made by hand, without a boundary, and five versions of its policy; everything else is new.\<close>

definition iam_missing :: "api_error + 'o" where "iam_missing = Inl \<lparr>aeCode = Some ''NoSuchEntity'', aeMessage = [], aeText = []\<rparr>"

definition iam_call :: "('i \<Rightarrow> api_error + 'o) \<Rightarrow> ('i, 'o, unit) aws_api" where
  "iam_call f x w = (f x, 1, w)"

definition demo_version :: "int \<Rightarrow> policy_version" where
  "demo_version k = \<lparr>pvVersionId = Some (show_int k), pvIsDefaultVersion = (k = 3), pvCreateDate = Some ((k - 2) * (k - 2))\<rparr>"

definition demo_account :: "unit iamAPI" where
  "demo_account =
     \<lparr>imGetPolicy = iam_call (\<lambda>arn. if arn = ''arn:aws:iam::1:policy/p'' then Inr (Some \<lparr>poArn = Some arn, poDefaultVersionId = Some ''3''\<rparr>) else iam_missing),
      imCreatePolicy = iam_call (\<lambda>_. Inr ()), imGetPolicyVersion = iam_call (\<lambda>_. Inr (Some (Some ''%7Bold%7D''))),
      imListPolicyVersions = iam_call (\<lambda>(_, marker). case marker of None \<Rightarrow> Inr (map demo_version [5, 4, 3], Some ''more'')
        | Some _ \<Rightarrow> Inr (map demo_version [2, 1], None)),
      imCreatePolicyVersion = iam_call (\<lambda>_. Inr ()), imDeletePolicyVersion = iam_call (\<lambda>_. Inr ()),
      imGetRole = iam_call (\<lambda>_. iam_missing), imCreateRole = iam_call (\<lambda>_. Inr ()), imAttachRolePolicy = iam_call (\<lambda>_. Inr ()),
      imListAttachedRolePolicies = iam_call (\<lambda>_. Inr ([], None)), imGetInstanceProfile = iam_call (\<lambda>_. iam_missing),
      imCreateInstanceProfile = iam_call (\<lambda>_. Inr ()), imAddRoleToInstanceProfile = iam_call (\<lambda>_. Inr ()),
      imGetUser = iam_call (\<lambda>_. Inr \<lparr>usArn = Some ''arn:aws:iam::1:user/u'', usTags = [], usPermissionsBoundary = None\<rparr>),
      imCreateUser = iam_call (\<lambda>_. Inr ()), imAttachUserPolicy = iam_call (\<lambda>_. Inr ()), imListAttachedUserPolicies = iam_call (\<lambda>_. Inr ([], None)),
      imPutUserPermissionsBoundary = iam_call (\<lambda>_. Inr ()), imListAccessKeys = iam_call (\<lambda>_. Inr ([Some ''k1''], None)),
      imCreateAccessKey = iam_call (\<lambda>_. Inr (Some ''k2'', Some ''s2''))\<rparr>"

definition demo_iam_env :: "(unit, string) iam_env" where
  "demo_iam_env = \<lparr>ieJson = \<lparr>jsValid = (\<lambda>s. s \<noteq> []), jsUnmarshal = Inr\<rparr>, ieStdout = (\<lambda>_ w. (Inr (), 0, w)), ieStderr = (\<lambda>_ w. (Inr (), 0, w))\<rparr>"

definition demo_target :: awsIAMTarget where
  "demo_target =
     \<lparr>itAccount = ''1'', itPartition = ''aws'', itUser = ''u'', itUserPolicyARN = ''arn:aws:iam::1:policy/p'',
      itRoleExecPolicyARN = ''arn:aws:iam::1:policy/e'', itRoleAWSPolicyARNs = [''arn:aws:iam::aws:policy/a''],
      itUserPolicyDocument = ''{new}'', itRoleExecPolicyDoc = ''{exec}'', itIncludeRole = True, itCreateAccessKey = True,
      itCallerARN = ''arn:aws:iam::1:user/admin'', itManagedTags = [(''t'', ''v'')]\<rparr>"

definition drops_second :: "iam_event \<Rightarrow> bool" where
  "drops_second e = (case e of DroppedVersion a v \<Rightarrow> a = ''arn:aws:iam::1:policy/p'' \<and> v = ''2'' | _ \<Rightarrow> False)"

definition makes_key :: "iam_event \<Rightarrow> bool" where
  "makes_key e = (case e of MadeKey n b \<Rightarrow> n = ''u'' \<and> b | _ \<Rightarrow> False)"

lemma drops_second: "drops_second e \<Longrightarrow> e = DroppedVersion ''arn:aws:iam::1:policy/p'' ''2''"
  and makes_key: "makes_key e \<Longrightarrow> e = MadeKey ''u'' True"
  by (cases e; simp add: drops_second_def makes_key_def)+

lemma demo_account_runs:
  "map_option (\<lambda>(r, t, w, es). (isl r, list_ex drops_second es, list_ex makes_key es))
     (awsIAMCreateUser (noted_env demo_iam_env) (map_option noted_iam (Some demo_account)) demo_target (0, ((), []))) = Some (False, True, True)"
  by code_simp

lemma demo_account_updates:
  "map_option fst (EnsureManagedPolicy (ieJson demo_iam_env) (map_option noted_iam (Some demo_account)) ''arn:aws:iam::1:policy/p'' ''{new}'' ''d'' []
     (0, ((), []))) = Some (Inr PolicyUpdated)"
  by code_simp

lemma demo_account_run:
  obtains s where "awsIAMCreateUser (noted_env demo_iam_env) (map_option noted_iam (Some demo_account)) demo_target (0, ((), [])) = Some (Inr (), s)"
    and "DroppedVersion ''arn:aws:iam::1:policy/p'' ''2'' \<in> set (log_of s)" "MadeKey ''u'' True \<in> set (log_of s)"
proof -
  obtain r s where run: "awsIAMCreateUser (noted_env demo_iam_env) (map_option noted_iam (Some demo_account)) demo_target (0, ((), [])) = Some (r, s)"
      "\<not> isl r" "list_ex drops_second (log_of s)" "list_ex makes_key (log_of s)"
    using demo_account_runs by (auto simp: log_of_def split: prod.splits)
  have "DroppedVersion ''arn:aws:iam::1:policy/p'' ''2'' \<in> set (log_of s)" "MadeKey ''u'' True \<in> set (log_of s)"
    using run(3,4) unfolding list_ex_iff by (auto dest: drops_second makes_key)
  with run(1,2) show ?thesis by (cases r) (auto intro: that)
qed

theorem awsIAMCreateUser_warranted_witness:
  "\<exists>s. awsIAMCreateUser (noted_env demo_iam_env) (map_option noted_iam (Some demo_account)) demo_target (0, ((), [])) = Some (Inr (), s) \<and>
     DroppedVersion ''arn:aws:iam::1:policy/p'' ''2'' \<in> set (log_of s) \<and> MadeKey ''u'' True \<in> set (log_of s) \<and>
     (\<forall>i<length (log_of s). justified demo_target (take i (log_of s)) (log_of s ! i))"
proof (rule demo_account_run, goal_cases)
  case (1 s)
  from awsIAMCreateUser_warranted [OF 1(1)] 1 show ?case by (auto simp del: split_paired_Ex)
qed

theorem awsIAMCreateUser_sets_up_witness:
  "\<exists>s. awsIAMCreateUser (noted_env demo_iam_env) (map_option noted_iam (Some demo_account)) demo_target (0, ((), [])) = Some (Inr (), s) \<and>
     set_up demo_target (log_of s)"
proof (rule demo_account_run, goal_cases)
  case (1 s)
  from awsIAMCreateUser_sets_up [OF 1(1)] 1(1) show ?case by (auto simp del: split_paired_Ex)
qed


end
