(* ===== verification/Spec2Isabelle.thy ===== *)
theory Spec2Isabelle
  imports Shell Conformance Registry K8sMixed Archive Drive LocalCommands AwsSafety InstallerSafety Ec2Safety AwsDevUp AwsDevEtcd IamSafety
begin

text \<open>
  A verification development for \<^verbatim>\<open>etcd-infra\<close>: a Go tool that runs etcd clusters in local
  containers or on AWS, checks them with a conformance suite and loads them with a stress suite.

  \<^bold>\<open>The program.\<close> \<^verbatim>\<open>src/cmd/etcd-infra\<close> is the command line. Its \<^verbatim>\<open>local\<close> commands drive the
  container provider \<^verbatim>\<open>src/pkg/providers/local\<close>, its \<^verbatim>\<open>aws\<close> commands the EC2 provider
  \<^verbatim>\<open>src/pkg/providers/aws\<close> and a state file written by \<^verbatim>\<open>src/pkg/file\<close>; both wait for the cluster
  with \<^verbatim>\<open>src/internal/etcd/client\<close>. The \<^verbatim>\<open>conformance\<close> and \<^verbatim>\<open>stress\<close> commands run the suites of
  \<^verbatim>\<open>src/internal/etcd\<close>; \<^verbatim>\<open>aws drive\<close> merges the metric files of several stress clients. The
  \<^verbatim>\<open>install\<close> command downloads a release and extracts it with \<^verbatim>\<open>src/pkg/archive\<close>.

  \<^bold>\<open>The theories.\<close>
  \<^item> \<open>Prelude\<close>: Go's strings (bytes as a \<^verbatim>\<open>char list\<close>), durations (\<^verbatim>\<open>int64\<close> nanoseconds as \<open>int\<close>) and sorting.
    \<open>Recorder\<close>: the locale of a runner that reports events, shared by the two suites.
    \<open>EtcdClient\<close>: the record of the etcd client calls and the cleanup of the two runners.
  \<^item> \<open>Shell\<close>: \<^verbatim>\<open>src/pkg/shell/quote.go\<close>. The quoting is the right inverse of POSIX word splitting.
  \<^item> \<open>Metrics\<close>: \<^verbatim>\<open>stress/scenarios/metrics.go\<close>. Accounting invariant of the collector, linearisation of
    concurrent records, histogram buckets, nearest-rank percentiles.
  \<^item> \<open>Conformance\<close>: \<^verbatim>\<open>conformance/suite_workflow.go\<close>, \<^verbatim>\<open>scenario_result.go\<close>. The runner refines a
    specification of its verdict, panics included.
  \<^item> \<open>StressSuite\<close>: configuration, worker pool, pacing and verdict of the stress suite. \<open>K8sMixed\<close>: its
    open-loop Kubernetes scenario (arrival loop, in-flight slots, compaction and defragmentation log).
  \<^item> \<open>Registry\<close>: the identifier tables and the scenario registries of both suites.
  \<^item> \<open>Paths\<close>, \<open>FileSystem\<close>: Go's \<^verbatim>\<open>path/filepath\<close> and the system calls on a tree with symbolic links.
    \<open>Archive\<close>: \<^verbatim>\<open>src/pkg/archive\<close>; extraction is confined to its destination. \<open>FileOps\<close>: \<^verbatim>\<open>src/pkg/file/ops.go\<close>;
    the replacement of a file is atomic under every schedule of faults.
  \<^item> \<open>Drive\<close>: \<^verbatim>\<open>aws_drive_aggregate.go\<close>; the aggregation of the client metrics against a specification.
  \<^item> \<open>LocalProvider\<close>, \<open>LocalSafety\<close>: \<^verbatim>\<open>src/pkg/providers/local\<close>; commands that stop or remove something are
    guarded by an ownership check, a replacement repeats the creation.
  \<^item> \<open>Topology\<close>: names, members and arguments shared by the commands. \<open>ClusterHealth\<close>: the polling loops.
    \<open>LocalCommands\<close>: \<^verbatim>\<open>local up\<close>, \<^verbatim>\<open>down\<close>, \<^verbatim>\<open>status\<close>, \<^verbatim>\<open>replace\<close>.
  \<^item> \<open>AwsScripts\<close>: the scripts and the unit file of a member. \<open>AwsState\<close>: the state file and its contract.
    \<open>AwsCluster\<close>, \<open>AwsSafety\<close>: \<^verbatim>\<open>aws up\<close>, \<^verbatim>\<open>down\<close>, \<^verbatim>\<open>status\<close>, \<^verbatim>\<open>replace\<close>; no created instance is lost.
    There the provider is a record of abstract operations.
  \<^item> \<open>Download\<close>, \<open>Installer\<close>, \<open>InstallerSafety\<close>: \<^verbatim>\<open>src/internal/etcd/installer\<close> with the downloads of \<^verbatim>\<open>src/pkg/httputil\<close>
    and the manifest of \<^verbatim>\<open>src/pkg/install\<close>. What is installed matches the published checksums, offline mode asks nobody, a failed download leaves no trace.
  \<^item> \<open>Cloud\<close>: programs that call AWS (a state monad with errors, a clock and polling loops), their weakest
    preconditions and the SDK's records. \<open>Ssm\<close>, \<open>Ec2Provider\<close>, \<open>LaunchGroup\<close>: \<^verbatim>\<open>src/pkg/providers/aws\<close>, call by call:
    commands over SSM, instances and volumes, Auto Scaling groups and launch templates. \<open>Effects\<close>: logs of what such a
    program asks of the cloud. \<open>Ec2Safety\<close>: creation and replacement leak no instance, commands and their input arrive.
  \<^item> \<open>AwsDevScripts\<close>, \<open>AwsDev\<close>, \<open>AwsDevEtcd\<close>: the commands of \<^verbatim>\<open>aws_dev.go\<close> and \<^verbatim>\<open>aws_dev_etcd.go\<close> on that provider and on the
    state file. \<open>AwsDevSafety\<close>: \<^verbatim>\<open>aws dev down\<close> deletes what bears the owner token, nothing else, and all of it.
    \<open>AwsDevReach\<close>: \<^verbatim>\<open>aws dev run\<close> reaches the boxes in service and changes nothing. \<open>AwsDevUp\<close>: \<^verbatim>\<open>aws dev up\<close> leaves nothing
    that the state file does not name. What \<open>AwsDevUp\<close> puts into the state is what \<open>AwsDevSafety\<close> needs to recognise it.
  \<^item> \<open>Iam\<close>: \<^verbatim>\<open>providers/aws/iam.go\<close>. \<open>AwsIam\<close>: the command \<^verbatim>\<open>aws iam create-user\<close> of \<^verbatim>\<open>aws_iam.go\<close> on it.
    \<open>IamSafety\<close>: when the command changes what, and what it leaves behind.

  \<^bold>\<open>Correspondence.\<close> A struct is a record with the fields the model reads, an enumeration a datatype, an error
  a constructor of the component's error type or its text. State is passed explicitly; what the code gets
  from elsewhere is an argument: the etcd client and server, the container runtime, the cloud and its SDK, the
  JSON and YAML codecs, the decoders of archives, parsing of durations and versions, random names, the home
  directory, the clock. Such an argument is a function on the state \<open>'w\<close> of the outside world; what the code
  relies on is a named hypothesis and has an instance in a witness. Mutexes make critical sections atomic
  steps; goroutines are interleavings of such steps, except that goroutines which work on different instances and share
  nothing run one after the other. Lower casing is that of ASCII letters and of the two letters outside it that
  become one. The interfaces are locales, each interpreted on the model: the recording of results
  (\<open>result_recorder\<close>), identifier tables (\<open>id_table\<close>), file operations (\<open>file_ops\<close>), the state file (\<open>state_store\<close>, used by
  \<open>AwsSafety\<close>, \<open>AwsDevSafety\<close> and \<open>AwsDevUp\<close>), commuting critical sections, logged services and paced loops.

  \<^bold>\<open>Bounds and fuel.\<close> Path resolution follows at most 40 symbolic links, as Linux does. File operations take a
  list of faults, one consumed per system call; the empty list is the run without faults. Polling loops that may
  not return are \<open>partial_function\<close>, without fuel; that the loops of the cluster commands and of the replacement of a machine
  return is a theorem. The properties about the log of a program hold of every run that returns. \<^verbatim>\<open>float64\<close> is \<open>real\<close>: rounding, NaN and
  infinities are not modelled. \<^verbatim>\<open>int\<close> and \<^verbatim>\<open>int64\<close> are \<open>int\<close> where the code cannot reach the bounds, and
  wrap through \<open>64 word\<close> where it can.

  \<^bold>\<open>Not modelled.\<close> The bodies of the other scenarios, TLS and client construction, logging, rendering,
  flag parsing. Each is listed with its reason in the manifest.
\<close>

end
